(* ===== verification/Prelude.thy ===== *)
theory Prelude
  imports Main "HOL-Library.Word" "HOL-Library.Code_Target_Nat"
begin

text \<open>
  Shared vocabulary of the development: the rule collections the component
  theories extend, the result type of Rust's \<open>Result\<close>, and generic facts on
  lists and options that several components use.

  Conventions.  \<open>Result<T, E>\<close> is the sum \<open>'e + 't\<close> with \<open>Inl\<close> the error.
  \<open>usize\<close> counts are \<open>nat\<close> where no operation of the source can reach the end of
  the 64-bit range, machine words elsewhere.  An operation on \<open>&mut self\<close> returns
  the new state next to its result.
\<close>

named_theorems bytes_simps \<open>lengths and splits of UTF-8 text\<close>
named_theorems cursor_simps \<open>the scanner's cursor: what each move does to the rest of the text\<close>
named_theorems chan_simps \<open>one-lock operations of the output channel\<close>
named_theorems sched_simps \<open>state changes of the mutation scheduler\<close>

type_synonym ('e, 'a) rust_result = "'e + 'a"

abbreviation is_ok :: "'e + 'a \<Rightarrow> bool" where
  "is_ok r \<equiv> \<not> isl r"

text \<open>\<open>Option::get_or_insert\<close>: the first value stored wins.\<close>

definition get_or_insert :: "'a option \<Rightarrow> 'a \<Rightarrow> 'a option" where
  "get_or_insert o1 x = (case o1 of None \<Rightarrow> Some x | Some y \<Rightarrow> Some y)"

lemma get_or_insert_simps [simp]:
  "get_or_insert None x = Some x"
  "get_or_insert (Some y) x = Some y"
  "get_or_insert o1 x \<noteq> None"
  by (auto simp: get_or_insert_def split: option.splits)

text \<open>\<open>bytes.get(i)\<close>: indexing that answers \<open>None\<close> out of range.\<close>

definition nth_opt :: "'a list \<Rightarrow> nat \<Rightarrow> 'a option" where
  "nth_opt xs i = (if i < length xs then Some (xs ! i) else None)"

lemma nth_opt_Some [simp]: "nth_opt xs i = Some x \<longleftrightarrow> i < length xs \<and> xs ! i = x"
  by (auto simp: nth_opt_def)

lemma nth_opt_None [simp]: "nth_opt xs i = None \<longleftrightarrow> length xs \<le> i"
  by (auto simp: nth_opt_def)

text \<open>\<open>saturating_add\<close> and \<open>saturating_mul\<close> on 64-bit unsigned counts.\<close>

definition u64_max :: nat where
  "u64_max = 2 ^ 64 - 1"

definition sat_add64 :: "nat \<Rightarrow> nat \<Rightarrow> nat" where
  "sat_add64 a b = min (a + b) u64_max"

lemma sat_add64_gt_iff: "n < u64_max \<Longrightarrow> n < sat_add64 a b \<longleftrightarrow> n < a + b"
  by (auto simp: sat_add64_def)

lemma unat_lt: "unat (w :: 'a::len word) < 2 ^ LENGTH('a)"
  by (rule unsigned_less)

text \<open>\<open>checked_add\<close> and \<open>checked_mul\<close> on unsigned words.\<close>

definition checked_add :: "'a::len word \<Rightarrow> 'a word \<Rightarrow> 'a word option" where
  "checked_add a b = (if unat a + unat b < 2 ^ LENGTH('a) then Some (a + b) else None)"

definition checked_mul :: "'a::len word \<Rightarrow> 'a word \<Rightarrow> 'a word option" where
  "checked_mul a b = (if unat a * unat b < 2 ^ LENGTH('a) then Some (a * b) else None)"

lemma checked_add_Some:
  "checked_add (a :: 'a::len word) b = Some c \<longleftrightarrow> unat a + unat b < 2 ^ LENGTH('a) \<and> unat c = unat a + unat b"
  by (auto simp: checked_add_def unat_word_ariths word_unat_eq_iff)

lemma checked_mul_Some:
  "checked_mul (a :: 'a::len word) b = Some c \<longleftrightarrow> unat a * unat b < 2 ^ LENGTH('a) \<and> unat c = unat a * unat b"
  by (auto simp: checked_mul_def unat_word_ariths word_unat_eq_iff)

text \<open>Removing one element of a queue by position (\<open>VecDeque::remove\<close>).\<close>

definition remove_at :: "nat \<Rightarrow> 'a list \<Rightarrow> 'a list" where
  "remove_at i xs = take i xs @ drop (Suc i) xs"

lemma length_remove_at [simp]: "i < length xs \<Longrightarrow> length (remove_at i xs) = length xs - 1"
  by (simp add: remove_at_def)

lemma set_remove_at_subset: "set (remove_at i xs) \<subseteq> set xs"
  unfolding remove_at_def using set_take_subset set_drop_subset by fastforce

lemma remove_at_split:
  "i < length xs \<Longrightarrow> \<exists>as bs. xs = as @ xs ! i # bs \<and> length as = i \<and> remove_at i xs = as @ bs"
  by (rule exI [of _ "take i xs"], rule exI [of _ "drop (Suc i) xs"])
    (simp add: remove_at_def id_take_nth_drop)

text \<open>\<open>Iterator::position\<close>: the index of the first element that satisfies a predicate.\<close>

fun find_index :: "('a \<Rightarrow> bool) \<Rightarrow> 'a list \<Rightarrow> nat option" where
  "find_index P [] = None"
| "find_index P (x # xs) = (if P x then Some 0 else map_option Suc (find_index P xs))"

lemma find_index_Some:
  "find_index P xs = Some i \<Longrightarrow> i < length xs \<and> P (xs ! i) \<and> (\<forall>j<i. \<not> P (xs ! j))"
  by (induction P xs arbitrary: i rule: find_index.induct)
    (auto split: if_splits simp: less_Suc_eq_0_disj nth_Cons')

lemma find_index_None: "find_index P xs = None \<longleftrightarrow> (\<forall>x\<in>set xs. \<not> P x)"
  by (induction P xs rule: find_index.induct) auto

text \<open>The minimum of a list of instants, as \<open>Iterator::min\<close> computes it.\<close>

fun list_min :: "nat list \<Rightarrow> nat option" where
  "list_min [] = None"
| "list_min (x # xs) = (case list_min xs of None \<Rightarrow> Some x | Some y \<Rightarrow> Some (min x y))"

lemma list_min_None [simp]: "list_min xs = None \<longleftrightarrow> xs = []"
  by (cases xs) (auto split: option.splits)

lemma list_min_Some_mem: "list_min xs = Some m \<Longrightarrow> m \<in> set xs"
  by (induction xs arbitrary: m) (auto split: option.splits if_splits simp: min_def)

lemma list_min_Some_le: "list_min xs = Some m \<Longrightarrow> x \<in> set xs \<Longrightarrow> m \<le> x"
  by (induction xs arbitrary: m) (auto split: option.splits simp: min_def)

end
