(* ===== verification/Rust_Text.thy ===== *)
theory Rust_Text
  imports Prelude
begin

text \<open>
  Rust's \<open>char\<close> and \<open>str\<close>.  A \<open>char\<close> is its code point; a \<open>str\<close> is the list of its
  characters; lengths and offsets count UTF-8 bytes, as Rust's do.
  \<open>take_bytes n s\<close> and \<open>drop_bytes n s\<close> are the slices \<open>&s[..n]\<close> and \<open>&s[n..]\<close> for an
  offset \<open>n\<close> on a character boundary; for another offset (where Rust panics)
  they round down, and the components prove that they never slice there.
\<close>

type_synonym uchar = nat
type_synonym ustr = "uchar list"
type_synonym byte = "8 word"

definition lit :: "string \<Rightarrow> ustr" where
  "lit s = map of_char s"

definition len_utf8 :: "uchar \<Rightarrow> nat" where
  "len_utf8 c = (if c < 0x80 then 1 else if c < 0x800 then 2 else if c < 0x10000 then 3 else 4)"

lemma len_utf8_pos [simp]: "0 < len_utf8 c" "len_utf8 c \<noteq> 0" "Suc 0 \<le> len_utf8 c"
  by (auto simp: len_utf8_def)

lemma len_utf8_le4: "len_utf8 c \<le> 4"
  by (auto simp: len_utf8_def)

definition byte_len :: "ustr \<Rightarrow> nat" where
  "byte_len s = sum_list (map len_utf8 s)"

lemma byte_len_simps [simp, bytes_simps]:
  "byte_len [] = 0"
  "byte_len (c # s) = len_utf8 c + byte_len s"
  "byte_len (s @ t) = byte_len s + byte_len t"
  by (simp_all add: byte_len_def)

lemma byte_len_eq_0 [simp]: "byte_len s = 0 \<longleftrightarrow> s = []"
  by (cases s) auto

lemma byte_len_pos [simp]: "0 < byte_len s \<longleftrightarrow> s \<noteq> []"
  by (cases s) auto

lemma length_le_byte_len: "length s \<le> byte_len s"
proof (induction s)
  case (Cons c s)
  then show ?case using len_utf8_pos(1) [of c] by (simp del: len_utf8_pos)
qed simp

fun take_bytes :: "nat \<Rightarrow> ustr \<Rightarrow> ustr" where
  "take_bytes n [] = []"
| "take_bytes n (c # s) = (if len_utf8 c \<le> n then c # take_bytes (n - len_utf8 c) s else [])"

fun drop_bytes :: "nat \<Rightarrow> ustr \<Rightarrow> ustr" where
  "drop_bytes n [] = []"
| "drop_bytes n (c # s) = (if len_utf8 c \<le> n then drop_bytes (n - len_utf8 c) s else c # s)"

lemma take_drop_bytes [simp]: "take_bytes n s @ drop_bytes n s = s"
  by (induction n s rule: take_bytes.induct) auto

lemma drop_bytes_0 [simp]: "drop_bytes 0 s = s"
  by (cases s) auto

lemma take_bytes_0 [simp]: "take_bytes 0 s = []"
  by (cases s) auto

lemma byte_len_take_bytes_le: "byte_len (take_bytes n s) \<le> n"
  by (induction n s rule: take_bytes.induct) auto

lemma byte_len_take_bytes_le_len: "byte_len (take_bytes n s) \<le> byte_len s"
  by (induction n s rule: take_bytes.induct) auto

lemma take_bytes_all: "byte_len s \<le> n \<Longrightarrow> take_bytes n s = s"
  by (induction n s rule: take_bytes.induct) auto

lemma drop_bytes_all: "byte_len s \<le> n \<Longrightarrow> drop_bytes n s = []"
  by (induction n s rule: drop_bytes.induct) auto

lemma drop_bytes_Nil_iff: "drop_bytes n s = [] \<longleftrightarrow> byte_len s \<le> n"
  by (induction n s rule: drop_bytes.induct) auto

lemma take_bytes_append [simp]: "take_bytes (byte_len s) (s @ t) = s"
  by (induction s) auto

lemma drop_bytes_append [simp]: "drop_bytes (byte_len s) (s @ t) = t"
  by (induction s) auto

lemma drop_bytes_append_more: "drop_bytes (byte_len s + n) (s @ t) = drop_bytes n t"
  by (induction s) auto

lemma byte_len_drop_bytes: "byte_len (drop_bytes n s) = byte_len s - byte_len (take_bytes n s)"
proof -
  have "byte_len s = byte_len (take_bytes n s) + byte_len (drop_bytes n s)"
    by (metis byte_len_simps(3) take_drop_bytes)
  then show ?thesis by simp
qed

lemma drop_bytes_step_shorter:
  "drop_bytes b s = c # r \<Longrightarrow> length (drop_bytes (b + len_utf8 c) s) < Suc (length r)"
proof (induction b s rule: drop_bytes.induct)
  case (1 n)
  then show ?case by simp
next
  case (2 n d s)
  have short: "length (drop_bytes m t) \<le> length t" for m t
    by (induction m t rule: drop_bytes.induct) auto
  show ?case
  proof (cases "len_utf8 d \<le> n")
    case True
    with 2 show ?thesis by auto
  next
    case False
    with 2 show ?thesis using short [of _ s] by (auto simp: le_imp_less_Suc)
  qed
qed

text \<open>Offsets on a character boundary: the start of a character, or the end.\<close>

definition is_char_boundary :: "ustr \<Rightarrow> nat \<Rightarrow> bool" where
  "is_char_boundary s n \<longleftrightarrow> byte_len (take_bytes n s) = n"

lemma is_char_boundary_0 [simp]: "is_char_boundary s 0"
  by (simp add: is_char_boundary_def)

lemma is_char_boundary_prefix: "is_char_boundary (s @ t) (byte_len s)"
  by (simp add: is_char_boundary_def)

lemma is_char_boundary_iff: "is_char_boundary s n \<longleftrightarrow> (\<exists>k\<le>length s. n = byte_len (take k s))"
proof
  assume b: "is_char_boundary s n"
  have "take_bytes n s = take (length (take_bytes n s)) s"
    by (metis append_eq_conv_conj take_drop_bytes)
  moreover have "length (take_bytes n s) \<le> length s"
    by (metis le_add1 length_append take_drop_bytes)
  ultimately show "\<exists>k\<le>length s. n = byte_len (take k s)"
    using b unfolding is_char_boundary_def by metis
next
  assume "\<exists>k\<le>length s. n = byte_len (take k s)"
  then obtain k where "n = byte_len (take k s)" by blast
  then show "is_char_boundary s n"
    using is_char_boundary_prefix [of "take k s" "drop k s"] by simp
qed

lemma is_char_boundary_le: "is_char_boundary s n \<Longrightarrow> n \<le> byte_len s"
  using byte_len_take_bytes_le_len [of n s] by (simp add: is_char_boundary_def)

lemma drop_bytes_step:
  assumes "is_char_boundary s b" and "drop_bytes b s = c # r"
  shows "drop_bytes (b + len_utf8 c) s = r" and "is_char_boundary s (b + len_utf8 c)"
proof -
  let ?p = "take_bytes b s"
  have s: "s = (?p @ [c]) @ r" using assms(2) take_drop_bytes [of b s] by simp
  have l: "byte_len (?p @ [c]) = b + len_utf8 c"
    using assms(1) by (simp add: is_char_boundary_def)
  show "drop_bytes (b + len_utf8 c) s = r"
    using drop_bytes_append [of "?p @ [c]" r] s l by metis
  show "is_char_boundary s (b + len_utf8 c)"
    using is_char_boundary_prefix [of "?p @ [c]" r] s l by metis
qed

lemma take_bytes_step:
  assumes "is_char_boundary s b" and "drop_bytes b s = c # r"
  shows "take_bytes (b + len_utf8 c) s = take_bytes b s @ [c]"
proof -
  let ?p = "take_bytes b s"
  have s: "s = (?p @ [c]) @ r" using assms(2) take_drop_bytes [of b s] by simp
  have l: "byte_len (?p @ [c]) = b + len_utf8 c"
    using assms(1) by (simp add: is_char_boundary_def)
  show ?thesis using take_bytes_append [of "?p @ [c]" r] s l by metis
qed

text \<open>\<open>str::find\<close> with a character predicate: the byte offset of the first match.\<close>

fun str_find :: "(uchar \<Rightarrow> bool) \<Rightarrow> ustr \<Rightarrow> nat option" where
  "str_find P [] = None"
| "str_find P (c # s) = (if P c then Some 0 else map_option (\<lambda>n. len_utf8 c + n) (str_find P s))"

lemma str_find_Some: "str_find P s = Some n \<Longrightarrow> n = byte_len (takeWhile (\<lambda>c. \<not> P c) s) \<and> (\<exists>c\<in>set s. P c)"
  by (induction P s arbitrary: n rule: str_find.induct) (auto split: if_splits)

lemma str_find_None: "str_find P s = None \<longleftrightarrow> (\<forall>c\<in>set s. \<not> P c)"
  by (induction P s rule: str_find.induct) auto

lemma take_bytes_str_find:
  "take_bytes (case str_find P s of None \<Rightarrow> byte_len s | Some n \<Rightarrow> n) s = takeWhile (\<lambda>c. \<not> P c) s"
proof (cases "str_find P s")
  case None
  then have "\<forall>c\<in>set s. \<not> P c" by (simp only: str_find_None)
  then have tw: "takeWhile (\<lambda>c. \<not> P c) s = s"
    by (simp add: takeWhile_eq_all_conv)
  show ?thesis by (simp only: None option.case take_bytes_all [OF order_refl] tw)
next
  case (Some n)
  have "take_bytes (byte_len (takeWhile (\<lambda>c. \<not> P c) s)) s = takeWhile (\<lambda>c. \<not> P c) s"
    by (metis take_bytes_append takeWhile_dropWhile_id)
  with Some show ?thesis by (auto dest: str_find_Some)
qed

text \<open>\<open>char::is_whitespace\<close> (the Unicode property White\_Space), \<open>char::is_control\<close> (the
  category Cc) and the ASCII classes the source uses.\<close>

definition is_whitespace :: "uchar \<Rightarrow> bool" where
  "is_whitespace c \<longleftrightarrow> (9 \<le> c \<and> c \<le> 13) \<or> c = 0x20 \<or> c = 0x85 \<or> c = 0xA0 \<or> c = 0x1680
     \<or> (0x2000 \<le> c \<and> c \<le> 0x200A) \<or> c = 0x2028 \<or> c = 0x2029 \<or> c = 0x202F \<or> c = 0x205F \<or> c = 0x3000"

definition is_control :: "uchar \<Rightarrow> bool" where
  "is_control c \<longleftrightarrow> c < 0x20 \<or> (0x7F \<le> c \<and> c < 0xA0)"

definition is_ascii_digit :: "uchar \<Rightarrow> bool" where
  "is_ascii_digit c \<longleftrightarrow> 48 \<le> c \<and> c \<le> 57"

definition is_ascii_hexdigit :: "uchar \<Rightarrow> bool" where
  "is_ascii_hexdigit c \<longleftrightarrow> is_ascii_digit c \<or> (65 \<le> c \<and> c \<le> 70) \<or> (97 \<le> c \<and> c \<le> 102)"

definition to_ascii_uppercase :: "uchar \<Rightarrow> uchar" where
  "to_ascii_uppercase c = (if 97 \<le> c \<and> c \<le> 122 then c - 32 else c)"

text \<open>The characters of the source's patterns.\<close>

abbreviation (input) ch_tab :: uchar where "ch_tab \<equiv> 9"
abbreviation (input) ch_lf :: uchar where "ch_lf \<equiv> 10"
abbreviation (input) ch_cr :: uchar where "ch_cr \<equiv> 13"
abbreviation (input) ch_esc :: uchar where "ch_esc \<equiv> 27"
abbreviation (input) ch_space :: uchar where "ch_space \<equiv> 32"
abbreviation (input) ch_dquote :: uchar where "ch_dquote \<equiv> 34"
abbreviation (input) ch_quote :: uchar where "ch_quote \<equiv> 39"
abbreviation (input) ch_lparen :: uchar where "ch_lparen \<equiv> 40"
abbreviation (input) ch_rparen :: uchar where "ch_rparen \<equiv> 41"
abbreviation (input) ch_plus :: uchar where "ch_plus \<equiv> 43"
abbreviation (input) ch_minus :: uchar where "ch_minus \<equiv> 45"
abbreviation (input) ch_dot :: uchar where "ch_dot \<equiv> 46"
abbreviation (input) ch_semi :: uchar where "ch_semi \<equiv> 59"
abbreviation (input) ch_bslash :: uchar where "ch_bslash \<equiv> 92"
abbreviation (input) ch_bar :: uchar where "ch_bar \<equiv> 124"

text \<open>\<open>str::as_bytes\<close>: the UTF-8 encoding.\<close>

definition encode_char :: "uchar \<Rightarrow> byte list" where
  "encode_char c =
     (if c < 0x80 then [of_nat c]
      else if c < 0x800 then [of_nat (0xC0 + c div 64), of_nat (0x80 + c mod 64)]
      else if c < 0x10000 then
        [of_nat (0xE0 + c div 4096), of_nat (0x80 + c div 64 mod 64), of_nat (0x80 + c mod 64)]
      else [of_nat (0xF0 + c div 262144), of_nat (0x80 + c div 4096 mod 64),
            of_nat (0x80 + c div 64 mod 64), of_nat (0x80 + c mod 64)])"

definition as_bytes :: "ustr \<Rightarrow> byte list" where
  "as_bytes s = concat (map encode_char s)"

lemma length_encode_char [simp]: "length (encode_char c) = len_utf8 c"
  by (simp add: encode_char_def len_utf8_def)

lemma as_bytes_simps [simp, bytes_simps]:
  "as_bytes [] = []"
  "as_bytes (c # s) = encode_char c @ as_bytes s"
  "as_bytes (s @ t) = as_bytes s @ as_bytes t"
  by (simp_all add: as_bytes_def)

lemma length_as_bytes [simp, bytes_simps]: "length (as_bytes s) = byte_len s"
  by (induction s) auto

text \<open>\<open>str::from_utf8\<close>: the first byte gives the width, the others carry six bits each; a sequence is
  accepted when it is the encoding of the scalar value it spells.\<close>

definition is_scalar :: "uchar \<Rightarrow> bool" where
  "is_scalar c \<longleftrightarrow> c < 0xD800 \<or> (0xE000 \<le> c \<and> c \<le> 0x10FFFF)"

definition spelled_char :: "byte list \<Rightarrow> uchar" where
  "spelled_char bs = (case map unat bs of
     [a] \<Rightarrow> a
   | [a, b] \<Rightarrow> a mod 32 * 64 + b mod 64
   | [a, b, c] \<Rightarrow> a mod 16 * 4096 + b mod 64 * 64 + c mod 64
   | [a, b, c, d] \<Rightarrow> a mod 8 * 262144 + b mod 64 * 4096 + c mod 64 * 64 + d mod 64
   | _ \<Rightarrow> 0)"

definition lead_width :: "byte \<Rightarrow> nat" where
  "lead_width b = (if b < 0x80 then 1 else if b < 0xE0 then 2 else if b < 0xF0 then 3 else 4)"

function from_utf8 :: "byte list \<Rightarrow> ustr option" where
  "from_utf8 bs =
     (if bs = [] then Some []
      else if length bs < lead_width (hd bs) then None
      else if is_scalar (spelled_char (take (lead_width (hd bs)) bs))
          \<and> encode_char (spelled_char (take (lead_width (hd bs)) bs)) = take (lead_width (hd bs)) bs
      then map_option (\<lambda>s. spelled_char (take (lead_width (hd bs)) bs) # s)
             (from_utf8 (drop (lead_width (hd bs)) bs))
      else None)"
  by pat_completeness auto
termination
  by (relation "measure length") (auto simp: lead_width_def)

declare from_utf8.simps [simp del]

lemma from_utf8_Some: "from_utf8 bs = Some s \<Longrightarrow> as_bytes s = bs \<and> list_all is_scalar s"
proof (induction bs arbitrary: s rule: from_utf8.induct)
  case (1 bs)
  show ?case
  proof (cases "bs = []")
    case True
    with 1(2) show ?thesis by (simp add: from_utf8.simps)
  next
    case False
    let ?w = "lead_width (hd bs)"
    from 1(2) False obtain t where ok: "\<not> length bs < ?w"
        "is_scalar (spelled_char (take ?w bs)) \<and> encode_char (spelled_char (take ?w bs)) = take ?w bs"
        and t: "from_utf8 (drop ?w bs) = Some t" "s = spelled_char (take ?w bs) # t"
      by (subst (asm) from_utf8.simps) (auto split: if_splits)
    from 1(1) [OF False ok t(1)] ok t(2) show ?thesis by simp
  qed
qed

text \<open>Decimal rendering of integers, as \<open>{}\<close> in a format string prints them.\<close>

fun dec_nat :: "nat \<Rightarrow> ustr" where
  "dec_nat n = (if n < 10 then [48 + n] else dec_nat (n div 10) @ [48 + n mod 10])"

declare dec_nat.simps [simp del]

definition dec_int :: "int \<Rightarrow> ustr" where
  "dec_int i = (if i < 0 then ch_minus # dec_nat (nat (- i)) else dec_nat (nat i))"

lemma dec_nat_digits: "\<forall>c\<in>set (dec_nat n). is_ascii_digit c"
proof (induction n rule: dec_nat.induct)
  case (1 n)
  show ?case
  proof (cases "n < 10")
    case True
    then show ?thesis by (subst dec_nat.simps) (simp add: is_ascii_digit_def)
  next
    case False
    have "n mod 10 < 10" by simp
    with False 1 show ?thesis
      by (subst dec_nat.simps) (auto simp: is_ascii_digit_def dest!: less_Suc_eq_le [THEN iffD1, of _ 9, simplified])
  qed
qed

lemma dec_nat_nonempty [simp]: "dec_nat n \<noteq> []"
  by (subst dec_nat.simps) simp

end
