(* ===== verification/Diagnostic.thy ===== *)
theory Diagnostic
  imports Rust_Text
begin

text \<open>
  Bounded diagnostics, \<open>crates/plugin/src/exec/diagnostic.rs\<close>: a message is cut at a
  character boundary and marked when it exceeds the diagnostic limit, or when the
  native host says it cut it already.
\<close>

definition MAX_DIAGNOSTIC_BYTES :: nat where
  "MAX_DIAGNOSTIC_BYTES = 16 * 1024"

definition DIAGNOSTIC_TRUNCATION_SUFFIX :: ustr where
  "DIAGNOSTIC_TRUNCATION_SUFFIX = lit ''... [truncated]''"

text \<open>\<open>while !message.is_char_boundary(end) { end -= 1 }\<close>\<close>

fun back_to_boundary :: "ustr \<Rightarrow> nat \<Rightarrow> nat" where
  "back_to_boundary s n =
     (if is_char_boundary s n then n else case n of 0 \<Rightarrow> 0 | Suc m \<Rightarrow> back_to_boundary s m)"

declare back_to_boundary.simps [simp del]

definition bound_diagnostic_with_native_truncation :: "ustr \<Rightarrow> bool \<Rightarrow> ustr" where
  "bound_diagnostic_with_native_truncation message native_truncated =
     (if \<not> native_truncated \<and> byte_len message \<le> MAX_DIAGNOSTIC_BYTES then message
      else
        (let end0 = min (byte_len message) (MAX_DIAGNOSTIC_BYTES - byte_len DIAGNOSTIC_TRUNCATION_SUFFIX)
         in take_bytes (back_to_boundary message end0) message @ DIAGNOSTIC_TRUNCATION_SUFFIX))"

definition bound_diagnostic :: "ustr \<Rightarrow> ustr" where
  "bound_diagnostic message = bound_diagnostic_with_native_truncation message False"

definition bounded_diagnostic :: "ustr \<Rightarrow> ustr" where
  "bounded_diagnostic message = bound_diagnostic message"

definition bounded_native_diagnostic :: "ustr \<Rightarrow> bool \<Rightarrow> ustr" where
  "bounded_native_diagnostic message native_truncated =
     bound_diagnostic_with_native_truncation message native_truncated"

definition append_diagnostic :: "ustr \<Rightarrow> ustr \<Rightarrow> ustr" where
  "append_diagnostic message detail = bound_diagnostic (message @ lit ''; '' @ detail)"

lemma take_bytes_Suc_off: "\<not> is_char_boundary s (Suc n) \<Longrightarrow> take_bytes (Suc n) s = take_bytes n s"
proof (induction n s rule: take_bytes.induct)
  case (2 n c s)
  show ?case
  proof (cases "len_utf8 c \<le> n")
    case True
    then have "Suc n - len_utf8 c = Suc (n - len_utf8 c)" by simp
    with 2 True show ?thesis by (auto simp: is_char_boundary_def)
  next
    case False
    with 2(2) show ?thesis by (auto simp: is_char_boundary_def le_Suc_eq)
  qed
qed simp

lemma back_to_boundary_take: "back_to_boundary s n = byte_len (take_bytes n s)"
proof (induction n)
  case 0
  then show ?case by (subst back_to_boundary.simps) simp
next
  case (Suc n)
  then show ?case
    by (subst back_to_boundary.simps)
      (auto simp: take_bytes_Suc_off is_char_boundary_def [THEN iffD1])
qed

lemma take_bytes_take [simp]: "take_bytes (byte_len (take_bytes n s)) s = take_bytes n s"
  by (metis take_bytes_append take_drop_bytes)

lemma byte_len_ascii: "\<forall>c\<in>set s. c < 0x80 \<Longrightarrow> byte_len s = length s"
  by (induction s) (auto simp: len_utf8_def)

lemma byte_len_suffix: "byte_len DIAGNOSTIC_TRUNCATION_SUFFIX = 15"
  by code_simp

lemma bound_diagnostic_native_form:
  "bound_diagnostic_with_native_truncation message t =
     (if \<not> t \<and> byte_len message \<le> MAX_DIAGNOSTIC_BYTES then message
      else take_bytes (MAX_DIAGNOSTIC_BYTES - 15) message @ DIAGNOSTIC_TRUNCATION_SUFFIX)"
proof -
  have "take_bytes (min (byte_len message) n) message = take_bytes n message" for n
    by (cases "byte_len message \<le> n") (simp_all add: take_bytes_all min_def)
  then show ?thesis
    by (simp add: bound_diagnostic_with_native_truncation_def back_to_boundary_take byte_len_suffix)
qed

lemma bound_diagnostic_le: "byte_len (bound_diagnostic_with_native_truncation m t) \<le> MAX_DIAGNOSTIC_BYTES"
  using byte_len_take_bytes_le [of "MAX_DIAGNOSTIC_BYTES - 15" m]
  by (auto simp: bound_diagnostic_native_form byte_len_suffix MAX_DIAGNOSTIC_BYTES_def)

lemma bounded_diagnostic_le [simp]:
  "byte_len (bounded_diagnostic m) \<le> MAX_DIAGNOSTIC_BYTES"
  "byte_len (append_diagnostic m d) \<le> MAX_DIAGNOSTIC_BYTES"
  "byte_len (bounded_native_diagnostic m t) \<le> MAX_DIAGNOSTIC_BYTES"
  by (simp_all add: bounded_diagnostic_def append_diagnostic_def bounded_native_diagnostic_def
      bound_diagnostic_def bound_diagnostic_le)

text \<open>A diagnostic within the limit is unchanged; any other keeps a prefix of the message, at
  most one character short of all that fits in front of the truncation mark, and the result
  is within the limit.\<close>

lemma diagnostic_bounded:
  "(if \<not> t \<and> byte_len m \<le> MAX_DIAGNOSTIC_BYTES then bounded_native_diagnostic m t = m
    else \<exists>p r. m = p @ r \<and> bounded_native_diagnostic m t = p @ DIAGNOSTIC_TRUNCATION_SUFFIX
      \<and> (r = [] \<or> MAX_DIAGNOSTIC_BYTES < byte_len p + len_utf8 (hd r) + byte_len DIAGNOSTIC_TRUNCATION_SUFFIX))
   \<and> byte_len (bounded_native_diagnostic m t) \<le> MAX_DIAGNOSTIC_BYTES"
proof -
  have tight: "drop_bytes n s = [] \<or> n < byte_len (take_bytes n s) + len_utf8 (hd (drop_bytes n s))" for n s
    by (induction n s rule: take_bytes.induct) auto
  show ?thesis
  proof (cases "\<not> t \<and> byte_len m \<le> MAX_DIAGNOSTIC_BYTES")
    case True
    then show ?thesis
      by (simp add: bounded_native_diagnostic_def bound_diagnostic_native_form)
  next
    case False
    let ?n = "MAX_DIAGNOSTIC_BYTES - 15"
    have "drop_bytes ?n m = [] \<or> MAX_DIAGNOSTIC_BYTES
        < byte_len (take_bytes ?n m) + len_utf8 (hd (drop_bytes ?n m)) + 15"
      using tight [of ?n m] by (auto simp: MAX_DIAGNOSTIC_BYTES_def)
    with False show ?thesis
      by (simp add: bounded_native_diagnostic_def bound_diagnostic_native_form byte_len_suffix
          bound_diagnostic_le [of m t, unfolded bound_diagnostic_native_form])
        (metis take_drop_bytes)
  qed
qed

end
