(* ===== verification/Output_Channel.thy ===== *)
theory Output_Channel
  imports Diagnostic
begin

text \<open>
  The bounded output channel of an execution, \<open>crates/plugin/src/exec/output.rs\<close>.
  Every operation holds the channel's lock throughout, so each is one function on
  the locked state; \<open>emit\<close>, which gives the lock up while it waits for space, is a
  function of one locked turn (\<open>emit_turn\<close>) and the loop over turns.  Next to its
  result an operation returns which of the two wake-ups it sends.
\<close>

section \<open>Data\<close>

definition OUTPUT_CHUNK_BYTES :: nat where
  "OUTPUT_CHUNK_BYTES = 16 * 1024"

definition OUTPUT_BUFFER_BYTES :: nat where
  "OUTPUT_BUFFER_BYTES = 256 * 1024"

datatype terminal_state = TDisconnected | TCancelled | TStopped | TFinished

text \<open>\<open>NativeOutputWriteResult\<close> of the bridge, re-exported as \<open>EmitResult\<close>.\<close>

datatype emit_result =
  EContinue | EInactive | EDisconnected | ECancelled | EStopped | EFinished | EInvalidSequence
  | ELimitExceeded

record channel =
  ch_ready :: "ustr list"
  ch_pending :: ustr
  ch_queued :: nat
  ch_terminal :: "terminal_state option"
  ch_producers :: nat

text \<open>The wake-ups: \<open>space_available.notify_all()\<close> and \<open>data_available.notify_one()\<close>.\<close>

record wakes =
  wk_space :: bool
  wk_data :: bool

definition no_wake :: wakes where "no_wake = \<lparr>wk_space = False, wk_data = False\<rparr>"
definition wake_data :: wakes where "wake_data = \<lparr>wk_space = False, wk_data = True\<rparr>"
definition wake_space :: wakes where "wake_space = \<lparr>wk_space = True, wk_data = False\<rparr>"
definition wake_all :: wakes where "wake_all = \<lparr>wk_space = True, wk_data = True\<rparr>"

definition new_channel :: channel where
  "new_channel = \<lparr>ch_ready = [], ch_pending = [], ch_queued = 0, ch_terminal = None, ch_producers = 1\<rparr>"

section \<open>Operations\<close>

definition channel_emit_result :: "channel \<Rightarrow> emit_result" where
  "channel_emit_result ch = (case ch_terminal ch of
     Some TDisconnected \<Rightarrow> EDisconnected
   | Some TStopped \<Rightarrow> EStopped
   | Some TCancelled \<Rightarrow> ECancelled
   | Some TFinished \<Rightarrow> EFinished
   | None \<Rightarrow> EContinue)"

definition utf8_prefix_len :: "ustr \<Rightarrow> nat \<Rightarrow> nat" where
  "utf8_prefix_len text limit = back_to_boundary text (min limit (byte_len text))"

text \<open>The pending text first fills up the last ready chunk; what is left becomes a chunk.\<close>

definition publish_pending :: "channel \<Rightarrow> channel" where
  "publish_pending ch =
     (if ch_pending ch = [] then ch
      else
        (let ch1 = (if ch_ready ch = [] then ch
                    else
                      (let chunk = last (ch_ready ch);
                           byte_count = utf8_prefix_len (ch_pending ch) (OUTPUT_CHUNK_BYTES - byte_len chunk)
                       in if byte_count \<noteq> 0 then
                            ch\<lparr>ch_ready := butlast (ch_ready ch) @ [chunk @ take_bytes byte_count (ch_pending ch)],
                               ch_pending := drop_bytes byte_count (ch_pending ch)\<rparr>
                          else ch))
         in if ch_pending ch1 \<noteq> [] then
              ch1\<lparr>ch_ready := ch_ready ch1 @ [ch_pending ch1], ch_pending := []\<rparr>
            else ch1))"

definition sink_clone :: "channel \<Rightarrow> channel" where
  "sink_clone ch = ch\<lparr>ch_producers := ch_producers ch + 1\<rparr>"

text \<open>What one turn of \<open>emit\<close> with the lock held ends with: the call returns, the rest of the
  text is left to emit, or the call waits on the condition variable.\<close>

datatype emit_turn = TurnReturn emit_result | TurnMore ustr | TurnWait

definition space_for :: "channel \<Rightarrow> ustr \<Rightarrow> nat" where
  "space_for ch text = utf8_prefix_len text
     (min (OUTPUT_CHUNK_BYTES - byte_len (ch_pending ch)) (OUTPUT_BUFFER_BYTES - ch_queued ch))"

definition push_fragment :: "channel \<Rightarrow> ustr \<Rightarrow> nat \<Rightarrow> emit_turn \<times> channel \<times> wakes" where
  "push_fragment ch text byte_count =
     (let ch1 = ch\<lparr>ch_pending := ch_pending ch @ take_bytes byte_count text,
                   ch_queued := ch_queued ch + byte_count\<rparr>;
          text1 = drop_bytes byte_count text
      in if byte_len (ch_pending ch1) = OUTPUT_CHUNK_BYTES
         then (TurnMore text1, publish_pending ch1, wake_data)
         else (TurnMore text1, ch1, no_wake))"

definition emit_turn :: "channel \<Rightarrow> ustr \<Rightarrow> emit_turn \<times> channel \<times> wakes" where
  "emit_turn ch text =
     (if channel_emit_result ch \<noteq> EContinue then (TurnReturn (channel_emit_result ch), ch, no_wake)
      else if space_for ch text \<noteq> 0 then push_fragment ch text (space_for ch text)
      else if ch_pending ch \<noteq> [] then
        (let ch1 = publish_pending ch in
         if space_for ch1 text \<noteq> 0 then
           (case push_fragment ch1 text (space_for ch1 text) of (t, ch2, _) \<Rightarrow> (t, ch2, wake_data))
         else (TurnWait, ch1, wake_data))
      else (TurnWait, ch, no_wake))"

text \<open>\<open>emit\<close> without another thread taking the lock in between: it returns, or it waits with
  the rest of the text (\<open>None\<close>).\<close>

lemma utf8_prefix_len_eq: "utf8_prefix_len text limit = byte_len (take_bytes limit text)"
proof -
  have "take_bytes (min limit (byte_len text)) text = take_bytes limit text"
    by (cases "byte_len text \<le> limit") (simp_all add: take_bytes_all min_def)
  then show ?thesis by (simp add: utf8_prefix_len_def back_to_boundary_take)
qed

lemma length_drop_bytes_less:
  "take_bytes n s \<noteq> [] \<Longrightarrow> length (drop_bytes n s) < length s"
proof -
  assume "take_bytes n s \<noteq> []"
  moreover have "length (take_bytes n s) + length (drop_bytes n s) = length s"
    by (metis length_append take_drop_bytes)
  ultimately show ?thesis by (cases "take_bytes n s") auto
qed

lemma space_for_pos: "space_for ch text \<noteq> 0 \<Longrightarrow> take_bytes (space_for ch text) text \<noteq> []"
  by (simp add: space_for_def utf8_prefix_len_eq)

lemma emit_turn_more_shorter:
  "(TurnMore text1, r) = emit_turn ch text \<Longrightarrow> length text1 < length text"
  unfolding emit_turn_def push_fragment_def Let_def
  by (auto split: if_splits intro!: length_drop_bytes_less space_for_pos)

function emit_loop :: "channel \<Rightarrow> ustr \<Rightarrow> emit_result option \<times> channel \<times> ustr" where
  "emit_loop ch text =
     (if text = [] then (Some EContinue, ch, [])
      else (case emit_turn ch text of
              (TurnReturn r, ch1, _) \<Rightarrow> (Some r, ch1, text)
            | (TurnMore text1, ch1, _) \<Rightarrow> emit_loop ch1 text1
            | (TurnWait, ch1, _) \<Rightarrow> (None, ch1, text)))"
  by pat_completeness auto
termination
  by (relation "measure (\<lambda>(_, text). length text)") (auto dest: emit_turn_more_shorter)

declare emit_loop.simps [simp del]

definition sink_emit :: "channel \<Rightarrow> ustr \<Rightarrow> emit_result option \<times> channel \<times> ustr" where
  "sink_emit ch text =
     (if text = [] then (Some (channel_emit_result ch), ch, []) else emit_loop ch text)"

definition sink_flush :: "channel \<Rightarrow> emit_result \<times> channel \<times> wakes" where
  "sink_flush ch =
     (let result = channel_emit_result ch in
      (result, if result = EContinue then publish_pending ch else ch, wake_data))"

definition sink_request_cancel :: "channel \<Rightarrow> channel \<times> wakes" where
  "sink_request_cancel ch =
     (let ch1 = publish_pending ch in
      (if ch_terminal ch1 \<notin> {Some TDisconnected, Some TStopped}
       then ch1\<lparr>ch_terminal := Some TCancelled\<rparr> else ch1, wake_all))"

definition sink_finish :: "channel \<Rightarrow> channel \<times> wakes" where
  "sink_finish ch =
     (let ch1 = publish_pending ch in
      (if ch_terminal ch1 = None then ch1\<lparr>ch_terminal := Some TFinished\<rparr> else ch1, wake_all))"

definition discard_output :: "channel \<Rightarrow> channel" where
  "discard_output ch = ch\<lparr>ch_ready := [], ch_pending := [], ch_queued := 0\<rparr>"

definition sink_stop :: "channel \<Rightarrow> channel \<times> wakes" where
  "sink_stop ch =
     (let ch1 = (if ch_terminal ch \<noteq> Some TDisconnected then ch\<lparr>ch_terminal := Some TStopped\<rparr> else ch)
      in (discard_output ch1, wake_all))"

text \<open>Dropping a sink; the last one stops a stream nothing has ended yet.\<close>

definition sink_drop :: "channel \<Rightarrow> channel \<times> wakes" where
  "sink_drop ch =
     (let ch1 = ch\<lparr>ch_producers := ch_producers ch - 1\<rparr> in
      if ch_producers ch \<noteq> 1 then (ch1, no_wake)
      else if channel_emit_result ch1 \<noteq> EContinue then (ch1, no_wake)
      else (discard_output (ch1\<lparr>ch_terminal := Some TStopped\<rparr>), wake_all))"

text \<open>One turn of \<open>next_chunk\<close>: a chunk, the end of the stream, or waiting.\<close>

datatype chunk_turn = ChunkReady ustr | ChunkEnd | ChunkWait

definition stream_next_chunk :: "channel \<Rightarrow> chunk_turn \<times> channel \<times> wakes" where
  "stream_next_chunk ch = (case ch_ready ch of
     chunk # rest \<Rightarrow>
       (ChunkReady chunk, ch\<lparr>ch_ready := rest, ch_queued := ch_queued ch - byte_len chunk\<rparr>, wake_space)
   | [] \<Rightarrow> if ch_terminal ch \<noteq> None then (ChunkEnd, ch, no_wake) else (ChunkWait, ch, no_wake))"

definition stream_drop :: "channel \<Rightarrow> channel \<times> wakes" where
  "stream_drop ch = (discard_output (ch\<lparr>ch_terminal := Some TDisconnected\<rparr>), wake_all)"

section \<open>The invariant\<close>

text \<open>Everything in the channel, in order.\<close>

definition content :: "channel \<Rightarrow> ustr" where
  "content ch = concat (ch_ready ch) @ ch_pending ch"

definition channel_ok :: "channel \<Rightarrow> bool" where
  "channel_ok ch \<longleftrightarrow> ch_queued ch = byte_len (content ch) \<and> ch_queued ch \<le> OUTPUT_BUFFER_BYTES
     \<and> (\<forall>chunk\<in>set (ch_ready ch). chunk \<noteq> [] \<and> byte_len chunk \<le> OUTPUT_CHUNK_BYTES)
     \<and> byte_len (ch_pending ch) < OUTPUT_CHUNK_BYTES"

lemma channel_consts: "0 < OUTPUT_CHUNK_BYTES" "4 \<le> OUTPUT_CHUNK_BYTES" "4 \<le> OUTPUT_BUFFER_BYTES"
  by (simp_all add: OUTPUT_CHUNK_BYTES_def OUTPUT_BUFFER_BYTES_def)

lemma channel_ok_new [chan_simps]: "channel_ok new_channel" "content new_channel = []"
  using channel_consts by (simp_all add: channel_ok_def new_channel_def content_def)

lemma publish_pending_frame [chan_simps]:
  "content (publish_pending ch) = content ch"
  "ch_queued (publish_pending ch) = ch_queued ch"
  "ch_terminal (publish_pending ch) = ch_terminal ch"
  "ch_producers (publish_pending ch) = ch_producers ch"
  "ch_pending (publish_pending ch) = []"
proof -
  have r: "ch_ready ch \<noteq> [] \<Longrightarrow> concat (ch_ready ch) = concat (butlast (ch_ready ch)) @ last (ch_ready ch)"
    by (metis append_butlast_last_id concat.simps concat_append append_Nil2)
  show "content (publish_pending ch) = content ch"
    using r by (auto simp: publish_pending_def content_def Let_def)
      (metis append_Nil2 append_assoc take_drop_bytes)
qed (auto simp: publish_pending_def Let_def)

lemma publish_pending_chunks:
  assumes "byte_len (ch_pending ch) \<le> OUTPUT_CHUNK_BYTES"
    and "\<forall>chunk\<in>set (ch_ready ch). chunk \<noteq> [] \<and> byte_len chunk \<le> OUTPUT_CHUNK_BYTES"
  shows "\<forall>chunk\<in>set (ch_ready (publish_pending ch)). chunk \<noteq> [] \<and> byte_len chunk \<le> OUTPUT_CHUNK_BYTES"
proof -
  let ?k = "utf8_prefix_len (ch_pending ch) (OUTPUT_CHUNK_BYTES - byte_len (last (ch_ready ch)))"
  have t: "byte_len (take_bytes ?k (ch_pending ch)) \<le> OUTPUT_CHUNK_BYTES - byte_len (last (ch_ready ch))"
    unfolding utf8_prefix_len_eq by (simp add: byte_len_take_bytes_le)
  have "byte_len (last (ch_ready ch)) + byte_len (take_bytes ?k (ch_pending ch)) \<le> OUTPUT_CHUNK_BYTES"
    if "ch_ready ch \<noteq> []"
  proof -
    have "byte_len (last (ch_ready ch)) \<le> OUTPUT_CHUNK_BYTES" using that assms(2) by simp
    with t show ?thesis by linarith
  qed
  moreover have "byte_len (drop_bytes ?k (ch_pending ch)) \<le> OUTPUT_CHUNK_BYTES"
    using assms(1) by (simp add: byte_len_drop_bytes)
  ultimately show ?thesis
    using assms by (auto simp: publish_pending_def Let_def dest: in_set_butlastD)
qed

lemma publish_pending_ok:
  "channel_ok ch \<Longrightarrow> channel_ok (publish_pending ch)"
  using publish_pending_chunks [of ch] channel_consts(1)
  by (simp add: channel_ok_def chan_simps)

lemma discard_output_ok [chan_simps]:
  "channel_ok (discard_output ch)" "content (discard_output ch) = []"
  "ch_terminal (discard_output ch) = ch_terminal ch" "ch_producers (discard_output ch) = ch_producers ch"
  using channel_consts by (simp_all add: channel_ok_def discard_output_def content_def)

lemma space_for_le:
  "space_for ch text \<le> OUTPUT_CHUNK_BYTES - byte_len (ch_pending ch)"
  "space_for ch text \<le> OUTPUT_BUFFER_BYTES - ch_queued ch"
  unfolding space_for_def utf8_prefix_len_eq
  by (rule order_trans [OF byte_len_take_bytes_le], simp)+

lemma take_space_for: "byte_len (take_bytes (space_for ch text) text) = space_for ch text"
  by (simp add: space_for_def utf8_prefix_len_eq)

text \<open>Pushing a fragment that fits keeps the invariant and appends the fragment.\<close>

lemma push_fragment_ok:
  assumes "channel_ok ch" and "k = space_for ch text" and "push_fragment ch text k = (t, ch1, w)"
  shows "channel_ok ch1" and "ch_terminal ch1 = ch_terminal ch" and "ch_producers ch1 = ch_producers ch"
    and "\<exists>rest. t = TurnMore rest \<and> content ch1 @ rest = content ch @ text"
proof -
  define ch0 where "ch0 = ch\<lparr>ch_pending := ch_pending ch @ take_bytes k text, ch_queued := ch_queued ch + k\<rparr>"
  have tk: "byte_len (take_bytes k text) = k" using assms(2) take_space_for by simp
  have c0: "content ch0 = content ch @ take_bytes k text" by (simp add: ch0_def content_def)
  have q0: "ch_queued ch0 = byte_len (content ch0)" "ch_queued ch0 \<le> OUTPUT_BUFFER_BYTES"
    using assms(1) tk c0 space_for_le(2) [of ch "text"] assms(2) by (auto simp: ch0_def channel_ok_def)
  have p0: "byte_len (ch_pending ch0) \<le> OUTPUT_CHUNK_BYTES"
    using assms(1) tk space_for_le(1) [of ch "text"] assms(2) by (auto simp: ch0_def channel_ok_def)
  have r0: "\<forall>chunk\<in>set (ch_ready ch0). chunk \<noteq> [] \<and> byte_len chunk \<le> OUTPUT_CHUNK_BYTES"
    using assms(1) by (simp add: ch0_def channel_ok_def)
  have out: "t = TurnMore (drop_bytes k text)"
      "ch1 = (if byte_len (ch_pending ch0) = OUTPUT_CHUNK_BYTES then publish_pending ch0 else ch0)"
    using assms(3) by (auto simp: push_fragment_def Let_def ch0_def split: if_splits)
  show "channel_ok ch1"
    using q0 p0 r0 publish_pending_chunks [OF p0 r0] channel_consts(1)
    unfolding out(2) by (auto simp: channel_ok_def chan_simps)
  show "ch_terminal ch1 = ch_terminal ch" "ch_producers ch1 = ch_producers ch"
    unfolding out(2) by (simp_all add: chan_simps) (simp_all add: ch0_def)
  have "content ch1 = content ch0" unfolding out(2) by (simp add: chan_simps)
  then show "\<exists>rest. t = TurnMore rest \<and> content ch1 @ rest = content ch @ text"
    using out(1) c0 by simp
qed

section \<open>Turns and whole emits\<close>

definition can_accept :: "channel \<Rightarrow> ustr \<Rightarrow> bool" where
  "can_accept ch text \<longleftrightarrow> ch_terminal ch \<noteq> None
     \<or> (text \<noteq> [] \<and> len_utf8 (hd text) \<le> OUTPUT_BUFFER_BYTES - ch_queued ch)"

lemma channel_emit_result_Continue [simp]: "channel_emit_result ch = EContinue \<longleftrightarrow> ch_terminal ch = None"
  by (auto simp: channel_emit_result_def split: option.splits terminal_state.splits)

lemma take_bytes_eq_Nil: "take_bytes n s = [] \<longleftrightarrow> s = [] \<or> n < len_utf8 (hd s)"
  by (cases s) auto

lemma space_for_0: "space_for ch text = 0 \<longleftrightarrow> text = []
    \<or> OUTPUT_CHUNK_BYTES - byte_len (ch_pending ch) < len_utf8 (hd text)
    \<or> OUTPUT_BUFFER_BYTES - ch_queued ch < len_utf8 (hd text)"
  by (auto simp: space_for_def utf8_prefix_len_eq take_bytes_eq_Nil)

text \<open>A turn ends by waiting exactly when the channel has no terminal state and no room for the
  next character; then all accepted text has been published.\<close>

lemma emit_turn_split:
  assumes "emit_turn ch text = (t, ch1, w)"
  obtains (ended) "ch_terminal ch \<noteq> None" "t = TurnReturn (channel_emit_result ch)" "ch1 = ch"
    | (push) "ch_terminal ch = None" "space_for ch text \<noteq> 0" "push_fragment ch text (space_for ch text) = (t, ch1, w)"
    | (pub) w2 where "ch_terminal ch = None" "space_for (publish_pending ch) text \<noteq> 0"
        "push_fragment (publish_pending ch) text (space_for (publish_pending ch) text) = (t, ch1, w2)"
    | (wait1) "ch_terminal ch = None" "space_for (publish_pending ch) text = 0" "t = TurnWait"
        "ch1 = publish_pending ch"
    | (wait2) "ch_terminal ch = None" "space_for ch text = 0" "ch_pending ch = []" "t = TurnWait" "ch1 = ch"
proof (cases "ch_terminal ch = None")
  case False
  show thesis by (rule that(1)) (use assms False in \<open>auto simp: emit_turn_def\<close>)
next
  case True
  note running = this
  show thesis
  proof (cases "space_for ch text = 0")
    case False
    with assms True that(2) show thesis by (simp add: emit_turn_def)
  next
    case full: True
    show thesis
    proof (cases "ch_pending ch = []")
      case True
      show thesis by (rule that(5)) (use assms running full True in \<open>auto simp: emit_turn_def\<close>)
    next
      case False
      show thesis
      proof (cases "space_for (publish_pending ch) text = 0")
        case True
        show thesis by (rule that(4)) (use assms running full False True in \<open>auto simp: emit_turn_def\<close>)
      next
        case room: False
        obtain t2 ch2 w2 where
          "push_fragment (publish_pending ch) text (space_for (publish_pending ch) text) = (t2, ch2, w2)"
          using prod_cases3 by blast
        with assms running full False room that(3) show thesis by (simp add: emit_turn_def)
      qed
    qed
  qed
qed

lemma emit_turn_cases:
  assumes "channel_ok ch" and "text \<noteq> []" and "emit_turn ch text = (t, ch1, w)"
  shows "channel_ok ch1" and "ch_terminal ch1 = ch_terminal ch" and "ch_producers ch1 = ch_producers ch"
    and "t = TurnReturn r \<Longrightarrow> r = channel_emit_result ch \<and> r \<noteq> EContinue \<and> ch1 = ch"
    and "t = TurnMore rest \<Longrightarrow> ch_terminal ch = None \<and> content ch1 @ rest = content ch @ text"
    and "t = TurnWait \<Longrightarrow> content ch1 = content ch \<and> ch_pending ch1 = []"
    and "t = TurnWait \<longleftrightarrow> \<not> can_accept ch text"
proof -
  let ?p = "publish_pending ch"
  note pushd = push_fragment_ok [OF assms(1) refl]
  note pushp = push_fragment_ok [OF publish_pending_ok [OF assms(1)] refl]
  have sp: "space_for ?p text = 0 \<longleftrightarrow> OUTPUT_BUFFER_BYTES - ch_queued ch < len_utf8 (hd text)"
    using assms(2) len_utf8_le4 [of "hd text"] channel_consts(2) by (simp add: space_for_0 chan_simps)
  have sp0: "ch_pending ch = [] \<Longrightarrow> space_for ch text = 0 \<longleftrightarrow> OUTPUT_BUFFER_BYTES - ch_queued ch < len_utf8 (hd text)"
    using assms(2) len_utf8_le4 [of "hd text"] channel_consts(2) by (simp add: space_for_0)
  have sp1: "space_for ch text \<noteq> 0 \<Longrightarrow> len_utf8 (hd text) \<le> OUTPUT_BUFFER_BYTES - ch_queued ch"
    using assms(2) by (simp add: space_for_0 not_less)
  consider (ended) "ch_terminal ch \<noteq> None" "t = TurnReturn (channel_emit_result ch)" "ch1 = ch"
    | (push) "ch_terminal ch = None" "space_for ch text \<noteq> 0" "push_fragment ch text (space_for ch text) = (t, ch1, w)"
    | (pub) w2 where "ch_terminal ch = None" "space_for ?p text \<noteq> 0"
        "push_fragment ?p text (space_for ?p text) = (t, ch1, w2)"
    | (wait1) "ch_terminal ch = None" "space_for ?p text = 0" "t = TurnWait" "ch1 = ?p"
    | (wait2) "ch_terminal ch = None" "space_for ch text = 0" "ch_pending ch = []" "t = TurnWait" "ch1 = ch"
    by (rule emit_turn_split [OF assms(3)])
  note cs = this
  show "channel_ok ch1"
    using cs by cases (use assms(1) pushd(1) pushp(1) publish_pending_ok in auto)
  show "ch_terminal ch1 = ch_terminal ch"
    using cs by cases (use pushd(2) pushp(2) chan_simps(5) in \<open>auto simp: chan_simps\<close>)
  show "ch_producers ch1 = ch_producers ch"
    using cs by cases (use pushd(3) pushp(3) in \<open>auto simp: chan_simps\<close>)
  show "r = channel_emit_result ch \<and> r \<noteq> EContinue \<and> ch1 = ch" if "t = TurnReturn r"
    using cs by cases (use that pushd(4) pushp(4) in fastforce)+
  show "ch_terminal ch = None \<and> content ch1 @ rest = content ch @ text" if "t = TurnMore rest"
    using cs by cases (use that pushd(4) pushp(4) in \<open>fastforce simp: chan_simps\<close>)+
  show "content ch1 = content ch \<and> ch_pending ch1 = []" if "t = TurnWait"
    using cs by cases (use that pushd(4) pushp(4) in \<open>fastforce simp: chan_simps\<close>)+
  show "t = TurnWait \<longleftrightarrow> \<not> can_accept ch text"
    using cs
  proof cases
    case ended
    then show ?thesis by (simp add: can_accept_def)
  next
    case push
    then show ?thesis using sp1 assms(2) pushd(4) [OF push(3)] by (auto simp: can_accept_def)
  next
    case pub
    then show ?thesis using sp assms(2) pushp(4) [OF pub(3)] by (auto simp: can_accept_def)
  next
    case wait1
    then show ?thesis using sp by (simp add: can_accept_def)
  next
    case wait2
    then show ?thesis using sp0 by (simp add: can_accept_def)
  qed
qed

lemma emit_loop_spec:
  assumes "channel_ok ch" and "ch_terminal ch = None" and "emit_loop ch text = (r, ch1, rest)"
  shows "channel_ok ch1 \<and> ch_terminal ch1 = None \<and> ch_producers ch1 = ch_producers ch
    \<and> content ch1 @ rest = content ch @ text
    \<and> (r = Some EContinue \<and> rest = []
       \<or> r = None \<and> rest \<noteq> [] \<and> ch_pending ch1 = [] \<and> \<not> can_accept ch1 rest)"
  using assms
proof (induction ch "text" arbitrary: r ch1 rest rule: emit_loop.induct)
  case (1 ch "text")
  show ?case
  proof (cases "text = []")
    case True
    with 1 show ?thesis by (simp add: emit_loop.simps)
  next
    case False
    obtain t ch2 w where e: "emit_turn ch text = (t, ch2, w)" using prod_cases3 by blast
    note tc = emit_turn_cases [OF 1(2) False e]
    show ?thesis
    proof (cases t)
      case (TurnReturn x)
      from tc(4) [OF this] 1(3) show ?thesis by (metis channel_emit_result_Continue)
    next
      case (TurnMore rest1)
      have "emit_loop ch2 rest1 = (r, ch1, rest)"
        using 1(4) False e TurnMore by (simp add: emit_loop.simps [of ch])
      from 1(1) [OF False e [symmetric] TurnMore refl tc(1) _ this] show ?thesis
        using tc(2,3) 1(3) tc(5) [OF TurnMore] by simp
    next
      case TurnWait
      with 1(4) False e have "r = None" "ch1 = ch2" "rest = text"
        by (simp_all add: emit_loop.simps [of ch])
      moreover have "\<not> can_accept ch2 text"
        using tc(2,7) tc(6) [OF TurnWait] TurnWait 1(2) tc(1)
        by (simp add: can_accept_def channel_ok_def)
      ultimately show ?thesis using tc(1,2,3) tc(6) [OF TurnWait] 1(3) False by simp
    qed
  qed
qed

lemma sink_emit_spec:
  assumes "channel_ok ch" and "sink_emit ch text = (r, ch1, rest)"
  shows "channel_ok ch1" and "ch_terminal ch1 = ch_terminal ch" and "ch_producers ch1 = ch_producers ch"
    and "ch_terminal ch \<noteq> None \<Longrightarrow> r = Some (channel_emit_result ch) \<and> ch1 = ch \<and> rest = text"
    and "ch_terminal ch = None \<Longrightarrow> content ch1 @ rest = content ch @ text
      \<and> (r = Some EContinue \<and> rest = []
         \<or> r = None \<and> rest \<noteq> [] \<and> ch_pending ch1 = [] \<and> \<not> can_accept ch1 rest)"
proof -
  have stop: "ch_terminal ch \<noteq> None \<Longrightarrow> text \<noteq> [] \<Longrightarrow> emit_loop ch text = (Some (channel_emit_result ch), ch, text)"
    by (simp add: emit_loop.simps emit_turn_def)
  have nil: "text = [] \<Longrightarrow> r = Some (channel_emit_result ch) \<and> ch1 = ch \<and> rest = text"
    using assms(2) by (auto simp: sink_emit_def)
  have loop: "text \<noteq> [] \<Longrightarrow> emit_loop ch text = (r, ch1, rest)"
    using assms(2) by (simp add: sink_emit_def)
  have run: "ch_terminal ch = None \<Longrightarrow> text \<noteq> [] \<Longrightarrow>
      channel_ok ch1 \<and> ch_terminal ch1 = None \<and> ch_producers ch1 = ch_producers ch
      \<and> content ch1 @ rest = content ch @ text
      \<and> (r = Some EContinue \<and> rest = []
         \<or> r = None \<and> rest \<noteq> [] \<and> ch_pending ch1 = [] \<and> \<not> can_accept ch1 rest)"
    using emit_loop_spec [OF assms(1) _ loop] by blast
  show t: "r = Some (channel_emit_result ch) \<and> ch1 = ch \<and> rest = text" if "ch_terminal ch \<noteq> None"
    using nil loop stop that by (cases "text = []") auto
  show "channel_ok ch1" "ch_terminal ch1 = ch_terminal ch" "ch_producers ch1 = ch_producers ch"
    using t nil run assms(1) by (cases "text = []"; cases "ch_terminal ch"; simp)+
  show "content ch1 @ rest = content ch @ text
      \<and> (r = Some EContinue \<and> rest = []
         \<or> r = None \<and> rest \<noteq> [] \<and> ch_pending ch1 = [] \<and> \<not> can_accept ch1 rest)"
    if "ch_terminal ch = None"
    using nil run that by (cases "text = []") auto
qed

section \<open>Interleaved use of the channel\<close>

text \<open>The turns that the producers, the scheduler and the consumer take, in the order in which they
  get the lock.  A run records the text the channel took and the text the consumer got.\<close>

datatype chan_op =
    OpEmit ustr
  | OpFlush
  | OpCancel
  | OpFinish
  | OpStop
  | OpClone
  | OpDropSink
  | OpNext
  | OpDropStream

definition chan_apply :: "chan_op \<Rightarrow> channel \<Rightarrow> channel \<times> wakes" where
  "chan_apply op ch = (case op of
     OpEmit text \<Rightarrow> snd (emit_turn ch text)
   | OpFlush \<Rightarrow> snd (sink_flush ch)
   | OpCancel \<Rightarrow> sink_request_cancel ch
   | OpFinish \<Rightarrow> sink_finish ch
   | OpStop \<Rightarrow> sink_stop ch
   | OpClone \<Rightarrow> (sink_clone ch, no_wake)
   | OpDropSink \<Rightarrow> sink_drop ch
   | OpNext \<Rightarrow> snd (stream_next_chunk ch)
   | OpDropStream \<Rightarrow> stream_drop ch)"

definition op_accepts :: "chan_op \<Rightarrow> channel \<Rightarrow> ustr" where
  "op_accepts op ch = (case op of
     OpEmit text \<Rightarrow> (case fst (emit_turn ch text) of
        TurnMore rest \<Rightarrow> take (length text - length rest) text | _ \<Rightarrow> [])
   | _ \<Rightarrow> [])"

definition op_delivers :: "chan_op \<Rightarrow> channel \<Rightarrow> ustr" where
  "op_delivers op ch = (case op of
     OpNext \<Rightarrow> (case fst (stream_next_chunk ch) of ChunkReady chunk \<Rightarrow> chunk | _ \<Rightarrow> [])
   | _ \<Rightarrow> [])"

fun chan_run :: "chan_op list \<Rightarrow> channel \<Rightarrow> channel \<times> ustr \<times> ustr" where
  "chan_run [] ch = (ch, [], [])"
| "chan_run (op # ops) ch =
     (case chan_run ops (fst (chan_apply op ch)) of
        (ch1, accepted, received) \<Rightarrow> (ch1, op_accepts op ch @ accepted, op_delivers op ch @ received))"

text \<open>An emit holds text: the call returns at once for an empty one.\<close>

definition op_valid :: "chan_op \<Rightarrow> bool" where
  "op_valid op \<longleftrightarrow> op \<noteq> OpEmit []"

text \<open>Which operations throw queued text away.\<close>

definition op_discards :: "chan_op \<Rightarrow> bool" where
  "op_discards op \<longleftrightarrow> op \<in> {OpStop, OpDropSink, OpDropStream}"

definition terminal_rank :: "terminal_state option \<Rightarrow> nat" where
  "terminal_rank t = (case t of None \<Rightarrow> 0 | Some TFinished \<Rightarrow> 1 | Some TCancelled \<Rightarrow> 2
     | Some TStopped \<Rightarrow> 3 | Some TDisconnected \<Rightarrow> 4)"

definition reader_ready :: "channel \<Rightarrow> bool" where
  "reader_ready ch \<longleftrightarrow> ch_ready ch \<noteq> [] \<or> ch_terminal ch \<noteq> None"

lemma next_chunk_ok:
  "channel_ok ch \<Longrightarrow> stream_next_chunk ch = (t, ch1, w) \<Longrightarrow>
    channel_ok ch1 \<and> ch_terminal ch1 = ch_terminal ch \<and> ch_producers ch1 = ch_producers ch
    \<and> content ch = (case t of ChunkReady chunk \<Rightarrow> chunk | _ \<Rightarrow> []) @ content ch1
    \<and> (\<forall>chunk. t = ChunkReady chunk \<longrightarrow> chunk \<noteq> [] \<and> byte_len chunk \<le> OUTPUT_CHUNK_BYTES)"
  by (auto simp: stream_next_chunk_def channel_ok_def content_def split: list.splits if_splits)

lemmas channel_op_defs = sink_flush_def sink_request_cancel_def sink_finish_def sink_stop_def
  sink_drop_def sink_clone_def stream_drop_def chan_apply_def Let_def

lemma channel_update_ok [chan_simps]:
  "channel_ok (ch\<lparr>ch_terminal := t\<rparr>) = channel_ok ch"
  "channel_ok (ch\<lparr>ch_producers := n\<rparr>) = channel_ok ch"
  "content (ch\<lparr>ch_terminal := t\<rparr>) = content ch"
  "content (ch\<lparr>ch_producers := n\<rparr>) = content ch"
  by (simp_all add: channel_ok_def content_def)

lemma chan_apply_ok:
  assumes "channel_ok ch" and "op_valid op"
  shows "channel_ok (fst (chan_apply op ch))"
proof (cases op)
  case (OpEmit "text")
  obtain t ch1 w where "emit_turn ch text = (t, ch1, w)" using prod_cases3 by blast
  with emit_turn_cases(1) [OF assms(1) _ this] OpEmit assms(2) show ?thesis
    by (simp add: chan_apply_def op_valid_def)
next
  case OpNext
  obtain t ch1 w where "stream_next_chunk ch = (t, ch1, w)" using prod_cases3 by blast
  with next_chunk_ok [OF assms(1) this] OpNext show ?thesis by (simp add: chan_apply_def)
qed (use assms(1) in \<open>auto simp: channel_op_defs chan_simps publish_pending_ok\<close>)

text \<open>Text enters at the back and leaves at the front.\<close>

lemma chan_apply_fifo:
  assumes "channel_ok ch" and "op_valid op"
  shows "\<exists>lost. op_delivers op ch @ content (fst (chan_apply op ch)) @ lost = content ch @ op_accepts op ch
    \<and> (\<not> op_discards op \<longrightarrow> lost = [])
    \<and> (lost \<noteq> [] \<longrightarrow> content (fst (chan_apply op ch)) = [] \<and> 3 \<le> terminal_rank (ch_terminal (fst (chan_apply op ch))))"
proof (cases op)
  case (OpEmit "text")
  obtain t ch1 w where e: "emit_turn ch text = (t, ch1, w)" using prod_cases3 by blast
  have ne: "text \<noteq> []" using OpEmit assms(2) by (simp add: op_valid_def)
  note tc = emit_turn_cases [OF assms(1) ne e]
  have "content ch1 = content ch @ op_accepts op ch"
  proof (cases t)
    case (TurnMore rest)
    with tc(5) have c: "content ch1 @ rest = content ch @ text" by blast
    then have "length rest \<le> length text"
      using emit_turn_more_shorter e TurnMore by (metis less_imp_le)
    then have "take (length text - length rest) text @ drop (length text - length rest) text = text
        \<and> length (drop (length text - length rest) text) = length rest" by simp
    with c have "content ch1 = content ch @ take (length text - length rest) text"
      by (metis append_assoc append_eq_append_conv)
    with OpEmit e TurnMore show ?thesis by (simp add: op_accepts_def)
  qed (use OpEmit e tc(4,6) in \<open>auto simp: op_accepts_def\<close>)
  with OpEmit e show ?thesis by (auto simp: chan_apply_def op_delivers_def)
next
  case OpNext
  obtain t ch1 w where "stream_next_chunk ch = (t, ch1, w)" using prod_cases3 by blast
  with next_chunk_ok [OF assms(1) this] OpNext show ?thesis
    by (auto simp: chan_apply_def op_delivers_def op_accepts_def)
next
  case OpStop
  then show ?thesis
    by (auto simp: channel_op_defs chan_simps op_delivers_def op_accepts_def op_discards_def
        terminal_rank_def)
next
  case OpDropSink
  then show ?thesis
    by (auto simp: channel_op_defs chan_simps op_delivers_def op_accepts_def op_discards_def
        terminal_rank_def)
next
  case OpDropStream
  then show ?thesis
    by (auto simp: channel_op_defs chan_simps op_delivers_def op_accepts_def op_discards_def
        terminal_rank_def)
qed (auto simp: channel_op_defs chan_simps op_delivers_def op_accepts_def)

lemma terminal_rank_mono:
  assumes "channel_ok ch" and "op_valid op"
  shows "terminal_rank (ch_terminal ch) \<le> terminal_rank (ch_terminal (fst (chan_apply op ch)))"
proof (cases op)
  case (OpEmit "text")
  obtain t ch1 w where "emit_turn ch text = (t, ch1, w)" using prod_cases3 by blast
  with emit_turn_cases(2) [OF assms(1) _ this] OpEmit assms(2) show ?thesis
    by (simp add: chan_apply_def op_valid_def)
next
  case OpNext
  obtain t ch1 w where "stream_next_chunk ch = (t, ch1, w)" using prod_cases3 by blast
  with next_chunk_ok [OF assms(1) this] OpNext show ?thesis by (simp add: chan_apply_def)
qed (auto simp: channel_op_defs chan_simps terminal_rank_def
      split: option.splits terminal_state.splits)

lemma op_accepts_ended: "op_valid op \<Longrightarrow> ch_terminal ch \<noteq> None \<Longrightarrow> op_accepts op ch = []"
  by (auto simp: op_accepts_def emit_turn_def split: chan_op.splits)

lemma chan_run_spec:
  assumes "channel_ok ch" and "list_all op_valid ops" and "chan_run ops ch = (ch1, accepted, received)"
  shows "channel_ok ch1 \<and> terminal_rank (ch_terminal ch) \<le> terminal_rank (ch_terminal ch1)
    \<and> (ch_terminal ch \<noteq> None \<longrightarrow> accepted = [])
    \<and> (\<exists>lost. received @ content ch1 @ lost = content ch @ accepted
        \<and> (list_all (\<lambda>op. \<not> op_discards op) ops \<longrightarrow> lost = []))"
  using assms
proof (induction ops arbitrary: ch accepted received)
  case (Cons op ops)
  let ?c = "fst (chan_apply op ch)"
  obtain a r where run: "chan_run ops ?c = (ch1, a, r)"
      and out: "accepted = op_accepts op ch @ a" "received = op_delivers op ch @ r"
    using Cons.prems(3) by (auto split: prod.splits)
  have v: "op_valid op" "list_all op_valid ops" using Cons.prems(2) by simp_all
  note ok = chan_apply_ok [OF Cons.prems(1) v(1)]
  note rank = terminal_rank_mono [OF Cons.prems(1) v(1)]
  from Cons.IH [OF ok v(2) run] obtain l2 where
      ih: "channel_ok ch1" "terminal_rank (ch_terminal ?c) \<le> terminal_rank (ch_terminal ch1)"
        "ch_terminal ?c \<noteq> None \<longrightarrow> a = []" "r @ content ch1 @ l2 = content ?c @ a"
        "list_all (\<lambda>op. \<not> op_discards op) ops \<longrightarrow> l2 = []" by blast
  have pos: "0 < terminal_rank t \<longleftrightarrow> t \<noteq> None" for t
    by (auto simp: terminal_rank_def split: option.splits terminal_state.splits)
  obtain l1 where l1: "op_delivers op ch @ content ?c @ l1 = content ch @ op_accepts op ch"
      "\<not> op_discards op \<longrightarrow> l1 = []"
      "l1 \<noteq> [] \<longrightarrow> content ?c = [] \<and> 3 \<le> terminal_rank (ch_terminal ?c)"
    using chan_apply_fifo [OF Cons.prems(1) v(1)] by blast
  have "ch_terminal ch \<noteq> None \<longrightarrow> accepted = []"
    using op_accepts_ended [OF v(1)] ih(3) rank pos out(1) by (metis append_Nil le_zero_eq not_gr_zero)
  moreover have "\<exists>lost. received @ content ch1 @ lost = content ch @ accepted
      \<and> (list_all (\<lambda>op. \<not> op_discards op) (op # ops) \<longrightarrow> lost = [])"
  proof (cases "l1 = []")
    case True
    then have "received @ content ch1 @ l2 = content ch @ accepted"
      using l1(1) ih(4) out by (metis append_assoc append_Nil2)
    with ih(5) show ?thesis by auto
  next
    case False
    with l1(3) have "content ?c = []" "ch_terminal ?c \<noteq> None"
      by (simp, metis pos less_le_trans zero_less_numeral)
    with ih(3,4) have "a = []" "r = []" "content ch1 = []" "l2 = []" by auto
    with l1 out False \<open>content ?c = []\<close> have "received @ content ch1 @ l1 = content ch @ accepted" by simp
    with False l1(2) show ?thesis by auto
  qed
  ultimately show ?case using ih(1,2) rank by simp
qed simp

section \<open>Properties\<close>

text \<open>C25. However producers, scheduler and consumer take turns, the channel stays bounded: the counted
  bytes are the bytes queued, at most 256 KiB; every ready chunk is non-empty and at most
  16 KiB; the pending text is shorter than a chunk.\<close>

theorem channel_bounded:
  assumes "list_all op_valid ops" and "chan_run ops new_channel = (ch, accepted, received)"
  shows "ch_queued ch = sum_list (map byte_len (ch_ready ch)) + byte_len (ch_pending ch)
    \<and> ch_queued ch \<le> OUTPUT_BUFFER_BYTES \<and> byte_len (ch_pending ch) < OUTPUT_CHUNK_BYTES
    \<and> (\<forall>chunk\<in>set (ch_ready ch). chunk \<noteq> [] \<and> byte_len chunk \<le> OUTPUT_CHUNK_BYTES)"
proof -
  have ok: "channel_ok ch"
    using chan_run_spec [OF chan_simps(1) assms] by blast
  have "byte_len (concat xs) = sum_list (map byte_len xs)" for xs
    by (induction xs) auto
  then have "byte_len (content ch) = sum_list (map byte_len (ch_ready ch)) + byte_len (ch_pending ch)"
    by (simp add: content_def)
  with ok show ?thesis unfolding channel_ok_def by simp
qed

theorem channel_bounded_witness:
  "ch_queued (fst (chan_run [OpEmit (lit ''ab''), OpFlush, OpEmit (lit ''c''), OpNext, OpCancel] new_channel)) = 1
   \<and> ch_queued (fst (chan_run [OpEmit (lit ''ab''), OpFlush, OpEmit (lit ''c''), OpNext, OpCancel] new_channel))
     \<le> OUTPUT_BUFFER_BYTES"
proof -
  let ?ops = "[OpEmit (lit ''ab''), OpFlush, OpEmit (lit ''c''), OpNext, OpCancel]"
  obtain ch a r where run: "chan_run ?ops new_channel = (ch, a, r)" using prod_cases3 by blast
  have "list_all op_valid ?ops" by code_simp
  from channel_bounded [OF this run] have "ch_queued ch \<le> OUTPUT_BUFFER_BYTES" by blast
  moreover have "ch_queued (fst (chan_run ?ops new_channel)) = 1" by code_simp
  ultimately show ?thesis using run by simp
qed

text \<open>C23. No output is lost, repeated or reordered while the channel is in use: what the consumer got,
  followed by what is still queued, is what the producers put in.  Only stopping and dropping
  an end of the channel discard, and then the consumer has still got a prefix.\<close>

theorem channel_fifo:
  assumes "list_all op_valid ops" and "chan_run ops new_channel = (ch, accepted, received)"
  shows "(\<exists>rest. accepted = received @ rest)
    \<and> (list_all (\<lambda>op. \<not> op_discards op) ops \<longrightarrow> accepted = received @ content ch)"
  using chan_run_spec [OF chan_simps(1) assms] chan_simps(2)
  by (metis append_Nil append_Nil2 append_assoc)

theorem channel_fifo_witness:
  "chan_run [OpEmit (lit ''ab''), OpFlush, OpEmit (lit ''c''), OpNext] new_channel
     = (\<lparr>ch_ready = [], ch_pending = lit ''c'', ch_queued = 1, ch_terminal = None, ch_producers = 1\<rparr>,
        lit ''abc'', lit ''ab'')
   \<and> (\<exists>rest. lit ''abc'' = lit ''ab'' @ rest)"
proof -
  let ?ops = "[OpEmit (lit ''ab''), OpFlush, OpEmit (lit ''c''), OpNext]"
  have run: "chan_run ?ops new_channel
     = (\<lparr>ch_ready = [], ch_pending = lit ''c'', ch_queued = 1, ch_terminal = None, ch_producers = 1\<rparr>,
        lit ''abc'', lit ''ab'')" by code_simp
  have "list_all op_valid ?ops" by code_simp
  from channel_fifo [OF this run] run show ?thesis by blast
qed

text \<open>The end of a channel is final: a terminal state is only ever replaced by a stronger one
  (finished, cancelled, stopped, disconnected), and a channel that has ended takes no more text.\<close>

lemma channel_end_final:
  assumes "channel_ok ch" and "list_all op_valid ops" and "chan_run ops ch = (ch1, accepted, received)"
  shows "terminal_rank (ch_terminal ch) \<le> terminal_rank (ch_terminal ch1)
    \<and> (ch_terminal ch \<noteq> None \<longrightarrow> accepted = [])"
  using chan_run_spec [OF assms] by blast

lemma channel_end_final_witness:
  "terminal_rank (ch_terminal (new_channel\<lparr>ch_terminal := Some TCancelled\<rparr>)) = 2
   \<and> 2 \<le> terminal_rank (ch_terminal (fst (chan_run [OpFinish, OpEmit (lit ''x'')]
        (new_channel\<lparr>ch_terminal := Some TCancelled\<rparr>))))"
proof -
  let ?c = "new_channel\<lparr>ch_terminal := Some TCancelled\<rparr>"
  obtain ch a r where run: "chan_run [OpFinish, OpEmit (lit ''x'')] ?c = (ch, a, r)" using prod_cases3 by blast
  have "channel_ok ?c" by (simp add: chan_simps)
  moreover have "list_all op_valid [OpFinish, OpEmit (lit ''x'')]" by code_simp
  ultimately have "terminal_rank (ch_terminal ?c) \<le> terminal_rank (ch_terminal ch)"
    using channel_end_final run by blast
  with run show ?thesis by (simp add: terminal_rank_def)
qed

text \<open>C24. No wake-up is lost: an operation after which a waiting consumer could proceed notifies it,
  and an operation after which a waiting producer could proceed notifies the producers.\<close>

theorem channel_no_lost_wakeup:
  assumes "channel_ok ch" and "op_valid op" and "chan_apply op ch = (ch1, w)"
  shows "(\<not> reader_ready ch \<and> reader_ready ch1 \<longrightarrow> wk_data w)
    \<and> (\<not> can_accept ch text \<and> can_accept ch1 text \<longrightarrow> wk_space w)"
proof (cases op)
  case (OpEmit tx)
  obtain t ch2 w2 where e: "emit_turn ch tx = (t, ch2, w2)" using prod_cases3 by blast
  with OpEmit assms(3) have eq: "ch2 = ch1" "w2 = w" by (simp_all add: chan_apply_def)
  have ne: "tx \<noteq> []" using OpEmit assms(2) by (simp add: op_valid_def)
  note tc = emit_turn_cases [OF assms(1) ne e [unfolded eq]]
  have data: "\<not> reader_ready ch \<and> reader_ready ch1 \<longrightarrow> wk_data w"
    using e eq by (auto simp: emit_turn_def push_fragment_def Let_def reader_ready_def wake_data_def
        no_wake_def split: if_splits prod.splits)
  have "content ch1 = content ch @ op_accepts op ch"
    using chan_apply_fifo [OF assms(1,2)] assms(3) OpEmit
    by (auto simp: op_delivers_def op_discards_def)
  then have "byte_len (content ch) \<le> byte_len (content ch1)" by simp
  then have "ch_queued ch \<le> ch_queued ch1" using assms(1) tc(1) by (simp add: channel_ok_def)
  with data tc(2) show ?thesis by (auto simp: can_accept_def)
qed (use assms in \<open>auto simp: channel_op_defs chan_simps reader_ready_def can_accept_def wake_all_def
      wake_data_def wake_space_def no_wake_def stream_next_chunk_def publish_pending_def
      split: list.splits if_splits\<close>)

theorem channel_no_lost_wakeup_witness:
  "wk_data (snd (chan_apply OpFlush (new_channel\<lparr>ch_pending := lit ''a'', ch_queued := 1\<rparr>)))"
proof -
  let ?c = "new_channel\<lparr>ch_pending := lit ''a'', ch_queued := 1\<rparr>"
  obtain ch1 w where a: "chan_apply OpFlush ?c = (ch1, w)" by fastforce
  have "channel_ok ?c"
    by (simp add: channel_ok_def content_def new_channel_def OUTPUT_BUFFER_BYTES_def
        OUTPUT_CHUNK_BYTES_def lit_def len_utf8_def of_char_def)
  moreover have "op_valid OpFlush" by (simp add: op_valid_def)
  moreover have "\<not> reader_ready ?c" by (simp add: reader_ready_def new_channel_def)
  moreover have "reader_ready ch1"
    using a by (auto simp: channel_op_defs reader_ready_def publish_pending_def new_channel_def
        channel_emit_result_def lit_def)
  ultimately show ?thesis using channel_no_lost_wakeup [of ?c OpFlush ch1 w] a by simp
qed

text \<open>An emit always comes to an end or leaves work for the consumer: on an ended channel it returns the
  reason and changes nothing; otherwise it takes text in order and either takes all of it and
  continues, or waits with a rest that has no room yet, with everything taken so far published,
  so that the consumer gets a chunk.\<close>

lemma emit_outcome:
  assumes "channel_ok ch" and "sink_emit ch text = (r, ch1, rest)"
  shows "channel_ok ch1
    \<and> (ch_terminal ch \<noteq> None \<longrightarrow> r = Some (channel_emit_result ch) \<and> ch1 = ch)
    \<and> (ch_terminal ch = None \<longrightarrow> content ch1 @ rest = content ch @ text
        \<and> (r = Some EContinue \<and> rest = []
           \<or> r = None \<and> \<not> can_accept ch1 rest
             \<and> (\<exists>chunk ch2. stream_next_chunk ch1 = (ChunkReady chunk, ch2, wake_space))))"
proof -
  note spec = sink_emit_spec [OF assms]
  have "\<exists>chunk ch2. stream_next_chunk ch1 = (ChunkReady chunk, ch2, wake_space)"
    if "ch_pending ch1 = []" "rest \<noteq> []" "\<not> can_accept ch1 rest"
  proof -
    have "OUTPUT_BUFFER_BYTES - ch_queued ch1 < 4"
      using that(2,3) len_utf8_le4 [of "hd rest"] by (simp add: can_accept_def)
    then have "ch_queued ch1 \<noteq> 0" using channel_consts(3) by linarith
    then have "ch_ready ch1 \<noteq> []"
      using spec(1) that(1) by (auto simp: channel_ok_def content_def)
    then show ?thesis by (auto simp: stream_next_chunk_def split: list.splits)
  qed
  with spec show ?thesis by blast
qed

lemma emit_outcome_witness:
  "sink_emit new_channel (lit ''hi'') = (Some EContinue, new_channel\<lparr>ch_pending := lit ''hi'', ch_queued := 2\<rparr>, [])
   \<and> channel_ok (new_channel\<lparr>ch_pending := lit ''hi'', ch_queued := 2\<rparr>)"
proof -
  have e: "sink_emit new_channel (lit ''hi'')
      = (Some EContinue, new_channel\<lparr>ch_pending := lit ''hi'', ch_queued := 2\<rparr>, [])" by code_simp
  from emit_outcome [OF chan_simps(1) e] e show ?thesis by blast
qed

end
