(* ===== verification/Value_Bridge.thy ===== *)
theory Value_Bridge
  imports Output_Channel
begin

text \<open>
  The bridge between an execution and the host's value output,
  \<open>crates/plugin/src/exec/io.rs\<close>: a window for one value is opened and closed by the
  execution; inside it the host may claim one lease.  \<open>ExecIo\<close>'s output sink is the
  channel of \<open>Output_Channel\<close>; this theory holds its other field, the locked
  \<open>ValueBridgeState\<close>.
\<close>

section \<open>Data\<close>

datatype value_output_kind = FormOutput | EvalValueOutput

datatype value_bridge_failure =
    BridgeInvalidSequence
  | BridgeLimitExceeded
  | BridgeOutputFinished
  | BridgePostCommitCancelled
  | BridgeAbandoned
  | BridgeMissingValue

record value_bridge =
  vb_generation :: "64 word"
  vb_open :: "value_output_kind option"
  vb_active :: bool
  vb_claimed :: bool
  vb_failure :: "value_bridge_failure option"

record value_lease =
  ls_generation :: "64 word"
  ls_kind :: value_output_kind

definition bridge_default :: value_bridge where
  "bridge_default = \<lparr>vb_generation = 0, vb_open = None, vb_active = False, vb_claimed = False, vb_failure = None\<rparr>"

definition bridge_failure_message :: "value_bridge_failure \<Rightarrow> ustr" where
  "bridge_failure_message f = (case f of
     BridgeInvalidSequence \<Rightarrow> lit ''the AutoLISP output bridge emitted an invalid value sequence''
   | BridgeLimitExceeded \<Rightarrow> lit ''the AutoLISP output bridge exceeded its structural limit''
   | BridgeOutputFinished \<Rightarrow> lit ''execution output ended while AutoLISP was still producing it''
   | BridgePostCommitCancelled \<Rightarrow> lit ''eval result output was cancelled after commit''
   | BridgeAbandoned \<Rightarrow> lit ''the AutoLISP output bridge abandoned an unfinished value''
   | BridgeMissingValue \<Rightarrow> lit ''the AutoLISP evaluator did not emit its result value'')"

section \<open>Operations\<close>

definition record_failure :: "value_bridge_failure \<Rightarrow> value_bridge \<Rightarrow> value_bridge" where
  "record_failure f b = b\<lparr>vb_failure := get_or_insert (vb_failure b) f\<rparr>"

definition begin_value_output :: "value_output_kind \<Rightarrow> value_bridge \<Rightarrow> value_bridge" where
  "begin_value_output kind b =
     (let b1 = (if vb_open b \<noteq> None \<or> vb_active b then record_failure BridgeAbandoned b else b)
      in b1\<lparr>vb_generation := max (vb_generation b1 + 1) 1, vb_open := Some kind,
            vb_active := False, vb_claimed := False\<rparr>)"

definition acquire_value_output :: "value_output_kind \<Rightarrow> value_bridge \<Rightarrow> value_lease option \<times> value_bridge" where
  "acquire_value_output kind b =
     (if vb_open b \<noteq> Some kind \<or> vb_failure b \<noteq> None \<or> vb_active b \<or> vb_claimed b then (None, b)
      else (Some \<lparr>ls_generation = vb_generation b, ls_kind = kind\<rparr>,
            b\<lparr>vb_active := True, vb_claimed := True\<rparr>))"

definition close_value_output :: "value_output_kind \<Rightarrow> value_bridge \<Rightarrow> value_bridge_failure option \<times> value_bridge" where
  "close_value_output kind b =
     (let b1 = (if vb_open b \<noteq> Some kind then record_failure BridgeInvalidSequence b else b);
          b2 = b1\<lparr>vb_open := None\<rparr>;
          b3 = (if vb_active b2 then record_failure BridgeAbandoned b2 else b2);
          b4 = b3\<lparr>vb_active := False\<rparr>;
          b5 = (if kind = EvalValueOutput \<and> \<not> vb_claimed b4 then record_failure BridgeMissingValue b4 else b4)
      in (vb_failure b5, b5\<lparr>vb_failure := None\<rparr>))"

definition value_output_is_open :: "64 word \<Rightarrow> value_output_kind \<Rightarrow> value_bridge \<Rightarrow> bool" where
  "value_output_is_open generation kind b \<longleftrightarrow>
     vb_open b = Some kind \<and> vb_generation b = generation \<and> vb_active b \<and> vb_failure b = None"

definition release_value_output ::
  "64 word \<Rightarrow> value_output_kind \<Rightarrow> value_bridge_failure option \<Rightarrow> value_bridge \<Rightarrow> value_bridge" where
  "release_value_output generation kind failure b =
     (if vb_generation b \<noteq> generation \<or> vb_open b \<noteq> Some kind then b
      else
        (let b1 = (case failure of Some f \<Rightarrow> record_failure f b | None \<Rightarrow> b)
         in b1\<lparr>vb_active := False\<rparr>))"

text \<open>A lease is consumed by \<open>release\<close>, or by \<open>drop\<close>, which reports it abandoned.\<close>

definition lease_is_open :: "value_lease \<Rightarrow> value_bridge \<Rightarrow> bool" where
  "lease_is_open l b = value_output_is_open (ls_generation l) (ls_kind l) b"

definition lease_release :: "value_lease \<Rightarrow> value_bridge_failure option \<Rightarrow> value_bridge \<Rightarrow> value_bridge" where
  "lease_release l failure b = release_value_output (ls_generation l) (ls_kind l) failure b"

definition lease_drop :: "value_lease \<Rightarrow> value_bridge \<Rightarrow> value_bridge" where
  "lease_drop l b = release_value_output (ls_generation l) (ls_kind l) (Some BridgeAbandoned) b"

section \<open>Runs of the bridge\<close>

text \<open>What the execution and the leases' holders do to the bridge, in any order; \<open>n\<close> windows have
  been opened and \<open>ls\<close> are the leases given out and not yet consumed.\<close>

inductive bridge_reach :: "nat \<Rightarrow> value_bridge \<Rightarrow> value_lease list \<Rightarrow> bool" where
  reach_default: "bridge_reach 0 bridge_default []"
| reach_begin: "bridge_reach n b ls \<Longrightarrow> bridge_reach (Suc n) (begin_value_output kind b) ls"
| reach_acquire: "bridge_reach n b ls \<Longrightarrow> acquire_value_output kind b = (Some l, b1) \<Longrightarrow> bridge_reach n b1 (l # ls)"
| reach_release: "bridge_reach n b ls \<Longrightarrow> l \<in> set ls \<Longrightarrow> bridge_reach n (lease_release l failure b) (remove1 l ls)"
| reach_drop: "bridge_reach n b ls \<Longrightarrow> l \<in> set ls \<Longrightarrow> bridge_reach n (lease_drop l b) (remove1 l ls)"
| reach_close: "bridge_reach n b ls \<Longrightarrow> bridge_reach n (snd (close_value_output kind b)) ls"

definition bridge_inv :: "nat \<Rightarrow> value_bridge \<Rightarrow> value_lease list \<Rightarrow> bool" where
  "bridge_inv n b ls \<longleftrightarrow> unat (vb_generation b) = n
     \<and> (\<forall>l\<in>set ls. unat (ls_generation l) \<le> n) \<and> distinct (map ls_generation ls)
     \<and> (vb_active b \<longrightarrow> vb_claimed b \<and> (\<exists>l\<in>set ls. ls_generation l = vb_generation b \<and> vb_open b = Some (ls_kind l)))
     \<and> (\<not> vb_claimed b \<longrightarrow> (\<forall>l\<in>set ls. ls_generation l \<noteq> vb_generation b))"

lemma bridge_simps [simp]:
  "vb_generation (record_failure f b) = vb_generation b"
  "vb_open (record_failure f b) = vb_open b"
  "vb_active (record_failure f b) = vb_active b"
  "vb_claimed (record_failure f b) = vb_claimed b"
  "vb_failure (record_failure f b) \<noteq> None"
  by (simp_all add: record_failure_def)

lemma close_value_output_frame [simp]:
  "vb_generation (snd (close_value_output kind b)) = vb_generation b"
  "vb_open (snd (close_value_output kind b)) = None"
  "vb_active (snd (close_value_output kind b)) = False"
  "vb_claimed (snd (close_value_output kind b)) = vb_claimed b"
  "vb_failure (snd (close_value_output kind b)) = None"
  by (simp_all add: close_value_output_def Let_def)

lemma begin_value_output_frame [simp]:
  "vb_generation (begin_value_output kind b) = max (vb_generation b + 1) 1"
  "vb_open (begin_value_output kind b) = Some kind"
  "vb_active (begin_value_output kind b) = False"
  "vb_claimed (begin_value_output kind b) = False"
  by (simp_all add: begin_value_output_def Let_def)

lemma next_generation:
  assumes "Suc (unat (g :: 64 word)) < 2 ^ 64"
  shows "unat (max (g + 1) 1) = Suc (unat g)"
proof -
  have s: "unat (g + 1) = Suc (unat g)"
    using assms by (simp add: unat_word_ariths)
  then have "1 \<le> g + 1" by (simp add: word_le_nat_alt)
  then have "max (g + 1) 1 = g + 1" by (simp add: max_def)
  with s show ?thesis by simp
qed

lemma bridge_inv_remove:
  assumes "bridge_inv n b ls" and "l \<in> set ls"
    and "vb_generation b1 = vb_generation b" and "vb_open b1 = vb_open b" and "vb_claimed b1 = vb_claimed b"
    and "vb_active b1 = (vb_active b \<and> \<not> (ls_generation l = vb_generation b \<and> vb_open b = Some (ls_kind l)))"
  shows "bridge_inv n b1 (remove1 l ls)"
proof -
  have sub: "set (remove1 l ls) \<subseteq> set ls" by (rule set_remove1_subset)
  have "distinct (map ls_generation (remove1 l ls))"
    using assms(1) by (metis bridge_inv_def distinct_map distinct_remove1 inj_on_subset sub)
  moreover have "vb_active b1 \<longrightarrow> (\<exists>l'\<in>set (remove1 l ls). ls_generation l' = vb_generation b \<and> vb_open b = Some (ls_kind l'))"
    using assms by (metis bridge_inv_def in_set_remove1)
  ultimately show ?thesis
    using assms sub unfolding bridge_inv_def by auto
qed

lemma release_frame:
  "vb_generation (release_value_output g k f b) = vb_generation b"
  "vb_open (release_value_output g k f b) = vb_open b"
  "vb_claimed (release_value_output g k f b) = vb_claimed b"
  "vb_active (release_value_output g k f b) = (vb_active b \<and> \<not> (g = vb_generation b \<and> vb_open b = Some k))"
  by (auto simp: release_value_output_def Let_def split: option.splits)

lemma bridge_reach_inv: "bridge_reach n b ls \<Longrightarrow> n < 2 ^ 64 \<Longrightarrow> bridge_inv n b ls"
proof (induction rule: bridge_reach.induct)
  case reach_default
  then show ?case by (simp add: bridge_inv_def bridge_default_def)
next
  case (reach_begin n b ls kind)
  then have inv: "bridge_inv n b ls" by simp
  then have g: "unat (max (vb_generation b + 1) 1) = Suc n"
    using reach_begin.prems by (subst next_generation) (simp_all add: bridge_inv_def)
  have "\<forall>l\<in>set ls. ls_generation l \<noteq> max (vb_generation b + 1) 1"
    using inv g by (metis bridge_inv_def Suc_n_not_le_n)
  with inv g show ?case by (auto simp: bridge_inv_def)
next
  case (reach_acquire n b ls kind l b1)
  then show ?case
    by (auto simp: bridge_inv_def acquire_value_output_def split: if_splits)
next
  case (reach_release n b ls l failure)
  then show ?case
    unfolding lease_release_def by (intro bridge_inv_remove [of n b ls]) (simp_all add: release_frame)
next
  case (reach_drop n b ls l)
  then show ?case
    unfolding lease_drop_def by (intro bridge_inv_remove [of n b ls]) (simp_all add: release_frame)
next
  case (reach_close n b ls kind)
  then show ?case by (simp add: bridge_inv_def)
qed

section \<open>Properties\<close>

text \<open>A value window has one writer: of the leases given out and not yet returned, at most one is open,
  and only while the window it was given for is; a lease of an earlier window neither reads as
  open nor changes the bridge when it is released, with or without a failure.  (Up to the
  2^64 - 1 windows its generation counter tells apart.)\<close>

lemma value_lease_exclusive:
  assumes "bridge_reach n b ls" and "n < 2 ^ 64" and "l \<in> set ls" and "l1 \<in> set ls"
  shows "(lease_is_open l b \<and> lease_is_open l1 b \<longrightarrow> l = l1)
    \<and> (ls_generation l \<noteq> vb_generation b \<longrightarrow> \<not> lease_is_open l b \<and> lease_release l failure b = b)
    \<and> (vb_active b \<longrightarrow> fst (acquire_value_output kind b) = None)"
proof -
  have "distinct (map ls_generation ls)"
    using bridge_reach_inv [OF assms(1,2)] by (simp add: bridge_inv_def)
  with assms(3,4) have "ls_generation l = ls_generation l1 \<longrightarrow> l = l1"
    by (metis distinct_map inj_onD)
  then show ?thesis
    by (auto simp: lease_is_open_def value_output_is_open_def lease_release_def release_value_output_def
        acquire_value_output_def)
qed

lemma value_lease_exclusive_witness:
  "lease_release \<lparr>ls_generation = 1, ls_kind = FormOutput\<rparr> None
     (begin_value_output EvalValueOutput (snd (close_value_output FormOutput
       (snd (acquire_value_output FormOutput (begin_value_output FormOutput bridge_default))))))
   = begin_value_output EvalValueOutput (snd (close_value_output FormOutput
       (snd (acquire_value_output FormOutput (begin_value_output FormOutput bridge_default)))))"
proof -
  let ?l = "\<lparr>ls_generation = 1, ls_kind = FormOutput\<rparr>"
  let ?b1 = "begin_value_output FormOutput bridge_default"
  let ?b2 = "snd (acquire_value_output FormOutput ?b1)"
  let ?b = "begin_value_output EvalValueOutput (snd (close_value_output FormOutput ?b2))"
  have "acquire_value_output FormOutput ?b1 = (Some ?l, ?b2)"
    by (simp add: acquire_value_output_def begin_value_output_def bridge_default_def)
  from reach_begin [OF reach_close [OF reach_acquire [OF reach_begin [OF reach_default] this]]]
  have r: "bridge_reach (Suc (Suc 0)) ?b [?l]" .
  have "ls_generation ?l \<noteq> vb_generation ?b" by code_simp
  with value_lease_exclusive [OF r, of ?l ?l] show ?thesis by simp
qed

text \<open>How a window closes: the first failure reported wins over what closing itself finds.\<close>

lemma close_value_output_result:
  "fst (close_value_output kind b) =
     (if vb_failure b \<noteq> None then vb_failure b
      else if vb_open b \<noteq> Some kind then Some BridgeInvalidSequence
      else if vb_active b then Some BridgeAbandoned
      else if kind = EvalValueOutput \<and> \<not> vb_claimed b then Some BridgeMissingValue
      else None)"
  by (auto simp: close_value_output_def record_failure_def Let_def get_or_insert_def split: option.splits)

text \<open>A window closes without a failure exactly when it is the one that was opened, its lease, if it was
  claimed, has been returned, nothing failed in it, and an eval value has been claimed; whatever
  happened, the bridge is then closed and remembers no failure.\<close>

lemma value_window_closes:
  "(fst (close_value_output kind b) = None \<longleftrightarrow>
      vb_open b = Some kind \<and> \<not> vb_active b \<and> vb_failure b = None \<and> (kind = EvalValueOutput \<longrightarrow> vb_claimed b))
   \<and> vb_open (snd (close_value_output kind b)) = None \<and> vb_failure (snd (close_value_output kind b)) = None
   \<and> \<not> lease_is_open l (snd (close_value_output kind b))"
  by (auto simp: close_value_output_result lease_is_open_def value_output_is_open_def)

lemma value_window_closes_witness:
  "fst (close_value_output FormOutput (begin_value_output FormOutput bridge_default)) = None"
  using value_window_closes [of FormOutput "begin_value_output FormOutput bridge_default"]
  by (simp add: begin_value_output_def bridge_default_def)

end
