(* ===== verification/Ids.thy ===== *)
theory Ids
  imports Rust_Text
begin

text \<open>
  The identifiers of the protocol: drawing IDs and instance IDs
  (\<open>crates/rpc/src/drawing.rs\<close>, \<open>instance.rs\<close>), the CLI's target that joins them
  (\<open>crates/cli/src/commands/target.rs\<close>) and source names (\<open>crates/rpc/src/source.rs\<close>).
  A \<open>NonZeroU16\<close> is a word that the constructor function never lets be zero; parse errors
  are \<open>None\<close>.
\<close>

section \<open>Hexadecimal text\<close>

definition byte_is_hexdigit :: "byte \<Rightarrow> bool" where
  "byte_is_hexdigit b \<longleftrightarrow> (48 \<le> b \<and> b \<le> 57) \<or> (65 \<le> b \<and> b \<le> 70) \<or> (97 \<le> b \<and> b \<le> 102)"

definition all_hexdigits :: "ustr \<Rightarrow> bool" where
  "all_hexdigits s \<longleftrightarrow> list_all byte_is_hexdigit (as_bytes s)"

definition hex_digit_value :: "uchar \<Rightarrow> nat" where
  "hex_digit_value c = (if is_ascii_digit c then c - 48 else if 97 \<le> c then c - 87 else c - 55)"

definition hex_value :: "ustr \<Rightarrow> nat" where
  "hex_value s = foldl (\<lambda>v c. v * 16 + hex_digit_value c) 0 s"

text \<open>\<open>from_str_radix(value, 16)\<close> on a non-empty text of digits: the value, if it fits the width.\<close>

definition u16_from_hex :: "ustr \<Rightarrow> 16 word option" where
  "u16_from_hex s = (if s \<noteq> [] \<and> hex_value s < 2 ^ 16 then Some (of_nat (hex_value s)) else None)"

definition u32_from_hex :: "ustr \<Rightarrow> 32 word option" where
  "u32_from_hex s = (if s \<noteq> [] \<and> hex_value s < 2 ^ 32 then Some (of_nat (hex_value s)) else None)"

definition hex_digit :: "nat \<Rightarrow> uchar" where
  "hex_digit d = (if d < 10 then 48 + d else 55 + d)"

fun hex_nat :: "nat \<Rightarrow> ustr" where
  "hex_nat n = (if n < 16 then [hex_digit n] else hex_nat (n div 16) @ [hex_digit (n mod 16)])"

declare hex_nat.simps [simp del]

text \<open>The format \<open>{:04X}\<close>.\<close>

definition pad4 :: "ustr \<Rightarrow> ustr" where
  "pad4 s = replicate (4 - length s) 48 @ s"

definition format_04X :: "nat \<Rightarrow> ustr" where
  "format_04X n = pad4 (hex_nat n)"

section \<open>Drawing IDs\<close>

datatype drawing_id = DrawingId (did_get: "16 word")

definition drawing_id_new :: "16 word \<Rightarrow> drawing_id option" where
  "drawing_id_new v = (if v \<noteq> 0 then Some (DrawingId v) else None)"

definition DRAWING_ID_HEX_WIDTH :: nat where
  "DRAWING_ID_HEX_WIDTH = 4"

definition drawing_id_to_u32 :: "drawing_id \<Rightarrow> 32 word" where
  "drawing_id_to_u32 i = ucast (did_get i)"

definition drawing_id_try_from_u32 :: "32 word \<Rightarrow> drawing_id option" where
  "drawing_id_try_from_u32 v =
     (if unat v < 2 ^ 16 then drawing_id_new (ucast v) else None)"

definition drawing_id_display :: "drawing_id \<Rightarrow> ustr" where
  "drawing_id_display i = format_04X (unat (did_get i))"

definition drawing_id_from_str :: "ustr \<Rightarrow> drawing_id option" where
  "drawing_id_from_str s =
     (if byte_len s \<noteq> DRAWING_ID_HEX_WIDTH \<or> \<not> all_hexdigits s then None
      else Option.bind (u16_from_hex s) drawing_id_new)"

section \<open>Instance IDs\<close>

datatype instance_id = InstanceId (iid_get: "32 word")

definition instance_id_new :: "32 word \<Rightarrow> instance_id option" where
  "instance_id_new v = (if v \<noteq> 0 then Some (InstanceId v) else None)"

definition MIN_HEX_WIDTH :: nat where "MIN_HEX_WIDTH = 4"
definition MAX_HEX_WIDTH :: nat where "MAX_HEX_WIDTH = 8"

fun bit_length :: "nat \<Rightarrow> nat" where
  "bit_length n = (if n = 0 then 0 else Suc (bit_length (n div 2)))"

declare bit_length.simps [simp del]

definition leading_zeros32 :: "32 word \<Rightarrow> nat" where
  "leading_zeros32 w = 32 - bit_length (unat w)"

definition div_ceil :: "nat \<Rightarrow> nat \<Rightarrow> nat" where
  "div_ceil a b = (a + b - 1) div b"

definition hex_width :: "instance_id \<Rightarrow> nat" where
  "hex_width i =
     (let digits = div_ceil (32 - leading_zeros32 (iid_get i)) 4
      in if digits < MIN_HEX_WIDTH then MIN_HEX_WIDTH else digits)"

definition instance_id_display :: "instance_id \<Rightarrow> ustr" where
  "instance_id_display i = format_04X (unat (iid_get i))"

definition instance_id_from_str :: "ustr \<Rightarrow> instance_id option" where
  "instance_id_from_str s =
     (if \<not> (MIN_HEX_WIDTH \<le> byte_len s \<and> byte_len s \<le> MAX_HEX_WIDTH) \<or> \<not> all_hexdigits s then None
      else Option.bind (u32_from_hex s) instance_id_new)"

section \<open>Targets and source names\<close>

record target =
  tg_instance :: instance_id
  tg_drawing :: drawing_id

definition target_display :: "target \<Rightarrow> ustr" where
  "target_display t = instance_id_display (tg_instance t) @ drawing_id_display (tg_drawing t)"

definition target_from_str :: "ustr \<Rightarrow> target option" where
  "target_from_str s =
     (if byte_len s < DRAWING_ID_HEX_WIDTH then None
      else
        (let instance_width = byte_len s - DRAWING_ID_HEX_WIDTH in
         if \<not> (MIN_HEX_WIDTH \<le> instance_width \<and> instance_width \<le> MAX_HEX_WIDTH) then None
         else if \<not> all_hexdigits s then None
         else Option.bind (instance_id_from_str (take_bytes instance_width s)) (\<lambda>i.
              Option.bind (drawing_id_from_str (drop_bytes instance_width s)) (\<lambda>d.
              Some \<lparr>tg_instance = i, tg_drawing = d\<rparr>))))"

definition MAX_SOURCE_NAME_BYTES :: nat where
  "MAX_SOURCE_NAME_BYTES = 4 * 1024"

datatype source_name_error = SourceNameEmpty | SourceNameTooLong

type_synonym source_name = ustr

definition source_name_new :: "ustr \<Rightarrow> source_name_error + source_name" where
  "source_name_new value =
     (if value = [] then Inl SourceNameEmpty
      else if byte_len value > MAX_SOURCE_NAME_BYTES then Inl SourceNameTooLong
      else Inr value)"

section \<open>Digits\<close>

lemma byte_of_nat_le: "a < 256 \<Longrightarrow> b < 256 \<Longrightarrow> (of_nat a :: byte) \<le> of_nat b \<longleftrightarrow> a \<le> b"
  by (simp add: word_le_nat_alt unat_of_nat)

lemma byte_is_hexdigit_of_nat: "n < 256 \<Longrightarrow> byte_is_hexdigit (of_nat n) = is_ascii_hexdigit n"
  using byte_of_nat_le [of 48 n] byte_of_nat_le [of n 57] byte_of_nat_le [of 65 n]
    byte_of_nat_le [of n 70] byte_of_nat_le [of 97 n] byte_of_nat_le [of n 102]
  by (simp add: byte_is_hexdigit_def is_ascii_hexdigit_def is_ascii_digit_def)

lemma encode_char_hexdigits:
  "list_all byte_is_hexdigit (encode_char c) \<longleftrightarrow> is_ascii_hexdigit c"
proof (cases "c < 0x80")
  case True
  then show ?thesis by (simp add: encode_char_def byte_is_hexdigit_of_nat)
next
  case False
  have "\<not> byte_is_hexdigit (of_nat (0x80 + c mod 64))"
  proof -
    have "c mod 64 < 64" by simp
    then have "\<not> is_ascii_hexdigit (0x80 + c mod 64)" "0x80 + c mod 64 < 256"
      by (simp_all add: is_ascii_hexdigit_def is_ascii_digit_def)
    then show ?thesis by (simp only: byte_is_hexdigit_of_nat not_False_eq_True)
  qed
  moreover from False have "\<not> is_ascii_hexdigit c" by (simp add: is_ascii_hexdigit_def is_ascii_digit_def)
  ultimately show ?thesis using False by (simp add: encode_char_def)
qed

lemma all_hexdigits_iff: "all_hexdigits s \<longleftrightarrow> (\<forall>c\<in>set s. is_ascii_hexdigit c)"
  unfolding all_hexdigits_def by (induction s) (simp_all add: encode_char_hexdigits)

lemma hexdigits_byte_len: "all_hexdigits s \<Longrightarrow> byte_len s = length s"
  unfolding all_hexdigits_iff
  by (induction s) (auto simp: len_utf8_def is_ascii_hexdigit_def is_ascii_digit_def)

lemma all_hexdigits_append: "all_hexdigits (s @ t) \<longleftrightarrow> all_hexdigits s \<and> all_hexdigits t"
  by (auto simp: all_hexdigits_iff)

lemma hex_digit_ok: "d < 16 \<Longrightarrow> is_ascii_hexdigit (hex_digit d)"
  by (auto simp: hex_digit_def is_ascii_hexdigit_def is_ascii_digit_def)

lemma hex_digit_value_digit [simp]: "d < 16 \<Longrightarrow> hex_digit_value (hex_digit d) = d"
  by (auto simp: hex_digit_def hex_digit_value_def is_ascii_digit_def)

lemma hex_value_append [simp]: "hex_value (s @ [c]) = hex_value s * 16 + hex_digit_value c"
  by (simp add: hex_value_def)

lemma hex_nat_hexdigits: "all_hexdigits (hex_nat n)"
proof (induction n rule: hex_nat.induct)
  case (1 n)
  then show ?case
    by (subst hex_nat.simps) (auto simp: all_hexdigits_iff hex_digit_ok)
qed

lemma hex_value_hex_nat: "hex_value (hex_nat n) = n"
proof (induction n rule: hex_nat.induct)
  case (1 n)
  then show ?case by (subst hex_nat.simps) (simp add: hex_value_def)
qed

lemma hex_value_zeros: "hex_value (replicate k 48 @ s) = hex_value s"
proof -
  have z: "hex_digit_value 48 = 0" by (simp add: hex_digit_value_def is_ascii_digit_def)
  then have "foldl (\<lambda>v c. v * 16 + hex_digit_value c) 0 (replicate k 48) = 0"
    by (induction k) auto
  then show ?thesis by (simp add: hex_value_def)
qed

lemma length_hex_nat_le: "0 < w \<Longrightarrow> n < 16 ^ w \<Longrightarrow> length (hex_nat n) \<le> w"
proof (induction n arbitrary: w rule: hex_nat.induct)
  case (1 n)
  show ?case
  proof (cases "n < 16")
    case True
    with 1(2) show ?thesis by (subst hex_nat.simps) simp
  next
    case False
    with 1(3) obtain v where w: "w = Suc v" "0 < v"
      by (metis One_nat_def Suc_pred 1(2) power_one_right neq0_conv not_less_eq nat_neq_iff)
    with 1(3) have "n div 16 < 16 ^ v" by (simp add: less_mult_imp_div_less mult.commute)
    with 1(1) False w show ?thesis by (subst hex_nat.simps) simp
  qed
qed

lemma length_hex_nat_pos [simp]: "0 < length (hex_nat n)" "hex_nat n \<noteq> []"
  by (subst hex_nat.simps, simp)+

lemma format_04X_hexdigits: "all_hexdigits (format_04X n)"
proof -
  have "is_ascii_hexdigit 48" by (simp add: is_ascii_hexdigit_def is_ascii_digit_def)
  with hex_nat_hexdigits show ?thesis
    by (auto simp: format_04X_def pad4_def all_hexdigits_iff)
qed

lemma hex_value_format_04X [simp]: "hex_value (format_04X n) = n"
  by (simp add: format_04X_def pad4_def hex_value_zeros hex_value_hex_nat)

lemma length_format_04X:
  "4 \<le> length (format_04X n)" "n < 16 ^ w \<Longrightarrow> 4 \<le> w \<Longrightarrow> length (format_04X n) \<le> w"
  using length_hex_nat_le [of w n] by (auto simp: format_04X_def pad4_def)

lemma format_04X_nonempty [simp]: "format_04X n \<noteq> []"
  using length_format_04X(1) [of n] by auto

section \<open>Round trips\<close>

lemma drawing_id_round_trip:
  assumes "did_get i \<noteq> 0"
  shows "drawing_id_from_str (drawing_id_display i) = Some i"
proof -
  let ?s = "format_04X (unat (did_get i))"
  have lt: "unat (did_get i) < 16 ^ 4" using unat_lt [of "did_get i"] by simp
  then have "byte_len ?s = 4"
    using hexdigits_byte_len [OF format_04X_hexdigits] length_format_04X [of "unat (did_get i)"]
    by (metis le_antisym le_refl)
  moreover have "u16_from_hex ?s = Some (did_get i)" using lt by (simp add: u16_from_hex_def)
  ultimately show ?thesis
    using assms format_04X_hexdigits
    by (simp add: drawing_id_from_str_def drawing_id_display_def DRAWING_ID_HEX_WIDTH_def
        drawing_id_new_def)
qed

lemma byte_len_instance_display:
  "4 \<le> byte_len (instance_id_display i)" "byte_len (instance_id_display i) \<le> 8"
  using hexdigits_byte_len [OF format_04X_hexdigits] length_format_04X(1) [of "unat (iid_get i)"]
    length_format_04X(2) [of "unat (iid_get i)" 8] unat_lt [of "iid_get i"]
  by (simp_all add: instance_id_display_def)

lemma byte_len_drawing_display: "byte_len (drawing_id_display i) = 4"
  using hexdigits_byte_len [OF format_04X_hexdigits] length_format_04X(1) [of "unat (did_get i)"]
    length_format_04X(2) [of "unat (did_get i)" 4] unat_lt [of "did_get i"]
  by (simp add: drawing_id_display_def)

lemma instance_id_round_trip:
  assumes "iid_get i \<noteq> 0"
  shows "instance_id_from_str (instance_id_display i) = Some i"
proof -
  have "u32_from_hex (instance_id_display i) = Some (iid_get i)"
    using unat_lt [of "iid_get i"] by (simp add: u32_from_hex_def instance_id_display_def)
  then show ?thesis
    using assms byte_len_instance_display [of i] format_04X_hexdigits
    by (simp add: instance_id_from_str_def MIN_HEX_WIDTH_def MAX_HEX_WIDTH_def instance_id_new_def
        instance_id_display_def)
qed

definition target_ok :: "target \<Rightarrow> bool" where
  "target_ok t \<longleftrightarrow> iid_get (tg_instance t) \<noteq> 0 \<and> did_get (tg_drawing t) \<noteq> 0"

lemma drawing_id_from_str_ok: "drawing_id_from_str s = Some i \<Longrightarrow> did_get i \<noteq> 0"
  by (auto simp: drawing_id_from_str_def drawing_id_new_def bind_eq_Some_conv split: if_splits)

lemma instance_id_from_str_ok: "instance_id_from_str s = Some i \<Longrightarrow> iid_get i \<noteq> 0"
  by (auto simp: instance_id_from_str_def instance_id_new_def bind_eq_Some_conv split: if_splits)

lemma target_from_str_ok: "target_from_str s = Some t \<Longrightarrow> target_ok t"
  by (auto simp: target_from_str_def Let_def target_ok_def bind_eq_Some_conv
      dest: drawing_id_from_str_ok instance_id_from_str_ok split: if_splits)

lemma target_display_parses:
  assumes "target_ok t"
  shows "target_from_str (target_display t) = Some t"
proof -
  let ?i = "instance_id_display (tg_instance t)" and ?d = "drawing_id_display (tg_drawing t)"
  have len: "byte_len (target_display t) - 4 = byte_len ?i"
    by (simp add: target_display_def byte_len_drawing_display)
  have "all_hexdigits (target_display t)"
    by (simp add: target_display_def all_hexdigits_append instance_id_display_def
        drawing_id_display_def format_04X_hexdigits)
  with len byte_len_instance_display [of "tg_instance t"] show ?thesis
    using assms instance_id_round_trip [of "tg_instance t"] drawing_id_round_trip [of "tg_drawing t"]
    by (simp add: target_from_str_def DRAWING_ID_HEX_WIDTH_def MIN_HEX_WIDTH_def MAX_HEX_WIDTH_def
        target_ok_def)
      (simp add: target_display_def byte_len_drawing_display)
qed

text \<open>A target's text names it and nothing else: a target with nonzero IDs is read back from its
  display form, so two such targets never share one; and a text that parses, in whatever case
  and with whatever leading zeroes of the instance, displays in a normal form that parses to
  the same target.\<close>

lemma target_round_trip:
  "(target_ok t \<longrightarrow> target_from_str (target_display t) = Some t)
   \<and> (target_from_str s = Some u \<longrightarrow> target_from_str (target_display u) = Some u)
   \<and> (target_ok t \<and> target_ok u \<and> target_display t = target_display u \<longrightarrow> t = u)"
  using target_display_parses target_from_str_ok by (metis option.inject)

lemma target_round_trip_witness:
  "target_from_str (lit ''00fa532f3'') = Some \<lparr>tg_instance = InstanceId 0xFA5, tg_drawing = DrawingId 0x32F3\<rparr>
   \<and> target_display \<lparr>tg_instance = InstanceId 0xFA5, tg_drawing = DrawingId 0x32F3\<rparr> = lit ''0FA532F3''
   \<and> target_from_str (lit ''0FA532F3'') = Some \<lparr>tg_instance = InstanceId 0xFA5, tg_drawing = DrawingId 0x32F3\<rparr>"
proof -
  have p: "target_from_str (lit ''00fa532f3'') = Some \<lparr>tg_instance = InstanceId 0xFA5, tg_drawing = DrawingId 0x32F3\<rparr>"
    by code_simp
  have d: "target_display \<lparr>tg_instance = InstanceId 0xFA5, tg_drawing = DrawingId 0x32F3\<rparr> = lit ''0FA532F3''"
    by code_simp
  from p d target_round_trip [of undefined "lit ''00fa532f3''"] show ?thesis by metis
qed

text \<open>The width the list command aligns on is the width the display form has.\<close>

lemma bit_length_Suc: "n \<noteq> 0 \<Longrightarrow> bit_length n = Suc (bit_length (n div 2))"
  by (subst bit_length.simps) simp

lemma bit_length_0 [simp]: "bit_length 0 = 0"
  by (subst bit_length.simps) simp

lemma bit_length_le: "n < 2 ^ k \<Longrightarrow> bit_length n \<le> k"
proof (induction n arbitrary: k rule: bit_length.induct)
  case (1 n)
  show ?case
  proof (cases "n = 0")
    case False
    with 1(2) obtain j where k: "k = Suc j" by (cases k) auto
    with 1(2) have "n div 2 < 2 ^ j" by simp
    with 1(1) False k show ?thesis by (simp add: bit_length_Suc)
  qed simp
qed

lemma bit_length_div16: "16 \<le> n \<Longrightarrow> bit_length n = bit_length (n div 16) + 4"
proof -
  assume n: "16 \<le> n"
  then have "bit_length n = Suc (Suc (Suc (Suc (bit_length (n div 2 div 2 div 2 div 2)))))"
    by (simp add: bit_length_Suc)
  then show ?thesis by (simp add: div_mult2_eq [symmetric])
qed

lemma length_hex_nat: "n \<noteq> 0 \<Longrightarrow> length (hex_nat n) = div_ceil (bit_length n) 4"
proof (induction n rule: hex_nat.induct)
  case (1 n)
  show ?case
  proof (cases "n < 16")
    case True
    have "0 < bit_length n" using 1(2) by (simp add: bit_length_Suc)
    moreover have "bit_length n \<le> 4" using True by (intro bit_length_le) simp
    ultimately show ?thesis using True
      by (subst hex_nat.simps) (auto simp: div_ceil_def)
  next
    case False
    then have "n div 16 \<noteq> 0" by simp
    with 1(1) False show ?thesis
      by (subst hex_nat.simps) (simp add: bit_length_div16 div_ceil_def)
  qed
qed

theorem hex_width_is_display_width:
  "iid_get i \<noteq> 0 \<Longrightarrow> hex_width i = byte_len (instance_id_display i)"
proof -
  assume nz: "iid_get i \<noteq> 0"
  let ?n = "unat (iid_get i)"
  have n0: "?n \<noteq> 0" using nz by (simp add: unat_eq_0)
  have "bit_length ?n \<le> 32" using unat_lt [of "iid_get i"] by (intro bit_length_le) simp
  then have "div_ceil (32 - leading_zeros32 (iid_get i)) 4 = length (hex_nat ?n)"
    using length_hex_nat [OF n0] by (simp add: leading_zeros32_def)
  then show ?thesis
    using hexdigits_byte_len [OF format_04X_hexdigits, of ?n]
    by (auto simp: hex_width_def Let_def MIN_HEX_WIDTH_def instance_id_display_def format_04X_def
        pad4_def)
qed

lemma drawing_id_wire_round_trip:
  assumes "did_get i \<noteq> 0"
  shows "drawing_id_try_from_u32 (drawing_id_to_u32 i) = Some i"
proof -
  have "unat (drawing_id_to_u32 i) = unat (did_get i)"
    using unat_lt [of "did_get i"]
    by (simp add: drawing_id_to_u32_def unsigned_ucast_eq take_bit_nat_eq_self)
  moreover have "ucast (drawing_id_to_u32 i) = did_get i"
    by (simp add: drawing_id_to_u32_def ucast_up_ucast_id is_up)
  ultimately show ?thesis
    using assms unat_lt [of "did_get i"]
    by (simp add: drawing_id_try_from_u32_def drawing_id_new_def)
qed

end
