(* ===== verification/Lisp_Scanner.thy ===== *)
theory Lisp_Scanner
  imports Rust_Text
begin

text \<open>
  The AutoLISP source scanner, \<open>crates/lisp/src/lib.rs\<close>: it splits a source into
  top-level forms without interpreting them, and can be suspended and resumed at
  a constant-size position.  The cursor operations return the error (if any) next
  to the moved cursor, as the \<open>&mut self\<close> methods leave both behind.
\<close>

section \<open>Data\<close>

record form_span =
  byte_start :: nat
  byte_end :: nat
  span_line :: nat
  span_column :: nat

datatype scan_error_kind =
    UnexpectedCloseParen
  | UnterminatedList
  | UnterminatedString
  | UnterminatedBlockComment
  | MissingQuotedForm

definition scan_error_message :: "scan_error_kind \<Rightarrow> ustr" where
  "scan_error_message k = (case k of
     UnexpectedCloseParen \<Rightarrow> lit ''unexpected closing parenthesis''
   | UnterminatedList \<Rightarrow> lit ''unterminated list''
   | UnterminatedString \<Rightarrow> lit ''unterminated string''
   | UnterminatedBlockComment \<Rightarrow> lit ''unterminated block comment''
   | MissingQuotedForm \<Rightarrow> lit ''quote is not followed by a form'')"

record scan_error =
  err_kind :: scan_error_kind
  err_line :: nat
  err_column :: nat

record scan_position =
  pos_byte :: nat
  pos_line :: nat
  pos_column :: nat
  pos_finished :: bool

record cursor =
  cu_source :: ustr
  cu_byte :: nat
  cu_line :: nat
  cu_column :: nat

record scanner =
  sc_cursor :: cursor
  sc_finished :: bool

text \<open>\<open>Result<(), ScanError>\<close> with the cursor it leaves: \<open>None\<close> is \<open>Ok(())\<close>.\<close>

type_synonym scan_step = "scan_error option \<times> cursor"

section \<open>The cursor\<close>

definition new_cursor :: "ustr \<Rightarrow> cursor" where
  "new_cursor source = \<lparr>cu_source = source, cu_byte = 0, cu_line = 1, cu_column = 1\<rparr>"

definition remaining :: "cursor \<Rightarrow> ustr" where
  "remaining c = drop_bytes (cu_byte c) (cu_source c)"

definition peek :: "cursor \<Rightarrow> uchar option" where
  "peek c = (case remaining c of [] \<Rightarrow> None | ch # _ \<Rightarrow> Some ch)"

text \<open>
  The source tests \<open>self.byte == self.source.len()\<close>; a byte offset past the end never
  occurs (\<open>cursor_ok\<close> below), so the comparison is written as a bound.
\<close>

definition is_end :: "cursor \<Rightarrow> bool" where
  "is_end c \<longleftrightarrow> byte_len (cu_source c) \<le> cu_byte c"

definition error_at :: "scan_error_kind \<Rightarrow> nat \<Rightarrow> nat \<Rightarrow> scan_error" where
  "error_at k line column = \<lparr>err_kind = k, err_line = line, err_column = column\<rparr>"

definition error_here :: "cursor \<Rightarrow> scan_error_kind \<Rightarrow> scan_error" where
  "error_here c k = error_at k (cu_line c) (cu_column c)"

definition advance :: "cursor \<Rightarrow> cursor" where
  "advance c = (case peek c of
     None \<Rightarrow> c
   | Some ch \<Rightarrow>
       if ch = ch_cr then
         (let c1 = c\<lparr>cu_byte := cu_byte c + 1\<rparr>;
              c2 = (if peek c1 = Some ch_lf then c1\<lparr>cu_byte := cu_byte c1 + 1\<rparr> else c1)
          in c2\<lparr>cu_line := cu_line c + 1, cu_column := 1\<rparr>)
       else if ch = ch_lf then
         c\<lparr>cu_byte := cu_byte c + 1, cu_line := cu_line c + 1, cu_column := 1\<rparr>
       else
         c\<lparr>cu_byte := cu_byte c + len_utf8 ch, cu_column := cu_column c + 1\<rparr>)"

abbreviation (input) rest_len :: "cursor \<Rightarrow> nat" where
  "rest_len c \<equiv> length (remaining c)"

lemma peek_None [cursor_simps]: "peek c = None \<longleftrightarrow> remaining c = []"
  by (auto simp: peek_def split: list.splits)

lemma is_end_iff [cursor_simps]: "is_end c \<longleftrightarrow> remaining c = []"
  by (simp add: is_end_def remaining_def drop_bytes_Nil_iff)

lemma peek_SomeD: "peek c = Some ch \<Longrightarrow> \<exists>r. remaining c = ch # r"
  by (auto simp: peek_def split: list.splits)

lemma length_drop_bytes_mono: "length (drop_bytes (b + n) s) \<le> length (drop_bytes b s)"
proof (induction b s rule: drop_bytes.induct)
  case (2 b d s)
  have "length (drop_bytes m t) \<le> length t" for m t
    by (induction m t rule: drop_bytes.induct) auto
  then have "length (drop_bytes (b + n - len_utf8 d) s) \<le> Suc (length s)"
    using le_SucI by blast
  with 2 show ?case by (cases "len_utf8 d \<le> b") auto
qed simp

lemma advance_at_end: "peek c = None \<Longrightarrow> advance c = c"
  by (simp add: advance_def)

lemma len_utf8_ascii: "ch < 0x80 \<Longrightarrow> len_utf8 ch = 1"
  by (simp add: len_utf8_def)

lemma advance_shorter:
  assumes "peek c = Some ch"
  shows "rest_len (advance c) < rest_len c"
proof -
  obtain r where r: "drop_bytes (cu_byte c) (cu_source c) = ch # r"
    using peek_SomeD [OF assms] by (auto simp: remaining_def)
  have step: "length (drop_bytes (cu_byte c + len_utf8 ch) (cu_source c)) < Suc (length r)"
    using drop_bytes_step_shorter [OF r] .
  have cr: "length (drop_bytes (cu_byte c + 1 + 1) (cu_source c))
      \<le> length (drop_bytes (cu_byte c + 1) (cu_source c))"
    by (rule length_drop_bytes_mono)
  consider "ch = ch_cr" | "ch = ch_lf" | "ch \<noteq> ch_cr" "ch \<noteq> ch_lf" by blast
  then show ?thesis
  proof cases
    case 1
    with step have "length (drop_bytes (cu_byte c + 1) (cu_source c)) < Suc (length r)"
      by (simp add: len_utf8_def)
    with 1 cr assms r show ?thesis by (auto simp: advance_def remaining_def Let_def)
  next
    case 2
    with step assms r show ?thesis by (simp add: advance_def remaining_def len_utf8_def)
  next
    case 3
    with step assms r show ?thesis by (simp add: advance_def remaining_def)
  qed
qed

lemma advance_le: "rest_len (advance c) \<le> rest_len c"
  by (cases "peek c") (auto simp: advance_at_end dest: advance_shorter)

lemma advance_source [simp]: "cu_source (advance c) = cu_source c"
  by (auto simp: advance_def Let_def split: option.splits)

section \<open>Skipping comments and white space\<close>

definition starts_with2 :: "ustr \<Rightarrow> uchar \<Rightarrow> uchar \<Rightarrow> bool" where
  "starts_with2 s a b \<longleftrightarrow> take 2 s = [a, b]"

function skip_block :: "nat \<times> nat \<Rightarrow> cursor \<Rightarrow> scan_step" where
  "skip_block start c =
     (if starts_with2 (remaining c) ch_bar ch_semi then (None, advance (advance c))
      else if is_end c then
        (Some (error_at UnterminatedBlockComment (fst start) (snd start)), c)
      else skip_block start (advance c))"
  by pat_completeness auto

lemma not_end_advance: "\<not> is_end c \<Longrightarrow> rest_len (advance c) < rest_len c"
  using advance_shorter [of c] by (cases "peek c") (auto simp: cursor_simps)

termination skip_block
  by (relation "measure (\<lambda>(_, c). rest_len c)") (auto intro: not_end_advance)

function skip_line_comment :: "cursor \<Rightarrow> cursor" where
  "skip_line_comment c =
     (case peek c of
        None \<Rightarrow> c
      | Some ch \<Rightarrow> if ch \<noteq> ch_cr \<and> ch \<noteq> ch_lf then skip_line_comment (advance c) else c)"
  by pat_completeness auto
termination
  by (relation "measure (\<lambda>c. rest_len c)") (auto intro: advance_shorter)

definition skip_comment :: "cursor \<Rightarrow> scan_step" where
  "skip_comment c =
     (if starts_with2 (remaining c) ch_semi ch_bar then
        skip_block (cu_line c, cu_column c) (advance (advance c))
      else (None, skip_line_comment c))"

declare skip_block.simps [simp del] skip_line_comment.simps [simp del]

lemma skip_block_le: "rest_len (snd (skip_block start c)) \<le> rest_len c"
proof (induction start c rule: skip_block.induct)
  case (1 start c)
  have "rest_len (advance (advance c)) \<le> rest_len c"
    using advance_le [of c] advance_le [of "advance c"] by linarith
  with 1 advance_le [of c] show ?case
    by (subst skip_block.simps) auto
qed

lemma skip_line_comment_le: "rest_len (skip_line_comment c) \<le> rest_len c"
proof (induction c rule: skip_line_comment.induct)
  case (1 c)
  then show ?case using advance_le [of c]
    by (subst skip_line_comment.simps) (auto split: option.splits dest: order_trans)
qed

lemma skip_comment_shorter:
  assumes "peek c = Some ch_semi"
  shows "rest_len (snd (skip_comment c)) < rest_len c"
proof (cases "starts_with2 (remaining c) ch_semi ch_bar")
  case True
  then show ?thesis
    using skip_block_le [of _ "advance (advance c)"] advance_le [of "advance c"]
      advance_shorter [OF assms]
    by (simp add: skip_comment_def) (meson le_less_trans order_trans)
next
  case False
  have "skip_line_comment c = skip_line_comment (advance c)"
    using assms by (subst skip_line_comment.simps) simp
  with False show ?thesis
    using skip_line_comment_le [of "advance c"] advance_shorter [OF assms]
    by (simp add: skip_comment_def)
qed

function skip_spaces :: "cursor \<Rightarrow> cursor" where
  "skip_spaces c =
     (case peek c of
        None \<Rightarrow> c
      | Some ch \<Rightarrow> if is_whitespace ch then skip_spaces (advance c) else c)"
  by pat_completeness auto
termination
  by (relation "measure (\<lambda>c. rest_len c)") (auto intro: advance_shorter)

declare skip_spaces.simps [simp del]

lemma skip_spaces_le: "rest_len (skip_spaces c) \<le> rest_len c"
proof (induction c rule: skip_spaces.induct)
  case (1 c)
  then show ?case using advance_le [of c]
    by (subst skip_spaces.simps) (auto split: option.splits dest: order_trans)
qed

function skip_trivia :: "cursor \<Rightarrow> scan_step" where
  "skip_trivia c =
     (if peek (skip_spaces c) \<noteq> Some ch_semi then (None, skip_spaces c)
      else (case skip_comment (skip_spaces c) of
              (Some e, c2) \<Rightarrow> (Some e, c2)
            | (None, c2) \<Rightarrow> skip_trivia c2))"
  by pat_completeness auto

lemma skip_trivia_dec:
  assumes "peek (skip_spaces c) = Some ch_semi" and "(e, c2) = skip_comment (skip_spaces c)"
  shows "rest_len c2 < rest_len c"
proof -
  have "rest_len c2 < rest_len (skip_spaces c)"
    using skip_comment_shorter [OF assms(1)] assms(2) by (metis snd_conv)
  also have "\<dots> \<le> rest_len c" by (rule skip_spaces_le)
  finally show ?thesis .
qed

termination skip_trivia
  by (relation "measure (\<lambda>c. rest_len c)") (auto intro: skip_trivia_dec)

declare skip_trivia.simps [simp del]

section \<open>Strings, lists, atoms\<close>

text \<open>The loop of \<open>scan_string\<close>, after its opening quote.\<close>

function scan_string_loop :: "nat \<times> nat \<Rightarrow> cursor \<Rightarrow> scan_step" where
  "scan_string_loop start c =
     (case peek c of
        None \<Rightarrow> (Some (error_at UnterminatedString (fst start) (snd start)), c)
      | Some ch \<Rightarrow>
          if ch = ch_dquote then (None, advance c)
          else if ch = ch_bslash then
            (if is_end (advance c) then
               (Some (error_at UnterminatedString (fst start) (snd start)), advance c)
             else scan_string_loop start (advance (advance c)))
          else scan_string_loop start (advance c))"
  by pat_completeness auto

termination scan_string_loop
proof (relation "measure (\<lambda>(_, c). rest_len c)", goal_cases)
  case (2 start c ch)
  then show ?case using advance_le [of "advance c"] advance_shorter [of c ch] by simp
next
  case (3 start c ch)
  then show ?case using advance_shorter [of c ch] by simp
qed simp

declare scan_string_loop.simps [simp del]

definition scan_string :: "cursor \<Rightarrow> scan_step" where
  "scan_string c = scan_string_loop (cu_line c, cu_column c) (advance c)"

lemma scan_string_loop_le: "rest_len (snd (scan_string_loop start c)) \<le> rest_len c"
proof (induction start c rule: scan_string_loop.induct)
  case (1 start c)
  then show ?case using advance_le [of c] advance_le [of "advance c"]
    by (subst scan_string_loop.simps) (force split: option.splits)
qed

lemma scan_string_shorter:
  "peek c = Some ch \<Longrightarrow> rest_len (snd (scan_string c)) < rest_len c"
  unfolding scan_string_def by (rule le_less_trans [OF scan_string_loop_le advance_shorter])

function scan_list_loop :: "nat \<times> nat \<Rightarrow> nat \<Rightarrow> cursor \<Rightarrow> scan_step" where
  "scan_list_loop start depth c =
     (case peek c of
        None \<Rightarrow> (Some (error_at UnterminatedList (fst start) (snd start)), c)
      | Some ch \<Rightarrow>
          if ch = ch_lparen then scan_list_loop start (depth + 1) (advance c)
          else if ch = ch_rparen then
            (if depth - 1 = 0 then (None, advance c)
             else scan_list_loop start (depth - 1) (advance c))
          else if ch = ch_dquote then
            (case scan_string c of
               (Some e, c1) \<Rightarrow> (Some e, c1)
             | (None, c1) \<Rightarrow> scan_list_loop start depth c1)
          else if ch = ch_semi then
            (case skip_comment c of
               (Some e, c1) \<Rightarrow> (Some e, c1)
             | (None, c1) \<Rightarrow> scan_list_loop start depth c1)
          else scan_list_loop start depth (advance c))"
  by pat_completeness auto

lemma scan_list_dec:
  "peek c = Some ch \<Longrightarrow> (e, c1) = scan_string c \<Longrightarrow> rest_len c1 < rest_len c"
  "peek c = Some ch_semi \<Longrightarrow> (e, c1) = skip_comment c \<Longrightarrow> rest_len c1 < rest_len c"
  using scan_string_shorter [of c ch] skip_comment_shorter [of c] by (metis snd_conv)+

termination scan_list_loop
  by (relation "measure (\<lambda>(_, _, c). rest_len c)")
    (auto intro: advance_shorter scan_list_dec)

declare scan_list_loop.simps [simp del]

definition scan_list :: "cursor \<Rightarrow> scan_step" where
  "scan_list c = scan_list_loop (cu_line c, cu_column c) 0 c"

definition is_atom_delimiter :: "uchar \<Rightarrow> bool" where
  "is_atom_delimiter ch \<longleftrightarrow> is_whitespace ch
     \<or> ch \<in> {ch_lparen, ch_rparen, ch_dquote, ch_quote, ch_semi}"

text \<open>\<open>is_decimal\<close> walks the token's bytes with an index.\<close>

definition byte_is_digit :: "byte \<Rightarrow> bool" where
  "byte_is_digit b \<longleftrightarrow> 48 \<le> b \<and> b \<le> 57"

function skip_digits :: "byte list \<Rightarrow> nat \<Rightarrow> nat" where
  "skip_digits bs i =
     (case nth_opt bs i of
        Some b \<Rightarrow> if byte_is_digit b then skip_digits bs (i + 1) else i
      | None \<Rightarrow> i)"
  by pat_completeness auto
termination
  by (relation "measure (\<lambda>(bs, i). length bs - i)") (auto simp: diff_less_mono2)

declare skip_digits.simps [simp del]

definition sign_at :: "byte list \<Rightarrow> nat \<Rightarrow> bool" where
  "sign_at bs i \<longleftrightarrow> nth_opt bs i \<in> {Some 43, Some 45}"

definition is_decimal :: "ustr \<Rightarrow> bool" where
  "is_decimal token =
     (let bs = as_bytes token;
          integer_start = (if sign_at bs 0 then 1 else 0);
          c1 = skip_digits bs integer_start
      in if c1 = integer_start \<or> nth_opt bs c1 \<noteq> Some 46 then False
         else
           (let c2 = skip_digits bs (c1 + 1) in
            if nth_opt bs c2 \<in> {Some 101, Some 69} then
              (let c3 = c2 + 1;
                   exponent_start = (if sign_at bs c3 then c3 + 1 else c3);
                   c4 = skip_digits bs exponent_start
               in if c4 = exponent_start then False else c4 = length bs)
            else c2 = length bs))"

function advance_to :: "nat \<Rightarrow> cursor \<Rightarrow> cursor" where
  "advance_to end_byte c =
     (if cu_byte c < end_byte \<and> \<not> is_end c then advance_to end_byte (advance c) else c)"
  by pat_completeness auto
termination
  by (relation "measure (\<lambda>(_, c). rest_len c)") (auto intro: not_end_advance)

declare advance_to.simps [simp del]

definition atom_byte_count :: "ustr \<Rightarrow> nat" where
  "atom_byte_count rest =
     (let token_end = (case str_find is_atom_delimiter rest of None \<Rightarrow> byte_len rest | Some n \<Rightarrow> n);
          token = take_bytes token_end rest
      in case str_find (\<lambda>ch. ch = ch_dot) token of
           Some period \<Rightarrow>
             if period = 0 then byte_len token
             else if \<not> is_decimal token then period
             else byte_len token
         | None \<Rightarrow> byte_len token)"

definition scan_atom :: "cursor \<Rightarrow> cursor" where
  "scan_atom c = advance_to (cu_byte c + atom_byte_count (remaining c)) c"

section \<open>Forms\<close>

text \<open>The loop over quote prefixes; \<open>quote\<close> is the position of the first.\<close>

function quote_loop :: "(nat \<times> nat) option \<Rightarrow> cursor \<Rightarrow> scan_error option \<times> (nat \<times> nat) option \<times> cursor" where
  "quote_loop quote c =
     (if peek c = Some ch_quote then
        (case skip_trivia (advance c) of
           (Some e, c1) \<Rightarrow> (Some e, get_or_insert quote (cu_line c, cu_column c), c1)
         | (None, c1) \<Rightarrow> quote_loop (get_or_insert quote (cu_line c, cu_column c)) c1)
      else (None, quote, c))"
  by pat_completeness auto

lemma skip_trivia_le: "rest_len (snd (skip_trivia c)) \<le> rest_len c"
proof (induction c rule: skip_trivia.induct)
  case (1 c)
  let ?c1 = "skip_spaces c"
  show ?case
  proof (cases "peek ?c1 = Some ch_semi")
    case False
    then show ?thesis by (subst skip_trivia.simps) (simp add: Let_def skip_spaces_le)
  next
    case True
    obtain e c2 where sk: "skip_comment ?c1 = (e, c2)" by fastforce
    have "rest_len c2 \<le> rest_len c"
      using skip_comment_shorter [OF True] skip_spaces_le [of c] sk by simp
    with 1 True sk show ?thesis
      by (subst skip_trivia.simps) (force simp: Let_def split: option.splits)
  qed
qed

lemma quote_loop_dec:
  "peek c = Some ch \<Longrightarrow> (e, c1) = skip_trivia (advance c) \<Longrightarrow> rest_len c1 < rest_len c"
  using skip_trivia_le [of "advance c"] advance_shorter [of c ch] by (metis le_less_trans snd_conv)

termination quote_loop
  by (relation "measure (\<lambda>(_, c). rest_len c)") (auto intro: quote_loop_dec)

declare quote_loop.simps [simp del]

text \<open>
  Past the quotes: \<open>scan_form\<close> is only called with a character left, so the end is
  reached with a quote seen (\<open>expect\<close> in the source); without one the source
  panics, and the model reports the error at the cursor.
\<close>

definition scan_form :: "cursor \<Rightarrow> scan_step" where
  "scan_form c =
     (case quote_loop None c of
        (Some e, _, c1) \<Rightarrow> (Some e, c1)
      | (None, quote, c1) \<Rightarrow>
          if is_end c1 then
            (case quote of
               Some (line, column) \<Rightarrow> (Some (error_at MissingQuotedForm line column), c1)
             | None \<Rightarrow> (Some (error_here c1 MissingQuotedForm), c1))
          else if peek c1 = Some ch_lparen then scan_list c1
          else if peek c1 = Some ch_rparen then (Some (error_here c1 UnexpectedCloseParen), c1)
          else if peek c1 = Some ch_dquote then scan_string c1
          else (None, scan_atom c1))"

section \<open>The scanner\<close>

definition scan :: "ustr \<Rightarrow> scanner" where
  "scan source = \<lparr>sc_cursor = new_cursor source, sc_finished = False\<rparr>"

definition position :: "scanner \<Rightarrow> scan_position" where
  "position s = \<lparr>pos_byte = cu_byte (sc_cursor s), pos_line = cu_line (sc_cursor s),
     pos_column = cu_column (sc_cursor s), pos_finished = sc_finished s\<rparr>"

text \<open>\<open>Scanner::resume\<close>; \<open>None\<close> is \<open>Err(InvalidScanPosition)\<close>.\<close>

definition resume :: "ustr \<Rightarrow> scan_position \<Rightarrow> scanner option" where
  "resume source p =
     (if byte_len source < pos_byte p \<or> \<not> is_char_boundary source (pos_byte p) then None
      else Some \<lparr>sc_cursor = \<lparr>cu_source = source, cu_byte = pos_byte p, cu_line = pos_line p,
                  cu_column = pos_column p\<rparr>, sc_finished = pos_finished p\<rparr>)"

definition next_form :: "scanner \<Rightarrow> (scan_error + form_span) option \<times> scanner" where
  "next_form s =
     (if sc_finished s then (None, s)
      else (case skip_trivia (sc_cursor s) of
        (Some e, c1) \<Rightarrow> (Some (Inl e), \<lparr>sc_cursor = c1, sc_finished = True\<rparr>)
      | (None, c1) \<Rightarrow>
          if is_end c1 then (None, \<lparr>sc_cursor = c1, sc_finished = True\<rparr>)
          else (case scan_form c1 of
            (None, c2) \<Rightarrow>
              (Some (Inr \<lparr>byte_start = cu_byte c1, byte_end = cu_byte c2,
                           span_line = cu_line c1, span_column = cu_column c1\<rparr>),
               \<lparr>sc_cursor = c2, sc_finished = False\<rparr>)
          | (Some e, c2) \<Rightarrow> (Some (Inl e), \<lparr>sc_cursor = c2, sc_finished = True\<rparr>))))"

section \<open>Progress\<close>

text \<open>What \<open>skip_trivia\<close> leaves in front of the cursor, and that every form consumes a
  character: the scanner's iteration ends.\<close>

lemma skip_spaces_peek: "peek (skip_spaces c) = Some ch \<Longrightarrow> \<not> is_whitespace ch"
proof (induction c rule: skip_spaces.induct)
  case (1 c)
  then show ?case
    by (cases "peek c") (auto simp: skip_spaces.simps [of c] split: if_splits)
qed

lemma skip_trivia_peek:
  "skip_trivia c = (None, c1) \<Longrightarrow> peek c1 = Some ch \<Longrightarrow> \<not> is_whitespace ch \<and> ch \<noteq> ch_semi"
proof (induction c arbitrary: c1 rule: skip_trivia.induct)
  case (1 c)
  then show ?case
    by (subst (asm) (2) skip_trivia.simps)
      (auto simp: Let_def skip_spaces_peek split: if_splits prod.splits option.splits)
qed

lemma scan_list_loop_le: "rest_len (snd (scan_list_loop start depth c)) \<le> rest_len c"
proof (induction start depth c rule: scan_list_loop.induct)
  case (1 start depth c)
  show ?case
  proof (cases "peek c")
    case (Some ch)
    obtain e1 d1 where s: "scan_string c = (e1, d1)" by fastforce
    obtain e2 d2 where k: "skip_comment c = (e2, d2)" by fastforce
    have "rest_len d1 \<le> rest_len c" using scan_string_shorter [OF Some] s by simp
    moreover have "ch = ch_semi \<Longrightarrow> rest_len d2 \<le> rest_len c"
      using skip_comment_shorter [of c] Some k by simp
    ultimately show ?thesis
      using 1 [OF Some] Some s k advance_le [of c]
      by (subst scan_list_loop.simps) (auto split: option.splits intro: order_trans)
  qed (simp add: scan_list_loop.simps)
qed

lemma scan_list_shorter:
  assumes "peek c = Some ch_lparen"
  shows "rest_len (snd (scan_list c)) < rest_len c"
proof -
  have "scan_list c = scan_list_loop (cu_line c, cu_column c) 1 (advance c)"
    using assms by (simp add: scan_list_def scan_list_loop.simps [of _ 0])
  then show ?thesis
    by (simp only:) (rule le_less_trans [OF scan_list_loop_le advance_shorter [OF assms]])
qed

lemma advance_to_le: "rest_len (advance_to e c) \<le> rest_len c"
proof (induction e c rule: advance_to.induct)
  case (1 e c)
  then show ?case using advance_le [of c] by (subst advance_to.simps) auto
qed

lemma atom_byte_count_pos:
  assumes "rest = ch # r" and "\<not> is_atom_delimiter ch"
  shows "0 < atom_byte_count rest"
proof -
  let ?n = "case str_find is_atom_delimiter rest of None \<Rightarrow> byte_len rest | Some n \<Rightarrow> n"
  have "take_bytes ?n rest = takeWhile (\<lambda>c. \<not> is_atom_delimiter c) rest"
    by (rule take_bytes_str_find)
  with assms have "take_bytes ?n rest \<noteq> []" by simp
  then show ?thesis by (auto simp: atom_byte_count_def Let_def split: option.splits)
qed

lemma scan_atom_shorter:
  assumes "peek c = Some ch" and "\<not> is_atom_delimiter ch"
  shows "rest_len (scan_atom c) < rest_len c"
proof -
  obtain r where "remaining c = ch # r" using peek_SomeD [OF assms(1)] by blast
  then have "0 < atom_byte_count (remaining c)" and "\<not> is_end c"
    using atom_byte_count_pos assms(2) by (auto simp: cursor_simps)
  then have "scan_atom c = advance_to (cu_byte c + atom_byte_count (remaining c)) (advance c)"
    by (simp add: scan_atom_def advance_to.simps [of _ c])
  then show ?thesis
    by (simp only:) (rule le_less_trans [OF advance_to_le advance_shorter [OF assms(1)]])
qed

lemma quote_loop_le: "rest_len (snd (snd (quote_loop q c))) \<le> rest_len c"
proof (induction q c rule: quote_loop.induct)
  case (1 q c)
  show ?case
  proof (cases "peek c = Some ch_quote")
    case True
    obtain e c1 where k: "skip_trivia (advance c) = (e, c1)" by fastforce
    have "rest_len c1 \<le> rest_len c"
      using skip_trivia_le [of "advance c"] advance_le [of c] k by simp
    with 1 True k show ?thesis
      by (subst quote_loop.simps) (auto split: option.splits dest: order_trans)
  qed (simp add: quote_loop.simps)
qed

lemma quote_loop_post:
  assumes "quote_loop q c = (None, q1, c1)"
  shows "peek c1 \<noteq> Some ch_quote"
    and "c1 = c \<and> q1 = q \<or> (\<exists>d. skip_trivia d = (None, c1)) \<and> rest_len c1 < rest_len c"
proof -
  show "peek c1 \<noteq> Some ch_quote"
    using assms
  proof (induction q c arbitrary: q1 c1 rule: quote_loop.induct)
    case (1 q c)
    from 1(2) show ?case
      by (subst (asm) quote_loop.simps)
        (auto split: if_splits prod.splits option.splits dest: 1(1))
  qed
  show "c1 = c \<and> q1 = q \<or> (\<exists>d. skip_trivia d = (None, c1)) \<and> rest_len c1 < rest_len c"
    using assms
  proof (induction q c arbitrary: q1 c1 rule: quote_loop.induct)
    case (1 q c)
    show ?case
    proof (cases "peek c = Some ch_quote")
      case True
      with 1(2) obtain d where d: "skip_trivia (advance c) = (None, d)"
          and l: "quote_loop (get_or_insert q (cu_line c, cu_column c)) d = (None, q1, c1)"
        by (subst (asm) quote_loop.simps) (auto split: prod.splits option.splits)
      have "rest_len d < rest_len c" by (rule quote_loop_dec [OF True d [symmetric]])
      moreover note 1(1) [OF True d [symmetric] refl l]
      ultimately show ?thesis using d by fastforce
    qed (use 1(2) in \<open>simp add: quote_loop.simps\<close>)
  qed
qed

lemma scan_form_shorter:
  assumes form: "scan_form c = (None, c2)" and start: "skip_trivia d = (None, c)" and "\<not> is_end c"
  shows "rest_len c2 < rest_len c"
proof -
  from form obtain q c1 where ql: "quote_loop None c = (None, q, c1)" and ne: "\<not> is_end c1"
    and rest: "scan_form c = (if peek c1 = Some ch_lparen then scan_list c1
        else if peek c1 = Some ch_rparen then (Some (error_here c1 UnexpectedCloseParen), c1)
        else if peek c1 = Some ch_dquote then scan_string c1 else (None, scan_atom c1))"
    unfolding scan_form_def by (auto split: prod.splits option.splits if_splits)
  have le: "rest_len c1 \<le> rest_len c" using quote_loop_le [of None c] ql by simp
  from quote_loop_post(2) [OF ql] start obtain d1 where "skip_trivia d1 = (None, c1)" by blast
  moreover from ne obtain ch where ch: "peek c1 = Some ch"
    by (cases "peek c1") (auto simp: cursor_simps)
  ultimately have triv: "\<not> is_whitespace ch \<and> ch \<noteq> ch_semi" by (rule skip_trivia_peek)
  have "ch \<noteq> ch_quote" using quote_loop_post(1) [OF ql] ch by simp
  with triv have "ch \<notin> {ch_lparen, ch_rparen, ch_dquote} \<Longrightarrow> \<not> is_atom_delimiter ch"
    by (auto simp: is_atom_delimiter_def)
  then have "rest_len c2 < rest_len c1"
    using form rest ch scan_list_shorter [of c1] scan_string_shorter [OF ch] scan_atom_shorter [OF ch]
    by (auto split: if_splits)
  with le show ?thesis by simp
qed

definition scan_measure :: "scanner \<Rightarrow> nat" where
  "scan_measure s = (if sc_finished s then 0 else Suc (rest_len (sc_cursor s)))"

lemma next_form_progress:
  "next_form s = (Some r, s1) \<Longrightarrow> scan_measure s1 < scan_measure s"
  unfolding next_form_def scan_measure_def
  by (auto split: if_splits prod.splits option.splits
      dest: scan_form_shorter intro: less_le_trans [OF _ skip_trivia_le [THEN order_trans]])
    (metis less_Suc_eq_le less_le_trans less_or_eq_imp_le scan_form_shorter skip_trivia_le snd_conv)

section \<open>\<open>validate\<close> and the sequence of forms\<close>

text \<open>\<open>try_fold\<close> over the iterator: the count of the forms, or the first error.\<close>

function validate_loop :: "nat \<Rightarrow> scanner \<Rightarrow> scan_error + nat" where
  "validate_loop count s =
     (case next_form s of
        (None, _) \<Rightarrow> Inr count
      | (Some (Inl e), _) \<Rightarrow> Inl e
      | (Some (Inr _), s1) \<Rightarrow> validate_loop (count + 1) s1)"
  by pat_completeness auto
termination
  by (relation "measure (\<lambda>(_, s). scan_measure s)") (auto dest!: sym [of "(_, _)"] next_form_progress)

declare validate_loop.simps [simp del]

definition validate :: "ustr \<Rightarrow> scan_error + nat" where
  "validate source = validate_loop 0 (scan source)"

text \<open>Everything the iterator yields, in order.\<close>

function scan_all :: "scanner \<Rightarrow> (scan_error + form_span) list" where
  "scan_all s = (case next_form s of (None, _) \<Rightarrow> [] | (Some r, s1) \<Rightarrow> r # scan_all s1)"
  by pat_completeness auto
termination
  by (relation "measure scan_measure") (auto dest!: sym [of "(_, _)"] next_form_progress)

declare scan_all.simps [simp del]

end
