(* ===== verification/Exec_Outcome.thy ===== *)
theory Exec_Outcome
  imports Value_Bridge Ids Lisp_Scanner
begin

text \<open>
  The values an execution reports, \<open>crates/plugin/src/exec/outcome.rs\<close>, the results the
  native host hands back for a step (\<open>NativeExecStepResult\<close> of \<open>crates/plugin/src/lib.rs\<close>
  with its methods in \<open>exec/state.rs\<close>), and the interpretation of what the AutoLISP
  evaluator was seen to do, \<open>exec/lisp.rs\<close>.  Native status codes are \<open>i32\<close> values that
  are only compared with zero and printed, and are \<open>int\<close> here.
\<close>

section \<open>Outcomes\<close>

datatype exec_mode = EvalMode | ExecMode

datatype source_validation_error =
    SourceTooLarge
  | InvalidUtf8
  | NullCharacter
  | ExpectedOneForm nat
  | ScanFailed scan_error

datatype drawing_outcome = NotStarted | RolledBack | Committed | OutcomeUnknown

datatype drawing_error_kind =
    DekUnspecified | DekNotOpen | DekReplaced | DekReadOnly | DekUnsavedChanges | DekNoFileName
  | DekBusy | DekUndoDisabled | DekDestinationExists | DekReadinessTimedOut | DekNotActive
  | DekHistoryOutcomeUnknown | DekViewportUnavailable | DekCaptureFailed

record source_location =
  sl_name :: source_name
  sl_line :: nat
  sl_column :: nat

record exec_failure =
  xf_message :: ustr
  xf_form_index :: "nat option"
  xf_location :: "source_location option"
  xf_drawing_outcome :: drawing_outcome
  xf_drawing_error :: "drawing_error_kind option"

datatype exec_outcome = OutSuccess | OutFailure exec_failure | OutCancelled

definition location_new :: "source_name \<Rightarrow> nat \<Rightarrow> nat \<Rightarrow> source_location" where
  "location_new name line column = \<lparr>sl_name = name, sl_line = line, sl_column = column\<rparr>"

definition location_from_span :: "source_name \<Rightarrow> form_span \<Rightarrow> source_location" where
  "location_from_span name sp = location_new name (span_line sp) (span_column sp)"

definition location_from_scan_error :: "source_name \<Rightarrow> scan_error \<Rightarrow> source_location" where
  "location_from_scan_error name e = location_new name (err_line e) (err_column e)"

definition failure_not_started :: "ustr \<Rightarrow> exec_failure" where
  "failure_not_started message = \<lparr>xf_message = message, xf_form_index = None, xf_location = None,
     xf_drawing_outcome = NotStarted, xf_drawing_error = None\<rparr>"

definition unknown_drawing_outcome :: "ustr \<Rightarrow> exec_failure" where
  "unknown_drawing_outcome message = \<lparr>xf_message = message, xf_form_index = None, xf_location = None,
     xf_drawing_outcome = OutcomeUnknown, xf_drawing_error = None\<rparr>"

definition into_unknown_failure :: "exec_outcome \<Rightarrow> ustr \<Rightarrow> exec_failure" where
  "into_unknown_failure out message = (case out of
     OutFailure f \<Rightarrow> f\<lparr>xf_message := append_diagnostic (xf_message f) message,
                        xf_drawing_outcome := OutcomeUnknown\<rparr>
   | _ \<Rightarrow> unknown_drawing_outcome message)"

lemma into_unknown_failure_outcome [simp]:
  "xf_drawing_outcome (into_unknown_failure out message) = OutcomeUnknown"
  by (simp add: into_unknown_failure_def unknown_drawing_outcome_def split: exec_outcome.splits)

section \<open>Step results\<close>

datatype exec_step_kind =
    SkInvalid | SkBeginUndoGroup | SkEvaluateForm | SkCommitUndoGroup | SkEmitEvalValue
  | SkClearRetainedEvalValue | SkCloseEmptyUndoGroup | SkRollbackUndoGroup | SkDone

datatype step_result_kind = ResSuccess | ResLispError | ResNativeError

record step_result =
  sr_kind :: step_result_kind
  sr_native_status :: int
  sr_lisp_errno :: int
  sr_detail :: ustr
  sr_clear_status :: int

definition step_succeeded :: "step_result \<Rightarrow> bool" where
  "step_succeeded r \<longleftrightarrow> sr_kind r = ResSuccess \<and> sr_clear_status r = 0"

definition primary_failed :: "step_result \<Rightarrow> bool" where
  "primary_failed r \<longleftrightarrow> sr_kind r \<noteq> ResSuccess"

definition clear_message :: "step_result \<Rightarrow> ustr option" where
  "clear_message r =
     (if sr_clear_status r \<noteq> 0 then
        Some (lit ''could not clear the reserved AutoLISP execution bridge symbols (native status ''
              @ dec_int (sr_clear_status r) @ lit '')'')
      else None)"

definition into_message :: "step_result \<Rightarrow> ustr \<Rightarrow> ustr" where
  "into_message r fallback =
     (let cleanup = clear_message r;
          primary =
            (if sr_kind r = ResSuccess then None
             else if sr_detail r \<noteq> [] then Some (sr_detail r)
             else if sr_kind r = ResLispError \<and> sr_lisp_errno r \<noteq> 0 then
               Some (fallback @ lit '' (ERRNO '' @ dec_int (sr_lisp_errno r) @ lit '')'')
             else if sr_native_status r \<noteq> 0 then
               Some (fallback @ lit '' (native status '' @ dec_int (sr_native_status r) @ lit '')'')
             else Some fallback)
      in bounded_diagnostic (case (primary, cleanup) of
           (Some p, Some c) \<Rightarrow> p @ lit ''; '' @ c
         | (Some p, None) \<Rightarrow> p
         | (None, Some c) \<Rightarrow> c
         | (None, None) \<Rightarrow> fallback))"

lemma into_message_bounded: "byte_len (into_message r fallback) \<le> MAX_DIAGNOSTIC_BYTES"
  by (simp add: into_message_def Let_def)

section \<open>What the evaluator was seen to do\<close>

datatype lisp_status = LispUnavailable | LispNil | LispTrue | LispOther

record native_diagnostic =
  nd_text :: ustr
  nd_truncated :: bool

record lisp_observation =
  lo_command_status :: int
  lo_status :: lisp_status
  lo_status_read_status :: int
  lo_errno :: "int option"
  lo_error :: "native_diagnostic option"
  lo_malformed_status :: int

record cleanup_plan =
  cp_result :: step_result
  cp_retain_value :: bool

record bridge_step_result =
  bs_result :: step_result
  bs_symbols_may_be_retained :: bool

definition result_success :: step_result where
  "result_success = \<lparr>sr_kind = ResSuccess, sr_native_status = 0, sr_lisp_errno = 0, sr_detail = [],
     sr_clear_status = 0\<rparr>"

definition result_native_error :: "int \<Rightarrow> step_result" where
  "result_native_error status = \<lparr>sr_kind = ResNativeError, sr_native_status = status, sr_lisp_errno = 0,
     sr_detail = [], sr_clear_status = 0\<rparr>"

definition nonzero_or :: "int \<Rightarrow> int \<Rightarrow> int" where
  "nonzero_or status fallback = (if status = 0 then fallback else status)"

definition prepare_cleanup :: "step_result \<Rightarrow> bool \<Rightarrow> cleanup_plan" where
  "prepare_cleanup result retain_value_on_success =
     \<lparr>cp_result = result, cp_retain_value = (sr_kind result = ResSuccess \<and> retain_value_on_success)\<rparr>"

definition interpret_lisp :: "lisp_observation \<Rightarrow> bool \<Rightarrow> cleanup_plan" where
  "interpret_lisp ob retain_value_on_success =
     prepare_cleanup
       (if lo_command_status ob \<noteq> 0 then result_native_error (lo_command_status ob)
        else (case lo_status ob of
            LispUnavailable \<Rightarrow> result_native_error (nonzero_or (lo_status_read_status ob) (lo_malformed_status ob))
          | LispTrue \<Rightarrow> result_success
          | LispOther \<Rightarrow> result_native_error (lo_malformed_status ob)
          | LispNil \<Rightarrow> \<lparr>sr_kind = ResLispError, sr_native_status = 0,
              sr_lisp_errno = (case lo_errno ob of Some e \<Rightarrow> e | None \<Rightarrow> 0),
              sr_detail = (case lo_error ob of
                 Some d \<Rightarrow> bounded_native_diagnostic (nd_text d) (nd_truncated d) | None \<Rightarrow> []),
              sr_clear_status = 0\<rparr>))
       retain_value_on_success"

definition complete_cleanup :: "cleanup_plan \<Rightarrow> int \<Rightarrow> int \<Rightarrow> bridge_step_result" where
  "complete_cleanup plan cleanup_status fallback_cleanup_status =
     (if cleanup_status = 0 then
        \<lparr>bs_result = cp_result plan, bs_symbols_may_be_retained = cp_retain_value plan\<rparr>
      else
        \<lparr>bs_result = (cp_result plan)\<lparr>sr_clear_status := cleanup_status\<rparr>,
         bs_symbols_may_be_retained = (fallback_cleanup_status \<noteq> 0)\<rparr>)"

text \<open>A form counts as evaluated only when the command ran, the evaluator answered true and the bridge
  symbols were cleared; a failing command, an unreadable status and an evaluator error each
  keep their own evidence; and symbols are reported as possibly retained exactly when a value
  was kept on purpose or both attempts to clear failed.\<close>

lemma evaluation_evidence:
  "step_succeeded (bs_result (complete_cleanup (interpret_lisp ob retain) s1 s2))
     = (lo_command_status ob = 0 \<and> lo_status ob = LispTrue \<and> s1 = 0)
   \<and> bs_symbols_may_be_retained (complete_cleanup (interpret_lisp ob retain) s1 s2)
     = (if s1 = 0 then retain \<and> lo_command_status ob = 0 \<and> lo_status ob = LispTrue else s2 \<noteq> 0)
   \<and> (lo_command_status ob \<noteq> 0 \<longrightarrow>
        sr_native_status (cp_result (interpret_lisp ob retain)) = lo_command_status ob)
   \<and> byte_len (sr_detail (cp_result (interpret_lisp ob retain))) \<le> MAX_DIAGNOSTIC_BYTES"
  by (auto simp: step_succeeded_def complete_cleanup_def interpret_lisp_def prepare_cleanup_def
      result_native_error_def result_success_def split: lisp_status.splits option.splits)

lemma evaluation_evidence_witness:
  "sr_native_status (cp_result (interpret_lisp \<lparr>lo_command_status = -1, lo_status = LispNil,
     lo_status_read_status = 0, lo_errno = Some 7, lo_error = None, lo_malformed_status = -5001\<rparr> False)) = -1"
  using evaluation_evidence [of "\<lparr>lo_command_status = -1, lo_status = LispNil,
     lo_status_read_status = 0, lo_errno = Some 7, lo_error = None, lo_malformed_status = -5001\<rparr>" False]
  by simp

end
