(* ===== verification/Lisp_Grammar.thy ===== *)
theory Lisp_Grammar
  imports Lisp_Scanner
begin

text \<open>
  What the scanner promises, stated without the scanner: a grammar of trivia and
  forms, and the line and column of a place in a text.  The lemmas show that the
  scanner's spans are forms of the grammar separated by trivia, that they lie on
  character boundaries, in order, and that every reported location is the
  location of the character it names.
\<close>

section \<open>The grammar\<close>

definition is_eol :: "uchar \<Rightarrow> bool" where
  "is_eol ch \<longleftrightarrow> ch = ch_cr \<or> ch = ch_lf"

text \<open>A comment: \<open>;|\<close> to \<open>|;\<close>, or \<open>;\<close> to the end of the line.\<close>

inductive comment_text :: "ustr \<Rightarrow> bool" where
  block: "comment_text ([ch_semi, ch_bar] @ b @ [ch_bar, ch_semi])"
| line: "\<forall>ch\<in>set b. \<not> is_eol ch \<Longrightarrow> take 1 b \<noteq> [ch_bar] \<Longrightarrow> comment_text (ch_semi # b)"

inductive trivia :: "ustr \<Rightarrow> bool" where
  trivia_Nil: "trivia []"
| trivia_space: "is_whitespace ch \<Longrightarrow> trivia t \<Longrightarrow> trivia (ch # t)"
| trivia_comment: "comment_text b \<Longrightarrow> trivia t \<Longrightarrow> trivia (b @ t)"

text \<open>The text of a string after its opening quote, up to and with the closing one.\<close>

inductive string_tail :: "ustr \<Rightarrow> bool" where
  string_close: "string_tail [ch_dquote]"
| string_char: "ch \<notin> {ch_dquote, ch_bslash} \<Longrightarrow> string_tail t \<Longrightarrow> string_tail (ch # t)"
| string_escape: "string_tail t \<Longrightarrow> string_tail (ch_bslash # ch # t)"

text \<open>The contents of a list: strings, comments, sublists and other characters.\<close>

inductive items :: "ustr \<Rightarrow> bool" where
  items_Nil: "items []"
| items_char: "ch \<notin> {ch_lparen, ch_rparen, ch_dquote, ch_semi} \<Longrightarrow> items t \<Longrightarrow> items (ch # t)"
| items_string: "string_tail s \<Longrightarrow> items t \<Longrightarrow> items ((ch_dquote # s) @ t)"
| items_comment: "comment_text b \<Longrightarrow> items t \<Longrightarrow> items (b @ t)"
| items_list: "items u \<Longrightarrow> items t \<Longrightarrow> items (ch_lparen # u @ ch_rparen # t)"

definition atom_text :: "ustr \<Rightarrow> bool" where
  "atom_text t \<longleftrightarrow> t \<noteq> [] \<and> (\<forall>ch\<in>set t. \<not> is_atom_delimiter ch)
     \<and> (ch_dot \<in> set t \<longrightarrow> hd t = ch_dot \<or> is_decimal t)"

inductive form_text :: "ustr \<Rightarrow> bool" where
  form_atom: "atom_text t \<Longrightarrow> form_text t"
| form_string: "string_tail s \<Longrightarrow> form_text (ch_dquote # s)"
| form_list: "items u \<Longrightarrow> form_text (ch_lparen # u @ [ch_rparen])"
| form_quote: "trivia t \<Longrightarrow> form_text f \<Longrightarrow> form_text (ch_quote # t @ f)"

text \<open>A source of \<open>n\<close> forms.\<close>

inductive program_text :: "nat \<Rightarrow> ustr \<Rightarrow> bool" where
  program_end: "trivia t \<Longrightarrow> program_text 0 t"
| program_form: "trivia t \<Longrightarrow> form_text f \<Longrightarrow> program_text n s \<Longrightarrow> program_text (Suc n) (t @ f @ s)"

lemma trivia_append: "trivia s \<Longrightarrow> trivia t \<Longrightarrow> trivia (s @ t)"
  by (induction rule: trivia.induct) (auto intro: trivia.intros)

lemma form_text_nonempty: "form_text f \<Longrightarrow> f \<noteq> []"
  by (induction rule: form_text.induct) (auto simp: atom_text_def)

section \<open>Lines and columns\<close>

text \<open>CR LF, LF and CR each end a line once.\<close>

fun line_breaks :: "ustr \<Rightarrow> nat" where
  "line_breaks [] = 0"
| "line_breaks (ch # s) =
     (if ch = ch_lf \<or> (ch = ch_cr \<and> take 1 s \<noteq> [ch_lf]) then 1 else 0) + line_breaks s"

definition line_after :: "ustr \<Rightarrow> nat" where
  "line_after p = 1 + line_breaks p"

definition column_after :: "ustr \<Rightarrow> nat" where
  "column_after p = 1 + length (takeWhile (\<lambda>ch. \<not> is_eol ch) (rev p))"

definition splits_crlf :: "ustr \<Rightarrow> ustr \<Rightarrow> bool" where
  "splits_crlf p r \<longleftrightarrow> p \<noteq> [] \<and> last p = ch_cr \<and> take 1 r = [ch_lf]"

lemma line_breaks_append:
  "\<not> splits_crlf p t \<Longrightarrow> line_breaks (p @ t) = line_breaks p + line_breaks t"
proof (induction p)
  case (Cons ch p)
  then show ?case by (cases p) (auto simp: splits_crlf_def)
qed simp

section \<open>Where the cursor stands\<close>

definition consumed :: "cursor \<Rightarrow> ustr" where
  "consumed c = take_bytes (cu_byte c) (cu_source c)"

definition cursor_ok :: "cursor \<Rightarrow> bool" where
  "cursor_ok c \<longleftrightarrow> is_char_boundary (cu_source c) (cu_byte c)
     \<and> cu_line c = line_after (consumed c) \<and> cu_column c = column_after (consumed c)
     \<and> \<not> splits_crlf (consumed c) (remaining c)"

definition moved :: "cursor \<Rightarrow> ustr \<Rightarrow> cursor \<Rightarrow> bool" where
  "moved c t c1 \<longleftrightarrow> cu_source c1 = cu_source c \<and> consumed c1 = consumed c @ t
     \<and> remaining c = t @ remaining c1 \<and> cursor_ok c1"

lemma consumed_remaining [simp]: "consumed c @ remaining c = cu_source c"
  by (simp add: consumed_def remaining_def)

lemma cursor_ok_byte: "cursor_ok c \<Longrightarrow> cu_byte c = byte_len (consumed c)"
  by (simp add: cursor_ok_def consumed_def is_char_boundary_def)

lemma cursor_ok_new: "cursor_ok (new_cursor s)"
  by (simp add: cursor_ok_def new_cursor_def consumed_def line_after_def column_after_def splits_crlf_def)

lemma moved_refl: "cursor_ok c \<Longrightarrow> moved c [] c"
  by (simp add: moved_def)

lemma moved_trans: "moved c t c1 \<Longrightarrow> moved c1 u c2 \<Longrightarrow> moved c (t @ u) c2"
  by (simp add: moved_def)

lemma moved_ok: "moved c t c1 \<Longrightarrow> cursor_ok c1"
  by (simp add: moved_def)

lemma moved_source: "moved c t c1 \<Longrightarrow> cu_source c1 = cu_source c"
  by (simp add: moved_def)

lemma moved_byte: "cursor_ok c \<Longrightarrow> moved c t c1 \<Longrightarrow> cu_byte c1 = cu_byte c + byte_len t"
  by (simp add: cursor_ok_byte moved_ok) (simp add: moved_def)

text \<open>A cursor placed at the end of a prefix stands there.\<close>

lemma at_prefix:
  assumes "cu_source c = p @ r" and "cu_byte c = byte_len p"
  shows "consumed c = p" and "remaining c = r"
  using assms by (simp_all add: consumed_def remaining_def)

lemma moved_at:
  assumes "cursor_ok c" and "remaining c = t @ r" and "cu_source c1 = cu_source c"
    and "cu_byte c1 = cu_byte c + byte_len t"
    and "cu_line c1 = line_after (consumed c @ t)" and "cu_column c1 = column_after (consumed c @ t)"
    and "\<not> splits_crlf (consumed c @ t) r"
  shows "moved c t c1"
proof -
  have s: "cu_source c1 = (consumed c @ t) @ r" using assms(2,3) by (metis append_assoc consumed_remaining)
  have b: "cu_byte c1 = byte_len (consumed c @ t)" using assms(1,4) by (simp add: cursor_ok_byte)
  have "is_char_boundary (cu_source c1) (cu_byte c1)"
    using is_char_boundary_prefix [of "consumed c @ t" r] s b by metis
  then show ?thesis
    using assms at_prefix [OF s b] by (simp add: moved_def cursor_ok_def)
qed

text \<open>One step of the cursor takes one character, or CR LF together.\<close>

definition head_unit :: "ustr \<Rightarrow> ustr" where
  "head_unit s = (if take 2 s = [ch_cr, ch_lf] then [ch_cr, ch_lf] else take 1 s)"

lemma remaining_step:
  assumes "remaining c = ch # r" and "cursor_ok c"
  shows "remaining (c\<lparr>cu_byte := cu_byte c + len_utf8 ch\<rparr>) = r"
proof -
  let ?d = "c\<lparr>cu_byte := cu_byte c + len_utf8 ch\<rparr>"
  have "cu_source ?d = (consumed c @ [ch]) @ r"
    using assms(1) consumed_remaining [of c] by simp
  then show ?thesis
    using at_prefix(2) [of ?d "consumed c @ [ch]" r] assms(2) by (simp add: cursor_ok_byte)
qed

lemma advance_moved:
  assumes ok: "cursor_ok c" and r: "remaining c = ch # r"
  shows "moved c (head_unit (ch # r)) (advance c)"
proof -
  have pk: "peek c = Some ch" using r by (simp add: peek_def)
  have ns: "\<not> splits_crlf (consumed c) (ch # r)" using ok r by (simp add: cursor_ok_def)
  have lb: "line_breaks (consumed c @ t) = line_breaks (consumed c) + line_breaks t"
    if "take 1 t = [ch]" for t
    using ns that by (intro line_breaks_append) (auto simp: splits_crlf_def)
  have lc: "cu_line c = line_after (consumed c)" "cu_column c = column_after (consumed c)"
    using ok by (simp_all add: cursor_ok_def)
  consider (cr) "ch = ch_cr" | (lf) "ch = ch_lf" | (other) "\<not> is_eol ch" by (auto simp: is_eol_def)
  then show ?thesis
  proof cases
    case cr
    have pk1: "peek (c\<lparr>cu_byte := Suc (cu_byte c)\<rparr>) = Some ch_lf \<longleftrightarrow> take 1 r = [ch_lf]"
      using remaining_step [OF r ok] cr by (cases r) (auto simp: peek_def len_utf8_def)
    show ?thesis
    proof (cases "take 1 r = [ch_lf]")
      case True
      then obtain r1 where "r = ch_lf # r1" by (cases r) auto
      then show ?thesis
        using ok r pk pk1 cr True lb [of "[ch_cr, ch_lf]"] lc
        by (intro moved_at [where r = r1])
          (auto simp: head_unit_def advance_def Let_def len_utf8_def line_after_def column_after_def
            is_eol_def splits_crlf_def)
    next
      case False
      then have "head_unit (ch # r) = [ch]" by (cases r) (auto simp: head_unit_def cr)
      then show ?thesis
        using ok r pk pk1 cr False lb [of "[ch]"] lc
        by (intro moved_at [where r = r])
          (auto simp: advance_def Let_def len_utf8_def line_after_def column_after_def is_eol_def
            splits_crlf_def)
    qed
  next
    case lf
    then show ?thesis
      using ok r pk lb [of "[ch]"] lc
      by (intro moved_at [where r = r])
        (auto simp: head_unit_def advance_def len_utf8_def line_after_def column_after_def is_eol_def
          splits_crlf_def)
  next
    case other
    then show ?thesis
      using ok r pk lb [of "[ch]"] lc
      by (intro moved_at [where r = r])
        (auto simp: head_unit_def advance_def line_after_def column_after_def is_eol_def splits_crlf_def)
  qed
qed

lemma advance_moved_char:
  assumes "cursor_ok c" and "peek c = Some ch" and "ch \<noteq> ch_cr"
  shows "moved c [ch] (advance c)"
proof -
  obtain r where "remaining c = ch # r" using peek_SomeD [OF assms(2)] by blast
  with advance_moved [OF assms(1) this] assms(3) show ?thesis by (simp add: head_unit_def)
qed

text \<open>A step over some character: one character, or CR with LF behind it.\<close>

lemma advance_moved_any:
  assumes "cursor_ok c" and "peek c = Some ch"
  obtains "moved c [ch] (advance c)" | "ch = ch_cr" "moved c [ch_cr, ch_lf] (advance c)"
proof -
  obtain r where "remaining c = ch # r" using peek_SomeD [OF assms(2)] by blast
  with advance_moved [OF assms(1) this] that show thesis
    by (auto simp: head_unit_def split: if_splits)
qed

section \<open>What each scanning step does\<close>

text \<open>An error names the place of the character that opened what is wrong.\<close>

definition blamed :: "scan_error_kind \<Rightarrow> ustr" where
  "blamed k = (case k of UnexpectedCloseParen \<Rightarrow> [ch_rparen] | UnterminatedList \<Rightarrow> [ch_lparen]
     | UnterminatedString \<Rightarrow> [ch_dquote] | UnterminatedBlockComment \<Rightarrow> [ch_semi, ch_bar]
     | MissingQuotedForm \<Rightarrow> [ch_quote])"

definition error_located :: "ustr \<Rightarrow> scan_error \<Rightarrow> bool" where
  "error_located s e \<longleftrightarrow> (\<exists>p r. s = p @ blamed (err_kind e) @ r
     \<and> err_line e = line_after p \<and> err_column e = column_after p)"

lemma error_located_here:
  assumes "cursor_ok c" and "remaining c = blamed k @ r"
  shows "error_located (cu_source c) (error_at k (cu_line c) (cu_column c))"
  unfolding error_located_def
  using assms consumed_remaining [of c]
  by (intro exI [of _ "consumed c"] exI [of _ r]) (simp add: error_at_def cursor_ok_def)

lemma error_located_peek:
  assumes "cursor_ok c" and "peek c = Some ch" and "blamed k = [ch]"
  shows "error_located (cu_source c) (error_at k (cu_line c) (cu_column c))"
proof -
  obtain r where "remaining c = ch # r" using peek_SomeD [OF assms(2)] by blast
  then show ?thesis using assms by (intro error_located_here) auto
qed

text \<open>A step either succeeds having read a text of the given kind, or reports a located error;
  in both cases the cursor moved over what it read.\<close>

definition step_ok :: "cursor \<Rightarrow> (ustr \<Rightarrow> bool) \<Rightarrow> scan_step \<Rightarrow> bool" where
  "step_ok c G r \<longleftrightarrow> (\<exists>t. moved c t (snd r)
     \<and> (case fst r of None \<Rightarrow> G t | Some e \<Rightarrow> error_located (cu_source c) e))"

lemma step_okI: "moved c t c1 \<Longrightarrow> G t \<Longrightarrow> step_ok c G (None, c1)"
  by (auto simp: step_ok_def)

lemma step_ok_errorI: "moved c t c1 \<Longrightarrow> error_located (cu_source c) e \<Longrightarrow> step_ok c G (Some e, c1)"
  by (auto simp: step_ok_def)

lemma step_ok_NoneE: "step_ok c G (None, c1) \<Longrightarrow> (\<And>t. moved c t c1 \<Longrightarrow> G t \<Longrightarrow> R) \<Longrightarrow> R"
  by (auto simp: step_ok_def)

lemma step_ok_SomeE:
  "step_ok c G (Some e, c1) \<Longrightarrow> (\<And>t. moved c t c1 \<Longrightarrow> error_located (cu_source c) e \<Longrightarrow> R) \<Longrightarrow> R"
  by (auto simp: step_ok_def)

lemma step_ok_after:
  assumes "moved c t c1" and "step_ok c1 G r" and "\<And>u. G u \<Longrightarrow> H (t @ u)"
  shows "step_ok c H r"
  using assms moved_trans [OF assms(1)] moved_source [OF assms(1)]
  by (cases "fst r") (fastforce simp: step_ok_def)+

lemma step_ok_Some: "step_ok c G (Some e, c1) \<Longrightarrow> step_ok c H (Some e, c1)"
  by (auto simp: step_ok_def)

lemma skip_spaces_moved:
  "cursor_ok c \<Longrightarrow> \<exists>t. moved c t (skip_spaces c) \<and> (\<forall>ch\<in>set t. is_whitespace ch)"
proof (induction c rule: skip_spaces.induct)
  case (1 c)
  show ?case
  proof (cases "\<exists>ch. peek c = Some ch \<and> is_whitespace ch")
    case True
    then obtain ch where ch: "peek c = Some ch" "is_whitespace ch" by blast
    from advance_moved_any [OF 1(2) ch(1)]
    obtain u where u: "moved c u (advance c)" "\<forall>ch\<in>set u. is_whitespace ch"
      using ch(2) by (cases; force simp: is_whitespace_def)
    obtain t where "moved (advance c) t (skip_spaces (advance c))" "\<forall>ch\<in>set t. is_whitespace ch"
      using 1(1) [OF ch] moved_ok [OF u(1)] by blast
    with moved_trans [OF u(1) this(1)] u(2) ch show ?thesis
      by (subst skip_spaces.simps) (auto intro!: exI [of _ "u @ t"])
  next
    case False
    then have "skip_spaces c = c"
      by (subst skip_spaces.simps) (auto split: option.splits)
    with moved_refl [OF 1(2)] show ?thesis by (intro exI [of _ "[]"]) simp
  qed
qed

lemma trivia_spaces: "\<forall>ch\<in>set t. is_whitespace ch \<Longrightarrow> trivia t"
  by (induction t) (auto intro: trivia.intros)

lemma skip_line_comment_moved:
  "cursor_ok c \<Longrightarrow> \<exists>t. moved c t (skip_line_comment c) \<and> (\<forall>ch\<in>set t. \<not> is_eol ch)"
proof (induction c rule: skip_line_comment.induct)
  case (1 c)
  show ?case
  proof (cases "\<exists>ch. peek c = Some ch \<and> \<not> is_eol ch")
    case True
    then obtain ch where ch: "peek c = Some ch" "\<not> is_eol ch" by blast
    then have u: "moved c [ch] (advance c)"
      by (intro advance_moved_char) (auto simp: is_eol_def 1(2))
    obtain t where "moved (advance c) t (skip_line_comment (advance c))" "\<forall>ch\<in>set t. \<not> is_eol ch"
      using 1(1) [OF ch(1)] ch(2) moved_ok [OF u] by (auto simp: is_eol_def)
    with moved_trans [OF u this(1)] ch show ?thesis
      by (subst skip_line_comment.simps) (auto intro!: exI [of _ "ch # t"] simp: is_eol_def)
  next
    case False
    then have "skip_line_comment c = c"
      by (subst skip_line_comment.simps) (auto split: option.splits simp: is_eol_def)
    with moved_refl [OF 1(2)] show ?thesis by (intro exI [of _ "[]"]) simp
  qed
qed

lemma moved_two:
  assumes "cursor_ok c" and "starts_with2 (remaining c) a b" and "a \<noteq> ch_cr" and "b \<noteq> ch_cr"
  shows "moved c [a, b] (advance (advance c))"
proof -
  obtain r where r: "remaining c = a # b # r"
    using assms(2) by (cases "remaining c"; cases "tl (remaining c)") (auto simp: starts_with2_def)
  have m: "moved c [a] (advance c)"
    using advance_moved [OF assms(1) r] assms(3) by (simp add: head_unit_def)
  then have "remaining (advance c) = b # r" using r by (simp add: moved_def)
  from advance_moved [OF moved_ok [OF m] this] assms(4)
  have "moved (advance c) [b] (advance (advance c))" by (simp add: head_unit_def)
  from moved_trans [OF m this] show ?thesis by simp
qed

lemma skip_block_step:
  assumes "cursor_ok c"
    and "error_located (cu_source c) (error_at UnterminatedBlockComment (fst start) (snd start))"
  shows "step_ok c (\<lambda>t. \<exists>b. t = b @ [ch_bar, ch_semi]) (skip_block start c)"
  using assms
proof (induction start c rule: skip_block.induct)
  case (1 start c)
  consider (closed) "starts_with2 (remaining c) ch_bar ch_semi"
    | (eof) "\<not> starts_with2 (remaining c) ch_bar ch_semi" "is_end c"
    | (more) "\<not> starts_with2 (remaining c) ch_bar ch_semi" "\<not> is_end c" by blast
  then show ?case
  proof cases
    case closed
    with moved_two [OF 1(2) closed] show ?thesis
      by (subst skip_block.simps) (auto intro: step_okI)
  next
    case eof
    with 1 show ?thesis
      by (subst skip_block.simps) (auto intro: step_ok_errorI moved_refl)
  next
    case more
    then obtain ch where ch: "peek c = Some ch" by (cases "peek c") (auto simp: cursor_simps)
    obtain u where u: "moved c u (advance c)" using advance_moved_any [OF 1(2) ch] by blast
    have "step_ok (advance c) (\<lambda>t. \<exists>b. t = b @ [ch_bar, ch_semi]) (skip_block start (advance c))"
      using 1(1) [OF more] 1(3) moved_ok [OF u] by simp
    then have "step_ok c (\<lambda>t. \<exists>b. t = b @ [ch_bar, ch_semi]) (skip_block start (advance c))"
      by (rule step_ok_after [OF u]) (metis append_assoc)
    with more show ?thesis by (subst skip_block.simps) simp
  qed
qed

lemma skip_comment_step:
  assumes "cursor_ok c" and "peek c = Some ch_semi"
  shows "step_ok c comment_text (skip_comment c)"
proof (cases "starts_with2 (remaining c) ch_semi ch_bar")
  case True
  note m = moved_two [OF assms(1) True]
  from m have "\<exists>r. remaining c = [ch_semi, ch_bar] @ r" by (auto simp: moved_def)
  then have e: "error_located (cu_source c) (error_at UnterminatedBlockComment (cu_line c) (cu_column c))"
    using error_located_here [OF assms(1)] by (auto simp: blamed_def)
  with m have s: "step_ok (advance (advance c)) (\<lambda>t. \<exists>b. t = b @ [ch_bar, ch_semi])
      (skip_block (cu_line c, cu_column c) (advance (advance c)))"
    by (intro skip_block_step) (auto simp: moved_ok)
  from step_ok_after [OF m s] have "step_ok c comment_text
      (skip_block (cu_line c, cu_column c) (advance (advance c)))"
    using comment_text.block by auto
  with True show ?thesis by (simp add: skip_comment_def)
next
  case False
  have u: "moved c [ch_semi] (advance c)"
    using assms by (intro advance_moved_char) auto
  obtain t where t: "moved (advance c) t (skip_line_comment (advance c))" "\<forall>ch\<in>set t. \<not> is_eol ch"
    using skip_line_comment_moved [OF moved_ok [OF u]] by blast
  have "take 1 t \<noteq> [ch_bar]"
    using False u t by (cases t) (auto simp: moved_def starts_with2_def)
  with t(2) have "comment_text (ch_semi # t)" by (rule comment_text.line)
  moreover have "skip_line_comment c = skip_line_comment (advance c)"
    using assms by (subst skip_line_comment.simps) simp
  ultimately show ?thesis
    using False moved_trans [OF u t(1)] by (auto simp: skip_comment_def intro: step_okI)
qed

lemma skip_trivia_step: "cursor_ok c \<Longrightarrow> step_ok c trivia (skip_trivia c)"
proof (induction c rule: skip_trivia.induct)
  case (1 c)
  obtain t where t: "moved c t (skip_spaces c)" "trivia t"
    using skip_spaces_moved [OF 1(2)] trivia_spaces by blast
  show ?case
  proof (cases "peek (skip_spaces c) = Some ch_semi")
    case False
    with t show ?thesis by (subst skip_trivia.simps) (auto simp: Let_def intro: step_okI)
  next
    case True
    obtain e c2 where k: "skip_comment (skip_spaces c) = (e, c2)" by fastforce
    have s: "step_ok (skip_spaces c) comment_text (e, c2)"
      using skip_comment_step [OF moved_ok [OF t(1)] True] k by simp
    show ?thesis
    proof (cases e)
      case (Some err)
      have "step_ok c trivia (Some err, c2)"
        using step_ok_after [OF t(1) s [unfolded Some], of "\<lambda>_. True"] by (blast intro: step_ok_Some)
      with k Some True show ?thesis by (subst skip_trivia.simps) (simp add: Let_def)
    next
      case None
      from s [unfolded None] obtain b where b: "moved (skip_spaces c) b c2" "comment_text b"
        by (rule step_ok_NoneE)
      have "step_ok c2 trivia (skip_trivia c2)"
        using 1(1) True k None moved_ok [OF b(1)] by auto
      from step_ok_after [OF moved_trans [OF t(1) b(1)] this, of trivia]
      have "step_ok c trivia (skip_trivia c2)"
        using t(2) b(2) by (simp add: trivia_append trivia_comment)
      with k None True show ?thesis by (subst skip_trivia.simps) (simp add: Let_def)
    qed
  qed
qed

section \<open>Strings, lists, atoms and quotes\<close>

lemma string_tail_unit:
  assumes "u = [ch] \<or> ch = ch_cr \<and> u = [ch_cr, ch_lf]" and "string_tail t"
  shows "ch \<notin> {ch_dquote, ch_bslash} \<Longrightarrow> string_tail (u @ t)"
    and "string_tail (ch_bslash # u @ t)"
proof -
  have lf: "string_tail (ch_lf # t)" by (rule string_char [OF _ assms(2)]) simp
  have "string_tail (ch_cr # ch_lf # t)" by (rule string_char [OF _ lf]) simp
  moreover have "ch \<notin> {ch_dquote, ch_bslash} \<Longrightarrow> string_tail (ch # t)"
    using assms(2) by (rule string_char [rotated])
  ultimately show "ch \<notin> {ch_dquote, ch_bslash} \<Longrightarrow> string_tail (u @ t)" using assms(1) by auto
  show "string_tail (ch_bslash # u @ t)"
    using assms string_escape [OF assms(2)] string_escape [OF lf] by auto
qed

lemma advance_unit:
  assumes "cursor_ok c" and "peek c = Some ch"
  shows "\<exists>u. moved c u (advance c) \<and> (u = [ch] \<or> ch = ch_cr \<and> u = [ch_cr, ch_lf])"
  by (rule advance_moved_any [OF assms]) auto

lemma scan_string_loop_step:
  assumes "cursor_ok c"
    and "error_located (cu_source c) (error_at UnterminatedString (fst start) (snd start))"
  shows "step_ok c string_tail (scan_string_loop start c)"
  using assms
proof (induction start c rule: scan_string_loop.induct)
  case (1 start c)
  note err = step_ok_errorI [OF _ 1(4)]
  show ?case
  proof (cases "peek c")
    case None
    with err [OF moved_refl [OF 1(3)]] show ?thesis by (subst scan_string_loop.simps) simp
  next
    case (Some ch)
    obtain u where u: "moved c u (advance c)" "u = [ch] \<or> ch = ch_cr \<and> u = [ch_cr, ch_lf]"
      using advance_unit [OF 1(3) Some] by blast
    have src: "cu_source (advance c) = cu_source c" by simp
    consider "ch = ch_dquote" | "ch = ch_bslash" | "ch \<notin> {ch_dquote, ch_bslash}" by blast
    then show ?thesis
    proof cases
      case 1
      with Some u show ?thesis
        by (subst scan_string_loop.simps) (auto intro: step_okI string_close)
    next
      case esc: 2
      show ?thesis
      proof (cases "is_end (advance c)")
        case True
        with err [OF u(1)] Some esc show ?thesis by (subst scan_string_loop.simps) simp
      next
        case False
        then obtain ch1 where ch1: "peek (advance c) = Some ch1"
          by (cases "peek (advance c)") (auto simp: cursor_simps)
        obtain v where v: "moved (advance c) v (advance (advance c))"
            "v = [ch1] \<or> ch1 = ch_cr \<and> v = [ch_cr, ch_lf]"
          using advance_unit [OF moved_ok [OF u(1)] ch1] by blast
        have "step_ok (advance (advance c)) string_tail (scan_string_loop start (advance (advance c)))"
          using 1(1) [OF Some _ _ False] esc moved_ok [OF v(1)] 1(4) by simp
        then have "step_ok c string_tail (scan_string_loop start (advance (advance c)))"
          by (rule step_ok_after [OF moved_trans [OF u(1) v(1)]])
            (use u(2) esc string_tail_unit(2) [OF v(2)] in auto)
        with Some esc False show ?thesis by (subst scan_string_loop.simps) simp
      qed
    next
      case other: 3
      have "step_ok (advance c) string_tail (scan_string_loop start (advance c))"
        using 1(2) [OF Some] other moved_ok [OF u(1)] 1(4) by simp
      then have "step_ok c string_tail (scan_string_loop start (advance c))"
        by (rule step_ok_after [OF u(1)]) (rule string_tail_unit(1) [OF u(2) _ other])
      with Some other show ?thesis by (subst scan_string_loop.simps) simp
    qed
  qed
qed

definition string_text :: "ustr \<Rightarrow> bool" where
  "string_text t \<longleftrightarrow> (\<exists>s. t = ch_dquote # s \<and> string_tail s)"

lemma scan_string_step:
  assumes "cursor_ok c" and "peek c = Some ch_dquote"
  shows "step_ok c string_text (scan_string c)"
proof -
  have u: "moved c [ch_dquote] (advance c)" using assms by (intro advance_moved_char) auto
  have "error_located (cu_source c) (error_at UnterminatedString (cu_line c) (cu_column c))"
    using assms by (intro error_located_peek) (auto simp: blamed_def)
  then have "step_ok (advance c) string_tail (scan_string_loop (cu_line c, cu_column c) (advance c))"
    using moved_ok [OF u] by (intro scan_string_loop_step) auto
  then show ?thesis
    unfolding scan_string_def by (rule step_ok_after [OF u]) (simp add: string_text_def)
qed

text \<open>The text from inside \<open>d\<close> open lists to the end of the outermost one.\<close>

fun list_tail :: "nat \<Rightarrow> ustr \<Rightarrow> bool" where
  "list_tail 0 t \<longleftrightarrow> t = []"
| "list_tail (Suc d) t \<longleftrightarrow> (\<exists>u v. t = u @ ch_rparen # v \<and> items u \<and> list_tail d v)"

lemma items_append: "items s \<Longrightarrow> items t \<Longrightarrow> items (s @ t)"
proof (induction rule: items.induct)
  case (items_string s u)
  then show ?case using items.items_string [of s "u @ t"] by simp
qed (auto intro: items.intros)

lemma list_tail_items: "items s \<Longrightarrow> list_tail (Suc d) t \<Longrightarrow> list_tail (Suc d) (s @ t)"
  by (metis items_append list_tail.simps(2) append_assoc)

lemma list_tail_open: "list_tail (Suc (Suc d)) t \<Longrightarrow> list_tail (Suc d) (ch_lparen # t)"
proof -
  assume "list_tail (Suc (Suc d)) t"
  then obtain u v w where "t = u @ ch_rparen # v @ ch_rparen # w" "items u" "items v" "list_tail d w"
    by auto
  moreover from this have "items (ch_lparen # u @ ch_rparen # v)" by (intro items_list)
  ultimately show ?thesis
    by (simp only: list_tail.simps) (intro exI [of _ "ch_lparen # u @ ch_rparen # v"] exI [of _ w], simp)
qed

lemma list_tail_close: "list_tail d t \<Longrightarrow> list_tail (Suc d) (ch_rparen # t)"
  by (simp only: list_tail.simps) (intro exI [of _ "[]"] exI [of _ t], simp add: items_Nil)

declare list_tail.simps [simp del]

lemma items_unit:
  assumes "u = [ch] \<or> ch = ch_cr \<and> u = [ch_cr, ch_lf]"
    and "ch \<notin> {ch_lparen, ch_rparen, ch_dquote, ch_semi}"
  shows "items u"
  using assms by (auto intro!: items.intros)

lemma items_of_text:
  "string_text t \<Longrightarrow> items t"
  "comment_text t \<Longrightarrow> items t"
  using items_string [OF _ items_Nil] items_comment [OF _ items_Nil]
  by (auto simp: string_text_def)

lemma scan_list_loop_step:
  assumes "cursor_ok c" and "0 < depth"
    and "error_located (cu_source c) (error_at UnterminatedList (fst start) (snd start))"
  shows "step_ok c (list_tail depth) (scan_list_loop start depth c)"
  using assms
proof (induction start depth c rule: scan_list_loop.induct)
  case (1 start depth c)
  note err = step_ok_errorI [OF _ 1(8)]
  from \<open>0 < depth\<close> obtain d where d: "depth = Suc d" by (cases depth) auto
  show ?case
  proof (cases "peek c")
    case None
    with err [OF moved_refl [OF 1(6)]] show ?thesis by (subst scan_list_loop.simps) simp
  next
    case (Some ch)
    obtain u where u: "moved c u (advance c)" "u = [ch] \<or> ch = ch_cr \<and> u = [ch_cr, ch_lf]"
      using advance_unit [OF 1(6) Some] by blast
    note ok1 = moved_ok [OF u(1)]
    consider (op) "ch = ch_lparen" | (last) "ch = ch_rparen" "d = 0" | (cl) "ch = ch_rparen" "0 < d"
      | (str) "ch = ch_dquote" | (com) "ch = ch_semi"
      | (other) "ch \<notin> {ch_lparen, ch_rparen, ch_dquote, ch_semi}" by blast
    then show ?thesis
    proof cases
      case op
      have "step_ok (advance c) (list_tail (Suc depth)) (scan_list_loop start (Suc depth) (advance c))"
        using 1(1) [OF Some op ok1] 1(8) by simp
      then have "step_ok c (list_tail depth) (scan_list_loop start (Suc depth) (advance c))"
        by (rule step_ok_after [OF u(1)]) (use u(2) op d list_tail_open in auto)
      with Some op show ?thesis by (subst scan_list_loop.simps) simp
    next
      case last
      have "list_tail depth [ch_rparen]" using last d list_tail_close [of 0 "[]"] by (simp add: list_tail.simps)
      with u last Some d show ?thesis
        by (subst scan_list_loop.simps) (auto intro: step_okI)
    next
      case cl
      have "step_ok (advance c) (list_tail d) (scan_list_loop start d (advance c))"
        using 1(2) [OF Some _ _ _ ok1] cl d 1(8) by simp
      then have "step_ok c (list_tail depth) (scan_list_loop start d (advance c))"
        by (rule step_ok_after [OF u(1)]) (use u(2) cl d list_tail_close in auto)
      with Some cl d show ?thesis by (subst scan_list_loop.simps) simp
    next
      case str
      obtain e c1 where s: "scan_string c = (e, c1)" by fastforce
      have st: "step_ok c string_text (e, c1)" using scan_string_step [OF 1(6)] Some str s by simp
      show ?thesis
      proof (cases e)
        case (Some err)
        with st s str \<open>peek c = Some ch\<close> show ?thesis
          by (subst scan_list_loop.simps) (auto intro: step_ok_Some)
      next
        case None
        from st [unfolded None] obtain t where t: "moved c t c1" "string_text t" by (rule step_ok_NoneE)
        have "step_ok c1 (list_tail depth) (scan_list_loop start depth c1)"
          using 1(3) [OF Some _ _ str s [symmetric] None moved_ok [OF t(1)]] str 1(7,8)
            moved_source [OF t(1)] by simp
        then have "step_ok c (list_tail depth) (scan_list_loop start depth c1)"
          by (rule step_ok_after [OF t(1)]) (simp only: d list_tail_items items_of_text(1) [OF t(2)])
        with Some str s None show ?thesis by (subst scan_list_loop.simps) simp
      qed
    next
      case com
      obtain e c1 where s: "skip_comment c = (e, c1)" by fastforce
      have st: "step_ok c comment_text (e, c1)" using skip_comment_step [OF 1(6)] Some com s by simp
      show ?thesis
      proof (cases e)
        case (Some err)
        with st s com \<open>peek c = Some ch\<close> show ?thesis
          by (subst scan_list_loop.simps) (auto intro: step_ok_Some)
      next
        case None
        from st [unfolded None] obtain t where t: "moved c t c1" "comment_text t" by (rule step_ok_NoneE)
        have "step_ok c1 (list_tail depth) (scan_list_loop start depth c1)"
          using 1(4) [OF Some _ _ _ com s [symmetric] None moved_ok [OF t(1)]] com 1(7,8)
            moved_source [OF t(1)] by simp
        then have "step_ok c (list_tail depth) (scan_list_loop start depth c1)"
          by (rule step_ok_after [OF t(1)]) (simp only: d list_tail_items items_of_text(2) [OF t(2)])
        with Some com s None show ?thesis by (subst scan_list_loop.simps) simp
      qed
    next
      case other
      have "step_ok (advance c) (list_tail depth) (scan_list_loop start depth (advance c))"
        using 1(5) [OF Some] other ok1 1(7,8) by simp
      then have "step_ok c (list_tail depth) (scan_list_loop start depth (advance c))"
        by (rule step_ok_after [OF u(1)]) (simp only: d list_tail_items items_unit [OF u(2) other])
      with Some other show ?thesis by (subst scan_list_loop.simps) simp
    qed
  qed
qed

lemma scan_list_step:
  assumes "cursor_ok c" and "peek c = Some ch_lparen"
  shows "step_ok c form_text (scan_list c)"
proof -
  have u: "moved c [ch_lparen] (advance c)" using assms by (intro advance_moved_char) auto
  have "error_located (cu_source c) (error_at UnterminatedList (cu_line c) (cu_column c))"
    using assms by (intro error_located_peek) (auto simp: blamed_def)
  then have "step_ok (advance c) (list_tail 1) (scan_list_loop (cu_line c, cu_column c) 1 (advance c))"
    using moved_ok [OF u] by (intro scan_list_loop_step) auto
  then have "step_ok c form_text (scan_list_loop (cu_line c, cu_column c) 1 (advance c))"
    by (rule step_ok_after [OF u]) (auto simp: list_tail.simps intro: form_list)
  moreover have "scan_list c = scan_list_loop (cu_line c, cu_column c) 1 (advance c)"
    using assms by (simp add: scan_list_def scan_list_loop.simps [of _ 0])
  ultimately show ?thesis by simp
qed

lemma advance_to_moved:
  "cursor_ok c \<Longrightarrow> remaining c = a @ r \<Longrightarrow> ch_cr \<notin> set a
    \<Longrightarrow> moved c a (advance_to (cu_byte c + byte_len a) c)"
proof (induction a arbitrary: c)
  case Nil
  then show ?case by (subst advance_to.simps) (simp add: moved_refl)
next
  case (Cons ch a)
  have pk: "peek c = Some ch" using Cons.prems by (simp add: peek_def)
  with Cons.prems have u: "moved c [ch] (advance c)" by (intro advance_moved_char) auto
  have r: "remaining (advance c) = a @ r" using u Cons.prems by (simp add: moved_def)
  have "cu_byte (advance c) = cu_byte c + len_utf8 ch" using moved_byte [OF Cons.prems(1) u] by simp
  then have "moved (advance c) a (advance_to (cu_byte c + byte_len (ch # a)) (advance c))"
    using Cons.IH [OF moved_ok [OF u] r] Cons.prems(3) by (simp add: add.assoc)
  with moved_trans [OF u this] Cons.prems(2) show ?case
    by (subst advance_to.simps) (auto simp: cursor_simps)
qed

lemma atom_prefix:
  assumes "rest \<noteq> []" and "\<not> is_atom_delimiter (hd rest)"
  shows "\<exists>a r. rest = a @ r \<and> atom_text a \<and> atom_byte_count rest = byte_len a"
proof -
  define token where "token = takeWhile (\<lambda>c. \<not> is_atom_delimiter c) rest"
  have tb: "take_bytes (case str_find is_atom_delimiter rest of None \<Rightarrow> byte_len rest | Some n \<Rightarrow> n) rest = token"
    unfolding token_def by (rule take_bytes_str_find)
  have tok: "token \<noteq> []" "hd token = hd rest" "\<forall>ch\<in>set token. \<not> is_atom_delimiter ch"
    using assms by (cases rest; auto simp: token_def dest: set_takeWhileD)+
  have rest: "rest = token @ dropWhile (\<lambda>c. \<not> is_atom_delimiter c) rest"
    by (simp add: token_def)
  then have whole: ?thesis if "atom_text token" "atom_byte_count rest = byte_len token"
    using that by blast
  show ?thesis
  proof (cases "str_find (\<lambda>ch. ch = ch_dot) token")
    case None
    then have "ch_dot \<notin> set token" by (auto simp: str_find_None)
    then have "atom_text token" using tok by (simp add: atom_text_def)
    moreover have "atom_byte_count rest = byte_len token"
      using None tb by (simp add: atom_byte_count_def Let_def)
    ultimately show ?thesis by (rule whole)
  next
    case (Some n)
    define a where "a = takeWhile (\<lambda>ch. ch \<noteq> ch_dot) token"
    from Some have n: "n = byte_len a" unfolding a_def by (auto dest: str_find_Some)
    show ?thesis
    proof (cases "n = 0 \<or> is_decimal token")
      case True
      have "n = 0 \<Longrightarrow> hd token = ch_dot"
        using n tok(1) by (cases token) (auto simp: a_def split: if_splits)
      with True have "atom_text token" using tok by (auto simp: atom_text_def)
      moreover have "atom_byte_count rest = byte_len token"
        using True Some tb by (auto simp: atom_byte_count_def Let_def)
      ultimately show ?thesis by (rule whole)
    next
      case False
      have "token = a @ dropWhile (\<lambda>ch. ch \<noteq> ch_dot) token" by (simp add: a_def)
      then have "rest = a @ dropWhile (\<lambda>ch. ch \<noteq> ch_dot) token @ dropWhile (\<lambda>c. \<not> is_atom_delimiter c) rest"
        using rest by (metis append_assoc)
      moreover have "atom_text a"
        using False n tok(3) by (auto simp: atom_text_def a_def dest: set_takeWhileD)
      moreover have "atom_byte_count rest = byte_len a"
        using False Some n tb by (simp add: atom_byte_count_def Let_def)
      ultimately show ?thesis by blast
    qed
  qed
qed

lemma scan_atom_moved:
  assumes "cursor_ok c" and "peek c = Some ch" and "\<not> is_atom_delimiter ch"
  shows "\<exists>a. moved c a (scan_atom c) \<and> atom_text a"
proof -
  obtain r where r: "remaining c = ch # r" using peek_SomeD [OF assms(2)] by blast
  have "remaining c \<noteq> []" and "\<not> is_atom_delimiter (hd (remaining c))"
    using r assms(3) by simp_all
  from atom_prefix [OF this] obtain a q where a: "remaining c = a @ q" "atom_text a"
      "atom_byte_count (remaining c) = byte_len a"
    by blast
  have "is_atom_delimiter ch_cr" by (simp add: is_atom_delimiter_def is_whitespace_def)
  with a(2) have "ch_cr \<notin> set a" unfolding atom_text_def by blast
  from advance_to_moved [OF assms(1) a(1) this]
  have "moved c a (scan_atom c)" by (simp only: scan_atom_def a(3))
  with a(2) show ?thesis by blast
qed

inductive quotes :: "ustr \<Rightarrow> bool" where
  quotes_Nil: "quotes []"
| quotes_Cons: "trivia t \<Longrightarrow> quotes q \<Longrightarrow> quotes (ch_quote # t @ q)"

lemma form_quotes: "quotes q \<Longrightarrow> form_text f \<Longrightarrow> form_text (q @ f)"
proof (induction rule: quotes.induct)
  case (quotes_Cons t q)
  then show ?case using form_quote [of t "q @ f"] by simp
qed simp

definition quote_located :: "ustr \<Rightarrow> (nat \<times> nat) option \<Rightarrow> bool" where
  "quote_located s q \<longleftrightarrow>
     (\<forall>l k. q = Some (l, k) \<longrightarrow> error_located s (error_at MissingQuotedForm l k))"

text \<open>The loop over the quotes moves over quotes and trivia; it keeps the first quote's place.\<close>

lemma quote_loop_step:
  assumes "cursor_ok c" and "quote_located (cu_source c) quote" and "quote_loop quote c = (e, quote1, c1)"
  shows "step_ok c quotes (e, c1) \<and> quote_located (cu_source c) quote1"
  using assms
proof (induction quote c arbitrary: e quote1 c1 rule: quote_loop.induct)
  case (1 quote c)
  show ?case
  proof (cases "peek c = Some ch_quote")
    case False
    with 1(4) have "e = None \<and> quote1 = quote \<and> c1 = c" by (subst (asm) quote_loop.simps) simp
    with 1(2,3) show ?thesis by (auto intro: step_okI moved_refl quotes_Nil)
  next
    case True
    define q where "q = get_or_insert quote (cu_line c, cu_column c)"
    have u: "moved c [ch_quote] (advance c)" using True 1(2) by (intro advance_moved_char) auto
    have "error_located (cu_source c) (error_at MissingQuotedForm (cu_line c) (cu_column c))"
      using True 1(2) by (intro error_located_peek) (auto simp: blamed_def)
    with 1(3) have q: "quote_located (cu_source c) q"
      unfolding q_def by (cases quote) (auto simp: quote_located_def)
    obtain e2 c2 where k: "skip_trivia (advance c) = (e2, c2)" by fastforce
    have s: "step_ok (advance c) trivia (e2, c2)" using skip_trivia_step [OF moved_ok [OF u]] k by simp
    show ?thesis
    proof (cases e2)
      case (Some err)
      with 1(4) True k have r: "e = e2" "quote1 = q" "c1 = c2"
        by (subst (asm) quote_loop.simps, simp add: q_def)+
      have "step_ok c quotes (e2, c2)"
        using step_ok_after [OF u s, of "\<lambda>_. True"] Some by (auto intro: step_ok_Some)
      with r q show ?thesis by simp
    next
      case None
      with s obtain t where t: "moved (advance c) t c2" "trivia t" by (auto elim: step_ok_NoneE)
      have src: "cu_source c2 = cu_source c" using moved_source [OF t(1)] by simp
      have "quote_loop q c2 = (e, quote1, c1)"
        using 1(4) True k None by (subst (asm) quote_loop.simps) (simp add: q_def)
      from 1(1) [OF True k [symmetric] None moved_ok [OF t(1)], folded q_def, OF _ this]
      have "step_ok c2 quotes (e, c1)" and "quote_located (cu_source c) quote1"
        using q src by auto
      moreover from this(1) have "step_ok c quotes (e, c1)"
        by (rule step_ok_after [OF moved_trans [OF u t(1)]]) (use quotes_Cons [OF t(2)] in auto)
      ultimately show ?thesis by simp
    qed
  qed
qed

lemma quote_first:
  assumes "quote_loop None c = (None, None, c1)"
  shows "c1 = c"
proof -
  have "quote_loop q c = (None, q1, c1) \<Longrightarrow> q \<noteq> None \<Longrightarrow> q1 \<noteq> None" for q q1 c c1
  proof (induction q c arbitrary: q1 c1 rule: quote_loop.induct)
    case (1 q c)
    from 1(2,3) show ?case
      by (subst (asm) quote_loop.simps)
        (auto split: if_splits prod.splits option.splits dest: 1(1))
  qed
  from this [of "get_or_insert None (cu_line c, cu_column c)"] show ?thesis
    using assms by (subst (asm) quote_loop.simps) (auto split: if_splits prod.splits option.splits)
qed

lemma scan_form_step:
  assumes "cursor_ok c" and "skip_trivia d = (None, c)" and "\<not> is_end c"
  shows "step_ok c form_text (scan_form c)"
proof -
  obtain e q c1 where ql: "quote_loop None c = (e, q, c1)" using prod_cases3 by blast
  have st: "step_ok c quotes (e, c1)" and ql1: "quote_located (cu_source c) q"
    using quote_loop_step [OF assms(1) _ ql] by (auto simp: quote_located_def)
  show ?thesis
  proof (cases e)
    case (Some err)
    with ql st show ?thesis by (simp add: scan_form_def step_ok_Some)
  next
    case None
    with st obtain t where t: "moved c t c1" "quotes t" by (auto elim: step_ok_NoneE)
    note ok1 = moved_ok [OF t(1)]
    note after = step_ok_after [OF t(1), of form_text _ form_text]
    note post = quote_loop_post [OF ql [unfolded None]]
    show ?thesis
    proof (cases "is_end c1")
      case True
      have "q \<noteq> None"
      proof
        assume "q = None"
        with quote_first [of c c1] ql None have "c1 = c" by simp
        with True assms(3) show False by simp
      qed
      with True ql None ql1 t(1) show ?thesis
        by (auto simp: scan_form_def quote_located_def intro: step_ok_errorI)
    next
      case False
      then obtain ch where ch: "peek c1 = Some ch" by (cases "peek c1") (auto simp: cursor_simps)
      obtain d1 where "skip_trivia d1 = (None, c1)" using post(2) assms(2) by blast
      from skip_trivia_peek [OF this ch] post(1) ch
      have tr: "\<not> is_whitespace ch" "ch \<noteq> ch_semi" "ch \<noteq> ch_quote" by auto
      have "step_ok c1 form_text (if ch = ch_lparen then scan_list c1
          else if ch = ch_rparen then (Some (error_here c1 UnexpectedCloseParen), c1)
          else if ch = ch_dquote then scan_string c1 else (None, scan_atom c1))"
      proof -
        consider "ch = ch_lparen" | "ch = ch_rparen" | "ch = ch_dquote"
          | "\<not> is_atom_delimiter ch" "ch \<notin> {ch_lparen, ch_rparen, ch_dquote}"
          using tr by (auto simp: is_atom_delimiter_def)
        then show ?thesis
        proof cases
          case 1
          with scan_list_step [OF ok1] ch show ?thesis by simp
        next
          case 2
          with error_located_peek [OF ok1 ch, of UnexpectedCloseParen] show ?thesis
            by (auto simp: blamed_def error_here_def intro: step_ok_errorI [OF moved_refl [OF ok1]])
        next
          case 3
          have "step_ok c1 form_text (scan_string c1)"
            by (rule step_ok_after [OF moved_refl [OF ok1] scan_string_step [OF ok1]])
              (use 3 ch in \<open>auto simp: string_text_def intro: form_string\<close>)
          with 3 show ?thesis by simp
        next
          case 4
          with scan_atom_moved [OF ok1 ch] show ?thesis by (auto intro: step_okI form_atom)
        qed
      qed
      then have "step_ok c form_text (if ch = ch_lparen then scan_list c1
          else if ch = ch_rparen then (Some (error_here c1 UnexpectedCloseParen), c1)
          else if ch = ch_dquote then scan_string c1 else (None, scan_atom c1))"
        by (rule after) (rule form_quotes [OF t(2)])
      moreover from ql None False ch have "scan_form c = (if ch = ch_lparen then scan_list c1
          else if ch = ch_rparen then (Some (error_here c1 UnexpectedCloseParen), c1)
          else if ch = ch_dquote then scan_string c1 else (None, scan_atom c1))"
        by (simp add: scan_form_def)
      ultimately show ?thesis by (simp only:)
    qed
  qed
qed

section \<open>The scanner\<close>

definition scanner_ok :: "scanner \<Rightarrow> bool" where
  "scanner_ok s \<longleftrightarrow> cursor_ok (sc_cursor s)"

text \<open>The span is the place of the text \<open>f\<close> behind the text \<open>p\<close>.\<close>

definition span_of :: "ustr \<Rightarrow> ustr \<Rightarrow> form_span" where
  "span_of p f = \<lparr>byte_start = byte_len p, byte_end = byte_len p + byte_len f,
     span_line = line_after p, span_column = column_after p\<rparr>"

lemma next_form_None:
  assumes "scanner_ok s" and "\<not> sc_finished s" and "next_form s = (None, s1)"
  shows "trivia (remaining (sc_cursor s))" and "sc_finished s1" and "scanner_ok s1"
    and "cu_source (sc_cursor s1) = cu_source (sc_cursor s)"
proof -
  from assms obtain c1 where k: "skip_trivia (sc_cursor s) = (None, c1)" and e: "is_end c1"
      and s1: "s1 = \<lparr>sc_cursor = c1, sc_finished = True\<rparr>"
    by (auto simp: next_form_def split: prod.splits option.splits if_splits)
  have "step_ok (sc_cursor s) trivia (None, c1)"
    using skip_trivia_step [of "sc_cursor s"] assms(1) k by (simp add: scanner_ok_def)
  then obtain t where t: "moved (sc_cursor s) t c1" "trivia t" by (rule step_ok_NoneE)
  with e show "trivia (remaining (sc_cursor s))" by (simp add: moved_def cursor_simps)
  show "sc_finished s1" "scanner_ok s1" "cu_source (sc_cursor s1) = cu_source (sc_cursor s)"
    using s1 t by (simp_all add: scanner_ok_def moved_def)
qed

lemma next_form_Ok:
  assumes "scanner_ok s" and "next_form s = (Some (Inr sp), s1)"
  shows "\<exists>t f. trivia t \<and> form_text f
    \<and> remaining (sc_cursor s) = t @ f @ remaining (sc_cursor s1)
    \<and> moved (sc_cursor s) (t @ f) (sc_cursor s1)
    \<and> sp = span_of (consumed (sc_cursor s) @ t) f \<and> \<not> sc_finished s1"
proof -
  from assms(2) obtain c1 c2 where k: "skip_trivia (sc_cursor s) = (None, c1)" and e: "\<not> is_end c1"
      and f: "scan_form c1 = (None, c2)" and s1: "s1 = \<lparr>sc_cursor = c2, sc_finished = False\<rparr>"
      and sp: "sp = \<lparr>byte_start = cu_byte c1, byte_end = cu_byte c2,
                 span_line = cu_line c1, span_column = cu_column c1\<rparr>"
    by (auto simp: next_form_def split: prod.splits option.splits if_splits)
  have "step_ok (sc_cursor s) trivia (None, c1)"
    using skip_trivia_step [of "sc_cursor s"] assms(1) k by (simp add: scanner_ok_def)
  then obtain t where t: "moved (sc_cursor s) t c1" "trivia t" by (rule step_ok_NoneE)
  have "step_ok c1 form_text (None, c2)"
    using scan_form_step [OF moved_ok [OF t(1)] k e] f by simp
  then obtain x where x: "moved c1 x c2" "form_text x" by (rule step_ok_NoneE)
  have "sp = span_of (consumed (sc_cursor s) @ t) x"
    using sp t(1) x(1) moved_ok [OF t(1)] moved_ok [OF x(1)]
    by (simp add: span_of_def cursor_ok_byte) (simp add: moved_def cursor_ok_def)
  with t x s1 moved_trans [OF t(1) x(1)] show ?thesis
    by (intro exI [of _ t] exI [of _ x]) (simp add: moved_def)
qed

lemma next_form_Err:
  assumes "scanner_ok s" and "next_form s = (Some (Inl e), s1)"
  shows "error_located (cu_source (sc_cursor s)) e" and "sc_finished s1" and "scanner_ok s1"
    and "cu_source (sc_cursor s1) = cu_source (sc_cursor s)"
proof -
  have ok: "cursor_ok (sc_cursor s)" using assms(1) by (simp add: scanner_ok_def)
  have fin: "sc_finished s1"
    using assms(2) by (auto simp: next_form_def split: prod.splits option.splits if_splits)
  have "\<exists>t. moved (sc_cursor s) t (sc_cursor s1) \<and> error_located (cu_source (sc_cursor s)) e"
  proof (cases "fst (skip_trivia (sc_cursor s))")
    case (Some err)
    then obtain c1 where k: "skip_trivia (sc_cursor s) = (Some err, c1)" by (metis prod.collapse)
    have "step_ok (sc_cursor s) trivia (Some err, c1)" using skip_trivia_step [OF ok] k by simp
    then show ?thesis
      using assms(2) k by (auto simp: next_form_def elim!: step_ok_SomeE split: if_splits)
  next
    case None
    then obtain c1 where k: "skip_trivia (sc_cursor s) = (None, c1)" by (metis prod.collapse)
    with assms(2) obtain c2 where e: "\<not> is_end c1" and f: "scan_form c1 = (Some e, c2)"
        and s1: "sc_cursor s1 = c2"
      by (auto simp: next_form_def split: prod.splits option.splits if_splits)
    have "step_ok (sc_cursor s) trivia (None, c1)" using skip_trivia_step [OF ok] k by simp
    then obtain t where t: "moved (sc_cursor s) t c1" by (rule step_ok_NoneE)
    have "step_ok c1 form_text (Some e, c2)"
      using scan_form_step [OF moved_ok [OF t] k e] f by simp
    from step_ok_after [OF t this, of "\<lambda>_. True"] have "step_ok (sc_cursor s) (\<lambda>_. True) (Some e, c2)"
      by simp
    with s1 show ?thesis by (auto elim: step_ok_SomeE)
  qed
  with fin show "error_located (cu_source (sc_cursor s)) e" and "sc_finished s1" and "scanner_ok s1"
    and "cu_source (sc_cursor s1) = cu_source (sc_cursor s)"
    by (auto simp: scanner_ok_def moved_def)
qed

lemma next_form_ok:
  assumes "scanner_ok s"
  shows "scanner_ok (snd (next_form s))"
    and "cu_source (sc_cursor (snd (next_form s))) = cu_source (sc_cursor s)"
proof -
  obtain r s1 where n: "next_form s = (r, s1)" by fastforce
  have "scanner_ok s1 \<and> cu_source (sc_cursor s1) = cu_source (sc_cursor s)"
  proof (cases "sc_finished s")
    case True
    with n assms show ?thesis by (simp add: next_form_def)
  next
    case False
    show ?thesis
    proof (cases r)
      case None
      from next_form_None(3,4) [OF assms False n [unfolded None]] show ?thesis by blast
    next
      case (Some x)
      show ?thesis
      proof (cases x)
        case (Inl e)
        from next_form_Err(3,4) [OF assms n [unfolded Some Inl]] show ?thesis by blast
      next
        case (Inr sp)
        from next_form_Ok [OF assms n [unfolded Some Inr]]
        obtain t f where "moved (sc_cursor s) (t @ f) (sc_cursor s1)" by blast
        then show ?thesis by (simp add: scanner_ok_def moved_def)
      qed
    qed
  qed
  with n show "scanner_ok (snd (next_form s))"
    and "cu_source (sc_cursor (snd (next_form s))) = cu_source (sc_cursor s)" by simp_all
qed

lemma scanner_ok_scan [simp]: "scanner_ok (scan source)" "cu_source (sc_cursor (scan source)) = source"
  by (simp_all add: scanner_ok_def scan_def cursor_ok_new) (simp add: new_cursor_def)

lemma scanner_ok_iterate:
  "scanner_ok (((snd \<circ> next_form) ^^ n) (scan source))
    \<and> cu_source (sc_cursor (((snd \<circ> next_form) ^^ n) (scan source))) = source"
  by (induction n) (simp_all add: next_form_ok)

section \<open>Properties\<close>

lemma validate_loop_program:
  assumes "scanner_ok s" and "\<not> sc_finished s" and "validate_loop k s = Inr n"
  shows "\<exists>m. n = k + m \<and> program_text m (remaining (sc_cursor s))"
  using assms
proof (induction k s rule: validate_loop.induct)
  case (1 k s)
  obtain r s1 where nf: "next_form s = (r, s1)" by fastforce
  show ?case
  proof (cases r)
    case None
    with 1(4) nf have "n = k" by (simp add: validate_loop.simps)
    with next_form_None(1) [OF 1(2,3) nf [unfolded None]] show ?thesis
      by (auto intro: program_end)
  next
    case (Some x)
    with 1(4) nf obtain sp where x: "x = Inr sp" and v: "validate_loop (k + 1) s1 = Inr n"
      by (subst (asm) validate_loop.simps) (auto split: sum.splits)
    from next_form_Ok [OF 1(2) nf [unfolded Some x]]
    obtain t f where tf: "trivia t" "form_text f"
        "remaining (sc_cursor s) = t @ f @ remaining (sc_cursor s1)" "\<not> sc_finished s1" by blast
    have "scanner_ok s1" using next_form_ok(1) [OF 1(2)] nf by simp
    from 1(1) [OF nf [symmetric] Some x this tf(4) v]
    obtain m where "n = k + 1 + m" "program_text m (remaining (sc_cursor s1))" by blast
    with tf show ?thesis by (intro exI [of _ "Suc m"]) (simp add: program_form)
  qed
qed

lemma validate_program:
  assumes "validate source = Inr n"
  shows "program_text n source"
proof -
  have "remaining (sc_cursor (scan source)) = source"
    by (simp add: scan_def new_cursor_def remaining_def)
  with validate_loop_program [of "scan source" 0 n] assms show ?thesis
    by (simp add: validate_def scan_def scanner_ok_def cursor_ok_new)
qed



lemma scan_all_span:
  assumes "scanner_ok s" and "Inr sp \<in> set (scan_all s)"
  shows "\<exists>p f r. cu_source (sc_cursor s) = p @ f @ r \<and> form_text f \<and> sp = span_of p f
    \<and> cu_byte (sc_cursor s) \<le> byte_start sp"
  using assms
proof (induction s rule: scan_all.induct)
  case (1 s)
  obtain r s1 where nf: "next_form s = (r, s1)" by fastforce
  show ?case
  proof (cases "r = Some (Inr sp)")
    case True
    from next_form_Ok [OF 1(2) nf [unfolded True]]
    obtain t f where "form_text f" "remaining (sc_cursor s) = t @ f @ remaining (sc_cursor s1)"
        and sp: "sp = span_of (consumed (sc_cursor s) @ t) f" by blast
    moreover have "cu_byte (sc_cursor s) \<le> byte_start sp"
      using 1(2) sp by (simp add: span_of_def scanner_ok_def cursor_ok_byte)
    ultimately show ?thesis
      using consumed_remaining [of "sc_cursor s"] by (metis append_assoc)
  next
    case False
    with 1(3) nf obtain x where x: "r = Some x" and mem: "Inr sp \<in> set (scan_all s1)"
      by (subst (asm) scan_all.simps) (auto split: option.splits)
    have ok1: "scanner_ok s1" "cu_source (sc_cursor s1) = cu_source (sc_cursor s)"
      using next_form_ok [OF 1(2)] nf by simp_all
    from 1(1) [OF nf [symmetric] x ok1(1) mem] have ih: "\<exists>p f r. cu_source (sc_cursor s) = p @ f @ r
        \<and> form_text f \<and> sp = span_of p f \<and> cu_byte (sc_cursor s1) \<le> byte_start sp"
      using ok1(2) by simp
    have "\<not> sc_finished s1" using mem by (subst (asm) scan_all.simps) (auto simp: next_form_def)
    with x nf next_form_Err(2) [OF 1(2)] obtain sp1 where "x = Inr sp1"
      by (cases x) auto
    with next_form_Ok [OF 1(2)] nf x have "cu_byte (sc_cursor s) \<le> cu_byte (sc_cursor s1)"
      using moved_byte 1(2) unfolding scanner_ok_def by (metis le_add1)
    with ih show ?thesis using le_trans by blast
  qed
qed

text \<open>C27. Every span the scanner yields is the place of one form of the grammar: the text between its
  offsets is that form, both offsets are character boundaries of the source, and its line
  and column are those of the form's first character (CR, LF and CR LF each ending a line).\<close>

theorem spans_are_forms:
  assumes "Inr sp \<in> set (scan_all (scan source))"
  shows "\<exists>p f r. source = p @ f @ r \<and> form_text f
    \<and> byte_start sp = byte_len p \<and> byte_end sp = byte_len (p @ f)
    \<and> is_char_boundary source (byte_start sp) \<and> is_char_boundary source (byte_end sp)
    \<and> span_line sp = line_after p \<and> span_column sp = column_after p"
proof -
  from scan_all_span [OF _ assms] obtain p f r
    where s: "source = p @ f @ r" and f: "form_text f" "sp = span_of p f" by auto
  have "is_char_boundary source (byte_len p)" "is_char_boundary source (byte_len (p @ f))"
    using s is_char_boundary_prefix [of p "f @ r"] is_char_boundary_prefix [of "p @ f" r] by simp_all
  with s f show ?thesis by (intro exI [of _ p] exI [of _ f] exI [of _ r]) (simp add: span_of_def)
qed

theorem spans_are_forms_witness:
  "\<exists>p f r. [10, 40, 233, 41] = p @ f @ r \<and> form_text f
    \<and> byte_start \<lparr>byte_start = 1, byte_end = 5, span_line = 2, span_column = 1\<rparr> = byte_len p
    \<and> span_line \<lparr>byte_start = 1, byte_end = 5, span_line = 2, span_column = 1\<rparr> = line_after p"
proof -
  have "Inr \<lparr>byte_start = 1, byte_end = 5, span_line = 2, span_column = 1\<rparr>
      \<in> set (scan_all (scan [10, 40, 233, 41]))" by code_simp
  from spans_are_forms [OF this] show ?thesis by blast
qed

definition ok_spans :: "(scan_error + form_span) list \<Rightarrow> form_span list" where
  "ok_spans rs = map projr (filter is_ok rs)"

text \<open>The spans come in the order of the source, none is empty and none overlaps another.\<close>

lemma spans_ordered:
  "sorted_wrt (\<lambda>a b. byte_end a \<le> byte_start b) (ok_spans (scan_all (scan source)))
   \<and> (\<forall>sp\<in>set (ok_spans (scan_all (scan source))). byte_start sp < byte_end sp)"
proof -
  have mem: "Inr sp \<in> set rs" if "sp \<in> set (ok_spans rs)" for sp rs
    using that by (auto simp: ok_spans_def)
  have "scanner_ok s \<Longrightarrow> sorted_wrt (\<lambda>a b. byte_end a \<le> byte_start b) (ok_spans (scan_all s))" for s
  proof (induction s rule: scan_all.induct)
    case (1 s)
    obtain r s1 where nf: "next_form s = (r, s1)" by fastforce
    have ok1: "scanner_ok s1" using next_form_ok(1) [OF 1(2)] nf by simp
    show ?case
    proof (cases r)
      case None
      with nf show ?thesis by (subst scan_all.simps) (simp add: ok_spans_def)
    next
      case (Some x)
      note ih = 1(1) [OF nf [symmetric] Some ok1]
      have all: "scan_all s = x # scan_all s1" using nf Some by (subst scan_all.simps) simp
      show ?thesis
      proof (cases x)
        case (Inl e)
        with ih all show ?thesis by (simp add: ok_spans_def)
      next
        case (Inr sp)
        from next_form_Ok [OF 1(2) nf [unfolded Some Inr]] obtain t f
          where m: "moved (sc_cursor s) (t @ f) (sc_cursor s1)"
            and sp: "sp = span_of (consumed (sc_cursor s) @ t) f" by blast
        have "byte_end sp = cu_byte (sc_cursor s1)"
          using moved_byte [OF _ m] 1(2) sp by (simp add: scanner_ok_def span_of_def cursor_ok_byte)
        then have "\<forall>b\<in>set (ok_spans (scan_all s1)). byte_end sp \<le> byte_start b"
          using scan_all_span [OF ok1 mem] by fastforce
        with ih all Inr show ?thesis by (simp add: ok_spans_def)
      qed
    qed
  qed
  moreover have "byte_start sp < byte_end sp" if "sp \<in> set (ok_spans (scan_all (scan source)))" for sp
    using scan_all_span [OF _ mem [OF that]] form_text_nonempty by (auto simp: span_of_def)
  ultimately show ?thesis by simp
qed

lemma spans_ordered_witness:
  "sorted_wrt (\<lambda>a b. byte_end a \<le> byte_start b) (ok_spans (scan_all (scan (lit ''a(b)c''))))
   \<and> length (ok_spans (scan_all (scan (lit ''a(b)c'')))) = 3"
proof -
  have "length (ok_spans (scan_all (scan (lit ''a(b)c'')))) = 3" by code_simp
  with spans_ordered [of "lit ''a(b)c''"] show ?thesis by blast
qed

text \<open>An error is the last thing the scanner yields, and its line and column are those of the
  character that opened what is wrong: the stray parenthesis, the list, string or block
  comment that never ends, the first of the quotes with no form behind them.\<close>

lemma scan_error_located:
  "Inl e \<in> set (scan_all (scan source)) \<longrightarrow>
     error_located source e \<and> last (scan_all (scan source)) = Inl e
     \<and> length (filter isl (scan_all (scan source))) = 1"
proof -
  have "scanner_ok s \<Longrightarrow> Inl e \<in> set (scan_all s) \<Longrightarrow> error_located (cu_source (sc_cursor s)) e
      \<and> last (scan_all s) = Inl e \<and> length (filter isl (scan_all s)) = 1" for s
  proof (induction s rule: scan_all.induct)
    case (1 s)
    obtain r s1 where nf: "next_form s = (r, s1)" by fastforce
    with 1(3) obtain x where x: "r = Some x" by (cases r) (auto simp: scan_all.simps [of s])
    have all: "scan_all s = x # scan_all s1" using nf x by (subst scan_all.simps) simp
    have ok1: "scanner_ok s1" "cu_source (sc_cursor s1) = cu_source (sc_cursor s)"
      using next_form_ok [OF 1(2)] nf by simp_all
    show ?case
    proof (cases x)
      case (Inl e1)
      note er = next_form_Err [OF 1(2) nf [unfolded x Inl]]
      then have "scan_all s1 = []" by (subst scan_all.simps) (simp add: next_form_def)
      with all Inl 1(3) er show ?thesis by simp
    next
      case (Inr sp)
      with 1(3) all have "Inl e \<in> set (scan_all s1)" by simp
      with 1(1) [OF nf [symmetric] x ok1(1) this] all Inr ok1(2) show ?thesis by auto
    qed
  qed
  from this [of "scan source"] show ?thesis by simp
qed

lemma scan_error_located_witness:
  "error_located (lit ''a (b'') \<lparr>err_kind = UnterminatedList, err_line = 1, err_column = 3\<rparr>"
proof -
  have "Inl \<lparr>err_kind = UnterminatedList, err_line = 1, err_column = 3\<rparr>
      \<in> set (scan_all (scan (lit ''a (b'')))" by code_simp
  with scan_error_located show ?thesis by blast
qed

lemma validate_eq:
  "validate source = (case filter isl (scan_all (scan source)) of
     [] \<Rightarrow> Inr (length (scan_all (scan source))) | e # _ \<Rightarrow> Inl (projl e))"
proof -
  have "validate_loop k s = (case filter isl (scan_all s) of
      [] \<Rightarrow> Inr (k + length (scan_all s)) | e # _ \<Rightarrow> Inl (projl e))" for k s
  proof (induction k s rule: validate_loop.induct)
    case (1 k s)
    obtain r s1 where nf: "next_form s = (r, s1)" by fastforce
    show ?case
    proof (cases r)
      case None
      with nf show ?thesis by (subst validate_loop.simps, subst (1 2) scan_all.simps) simp
    next
      case (Some x)
      show ?thesis
      proof (cases x)
        case (Inl e)
        with nf Some show ?thesis by (subst validate_loop.simps, subst (1 2) scan_all.simps) simp
      next
        case (Inr sp)
        have "validate_loop k s = validate_loop (k + 1) s1" and "scan_all s = x # scan_all s1"
          using nf Some Inr by (simp_all add: validate_loop.simps [of k] scan_all.simps [of s])
        with 1 [OF nf [symmetric] Some Inr] Inr show ?thesis by (simp split: list.splits)
      qed
    qed
  qed
  from this [of 0] show ?thesis by (simp only: validate_def add_0)
qed

text \<open>\<open>validate\<close> and the iterator agree: it counts the forms when every item is a form, and
  answers the iterator's error otherwise.\<close>

lemma validate_counts:
  "validate source = (case filter isl (scan_all (scan source)) of
     [] \<Rightarrow> Inr (length (scan_all (scan source))) | e # _ \<Rightarrow> Inl (projl e))"
  by (rule validate_eq)

lemma resume_iterate:
  "resume source (position (((snd \<circ> next_form) ^^ n) (scan source)))
   = Some (((snd \<circ> next_form) ^^ n) (scan source))"
proof -
  define s where "s = ((snd \<circ> next_form) ^^ n) (scan source)"
  have ok: "cursor_ok (sc_cursor s)" and src: "cu_source (sc_cursor s) = source"
    using scanner_ok_iterate [of n source] by (simp_all add: s_def scanner_ok_def)
  then have "is_char_boundary source (cu_byte (sc_cursor s))" by (simp add: cursor_ok_def)
  with src is_char_boundary_le [OF this] show ?thesis
    unfolding s_def [symmetric] resume_def position_def by auto
qed

text \<open>Suspending and resuming is invisible: at any point of the iteration, resuming the source at
  the scanner's position gives that very scanner back.\<close>

lemma resume_position:
  "resume source (position (((snd \<circ> next_form) ^^ n) (scan source)))
   = Some (((snd \<circ> next_form) ^^ n) (scan source))"
  by (rule resume_iterate)

text \<open>Resuming at a place that is not a boundary of the source is refused.\<close>

lemma resume_None_iff:
  "resume source p = None \<longleftrightarrow> \<not> is_char_boundary source (pos_byte p)"
  using is_char_boundary_le [of source "pos_byte p"] by (auto simp: resume_def)

section \<open>Decimal tokens\<close>

lemma skip_digits_takeWhile:
  "skip_digits bs i = i + length (takeWhile byte_is_digit (drop i bs))"
proof (induction bs i rule: skip_digits.induct)
  case (1 bs i)
  show ?case
  proof (cases "i < length bs")
    case True
    then have "drop i bs = bs ! i # drop (Suc i) bs" by (simp add: Cons_nth_drop_Suc)
    with True 1 show ?thesis by (subst skip_digits.simps) (auto simp: nth_opt_def)
  next
    case False
    then show ?thesis by (subst skip_digits.simps) (simp add: nth_opt_def)
  qed
qed

text \<open>The bytes of a decimal: an optional sign, digits, a period, digits, and an optional exponent.\<close>

definition decimal_exponent :: "byte list \<Rightarrow> bool" where
  "decimal_exponent ex \<longleftrightarrow> ex = [] \<or> (\<exists>e sg ds. ex = e # sg @ ds \<and> e \<in> {101, 69}
     \<and> sg \<in> {[], [43], [45]} \<and> ds \<noteq> [] \<and> (\<forall>d\<in>set ds. byte_is_digit d))"

definition decimal_bytes :: "byte list \<Rightarrow> bool" where
  "decimal_bytes bs \<longleftrightarrow> (\<exists>sg ds fs ex. bs = sg @ ds @ 46 # fs @ ex \<and> sg \<in> {[], [43], [45]}
     \<and> ds \<noteq> [] \<and> (\<forall>d\<in>set ds. byte_is_digit d) \<and> (\<forall>d\<in>set fs. byte_is_digit d)
     \<and> decimal_exponent ex)"

lemma skip_digits_split:
  assumes "drop i bs = ds @ rest" and "\<forall>d\<in>set ds. byte_is_digit d"
    and "rest = [] \<or> \<not> byte_is_digit (hd rest)"
  shows "skip_digits bs i = i + length ds"
proof -
  have "takeWhile byte_is_digit (ds @ rest) = ds"
    using assms(2,3) by (cases rest) (auto simp: takeWhile_append)
  with assms(1) show ?thesis by (simp only: skip_digits_takeWhile)
qed

lemma skip_digits_obtain:
  assumes "i \<le> length bs"
  obtains ds rest where "drop i bs = ds @ rest" "\<forall>d\<in>set ds. byte_is_digit d"
    "rest = [] \<or> \<not> byte_is_digit (hd rest)" "skip_digits bs i = i + length ds"
proof
  show "drop i bs = takeWhile byte_is_digit (drop i bs) @ dropWhile byte_is_digit (drop i bs)" by simp
  show "\<forall>d\<in>set (takeWhile byte_is_digit (drop i bs)). byte_is_digit d" by (auto dest: set_takeWhileD)
  show "dropWhile byte_is_digit (drop i bs) = [] \<or> \<not> byte_is_digit (hd (dropWhile byte_is_digit (drop i bs)))"
    using hd_dropWhile by blast
qed (rule skip_digits_takeWhile)

lemma nth_opt_drop: "nth_opt (drop i bs) j = nth_opt bs (i + j)" if "i \<le> length bs"
  using that by (auto simp: nth_opt_def)

text \<open>The exponent part of \<open>is_decimal\<close>, as a function of the bytes from its position on.\<close>

definition exponent_ok :: "byte list \<Rightarrow> nat \<Rightarrow> bool" where
  "exponent_ok bs c2 =
     (if nth_opt bs c2 \<in> {Some 101, Some 69} then
        (let c3 = c2 + 1;
             exponent_start = (if sign_at bs c3 then c3 + 1 else c3);
             c4 = skip_digits bs exponent_start
         in if c4 = exponent_start then False else c4 = length bs)
      else c2 = length bs)"

lemma sign_at_drop:
  assumes "i \<le> length bs"
  shows "\<exists>sg. sg \<in> {[], [43], [45]} \<and> drop i bs = sg @ drop (i + length sg) bs
    \<and> (if sign_at bs i then i + 1 else i) = i + length sg"
proof (cases "sign_at bs i")
  case True
  then have "i < length bs" "bs ! i \<in> {43, 45}" by (auto simp: sign_at_def nth_opt_def split: if_splits)
  then show ?thesis using True
    by (intro exI [of _ "[bs ! i]"]) (auto simp: Cons_nth_drop_Suc)
qed auto

lemma sign_not_digit: "sg \<in> {[], [43], [45]} \<Longrightarrow> byte_is_digit d \<Longrightarrow> drop i bs = sg @ d # t
    \<Longrightarrow> sign_at bs i = (sg \<noteq> [])"
  by (cases "i < length bs") (auto simp: sign_at_def nth_opt_def byte_is_digit_def Cons_nth_drop_Suc [symmetric])

lemma exponent_ok_iff:
  assumes "c2 \<le> length bs"
  shows "exponent_ok bs c2 \<longleftrightarrow> decimal_exponent (drop c2 bs)"
proof
  assume ok: "exponent_ok bs c2"
  show "decimal_exponent (drop c2 bs)"
  proof (cases "nth_opt bs c2 \<in> {Some 101, Some 69}")
    case True
    then have c2: "c2 < length bs" "bs ! c2 \<in> {101, 69}" by (auto simp: nth_opt_def split: if_splits)
    obtain sg where sg: "sg \<in> {[], [43], [45]}" "drop (c2 + 1) bs = sg @ drop (c2 + 1 + length sg) bs"
        "(if sign_at bs (c2 + 1) then c2 + 1 + 1 else c2 + 1) = c2 + 1 + length sg"
      using sign_at_drop [of "c2 + 1" bs] c2 by auto
    define i where "i = c2 + 1 + length sg"
    from ok True sg(3) have "skip_digits bs i \<noteq> i" "skip_digits bs i = length bs"
      unfolding exponent_ok_def Let_def sg(3) i_def [symmetric] by (auto split: if_splits)
    then have ne: "drop i bs \<noteq> []"
        and len: "length (takeWhile byte_is_digit (drop i bs)) = length (drop i bs)"
      by (auto simp: skip_digits_takeWhile)
    from len have tw: "takeWhile byte_is_digit (drop i bs) = drop i bs"
      by (metis append_Nil2 append_eq_append_conv takeWhile_dropWhile_id)
    from tw have ds: "\<forall>d\<in>set (drop i bs). byte_is_digit d" by (simp only: takeWhile_eq_all_conv)
    have "drop c2 bs = bs ! c2 # drop (c2 + 1) bs" using c2(1) by (simp add: Cons_nth_drop_Suc)
    also have "\<dots> = bs ! c2 # sg @ drop i bs" by (simp only: i_def sg(2) [symmetric])
    finally have "drop c2 bs = bs ! c2 # sg @ drop i bs" .
    with ne ds c2(2) sg(1) show ?thesis unfolding decimal_exponent_def by blast
  next
    case False
    with ok have "c2 = length bs" by (simp add: exponent_ok_def)
    then show ?thesis by (simp add: decimal_exponent_def)
  qed
next
  assume "decimal_exponent (drop c2 bs)"
  then consider "drop c2 bs = []" | e sg ds where "drop c2 bs = e # sg @ ds" "e \<in> {101, 69}"
      "sg \<in> {[], [43], [45]}" "ds \<noteq> []" "\<forall>d\<in>set ds. byte_is_digit d"
    unfolding decimal_exponent_def by blast
  then show "exponent_ok bs c2"
  proof cases
    case 1
    with assms show ?thesis by (auto simp: exponent_ok_def nth_opt_def)
  next
    case 2
    have lt: "c2 < length bs" using 2(1) by (cases "c2 < length bs") auto
    then have e: "bs ! c2 = e" and d1: "drop (c2 + 1) bs = sg @ ds"
      using 2(1) by (auto simp: Cons_nth_drop_Suc [symmetric])
    from 2(4) obtain d t where ds: "ds = d # t" by (cases ds) auto
    have "sign_at bs (c2 + 1) = (sg \<noteq> [])"
      using sign_not_digit [OF 2(3) _ , of d "c2 + 1" bs t] 2(5) d1 ds by simp
    then have st: "(if sign_at bs (c2 + 1) then c2 + 1 + 1 else c2 + 1) = c2 + 1 + length sg"
      using 2(3) by auto
    have dr: "drop (c2 + 1 + length sg) bs = ds @ []"
      using d1 by (metis append_Nil2 append_eq_conv_conj drop_drop add.commute)
    have "skip_digits bs (c2 + 1 + length sg) = c2 + 1 + length sg + length ds"
      by (rule skip_digits_split [OF dr 2(5)]) simp
    moreover have "length bs = c2 + 1 + length sg + length ds"
      using lt arg_cong [OF 2(1), of length] by simp
    ultimately show ?thesis using lt e 2(2,4)
      unfolding exponent_ok_def Let_def st by (auto simp: nth_opt_def)
  qed
qed

lemma is_decimal_split:
  "is_decimal token =
     (let bs = as_bytes token; i = (if sign_at bs 0 then 1 else 0); c1 = skip_digits bs i
      in c1 \<noteq> i \<and> nth_opt bs c1 = Some 46 \<and> exponent_ok bs (skip_digits bs (c1 + 1)))"
  unfolding is_decimal_def exponent_ok_def Let_def if_bool_eq_conj by blast

text \<open>A token is a decimal exactly when its bytes are an optional sign, digits, a period, digits
  and an optional exponent with at least one digit.\<close>

lemma is_decimal_iff: "is_decimal token \<longleftrightarrow> decimal_bytes (as_bytes token)"
proof -
  define bs where "bs = as_bytes token"
  define i where "i = (if sign_at bs 0 then 1 else 0 :: nat)"
  obtain sg where sg: "sg \<in> {[], [43], [45]}" "bs = sg @ drop (length sg) bs" "i = length sg"
    using sign_at_drop [of 0 bs] unfolding drop_0 add_0 i_def One_nat_def [symmetric] by blast
  have split: "is_decimal token \<longleftrightarrow> skip_digits bs i \<noteq> i \<and> nth_opt bs (skip_digits bs i) = Some 46
      \<and> exponent_ok bs (skip_digits bs (skip_digits bs i + 1))"
    unfolding is_decimal_split Let_def bs_def [symmetric] i_def ..
  show ?thesis
    unfolding bs_def [symmetric]
  proof
    assume dec: "is_decimal token"
    have "i \<le> length bs" using sg(2,3) by (metis le_add1 length_append)
    then obtain ds r where ds: "drop i bs = ds @ r" "\<forall>d\<in>set ds. byte_is_digit d"
        "skip_digits bs i = i + length ds"
      by (rule skip_digits_obtain)
    from dec split ds(3) have ne: "ds \<noteq> []" and pt: "i + length ds < length bs" "bs ! (i + length ds) = 46"
        and ex: "exponent_ok bs (skip_digits bs (i + length ds + 1))"
      by auto
    have "drop (i + length ds) bs = r" using ds(1) by (metis add.commute append_eq_conv_conj drop_drop)
    with pt have r: "r = 46 # drop (i + length ds + 1) bs"
      by (metis Cons_nth_drop_Suc Suc_eq_plus1)
    have "i + length ds + 1 \<le> length bs" using pt by simp
    then obtain fs q where fs: "drop (i + length ds + 1) bs = fs @ q" "\<forall>d\<in>set fs. byte_is_digit d"
        "skip_digits bs (i + length ds + 1) = i + length ds + 1 + length fs"
      by (rule skip_digits_obtain)
    have q: "drop (i + length ds + 1 + length fs) bs = q"
      using fs(1) by (metis add.commute append_eq_conv_conj drop_drop)
    have "i + length ds + 1 + length fs \<le> length bs"
      using arg_cong [OF fs(1), of length] pt by simp
    with ex fs(3) q have "decimal_exponent q" using exponent_ok_iff by metis
    moreover have "bs = sg @ ds @ 46 # fs @ q"
      using sg(2,3) ds(1) r fs(1) by metis
    ultimately show "decimal_bytes bs"
      using sg(1) ne ds(2) fs(2) unfolding decimal_bytes_def by blast
  next
    assume "decimal_bytes bs"
    then obtain g ds fs ex where b: "bs = g @ ds @ 46 # fs @ ex" "g \<in> {[], [43], [45]}" "ds \<noteq> []"
        "\<forall>d\<in>set ds. byte_is_digit d" "\<forall>d\<in>set fs. byte_is_digit d" "decimal_exponent ex"
      unfolding decimal_bytes_def by blast
    from b(3) obtain d t where d: "ds = d # t" by (cases ds) auto
    have "sign_at bs 0 = (g \<noteq> [])"
      using sign_not_digit [OF b(2), of d 0 bs] b(1,4) d by simp
    then have i: "i = length g" using b(2) by (auto simp: i_def)
    have c1: "skip_digits bs i = i + length ds"
      by (rule skip_digits_split [where rest = "46 # fs @ ex"]) (use b i in \<open>auto simp: byte_is_digit_def\<close>)
    have exd: "ex = [] \<or> \<not> byte_is_digit (hd ex)"
      using b(6) by (auto simp: decimal_exponent_def byte_is_digit_def)
    have c2: "skip_digits bs (i + length ds + 1) = i + length ds + 1 + length fs"
      by (rule skip_digits_split [OF _ b(5) exd]) (simp add: b(1) i)
    have "exponent_ok bs (i + length ds + 1 + length fs)"
      by (subst exponent_ok_iff) (simp_all add: b(1,6) i)
    moreover have "nth_opt bs (i + length ds) = Some 46"
      by (simp add: b(1) i nth_append)
    ultimately show "is_decimal token" using split c1 c2 b(3) by simp
  qed
qed

end
