(* ===== verification/Exec_State.thy ===== *)
theory Exec_State
  imports Exec_Outcome Lisp_Grammar
begin

text \<open>
  One execution, \<open>crates/plugin/src/exec/state.rs\<close>: the state machine that hands the host
  one native step at a time and takes each step's result.  The source is kept as the
  text its bytes were validated to be.  Of \<open>ExecIo\<close> the value bridge is a field of the
  record; the output channel, which the scheduler and the RPC stream share, is created
  by \<open>exec_new\<close> and kept next to the execution.
\<close>

section \<open>Data\<close>

datatype phase =
    PBeginUndoGroup
  | PAwaitingBeginUndoGroup
  | PBetweenForms
  | PAwaitingEvaluateForm (pa_index: nat) (pa_line: nat) (pa_column: nat)
  | PAwaitingCommitUndoGroup
  | PEmitEvalValue
  | PAwaitingEmitEvalValue
  | PClearRetainedEvalValue
  | PAwaitingClearRetainedEvalValue
  | PCloseEmptyUndoGroup
  | PAwaitingCloseEmptyUndoGroup
  | PRollbackUndoGroup
  | PAwaitingRollbackUndoGroup
  | PTerminal
  | PDone

datatype unwind_cause = UnwindFailure exec_failure | UnwindCancelled

record exec =
  ex_mode :: exec_mode
  ex_source_name :: source_name
  ex_source :: ustr
  ex_next_scan :: scan_position
  ex_next_form_index :: nat
  ex_phase :: phase
  ex_form_handed_off :: bool
  ex_value_retained :: bool
  ex_eval_location :: "source_location option"
  ex_cancel_requested :: bool
  ex_unwind :: "unwind_cause option"
  ex_outcome :: "exec_outcome option"
  ex_bridge :: value_bridge

record native_exec_step =
  st_kind :: exec_step_kind
  st_source :: "ustr option"
  st_span :: "form_span option"
  st_retain_value :: bool

definition step_new :: "exec_step_kind \<Rightarrow> native_exec_step" where
  "step_new kind = \<lparr>st_kind = kind, st_source = None, st_span = None, st_retain_value = False\<rparr>"

definition step_form :: "ustr \<Rightarrow> form_span \<Rightarrow> bool \<Rightarrow> native_exec_step" where
  "step_form source sp retain = \<lparr>st_kind = SkEvaluateForm, st_source = Some source, st_span = Some sp,
     st_retain_value = retain\<rparr>"

text \<open>The slice \<open>&source[span.byte_start..span.byte_end]\<close>.\<close>

definition slice_bytes :: "ustr \<Rightarrow> nat \<Rightarrow> nat \<Rightarrow> ustr" where
  "slice_bytes s i j = take_bytes (j - i) (drop_bytes i s)"

definition step_source :: "native_exec_step \<Rightarrow> ustr" where
  "step_source s = (case (st_source s, st_span s) of
     (Some source, Some sp) \<Rightarrow> slice_bytes source (byte_start sp) (byte_end sp)
   | _ \<Rightarrow> [])"

section \<open>Creating an execution\<close>

definition MAX_EXECUTION_SOURCE_BYTES :: nat where
  "MAX_EXECUTION_SOURCE_BYTES = 4 * 1024 * 1024"

definition strip_bom :: "byte list \<Rightarrow> byte list" where
  "strip_bom bs = (if take 3 bs = [0xEF, 0xBB, 0xBF] then drop 3 bs else bs)"

definition new_exec_record :: "exec_mode \<Rightarrow> source_name \<Rightarrow> ustr \<Rightarrow> bool \<Rightarrow> exec" where
  "new_exec_record mode name source no_forms =
     \<lparr>ex_mode = mode, ex_source_name = name, ex_source = source,
      ex_next_scan = position (scan source), ex_next_form_index = 1,
      ex_phase = (if no_forms then PTerminal else PBeginUndoGroup),
      ex_form_handed_off = False, ex_value_retained = False, ex_eval_location = None,
      ex_cancel_requested = False, ex_unwind = None,
      ex_outcome = (if no_forms then Some OutSuccess else None), ex_bridge = bridge_default\<rparr>"

definition exec_new ::
  "exec_mode \<Rightarrow> source_name \<Rightarrow> byte list \<Rightarrow> source_validation_error + (exec \<times> channel)" where
  "exec_new mode name bytes =
     (let source = strip_bom bytes in
      if length source > MAX_EXECUTION_SOURCE_BYTES then Inl SourceTooLarge
      else (case from_utf8 source of
        None \<Rightarrow> Inl InvalidUtf8
      | Some source_text \<Rightarrow>
          if 0 \<in> set source_text then Inl NullCharacter
          else (case validate source_text of
            Inl e \<Rightarrow> Inl (ScanFailed e)
          | Inr form_count \<Rightarrow>
              if mode = EvalMode \<and> form_count \<noteq> 1 then Inl (ExpectedOneForm form_count)
              else
                (let no_forms = (form_count = 0) in
                 Inr (new_exec_record mode name source_text no_forms,
                      if no_forms then fst (sink_finish new_channel) else new_channel)))))"

definition take_outcome :: "exec \<Rightarrow> exec_outcome option \<times> exec" where
  "take_outcome e = (ex_outcome e, e\<lparr>ex_outcome := None\<rparr>)"

definition source_bytes :: "exec \<Rightarrow> nat" where
  "source_bytes e = byte_len (ex_source e)"

definition readiness_wait_pending :: "exec \<Rightarrow> bool" where
  "readiness_wait_pending e \<longleftrightarrow> \<not> ex_form_handed_off e \<and> ex_outcome e = None
     \<and> \<not> ex_cancel_requested e \<and> ex_unwind e = None"

section \<open>Output leases\<close>

definition awaiting_form :: "phase \<Rightarrow> bool" where
  "awaiting_form p \<longleftrightarrow> is_PAwaitingEvaluateForm p"

definition acquire_form_output :: "exec \<Rightarrow> value_lease option \<times> exec" where
  "acquire_form_output e =
     (if awaiting_form (ex_phase e) then
        (let (l, b) = acquire_value_output FormOutput (ex_bridge e) in (l, e\<lparr>ex_bridge := b\<rparr>))
      else (None, e))"

definition acquire_eval_value_output :: "exec \<Rightarrow> value_lease option \<times> exec" where
  "acquire_eval_value_output e =
     (if ex_phase e = PAwaitingEmitEvalValue then
        (let (l, b) = acquire_value_output EvalValueOutput (ex_bridge e) in (l, e\<lparr>ex_bridge := b\<rparr>))
      else (None, e))"

section \<open>Cancellation and expiry\<close>

definition too_late_to_cancel :: "phase \<Rightarrow> bool" where
  "too_late_to_cancel p \<longleftrightarrow> p \<in> {PAwaitingCommitUndoGroup, PEmitEvalValue, PAwaitingEmitEvalValue,
     PClearRetainedEvalValue, PAwaitingClearRetainedEvalValue, PCloseEmptyUndoGroup,
     PAwaitingCloseEmptyUndoGroup, PRollbackUndoGroup, PAwaitingRollbackUndoGroup, PTerminal, PDone}"

definition request_cancel :: "exec \<Rightarrow> bool \<times> exec" where
  "request_cancel e =
     (if ex_cancel_requested e then (True, e)
      else if ex_unwind e \<noteq> None then (False, e)
      else if too_late_to_cancel (ex_phase e) then (False, e)
      else (True, e\<lparr>ex_cancel_requested := True\<rparr>))"

definition expire_before_start :: "ustr \<Rightarrow> exec \<Rightarrow> bool \<times> exec" where
  "expire_before_start message e =
     (if ex_form_handed_off e \<or> ex_outcome e \<noteq> None \<or> ex_cancel_requested e then (False, e)
      else
        (let failure = failure_not_started message in
         case ex_phase e of
           PBeginUndoGroup \<Rightarrow> (True, e\<lparr>ex_outcome := Some (OutFailure failure), ex_phase := PTerminal\<rparr>)
         | PAwaitingBeginUndoGroup \<Rightarrow> (True, e\<lparr>ex_unwind := Some (UnwindFailure failure)\<rparr>)
         | PBetweenForms \<Rightarrow> (True, e\<lparr>ex_unwind := Some (UnwindFailure failure), ex_phase := PCloseEmptyUndoGroup\<rparr>)
         | _ \<Rightarrow> (False, e)))"

definition cancel_before_start :: "exec \<Rightarrow> bool \<times> exec" where
  "cancel_before_start e =
     (if ex_outcome e \<noteq> None \<or> ex_phase e \<noteq> PBeginUndoGroup then (False, e)
      else (True, e\<lparr>ex_cancel_requested := True, ex_outcome := Some OutCancelled, ex_phase := PTerminal\<rparr>))"

section \<open>Taking a step\<close>

definition begin_unwind :: "unwind_cause \<Rightarrow> exec \<Rightarrow> exec" where
  "begin_unwind cause e = e\<lparr>ex_unwind := Some cause,
     ex_phase := (if ex_mode e = EvalMode \<and> ex_form_handed_off e then PClearRetainedEvalValue
                  else PRollbackUndoGroup)\<rparr>"

definition scan_failure :: "exec \<Rightarrow> scan_error \<Rightarrow> exec_failure" where
  "scan_failure e err = \<lparr>xf_message = scan_error_message (err_kind err), xf_form_index = None,
     xf_location = Some (location_from_scan_error (ex_source_name e) err),
     xf_drawing_outcome = OutcomeUnknown, xf_drawing_error = None\<rparr>"

definition hand_off_form :: "exec \<Rightarrow> form_span \<Rightarrow> scanner \<Rightarrow> exec" where
  "hand_off_form e sp s = e\<lparr>ex_next_scan := position s,
     ex_next_form_index := ex_next_form_index e + 1,
     ex_phase := PAwaitingEvaluateForm (ex_next_form_index e) (span_line sp) (span_column sp),
     ex_eval_location := (if ex_mode e = EvalMode then Some (location_from_span (ex_source_name e) sp)
                          else ex_eval_location e),
     ex_form_handed_off := True,
     ex_bridge := begin_value_output FormOutput (ex_bridge e)\<rparr>"

fun phase_rank :: "phase \<Rightarrow> nat" where
  "phase_rank PBeginUndoGroup = 1"
| "phase_rank PBetweenForms = 1"
| "phase_rank _ = 0"

function take_step :: "exec \<Rightarrow> native_exec_step \<times> exec" where
  "take_step e = (case ex_phase e of
     PBeginUndoGroup \<Rightarrow>
       if ex_cancel_requested e then
         take_step (e\<lparr>ex_outcome := Some OutCancelled, ex_phase := PTerminal\<rparr>)
       else (step_new SkBeginUndoGroup, e\<lparr>ex_phase := PAwaitingBeginUndoGroup\<rparr>)
   | PBetweenForms \<Rightarrow>
       if ex_cancel_requested e then
         (if ex_form_handed_off e then take_step (begin_unwind UnwindCancelled e)
          else take_step (e\<lparr>ex_unwind := Some UnwindCancelled, ex_phase := PCloseEmptyUndoGroup\<rparr>))
       else (case resume (ex_source e) (ex_next_scan e) of
           None \<Rightarrow> take_step (begin_unwind (UnwindFailure (unknown_drawing_outcome
                      (lit ''the execution source cursor became invalid''))) e)
         | Some s \<Rightarrow>
             (case next_form s of
                (Some (Inr sp), s1) \<Rightarrow>
                   (step_form (ex_source e) sp (ex_mode e = EvalMode), hand_off_form e sp s1)
              | (Some (Inl err), s1) \<Rightarrow> take_step (begin_unwind (UnwindFailure (scan_failure e err)) e)
              | (None, s1) \<Rightarrow> (step_new SkCommitUndoGroup, e\<lparr>ex_phase := PAwaitingCommitUndoGroup\<rparr>)))
   | PEmitEvalValue \<Rightarrow>
       (step_new SkEmitEvalValue,
        e\<lparr>ex_bridge := begin_value_output EvalValueOutput (ex_bridge e), ex_phase := PAwaitingEmitEvalValue\<rparr>)
   | PClearRetainedEvalValue \<Rightarrow>
       (step_new SkClearRetainedEvalValue, e\<lparr>ex_phase := PAwaitingClearRetainedEvalValue\<rparr>)
   | PCloseEmptyUndoGroup \<Rightarrow>
       (step_new SkCloseEmptyUndoGroup, e\<lparr>ex_phase := PAwaitingCloseEmptyUndoGroup\<rparr>)
   | PRollbackUndoGroup \<Rightarrow>
       (step_new SkRollbackUndoGroup, e\<lparr>ex_phase := PAwaitingRollbackUndoGroup\<rparr>)
   | PTerminal \<Rightarrow> (step_new SkDone, e\<lparr>ex_phase := PDone\<rparr>)
   | _ \<Rightarrow> (step_new SkInvalid, e))"
  by pat_completeness auto
termination
  by (relation "measure (\<lambda>e. phase_rank (ex_phase e))") (auto simp: begin_unwind_def)

declare take_step.simps [simp del]

section \<open>Completing a step\<close>

definition eval_failure :: "exec \<Rightarrow> ustr \<Rightarrow> drawing_outcome \<Rightarrow> exec_failure" where
  "eval_failure e message out = \<lparr>xf_message = bounded_diagnostic message, xf_form_index = Some 1,
     xf_location = ex_eval_location e, xf_drawing_outcome = out, xf_drawing_error = None\<rparr>"

definition record_value_cleanup_failure :: "ustr \<Rightarrow> exec \<Rightarrow> exec" where
  "record_value_cleanup_failure cleanup e = e\<lparr>ex_unwind := Some (case ex_unwind e of
     Some (UnwindFailure f) \<Rightarrow> UnwindFailure (f\<lparr>xf_message := append_diagnostic (xf_message f) cleanup\<rparr>)
   | _ \<Rightarrow> UnwindFailure (eval_failure e cleanup OutcomeUnknown))\<rparr>"

definition form_failure :: "exec \<Rightarrow> ustr \<Rightarrow> nat \<Rightarrow> nat \<Rightarrow> nat \<Rightarrow> exec_failure" where
  "form_failure e message index line column = \<lparr>xf_message = message, xf_form_index = Some index,
     xf_location = Some (location_new (ex_source_name e) line column),
     xf_drawing_outcome = OutcomeUnknown, xf_drawing_error = None\<rparr>"

text \<open>The message of a bridge failure, with what clearing the bridge symbols reported.\<close>

definition bridge_failure_text :: "value_bridge_failure \<Rightarrow> step_result \<Rightarrow> ustr" where
  "bridge_failure_text f r = (case clear_message r of
     Some cleanup \<Rightarrow> append_diagnostic (bridge_failure_message f) cleanup
   | None \<Rightarrow> bridge_failure_message f)"

definition complete_begin :: "step_result \<Rightarrow> exec \<Rightarrow> exec" where
  "complete_begin r e =
     (if step_succeeded r then
        (if ex_unwind e \<noteq> None then e\<lparr>ex_phase := PCloseEmptyUndoGroup\<rparr>
         else if ex_cancel_requested e then
           e\<lparr>ex_unwind := Some UnwindCancelled, ex_phase := PCloseEmptyUndoGroup\<rparr>
         else e\<lparr>ex_phase := PBetweenForms\<rparr>)
      else (case ex_unwind e of
        Some (UnwindFailure f) \<Rightarrow>
          e\<lparr>ex_unwind := None,
            ex_outcome := Some (OutFailure (f\<lparr>xf_message :=
               append_diagnostic (xf_message f) (into_message r (lit ''could not begin the undo group''))\<rparr>)),
            ex_phase := PTerminal\<rparr>
      | _ \<Rightarrow>
          e\<lparr>ex_unwind := None,
            ex_outcome := Some (OutFailure (failure_not_started
               (into_message r (lit ''could not begin the undo group'')))),
            ex_phase := PTerminal\<rparr>))"

definition complete_form :: "step_result \<Rightarrow> nat \<Rightarrow> nat \<Rightarrow> nat \<Rightarrow> exec \<Rightarrow> exec" where
  "complete_form r index line column e =
     (let (bridge_failure, b) = close_value_output FormOutput (ex_bridge e);
          e1 = e\<lparr>ex_bridge := b,
                 ex_value_retained := (if ex_mode e = EvalMode \<and> step_succeeded r then True
                                       else ex_value_retained e)\<rparr>
      in if primary_failed r then
           begin_unwind (UnwindFailure (form_failure e1
             (into_message r (lit ''form evaluation failed'')) index line column)) e1
         else (case bridge_failure of
           Some f \<Rightarrow>
             begin_unwind (UnwindFailure (form_failure e1 (bridge_failure_text f r) index line column)) e1
         | None \<Rightarrow>
             if \<not> step_succeeded r then
               begin_unwind (UnwindFailure (form_failure e1
                 (into_message r (lit ''form evaluation failed'')) index line column)) e1
             else if ex_cancel_requested e1 then begin_unwind UnwindCancelled e1
             else e1\<lparr>ex_phase := PBetweenForms\<rparr>))"

definition complete_commit :: "step_result \<Rightarrow> exec \<Rightarrow> exec" where
  "complete_commit r e =
     (if step_succeeded r then
        (if ex_mode e = EvalMode \<and> ex_value_retained e then e\<lparr>ex_phase := PEmitEvalValue\<rparr>
         else if ex_mode e = EvalMode then
           e\<lparr>ex_outcome := Some (OutFailure (eval_failure e
               (lit ''the AutoLISP evaluator did not retain its result value'') Committed)),
             ex_phase := PTerminal\<rparr>
         else e\<lparr>ex_outcome := Some OutSuccess, ex_phase := PTerminal\<rparr>)
      else begin_unwind (UnwindFailure (unknown_drawing_outcome
             (into_message r (lit ''could not finish the undo group'')))) e)"

definition complete_emit :: "step_result \<Rightarrow> exec \<Rightarrow> exec" where
  "complete_emit r e =
     (let (bridge_failure, b) = close_value_output EvalValueOutput (ex_bridge e);
          e1 = e\<lparr>ex_bridge := b\<rparr>;
          failure =
            (if primary_failed r then Some (into_message r (lit ''could not emit the eval result''))
             else (case bridge_failure of
               Some f \<Rightarrow> Some (bridge_failure_text f r)
             | None \<Rightarrow>
                 if \<not> step_succeeded r then Some (into_message r (lit ''could not emit the eval result''))
                 else None));
          e2 = (case failure of
                  Some message \<Rightarrow> e1\<lparr>ex_outcome := Some (OutFailure (eval_failure e1 message Committed))\<rparr>
                | None \<Rightarrow> e1\<lparr>ex_value_retained := False, ex_outcome := Some OutSuccess\<rparr>)
      in e2\<lparr>ex_phase := PTerminal\<rparr>)"

definition complete_clear :: "step_result \<Rightarrow> exec \<Rightarrow> exec" where
  "complete_clear r e =
     (let e1 = (if step_succeeded r then e\<lparr>ex_value_retained := False\<rparr>
                else record_value_cleanup_failure
                  (into_message r (lit ''could not clear the retained AutoLISP evaluator value'')) e)
      in e1\<lparr>ex_phase := PRollbackUndoGroup\<rparr>)"

definition close_empty_outcome :: "step_result \<Rightarrow> unwind_cause \<Rightarrow> exec_outcome" where
  "close_empty_outcome r cause = (case cause of
     UnwindCancelled \<Rightarrow>
       if step_succeeded r then OutCancelled
       else OutFailure (unknown_drawing_outcome
              (into_message r (lit ''could not close the cancelled undo group'')))
   | UnwindFailure f \<Rightarrow>
       if step_succeeded r then OutFailure f
       else OutFailure (f\<lparr>xf_message := append_diagnostic (xf_message f)
                (into_message r (lit ''could not close the expired undo group'')),
              xf_drawing_outcome := OutcomeUnknown\<rparr>))"

definition rollback_outcome :: "step_result \<Rightarrow> unwind_cause \<Rightarrow> exec_outcome" where
  "rollback_outcome r cause = (case cause of
     UnwindFailure f \<Rightarrow>
       if step_succeeded r then OutFailure (f\<lparr>xf_drawing_outcome := RolledBack\<rparr>)
       else OutFailure (f\<lparr>xf_message := append_diagnostic (xf_message f)
                (into_message r (lit ''drawing unwind failed'')),
              xf_drawing_outcome := OutcomeUnknown\<rparr>)
   | UnwindCancelled \<Rightarrow>
       if step_succeeded r then OutCancelled
       else OutFailure (unknown_drawing_outcome (into_message r (lit ''drawing unwind failed''))))"

text \<open>\<open>self.unwind.take()\<close> with the outcome computed from the cause; \<open>false\<close> without a cause.\<close>

definition complete_unwound :: "(unwind_cause \<Rightarrow> exec_outcome) \<Rightarrow> exec \<Rightarrow> bool \<times> exec" where
  "complete_unwound f e = (case ex_unwind e of
     None \<Rightarrow> (False, e)
   | Some cause \<Rightarrow> (True, e\<lparr>ex_unwind := None, ex_outcome := Some (f cause), ex_phase := PTerminal\<rparr>))"

definition complete_step :: "step_result \<Rightarrow> exec \<Rightarrow> bool \<times> exec" where
  "complete_step r e = (case ex_phase e of
     PAwaitingBeginUndoGroup \<Rightarrow> (True, complete_begin r e)
   | PAwaitingEvaluateForm index line column \<Rightarrow> (True, complete_form r index line column e)
   | PAwaitingCommitUndoGroup \<Rightarrow> (True, complete_commit r e)
   | PAwaitingEmitEvalValue \<Rightarrow> (True, complete_emit r e)
   | PAwaitingClearRetainedEvalValue \<Rightarrow> (True, complete_clear r e)
   | PAwaitingCloseEmptyUndoGroup \<Rightarrow> complete_unwound (close_empty_outcome r) e
   | PAwaitingRollbackUndoGroup \<Rightarrow> complete_unwound (rollback_outcome r) e
   | _ \<Rightarrow> (False, e))"

section \<open>Ending an execution from outside\<close>

definition record_bridge_finalization_failure :: "step_result \<Rightarrow> exec \<Rightarrow> bool \<times> exec" where
  "record_bridge_finalization_failure r e =
     (let cleanup = into_message r (lit ''the execution bridge could not be finalized safely'') in
      case ex_outcome e of
        None \<Rightarrow> (False, e)
      | Some out \<Rightarrow> (True, e\<lparr>ex_outcome := Some (OutFailure (into_unknown_failure out cleanup))\<rparr>))"

definition abandon_location :: "exec \<Rightarrow> nat option \<times> source_location option" where
  "abandon_location e = (case ex_phase e of
     PAwaitingEvaluateForm index line column \<Rightarrow>
       (Some index, Some (location_new (ex_source_name e) line column))
   | PAwaitingEmitEvalValue \<Rightarrow> (Some 1, ex_eval_location e)
   | _ \<Rightarrow> (None, None))"

definition abandon :: "step_result \<Rightarrow> exec \<Rightarrow> bool \<times> exec" where
  "abandon r e =
     (let message = into_message r (lit ''execution could not continue safely'');
          b = (if awaiting_form (ex_phase e) then snd (close_value_output FormOutput (ex_bridge e))
               else if ex_phase e = PAwaitingEmitEvalValue
               then snd (close_value_output EvalValueOutput (ex_bridge e)) else ex_bridge e);
          existing = (case ex_outcome e of
              Some out \<Rightarrow> Some out
            | None \<Rightarrow> map_option (\<lambda>cause. case cause of UnwindFailure f \<Rightarrow> OutFailure f
                                                | UnwindCancelled \<Rightarrow> OutCancelled) (ex_unwind e));
          unwind = (if ex_outcome e = None then None else ex_unwind e);
          failure = (case existing of
              Some out \<Rightarrow> into_unknown_failure out message
            | None \<Rightarrow> \<lparr>xf_message = message, xf_form_index = fst (abandon_location e),
                xf_location = snd (abandon_location e), xf_drawing_outcome = OutcomeUnknown,
                xf_drawing_error = None\<rparr>)
      in (True, e\<lparr>ex_bridge := b, ex_unwind := unwind, ex_outcome := Some (OutFailure failure),
                  ex_phase := (if ex_phase e = PDone then PDone else PTerminal)\<rparr>))"

end
