(* ===== verification/Form_Source.thy ===== *)
theory Form_Source
  imports Lisp_Grammar
begin

text \<open>
  The interface between an execution and the scanner: an iteration over forms that can
  be suspended at a position and resumed there, and a count that says beforehand how
  many forms it yields.  The execution relies on nothing else of the scanner.
\<close>

locale form_source =
  fixes next_item :: "'s \<Rightarrow> ('e + 'f) option \<times> 's"
    and place :: "'s \<Rightarrow> 'p"
    and reopen :: "'t \<Rightarrow> 'p \<Rightarrow> 's option"
    and start :: "'t \<Rightarrow> 's"
    and count_forms :: "'t \<Rightarrow> 'e + nat"
  assumes reopen_place: "reopen t (place (((snd \<circ> next_item) ^^ k) (start t)))
      = Some (((snd \<circ> next_item) ^^ k) (start t))"
    and counted_form: "count_forms t = Inr n \<Longrightarrow> k < n
      \<Longrightarrow> \<exists>f. fst (next_item (((snd \<circ> next_item) ^^ k) (start t))) = Some (Inr f)"
    and counted_end: "count_forms t = Inr n
      \<Longrightarrow> fst (next_item (((snd \<circ> next_item) ^^ n) (start t))) = None"
begin

lemma reopened_form:
  assumes "count_forms t = Inr n" and "k < n"
  shows "\<exists>s f. reopen t (place (((snd \<circ> next_item) ^^ k) (start t))) = Some s
    \<and> next_item s = (Some (Inr f), ((snd \<circ> next_item) ^^ Suc k) (start t))"
  using counted_form [OF assms] reopen_place [of t k] by (auto simp: prod_eq_iff)

lemma reopened_end:
  assumes "count_forms t = Inr n"
  shows "\<exists>s s1. reopen t (place (((snd \<circ> next_item) ^^ n) (start t))) = Some s
    \<and> next_item s = (None, s1)"
  using counted_end [OF assms] reopen_place [of t n] by (auto simp: prod_eq_iff)

text \<open>A suspended iteration of a counted source is never invalid and never meets an error.\<close>

lemma reopened_no_error:
  assumes "count_forms t = Inr n" and "k \<le> n"
  shows "\<exists>s. reopen t (place (((snd \<circ> next_item) ^^ k) (start t))) = Some s
    \<and> (\<forall>e. fst (next_item s) \<noteq> Some (Inl e))
    \<and> (fst (next_item s) = None \<longleftrightarrow> k = n)"
proof (cases "k = n")
  case True
  with reopened_end [OF assms(1)] show ?thesis by auto
next
  case False
  with assms(2) have "k < n" by simp
  from reopened_form [OF assms(1) this] False show ?thesis by auto
qed

end

definition scanner_after :: "nat \<Rightarrow> ustr \<Rightarrow> scanner" where
  "scanner_after k source = ((snd \<circ> next_form) ^^ k) (scan source)"

lemma scan_all_after:
  "k \<le> length (scan_all (scan source)) \<Longrightarrow> scan_all (scanner_after k source) = drop k (scan_all (scan source))"
proof (induction k)
  case 0
  then show ?case by (simp add: scanner_after_def)
next
  case (Suc k)
  then have d: "scan_all (scanner_after k source) = drop k (scan_all (scan source))" by simp
  obtain r s1 where nf: "next_form (scanner_after k source) = (r, s1)" by fastforce
  have "drop k (scan_all (scan source)) \<noteq> []" using Suc.prems by simp
  with d nf obtain x where x: "r = Some x" and all: "scan_all (scanner_after k source) = x # scan_all s1"
    by (cases r) (auto simp: scan_all.simps [of "scanner_after k source"])
  have "scanner_after (Suc k) source = s1" using nf by (simp add: scanner_after_def)
  with all d show ?case by (metis drop_Suc list.sel(3) tl_drop)
qed

lemma next_form_after:
  assumes "validate source = Inr n"
  shows "length (scan_all (scan source)) = n"
    and "k < n \<Longrightarrow> fst (next_form (scanner_after k source)) = Some (scan_all (scan source) ! k)
      \<and> is_ok (scan_all (scan source) ! k)"
    and "fst (next_form (scanner_after n source)) = None"
proof -
  let ?all = "scan_all (scan source)"
  have none: "filter isl ?all = []" and len: "length ?all = n"
    using assms by (auto simp: validate_eq split: list.splits)
  show "length ?all = n" by (rule len)
  have step: "scan_all s = (case fst (next_form s) of None \<Rightarrow> [] | Some x \<Rightarrow> x # scan_all (snd (next_form s)))" for s
    by (subst scan_all.simps) (simp split: prod.splits option.splits)
  show "fst (next_form (scanner_after k source)) = Some (?all ! k) \<and> is_ok (?all ! k)" if "k < n"
  proof -
    have "scan_all (scanner_after k source) = ?all ! k # drop (Suc k) ?all"
      using scan_all_after [of k source] that len by (simp add: Cons_nth_drop_Suc)
    then have "fst (next_form (scanner_after k source)) = Some (?all ! k)"
      using step [of "scanner_after k source"] by (auto split: option.splits)
    moreover have "is_ok (?all ! k)" using none that len by (auto simp: filter_empty_conv)
    ultimately show ?thesis by simp
  qed
  have "scan_all (scanner_after n source) = []" using scan_all_after [of n source] len by simp
  then show "fst (next_form (scanner_after n source)) = None"
    using step [of "scanner_after n source"] by (auto split: option.splits)
qed

text \<open>The scanner of \<open>crates/lisp\<close> is such a source of forms.\<close>

interpretation forms: form_source next_form position resume scan validate
proof unfold_locales
  show "resume t (position (((snd \<circ> next_form) ^^ k) (scan t))) = Some (((snd \<circ> next_form) ^^ k) (scan t))"
    for t k by (rule resume_iterate)
  show "\<exists>f. fst (next_form (((snd \<circ> next_form) ^^ k) (scan t))) = Some (Inr f)"
    if "validate t = Inr n" "k < n" for t n k
  proof -
    have "fst (next_form (scanner_after k t)) = Some (scan_all (scan t) ! k)"
        and "is_ok (scan_all (scan t) ! k)"
      using next_form_after(2) [OF that] by simp_all
    then show ?thesis unfolding scanner_after_def by (metis sum.collapse(2))
  qed
  show "fst (next_form (((snd \<circ> next_form) ^^ n) (scan t))) = None" if "validate t = Inr n" for t n
    using next_form_after(3) [OF that] by (simp add: scanner_after_def)
qed

end
