(* ===== verification/Exec_Invariant.thy ===== *)
theory Exec_Invariant
  imports Exec_State Form_Source
begin

text \<open>
  The executions that can arise, with the log of completed native steps, and the
  invariant that ties an execution's phase to that log: what the host has done so far
  decides the phase, and with it what the execution may report.
\<close>

section \<open>Reachable executions\<close>

definition awaited_kind :: "phase \<Rightarrow> exec_step_kind" where
  "awaited_kind p = (case p of
     PAwaitingBeginUndoGroup \<Rightarrow> SkBeginUndoGroup
   | PAwaitingEvaluateForm _ _ _ \<Rightarrow> SkEvaluateForm
   | PAwaitingCommitUndoGroup \<Rightarrow> SkCommitUndoGroup
   | PAwaitingEmitEvalValue \<Rightarrow> SkEmitEvalValue
   | PAwaitingClearRetainedEvalValue \<Rightarrow> SkClearRetainedEvalValue
   | PAwaitingCloseEmptyUndoGroup \<Rightarrow> SkCloseEmptyUndoGroup
   | PAwaitingRollbackUndoGroup \<Rightarrow> SkRollbackUndoGroup
   | _ \<Rightarrow> SkInvalid)"

definition awaiting :: "phase \<Rightarrow> bool" where
  "awaiting p \<longleftrightarrow> awaited_kind p \<noteq> SkInvalid"

type_synonym step_log = "(exec_step_kind \<times> bool) list"

text \<open>The host takes and completes steps; the scheduler cancels, expires and abandons; the host's
  output ports claim and return leases: in any order and any number.\<close>

inductive exec_reach :: "exec_mode \<Rightarrow> source_name \<Rightarrow> byte list \<Rightarrow> exec \<Rightarrow> step_log \<Rightarrow> bool"
  for mode name bytes where
  er_new: "exec_new mode name bytes = Inr (e, ch) \<Longrightarrow> exec_reach mode name bytes e []"
| er_take: "exec_reach mode name bytes e log \<Longrightarrow> exec_reach mode name bytes (snd (take_step e)) log"
| er_complete: "exec_reach mode name bytes e log \<Longrightarrow> complete_step r e = (True, e1)
    \<Longrightarrow> exec_reach mode name bytes e1 (log @ [(awaited_kind (ex_phase e), step_succeeded r)])"
| er_cancel: "exec_reach mode name bytes e log \<Longrightarrow> exec_reach mode name bytes (snd (request_cancel e)) log"
| er_expire: "exec_reach mode name bytes e log \<Longrightarrow> exec_reach mode name bytes (snd (expire_before_start m e)) log"
| er_cancel_before: "exec_reach mode name bytes e log
    \<Longrightarrow> exec_reach mode name bytes (snd (cancel_before_start e)) log"
| er_form_output: "exec_reach mode name bytes e log
    \<Longrightarrow> exec_reach mode name bytes (snd (acquire_form_output e)) log"
| er_eval_output: "exec_reach mode name bytes e log
    \<Longrightarrow> exec_reach mode name bytes (snd (acquire_eval_value_output e)) log"
| er_release: "exec_reach mode name bytes e log
    \<Longrightarrow> exec_reach mode name bytes (e\<lparr>ex_bridge := release_value_output g k f (ex_bridge e)\<rparr>) log"
| er_abandon: "exec_reach mode name bytes e log \<Longrightarrow> exec_reach mode name bytes (snd (abandon r e)) log"
| er_finalize: "exec_reach mode name bytes e log
    \<Longrightarrow> exec_reach mode name bytes (snd (record_bridge_finalization_failure r e)) log"

section \<open>The invariant\<close>

text \<open>The log after the undo group was opened and \<open>k\<close> forms succeeded.\<close>

definition opened :: "nat \<Rightarrow> step_log" where
  "opened k = (SkBeginUndoGroup, True) # replicate k (SkEvaluateForm, True)"

text \<open>The logs that lead to a rollback once \<open>k\<close> of the \<open>n\<close> forms have been handed out: the last form
  was evaluated (and failed, or the execution was cancelled), or the commit failed.\<close>

definition unwinding :: "nat \<Rightarrow> nat \<Rightarrow> step_log \<Rightarrow> bool" where
  "unwinding n k log \<longleftrightarrow> 0 < k
     \<and> ((\<exists>b. log = opened (k - 1) @ [(SkEvaluateForm, b)])
        \<or> k = n \<and> log = opened n @ [(SkCommitUndoGroup, False)])"

definition cleared :: "exec_mode \<Rightarrow> nat \<Rightarrow> nat \<Rightarrow> step_log \<Rightarrow> bool" where
  "cleared mode n k log \<longleftrightarrow>
     (if mode = EvalMode then \<exists>l b. log = l @ [(SkClearRetainedEvalValue, b)] \<and> unwinding n k l
      else unwinding n k log)"

definition never_started :: "unwind_cause option \<Rightarrow> bool" where
  "never_started u \<longleftrightarrow> (\<forall>f. u = Some (UnwindFailure f) \<longrightarrow> xf_drawing_outcome f = NotStarted)"

text \<open>What a reported outcome says about the log; an outcome that leaves the state of the drawing open
  claims nothing.\<close>

definition outcome_justified :: "exec_mode \<Rightarrow> nat \<Rightarrow> nat \<Rightarrow> bool \<Rightarrow> exec_outcome \<Rightarrow> step_log \<Rightarrow> bool" where
  "outcome_justified mode n k cancelled out log = (case out of
     OutSuccess \<Rightarrow> \<not> cancelled \<and> k = n \<and>
       (if n = 0 then log = []
        else if mode = EvalMode then log = opened n @ [(SkCommitUndoGroup, True), (SkEmitEvalValue, True)]
        else log = opened n @ [(SkCommitUndoGroup, True)])
   | OutCancelled \<Rightarrow> cancelled \<and>
       (k = 0 \<and> (log = [] \<or> log = opened 0 @ [(SkCloseEmptyUndoGroup, True)])
        \<or> (\<exists>l. cleared mode n k l \<and> log = l @ [(SkRollbackUndoGroup, True)]))
   | OutFailure f \<Rightarrow>
       (case xf_drawing_outcome f of
          NotStarted \<Rightarrow> k = 0 \<and> (log = [] \<or> log = [(SkBeginUndoGroup, False)]
            \<or> log = opened 0 @ [(SkCloseEmptyUndoGroup, True)])
        | RolledBack \<Rightarrow> \<exists>l. cleared mode n k l \<and> log = l @ [(SkRollbackUndoGroup, True)]
        | Committed \<Rightarrow> \<not> cancelled \<and> k = n \<and> 0 < n \<and> mode = EvalMode
            \<and> (log = opened n @ [(SkCommitUndoGroup, True)]
               \<or> (\<exists>b. log = opened n @ [(SkCommitUndoGroup, True), (SkEmitEvalValue, b)]))
        | OutcomeUnknown \<Rightarrow> True))"

definition phase_ok :: "nat \<Rightarrow> nat \<Rightarrow> exec \<Rightarrow> step_log \<Rightarrow> bool" where
  "phase_ok n k e log = (case ex_phase e of
     PBeginUndoGroup \<Rightarrow> log = [] \<and> k = 0 \<and> ex_unwind e = None \<and> 0 < n
   | PAwaitingBeginUndoGroup \<Rightarrow> log = [] \<and> k = 0 \<and> never_started (ex_unwind e)
       \<and> ex_unwind e \<noteq> Some UnwindCancelled \<and> (ex_unwind e \<noteq> None \<longrightarrow> \<not> ex_cancel_requested e) \<and> 0 < n
   | PBetweenForms \<Rightarrow> log = opened k \<and> ex_unwind e = None \<and> 0 < n
   | PAwaitingEvaluateForm index line column \<Rightarrow> 0 < k \<and> index = k \<and> log = opened (k - 1) \<and> ex_unwind e = None
   | PAwaitingCommitUndoGroup \<Rightarrow> 0 < n \<and> k = n \<and> log = opened n \<and> ex_unwind e = None \<and> \<not> ex_cancel_requested e
   | PEmitEvalValue \<Rightarrow> ex_mode e = EvalMode \<and> 0 < n \<and> k = n \<and> log = opened n @ [(SkCommitUndoGroup, True)]
       \<and> ex_unwind e = None \<and> \<not> ex_cancel_requested e
   | PAwaitingEmitEvalValue \<Rightarrow> ex_mode e = EvalMode \<and> 0 < n \<and> k = n \<and> log = opened n @ [(SkCommitUndoGroup, True)]
       \<and> ex_unwind e = None \<and> \<not> ex_cancel_requested e
   | PClearRetainedEvalValue \<Rightarrow> ex_mode e = EvalMode \<and> unwinding n k log \<and> ex_unwind e \<noteq> None
   | PAwaitingClearRetainedEvalValue \<Rightarrow> ex_mode e = EvalMode \<and> unwinding n k log \<and> ex_unwind e \<noteq> None
   | PCloseEmptyUndoGroup \<Rightarrow> k = 0 \<and> log = opened 0 \<and> ex_unwind e \<noteq> None \<and> never_started (ex_unwind e)
   | PAwaitingCloseEmptyUndoGroup \<Rightarrow> k = 0 \<and> log = opened 0 \<and> ex_unwind e \<noteq> None \<and> never_started (ex_unwind e)
   | PRollbackUndoGroup \<Rightarrow> cleared (ex_mode e) n k log \<and> ex_unwind e \<noteq> None
   | PAwaitingRollbackUndoGroup \<Rightarrow> cleared (ex_mode e) n k log \<and> ex_unwind e \<noteq> None
   | PTerminal \<Rightarrow> (\<exists>out. ex_outcome e = Some out \<and> outcome_justified (ex_mode e) n k (ex_cancel_requested e) out log)
   | PDone \<Rightarrow> (\<exists>out. ex_outcome e = Some out \<and> outcome_justified (ex_mode e) n k (ex_cancel_requested e) out log))"

definition over :: "phase \<Rightarrow> bool" where
  "over p \<longleftrightarrow> p = PTerminal \<or> p = PDone"

definition window_kind :: "phase \<Rightarrow> value_output_kind option" where
  "window_kind p = (case p of PAwaitingEvaluateForm _ _ _ \<Rightarrow> Some FormOutput
     | PAwaitingEmitEvalValue \<Rightarrow> Some EvalValueOutput | _ \<Rightarrow> None)"

definition exec_inv :: "nat \<Rightarrow> nat \<Rightarrow> exec \<Rightarrow> step_log \<Rightarrow> bool" where
  "exec_inv n k e log \<longleftrightarrow>
     validate (ex_source e) = Inr n \<and> k \<le> n
     \<and> ex_next_scan e = position (scanner_after k (ex_source e))
     \<and> ex_next_form_index e = k + 1 \<and> ex_form_handed_off e = (0 < k)
     \<and> (ex_mode e = EvalMode \<longrightarrow> n = 1)
     \<and> (\<not> over (ex_phase e) \<longrightarrow> ex_outcome e = None)
     \<and> (ex_unwind e = Some UnwindCancelled \<longrightarrow> ex_cancel_requested e)
     \<and> vb_open (ex_bridge e) = window_kind (ex_phase e)
     \<and> phase_ok n k e log"

text \<open>In the phases before the last form, scanning goes on where it stopped.\<close>

lemma exec_inv_scan:
  assumes "exec_inv n k e log"
  shows "\<exists>s. resume (ex_source e) (ex_next_scan e) = Some s
    \<and> (\<forall>err. fst (next_form s) \<noteq> Some (Inl err)) \<and> (fst (next_form s) = None \<longleftrightarrow> k = n)
    \<and> snd (next_form s) = scanner_after (Suc k) (ex_source e)
    \<and> s = scanner_after k (ex_source e)"
proof -
  have v: "validate (ex_source e) = Inr n" "k \<le> n"
      and p: "ex_next_scan e = position (scanner_after k (ex_source e))"
    using assms by (auto simp: exec_inv_def)
  from forms.reopened_no_error [OF v] forms.reopen_place [of "ex_source e" k] p show ?thesis
    by (simp add: scanner_after_def)
qed

lemma exec_inv_new:
  assumes "exec_new mode name bytes = Inr (e, ch)"
  shows "\<exists>n. exec_inv n 0 e [] \<and> ex_mode e = mode \<and> ex_source_name e = name"
proof -
  from assms obtain t n where v: "validate t = Inr n" "mode = EvalMode \<longrightarrow> n = 1"
      and e: "e = new_exec_record mode name t (n = 0)"
    by (auto simp: exec_new_def Let_def split: if_splits option.splits sum.splits)
  then have "exec_inv n 0 e []"
    by (auto simp: exec_inv_def new_exec_record_def scanner_after_def phase_ok_def bridge_default_def
        over_def window_kind_def outcome_justified_def)
  with e show ?thesis by (auto simp: new_exec_record_def)
qed

lemma begin_unwind_inv:
  assumes "exec_inv n k e log" and "\<not> over (ex_phase e)" and "window_kind (ex_phase e) = None"
    and "unwinding n k log1" and "c = UnwindCancelled \<longrightarrow> ex_cancel_requested e"
  shows "exec_inv n k (begin_unwind c e) log1"
proof -
  have "0 < k" using assms(4) by (simp add: unwinding_def)
  with assms show ?thesis
    by (auto simp: exec_inv_def begin_unwind_def phase_ok_def over_def window_kind_def cleared_def)
qed

lemma opened_Suc: "opened (Suc k) = opened k @ [(SkEvaluateForm, True)]"
  by (simp add: opened_def replicate_append_same)

lemma unwinding_opened: "0 < k \<Longrightarrow> unwinding n k (opened k)"
  using opened_Suc [of "k - 1"] by (auto simp: unwinding_def)

lemma take_step_inv: "exec_inv n k e log \<Longrightarrow> \<exists>k1. exec_inv n k1 (snd (take_step e)) log \<and> k \<le> k1"
proof (induction e arbitrary: k rule: take_step.induct)
  case (1 e)
  note inv = 1(6)
  show ?case
  proof (cases "ex_phase e")
    case PBeginUndoGroup
    show ?thesis
    proof (cases "ex_cancel_requested e")
      case True
      have "exec_inv n k (e\<lparr>ex_outcome := Some OutCancelled, ex_phase := PTerminal\<rparr>) log"
        using inv PBeginUndoGroup True
        by (auto simp: exec_inv_def phase_ok_def over_def window_kind_def outcome_justified_def)
      from 1(1) [OF PBeginUndoGroup True this] PBeginUndoGroup True show ?thesis
        by (subst take_step.simps) simp
    next
      case False
      with inv PBeginUndoGroup show ?thesis
        by (subst take_step.simps)
          (auto simp: exec_inv_def phase_ok_def over_def window_kind_def never_started_def)
    qed
  next
    case PBetweenForms
    have log: "log = opened k" and nn: "0 < n" using inv PBetweenForms by (auto simp: exec_inv_def phase_ok_def)
    show ?thesis
    proof (cases "ex_cancel_requested e")
      case cancelled: True
      show ?thesis
      proof (cases "ex_form_handed_off e")
        case True
        then have "0 < k" using inv by (simp add: exec_inv_def)
        then have "exec_inv n k (begin_unwind UnwindCancelled e) log"
          using inv PBetweenForms cancelled log unwinding_opened
          by (intro begin_unwind_inv [OF inv]) (auto simp: over_def window_kind_def)
        from 1(2) [OF PBetweenForms cancelled True this] PBetweenForms cancelled True show ?thesis
          by (subst take_step.simps) simp
      next
        case False
        have "exec_inv n k (e\<lparr>ex_unwind := Some UnwindCancelled, ex_phase := PCloseEmptyUndoGroup\<rparr>) log"
          using inv PBetweenForms cancelled False
          by (auto simp: exec_inv_def phase_ok_def over_def window_kind_def never_started_def)
        from 1(3) [OF PBetweenForms cancelled False this] PBetweenForms cancelled False show ?thesis
          by (subst take_step.simps) simp
      qed
    next
      case running: False
      from exec_inv_scan [OF inv] obtain s where s: "resume (ex_source e) (ex_next_scan e) = Some s"
          "\<forall>err. fst (next_form s) \<noteq> Some (Inl err)" "fst (next_form s) = None \<longleftrightarrow> k = n"
          "snd (next_form s) = scanner_after (Suc k) (ex_source e)" by metis
      obtain x s1 where nf: "next_form s = (x, s1)" by fastforce
      show ?thesis
      proof (cases x)
        case None
        with s nf have "k = n" by simp
        with inv PBetweenForms running s nf None log nn show ?thesis
          by (subst take_step.simps) (auto simp: exec_inv_def phase_ok_def over_def window_kind_def)
      next
        case (Some y)
        with s(2) nf obtain sp where y: "y = Inr sp" by (cases y) auto
        have "k < n" using s(3) nf Some inv by (auto simp: exec_inv_def)
        have "exec_inv n (Suc k) (hand_off_form e sp s1) log"
          using inv PBetweenForms s(4) nf \<open>k < n\<close> log
          by (simp add: exec_inv_def hand_off_form_def phase_ok_def over_def window_kind_def)
        with PBetweenForms running s(1) nf Some y show ?thesis
          by (subst take_step.simps) (auto intro!: exI [of _ "Suc k"])
      qed
    qed
  qed (use inv in \<open>intro exI [of _ k], subst take_step.simps,
        simp add: exec_inv_def phase_ok_def over_def window_kind_def\<close>)+
qed

lemmas inv_defs = exec_inv_def phase_ok_def over_def window_kind_def

lemma closes_window: "vb_open (snd (close_value_output kind b)) = None"
  by simp

lemma complete_form_inv:
  assumes inv: "exec_inv n k e log" and ph: "ex_phase e = PAwaitingEvaluateForm i l c"
  shows "exec_inv n k (complete_form r i l c e) (log @ [(SkEvaluateForm, step_succeeded r)])"
proof -
  obtain bf b where cl: "close_value_output FormOutput (ex_bridge e) = (bf, b)" by fastforce
  then have b: "vb_open b = None" using closes_window [of FormOutput "ex_bridge e"] by simp
  define e1 where "e1 = e\<lparr>ex_bridge := b, ex_value_retained :=
    (if ex_mode e = EvalMode \<and> step_succeeded r then True else ex_value_retained e)\<rparr>"
  have k: "0 < k" "log = opened (k - 1)" using inv ph by (auto simp: inv_defs)
  have log1: "unwinding n k (log @ [(SkEvaluateForm, step_succeeded r)])"
    using k by (auto simp: unwinding_def)
  have "exec_inv n k (e1\<lparr>ex_phase := PBetweenForms\<rparr>) (opened k)"
    using inv ph b k by (auto simp: inv_defs e1_def)
  then have go: "exec_inv n k (e1\<lparr>ex_phase := PBetweenForms\<rparr>) (log @ [(SkEvaluateForm, True)])"
    using k opened_Suc [of "k - 1"] by simp
  have unw: "exec_inv n k (begin_unwind cause e1) (log @ [(SkEvaluateForm, step_succeeded r)])"
    if "cause = UnwindCancelled \<longrightarrow> ex_cancel_requested e1" for cause
  proof -
    have "exec_inv n k (begin_unwind cause (e1\<lparr>ex_phase := PBetweenForms\<rparr>))
        (log @ [(SkEvaluateForm, step_succeeded r)])"
      using that by (intro begin_unwind_inv [OF go _ _ log1]) (auto simp: over_def window_kind_def)
    moreover have "begin_unwind cause (e1\<lparr>ex_phase := PBetweenForms\<rparr>) = begin_unwind cause e1"
      by (simp add: begin_unwind_def)
    ultimately show ?thesis by simp
  qed
  have "complete_form r i l c e =
     (if primary_failed r then
        begin_unwind (UnwindFailure (form_failure e1 (into_message r (lit ''form evaluation failed'')) i l c)) e1
      else (case bf of
        Some f \<Rightarrow> begin_unwind (UnwindFailure (form_failure e1 (bridge_failure_text f r) i l c)) e1
      | None \<Rightarrow>
          if \<not> step_succeeded r then
            begin_unwind (UnwindFailure (form_failure e1 (into_message r (lit ''form evaluation failed'')) i l c)) e1
          else if ex_cancel_requested e1 then begin_unwind UnwindCancelled e1
          else e1\<lparr>ex_phase := PBetweenForms\<rparr>))"
    unfolding complete_form_def cl Let_def prod.case e1_def by (rule refl)
  with unw go show ?thesis by (auto split: option.splits)
qed

lemma complete_commit_inv:
  assumes inv: "exec_inv n k e log" and ph: "ex_phase e = PAwaitingCommitUndoGroup"
  shows "exec_inv n k (complete_commit r e) (log @ [(SkCommitUndoGroup, step_succeeded r)])"
proof (cases "step_succeeded r")
  case True
  with inv ph show ?thesis
    by (auto simp: complete_commit_def inv_defs outcome_justified_def eval_failure_def
        exec_mode.exhaust [of "ex_mode e"])
next
  case False
  have "unwinding n k (log @ [(SkCommitUndoGroup, False)])"
    using inv ph by (auto simp: inv_defs unwinding_def)
  with False ph begin_unwind_inv [OF inv] show ?thesis
    by (simp add: complete_commit_def over_def window_kind_def)
qed

lemma complete_emit_inv:
  assumes inv: "exec_inv n k e log" and ph: "ex_phase e = PAwaitingEmitEvalValue"
  shows "exec_inv n k (complete_emit r e) (log @ [(SkEmitEvalValue, step_succeeded r)])"
proof -
  obtain bf b where cl: "close_value_output EvalValueOutput (ex_bridge e) = (bf, b)" by fastforce
  then have b: "vb_open b = None" using closes_window [of EvalValueOutput "ex_bridge e"] by simp
  show ?thesis
    using inv ph cl b
    by (auto simp: complete_emit_def Let_def inv_defs outcome_justified_def eval_failure_def
        split: option.splits if_splits)
qed

lemma complete_begin_inv:
  assumes inv: "exec_inv n k e log" and ph: "ex_phase e = PAwaitingBeginUndoGroup"
  shows "exec_inv n k (complete_begin r e) (log @ [(SkBeginUndoGroup, step_succeeded r)])"
proof -
  have facts: "log = []" "k = 0" "0 < n" "never_started (ex_unwind e)" "ex_unwind e \<noteq> Some UnwindCancelled"
    using inv ph by (auto simp: inv_defs)
  consider (ok) "step_succeeded r" | (fail) "\<not> step_succeeded r" "ex_unwind e = None"
    | (expired) f where "\<not> step_succeeded r" "ex_unwind e = Some (UnwindFailure f)"
    using facts(5) by (cases "ex_unwind e"; cases "the (ex_unwind e)") auto
  then show ?thesis
  proof cases
    case ok
    with inv ph facts show ?thesis
      by (auto simp: complete_begin_def inv_defs opened_def never_started_def)
  next
    case fail
    with inv ph facts show ?thesis
      by (auto simp: complete_begin_def inv_defs outcome_justified_def failure_not_started_def)
  next
    case expired
    with facts have "xf_drawing_outcome f = NotStarted" by (simp add: never_started_def)
    with inv ph facts expired show ?thesis
      by (auto simp: complete_begin_def inv_defs outcome_justified_def)
  qed
qed

lemma complete_clear_inv:
  assumes inv: "exec_inv n k e log" and ph: "ex_phase e = PAwaitingClearRetainedEvalValue"
  shows "exec_inv n k (complete_clear r e) (log @ [(SkClearRetainedEvalValue, step_succeeded r)])"
  using assms
  by (auto simp: complete_clear_def Let_def inv_defs cleared_def record_value_cleanup_failure_def
      split: option.splits unwind_cause.splits)

lemma complete_close_empty_inv:
  assumes inv: "exec_inv n k e log" and ph: "ex_phase e = PAwaitingCloseEmptyUndoGroup"
    and cause: "ex_unwind e = Some cause"
  shows "exec_inv n k (e\<lparr>ex_unwind := None, ex_outcome := Some (close_empty_outcome r cause),
      ex_phase := PTerminal\<rparr>) (log @ [(SkCloseEmptyUndoGroup, step_succeeded r)])"
  using assms
  by (cases cause)
    (auto simp: inv_defs close_empty_outcome_def outcome_justified_def unknown_drawing_outcome_def
      never_started_def)

lemma complete_rollback_inv:
  assumes inv: "exec_inv n k e log" and ph: "ex_phase e = PAwaitingRollbackUndoGroup"
    and cause: "ex_unwind e = Some cause"
  shows "exec_inv n k (e\<lparr>ex_unwind := None, ex_outcome := Some (rollback_outcome r cause),
      ex_phase := PTerminal\<rparr>) (log @ [(SkRollbackUndoGroup, step_succeeded r)])"
  using assms
  by (cases cause)
    (auto simp: inv_defs rollback_outcome_def outcome_justified_def unknown_drawing_outcome_def)

lemma complete_step_inv:
  assumes "exec_inv n k e log" and "complete_step r e = (True, e1)"
  shows "exec_inv n k e1 (log @ [(awaited_kind (ex_phase e), step_succeeded r)])"
  using assms
  by (cases "ex_phase e")
    (auto simp: complete_step_def complete_unwound_def awaited_kind_def split: option.splits
      intro: complete_begin_inv complete_form_inv complete_commit_inv complete_emit_inv
        complete_clear_inv complete_close_empty_inv complete_rollback_inv)

text \<open>A completion is refused only when nothing is awaited.\<close>

lemma complete_step_accepted:
  assumes "exec_inv n k e log"
  shows "fst (complete_step r e) \<longleftrightarrow> awaiting (ex_phase e)"
    and "\<not> awaiting (ex_phase e) \<Longrightarrow> complete_step r e = (False, e)"
  using assms
  by (cases "ex_phase e";
      auto simp: complete_step_def complete_unwound_def awaiting_def awaited_kind_def inv_defs
        split: option.splits)+

section \<open>Cancelling, expiring, abandoning\<close>

lemma request_cancel_inv: "exec_inv n k e log \<Longrightarrow> exec_inv n k (snd (request_cancel e)) log"
  by (cases "ex_phase e") (auto simp: request_cancel_def too_late_to_cancel_def inv_defs)

lemma expire_cases:
  obtains (no) "snd (expire_before_start m e) = e"
    | (start) "ex_phase e = PBeginUndoGroup" "\<not> ex_form_handed_off e"
        "snd (expire_before_start m e)
         = e\<lparr>ex_outcome := Some (OutFailure (failure_not_started m)), ex_phase := PTerminal\<rparr>"
    | (wait) "ex_phase e = PAwaitingBeginUndoGroup" "\<not> ex_cancel_requested e"
        "snd (expire_before_start m e) = e\<lparr>ex_unwind := Some (UnwindFailure (failure_not_started m))\<rparr>"
    | (between) "ex_phase e = PBetweenForms" "\<not> ex_form_handed_off e"
        "snd (expire_before_start m e) = e\<lparr>ex_unwind := Some (UnwindFailure (failure_not_started m)),
           ex_phase := PCloseEmptyUndoGroup\<rparr>"
proof (cases "ex_form_handed_off e \<or> ex_outcome e \<noteq> None \<or> ex_cancel_requested e")
  case True
  then have "snd (expire_before_start m e) = e" by (simp add: expire_before_start_def)
  then show thesis by (rule no)
next
  case False
  note on = this
  show thesis
  proof (cases "ex_phase e")
    case PBeginUndoGroup
    show thesis
      by (rule start) (use on PBeginUndoGroup in \<open>simp_all add: expire_before_start_def Let_def\<close>)
  next
    case PAwaitingBeginUndoGroup
    show thesis
      by (rule wait) (use on PAwaitingBeginUndoGroup in \<open>simp_all add: expire_before_start_def Let_def\<close>)
  next
    case PBetweenForms
    show thesis
      by (rule between) (use on PBetweenForms in \<open>simp_all add: expire_before_start_def Let_def\<close>)
  qed (rule no, use on in \<open>simp add: expire_before_start_def Let_def\<close>)+
qed

lemma expire_before_start_inv:
  assumes inv: "exec_inv n k e log"
  shows "exec_inv n k (snd (expire_before_start m e)) log"
proof (rule expire_cases [of m e])
  assume "ex_phase e = PBeginUndoGroup" "snd (expire_before_start m e)
         = e\<lparr>ex_outcome := Some (OutFailure (failure_not_started m)), ex_phase := PTerminal\<rparr>"
  with inv show ?thesis by (auto simp: inv_defs outcome_justified_def failure_not_started_def)
next
  assume "ex_phase e = PAwaitingBeginUndoGroup" "\<not> ex_cancel_requested e"
    "snd (expire_before_start m e) = e\<lparr>ex_unwind := Some (UnwindFailure (failure_not_started m))\<rparr>"
  with inv show ?thesis by (auto simp: inv_defs never_started_def failure_not_started_def)
next
  assume "ex_phase e = PBetweenForms" "\<not> ex_form_handed_off e"
    "snd (expire_before_start m e) = e\<lparr>ex_unwind := Some (UnwindFailure (failure_not_started m)),
           ex_phase := PCloseEmptyUndoGroup\<rparr>"
  with inv show ?thesis by (auto simp: inv_defs never_started_def failure_not_started_def)
qed (use inv in simp)

lemma cancel_before_start_inv:
  assumes inv: "exec_inv n k e log"
  shows "exec_inv n k (snd (cancel_before_start e)) log"
proof (cases "ex_outcome e \<noteq> None \<or> ex_phase e \<noteq> PBeginUndoGroup")
  case True
  then have "snd (cancel_before_start e) = e" by (auto simp: cancel_before_start_def)
  with inv show ?thesis by simp
next
  case False
  with inv show ?thesis by (auto simp: cancel_before_start_def inv_defs outcome_justified_def)
qed

lemma acquire_frame [simp]: "vb_open (snd (acquire_value_output kind b)) = vb_open b"
  by (simp add: acquire_value_output_def)

lemma exec_inv_bridge:
  "exec_inv n k e log \<Longrightarrow> vb_open b = vb_open (ex_bridge e) \<Longrightarrow> exec_inv n k (e\<lparr>ex_bridge := b\<rparr>) log"
  by (cases "ex_phase e") (auto simp: inv_defs)

lemma acquire_form_output_bridge:
  "snd (acquire_form_output e) = e \<or>
   snd (acquire_form_output e) = e\<lparr>ex_bridge := snd (acquire_value_output FormOutput (ex_bridge e))\<rparr>"
  by (simp add: acquire_form_output_def split_beta)

lemma acquire_eval_output_bridge:
  "snd (acquire_eval_value_output e) = e \<or>
   snd (acquire_eval_value_output e) = e\<lparr>ex_bridge := snd (acquire_value_output EvalValueOutput (ex_bridge e))\<rparr>"
  by (simp add: acquire_eval_value_output_def split_beta)

lemma abandon_result:
  "ex_outcome (snd (abandon r e)) = Some (OutFailure f) \<Longrightarrow> xf_drawing_outcome f = OutcomeUnknown"
  by (auto simp: abandon_def Let_def split: option.splits)

lemma abandon_inv: "exec_inv n k e log \<Longrightarrow> exec_inv n k (snd (abandon r e)) log"
  by (cases "ex_phase e")
    (auto simp: abandon_def Let_def inv_defs outcome_justified_def awaiting_form_def
      split: option.splits)

lemma finalize_inv:
  "exec_inv n k e log \<Longrightarrow> exec_inv n k (snd (record_bridge_finalization_failure r e)) log"
  by (cases "ex_phase e")
    (auto simp: record_bridge_finalization_failure_def Let_def inv_defs outcome_justified_def
      split: option.splits)

lemma begin_unwind_frame [simp]:
  "ex_mode (begin_unwind c e) = ex_mode e" "ex_source (begin_unwind c e) = ex_source e"
  by (simp_all add: begin_unwind_def)

lemma take_step_mode: "ex_mode (snd (take_step e)) = ex_mode e \<and> ex_source (snd (take_step e)) = ex_source e"
proof (induction e rule: take_step.induct)
  case (1 e)
  show ?case
  proof (cases "ex_phase e")
    case PBeginUndoGroup
    with 1(1) show ?thesis by (subst (1 2) take_step.simps) simp
  next
    case PBetweenForms
    note ih = 1(2-5) [OF PBetweenForms]
    show ?thesis
    proof (cases "ex_cancel_requested e")
      case True
      with ih(1,2) PBetweenForms show ?thesis by (subst (1 2) take_step.simps) simp
    next
      case False
      show ?thesis
      proof (cases "resume (ex_source e) (ex_next_scan e)")
        case None
        with ih(3) False PBetweenForms show ?thesis by (subst (1 2) take_step.simps) simp
      next
        case (Some s)
        obtain x s1 where nf: "next_form s = (x, s1)" by fastforce
        consider "x = None" | err where "x = Some (Inl err)" | sp where "x = Some (Inr sp)"
          by (cases x) (auto elim: sum.exhaust)
        then show ?thesis
          using ih(4) [OF False Some nf [symmetric]] False PBetweenForms Some nf
          by cases (subst (1 2) take_step.simps; simp add: hand_off_form_def)+
      qed
    qed
  qed (subst (1 2) take_step.simps; simp)+
qed

definition same_input :: "exec \<Rightarrow> exec \<Rightarrow> bool" where
  "same_input e1 e \<longleftrightarrow> ex_mode e1 = ex_mode e \<and> ex_source e1 = ex_source e"

lemma complete_parts_same_input:
  "same_input (complete_begin r e) e" "same_input (complete_commit r e) e" "same_input (complete_clear r e) e"
  "same_input (complete_form r i l c e) e" "same_input (complete_emit r e) e"
proof -
  show "same_input (complete_begin r e) e"
    by (simp add: complete_begin_def same_input_def split: option.splits unwind_cause.splits)
  show "same_input (complete_commit r e) e"
    by (simp add: complete_commit_def same_input_def)
  show "same_input (complete_clear r e) e"
    by (simp add: complete_clear_def same_input_def record_value_cleanup_failure_def Let_def)
  obtain bf b where cl: "close_value_output FormOutput (ex_bridge e) = (bf, b)" by fastforce
  show "same_input (complete_form r i l c e) e"
    by (simp add: complete_form_def cl same_input_def Let_def split: option.splits)
  obtain bf b where cl: "close_value_output EvalValueOutput (ex_bridge e) = (bf, b)" by fastforce
  show "same_input (complete_emit r e) e"
    by (simp add: complete_emit_def cl same_input_def Let_def split: option.splits)
qed

lemma complete_step_same_input: "same_input (snd (complete_step r e)) e"
  by (cases "ex_phase e")
    (simp_all add: complete_step_def complete_parts_same_input,
     simp_all add: complete_unwound_def same_input_def split: option.splits)

lemma bridge_update_same_input: "same_input (e\<lparr>ex_bridge := b\<rparr>) e"
  by (simp add: same_input_def)

lemma others_same_input:
  "same_input (snd (request_cancel e)) e" "same_input (snd (cancel_before_start e)) e"
  "same_input (snd (expire_before_start m e)) e" "same_input (snd (abandon r e)) e"
  "same_input (snd (record_bridge_finalization_failure r e)) e"
  "same_input (snd (acquire_form_output e)) e" "same_input (snd (acquire_eval_value_output e)) e"
proof -
  show "same_input (snd (expire_before_start m e)) e"
    by (rule expire_cases [of m e]) (simp_all add: same_input_def)
qed (simp_all add: request_cancel_def cancel_before_start_def abandon_def Let_def same_input_def
    record_bridge_finalization_failure_def acquire_form_output_def acquire_eval_value_output_def
    split_beta split: option.splits)

text \<open>Every reachable execution satisfies the invariant, for the number of its source's forms.\<close>

lemma exec_reach_inv:
  "exec_reach mode name bytes e log \<Longrightarrow> \<exists>n k. exec_inv n k e log \<and> ex_mode e = mode"
proof (induction rule: exec_reach.induct)
  case (er_new e ch)
  then show ?case using exec_inv_new by blast
next
  case (er_take e log)
  then show ?case using take_step_inv take_step_mode by metis
next
  case (er_complete e log r e1)
  then show ?case
    using complete_step_inv complete_step_same_input [of r e] unfolding same_input_def by (metis snd_conv)
next
  case (er_cancel e log)
  then show ?case using request_cancel_inv others_same_input(1) unfolding same_input_def by metis
next
  case (er_expire e log m)
  then show ?case using expire_before_start_inv others_same_input(3) unfolding same_input_def by metis
next
  case (er_cancel_before e log)
  then show ?case using cancel_before_start_inv others_same_input(2) unfolding same_input_def by metis
next
  case (er_form_output e log)
  then obtain n k where inv: "exec_inv n k e log" "ex_mode e = mode" by blast
  from acquire_form_output_bridge [of e] have "exec_inv n k (snd (acquire_form_output e)) log"
    using inv exec_inv_bridge by (metis acquire_frame)
  then show ?case using inv others_same_input(6) unfolding same_input_def by metis
next
  case (er_eval_output e log)
  then obtain n k where inv: "exec_inv n k e log" "ex_mode e = mode" by blast
  from acquire_eval_output_bridge [of e] have "exec_inv n k (snd (acquire_eval_value_output e)) log"
    using inv exec_inv_bridge by (metis acquire_frame)
  then show ?case using inv others_same_input(7) unfolding same_input_def by metis
next
  case (er_release e log g k f)
  then obtain n j where "exec_inv n j e log" "ex_mode e = mode" by blast
  moreover from this(1) have "exec_inv n j (e\<lparr>ex_bridge := release_value_output g k f (ex_bridge e)\<rparr>) log"
    by (rule exec_inv_bridge) (simp add: release_frame)
  ultimately show ?case by auto
next
  case (er_abandon e log r)
  then show ?case using abandon_inv others_same_input(4) unfolding same_input_def by metis
next
  case (er_finalize e log r)
  then show ?case using finalize_inv others_same_input(5) unfolding same_input_def by metis
qed

end
