(* ===== verification/Exec_Properties.thy ===== *)
theory Exec_Properties
  imports Exec_Invariant
begin

text \<open>
  What an execution promises: to the user, that its outcome is true of the drawing and
  that an accepted cancellation holds; to the host, that the steps follow the undo
  group's protocol, that the forms come in the order of the source, and that a host
  which answers every step reaches the end.
\<close>

section \<open>Admission\<close>

text \<open>An execution is created only for a source within the size limit that is UTF-8 (after an
  optional byte order mark), has no NUL, and is a sequence of forms of the grammar, exactly
  one for an evaluation; an empty one is already finished, successfully, and its output too.\<close>

lemma exec_admission:
  assumes "exec_new mode name bytes = Inr (e, ch)"
  shows "as_bytes (ex_source e) = strip_bom bytes \<and> length (strip_bom bytes) \<le> MAX_EXECUTION_SOURCE_BYTES
    \<and> 0 \<notin> set (ex_source e)
    \<and> (\<exists>n. validate (ex_source e) = Inr n \<and> program_text n (ex_source e)
         \<and> (mode = EvalMode \<longrightarrow> n = 1)
         \<and> (if n = 0 then ex_outcome e = Some OutSuccess \<and> ch_terminal ch = Some TFinished
            else ex_outcome e = None \<and> ex_phase e = PBeginUndoGroup \<and> ch = new_channel))"
proof -
  from assms obtain t n where v: "validate t = Inr n" "mode = EvalMode \<longrightarrow> n = 1" "0 \<notin> set t"
      and len: "length (strip_bom bytes) \<le> MAX_EXECUTION_SOURCE_BYTES"
      and u: "from_utf8 (strip_bom bytes) = Some t"
      and e: "e = new_exec_record mode name t (n = 0)"
      and ch: "ch = (if n = 0 then fst (sink_finish new_channel) else new_channel)"
    by (auto simp: exec_new_def Let_def split: if_splits option.splits sum.splits)
  have "ch_terminal (fst (sink_finish new_channel)) = Some TFinished" by code_simp
  with v len e ch validate_program [OF v(1)] from_utf8_Some [OF u] show ?thesis
    by (simp add: new_exec_record_def)
qed

lemma exec_new_example:
  "exec_new EvalMode (lit ''t'') [40, 97, 41] =
     Inr (new_exec_record EvalMode (lit ''t'') (lit ''(a)'') False, new_channel)"
  by code_simp

lemma exec_admission_witness:
  "program_text 1 (lit ''(a)'') \<and> as_bytes (lit ''(a)'') = [40, 97, 41]"
proof -
  have "strip_bom [40, 97, 41] = [40, 97, 41]" by (simp add: strip_bom_def)
  moreover have "validate (lit ''(a)'') = Inr 1" by code_simp
  ultimately show ?thesis
    using exec_admission [OF exec_new_example] by (simp add: new_exec_record_def)
qed

section \<open>The steps the host is given\<close>

lemma take_step_begin_unwind:
  "take_step (begin_unwind c e) =
     (if ex_mode e = EvalMode \<and> ex_form_handed_off e
      then (step_new SkClearRetainedEvalValue, (begin_unwind c e)\<lparr>ex_phase := PAwaitingClearRetainedEvalValue\<rparr>)
      else (step_new SkRollbackUndoGroup, (begin_unwind c e)\<lparr>ex_phase := PAwaitingRollbackUndoGroup\<rparr>))"
  by (subst take_step.simps) (simp add: begin_unwind_def)

lemma take_step_close_empty:
  "take_step (e\<lparr>ex_unwind := u, ex_phase := PCloseEmptyUndoGroup\<rparr>) =
     (step_new SkCloseEmptyUndoGroup, e\<lparr>ex_unwind := u, ex_phase := PAwaitingCloseEmptyUndoGroup\<rparr>)"
  by (subst take_step.simps) simp

lemma take_step_terminal:
  "take_step (e\<lparr>ex_outcome := out, ex_phase := PTerminal\<rparr>) = (step_new SkDone, e\<lparr>ex_outcome := out, ex_phase := PDone\<rparr>)"
  by (subst take_step.simps) simp

lemma take_step_phase:
  "ex_phase e = PClearRetainedEvalValue \<Longrightarrow> take_step e =
     (step_new SkClearRetainedEvalValue, e\<lparr>ex_phase := PAwaitingClearRetainedEvalValue\<rparr>)"
  "ex_phase e = PCloseEmptyUndoGroup \<Longrightarrow> take_step e =
     (step_new SkCloseEmptyUndoGroup, e\<lparr>ex_phase := PAwaitingCloseEmptyUndoGroup\<rparr>)"
  "ex_phase e = PRollbackUndoGroup \<Longrightarrow> take_step e =
     (step_new SkRollbackUndoGroup, e\<lparr>ex_phase := PAwaitingRollbackUndoGroup\<rparr>)"
  "ex_phase e = PTerminal \<Longrightarrow> take_step e = (step_new SkDone, e\<lparr>ex_phase := PDone\<rparr>)"
  "awaiting (ex_phase e) \<or> ex_phase e = PDone \<Longrightarrow> take_step e = (step_new SkInvalid, e)"
proof -
  assume "awaiting (ex_phase e) \<or> ex_phase e = PDone"
  then show "take_step e = (step_new SkInvalid, e)"
    by (cases "ex_phase e"; subst take_step.simps; simp add: awaiting_def awaited_kind_def)
qed (subst take_step.simps, simp)+

text \<open>What one call of \<open>take_step\<close> does.\<close>

lemma take_step_cases:
  assumes inv: "exec_inv n k e log" and t: "take_step e = (s, e1)"
  shows "(awaiting (ex_phase e) \<or> ex_phase e = PDone) \<and> st_kind s = SkInvalid \<and> e1 = e
    \<or> st_kind s = SkDone \<and> ex_phase e1 = PDone
    \<or> st_kind s = SkBeginUndoGroup \<and> ex_phase e = PBeginUndoGroup
        \<and> ex_phase e1 = PAwaitingBeginUndoGroup \<and> \<not> ex_cancel_requested e
    \<or> ex_phase e = PBetweenForms \<and> k < n \<and> \<not> ex_cancel_requested e
        \<and> (\<exists>sp s1. scan_all (scan (ex_source e)) ! k = Inr sp
            \<and> s = step_form (ex_source e) sp (ex_mode e = EvalMode) \<and> e1 = hand_off_form e sp s1)
    \<or> st_kind s = SkCommitUndoGroup \<and> ex_phase e = PBetweenForms \<and> ex_phase e1 = PAwaitingCommitUndoGroup
        \<and> \<not> ex_cancel_requested e
    \<or> st_kind s = SkEmitEvalValue \<and> ex_phase e = PEmitEvalValue \<and> ex_phase e1 = PAwaitingEmitEvalValue
        \<and> \<not> ex_cancel_requested e
    \<or> st_kind s = SkClearRetainedEvalValue \<and> ex_phase e1 = PAwaitingClearRetainedEvalValue
        \<and> (ex_phase e = PBetweenForms \<or> ex_phase e = PClearRetainedEvalValue)
    \<or> st_kind s = SkCloseEmptyUndoGroup \<and> ex_phase e1 = PAwaitingCloseEmptyUndoGroup
        \<and> (ex_phase e = PBetweenForms \<or> ex_phase e = PCloseEmptyUndoGroup)
    \<or> st_kind s = SkRollbackUndoGroup \<and> ex_phase e1 = PAwaitingRollbackUndoGroup
        \<and> (ex_phase e = PBetweenForms \<or> ex_phase e = PRollbackUndoGroup)"
proof -
  have s_def: "s = fst (take_step e)" and e1_def: "e1 = snd (take_step e)" using t by simp_all
  show ?thesis
proof (cases "ex_phase e")
  case PBetweenForms
  show ?thesis
  proof (cases "ex_cancel_requested e")
    case True
    then have "take_step e = (if ex_form_handed_off e then take_step (begin_unwind UnwindCancelled e)
        else take_step (e\<lparr>ex_unwind := Some UnwindCancelled, ex_phase := PCloseEmptyUndoGroup\<rparr>))"
      using PBetweenForms by (subst take_step.simps) simp
    with t have r: "(s, e1) = (if ex_form_handed_off e then take_step (begin_unwind UnwindCancelled e)
        else take_step (e\<lparr>ex_unwind := Some UnwindCancelled, ex_phase := PCloseEmptyUndoGroup\<rparr>))" by simp
    show ?thesis
    proof (cases "ex_form_handed_off e")
      case False
      with r PBetweenForms show ?thesis by (simp add: take_step_close_empty step_new_def)
    next
      case True
      with r PBetweenForms show ?thesis
        by (cases "ex_mode e = EvalMode") (simp_all add: take_step_begin_unwind step_new_def)
    qed
  next
    case False
    from exec_inv_scan [OF inv] obtain s2 where s2: "resume (ex_source e) (ex_next_scan e) = Some s2"
        "fst (next_form s2) = None \<longleftrightarrow> k = n" "s2 = scanner_after k (ex_source e)" by metis
    obtain x s1 where nf: "next_form s2 = (x, s1)" by fastforce
    show ?thesis
    proof (cases "k = n")
      case True
      with s2(2) nf have "x = None" by simp
      then have "take_step e = (step_new SkCommitUndoGroup, e\<lparr>ex_phase := PAwaitingCommitUndoGroup\<rparr>)"
        using PBetweenForms False s2(1) nf by (subst take_step.simps) simp
      with t have "s = step_new SkCommitUndoGroup" "e1 = e\<lparr>ex_phase := PAwaitingCommitUndoGroup\<rparr>"
        by simp_all
      with PBetweenForms False show ?thesis by (simp add: step_new_def)
    next
      case more: False
      then have "k < n" using inv by (simp add: exec_inv_def)
      have "validate (ex_source e) = Inr n" using inv by (simp add: exec_inv_def)
      from next_form_after(2) [OF this \<open>k < n\<close>] s2(3) nf
      obtain sp where sp: "x = Some (Inr sp)" "scan_all (scan (ex_source e)) ! k = Inr sp"
        by (cases "scan_all (scan (ex_source e)) ! k") auto
      then have "take_step e = (step_form (ex_source e) sp (ex_mode e = EvalMode), hand_off_form e sp s1)"
        using PBetweenForms False s2(1) nf by (subst take_step.simps) simp
      with t have "s = step_form (ex_source e) sp (ex_mode e = EvalMode)" "e1 = hand_off_form e sp s1"
        by simp_all
      with sp(2) PBetweenForms False \<open>k < n\<close> show ?thesis by blast
    qed
  qed
next
  case PBeginUndoGroup
  with t show ?thesis
    by (auto simp: take_step.simps [of e] take_step_terminal step_new_def split: if_splits)
next
  case PEmitEvalValue
  then have "take_step e = (step_new SkEmitEvalValue,
      e\<lparr>ex_bridge := begin_value_output EvalValueOutput (ex_bridge e), ex_phase := PAwaitingEmitEvalValue\<rparr>)"
    by (subst take_step.simps) simp
  with t have "s = step_new SkEmitEvalValue" "ex_phase e1 = PAwaitingEmitEvalValue" by auto
  moreover have "\<not> ex_cancel_requested e" using inv PEmitEvalValue by (simp add: inv_defs)
  ultimately show ?thesis using PEmitEvalValue by (simp add: step_new_def)
qed (unfold s_def e1_def, simp_all add: take_step_phase step_new_def awaiting_def awaited_kind_def)
qed

definition forms_done :: "step_log \<Rightarrow> nat" where
  "forms_done log = length (filter (\<lambda>(kind, _). kind = SkEvaluateForm) log)"

lemma forms_done_opened [simp]: "forms_done (opened k) = k"
  by (simp add: forms_done_def opened_def filter_replicate)

text \<open>C5. The forms are handed to the host in the order of the source, each once and whole: the step taken
  after \<open>k\<close> evaluations is the \<open>k\<close>-th form the scanner yields, its text the text of that span,
  and the host is told to keep its value exactly in an evaluation.\<close>

theorem forms_in_order:
  assumes "exec_reach mode name bytes e log" and "take_step e = (s, e1)" and "st_kind s = SkEvaluateForm"
  shows "forms_done log < length (scan_all (scan (ex_source e)))
    \<and> (\<exists>sp. scan_all (scan (ex_source e)) ! forms_done log = Inr sp
        \<and> step_source s = slice_bytes (ex_source e) (byte_start sp) (byte_end sp)
        \<and> ex_phase e1 = PAwaitingEvaluateForm (forms_done log + 1) (span_line sp) (span_column sp))
    \<and> st_retain_value s = (mode = EvalMode)"
proof -
  obtain n k where inv: "exec_inv n k e log" and mode: "ex_mode e = mode"
    using exec_reach_inv [OF assms(1)] by blast
  from take_step_cases [OF inv assms(2)] assms(3)
  obtain sp s1 where ph: "ex_phase e = PBetweenForms" "k < n"
      and sp: "scan_all (scan (ex_source e)) ! k = Inr sp"
      and s: "s = step_form (ex_source e) sp (ex_mode e = EvalMode)" "e1 = hand_off_form e sp s1"
    by (auto simp: step_new_def)
  have "log = opened k" and "ex_next_form_index e = k + 1" and "validate (ex_source e) = Inr n"
    using inv ph by (auto simp: inv_defs)
  with next_form_after(1) ph(2) sp s mode show ?thesis
    by (simp add: step_form_def step_source_def hand_off_form_def)
qed

text \<open>A running example: an evaluation of one form up to its commit.\<close>

definition ok_result :: step_result where
  "ok_result = result_success"

definition sample_exec :: "nat \<Rightarrow> exec" where
  "sample_exec i = ((\<lambda>e. snd (complete_step ok_result (snd (take_step e)))) ^^ i)
     (new_exec_record EvalMode (lit ''t'') (lit ''(a)'') False)"

lemma sample_begun: "exec_reach EvalMode (lit ''t'') [40, 97, 41] (sample_exec 1) [(SkBeginUndoGroup, True)]"
proof -
  let ?e0 = "new_exec_record EvalMode (lit ''t'') (lit ''(a)'') False"
  have "exec_reach EvalMode (lit ''t'') [40, 97, 41] (snd (take_step ?e0)) []"
    by (rule er_take [OF er_new [OF exec_new_example]])
  moreover have c: "complete_step ok_result (snd (take_step ?e0)) = (True, sample_exec 1)"
    and "awaited_kind (ex_phase (snd (take_step ?e0))) = SkBeginUndoGroup"
    and "step_succeeded ok_result"
    by code_simp+
  ultimately show ?thesis using er_complete by fastforce
qed

theorem forms_in_order_witness:
  "step_source (fst (take_step (sample_exec 1))) = lit ''(a)''"
proof -
  obtain s e1 where t: "take_step (sample_exec 1) = (s, e1)" by fastforce
  have k: "st_kind (fst (take_step (sample_exec 1))) = SkEvaluateForm" by code_simp
  have sc: "scan_all (scan (ex_source (sample_exec 1))) =
      [Inr \<lparr>byte_start = 0, byte_end = 3, span_line = 1, span_column = 1\<rparr>]" by code_simp
  have f: "forms_done [(SkBeginUndoGroup, True)] = 0" by code_simp
  have sl: "slice_bytes (ex_source (sample_exec 1)) 0 3 = lit ''(a)''" by code_simp
  from forms_in_order [OF sample_begun t] k t sc f sl show ?thesis by simp
qed

section \<open>The undo group's protocol\<close>

text \<open>The host's undo group, as its completed steps tell: no step, an open group, a group with evaluated
  forms, one in which something failed, one whose retained value was cleared, a committed one,
  and the end.\<close>

datatype group_state = GNone | GOpen | GTouched | GFailed | GCleared | GCommitted | GEnded

fun group_step :: "group_state \<Rightarrow> exec_step_kind \<times> bool \<Rightarrow> group_state option" where
  "group_step GNone (SkBeginUndoGroup, ok) = Some (if ok then GOpen else GEnded)"
| "group_step GOpen (SkEvaluateForm, ok) = Some (if ok then GTouched else GFailed)"
| "group_step GOpen (SkCloseEmptyUndoGroup, ok) = Some GEnded"
| "group_step GTouched (SkEvaluateForm, ok) = Some (if ok then GTouched else GFailed)"
| "group_step GTouched (SkCommitUndoGroup, ok) = Some (if ok then GCommitted else GFailed)"
| "group_step GTouched (SkClearRetainedEvalValue, ok) = Some GCleared"
| "group_step GTouched (SkRollbackUndoGroup, ok) = Some GEnded"
| "group_step GFailed (SkClearRetainedEvalValue, ok) = Some GCleared"
| "group_step GFailed (SkRollbackUndoGroup, ok) = Some GEnded"
| "group_step GCleared (SkRollbackUndoGroup, ok) = Some GEnded"
| "group_step GCommitted (SkEmitEvalValue, ok) = Some GEnded"
| "group_step _ _ = None"

fun group_run :: "group_state \<Rightarrow> step_log \<Rightarrow> group_state option" where
  "group_run g [] = Some g"
| "group_run g (x # xs) = (case group_step g x of None \<Rightarrow> None | Some g1 \<Rightarrow> group_run g1 xs)"

lemma group_run_append:
  "group_run g (xs @ ys) = (case group_run g xs of None \<Rightarrow> None | Some g1 \<Rightarrow> group_run g1 ys)"
  by (induction g xs rule: group_run.induct) (auto split: option.splits)

lemma group_run_opened: "group_run GNone (opened k) = Some (if k = 0 then GOpen else GTouched)"
proof (induction k)
  case 0
  then show ?case by (simp add: opened_def)
next
  case (Suc k)
  then show ?case by (simp add: opened_Suc group_run_append)
qed

lemma group_run_unwinding: "unwinding n k log \<Longrightarrow> group_run GNone log \<in> {Some GTouched, Some GFailed}"
  by (auto simp: unwinding_def group_run_append group_run_opened split: if_splits)

lemma group_run_cleared:
  "cleared mode n k log \<Longrightarrow> group_run GNone log \<in> {Some GTouched, Some GFailed, Some GCleared}"
  using group_run_unwinding by (auto simp: cleared_def group_run_append split: if_splits) fastforce+

text \<open>Where the group stands in each phase.\<close>

lemma phase_group:
  assumes inv: "exec_inv n k e log" and "\<not> over (ex_phase e)"
  shows "group_run GNone log = Some GNone \<and> ex_phase e \<in> {PBeginUndoGroup, PAwaitingBeginUndoGroup}
    \<or> group_run GNone log = Some GOpen \<and> k \<le> 1
        \<and> (ex_phase e \<in> {PBetweenForms, PCloseEmptyUndoGroup, PAwaitingCloseEmptyUndoGroup} \<or> awaiting_form (ex_phase e))
    \<or> group_run GNone log = Some GTouched
        \<and> (ex_phase e \<in> {PBetweenForms, PAwaitingCommitUndoGroup} \<or> awaiting_form (ex_phase e))
    \<or> group_run GNone log \<in> {Some GTouched, Some GFailed}
        \<and> ex_phase e \<in> {PClearRetainedEvalValue, PAwaitingClearRetainedEvalValue}
    \<or> group_run GNone log \<in> {Some GTouched, Some GFailed, Some GCleared}
        \<and> ex_phase e \<in> {PRollbackUndoGroup, PAwaitingRollbackUndoGroup}
    \<or> group_run GNone log = Some GCommitted \<and> ex_phase e \<in> {PEmitEvalValue, PAwaitingEmitEvalValue}"
  using assms group_run_unwinding [of n k log] group_run_cleared [of "ex_mode e" n k log]
  by (cases "ex_phase e")
    (auto simp: inv_defs group_run_opened awaiting_form_def group_run_append split: if_splits)

lemma group_accepts_step:
  assumes inv: "exec_inv n k e log" and "complete_step r e = (True, e1)"
  shows "group_run GNone (log @ [(awaited_kind (ex_phase e), step_succeeded r)]) \<noteq> None"
proof -
  have aw: "awaiting (ex_phase e)"
    using complete_step_accepted(1) [OF inv, of r] assms(2) by simp
  then have "\<not> over (ex_phase e)" by (auto simp: over_def awaiting_def awaited_kind_def)
  from phase_group [OF inv this] aw show ?thesis
    by (cases "ex_phase e")
      (auto simp: group_run_append awaiting_def awaited_kind_def awaiting_form_def)
qed

text \<open>C3. The completed steps follow the undo group's protocol: the group is begun first and once, forms are
  evaluated and the group committed only while it is open and nothing has failed, a retained
  value is emitted only after the commit, and the group is closed, committed or rolled back
  at most once, with nothing after it.  The next step handed out goes on with the protocol.\<close>

theorem undo_group_protocol:
  assumes "exec_reach mode name bytes e log"
  shows "group_run GNone log \<noteq> None
    \<and> (\<forall>ok. st_kind (fst (take_step e)) \<notin> {SkInvalid, SkDone}
         \<longrightarrow> group_run GNone (log @ [(st_kind (fst (take_step e)), ok)]) \<noteq> None)"
proof
  show run: "group_run GNone log \<noteq> None"
    using assms
  proof (induction rule: exec_reach.induct)
    case (er_complete e log r e1)
    then show ?case using exec_reach_inv group_accepts_step by blast
  qed simp_all
  obtain s e1 where t: "take_step e = (s, e1)" by fastforce
  obtain n k where inv: "exec_inv n k e log" using exec_reach_inv [OF assms] by blast
  have r: "exec_reach mode name bytes e1 log" using er_take [OF assms] t by simp
  then obtain n1 k1 where inv1: "exec_inv n1 k1 e1 log" using exec_reach_inv by blast
  show "\<forall>ok. st_kind (fst (take_step e)) \<notin> {SkInvalid, SkDone}
         \<longrightarrow> group_run GNone (log @ [(st_kind (fst (take_step e)), ok)]) \<noteq> None"
  proof (intro allI impI)
    fix ok
    assume k: "st_kind (fst (take_step e)) \<notin> {SkInvalid, SkDone}"
    have ak: "awaited_kind (ex_phase e1) = st_kind s"
      using take_step_cases [OF inv t] k t
      by (auto simp: awaited_kind_def step_form_def hand_off_form_def)
    let ?r = "if ok then ok_result else result_native_error 1"
    have "step_succeeded ?r = ok"
      by (simp add: ok_result_def step_succeeded_def result_success_def result_native_error_def)
    moreover have "fst (complete_step ?r e1)"
      using complete_step_accepted(1) [OF inv1] ak k t by (simp add: awaiting_def)
    then obtain e2 where "complete_step ?r e1 = (True, e2)" by (metis prod.collapse)
    from group_accepts_step [OF inv1 this] have
      "group_run GNone (log @ [(st_kind s, step_succeeded ?r)]) \<noteq> None" by (simp add: ak)
    ultimately show "group_run GNone (log @ [(st_kind (fst (take_step e)), ok)]) \<noteq> None" using t by simp
  qed
qed

theorem undo_group_protocol_witness:
  "group_run GNone [(SkBeginUndoGroup, True)] = Some GOpen
   \<and> group_run GNone ([(SkBeginUndoGroup, True)] @ [(SkEvaluateForm, False)]) \<noteq> None"
proof -
  have "st_kind (fst (take_step (sample_exec 1))) = SkEvaluateForm" by code_simp
  with undo_group_protocol [OF sample_begun] show ?thesis by auto
qed

section \<open>Outcomes\<close>

definition committed_in :: "step_log \<Rightarrow> bool" where
  "committed_in log \<longleftrightarrow> (SkCommitUndoGroup, True) \<in> set log"

definition rolled_back_in :: "step_log \<Rightarrow> bool" where
  "rolled_back_in log \<longleftrightarrow> log \<noteq> [] \<and> last log = (SkRollbackUndoGroup, True) \<and> \<not> committed_in log"

definition truthful :: "exec_outcome \<Rightarrow> exec \<Rightarrow> step_log \<Rightarrow> bool" where
  "truthful out e log = (case out of
     OutSuccess \<Rightarrow> (\<forall>x\<in>set log. snd x) \<and> forms_done log = length (scan_all (scan (ex_source e)))
       \<and> (log = [] \<or> committed_in log)
   | OutCancelled \<Rightarrow> ex_cancel_requested e \<and> \<not> committed_in log
       \<and> (\<not> ex_form_handed_off e \<or> rolled_back_in log)
   | OutFailure f \<Rightarrow>
       (case xf_drawing_outcome f of
          NotStarted \<Rightarrow> \<not> ex_form_handed_off e \<and> forms_done log = 0
        | RolledBack \<Rightarrow> rolled_back_in log
        | Committed \<Rightarrow> committed_in log
        | OutcomeUnknown \<Rightarrow> True))"

lemma opened_not_committed [simp]: "(SkCommitUndoGroup, b) \<notin> set (opened k)"
  by (simp add: opened_def)

lemma opened_all_ok [simp]: "x \<in> set (opened k) \<Longrightarrow> snd x"
  by (auto simp: opened_def)

lemma cleared_not_committed: "cleared mode n k log \<Longrightarrow> \<not> committed_in (log @ [(SkRollbackUndoGroup, b)])"
  by (auto simp: cleared_def unwinding_def committed_in_def split: if_splits)

lemma outcome_justified_truthful:
  assumes inv: "exec_inv n k e log" and "outcome_justified (ex_mode e) n k (ex_cancel_requested e) out log"
  shows "truthful out e log"
proof -
  have len: "length (scan_all (scan (ex_source e))) = n" and h: "ex_form_handed_off e = (0 < k)"
    using inv next_form_after(1) by (auto simp: exec_inv_def)
  have o0: "opened 0 = [(SkBeginUndoGroup, True)]" by (simp add: opened_def)
  have rb: "rolled_back_in log" if "cleared (ex_mode e) n k l" "log = l @ [(SkRollbackUndoGroup, True)]" for l
    using that cleared_not_committed by (simp add: rolled_back_in_def)
  show ?thesis
  proof (cases out)
    case OutSuccess
    have f: "forms_done (opened n @ xs) = n + forms_done xs" for xs
      using forms_done_opened [of n] by (simp add: forms_done_def del: forms_done_opened)
    from OutSuccess assms(2) len show ?thesis
      by (auto simp: outcome_justified_def truthful_def committed_in_def f split: if_splits)
        (simp_all add: forms_done_def)
  next
    case (OutFailure f)
    with assms(2) h o0 rb show ?thesis
      by (cases "xf_drawing_outcome f")
        (auto simp: outcome_justified_def truthful_def committed_in_def forms_done_def)
  next
    case OutCancelled
    with assms(2) h o0 rb show ?thesis
      by (auto simp: outcome_justified_def truthful_def committed_in_def rolled_back_in_def)
  qed
qed

lemma exec_inv_outcome:
  assumes "exec_inv n k e log" and "ex_outcome e = Some out"
  shows "outcome_justified (ex_mode e) n k (ex_cancel_requested e) out log"
  using assms by (cases "ex_phase e") (auto simp: inv_defs)

text \<open>C1. An outcome is true of the drawing.  Success: every step succeeded, every form of the source was
  evaluated, and the group was committed (or there was nothing to do).  Cancelled: it was asked
  for, nothing was committed, and whatever had been evaluated was rolled back.  A failure that
  says \<open>not started\<close>: no form was ever handed out.  \<open>Rolled back\<close>: the last completed step is a
  successful rollback and nothing was committed.  \<open>Committed\<close>: the commit succeeded.\<close>

theorem outcome_truthful:
  assumes "exec_reach mode name bytes e log" and "ex_outcome e = Some out"
  shows "truthful out e log"
  using exec_reach_inv [OF assms(1)] exec_inv_outcome [OF _ assms(2)] outcome_justified_truthful by blast

definition failed_result :: step_result where
  "failed_result = result_native_error 5"

lemma begin_failed_example:
  "exec_reach EvalMode (lit ''t'') [40, 97, 41]
     (snd (complete_step failed_result (snd (take_step (new_exec_record EvalMode (lit ''t'') (lit ''(a)'') False)))))
     [(SkBeginUndoGroup, False)]"
proof -
  let ?e0 = "new_exec_record EvalMode (lit ''t'') (lit ''(a)'') False"
  have "exec_reach EvalMode (lit ''t'') [40, 97, 41] (snd (take_step ?e0)) []"
    by (rule er_take [OF er_new [OF exec_new_example]])
  note reach = this
  have f: "fst (complete_step failed_result (snd (take_step ?e0)))" by code_simp
  have ak: "awaited_kind (ex_phase (snd (take_step ?e0))) = SkBeginUndoGroup" by code_simp
  have ss: "step_succeeded failed_result = False" by code_simp
  have "complete_step failed_result (snd (take_step ?e0))
      = (True, snd (complete_step failed_result (snd (take_step ?e0))))"
    using f by (metis prod.collapse)
  from er_complete [OF reach this] show ?thesis by (simp only: ak ss append_Nil)
qed

theorem outcome_truthful_witness:
  "\<not> ex_form_handed_off
     (snd (complete_step failed_result (snd (take_step (new_exec_record EvalMode (lit ''t'') (lit ''(a)'') False)))))"
proof -
  let ?e = "snd (complete_step failed_result (snd (take_step (new_exec_record EvalMode (lit ''t'') (lit ''(a)'') False))))"
  have "map_option (\<lambda>out. case out of OutFailure f \<Rightarrow> xf_drawing_outcome f | _ \<Rightarrow> OutcomeUnknown) (ex_outcome ?e)
      = Some NotStarted" by code_simp
  then obtain out where out: "ex_outcome ?e = Some out"
      "(case out of OutFailure f \<Rightarrow> xf_drawing_outcome f | _ \<Rightarrow> OutcomeUnknown) = NotStarted" by blast
  then obtain f where f: "ex_outcome ?e = Some (OutFailure f)" "xf_drawing_outcome f = NotStarted"
    by (cases out) simp_all
  from outcome_truthful [OF begin_failed_example f(1)] f(2) show ?thesis by (simp add: truthful_def)
qed

section \<open>Cancellation\<close>

lemma take_step_cancel_kept:
  assumes inv: "exec_inv n k e log"
  shows "ex_cancel_requested (snd (take_step e)) = ex_cancel_requested e"
proof -
  have "ex_cancel_requested (snd (take_step e)) = ex_cancel_requested e"
  proof (induction e rule: take_step.induct)
    case (1 e)
    have bu: "ex_cancel_requested (begin_unwind c e) = ex_cancel_requested e" for c
      by (simp add: begin_unwind_def)
    show ?case
    proof (cases "ex_phase e")
      case PBeginUndoGroup
      with 1(1) show ?thesis by (subst take_step.simps) simp
    next
      case PBetweenForms
      note ih = 1(2-5) [OF PBetweenForms]
      show ?thesis
      proof (cases "ex_cancel_requested e")
        case True
        with ih(1,2) bu PBetweenForms show ?thesis by (subst take_step.simps) simp
      next
        case False
        show ?thesis
        proof (cases "resume (ex_source e) (ex_next_scan e)")
          case None
          with ih(3) False bu PBetweenForms show ?thesis by (subst take_step.simps) simp
        next
          case (Some s)
          obtain x s1 where nf: "next_form s = (x, s1)" by fastforce
          consider "x = None" | err where "x = Some (Inl err)" | sp where "x = Some (Inr sp)"
            by (cases x) (auto elim: sum.exhaust)
          then show ?thesis
            using ih(4) [OF False Some nf [symmetric]] False PBetweenForms Some nf bu
            by cases (subst take_step.simps; simp add: hand_off_form_def)+
        qed
      qed
    qed (subst take_step.simps; simp)+
  qed
  then show ?thesis .
qed



section \<open>Steps and completions alternate\<close>

text \<open>C6. Steps and completions alternate: a result is accepted exactly while a step is awaited, and otherwise
  changes nothing; while one is awaited no further step is handed out; and a step handed out is
  the one then awaited, with the value window open that its kind needs and no other.\<close>

theorem step_handshake:
  assumes "exec_reach mode name bytes e log"
  shows "(fst (complete_step r e) \<longleftrightarrow> awaiting (ex_phase e))
    \<and> (\<not> awaiting (ex_phase e) \<longrightarrow> complete_step r e = (False, e))
    \<and> (awaiting (ex_phase e) \<longrightarrow> take_step e = (step_new SkInvalid, e))
    \<and> (st_kind (fst (take_step e)) \<notin> {SkInvalid, SkDone} \<longrightarrow>
         awaited_kind (ex_phase (snd (take_step e))) = st_kind (fst (take_step e)))
    \<and> vb_open (ex_bridge e) = (case awaited_kind (ex_phase e) of
         SkEvaluateForm \<Rightarrow> Some FormOutput | SkEmitEvalValue \<Rightarrow> Some EvalValueOutput | _ \<Rightarrow> None)"
proof -
  obtain n k where inv: "exec_inv n k e log" using exec_reach_inv [OF assms] by blast
  obtain s e1 where t: "take_step e = (s, e1)" by fastforce
  have "st_kind s \<notin> {SkInvalid, SkDone} \<longrightarrow> awaited_kind (ex_phase e1) = st_kind s"
    using take_step_cases [OF inv t]
    by (auto simp: awaited_kind_def step_form_def hand_off_form_def)
  moreover have "vb_open (ex_bridge e) = (case awaited_kind (ex_phase e) of
         SkEvaluateForm \<Rightarrow> Some FormOutput | SkEmitEvalValue \<Rightarrow> Some EvalValueOutput | _ \<Rightarrow> None)"
    using inv by (cases "ex_phase e") (simp_all add: exec_inv_def window_kind_def awaited_kind_def)
  ultimately show ?thesis
    using t complete_step_accepted [OF inv] take_step_phase(5) by auto
qed

theorem step_handshake_witness:
  "fst (complete_step ok_result (sample_exec 1)) = False"
proof -
  have "\<not> awaiting (ex_phase (sample_exec 1))" by code_simp
  with step_handshake [OF sample_begun, of ok_result] show ?thesis by simp
qed

section \<open>A host that answers reaches the end\<close>

text \<open>The host's loop: take a step, stop when it is the last, complete it with some result.\<close>

fun drive :: "(nat \<Rightarrow> step_result) \<Rightarrow> nat \<Rightarrow> exec \<Rightarrow> (exec_step_kind list \<times> exec) option" where
  "drive answer 0 e = None"
| "drive answer (Suc m) e =
     (case take_step e of (s, e1) \<Rightarrow>
        if st_kind s = SkDone then Some ([SkDone], e1)
        else (case complete_step (answer m) e1 of
                (True, e2) \<Rightarrow> map_option (\<lambda>(kinds, e3). (st_kind s # kinds, e3)) (drive answer m e2)
              | (False, _) \<Rightarrow> None))"

definition rounds_left :: "nat \<Rightarrow> nat \<Rightarrow> phase \<Rightarrow> nat" where
  "rounds_left n k p = (case p of
     PBeginUndoGroup \<Rightarrow> n + 5 | PBetweenForms \<Rightarrow> (n - k) + 4 | PClearRetainedEvalValue \<Rightarrow> 3
   | PRollbackUndoGroup \<Rightarrow> 2 | PCloseEmptyUndoGroup \<Rightarrow> 2 | PEmitEvalValue \<Rightarrow> 2 | _ \<Rightarrow> 1)"

lemma complete_step_phase:
  "awaited_kind (ex_phase e1) = SkBeginUndoGroup \<Longrightarrow>
     ex_phase (snd (complete_step r e1)) \<in> {PBetweenForms, PCloseEmptyUndoGroup, PTerminal}"
  "awaited_kind (ex_phase e1) = SkEvaluateForm \<Longrightarrow>
     ex_phase (snd (complete_step r e1)) \<in> {PBetweenForms, PClearRetainedEvalValue, PRollbackUndoGroup}"
  "awaited_kind (ex_phase e1) = SkCommitUndoGroup \<Longrightarrow>
     ex_phase (snd (complete_step r e1)) \<in> {PEmitEvalValue, PTerminal, PClearRetainedEvalValue, PRollbackUndoGroup}"
  "awaited_kind (ex_phase e1) = SkEmitEvalValue \<Longrightarrow> ex_phase (snd (complete_step r e1)) = PTerminal"
  "awaited_kind (ex_phase e1) = SkClearRetainedEvalValue \<Longrightarrow> ex_phase (snd (complete_step r e1)) = PRollbackUndoGroup"
  "awaited_kind (ex_phase e1) = SkCloseEmptyUndoGroup \<Longrightarrow> fst (complete_step r e1) \<Longrightarrow>
     ex_phase (snd (complete_step r e1)) = PTerminal"
  "awaited_kind (ex_phase e1) = SkRollbackUndoGroup \<Longrightarrow> fst (complete_step r e1) \<Longrightarrow>
     ex_phase (snd (complete_step r e1)) = PTerminal"
proof -
  obtain b f where cf: "close_value_output FormOutput (ex_bridge e1) = (f, b)" by fastforce
  show "awaited_kind (ex_phase e1) = SkBeginUndoGroup \<Longrightarrow>
     ex_phase (snd (complete_step r e1)) \<in> {PBetweenForms, PCloseEmptyUndoGroup, PTerminal}"
    by (cases "ex_phase e1")
      (simp_all add: awaited_kind_def complete_step_def complete_begin_def split: option.splits unwind_cause.splits)
  show "awaited_kind (ex_phase e1) = SkEvaluateForm \<Longrightarrow>
     ex_phase (snd (complete_step r e1)) \<in> {PBetweenForms, PClearRetainedEvalValue, PRollbackUndoGroup}"
    by (cases "ex_phase e1")
      (simp_all add: awaited_kind_def complete_step_def complete_form_def cf Let_def begin_unwind_def
        split: option.splits)
  show "awaited_kind (ex_phase e1) = SkCommitUndoGroup \<Longrightarrow>
     ex_phase (snd (complete_step r e1)) \<in> {PEmitEvalValue, PTerminal, PClearRetainedEvalValue, PRollbackUndoGroup}"
    by (cases "ex_phase e1")
      (simp_all add: awaited_kind_def complete_step_def complete_commit_def begin_unwind_def)
  show "awaited_kind (ex_phase e1) = SkEmitEvalValue \<Longrightarrow> ex_phase (snd (complete_step r e1)) = PTerminal"
    by (cases "ex_phase e1")
      (simp_all add: awaited_kind_def complete_step_def complete_emit_def Let_def split_beta)
  show "awaited_kind (ex_phase e1) = SkClearRetainedEvalValue \<Longrightarrow> ex_phase (snd (complete_step r e1)) = PRollbackUndoGroup"
    by (cases "ex_phase e1")
      (simp_all add: awaited_kind_def complete_step_def complete_clear_def Let_def)
  show "awaited_kind (ex_phase e1) = SkCloseEmptyUndoGroup \<Longrightarrow> fst (complete_step r e1) \<Longrightarrow>
     ex_phase (snd (complete_step r e1)) = PTerminal"
    by (cases "ex_phase e1")
      (auto simp: awaited_kind_def complete_step_def complete_unwound_def split: option.splits)
  show "awaited_kind (ex_phase e1) = SkRollbackUndoGroup \<Longrightarrow> fst (complete_step r e1) \<Longrightarrow>
     ex_phase (snd (complete_step r e1)) = PTerminal"
    by (cases "ex_phase e1")
      (auto simp: awaited_kind_def complete_step_def complete_unwound_def split: option.splits)
qed

definition at_rest :: "exec \<Rightarrow> bool" where
  "at_rest e \<longleftrightarrow> \<not> awaiting (ex_phase e) \<and> ex_phase e \<noteq> PDone"

lemma at_rest_iff: "at_rest e \<longleftrightarrow> ex_phase e \<in> {PBeginUndoGroup, PBetweenForms, PEmitEvalValue,
    PClearRetainedEvalValue, PCloseEmptyUndoGroup, PRollbackUndoGroup, PTerminal}"
  by (cases "ex_phase e") (simp_all add: at_rest_def awaiting_def awaited_kind_def)

lemma rounds_left_simps:
  "rounds_left n k PBeginUndoGroup = n + 5" "rounds_left n k PBetweenForms = (n - k) + 4"
  "rounds_left n k PClearRetainedEvalValue = 3" "rounds_left n k PRollbackUndoGroup = 2"
  "rounds_left n k PCloseEmptyUndoGroup = 2" "rounds_left n k PEmitEvalValue = 2"
  "rounds_left n k PTerminal = 1"
  by (simp_all add: rounds_left_def)

lemma drive_round:
  assumes inv: "exec_inv n k e log" and rest: "at_rest e" and t: "take_step e = (s, e1)"
    and "st_kind s \<noteq> SkDone"
  shows "\<exists>e2 k2 log2. complete_step r e1 = (True, e2) \<and> exec_inv n k2 e2 log2 \<and> at_rest e2
    \<and> rounds_left n k2 (ex_phase e2) < rounds_left n k (ex_phase e)"
proof -
  obtain k1 where inv1: "exec_inv n k1 e1 log" and kk: "k \<le> k1" using take_step_inv [OF inv] t by auto
  have ind: "ex_next_form_index e = k + 1" "ex_next_form_index e1 = k1 + 1" "k1 \<le> n"
    using inv inv1 by (simp_all add: exec_inv_def)
  note tc = take_step_cases [OF inv t]
  have kind: "awaited_kind (ex_phase e1) = st_kind s" "st_kind s \<notin> {SkInvalid, SkDone}"
    using tc rest assms(4)
    by (elim disjE conjE exE; simp add: at_rest_def awaited_kind_def step_form_def hand_off_form_def)+
  then have "fst (complete_step r e1)" using complete_step_accepted(1) [OF inv1] by (simp add: awaiting_def)
  then obtain e2 where c: "complete_step r e1 = (True, e2)" by (metis prod.collapse)
  note inv2 = complete_step_inv [OF inv1 c]
  note ph = complete_step_phase [of e1 r, unfolded c snd_conv fst_conv kind(1)]
  have "at_rest e2 \<and> rounds_left n k1 (ex_phase e2) < rounds_left n k (ex_phase e)"
    using tc
  proof (elim disjE)
    assume "st_kind s = SkBeginUndoGroup \<and> ex_phase e = PBeginUndoGroup
        \<and> ex_phase e1 = PAwaitingBeginUndoGroup \<and> \<not> ex_cancel_requested e"
    with ph(1) show ?thesis by (elim conjE) (fastforce simp: at_rest_iff rounds_left_simps)
  next
    assume f: "ex_phase e = PBetweenForms \<and> k < n \<and> \<not> ex_cancel_requested e
        \<and> (\<exists>sp s1. scan_all (scan (ex_source e)) ! k = Inr sp
            \<and> s = step_form (ex_source e) sp (ex_mode e = EvalMode) \<and> e1 = hand_off_form e sp s1)"
    then have "k1 = k + 1" and "st_kind s = SkEvaluateForm"
      using ind by (auto simp: hand_off_form_def step_form_def)
    with ph(2) f show ?thesis by (elim conjE) (fastforce simp: at_rest_iff rounds_left_simps)
  next
    assume "st_kind s = SkCommitUndoGroup \<and> ex_phase e = PBetweenForms
        \<and> ex_phase e1 = PAwaitingCommitUndoGroup \<and> \<not> ex_cancel_requested e"
    with ph(3) show ?thesis by (elim conjE) (fastforce simp: at_rest_iff rounds_left_simps)
  next
    assume "st_kind s = SkEmitEvalValue \<and> ex_phase e = PEmitEvalValue
        \<and> ex_phase e1 = PAwaitingEmitEvalValue \<and> \<not> ex_cancel_requested e"
    with ph(4) show ?thesis by (elim conjE) (fastforce simp: at_rest_iff rounds_left_simps)
  next
    assume "st_kind s = SkClearRetainedEvalValue \<and> ex_phase e1 = PAwaitingClearRetainedEvalValue
        \<and> (ex_phase e = PBetweenForms \<or> ex_phase e = PClearRetainedEvalValue)"
    with ph(5) show ?thesis by (elim conjE) (fastforce simp: at_rest_iff rounds_left_simps)
  next
    assume "st_kind s = SkCloseEmptyUndoGroup \<and> ex_phase e1 = PAwaitingCloseEmptyUndoGroup
        \<and> (ex_phase e = PBetweenForms \<or> ex_phase e = PCloseEmptyUndoGroup)"
    with ph(6) show ?thesis by (elim conjE) (fastforce simp: at_rest_iff rounds_left_simps)
  next
    assume "st_kind s = SkRollbackUndoGroup \<and> ex_phase e1 = PAwaitingRollbackUndoGroup
        \<and> (ex_phase e = PBetweenForms \<or> ex_phase e = PRollbackUndoGroup)"
    with ph(7) show ?thesis by (elim conjE) (fastforce simp: at_rest_iff rounds_left_simps)
  qed (use kind(2) in auto)
  with c inv2 show ?thesis by blast
qed

lemma drive_finishes:
  "exec_inv n k e log \<Longrightarrow> at_rest e \<Longrightarrow> rounds_left n k (ex_phase e) \<le> m \<Longrightarrow>
    \<exists>kinds e1 out. drive answer m e = Some (kinds, e1) \<and> ex_phase e1 = PDone \<and> ex_outcome e1 = Some out"
proof (induction m arbitrary: e k log)
  case 0
  moreover have "0 < rounds_left n k (ex_phase e)" by (simp add: rounds_left_def split: phase.splits)
  ultimately show ?case by simp
next
  case (Suc m)
  obtain s e1 where t: "take_step e = (s, e1)" by fastforce
  show ?case
  proof (cases "st_kind s = SkDone")
    case True
    obtain k1 where inv1: "exec_inv n k1 e1 log" using take_step_inv [OF Suc.prems(1)] t by auto
    have "ex_phase e1 = PDone"
      using take_step_cases [OF Suc.prems(1) t] True
      by (elim disjE conjE exE) (simp_all add: step_form_def)
    with inv1 t True show ?thesis by (auto simp: inv_defs)
  next
    case False
    from drive_round [OF Suc.prems(1,2) t False, of "answer m"]
    obtain e2 k2 log2 where c: "complete_step (answer m) e1 = (True, e2)" and inv2: "exec_inv n k2 e2 log2"
        and "at_rest e2" and "rounds_left n k2 (ex_phase e2) < rounds_left n k (ex_phase e)" by blast
    with Suc.IH [OF inv2] Suc.prems(3)
    obtain kinds e3 out where "drive answer m e2 = Some (kinds, e3)" "ex_phase e3 = PDone" "ex_outcome e3 = Some out"
      by (metis le_trans less_Suc_eq_le order_less_le_trans)
    with t False c show ?thesis by simp
  qed
qed

lemma drive_kinds: "drive answer m e = Some (kinds, e1) \<Longrightarrow> kinds \<noteq> [] \<and> last kinds = SkDone"
proof (induction m arbitrary: e kinds)
  case (Suc m)
  obtain s e2 where t: "take_step e = (s, e2)" by fastforce
  obtain b e3 where c: "complete_step (answer m) e2 = (b, e3)" by fastforce
  show ?case
  proof (cases "st_kind s = SkDone")
    case True
    with Suc.prems t show ?thesis by auto
  next
    case False
    with Suc.prems t c obtain ks where "drive answer m e3 = Some (ks, e1)" "kinds = st_kind s # ks"
      by (cases b) auto
    with Suc.IH [of e3 ks] show ?thesis by simp
  qed
qed simp

text \<open>C4. A host that keeps taking steps and answers each one, with whatever results, is told that the
  execution is done within five rounds more than the source has forms, and then there is an
  outcome.\<close>

theorem driven_execution_ends:
  assumes "exec_new mode name bytes = Inr (e, ch)"
    and "length (scan_all (scan (ex_source e))) + 5 \<le> m"
  shows "\<exists>kinds e1 out. drive answer m e = Some (kinds, e1) \<and> last kinds = SkDone
    \<and> ex_phase e1 = PDone \<and> ex_outcome e1 = Some out"
proof -
  obtain n where inv: "exec_inv n 0 e []" using exec_inv_new [OF assms(1)] by blast
  then have n: "length (scan_all (scan (ex_source e))) = n"
    using next_form_after(1) by (simp add: exec_inv_def)
  have ph: "ex_phase e = PBeginUndoGroup \<or> ex_phase e = PTerminal"
    using assms(1) by (auto simp: exec_new_def Let_def new_exec_record_def
        split: if_splits option.splits sum.splits)
  then have "at_rest e" "rounds_left n 0 (ex_phase e) \<le> m"
    using n assms(2) by (auto simp: at_rest_def awaiting_def awaited_kind_def rounds_left_def)
  from drive_finishes [OF inv this, of answer] obtain kinds e1 out
    where d: "drive answer m e = Some (kinds, e1)" "ex_phase e1 = PDone" "ex_outcome e1 = Some out" by blast
  with drive_kinds [OF d(1)] show ?thesis by blast
qed

theorem driven_execution_ends_witness:
  "\<exists>kinds e1 out. drive (\<lambda>_. failed_result) 6 (new_exec_record EvalMode (lit ''t'') (lit ''(a)'') False)
     = Some (kinds, e1) \<and> ex_outcome e1 = Some out"
proof -
  let ?e0 = "new_exec_record EvalMode (lit ''t'') (lit ''(a)'') False"
  have "length (scan_all (scan (ex_source ?e0))) = 1" by code_simp
  then have "length (scan_all (scan (ex_source ?e0))) + 5 \<le> 6" by simp
  from driven_execution_ends [OF exec_new_example this, of "\<lambda>_. failed_result"] show ?thesis by blast
qed

end
