(* ===== verification/Sched_Error.thy ===== *)
theory Sched_Error
  imports Exec_Outcome
begin

text \<open>
  The errors of the mutation scheduler, \<open>crates/plugin/src/scheduler/error.rs\<close>: their messages and
  how the RPC layer classifies them (the kind of drawing error, the drawing they name, whether they
  are internal, what they say about the drawing).
\<close>

section \<open>Data\<close>

datatype history_direction = HistoryUndo | HistoryRedo

record native_failure =
  nf_status :: int
  nf_detail :: ustr

datatype sched_error =
    SchedulerStateUnavailable
  | Stopped
  | PluginStopping
  | DrawingNotFound drawing_id
  | DrawingGone
  | DrawingGenerationChanged
  | NotActive drawing_id
  | ErrUnnamed drawing_id
  | ErrReadOnly drawing_id
  | DestinationExists drawing_id
  | SavePathUnavailable
  | Dirty drawing_id
  | NotDwg
  | OpenFailed native_failure
  | SwitchFailed native_failure
  | SaveFailed native_failure
  | CloseFailed native_failure
  | CaptureUnavailable ustr
  | CaptureInvalid ustr
  | CaptureRestoreFailed ustr
  | HistoryFailed history_direction native_failure
  | OpenNotPublished
  | SwitchNotPublished
  | SaveNotPublished
  | CloseNotPublished
  | NotQuiescent
  | UndoDisabled
  | DocumentContextFailed native_failure
  | DocumentContextRestoreFailed native_failure
  | ExecBridgeFinalizationFailed native_failure
  | ExecBridgeSymbolsClearFailed native_failure
  | ExecBridgeFailed native_failure
  | ExecNotFinished
  | ReadinessTimedOut "drawing_id option"
  | MutationCapacity
  | CaptureCapacity
  | ExecCapacity
  | NativeMutationStateUnknown
  | UnknownResult "8 word"

section \<open>Messages\<close>

definition fmt_with_context :: "native_failure \<Rightarrow> string \<Rightarrow> ustr" where
  "fmt_with_context f context1 =
     (if nf_detail f = [] then lit context1 @ lit '' (ObjectARX status '' @ dec_int (nf_status f) @ lit '')''
      else lit context1 @ lit '': '' @ nf_detail f)"

definition with_detail :: "string \<Rightarrow> ustr \<Rightarrow> ustr" where
  "with_detail message detail = (if detail = [] then lit message else lit message @ lit '': '' @ detail)"

definition about_drawing :: "drawing_id \<Rightarrow> string \<Rightarrow> ustr" where
  "about_drawing i rest = lit ''Drawing '' @ [ch_quote] @ drawing_id_display i @ [ch_quote] @ lit rest"

definition sched_error_display :: "sched_error \<Rightarrow> ustr" where
  "sched_error_display e = (case e of
     SchedulerStateUnavailable \<Rightarrow> lit ''mutation scheduler state is unavailable''
   | Stopped \<Rightarrow> lit ''the native operation stopped before completion''
   | PluginStopping \<Rightarrow> lit ''the acadctl plugin is stopping''
   | DrawingNotFound i \<Rightarrow> about_drawing i '' is not open.''
   | DrawingGone \<Rightarrow> lit ''The drawing is no longer open''
   | DrawingGenerationChanged \<Rightarrow>
       lit ''The drawing was replaced before AutoCAD could perform the operation''
   | NotActive i \<Rightarrow> about_drawing i '' is not active.''
   | ErrUnnamed i \<Rightarrow> about_drawing i '' has no file name; use --as FILE.''
   | ErrReadOnly i \<Rightarrow> about_drawing i '' is read-only.''
   | DestinationExists _ \<Rightarrow> lit ''Destination already exists; use another path or omit --as''
   | SavePathUnavailable \<Rightarrow> lit ''The save destination is unavailable''
   | Dirty i \<Rightarrow> about_drawing i '' has unsaved changes.''
   | NotDwg \<Rightarrow> lit ''Only DWG drawings can be saved''
   | OpenFailed f \<Rightarrow> fmt_with_context f ''Could not open the drawing''
   | SwitchFailed f \<Rightarrow> fmt_with_context f ''Could not switch to the drawing''
   | SaveFailed f \<Rightarrow> fmt_with_context f ''Could not save the drawing''
   | CloseFailed f \<Rightarrow> fmt_with_context f ''Could not close the drawing''
   | CaptureUnavailable detail \<Rightarrow> with_detail ''The active viewport cannot be captured'' detail
   | CaptureInvalid detail \<Rightarrow> with_detail ''AutoCAD returned an invalid viewport capture'' detail
   | CaptureRestoreFailed detail \<Rightarrow> with_detail ''AutoCAD could not restore the previous view'' detail
   | HistoryFailed direction f \<Rightarrow> fmt_with_context f (case direction of
       HistoryUndo \<Rightarrow> ''Could not undo the drawing's last history step''
     | HistoryRedo \<Rightarrow> ''Could not redo the drawing's next history step'')
   | OpenNotPublished \<Rightarrow> lit ''AutoCAD opened the drawing but did not publish its drawing state''
   | SwitchNotPublished \<Rightarrow> lit ''AutoCAD switched drawings but did not publish the active drawing''
   | SaveNotPublished \<Rightarrow> lit ''AutoCAD completed the save but still reports unsaved changes''
   | CloseNotPublished \<Rightarrow> lit ''AutoCAD completed the close but the drawing is still open''
   | NotQuiescent \<Rightarrow> lit ''The drawing is busy''
   | UndoDisabled \<Rightarrow> lit ''Undo recording is disabled for the drawing''
   | DocumentContextFailed f \<Rightarrow> fmt_with_context f ''Could not establish AutoCAD document context''
   | DocumentContextRestoreFailed f \<Rightarrow> fmt_with_context f ''Could not release AutoCAD document context safely''
   | ExecBridgeFinalizationFailed f \<Rightarrow> fmt_with_context f ''Could not release native execution state safely''
   | ExecBridgeSymbolsClearFailed f \<Rightarrow>
       fmt_with_context f ''Could not clear the reserved AutoLISP execution bridge symbols''
   | ExecBridgeFailed f \<Rightarrow> fmt_with_context f ''The AutoLISP execution bridge failed''
   | ExecNotFinished \<Rightarrow> lit ''The native execution ended without a terminal outcome''
   | ReadinessTimedOut _ \<Rightarrow> lit ''AutoCAD did not become ready within 60 seconds''
   | MutationCapacity \<Rightarrow> lit ''AutoCAD already has the maximum number of pending operations''
   | CaptureCapacity \<Rightarrow> lit ''AutoCAD already has a screenshot request in progress''
   | ExecCapacity \<Rightarrow> lit ''AutoCAD already has the maximum number or total size of execution requests''
   | NativeMutationStateUnknown \<Rightarrow>
       lit ''AutoCAD's mutation context is unknown; restart AutoCAD before issuing another mutation''
   | UnknownResult kind \<Rightarrow>
       lit ''AutoCAD returned an unknown native result ('' @ dec_nat (unat kind) @ lit '')'')"

section \<open>Classification\<close>

definition drawing_error_kind_of :: "sched_error \<Rightarrow> drawing_error_kind option" where
  "drawing_error_kind_of e = (case e of
     DrawingNotFound _ \<Rightarrow> Some DekNotOpen
   | DrawingGone \<Rightarrow> Some DekNotOpen
   | DrawingGenerationChanged \<Rightarrow> Some DekReplaced
   | NotActive _ \<Rightarrow> Some DekNotActive
   | ErrUnnamed _ \<Rightarrow> Some DekNoFileName
   | ErrReadOnly _ \<Rightarrow> Some DekReadOnly
   | DestinationExists _ \<Rightarrow> Some DekDestinationExists
   | Dirty _ \<Rightarrow> Some DekUnsavedChanges
   | NotQuiescent \<Rightarrow> Some DekBusy
   | UndoDisabled \<Rightarrow> Some DekUndoDisabled
   | ReadinessTimedOut _ \<Rightarrow> Some DekReadinessTimedOut
   | CaptureUnavailable _ \<Rightarrow> Some DekViewportUnavailable
   | CaptureInvalid _ \<Rightarrow> Some DekCaptureFailed
   | CaptureRestoreFailed _ \<Rightarrow> Some DekCaptureFailed
   | _ \<Rightarrow> None)"

definition error_drawing_id :: "sched_error \<Rightarrow> drawing_id option" where
  "error_drawing_id e = (case e of
     DrawingNotFound i \<Rightarrow> Some i
   | NotActive i \<Rightarrow> Some i
   | ErrUnnamed i \<Rightarrow> Some i
   | ErrReadOnly i \<Rightarrow> Some i
   | DestinationExists i \<Rightarrow> Some i
   | Dirty i \<Rightarrow> Some i
   | ReadinessTimedOut i \<Rightarrow> i
   | _ \<Rightarrow> None)"

definition is_internal :: "sched_error \<Rightarrow> bool" where
  "is_internal e = (case e of
     SchedulerStateUnavailable \<Rightarrow> True
   | Stopped \<Rightarrow> True
   | OpenNotPublished \<Rightarrow> True
   | SwitchNotPublished \<Rightarrow> True
   | SaveNotPublished \<Rightarrow> True
   | SavePathUnavailable \<Rightarrow> True
   | CloseNotPublished \<Rightarrow> True
   | CaptureInvalid _ \<Rightarrow> True
   | CaptureRestoreFailed _ \<Rightarrow> True
   | DocumentContextFailed _ \<Rightarrow> True
   | DocumentContextRestoreFailed _ \<Rightarrow> True
   | ExecBridgeFinalizationFailed _ \<Rightarrow> True
   | ExecBridgeSymbolsClearFailed _ \<Rightarrow> True
   | ExecBridgeFailed _ \<Rightarrow> True
   | ExecNotFinished \<Rightarrow> True
   | NativeMutationStateUnknown \<Rightarrow> True
   | _ \<Rightarrow> False)"

definition error_drawing_outcome :: "sched_error \<Rightarrow> drawing_outcome" where
  "error_drawing_outcome e = (case e of
     DocumentContextRestoreFailed _ \<Rightarrow> OutcomeUnknown
   | CaptureRestoreFailed _ \<Rightarrow> OutcomeUnknown
   | ExecBridgeFinalizationFailed _ \<Rightarrow> OutcomeUnknown
   | ExecBridgeSymbolsClearFailed _ \<Rightarrow> OutcomeUnknown
   | ExecBridgeFailed _ \<Rightarrow> OutcomeUnknown
   | ExecNotFinished \<Rightarrow> OutcomeUnknown
   | NativeMutationStateUnknown \<Rightarrow> OutcomeUnknown
   | Stopped \<Rightarrow> OutcomeUnknown
   | UnknownResult _ \<Rightarrow> OutcomeUnknown
   | _ \<Rightarrow> NotStarted)"

end
