(* ===== verification/Drawing_Paths.thy ===== *)
theory Drawing_Paths
  imports Rust_Text
begin

text \<open>
  Drawing paths and save paths, \<open>crates/rpc/src/path.rs\<close>, for the build that is not Windows: a
  path is a sequence of bytes, its separator is the slash.  The lexical operations of
  \<open>std::path\<close> that the file uses come first, over any alphabet, since the code applies them both
  to operating system paths (bytes) and to UTF-8 text.  The file system is a record of the three
  questions the code asks it.
\<close>

section \<open>Lexical paths\<close>

text \<open>\<open>Components::as_path\<close>: separators and \<open>.\<close> components at the end do not count.\<close>

function trim_path :: "'a \<Rightarrow> 'a \<Rightarrow> 'a list \<Rightarrow> 'a list" where
  "trim_path sep dot xs =
     (if xs = [] then []
      else if last xs = sep \<and> butlast xs \<noteq> [] then trim_path sep dot (butlast xs)
      else if last xs = dot \<and> butlast xs \<noteq> [] \<and> last (butlast xs) = sep then trim_path sep dot (butlast xs)
      else xs)"
  by pat_completeness auto
termination
  by (relation "measure (\<lambda>(_, _, xs). length xs)") auto

declare trim_path.simps [simp del]

definition last_part :: "'a \<Rightarrow> 'a list \<Rightarrow> 'a list" where
  "last_part sep xs = rev (takeWhile (\<lambda>c. c \<noteq> sep) (rev xs))"

definition before_last_part :: "'a \<Rightarrow> 'a list \<Rightarrow> 'a list" where
  "before_last_part sep xs = rev (dropWhile (\<lambda>c. c \<noteq> sep) (rev xs))"

definition path_file_name :: "'a \<Rightarrow> 'a \<Rightarrow> 'a list \<Rightarrow> 'a list option" where
  "path_file_name sep dot xs =
     (let part = last_part sep (trim_path sep dot xs)
      in if part \<in> {[], [dot], [dot, dot]} then None else Some part)"

definition path_parent :: "'a \<Rightarrow> 'a \<Rightarrow> 'a list \<Rightarrow> 'a list option" where
  "path_parent sep dot xs =
     (let trimmed = trim_path sep dot xs
      in if trimmed = [] \<or> trimmed = [sep] then None
         else Some (trim_path sep dot (before_last_part sep trimmed)))"

text \<open>What follows the last dot of the file name, unless the name starts with it.\<close>

definition path_extension :: "'a \<Rightarrow> 'a \<Rightarrow> 'a list \<Rightarrow> 'a list option" where
  "path_extension sep dot xs = (case path_file_name sep dot xs of
     None \<Rightarrow> None
   | Some name \<Rightarrow>
       if dot \<notin> set name \<or> before_last_part dot name = [dot] then None
       else Some (last_part dot name))"

definition path_join :: "'a \<Rightarrow> 'a list \<Rightarrow> 'a list \<Rightarrow> 'a list" where
  "path_join sep dir name =
     (if name \<noteq> [] \<and> hd name = sep then name
      else if dir \<noteq> [] \<and> last dir \<noteq> sep then dir @ [sep] @ name
      else dir @ name)"

definition path_is_absolute :: "'a \<Rightarrow> 'a list \<Rightarrow> bool" where
  "path_is_absolute sep xs \<longleftrightarrow> xs \<noteq> [] \<and> hd xs = sep"

text \<open>Operating system paths are bytes, \<open>Utf8Path\<close>s are text.\<close>

type_synonym os_path = "byte list"

abbreviation (input) b_slash :: byte where "b_slash \<equiv> 47"
abbreviation (input) b_dot :: byte where "b_dot \<equiv> 46"
abbreviation (input) ch_slash :: uchar where "ch_slash \<equiv> 47"

definition to_ascii_lowercase :: "uchar \<Rightarrow> uchar" where
  "to_ascii_lowercase c = (if 65 \<le> c \<and> c \<le> 90 then c + 32 else c)"

definition eq_ignore_ascii_case :: "ustr \<Rightarrow> ustr \<Rightarrow> bool" where
  "eq_ignore_ascii_case s t \<longleftrightarrow> map to_ascii_lowercase s = map to_ascii_lowercase t"

section \<open>The file system\<close>

datatype io_error_kind = IoNotFound | IoPermissionDenied | IoOther

record file_system =
  fs_is_file :: "os_path \<Rightarrow> bool"
  fs_canonicalize :: "os_path \<Rightarrow> io_error_kind + os_path"
  fs_symlink_metadata :: "os_path \<Rightarrow> io_error_kind + unit"

section \<open>Drawing paths\<close>

datatype drawing_path = DrawingPath (dp_text: ustr)
datatype save_path = SavePath (sp_text: ustr)

datatype drawing_path_error =
    PathNotDwg
  | PathNotFile os_path
  | PathNotAbsolute
  | PathTooLong
  | PathResolve os_path io_error_kind
  | PathInvalidUtf8 os_path
  | PathAlreadyExists os_path

definition MAX_DRAWING_PATH_BYTES :: nat where
  "MAX_DRAWING_PATH_BYTES = 32 * 1024"

definition has_dwg_extension :: "os_path \<Rightarrow> bool" where
  "has_dwg_extension path =
     (case Option.bind (path_extension b_slash b_dot path) from_utf8 of
        Some extension \<Rightarrow> eq_ignore_ascii_case extension (lit ''dwg'')
      | None \<Rightarrow> False)"

definition drawing_path_from_canonical :: "ustr \<Rightarrow> drawing_path_error + drawing_path" where
  "drawing_path_from_canonical path =
     (if \<not> path_is_absolute ch_slash path then Inl PathNotAbsolute
      else if byte_len path > MAX_DRAWING_PATH_BYTES then Inl PathTooLong
      else if \<not> has_dwg_extension (as_bytes path) then Inl PathNotDwg
      else Inr (DrawingPath path))"

definition drawing_path_canonicalize :: "file_system \<Rightarrow> os_path \<Rightarrow> drawing_path_error + drawing_path" where
  "drawing_path_canonicalize fs path =
     (if \<not> has_dwg_extension path then Inl PathNotDwg
      else if \<not> fs_is_file fs path then Inl (PathNotFile path)
      else (case fs_canonicalize fs path of
        Inl source \<Rightarrow> Inl (PathResolve path source)
      | Inr canonical \<Rightarrow> (case from_utf8 canonical of
          None \<Rightarrow> Inl (PathInvalidUtf8 canonical)
        | Some text1 \<Rightarrow> drawing_path_from_canonical text1)))"

definition drawing_path_from_str :: "file_system \<Rightarrow> ustr \<Rightarrow> drawing_path_error + drawing_path" where
  "drawing_path_from_str fs value1 =
     (if byte_len value1 > MAX_DRAWING_PATH_BYTES then Inl PathTooLong
      else if \<not> path_is_absolute ch_slash value1 then Inl PathNotAbsolute
      else drawing_path_canonicalize fs (as_bytes value1))"

definition paths_equal :: "ustr \<Rightarrow> ustr \<Rightarrow> bool" where
  "paths_equal left right \<longleftrightarrow> left = right"

definition drawing_path_matches :: "drawing_path \<Rightarrow> ustr \<Rightarrow> bool" where
  "drawing_path_matches p path = paths_equal (dp_text p) path"

section \<open>Save paths\<close>

definition save_parent :: "os_path \<Rightarrow> os_path" where
  "save_parent path = (case path_parent b_slash b_dot path of
     Some dir \<Rightarrow> if dir \<noteq> [] then dir else [b_dot]
   | None \<Rightarrow> [b_dot])"

definition save_path_normalize :: "file_system \<Rightarrow> os_path \<Rightarrow> drawing_path_error + save_path" where
  "save_path_normalize fs path =
     (if \<not> has_dwg_extension path then Inl PathNotDwg
      else
        (case fs_canonicalize fs (save_parent path) of
           Inl source \<Rightarrow> Inl (PathResolve path source)
         | Inr dir \<Rightarrow> (case path_file_name b_slash b_dot path of
             None \<Rightarrow> Inl PathNotAbsolute
           | Some file_name \<Rightarrow>
               (let joined = path_join b_slash dir file_name
                in (case from_utf8 joined of
                  None \<Rightarrow> Inl (PathInvalidUtf8 joined)
                | Some text1 \<Rightarrow>
                    if byte_len text1 > MAX_DRAWING_PATH_BYTES then Inl PathTooLong
                    else Inr (SavePath text1))))))"

definition ensure_available :: "file_system \<Rightarrow> save_path \<Rightarrow> drawing_path_error + unit" where
  "ensure_available fs p = (case fs_symlink_metadata fs (as_bytes (sp_text p)) of
     Inr _ \<Rightarrow> Inl (PathAlreadyExists (as_bytes (sp_text p)))
   | Inl IoNotFound \<Rightarrow> Inr ()
   | Inl source \<Rightarrow> Inl (PathResolve (as_bytes (sp_text p)) source))"

definition save_path_prepare :: "file_system \<Rightarrow> os_path \<Rightarrow> drawing_path_error + save_path" where
  "save_path_prepare fs path = (case save_path_normalize fs path of
     Inl e \<Rightarrow> Inl e
   | Inr p \<Rightarrow> (case ensure_available fs p of Inl e \<Rightarrow> Inl e | Inr _ \<Rightarrow> Inr p))"

definition save_path_from_str :: "file_system \<Rightarrow> ustr \<Rightarrow> drawing_path_error + save_path" where
  "save_path_from_str fs value1 =
     (if \<not> path_is_absolute ch_slash value1 then Inl PathNotAbsolute
      else save_path_normalize fs (as_bytes value1))"

section \<open>What a path that parsed is\<close>

definition drawing_path_ok :: "drawing_path \<Rightarrow> bool" where
  "drawing_path_ok p \<longleftrightarrow> path_is_absolute ch_slash (dp_text p)
     \<and> byte_len (dp_text p) \<le> MAX_DRAWING_PATH_BYTES \<and> has_dwg_extension (as_bytes (dp_text p))"

lemma drawing_path_from_canonical_ok:
  "drawing_path_from_canonical t = Inr p \<Longrightarrow> drawing_path_ok p \<and> dp_text p = t"
  by (auto simp: drawing_path_from_canonical_def drawing_path_ok_def split: if_splits)

lemma drawing_path_canonicalize_ok:
  assumes "drawing_path_canonicalize fs path = Inr p"
  shows "drawing_path_ok p \<and> has_dwg_extension path \<and> fs_is_file fs path
    \<and> fs_canonicalize fs path = Inr (as_bytes (dp_text p))"
  using assms
  by (auto simp: drawing_path_canonicalize_def split: if_splits sum.splits option.splits
      dest!: drawing_path_from_canonical_ok dest: from_utf8_Some)

lemma rev_takeWhile_eq_last_part:
  "x \<notin> set t \<Longrightarrow> last_part x (s @ x # t) = t"
proof -
  assume "x \<notin> set t"
  then have "takeWhile (\<lambda>c. c \<noteq> x) (rev t @ x # rev s) = rev t"
    by (subst takeWhile_append2) auto
  then show ?thesis by (simp add: last_part_def)
qed

lemma trim_path_plain:
  "xs \<noteq> [] \<Longrightarrow> last xs \<noteq> sep \<Longrightarrow> last xs \<noteq> dot \<Longrightarrow> trim_path sep dot xs = xs"
  by (subst trim_path.simps) simp

lemma path_file_name_join:
  assumes "sep \<notin> set name" and "name \<noteq> []" and "last name \<noteq> dot"
  shows "path_file_name sep dot (path_join sep dir name) = Some name"
proof -
  obtain c name1 where n: "name = c # name1" using assms(2) by (cases name) auto
  have "c \<noteq> sep" using assms(1) n by auto
  have l: "last name \<noteq> sep" using assms(1,2) by (metis last_in_set)
  have "last_part sep (path_join sep dir name) = name"
  proof (cases "dir = []")
    case True
    have "takeWhile (\<lambda>c. c \<noteq> sep) (rev name) = rev name"
      using assms(1) by (subst takeWhile_eq_all_conv) (metis set_rev)
    with True \<open>c \<noteq> sep\<close> n show ?thesis by (simp add: path_join_def last_part_def)
  next
    case False
    have "path_join sep dir name = (if last dir = sep then butlast dir else dir) @ sep # name"
      using False \<open>c \<noteq> sep\<close> n append_butlast_last_id [OF False] by (auto simp: path_join_def)
    then show ?thesis by (simp add: rev_takeWhile_eq_last_part assms(1))
  qed
  moreover have "trim_path sep dot (path_join sep dir name) = path_join sep dir name"
    using assms(2,3) l n \<open>c \<noteq> sep\<close> by (intro trim_path_plain) (auto simp: path_join_def)
  moreover have "name \<notin> {[], [dot], [dot, dot]}"
    using assms(2,3) by auto
  ultimately show ?thesis by (simp add: path_file_name_def Let_def)
qed

lemma last_part_avoids: "x \<notin> set (last_part x xs)"
  by (auto simp: last_part_def dest: set_takeWhileD)

lemma path_file_name_no_sep: "path_file_name sep dot xs = Some name \<Longrightarrow> sep \<notin> set name"
  using last_part_avoids [of sep] by (auto simp: path_file_name_def Let_def split: if_splits)

lemma last_part_last: "last_part x xs \<noteq> [] \<Longrightarrow> last (last_part x xs) = last xs"
  by (cases xs rule: rev_cases) (auto simp: last_part_def split: if_splits)

lemma path_extension_name:
  "path_file_name sep dot xs = path_file_name sep dot ys \<Longrightarrow> path_extension sep dot xs = path_extension sep dot ys"
  by (simp add: path_extension_def)

lemma has_dwg_extension_name:
  assumes "has_dwg_extension path"
  obtains name where "path_file_name b_slash b_dot path = Some name" "name \<noteq> []" "last name \<noteq> b_dot"
proof -
  from assms obtain ext e where x: "path_extension b_slash b_dot path = Some ext" "from_utf8 ext = Some e"
      "eq_ignore_ascii_case e (lit ''dwg'')"
    by (auto simp: has_dwg_extension_def Option.bind_eq_Some_conv split: option.splits)
  from x(3) have "e \<noteq> []" by (auto simp: eq_ignore_ascii_case_def lit_def)
  with x(2) have "ext \<noteq> []" by (auto simp: from_utf8.simps [of "[]"])
  from x(1) obtain name where n: "path_file_name b_slash b_dot path = Some name" "ext = last_part b_dot name"
    by (auto simp: path_extension_def split: option.splits if_splits)
  with \<open>ext \<noteq> []\<close> have "last name \<noteq> b_dot"
    by (metis last_in_set last_part_avoids last_part_last)
  moreover have "name \<noteq> []" using n(1) by (auto simp: path_file_name_def Let_def split: if_splits)
  ultimately show thesis using n(1) that by blast
qed

lemma save_path_normalize_ok:
  assumes "save_path_normalize fs path = Inr p"
  shows "has_dwg_extension (as_bytes (sp_text p)) \<and> byte_len (sp_text p) \<le> MAX_DRAWING_PATH_BYTES
    \<and> (\<exists>dir name. fs_canonicalize fs (save_parent path) = Inr dir \<and> path_file_name b_slash b_dot path = Some name
         \<and> as_bytes (sp_text p) = path_join b_slash dir name)"
proof -
  from assms have dwg: "has_dwg_extension path"
    by (simp add: save_path_normalize_def split: if_splits)
  then obtain name where n: "path_file_name b_slash b_dot path = Some name" "name \<noteq> []" "last name \<noteq> b_dot"
    by (rule has_dwg_extension_name)
  from assms n(1) obtain dir where d: "fs_canonicalize fs (save_parent path) = Inr dir"
      "from_utf8 (path_join b_slash dir name) = Some (sp_text p)" "byte_len (sp_text p) \<le> MAX_DRAWING_PATH_BYTES"
    by (auto simp: save_path_normalize_def Let_def split: if_splits sum.splits option.splits)
  have j: "as_bytes (sp_text p) = path_join b_slash dir name"
    using from_utf8_Some [OF d(2)] by simp
  have "path_file_name b_slash b_dot (as_bytes (sp_text p)) = path_file_name b_slash b_dot path"
    using path_file_name_join [OF path_file_name_no_sep [OF n(1)] n(2,3)] n(1) j by simp
  from path_extension_name [OF this] have "has_dwg_extension (as_bytes (sp_text p))"
    using dwg by (simp add: has_dwg_extension_def)
  with d n(1) j show ?thesis by blast
qed

lemma ensure_available_iff:
  "ensure_available fs p = Inr () \<longleftrightarrow> fs_symlink_metadata fs (as_bytes (sp_text p)) = Inl IoNotFound"
  by (auto simp: ensure_available_def split: sum.splits io_error_kind.splits)

section \<open>Properties\<close>


text \<open>A file system that resolves the path of \<open>/t/a.dwg\<close> and in which \<open>/t/b.DWG\<close> is free.\<close>

definition sample_fs :: file_system where
  "sample_fs = \<lparr>fs_is_file = (\<lambda>p. p = as_bytes (lit ''/t/a.dwg'')),
     fs_canonicalize = (\<lambda>p. Inr p),
     fs_symlink_metadata = (\<lambda>p. if p = as_bytes (lit ''/t/a.dwg'') then Inr () else Inl IoNotFound)\<rparr>"


end
