(* ===== verification/Drawing_Registry.thy ===== *)
theory Drawing_Registry
  imports Ids Drawing_Paths "HOL-Library.Multiset"
begin

text \<open>
  The registry of open drawings, \<open>crates/plugin/src/drawing.rs\<close>: the list of drawings the host
  last published, each under a four-digit ID that stays with its document.  IDs come from the
  \<open>nanoid\<close> package, which is not part of the repository: it is the parameter \<open>gen\<close>, where
  \<open>gen k\<close> is the text its \<open>k\<close>-th call returns, and the number of calls made so far is passed
  along.  The loop that draws IDs until one is free is a partial function, so that a generator
  which never offers a free one shows as \<open>None\<close>.
\<close>

section \<open>Data\<close>

record native_document_snapshot =
  nd_document_token :: "64 word"
  nd_database_token :: "64 word"
  nd_name :: ustr
  nd_named :: bool
  nd_modified :: bool
  nd_read_only :: bool
  nd_active :: bool

record native_document_key =
  dk_document_token :: "64 word"
  dk_database_token :: "64 word"

datatype drawing_name = Named ustr | Unnamed ustr

record drawing =
  dr_id :: drawing_id
  dr_name :: drawing_name
  dr_modified :: bool
  dr_read_only :: bool
  dr_active :: bool

record tracked_drawing =
  td_native_key :: native_document_key
  td_drawing :: drawing

type_synonym drawing_registry = "tracked_drawing list"

record drawing_target =
  dt_native_key :: native_document_key
  dt_drawing :: drawing

section \<open>Names\<close>

definition drawing_name_from_native :: "ustr \<Rightarrow> bool \<Rightarrow> drawing_name" where
  "drawing_name_from_native name named =
     (if named then Named name
      else
        (let cut = byte_len name - 4
         in if is_char_boundary name cut \<and> eq_ignore_ascii_case (drop_bytes cut name) (lit ''.dwg'')
            then Unnamed (take_bytes (byte_len name - 4) name)
            else Unnamed name))"

definition display_name :: "drawing \<Rightarrow> ustr" where
  "display_name d = (case dr_name d of
     Named path \<Rightarrow> (case path_file_name ch_slash ch_dot path of Some name \<Rightarrow> name | None \<Rightarrow> path)
   | Unnamed name \<Rightarrow> name)"

definition file_path :: "drawing \<Rightarrow> ustr option" where
  "file_path d = (case dr_name d of Named path \<Rightarrow> Some path | Unnamed _ \<Rightarrow> None)"

section \<open>Tracked drawings\<close>

definition tracked_from_native :: "drawing_id \<Rightarrow> native_document_snapshot \<Rightarrow> tracked_drawing" where
  "tracked_from_native i nd =
     \<lparr>td_native_key = \<lparr>dk_document_token = nd_document_token nd, dk_database_token = nd_database_token nd\<rparr>,
      td_drawing = \<lparr>dr_id = i, dr_name = drawing_name_from_native (nd_name nd) (nd_named nd),
        dr_modified = nd_modified nd, dr_read_only = nd_read_only nd, dr_active = nd_active nd\<rparr>\<rparr>"

definition tracked_target :: "tracked_drawing \<Rightarrow> drawing_target" where
  "tracked_target t = \<lparr>dt_native_key = td_native_key t, dt_drawing = td_drawing t\<rparr>"

abbreviation td_id :: "tracked_drawing \<Rightarrow> drawing_id" where
  "td_id t \<equiv> dr_id (td_drawing t)"

abbreviation td_token :: "tracked_drawing \<Rightarrow> 64 word" where
  "td_token t \<equiv> dk_document_token (td_native_key t)"

text \<open>\<open>Vec::swap_remove\<close>: the last element takes the place of the removed one.\<close>

definition swap_remove :: "nat \<Rightarrow> 'a list \<Rightarrow> 'a list" where
  "swap_remove i xs = butlast (xs[i := last xs])"

definition take_drawing_id :: "tracked_drawing list \<Rightarrow> 64 word \<Rightarrow> drawing_id option \<times> tracked_drawing list" where
  "take_drawing_id drawings token =
     (case find_index (\<lambda>t. td_token t = token) drawings of
        None \<Rightarrow> (None, drawings)
      | Some i \<Rightarrow> (Some (td_id (drawings ! i)), swap_remove i drawings))"

partial_function (option) new_drawing_id ::
  "(nat \<Rightarrow> ustr) \<Rightarrow> nat \<Rightarrow> drawing_id set \<Rightarrow> (drawing_id \<times> nat \<times> drawing_id set) option" where
  "new_drawing_id gen k reserved =
     (case drawing_id_from_str (gen k) of
        None \<Rightarrow> new_drawing_id gen (Suc k) reserved
      | Some i \<Rightarrow> if i \<notin> reserved then Some (i, Suc k, insert i reserved)
                  else new_drawing_id gen (Suc k) reserved)"

declare new_drawing_id.simps [code]

text \<open>The loop of \<open>replace_snapshot\<close> over the documents that are left, with what it carries along.\<close>

fun replace_loop ::
  "(nat \<Rightarrow> ustr) \<Rightarrow> native_document_snapshot list \<Rightarrow> nat \<Rightarrow> drawing_id set \<Rightarrow> tracked_drawing list
     \<Rightarrow> 64 word set \<Rightarrow> drawing_registry \<Rightarrow> (nat \<times> drawing_registry) option" where
  "replace_loop gen [] k reserved previous seen drawings = Some (k, drawings)"
| "replace_loop gen (nd # nds) k reserved previous seen drawings =
     (if nd_document_token nd \<in> seen then replace_loop gen nds k reserved previous seen drawings
      else (case take_drawing_id previous (nd_document_token nd) of
        (Some i, previous1) \<Rightarrow>
          replace_loop gen nds k reserved previous1 (insert (nd_document_token nd) seen)
            (drawings @ [tracked_from_native i nd])
      | (None, previous1) \<Rightarrow> (case new_drawing_id gen k reserved of
          None \<Rightarrow> None
        | Some (i, k1, reserved1) \<Rightarrow>
            replace_loop gen nds k1 reserved1 previous1 (insert (nd_document_token nd) seen)
              (drawings @ [tracked_from_native i nd]))))"

definition replace_snapshot ::
  "(nat \<Rightarrow> ustr) \<Rightarrow> nat \<Rightarrow> native_document_snapshot list \<Rightarrow> drawing_registry \<Rightarrow> (nat \<times> drawing_registry) option" where
  "replace_snapshot gen k native_documents drawings =
     replace_loop gen native_documents k (set (map td_id drawings)) drawings {} []"

definition new_registry :: drawing_registry where
  "new_registry = []"

definition registry_list :: "drawing_registry \<Rightarrow> drawing list" where
  "registry_list drawings = map td_drawing drawings"

definition find_by_id :: "drawing_registry \<Rightarrow> drawing_id \<Rightarrow> drawing_target option" where
  "find_by_id drawings i = map_option tracked_target (find (\<lambda>t. td_id t = i) drawings)"

definition find_by_path :: "drawing_registry \<Rightarrow> drawing_path \<Rightarrow> drawing_target option" where
  "find_by_path drawings path = map_option tracked_target
     (find (\<lambda>t. case file_path (td_drawing t) of Some p \<Rightarrow> drawing_path_matches path p | None \<Rightarrow> False) drawings)"

section \<open>The invariant\<close>

definition registry_ok :: "drawing_registry \<Rightarrow> bool" where
  "registry_ok drawings \<longleftrightarrow> distinct (map td_id drawings) \<and> distinct (map td_token drawings)
     \<and> (\<forall>t\<in>set drawings. did_get (td_id t) \<noteq> 0)"

text \<open>The documents of a snapshot that count: the first of each document token.\<close>

fun first_documents :: "64 word set \<Rightarrow> native_document_snapshot list \<Rightarrow> native_document_snapshot list" where
  "first_documents seen [] = []"
| "first_documents seen (nd # nds) =
     (if nd_document_token nd \<in> seen then first_documents seen nds
      else nd # first_documents (insert (nd_document_token nd) seen) nds)"

lemma tracked_from_native_simps [simp]:
  "td_id (tracked_from_native i nd) = i" "td_token (tracked_from_native i nd) = nd_document_token nd"
  by (simp_all add: tracked_from_native_def)

lemma mset_swap_remove:
  assumes "i < length xs"
  shows "mset (swap_remove i xs) + {#xs ! i#} = mset xs"
proof -
  from assms obtain n where n: "length xs = Suc n" by (cases "length xs") auto
  with assms have "xs \<noteq> []" by auto
  then have l: "last xs = xs ! n" using n by (simp add: last_conv_nth)
  have "butlast (xs[i := last xs]) @ [xs ! i] = xs[i := xs ! n, n := xs ! i]"
    using n assms \<open>xs \<noteq> []\<close> l
    by (intro nth_equalityI) (auto simp: nth_append nth_butlast nth_list_update less_Suc_eq)
  then have "mset (swap_remove i xs @ [xs ! i]) = mset (xs[i := xs ! n, n := xs ! i])"
    by (simp add: swap_remove_def)
  also have "\<dots> = mset xs" using n assms by (intro mset_swap) auto
  finally show ?thesis by simp
qed

lemma set_swap_remove:
  assumes "i < length xs" and "distinct (map f xs)"
  shows "set (swap_remove i xs) = {x \<in> set xs. f x \<noteq> f (xs ! i)}" and "distinct (map f (swap_remove i xs))"
proof -
  have m: "mset xs = mset (xs ! i # swap_remove i xs)"
    using mset_swap_remove [OF assms(1)] by simp
  then have "mset (map f xs) = mset (map f (xs ! i # swap_remove i xs))" by simp
  with assms(2) have d: "distinct (map f (xs ! i # swap_remove i xs))"
    by (metis mset_eq_imp_distinct_iff)
  have "set xs = set (xs ! i # swap_remove i xs)" using m by (metis mset_eq_setD)
  with d show "set (swap_remove i xs) = {x \<in> set xs. f x \<noteq> f (xs ! i)}" by (auto simp: image_iff)
  from d show "distinct (map f (swap_remove i xs))" by simp
qed

lemma new_drawing_id_Some:
  "new_drawing_id gen k reserved = Some (i, k1, reserved1) \<Longrightarrow>
     i \<notin> reserved \<and> reserved1 = insert i reserved \<and> did_get i \<noteq> 0"
proof -
  assume "new_drawing_id gen k reserved = Some (i, k1, reserved1)"
  then have "case (i, k1, reserved1) of (i, k1, reserved1) \<Rightarrow>
      i \<notin> reserved \<and> reserved1 = insert i reserved \<and> did_get i \<noteq> 0"
    by (rule new_drawing_id.raw_induct [rotated])
      (auto split: option.splits if_splits dest: drawing_id_from_str_ok)
  then show ?thesis by simp
qed

lemma new_drawing_id_returns:
  assumes "k \<le> j" and "drawing_id_from_str (gen j) = Some i" and "i \<notin> reserved"
  shows "\<exists>r. new_drawing_id gen k reserved = Some r"
  using assms(1)
proof (induction rule: inc_induct)
  case base
  with assms show ?case by (subst new_drawing_id.simps) simp
next
  case (step n)
  then show ?case by (subst new_drawing_id.simps) (auto split: option.splits)
qed

text \<open>What \<open>take_drawing_id\<close> finds and leaves, when no two drawings share a document.\<close>

lemma take_drawing_id_cases:
  assumes "distinct (map td_token previous)"
  shows "(\<exists>t\<in>set previous. td_token t = token \<and> fst (take_drawing_id previous token) = Some (td_id t))
      \<or> (token \<notin> td_token ` set previous \<and> fst (take_drawing_id previous token) = None)"
    and "set (snd (take_drawing_id previous token)) = {t \<in> set previous. td_token t \<noteq> token}"
    and "distinct (map td_token (snd (take_drawing_id previous token)))"
proof -
  let ?p = "find_index (\<lambda>t. td_token t = token) previous"
  have "?p = None \<Longrightarrow> token \<notin> td_token ` set previous"
    by (auto simp: find_index_None)
  moreover have "i < length previous \<and> td_token (previous ! i) = token" if "?p = Some i" for i
    using find_index_Some [OF that] by simp
  ultimately show "(\<exists>t\<in>set previous. td_token t = token \<and> fst (take_drawing_id previous token) = Some (td_id t))
      \<or> (token \<notin> td_token ` set previous \<and> fst (take_drawing_id previous token) = None)"
    and "set (snd (take_drawing_id previous token)) = {t \<in> set previous. td_token t \<noteq> token}"
    and "distinct (map td_token (snd (take_drawing_id previous token)))"
    using set_swap_remove [OF _ assms] assms
    by (auto simp: take_drawing_id_def split: option.splits)
qed

section \<open>Replacing the snapshot\<close>

text \<open>What holds in the loop: \<open>old\<close> is the registry before, \<open>out\<close> the one built so far.\<close>

definition replace_inv ::
  "drawing_registry \<Rightarrow> drawing_id set \<Rightarrow> tracked_drawing list \<Rightarrow> 64 word set \<Rightarrow> drawing_registry \<Rightarrow> bool" where
  "replace_inv old reserved previous seen out \<longleftrightarrow>
     td_id ` set old \<subseteq> reserved \<and> td_id ` set out \<subseteq> reserved
     \<and> distinct (map td_token previous) \<and> set previous = {t \<in> set old. td_token t \<notin> seen}
     \<and> registry_ok out \<and> td_token ` set out = seen
     \<and> (\<forall>t\<in>set out. (\<exists>t0\<in>set old. td_token t0 = td_token t \<and> td_id t0 = td_id t)
          \<or> (td_token t \<notin> td_token ` set old \<and> td_id t \<notin> td_id ` set old))"

lemma registry_ok_snoc:
  "registry_ok (out @ [t]) \<longleftrightarrow> registry_ok out \<and> td_id t \<notin> td_id ` set out
     \<and> td_token t \<notin> td_token ` set out \<and> did_get (td_id t) \<noteq> 0"
  by (auto simp: registry_ok_def)

lemma replace_inv_snoc:
  "replace_inv old reserved previous1 (insert token seen) (out @ [t]) \<longleftrightarrow>
     td_id ` set old \<subseteq> reserved \<and> insert (td_id t) (td_id ` set out) \<subseteq> reserved
     \<and> distinct (map td_token previous1) \<and> set previous1 = {t \<in> set old. td_token t \<notin> insert token seen}
     \<and> registry_ok out \<and> td_id t \<notin> td_id ` set out \<and> td_token t \<notin> td_token ` set out \<and> did_get (td_id t) \<noteq> 0
     \<and> insert (td_token t) (td_token ` set out) = insert token seen
     \<and> (\<forall>t\<in>set out. (\<exists>t0\<in>set old. td_token t0 = td_token t \<and> td_id t0 = td_id t)
          \<or> (td_token t \<notin> td_token ` set old \<and> td_id t \<notin> td_id ` set old))
     \<and> ((\<exists>t0\<in>set old. td_token t0 = td_token t \<and> td_id t0 = td_id t)
          \<or> (td_token t \<notin> td_token ` set old \<and> td_id t \<notin> td_id ` set old))"
  by (simp add: replace_inv_def registry_ok_snoc ball_Un conj_ac)

lemma replace_inv_known:
  assumes "registry_ok old" and inv: "replace_inv old reserved previous seen out"
    and new: "nd_document_token nd \<notin> seen" and "take_drawing_id previous (nd_document_token nd) = (Some i, previous1)"
  shows "replace_inv old reserved previous1 (insert (nd_document_token nd) seen) (out @ [tracked_from_native i nd])"
proof -
  let ?token = "nd_document_token nd"
  have d: "distinct (map td_token previous)" using inv by (simp add: replace_inv_def)
  from take_drawing_id_cases(1) [OF d, of ?token] assms(4)
  obtain t where "t \<in> set previous" and k: "td_token t = ?token" "td_id t = i" by auto
  then have t: "t \<in> set old" using inv by (auto simp: replace_inv_def)
  have p: "set previous1 = {t \<in> set old. td_token t \<notin> insert ?token seen}"
    and "distinct (map td_token previous1)"
    using take_drawing_id_cases(2,3) [OF d, of ?token] assms(4) inv by (auto simp: replace_inv_def)
  have "i \<notin> td_id ` set out"
  proof
    assume "i \<in> td_id ` set out"
    then obtain u where u: "u \<in> set out" "td_id u = i" by auto
    then have "td_token u \<in> seen" using inv by (auto simp: replace_inv_def)
    have "(\<exists>u0\<in>set old. td_token u0 = td_token u \<and> td_id u0 = td_id u) \<or> td_id u \<notin> td_id ` set old"
      using u(1) inv unfolding replace_inv_def by blast
    moreover have "td_id u \<in> td_id ` set old" using t k(2) u(2) by (metis imageI)
    ultimately obtain u0 where u0: "u0 \<in> set old" "td_token u0 = td_token u" "td_id u0 = i"
      unfolding u(2) by blast
    from assms(1) have "inj_on td_id (set old)" by (simp add: registry_ok_def distinct_map)
    then have "u0 = t" using u0 t k by (simp add: inj_on_def)
    with u0 k new \<open>td_token u \<in> seen\<close> show False by simp
  qed
  moreover have "did_get i \<noteq> 0" using assms(1) t k by (auto simp: registry_ok_def)
  moreover have "i \<in> reserved" using inv t k by (auto simp: replace_inv_def)
  moreover have "?token \<notin> td_token ` set out" using inv new by (simp add: replace_inv_def)
  moreover have "(\<exists>t0\<in>set old. td_token t0 = ?token \<and> td_id t0 = i)" using t k by blast
  ultimately show ?thesis
    using inv p new \<open>distinct (map td_token previous1)\<close>
    by (subst replace_inv_snoc, unfold tracked_from_native_simps replace_inv_def, elim conjE) (intro conjI; simp)
qed

lemma replace_inv_fresh:
  assumes inv: "replace_inv old reserved previous seen out"
    and new: "nd_document_token nd \<notin> seen" and "take_drawing_id previous (nd_document_token nd) = (None, previous1)"
    and i: "i \<notin> reserved" "did_get i \<noteq> 0"
  shows "replace_inv old (insert i reserved) previous1 (insert (nd_document_token nd) seen)
           (out @ [tracked_from_native i nd])"
proof -
  let ?token = "nd_document_token nd"
  have d: "distinct (map td_token previous)" using inv by (simp add: replace_inv_def)
  have "?token \<notin> td_token ` set previous"
    using take_drawing_id_cases(1) [OF d, of ?token] assms(3) by auto
  then have "?token \<notin> td_token ` set old" using inv new by (auto simp: replace_inv_def)
  moreover have "set previous1 = {t \<in> set old. td_token t \<notin> insert ?token seen}"
    and "distinct (map td_token previous1)"
    using take_drawing_id_cases(2,3) [OF d, of ?token] assms(3) inv by (auto simp: replace_inv_def)
  moreover have "i \<notin> td_id ` set out" "i \<notin> td_id ` set old" using inv i by (auto simp: replace_inv_def)
  moreover have "?token \<notin> td_token ` set out" using inv new by (simp add: replace_inv_def)
  moreover have "td_id ` set old \<subseteq> insert i reserved" "td_id ` set out \<subseteq> insert i reserved"
    using inv by (auto simp: replace_inv_def)
  ultimately show ?thesis
    using inv i new
    by (subst replace_inv_snoc, unfold tracked_from_native_simps replace_inv_def, elim conjE) (intro conjI; simp)
qed

lemma replace_loop_ok:
  assumes "registry_ok old" and "replace_inv old reserved previous seen out"
    and "replace_loop gen nds k reserved previous seen out = Some (k1, ds)"
  shows "(\<exists>reserved1 previous1 seen1. replace_inv old reserved1 previous1 seen1 ds)
    \<and> (\<exists>ts. ds = out @ ts \<and> list_all2 (\<lambda>t nd. t = tracked_from_native (td_id t) nd) ts (first_documents seen nds))"
  using assms(2,3)
proof (induction nds arbitrary: k reserved previous seen out)
  case Nil
  then show ?case by auto
next
  case (Cons nd nds)
  let ?token = "nd_document_token nd"
  show ?case
  proof (cases "?token \<in> seen")
    case True
    with Cons show ?thesis by simp
  next
    case False
    have step: ?thesis
      if "replace_inv old reserved1 previous1 (insert ?token seen) (out @ [tracked_from_native i nd])"
        and "replace_loop gen nds k2 reserved1 previous1 (insert ?token seen) (out @ [tracked_from_native i nd]) = Some (k1, ds)"
      for reserved1 previous1 i k2
      using Cons.IH [OF that] False by fastforce
    obtain r previous1 where tk: "take_drawing_id previous ?token = (r, previous1)" by fastforce
    show ?thesis
    proof (cases r)
      case (Some i)
      show ?thesis
        by (rule step, rule replace_inv_known [OF assms(1) Cons.prems(1) False])
          (use tk Some False Cons.prems(2) in auto)
    next
      case None
      with tk False Cons.prems(2) obtain i k2 reserved1
        where nw: "new_drawing_id gen k reserved = Some (i, k2, reserved1)"
          and l: "replace_loop gen nds k2 reserved1 previous1 (insert ?token seen)
                    (out @ [tracked_from_native i nd]) = Some (k1, ds)"
        by (auto split: option.splits)
      from new_drawing_id_Some [OF nw] have i: "i \<notin> reserved" "did_get i \<noteq> 0" "reserved1 = insert i reserved"
        by auto
      show ?thesis
        by (rule step [OF _ l], unfold i(3), rule replace_inv_fresh [OF Cons.prems(1) False _ i(1,2)])
          (use tk None in auto)
    qed
  qed
qed

lemma replace_inv_start: "registry_ok old \<Longrightarrow> replace_inv old (set (map td_id old)) old {} []"
  by (auto simp: replace_inv_def registry_ok_def)

lemma replace_snapshot_ok:
  assumes "registry_ok old" and "replace_snapshot gen k nds old = Some (k1, ds)"
  shows "registry_ok ds \<and> list_all2 (\<lambda>t nd. t = tracked_from_native (td_id t) nd) ds (first_documents {} nds)
    \<and> (\<forall>t\<in>set ds. (\<exists>t0\<in>set old. td_token t0 = td_token t \<and> td_id t0 = td_id t)
          \<or> (td_token t \<notin> td_token ` set old \<and> td_id t \<notin> td_id ` set old))"
  using replace_loop_ok [OF assms(1) replace_inv_start [OF assms(1)] assms(2) [unfolded replace_snapshot_def]]
  by (auto simp: replace_inv_def)

lemma find_distinct:
  "distinct (map f xs) \<Longrightarrow> x \<in> set xs \<Longrightarrow> find (\<lambda>y. f y = f x) xs = Some x"
  by (induction xs) auto

lemma find_by_id_listed: "registry_ok ds \<Longrightarrow> t \<in> set ds \<Longrightarrow> find_by_id ds (td_id t) = Some (tracked_target t)"
  using find_distinct [of td_id ds t] by (simp add: find_by_id_def registry_ok_def)

lemma find_by_id_Some:
  "find_by_id ds i = Some target \<Longrightarrow> \<exists>t\<in>set ds. td_id t = i \<and> target = tracked_target t"
  by (auto simp: find_by_id_def find_Some_iff)

lemma find_by_path_Some:
  "find_by_path ds path = Some target \<Longrightarrow>
     \<exists>t\<in>set ds. target = tracked_target t \<and> file_path (td_drawing t) = Some (dp_text path)"
  by (auto simp: find_by_path_def find_Some_iff drawing_path_matches_def paths_equal_def split: option.splits)

section \<open>The generator\<close>

text \<open>An assumption on \<open>nanoid\<close>: whatever it has returned so far, it will return any given drawing ID again.\<close>

definition gen_fair :: "(nat \<Rightarrow> ustr) \<Rightarrow> bool" where
  "gen_fair gen \<longleftrightarrow> (\<forall>k i. did_get i \<noteq> 0 \<longrightarrow> (\<exists>j\<ge>k. drawing_id_from_str (gen j) = Some i))"

lemma free_drawing_id:
  assumes "finite reserved" and "card reserved < 65535"
  shows "\<exists>i. did_get i \<noteq> 0 \<and> i \<notin> reserved"
proof (rule ccontr)
  assume none: "\<not> ?thesis"
  let ?f = "\<lambda>n. DrawingId (of_nat n :: 16 word)"
  have inj: "inj_on ?f {1..65535}"
    by (intro inj_onI) (auto simp: word_of_nat_eq_iff take_bit_nat_def)
  have "?f ` {1..65535} \<subseteq> reserved"
  proof
    fix i
    assume "i \<in> ?f ` {1..65535}"
    then obtain n where n: "1 \<le> n" "n \<le> 65535" "i = ?f n" by auto
    then have "unat (of_nat n :: 16 word) = n" by (simp add: unat_of_nat take_bit_nat_eq_self)
    with n have "did_get i \<noteq> 0" by auto
    with none show "i \<in> reserved" by blast
  qed
  from card_mono [OF assms(1) this] have "card (?f ` {1..65535}) \<le> card reserved" .
  then have "65535 \<le> card reserved" using card_image [OF inj] by simp
  with assms(2) show False by simp
qed

lemma replace_loop_ends:
  assumes "gen_fair gen" and "finite reserved" and "card reserved + length nds \<le> 65535"
  shows "\<exists>r. replace_loop gen nds k reserved previous seen out = Some r"
  using assms(2,3)
proof (induction nds arbitrary: k reserved previous seen out)
  case Nil
  then show ?case by simp
next
  case (Cons nd nds)
  have same: "\<exists>r. replace_loop gen nds k reserved previous seen out = Some r" for k previous seen out
    by (rule Cons.IH) (use Cons.prems in auto)
  obtain r previous1 where tk: "take_drawing_id previous (nd_document_token nd) = (r, previous1)" by fastforce
  from free_drawing_id [of reserved] Cons.prems obtain i where "did_get i \<noteq> 0" "i \<notin> reserved" by auto
  with assms(1) obtain j where "k \<le> j" "drawing_id_from_str (gen j) = Some i" by (auto simp: gen_fair_def)
  from new_drawing_id_returns [of k j gen i reserved, OF this \<open>i \<notin> reserved\<close>]
  obtain i1 k1 reserved1 where nw: "new_drawing_id gen k reserved = Some (i1, k1, reserved1)" by auto
  from new_drawing_id_Some [OF nw] have r1: "reserved1 = insert i1 reserved" "i1 \<notin> reserved" by auto
  have "\<exists>r. replace_loop gen nds k1 reserved1 previous1 seen out = Some r" for seen out
    by (rule Cons.IH) (use Cons.prems r1 in auto)
  with same tk nw show ?case by (cases r) auto
qed

section \<open>Properties\<close>

text \<open>C39. Publishing a snapshot makes the registry follow the host: one drawing for each document, in the
  host's order and with the host's data (the first entry counts where a document is listed twice);
  a document that was open keeps its ID, a new one gets an ID no open drawing had; IDs and
  documents stay unique, and each drawing is found under its ID.\<close>

theorem registry_follows_host:
  assumes "registry_ok old" and "replace_snapshot gen k nds old = Some (k1, ds)"
  shows "registry_ok ds
    \<and> list_all2 (\<lambda>t nd. t = tracked_from_native (td_id t) nd) ds (first_documents {} nds)
    \<and> (\<forall>t\<in>set ds. \<forall>t0\<in>set old. td_token t0 = td_token t \<longrightarrow> td_id t0 = td_id t)
    \<and> (\<forall>t\<in>set ds. td_token t \<notin> td_token ` set old \<longrightarrow> td_id t \<notin> td_id ` set old)
    \<and> (\<forall>t\<in>set ds. find_by_id ds (td_id t) = Some (tracked_target t))"
proof -
  note ok = replace_snapshot_ok [OF assms]
  have "td_id t0 = td_id t" if "t \<in> set ds" "t0 \<in> set old" "td_token t0 = td_token t" for t t0
  proof -
    have "td_token t \<in> td_token ` set old" using that(2,3) by (metis imageI)
    with ok that(1) obtain u where u: "u \<in> set old" "td_token u = td_token t" "td_id u = td_id t" by blast
    have "inj_on td_token (set old)" using assms(1) by (simp add: registry_ok_def distinct_map)
    with u that have "u = t0" by (simp add: inj_on_def)
    with u show ?thesis by simp
  qed
  moreover have "td_id t \<notin> td_id ` set old" if "t \<in> set ds" "td_token t \<notin> td_token ` set old" for t
    using ok that by (metis imageI)
  ultimately show ?thesis using ok find_by_id_listed [of ds] by (intro conjI ballI impI) simp_all
qed

abbreviation (input) sample_document :: "64 word \<Rightarrow> string \<Rightarrow> native_document_snapshot" where
  "sample_document token name \<equiv> \<lparr>nd_document_token = token, nd_database_token = 7, nd_name = lit name,
     nd_named = False, nd_modified = False, nd_read_only = False, nd_active = False\<rparr>"

definition sample_gen :: "nat \<Rightarrow> ustr" where
  "sample_gen k = format_04X (k mod 65536)"

theorem registry_follows_host_witness:
  "\<exists>k1 ds. replace_snapshot sample_gen 0 [sample_document 4 ''a.dwg'', sample_document 4 ''b'', sample_document 9 ''c''] [] = Some (k1, ds)
     \<and> registry_ok ds \<and> map (dr_name \<circ> td_drawing) ds = [Unnamed (lit ''a''), Unnamed (lit ''c'')]"
proof -
  let ?r = "replace_snapshot sample_gen 0 [sample_document 4 ''a.dwg'', sample_document 4 ''b'', sample_document 9 ''c''] []"
  have "map_option (map (dr_name \<circ> td_drawing) \<circ> snd) ?r = Some [Unnamed (lit ''a''), Unnamed (lit ''c'')]"
    by code_simp
  then obtain k1 ds where r: "?r = Some (k1, ds)"
    and n: "map (dr_name \<circ> td_drawing) ds = [Unnamed (lit ''a''), Unnamed (lit ''c'')]" by auto
  have "registry_ok []" by (simp add: registry_ok_def)
  from registry_follows_host [OF this r] have "registry_ok ds" by (elim conjE)
  with r n show ?thesis by (intro exI conjI)
qed

text \<open>Publishing a snapshot ends: with a generator that keeps offering every ID, and no more drawings and
  documents together than there are IDs, every document gets one.\<close>

lemma replace_snapshot_ends:
  assumes "gen_fair gen" and "length old + length nds \<le> 65535"
  shows "\<exists>k1 ds. replace_snapshot gen k nds old = Some (k1, ds)"
proof -
  have "card (set (map td_id old)) + length nds \<le> 65535"
    using assms(2) card_length [of "map td_id old"] by simp
  from replace_loop_ends [OF assms(1) _ this] show ?thesis by (simp add: replace_snapshot_def)
qed

lemma sample_gen_fair: "gen_fair sample_gen"
  unfolding gen_fair_def
proof (intro allI impI)
  fix k i
  assume "did_get i \<noteq> 0"
  let ?j = "unat (did_get i) + 65536 * k"
  have "unat (did_get i) < 65536" using unat_lt [of "did_get i"] by simp
  then have "?j mod 65536 = unat (did_get i)" by simp
  then have "sample_gen ?j = drawing_id_display i" by (simp add: sample_gen_def drawing_id_display_def)
  with drawing_id_round_trip \<open>did_get i \<noteq> 0\<close> have "drawing_id_from_str (sample_gen ?j) = Some i" by simp
  then show "\<exists>j\<ge>k. drawing_id_from_str (sample_gen j) = Some i" by (intro exI [of _ ?j]) simp
qed

lemma replace_snapshot_ends_witness:
  "\<exists>k1 ds. replace_snapshot sample_gen 5 [sample_document 1 ''a'', sample_document 2 ''b''] [] = Some (k1, ds)"
  by (rule replace_snapshot_ends [OF sample_gen_fair]) simp

end
