(* ===== verification/Screenshot.thy ===== *)
theory Screenshot
  imports Rust_Text
begin

text \<open>
  Screenshots, \<open>crates/plugin/src/screenshot.rs\<close>: the checks on a captured frame and on the
  bounds to crop, the pixel view of a frame, and the size of the image.  \<open>u32\<close> is a 32-bit word
  and \<open>usize\<close> a 64-bit word; \<open>checked_mul\<close> and \<open>checked_add\<close> are as in Rust, and every
  \<open>expect\<close> and every index out of range is the value \<open>None\<close>.  The \<open>image\<close> package (cropping
  and scaling, PNG encoding) is not part of the repository and is a parameter of \<open>process_frame\<close>.
\<close>

section \<open>Data\<close>

datatype pixel_format = Bgra8 | Bgrx8
datatype row_order = TopDown | BottomUp

record captured_frame =
  cf_width :: "32 word"
  cf_height :: "32 word"
  cf_stride :: "64 word"
  cf_pixel_format :: pixel_format
  cf_row_order :: row_order
  cf_pixels :: "byte list"

record pixel_bounds =
  pb_left :: "32 word"
  pb_top :: "32 word"
  pb_width :: "32 word"
  pb_height :: "32 word"

datatype screenshot_error =
    EmptyFrame
  | DimensionOverflow
  | StrideTooSmall "64 word" "64 word"
  | BufferTooSmall "64 word" nat
  | EmptyBounds
  | BoundsOverflow
  | BoundsOutsideFrame

definition screenshot_error_display :: "screenshot_error \<Rightarrow> ustr" where
  "screenshot_error_display e = (case e of
     EmptyFrame \<Rightarrow> lit ''the captured frame has an empty dimension''
   | DimensionOverflow \<Rightarrow> lit ''the captured frame dimensions are too large''
   | StrideTooSmall minimum actual \<Rightarrow> lit ''the captured frame stride is '' @ dec_nat (unat actual)
       @ lit '' bytes; at least '' @ dec_nat (unat minimum) @ lit '' bytes are required''
   | BufferTooSmall minimum actual \<Rightarrow> lit ''the captured frame buffer is '' @ dec_nat actual
       @ lit '' bytes; at least '' @ dec_nat (unat minimum) @ lit '' bytes are required''
   | EmptyBounds \<Rightarrow> lit ''the screenshot bounds are empty''
   | BoundsOverflow \<Rightarrow> lit ''the screenshot bounds overflow''
   | BoundsOutsideFrame \<Rightarrow> lit ''the screenshot bounds extend outside the captured frame'')"

definition BYTES_PER_PIXEL :: "64 word" where "BYTES_PER_PIXEL = 4"
definition DEFAULT_MAX_LONG_EDGE :: "32 word" where "DEFAULT_MAX_LONG_EDGE = 512"
definition WIDE_MAX_LONG_EDGE :: "32 word" where "WIDE_MAX_LONG_EDGE = 1024"

datatype resolution_policy = DefaultResolution | WideResolution

definition max_long_edge :: "resolution_policy \<Rightarrow> 32 word" where
  "max_long_edge p = (case p of DefaultResolution \<Rightarrow> DEFAULT_MAX_LONG_EDGE | WideResolution \<Rightarrow> WIDE_MAX_LONG_EDGE)"

definition bytes_per_pixel :: "pixel_format \<Rightarrow> 64 word" where
  "bytes_per_pixel f = (case f of Bgra8 \<Rightarrow> BYTES_PER_PIXEL | Bgrx8 \<Rightarrow> BYTES_PER_PIXEL)"

section \<open>Checks\<close>

definition pixel_bounds_new ::
  "32 word \<Rightarrow> 32 word \<Rightarrow> 32 word \<Rightarrow> 32 word \<Rightarrow> screenshot_error + pixel_bounds" where
  "pixel_bounds_new left1 top1 width height =
     (if width = 0 \<or> height = 0 then Inl EmptyBounds
      else if Option.bind (checked_add left1 width) (\<lambda>_. checked_add top1 height) = None then Inl BoundsOverflow
      else Inr \<lparr>pb_left = left1, pb_top = top1, pb_width = width, pb_height = height\<rparr>)"

definition validate_within :: "pixel_bounds \<Rightarrow> captured_frame \<Rightarrow> screenshot_error + unit" where
  "validate_within b f = (case checked_add (pb_left b) (pb_width b) of
     None \<Rightarrow> Inl BoundsOverflow
   | Some right \<Rightarrow> (case checked_add (pb_top b) (pb_height b) of
       None \<Rightarrow> Inl BoundsOverflow
     | Some bottom \<Rightarrow>
         if right > cf_width f \<or> bottom > cf_height f then Inl BoundsOutsideFrame else Inr ()))"

definition validate_frame :: "captured_frame \<Rightarrow> screenshot_error + unit" where
  "validate_frame f =
     (if cf_width f = 0 \<or> cf_height f = 0 then Inl EmptyFrame
      else (case checked_mul (ucast (cf_width f)) (bytes_per_pixel (cf_pixel_format f)) of
        None \<Rightarrow> Inl DimensionOverflow
      | Some row_bytes \<Rightarrow>
          if cf_stride f < row_bytes then Inl (StrideTooSmall row_bytes (cf_stride f))
          else (case checked_mul (ucast (cf_height f - 1)) (cf_stride f) of
            None \<Rightarrow> Inl DimensionOverflow
          | Some previous_rows \<Rightarrow> (case checked_add previous_rows row_bytes of
              None \<Rightarrow> Inl DimensionOverflow
            | Some minimum \<Rightarrow>
                if length (cf_pixels f) < unat minimum
                then Inl (BufferTooSmall minimum (length (cf_pixels f))) else Inr ()))))"

section \<open>Pixels and sizes\<close>

type_synonym rgba = "byte \<times> byte \<times> byte \<times> byte"

definition get_pixel :: "captured_frame \<Rightarrow> 32 word \<Rightarrow> 32 word \<Rightarrow> rgba option" where
  "get_pixel f x y =
     (let stored_y = (case cf_row_order f of TopDown \<Rightarrow> y | BottomUp \<Rightarrow> cf_height f - y - 1)
      in (case checked_mul (ucast stored_y) (cf_stride f) of
        None \<Rightarrow> None
      | Some row_start \<Rightarrow> (case checked_mul (ucast x) (bytes_per_pixel (cf_pixel_format f)) of
          None \<Rightarrow> None
        | Some pixel_offset \<Rightarrow> (case checked_add row_start pixel_offset of
            None \<Rightarrow> None
          | Some pixel_start \<Rightarrow>
              (case (nth_opt (cf_pixels f) (unat pixel_start), nth_opt (cf_pixels f) (unat pixel_start + 1),
                     nth_opt (cf_pixels f) (unat pixel_start + 2)) of
                 (Some b, Some g, Some r) \<Rightarrow> Some (b, g, r, 255)
               | _ \<Rightarrow> None)))))"

definition fitted_dimensions :: "32 word \<Rightarrow> 32 word \<Rightarrow> 32 word \<Rightarrow> (32 word \<times> 32 word) option" where
  "fitted_dimensions width height edge =
     (if width \<le> edge \<and> height \<le> edge then Some (width, height)
      else if width \<ge> height then
        (let fitted_height = (ucast height * ucast edge div ucast width :: 64 word)
         in if max fitted_height 1 < 2 ^ 32 then Some (edge, ucast (max fitted_height 1)) else None)
      else
        (let fitted_width = (ucast width * ucast edge div ucast height :: 64 word)
         in if max fitted_width 1 < 2 ^ 32 then Some (ucast (max fitted_width 1), edge) else None))"

text \<open>Cropping, scaling and reordering to RGB.  \<open>resize get bounds w h\<close> is what the \<open>image\<close> package makes
  of the cropped view: the pixel at each place of the target.\<close>

record rgb_image =
  ri_width :: "32 word"
  ri_height :: "32 word"
  ri_pixel :: "32 word \<Rightarrow> 32 word \<Rightarrow> byte \<times> byte \<times> byte"

definition process_frame ::
  "((32 word \<Rightarrow> 32 word \<Rightarrow> rgba option) \<Rightarrow> pixel_bounds \<Rightarrow> 32 word \<Rightarrow> 32 word \<Rightarrow> 32 word \<Rightarrow> 32 word \<Rightarrow> rgba)
     \<Rightarrow> captured_frame \<Rightarrow> pixel_bounds \<Rightarrow> resolution_policy \<Rightarrow> (screenshot_error + rgb_image) option" where
  "process_frame resize f b resolution = (case validate_frame f of
     Inl e \<Rightarrow> Some (Inl e)
   | Inr _ \<Rightarrow> (case validate_within b f of
       Inl e \<Rightarrow> Some (Inl e)
     | Inr _ \<Rightarrow> (case fitted_dimensions (pb_width b) (pb_height b) (max_long_edge resolution) of
         None \<Rightarrow> None
       | Some (w, h) \<Rightarrow> Some (Inr \<lparr>ri_width = w, ri_height = h,
           ri_pixel = (\<lambda>x y. case resize (get_pixel f) b w h x y of (p0, p1, p2, _) \<Rightarrow> (p2, p1, p0))\<rparr>))))"

section \<open>Validated frames are safe to read\<close>

lemma pixel_bounds_within:
  assumes "pixel_bounds_new l t w h = Inr b"
  shows "validate_within b f = Inl BoundsOutsideFrame \<or> validate_within b f = Inr ()"
    and "pb_width b \<noteq> 0" "pb_height b \<noteq> 0"
proof -
  from assms have b: "b = \<lparr>pb_left = l, pb_top = t, pb_width = w, pb_height = h\<rparr>" "w \<noteq> 0" "h \<noteq> 0"
    and "Option.bind (checked_add l w) (\<lambda>_. checked_add t h) \<noteq> None"
    by (auto simp: pixel_bounds_new_def split: if_splits)
  then obtain r m where "checked_add l w = Some r" "checked_add t h = Some m"
    by (auto simp: bind_eq_None_conv)
  then show "validate_within b f = Inl BoundsOutsideFrame \<or> validate_within b f = Inr ()"
    by (simp add: validate_within_def b(1))
  show "pb_width b \<noteq> 0" "pb_height b \<noteq> 0" using b by simp_all
qed

lemma unat_ucast_up: "unat (ucast (x :: 32 word) :: 64 word) = unat x"
proof -
  have "unat x < 2 ^ 64" using unat_lt [of x] by simp
  then show ?thesis by (simp add: unsigned_ucast_eq take_bit_nat_eq_self)
qed

lemma bytes_per_pixel_4 [simp]: "unat (bytes_per_pixel f) = 4"
  by (cases f) (simp_all add: bytes_per_pixel_def BYTES_PER_PIXEL_def)

lemma validate_frame_ok:
  assumes "validate_frame f = Inr ()"
  shows "cf_width f \<noteq> 0" and "cf_height f \<noteq> 0" and "4 * unat (cf_width f) \<le> unat (cf_stride f)"
    and "(unat (cf_height f) - 1) * unat (cf_stride f) + 4 * unat (cf_width f) < 2 ^ 64"
    and "(unat (cf_height f) - 1) * unat (cf_stride f) + 4 * unat (cf_width f) \<le> length (cf_pixels f)"
proof -
  from assms show w: "cf_width f \<noteq> 0" and h: "cf_height f \<noteq> 0"
    by (auto simp: validate_frame_def split: if_splits)
  have h1: "unat (cf_height f - 1) = unat (cf_height f) - 1"
    using h by (simp add: unat_minus_one)
  from assms w h obtain row_bytes previous_rows minimum
    where rb: "checked_mul (ucast (cf_width f)) (bytes_per_pixel (cf_pixel_format f)) = Some row_bytes"
      and st: "row_bytes \<le> cf_stride f"
      and pr: "checked_mul (ucast (cf_height f - 1)) (cf_stride f) = Some previous_rows"
      and mn: "checked_add previous_rows row_bytes = Some minimum" "unat minimum \<le> length (cf_pixels f)"
    by (auto simp: validate_frame_def not_less split: if_splits option.splits)
  from rb have rb': "unat row_bytes = 4 * unat (cf_width f)"
    by (simp add: checked_mul_Some unat_ucast_up)
  with st show "4 * unat (cf_width f) \<le> unat (cf_stride f)" by (simp add: word_le_nat_alt)
  from pr have "unat previous_rows = (unat (cf_height f) - 1) * unat (cf_stride f)"
    by (simp add: checked_mul_Some unat_ucast_up h1)
  with mn rb' show "(unat (cf_height f) - 1) * unat (cf_stride f) + 4 * unat (cf_width f) < 2 ^ 64"
    and "(unat (cf_height f) - 1) * unat (cf_stride f) + 4 * unat (cf_width f) \<le> length (cf_pixels f)"
    by (simp_all add: checked_add_Some)
qed

text \<open>The row of the buffer that holds row \<open>y\<close> of the picture.\<close>

definition buffer_row :: "captured_frame \<Rightarrow> nat \<Rightarrow> nat" where
  "buffer_row f y = (case cf_row_order f of TopDown \<Rightarrow> y | BottomUp \<Rightarrow> unat (cf_height f) - 1 - y)"

lemma get_pixel_at:
  assumes ok: "validate_frame f = Inr ()" and x: "x < cf_width f" and y: "y < cf_height f"
  defines "p \<equiv> buffer_row f (unat y) * unat (cf_stride f) + 4 * unat x"
  shows "p + 3 < length (cf_pixels f)"
    and "get_pixel f x y = Some (cf_pixels f ! p, cf_pixels f ! (p + 1), cf_pixels f ! (p + 2), 255)"
proof -
  define sy where "sy = (case cf_row_order f of TopDown \<Rightarrow> y | BottomUp \<Rightarrow> cf_height f - y - 1)"
  have yh: "unat y < unat (cf_height f)" and xw: "unat x < unat (cf_width f)"
    using x y by (simp_all add: word_less_nat_alt)
  have "unat (cf_height f - y) = unat (cf_height f) - unat y"
    using y by (simp add: unat_sub word_le_nat_alt word_less_nat_alt)
  moreover from this yh have "cf_height f - y \<noteq> 0" by auto
  ultimately have "unat (cf_height f - y - 1) = unat (cf_height f) - 1 - unat y"
    by (simp add: unat_minus_one)
  then have sy: "unat sy = buffer_row f (unat y)"
    by (simp add: sy_def buffer_row_def split: row_order.splits)
  have row: "buffer_row f (unat y) \<le> unat (cf_height f) - 1"
    using yh by (cases "cf_row_order f") (simp_all add: buffer_row_def)
  then have rows: "buffer_row f (unat y) * unat (cf_stride f) \<le> (unat (cf_height f) - 1) * unat (cf_stride f)"
    by (rule mult_le_mono1)
  note bounds = validate_frame_ok(4,5) [OF ok]
  show len: "p + 3 < length (cf_pixels f)" using bounds(2) rows xw unfolding p_def by linarith
  have lim: "buffer_row f (unat y) * unat (cf_stride f) + unat x * 4 < 2 ^ 64"
    using bounds(1) rows xw by linarith
  obtain row_start where rs: "checked_mul (ucast sy) (cf_stride f) = Some row_start"
      "unat row_start = buffer_row f (unat y) * unat (cf_stride f)"
    using lim sy checked_mul_Some [of "ucast sy" "cf_stride f"]
    by (auto simp: checked_mul_def unat_ucast_up)
  obtain pixel_offset where po: "checked_mul (ucast x) (bytes_per_pixel (cf_pixel_format f)) = Some pixel_offset"
      "unat pixel_offset = unat x * 4"
    using lim checked_mul_Some [of "ucast x" "bytes_per_pixel (cf_pixel_format f)"]
    by (auto simp: checked_mul_def unat_ucast_up)
  obtain pixel_start where ps: "checked_add row_start pixel_offset = Some pixel_start" "unat pixel_start = p"
  proof
    show "checked_add row_start pixel_offset = Some (row_start + pixel_offset)"
      using lim rs(2) po(2) by (simp add: checked_add_def)
    then show "unat (row_start + pixel_offset) = p"
      using rs(2) po(2) by (simp only: checked_add_Some p_def mult.commute)
  qed
  from rs(1) po(1) ps len
  show "get_pixel f x y = Some (cf_pixels f ! p, cf_pixels f ! (p + 1), cf_pixels f ! (p + 2), 255)"
    by (simp add: get_pixel_def Let_def sy_def [symmetric] nth_opt_def)
qed

section \<open>The size of the image\<close>

lemma unat_scaled:
  "unat (ucast (a :: 32 word) * ucast (e :: 32 word) div ucast (b :: 32 word) :: 64 word) = unat a * unat e div unat b"
proof -
  have "unat a * unat e < 2 ^ 32 * 2 ^ 32"
    using unat_lt [of a] unat_lt [of e] by (intro mult_strict_mono) simp_all
  then have "unat (ucast a * ucast e :: 64 word) = unat a * unat e"
    by (simp add: unat_word_ariths unat_ucast_up)
  then show ?thesis by (simp add: unat_div unat_ucast_up)
qed

lemma unat_scaled_max:
  assumes "b \<le> a" and "0 < unat e"
  shows "max (ucast (b :: 32 word) * ucast (e :: 32 word) div ucast (a :: 32 word) :: 64 word) 1 < 2 ^ 32"
    and "unat (ucast (max (ucast b * ucast e div ucast a :: 64 word) 1) :: 32 word) = max (unat b * unat e div unat a) 1"
    and "max (unat b * unat e div unat a) 1 \<le> unat e"
proof -
  let ?q = "ucast b * ucast e div ucast a :: 64 word"
  have "unat b * unat e \<le> unat e * unat a" using assms(1) by (simp add: word_le_nat_alt)
  then have "unat b * unat e div unat a \<le> unat e * unat a div unat a" by (rule div_le_mono)
  then have "unat b * unat e div unat a \<le> unat e" by (cases "unat a = 0") simp_all
  with assms(2) show le: "max (unat b * unat e div unat a) 1 \<le> unat e" by simp
  have m: "unat (max ?q 1) = max (unat b * unat e div unat a) 1"
    by (simp add: max_def word_le_nat_alt unat_scaled)
  have "unat (max ?q 1) < 2 ^ 32" using le m unat_lt [of e] by simp
  then show "max ?q 1 < 2 ^ 32" by (simp add: word_less_nat_alt)
  show "unat (ucast (max ?q 1) :: 32 word) = max (unat b * unat e div unat a) 1"
    using m \<open>unat (max ?q 1) < 2 ^ 32\<close> by (simp add: unsigned_ucast_eq take_bit_nat_eq_self)
qed

lemma fitted_dimensions_result:
  assumes "0 < unat e"
  shows "\<exists>w h. fitted_dimensions width height e = Some (w, h)
    \<and> (if unat width \<le> unat e \<and> unat height \<le> unat e then w = width \<and> h = height
       else if unat height \<le> unat width then unat w = unat e \<and> unat h = max (unat height * unat e div unat width) 1
       else unat h = unat e \<and> unat w = max (unat width * unat e div unat height) 1)
    \<and> unat w \<le> unat e \<and> unat h \<le> unat e"
proof (cases "height \<le> width")
  case True
  with unat_scaled_max [OF True assms] show ?thesis
    by (auto simp: fitted_dimensions_def Let_def word_le_nat_alt)
next
  case False
  then have "width \<le> height" by simp
  from unat_scaled_max [OF this assms] False show ?thesis
    by (auto simp: fitted_dimensions_def Let_def word_le_nat_alt)
qed

section \<open>Properties\<close>

text \<open>A frame that was validated can be read without a panic: for every pixel inside it no offset overflows
  and no index is out of range, and the pixel is the one at the place its row order and stride
  give it, with its first three bytes kept and full opacity; and a frame that fails gets an error.\<close>

lemma validated_frame_reads:
  assumes "validate_frame f = Inr ()" and "x < cf_width f" and "y < cf_height f"
  shows "\<exists>p. p = buffer_row f (unat y) * unat (cf_stride f) + 4 * unat x \<and> p + 3 < length (cf_pixels f)
    \<and> get_pixel f x y = Some (cf_pixels f ! p, cf_pixels f ! (p + 1), cf_pixels f ! (p + 2), 255)"
  using get_pixel_at [OF assms] by blast

definition sample_frame :: captured_frame where
  "sample_frame = \<lparr>cf_width = 1, cf_height = 2, cf_stride = 5, cf_pixel_format = Bgrx8, cf_row_order = BottomUp,
     cf_pixels = [1, 2, 3, 4, 0, 5, 6, 7, 8]\<rparr>"

lemma validated_frame_reads_witness: "get_pixel sample_frame 0 0 = Some (5, 6, 7, 255)"
proof -
  have "validate_frame sample_frame = Inr ()" "(0 :: 32 word) < cf_width sample_frame" "(0 :: 32 word) < cf_height sample_frame"
    by code_simp+
  from validated_frame_reads [OF this] show ?thesis
    by (simp add: sample_frame_def buffer_row_def)
qed

text \<open>An image fits its policy: bounds within the long edge are kept, larger ones are scaled down so that
  the longer side is the long edge and the shorter keeps the ratio, rounded down but at least one;
  the 64-bit product does not overflow and the conversion back never fails, so no pixel dimension
  is zero, and a process on a valid frame always ends with an image of that size.\<close>

lemma image_fits_policy:
  assumes "validate_frame f = Inr ()" and "validate_within b f = Inr ()"
    and "pb_width b \<noteq> 0" and "pb_height b \<noteq> 0"
  shows "\<exists>im. process_frame resize f b policy = Some (Inr im)
    \<and> 0 < unat (ri_width im) \<and> 0 < unat (ri_height im)
    \<and> unat (ri_width im) \<le> unat (max_long_edge policy) \<and> unat (ri_height im) \<le> unat (max_long_edge policy)
    \<and> (if unat (pb_width b) \<le> unat (max_long_edge policy) \<and> unat (pb_height b) \<le> unat (max_long_edge policy)
       then ri_width im = pb_width b \<and> ri_height im = pb_height b
       else max (unat (ri_width im)) (unat (ri_height im)) = unat (max_long_edge policy))"
proof -
  have e: "0 < unat (max_long_edge policy)"
    by (cases policy) (simp_all add: max_long_edge_def DEFAULT_MAX_LONG_EDGE_def WIDE_MAX_LONG_EDGE_def)
  have nz: "0 < unat (pb_width b)" "0 < unat (pb_height b)"
    using assms(3,4) by (simp_all add: unat_gt_0)
  obtain w h where fd: "fitted_dimensions (pb_width b) (pb_height b) (max_long_edge policy) = Some (w, h)"
    and wh: "if unat (pb_width b) \<le> unat (max_long_edge policy) \<and> unat (pb_height b) \<le> unat (max_long_edge policy)
        then w = pb_width b \<and> h = pb_height b
       else if unat (pb_height b) \<le> unat (pb_width b)
         then unat w = unat (max_long_edge policy) \<and> unat h = max (unat (pb_height b) * unat (max_long_edge policy) div unat (pb_width b)) 1
       else unat h = unat (max_long_edge policy) \<and> unat w = max (unat (pb_width b) * unat (max_long_edge policy) div unat (pb_height b)) 1"
    and le: "unat w \<le> unat (max_long_edge policy)" "unat h \<le> unat (max_long_edge policy)"
    using fitted_dimensions_result [OF e, of "pb_width b" "pb_height b"] by blast
  have "0 < unat w" "0 < unat h" using wh e nz by (auto split: if_splits)
  with assms(1,2) fd wh le show ?thesis
    by (auto simp: process_frame_def max_def split: if_splits)
qed

lemma image_fits_policy_witness:
  "\<exists>im. process_frame (\<lambda>get b w h x y. (0, 0, 0, 255)) sample_frame \<lparr>pb_left = 0, pb_top = 1, pb_width = 1, pb_height = 1\<rparr>
     WideResolution = Some (Inr im) \<and> ri_width im = 1 \<and> ri_height im = 1"
proof -
  let ?b = "\<lparr>pb_left = 0, pb_top = 1, pb_width = 1, pb_height = 1\<rparr> :: pixel_bounds"
  have "validate_frame sample_frame = Inr ()" "validate_within ?b sample_frame = Inr ()"
    by code_simp+
  from image_fits_policy [OF this, of "\<lambda>get b w h x y. (0, 0, 0, 255)" WideResolution] show ?thesis
    by (auto simp: max_long_edge_def WIDE_MAX_LONG_EDGE_def)
qed

end
