(* ===== verification/Sched_Native.thy ===== *)
theory Sched_Native
  imports Sched_Error Drawing_Registry Screenshot
begin

text \<open>
  What the scheduler and the native host exchange, \<open>crates/plugin/src/scheduler/native.rs\<close> with the
  shared types of \<open>crates/plugin/src/lib.rs\<close>: commands, actions with the accessors the host calls
  (a panic is \<open>None\<close>), viewport captures, and the finalization of an execution.  The enumerations
  of the bridge are bytes that the host may set to any value: one constructor stands for the
  values that have no name.  The parts of the file that need \<open>Operation\<close> are in
  \<open>Sched_Operation\<close>.
\<close>

section \<open>Shared enumerations\<close>

datatype native_action_kind =
    KindNone | KindOpen | KindSwitch | KindSave | KindClose | KindCapture | KindUndo | KindRedo
  | KindQueueExecDriver

datatype action_result_kind =
    ArSuccess | ArDrawingGone | ArDrawingGenerationChanged | ArUnnamed | ArReadOnly | ArNotActive | ArDirty
  | ArDestinationExists | ArOpenFailed | ArSwitchFailed | ArSaveFailed | ArCloseFailed | ArHistoryFailed
  | ArNotQuiescent | ArUndoDisabled | ArDocumentContextFailed | ArDocumentContextRestoreFailed
  | ArExecBridgeFinalizationFailed | ArExecBridgeSymbolsClearFailed | ArExecBridgeFailed
  | ArCaptureUnavailable | ArCaptureInvalid | ArCaptureRestoreFailed | ArOther "8 word"

definition action_result_repr :: "action_result_kind \<Rightarrow> 8 word" where
  "action_result_repr k = (case k of
     ArSuccess \<Rightarrow> 0 | ArDrawingGone \<Rightarrow> 1 | ArDrawingGenerationChanged \<Rightarrow> 2 | ArUnnamed \<Rightarrow> 3 | ArReadOnly \<Rightarrow> 4
   | ArNotActive \<Rightarrow> 5 | ArDirty \<Rightarrow> 6 | ArDestinationExists \<Rightarrow> 7 | ArOpenFailed \<Rightarrow> 8 | ArSwitchFailed \<Rightarrow> 9
   | ArSaveFailed \<Rightarrow> 10 | ArCloseFailed \<Rightarrow> 11 | ArHistoryFailed \<Rightarrow> 12 | ArNotQuiescent \<Rightarrow> 13 | ArUndoDisabled \<Rightarrow> 14
   | ArDocumentContextFailed \<Rightarrow> 15 | ArDocumentContextRestoreFailed \<Rightarrow> 16 | ArExecBridgeFinalizationFailed \<Rightarrow> 17
   | ArExecBridgeSymbolsClearFailed \<Rightarrow> 18 | ArExecBridgeFailed \<Rightarrow> 19 | ArCaptureUnavailable \<Rightarrow> 20
   | ArCaptureInvalid \<Rightarrow> 21 | ArCaptureRestoreFailed \<Rightarrow> 22 | ArOther r \<Rightarrow> r)"

datatype capture_result_kind =
    CrSuccess | CrDrawingGone | CrDrawingGenerationChanged | CrNotActive | CrNotQuiescent | CrUnavailable
  | CrInvalid | CrRestoreFailed | CrOther "8 word"

datatype native_pixel_format = NpInvalid | NpBgra8 | NpBgrx8 | NpOther "8 word"
datatype native_row_order = NrInvalid | NrTopDown | NrBottomUp | NrOther "8 word"

record action_result =
  ar_kind :: action_result_kind
  ar_native_status :: int
  ar_native_detail :: ustr

record capture_result =
  cr_kind :: capture_result_kind
  cr_width :: "32 word"
  cr_height :: "32 word"
  cr_stride :: "64 word"
  cr_pixel_format :: native_pixel_format
  cr_row_order :: native_row_order
  cr_realistic_style :: bool
  cr_crop_left :: "32 word"
  cr_crop_top :: "32 word"
  cr_crop_width :: "32 word"
  cr_crop_height :: "32 word"
  cr_detail :: ustr

record finalization_observation =
  fo_undo_group_may_be_open :: bool
  fo_bridge_symbols_may_be_retained :: bool
  fo_staged_form_may_be_retained :: bool
  fo_output_port_active :: bool
  fo_terminal_cleanup_failed :: bool

section \<open>Commands\<close>

datatype document_context_policy = RequireActive | ForceTemporary

text \<open>An \<open>f64\<close> is passed through untouched; it is its bit pattern.\<close>

type_synonym f64 = "64 word"

record capture_region =
  rg_min_x :: f64
  rg_min_y :: f64
  rg_max_x :: f64
  rg_max_y :: f64

datatype native_drawing_operation =
    NopSwitch
  | NopSave "save_path option"
  | NopClose bool
  | NopCapture capture_region "32 word"
  | NopUndo document_context_policy
  | NopRedo document_context_policy
  | NopQueueExecDriver document_context_policy

datatype native_command =
    CmdOpen drawing_path
  | CmdDrawing native_document_key native_drawing_operation

definition command_target :: "native_command \<Rightarrow> native_document_key option" where
  "command_target c = (case c of CmdOpen _ \<Rightarrow> None | CmdDrawing target _ \<Rightarrow> Some target)"

definition drawing_operation_kind :: "native_drawing_operation \<Rightarrow> native_action_kind" where
  "drawing_operation_kind p = (case p of
     NopSwitch \<Rightarrow> KindSwitch
   | NopSave _ \<Rightarrow> KindSave
   | NopClose _ \<Rightarrow> KindClose
   | NopCapture _ _ \<Rightarrow> KindCapture
   | NopUndo _ \<Rightarrow> KindUndo
   | NopRedo _ \<Rightarrow> KindRedo
   | NopQueueExecDriver _ \<Rightarrow> KindQueueExecDriver)"

definition command_kind :: "native_command \<Rightarrow> native_action_kind" where
  "command_kind c = (case c of CmdOpen _ \<Rightarrow> KindOpen | CmdDrawing _ p \<Rightarrow> drawing_operation_kind p)"

section \<open>Actions\<close>

datatype native_action = ActionIdle | ActionIssued (na_job: "64 word") (na_command: native_command)

definition action_job_id :: "native_action \<Rightarrow> 64 word option" where
  "action_job_id a = (case a of ActionIssued job _ \<Rightarrow> Some job | ActionIdle \<Rightarrow> None)"

definition action_kind :: "native_action \<Rightarrow> native_action_kind" where
  "action_kind a = (case a of ActionIdle \<Rightarrow> KindNone | ActionIssued _ c \<Rightarrow> command_kind c)"

definition action_drawing_target :: "native_action \<Rightarrow> native_document_key option" where
  "action_drawing_target a = (case a of ActionIssued _ (CmdDrawing target _) \<Rightarrow> Some target | _ \<Rightarrow> None)"

definition action_document_token :: "native_action \<Rightarrow> 64 word option" where
  "action_document_token a = map_option dk_document_token (action_drawing_target a)"

definition action_database_token :: "native_action \<Rightarrow> 64 word option" where
  "action_database_token a = map_option dk_database_token (action_drawing_target a)"

definition action_open_path :: "native_action \<Rightarrow> ustr option" where
  "action_open_path a = (case a of ActionIssued _ (CmdOpen path) \<Rightarrow> Some (dp_text path) | _ \<Rightarrow> None)"

definition action_close_discard :: "native_action \<Rightarrow> bool option" where
  "action_close_discard a = (case a of ActionIssued _ (CmdDrawing _ (NopClose discard)) \<Rightarrow> Some discard | _ \<Rightarrow> None)"

definition action_save_path :: "native_action \<Rightarrow> ustr option" where
  "action_save_path a = (case a of
     ActionIssued _ (CmdDrawing _ (NopSave path)) \<Rightarrow> Some (case path of Some p \<Rightarrow> sp_text p | None \<Rightarrow> [])
   | _ \<Rightarrow> None)"

definition action_force_document_context :: "native_action \<Rightarrow> bool" where
  "action_force_document_context a = (case a of
     ActionIssued _ (CmdDrawing _ (NopUndo context1)) \<Rightarrow> context1 = ForceTemporary
   | ActionIssued _ (CmdDrawing _ (NopRedo context1)) \<Rightarrow> context1 = ForceTemporary
   | ActionIssued _ (CmdDrawing _ (NopQueueExecDriver context1)) \<Rightarrow> context1 = ForceTemporary
   | _ \<Rightarrow> False)"

definition action_capture_region :: "native_action \<Rightarrow> capture_region option" where
  "action_capture_region a = (case a of
     ActionIssued _ (CmdDrawing _ (NopCapture region _)) \<Rightarrow> Some region | _ \<Rightarrow> None)"

definition action_capture_max_long_edge :: "native_action \<Rightarrow> 32 word option" where
  "action_capture_max_long_edge a = (case a of
     ActionIssued _ (CmdDrawing _ (NopCapture _ edge)) \<Rightarrow> Some edge | _ \<Rightarrow> None)"

section \<open>Viewport captures\<close>

record viewport_capture =
  vc_width :: "32 word"
  vc_height :: "32 word"
  vc_stride :: "64 word"
  vc_pixel_format :: pixel_format
  vc_row_order :: row_order
  vc_realistic_style :: bool
  vc_bounds :: pixel_bounds
  vc_pixels :: "byte list"

definition CAPTURE_MAX_DIMENSION :: "32 word" where "CAPTURE_MAX_DIMENSION = 16384"
definition CAPTURE_MAX_BYTES :: "64 word" where "CAPTURE_MAX_BYTES = 128 * 1024 * 1024"

definition capture_frame :: "viewport_capture \<Rightarrow> captured_frame" where
  "capture_frame c = \<lparr>cf_width = vc_width c, cf_height = vc_height c, cf_stride = vc_stride c,
     cf_pixel_format = vc_pixel_format c, cf_row_order = vc_row_order c, cf_pixels = vc_pixels c\<rparr>"

definition native_pixel_format_of :: "native_pixel_format \<Rightarrow> sched_error + pixel_format" where
  "native_pixel_format_of f = (case f of
     NpBgra8 \<Rightarrow> Inr Bgra8 | NpBgrx8 \<Rightarrow> Inr Bgrx8
   | _ \<Rightarrow> Inl (CaptureInvalid (lit ''unknown native pixel format'')))"

definition native_row_order_of :: "native_row_order \<Rightarrow> sched_error + row_order" where
  "native_row_order_of f = (case f of
     NrTopDown \<Rightarrow> Inr TopDown | NrBottomUp \<Rightarrow> Inr BottomUp
   | _ \<Rightarrow> Inl (CaptureInvalid (lit ''unknown native row order'')))"

definition capture_size_ok :: "capture_result \<Rightarrow> byte list \<Rightarrow> sched_error + unit" where
  "capture_size_ok r pixels =
     (if cr_width r = 0 \<or> cr_height r = 0 \<or> cr_width r > CAPTURE_MAX_DIMENSION \<or> cr_height r > CAPTURE_MAX_DIMENSION
      then Inl (CaptureInvalid (lit ''native capture dimensions are empty or exceed the supported limit''))
      else (case checked_mul (ucast (cr_width r) :: 64 word) 4 of
        None \<Rightarrow> Inl (CaptureInvalid (lit ''native capture dimensions overflow''))
      | Some row_bytes \<Rightarrow> (case checked_mul (cr_stride r) (ucast (cr_height r)) of
          None \<Rightarrow> Inl (CaptureInvalid (lit ''native capture dimensions overflow''))
        | Some required_bytes \<Rightarrow>
            if cr_stride r < row_bytes \<or> required_bytes > CAPTURE_MAX_BYTES \<or> length pixels \<noteq> unat required_bytes
            then Inl (CaptureInvalid (lit ''native capture stride or buffer length is invalid''))
            else Inr ())))"

definition capture_from_native :: "capture_result \<Rightarrow> byte list \<Rightarrow> sched_error + viewport_capture" where
  "capture_from_native r pixels =
     (case native_pixel_format_of (cr_pixel_format r) of
        Inl e \<Rightarrow> Inl e
      | Inr pixel_format \<Rightarrow> (case native_row_order_of (cr_row_order r) of
          Inl e \<Rightarrow> Inl e
        | Inr row_order \<Rightarrow>
            (case pixel_bounds_new (cr_crop_left r) (cr_crop_top r) (cr_crop_width r) (cr_crop_height r) of
              Inl e \<Rightarrow> Inl (CaptureInvalid (screenshot_error_display e))
            | Inr bounds \<Rightarrow> (case capture_size_ok r pixels of
                Inl e \<Rightarrow> Inl e
              | Inr _ \<Rightarrow> Inr \<lparr>vc_width = cr_width r, vc_height = cr_height r, vc_stride = cr_stride r,
                  vc_pixel_format = pixel_format, vc_row_order = row_order,
                  vc_realistic_style = cr_realistic_style r, vc_bounds = bounds, vc_pixels = pixels\<rparr>))))"

definition interpret_capture :: "capture_result \<Rightarrow> byte list \<Rightarrow> drawing_id \<Rightarrow> sched_error + viewport_capture" where
  "interpret_capture r pixels i = (case cr_kind r of
     CrSuccess \<Rightarrow> capture_from_native r pixels
   | CrDrawingGone \<Rightarrow> Inl DrawingGone
   | CrDrawingGenerationChanged \<Rightarrow> Inl DrawingGenerationChanged
   | CrNotActive \<Rightarrow> Inl (NotActive i)
   | CrNotQuiescent \<Rightarrow> Inl NotQuiescent
   | CrUnavailable \<Rightarrow> Inl (CaptureUnavailable (cr_detail r))
   | CrInvalid \<Rightarrow> Inl (CaptureInvalid (cr_detail r))
   | CrRestoreFailed \<Rightarrow> Inl (CaptureRestoreFailed (cr_detail r))
   | CrOther k \<Rightarrow> Inl (UnknownResult k))"

section \<open>Finalization of an execution\<close>

definition native_state_unproved :: "finalization_observation \<Rightarrow> bool" where
  "native_state_unproved ob \<longleftrightarrow> fo_undo_group_may_be_open ob \<or> fo_bridge_symbols_may_be_retained ob
     \<or> fo_staged_form_may_be_retained ob \<or> fo_output_port_active ob \<or> fo_terminal_cleanup_failed ob"

definition only_symbol_cleanup_unproved :: "finalization_observation \<Rightarrow> bool" where
  "only_symbol_cleanup_unproved ob \<longleftrightarrow>
     (fo_bridge_symbols_may_be_retained ob \<or> fo_terminal_cleanup_failed ob)
     \<and> \<not> fo_undo_group_may_be_open ob \<and> \<not> fo_staged_form_may_be_retained ob \<and> \<not> fo_output_port_active ob"

definition native_result_requires_quarantine :: "action_result_kind \<Rightarrow> bool" where
  "native_result_requires_quarantine k \<longleftrightarrow> k \<in> {ArDocumentContextRestoreFailed, ArCaptureRestoreFailed,
     ArExecBridgeFinalizationFailed, ArExecBridgeSymbolsClearFailed}"

record finalization_decision =
  fd_result :: action_result
  fd_quarantine :: bool

definition classify_execution_finalization :: "action_result \<Rightarrow> finalization_observation \<Rightarrow> finalization_decision" where
  "classify_execution_finalization r ob =
     (let unproved = native_state_unproved ob;
          quarantine = (unproved \<or> native_result_requires_quarantine (ar_kind r));
          preserve_symbol_failure =
            (ar_kind r = ArExecBridgeSymbolsClearFailed \<and> only_symbol_cleanup_unproved ob)
      in \<lparr>fd_result =
            (if unproved \<and> ar_kind r \<noteq> ArDocumentContextRestoreFailed \<and> \<not> preserve_symbol_failure
             then r\<lparr>ar_kind := ArExecBridgeFinalizationFailed\<rparr> else r),
          fd_quarantine = quarantine\<rparr>)"

text \<open>A result that reaches the scheduler with the order to quarantine never asks to wait.\<close>

lemma classify_quarantine:
  "fd_quarantine (classify_execution_finalization r ob)
     \<longleftrightarrow> native_result_requires_quarantine (ar_kind (fd_result (classify_execution_finalization r ob)))"
  by (auto simp: classify_execution_finalization_def native_result_requires_quarantine_def Let_def)

lemma quarantine_not_waiting: "native_result_requires_quarantine k \<Longrightarrow> k \<noteq> ArNotQuiescent"
  by (auto simp: native_result_requires_quarantine_def)

section \<open>Accepted captures are valid frames\<close>

lemma capture_size_ok_frame:
  assumes "capture_size_ok r pixels = Inr ()"
  shows "cr_width r \<noteq> 0" "cr_height r \<noteq> 0" "4 * unat (cr_width r) \<le> unat (cr_stride r)"
    "length pixels = unat (cr_stride r) * unat (cr_height r)" "length pixels \<le> 134217728"
proof -
  from assms obtain row_bytes required_bytes
    where m: "checked_mul (ucast (cr_width r) :: 64 word) 4 = Some row_bytes"
        "checked_mul (cr_stride r) (ucast (cr_height r)) = Some required_bytes"
      and c: "row_bytes \<le> cr_stride r" "required_bytes \<le> CAPTURE_MAX_BYTES" "length pixels = unat required_bytes"
    by (auto simp: capture_size_ok_def not_less split: if_splits option.splits)
  from assms show "cr_width r \<noteq> 0" "cr_height r \<noteq> 0" by (auto simp: capture_size_ok_def split: if_splits)
  from m(1) c(1) show "4 * unat (cr_width r) \<le> unat (cr_stride r)"
    by (simp add: checked_mul_Some unat_ucast_up word_le_nat_alt)
  from m(2) c(3) show "length pixels = unat (cr_stride r) * unat (cr_height r)"
    by (simp add: checked_mul_Some unat_ucast_up)
  from c(2,3) show "length pixels \<le> 134217728"
    by (simp add: CAPTURE_MAX_BYTES_def word_le_nat_alt)
qed

lemma capture_from_native_valid:
  assumes "capture_from_native r pixels = Inr c"
  shows "validate_frame (capture_frame c) = Inr ()" and "length (vc_pixels c) \<le> 134217728"
    and "pb_width (vc_bounds c) \<noteq> 0 \<and> pb_height (vc_bounds c) \<noteq> 0"
proof -
  from assms obtain pixel_format row_order bounds where ok: "capture_size_ok r pixels = Inr ()"
    and c: "c = \<lparr>vc_width = cr_width r, vc_height = cr_height r, vc_stride = cr_stride r,
                  vc_pixel_format = pixel_format, vc_row_order = row_order,
                  vc_realistic_style = cr_realistic_style r, vc_bounds = bounds, vc_pixels = pixels\<rparr>"
    and b: "pixel_bounds_new (cr_crop_left r) (cr_crop_top r) (cr_crop_width r) (cr_crop_height r) = Inr bounds"
    by (auto simp: capture_from_native_def split: sum.splits)
  note s = capture_size_ok_frame [OF ok]
  let ?W = "unat (cr_width r)" and ?H = "unat (cr_height r)" and ?S = "unat (cr_stride r)"
  have "0 < ?H" using s(2) by (simp add: unat_gt_0)
  then have "(?H - 1) * ?S + ?S = ?H * ?S" by (metis Suc_pred' add.commute mult_Suc)
  then have len: "(?H - 1) * ?S + 4 * ?W \<le> length pixels"
    using s(3,4) by (simp add: mult.commute)
  have h1: "unat (cr_height r - 1) = ?H - 1" using s(2) by (simp add: unat_minus_one)
  have lt: "(?H - 1) * ?S + 4 * ?W < 2 ^ 64" using len s(5) by simp
  obtain row_bytes where rb: "checked_mul (ucast (cr_width r)) (bytes_per_pixel pixel_format) = Some row_bytes"
      "unat row_bytes = 4 * ?W"
  proof
    show eq: "checked_mul (ucast (cr_width r)) (bytes_per_pixel pixel_format)
        = Some (ucast (cr_width r) * bytes_per_pixel pixel_format)"
      using lt by (simp add: checked_mul_def unat_ucast_up)
    then show "unat (ucast (cr_width r) * bytes_per_pixel pixel_format) = 4 * ?W"
      unfolding checked_mul_Some by (simp add: unat_ucast_up)
  qed
  obtain previous_rows where pr: "checked_mul (ucast (cr_height r - 1)) (cr_stride r) = Some previous_rows"
      "unat previous_rows = (?H - 1) * ?S"
  proof
    show eq: "checked_mul (ucast (cr_height r - 1)) (cr_stride r) = Some (ucast (cr_height r - 1) * cr_stride r)"
      using lt by (simp add: checked_mul_def unat_ucast_up h1)
    then show "unat (ucast (cr_height r - 1) * cr_stride r) = (?H - 1) * ?S"
      unfolding checked_mul_Some by (simp add: unat_ucast_up h1)
  qed
  obtain minimum where mn: "checked_add previous_rows row_bytes = Some minimum" "unat minimum = (?H - 1) * ?S + 4 * ?W"
  proof
    show "checked_add previous_rows row_bytes = Some (previous_rows + row_bytes)"
      using lt rb(2) pr(2) by (simp add: checked_add_def)
    then show "unat (previous_rows + row_bytes) = (?H - 1) * ?S + 4 * ?W"
      unfolding checked_add_Some using rb(2) pr(2) by simp
  qed
  have "\<not> cr_stride r < row_bytes" using s(3) rb(2) by (simp add: word_less_nat_alt)
  with s(1,2) rb(1) pr(1) mn len show "validate_frame (capture_frame c) = Inr ()"
    by (simp add: validate_frame_def capture_frame_def c)
  show "length (vc_pixels c) \<le> 134217728" using s(5) by (simp add: c)
  show "pb_width (vc_bounds c) \<noteq> 0 \<and> pb_height (vc_bounds c) \<noteq> 0"
    using pixel_bounds_within(2,3) [OF b] by (simp add: c)
qed

section \<open>Properties\<close>

text \<open>A capture that is accepted from the host is safe to turn into an image: it is at most 128 MiB, it is
  a valid frame whose crop is not empty, and making the screenshot ends either with an image or
  with the one error left, a crop outside the frame.\<close>

lemma accepted_capture_valid:
  assumes "interpret_capture r pixels i = Inr c"
  shows "length (vc_pixels c) \<le> 128 * 1024 * 1024 \<and> validate_frame (capture_frame c) = Inr ()
    \<and> (process_frame resize (capture_frame c) (vc_bounds c) policy = Some (Inl BoundsOutsideFrame)
       \<or> (\<exists>im. process_frame resize (capture_frame c) (vc_bounds c) policy = Some (Inr im)))"
proof -
  from assms have "capture_from_native r pixels = Inr c"
    by (auto simp: interpret_capture_def split: capture_result_kind.splits)
  note v = capture_from_native_valid [OF this]
  have bounds: "pixel_bounds_new (cr_crop_left r) (cr_crop_top r) (cr_crop_width r) (cr_crop_height r) = Inr (vc_bounds c)"
    using \<open>capture_from_native r pixels = Inr c\<close> by (auto simp: capture_from_native_def split: sum.splits)
  note within = pixel_bounds_within(1) [OF bounds, of "capture_frame c"]
  have "0 < unat (max_long_edge policy)"
    by (cases policy) (simp_all add: max_long_edge_def DEFAULT_MAX_LONG_EDGE_def WIDE_MAX_LONG_EDGE_def)
  from fitted_dimensions_result [OF this] obtain w h
    where "fitted_dimensions (pb_width (vc_bounds c)) (pb_height (vc_bounds c)) (max_long_edge policy) = Some (w, h)"
    by blast
  with within show ?thesis
    using v(1,2) by (auto simp: process_frame_def)
qed

abbreviation (input) sample_capture :: capture_result where
  "sample_capture \<equiv> \<lparr>cr_kind = CrSuccess, cr_width = 1, cr_height = 1, cr_stride = 4, cr_pixel_format = NpBgra8,
     cr_row_order = NrTopDown, cr_realistic_style = False, cr_crop_left = 0, cr_crop_top = 0, cr_crop_width = 1,
     cr_crop_height = 1, cr_detail = []\<rparr>"

lemma accepted_capture_valid_witness:
  "\<exists>c. interpret_capture sample_capture [1, 2, 3, 4] (DrawingId 1) = Inr c \<and> validate_frame (capture_frame c) = Inr ()"
proof -
  have "isl (interpret_capture sample_capture [1, 2, 3, 4] (DrawingId 1)) = False" by code_simp
  then obtain c where c: "interpret_capture sample_capture [1, 2, 3, 4] (DrawingId 1) = Inr c"
    by (metis sum.collapse(2))
  with accepted_capture_valid [OF c] show ?thesis by blast
qed

text \<open>Finalizing an execution never hides doubt: the scheduler is quarantined exactly when the host could
  not prove its state clean or reports a failed restoration, the result it then records is one
  of the failures that demand quarantine and never a success or a request to wait, and when
  nothing is in doubt the host's result is kept as it is.\<close>

lemma finalization_quarantines_doubt:
  "(fd_quarantine (classify_execution_finalization r ob)
      \<longleftrightarrow> native_state_unproved ob \<or> native_result_requires_quarantine (ar_kind r))
   \<and> (fd_quarantine (classify_execution_finalization r ob) \<longrightarrow>
      native_result_requires_quarantine (ar_kind (fd_result (classify_execution_finalization r ob)))
      \<and> ar_kind (fd_result (classify_execution_finalization r ob)) \<notin> {ArSuccess, ArNotQuiescent})
   \<and> (\<not> native_state_unproved ob \<longrightarrow> fd_result (classify_execution_finalization r ob) = r)"
  using classify_quarantine [of r ob]
  by (auto simp: classify_execution_finalization_def native_result_requires_quarantine_def Let_def)

lemma finalization_quarantines_doubt_witness:
  "native_result_requires_quarantine (ar_kind (fd_result (classify_execution_finalization
     \<lparr>ar_kind = ArNotQuiescent, ar_native_status = 0, ar_native_detail = []\<rparr>
     \<lparr>fo_undo_group_may_be_open = True, fo_bridge_symbols_may_be_retained = False,
      fo_staged_form_may_be_retained = False, fo_output_port_active = False, fo_terminal_cleanup_failed = False\<rparr>)))"
  using finalization_quarantines_doubt [of "\<lparr>ar_kind = ArNotQuiescent, ar_native_status = 0, ar_native_detail = []\<rparr>"
     "\<lparr>fo_undo_group_may_be_open = True, fo_bridge_symbols_may_be_retained = False,
      fo_staged_form_may_be_retained = False, fo_output_port_active = False, fo_terminal_cleanup_failed = False\<rparr>"]
  by (simp add: native_state_unproved_def)

end
