(* ===== verification/Sched_Operation.thy ===== *)
theory Sched_Operation
  imports Sched_Native Exec_State
begin

text \<open>
  The operations the scheduler runs, \<open>crates/plugin/src/scheduler/operation.rs\<close>, with the parts of
  \<open>native.rs\<close> that interpret what the host answers for one.  An operation is prepared against the
  registry of drawings (answered at once, or a command for the host) and completed against the
  registry as the host has since republished it.  An \<open>Exec\<close> owns its output sink; here the
  constructor \<open>OpExecute\<close> carries the execution and the handle of its channel, and a clone of the sink
  is that handle.
\<close>

section \<open>Data\<close>

type_synonym sink = nat

datatype operation =
    OpOpen drawing_path
  | OpSwitch drawing_id
  | OpSave drawing_id "save_path option"
  | OpClose drawing_id bool
  | OpCapture drawing_id capture_region "32 word" "viewport_capture option"
  | OpHistory drawing_id history_direction document_context_policy
  | OpExecute drawing_id exec sink document_context_policy

datatype operation_outcome =
    OutcomeDrawing drawing
  | OutcomeClosed
  | OutcomeCapture viewport_capture
  | OutcomeExec exec_outcome

type_synonym op_result = "sched_error + operation_outcome"

datatype prepared = Immediate op_result | Native native_command

section \<open>Reading an operation\<close>

definition op_execution :: "operation \<Rightarrow> exec option" where
  "op_execution p = (case p of OpExecute _ e _ _ \<Rightarrow> Some e | _ \<Rightarrow> None)"

definition op_output_sink :: "operation \<Rightarrow> sink option" where
  "op_output_sink p = (case p of OpExecute _ _ s _ \<Rightarrow> Some s | _ \<Rightarrow> None)"

definition op_drawing_id :: "operation \<Rightarrow> drawing_id option" where
  "op_drawing_id p = (case p of
     OpOpen _ \<Rightarrow> None
   | OpSwitch i \<Rightarrow> Some i
   | OpSave i _ \<Rightarrow> Some i
   | OpClose i _ \<Rightarrow> Some i
   | OpCapture i _ _ _ \<Rightarrow> Some i
   | OpHistory i _ _ \<Rightarrow> Some i
   | OpExecute i _ _ _ \<Rightarrow> Some i)"

definition op_execution_source_bytes :: "operation \<Rightarrow> nat option" where
  "op_execution_source_bytes p = map_option source_bytes (op_execution p)"

definition op_is_execution :: "operation \<Rightarrow> bool" where
  "op_is_execution p \<longleftrightarrow> op_execution p \<noteq> None"

definition op_can_wait_for_readiness :: "operation \<Rightarrow> bool" where
  "op_can_wait_for_readiness p = (case op_execution p of None \<Rightarrow> True | Some e \<Rightarrow> \<not> ex_form_handed_off e)"

definition op_readiness_wait_pending :: "operation \<Rightarrow> bool" where
  "op_readiness_wait_pending p = (case op_execution p of None \<Rightarrow> False | Some e \<Rightarrow> readiness_wait_pending e)"

definition op_execution_has_outcome :: "operation \<Rightarrow> bool" where
  "op_execution_has_outcome p = (case op_execution p of None \<Rightarrow> False | Some e \<Rightarrow> ex_outcome e \<noteq> None)"

definition op_execution_failed :: "operation \<Rightarrow> bool" where
  "op_execution_failed p =
     (case Option.bind (op_execution p) ex_outcome of Some (OutFailure _) \<Rightarrow> True | _ \<Rightarrow> False)"

section \<open>Preparing\<close>

definition prepare_save :: "file_system \<Rightarrow> drawing_id \<Rightarrow> save_path option \<Rightarrow> drawing_target \<Rightarrow> prepared" where
  "prepare_save fs i path target =
     (let save = Native (CmdDrawing (dt_native_key target) (NopSave path)) in
      if dr_read_only (dt_drawing target) then Immediate (Inl (ErrReadOnly i))
      else (case path of
        Some p \<Rightarrow> (case ensure_available fs p of
            Inr _ \<Rightarrow> save
          | Inl (PathAlreadyExists _) \<Rightarrow> Immediate (Inl (DestinationExists i))
          | Inl _ \<Rightarrow> Immediate (Inl SavePathUnavailable))
      | None \<Rightarrow> (case file_path (dt_drawing target) of
            None \<Rightarrow> Immediate (Inl (ErrUnnamed i))
          | Some p \<Rightarrow> if \<not> has_dwg_extension (as_bytes p) then Immediate (Inl NotDwg) else save)))"

definition prepare_found ::
  "drawing_registry \<Rightarrow> drawing_id \<Rightarrow> (drawing_target \<Rightarrow> prepared) \<Rightarrow> prepared" where
  "prepare_found drawings i f = (case find_by_id drawings i of
     Some target \<Rightarrow> f target
   | None \<Rightarrow> Immediate (Inl (DrawingNotFound i)))"

definition prepare :: "file_system \<Rightarrow> drawing_registry \<Rightarrow> operation \<Rightarrow> prepared" where
  "prepare fs drawings p = (case p of
     OpOpen path \<Rightarrow> (case find_by_path drawings path of
         None \<Rightarrow> Native (CmdOpen path)
       | Some target \<Rightarrow> Immediate (Inr (OutcomeDrawing (dt_drawing target))))
   | OpSwitch i \<Rightarrow> prepare_found drawings i (\<lambda>target. Native (CmdDrawing (dt_native_key target) NopSwitch))
   | OpSave i path \<Rightarrow> prepare_found drawings i (prepare_save fs i path)
   | OpClose i discard \<Rightarrow> prepare_found drawings i (\<lambda>target.
       if dr_modified (dt_drawing target) \<and> \<not> discard then Immediate (Inl (Dirty i))
       else Native (CmdDrawing (dt_native_key target) (NopClose discard)))
   | OpCapture i region edge captured \<Rightarrow> prepare_found drawings i (\<lambda>target.
       if captured \<noteq> None
       then Immediate (Inl (CaptureInvalid (lit ''capture operation was dispatched more than once'')))
       else Native (CmdDrawing (dt_native_key target) (NopCapture region edge)))
   | OpHistory i direction context1 \<Rightarrow> prepare_found drawings i (\<lambda>target.
       Native (CmdDrawing (dt_native_key target)
         (case direction of HistoryUndo \<Rightarrow> NopUndo context1 | HistoryRedo \<Rightarrow> NopRedo context1)))
   | OpExecute i e _ context1 \<Rightarrow> prepare_found drawings i (\<lambda>target.
       case ex_outcome e of
         Some out \<Rightarrow> Immediate (Inr (OutcomeExec out))
       | None \<Rightarrow> Native (CmdDrawing (dt_native_key target) (NopQueueExecDriver context1))))"

section \<open>Completing\<close>

text \<open>The drawing \<open>i\<close>, provided it is still the document the command was issued for.\<close>

definition completed_target ::
  "drawing_registry \<Rightarrow> native_document_key option \<Rightarrow> drawing_id \<Rightarrow> sched_error + drawing_target" where
  "completed_target drawings native_target i = (case native_target of
     None \<Rightarrow> Inl DrawingGone
   | Some expected \<Rightarrow> (case find_by_id drawings i of
       None \<Rightarrow> Inl DrawingGone
     | Some target \<Rightarrow> if dt_native_key target \<noteq> expected then Inl DrawingGenerationChanged else Inr target))"

definition complete_save ::
  "drawing_registry \<Rightarrow> native_document_key option \<Rightarrow> drawing_id \<Rightarrow> save_path option \<Rightarrow> op_result" where
  "complete_save drawings native_target i path = (case find_by_id drawings i of
     None \<Rightarrow> Inl (DrawingNotFound i)
   | Some target \<Rightarrow> (case native_target of
       None \<Rightarrow> Inl DrawingGone
     | Some expected \<Rightarrow>
         if dt_native_key target \<noteq> expected then Inl DrawingGenerationChanged
         else if dr_modified (dt_drawing target) then Inl SaveNotPublished
         else if (case path of Some p \<Rightarrow> file_path (dt_drawing target) \<noteq> Some (sp_text p) | None \<Rightarrow> False)
         then Inl SaveNotPublished
         else Inr (OutcomeDrawing (dt_drawing target))))"

definition complete ::
  "drawing_registry \<Rightarrow> native_document_key option \<Rightarrow> operation \<Rightarrow> op_result \<times> operation" where
  "complete drawings native_target p = (case p of
     OpOpen path \<Rightarrow> (case find_by_path drawings path of
         Some target \<Rightarrow> (Inr (OutcomeDrawing (dt_drawing target)), p)
       | None \<Rightarrow> (Inl OpenNotPublished, p))
   | OpSwitch i \<Rightarrow> (case completed_target drawings native_target i of
         Inl e \<Rightarrow> (Inl e, p)
       | Inr target \<Rightarrow>
           if \<not> dr_active (dt_drawing target) then (Inl SwitchNotPublished, p)
           else (Inr (OutcomeDrawing (dt_drawing target)), p))
   | OpSave i path \<Rightarrow> (complete_save drawings native_target i path, p)
   | OpClose i _ \<Rightarrow>
       (if find_by_id drawings i \<noteq> None then Inl CloseNotPublished else Inr OutcomeClosed, p)
   | OpCapture i region edge captured \<Rightarrow> (case completed_target drawings native_target i of
         Inl e \<Rightarrow> (Inl e, p)
       | Inr _ \<Rightarrow>
           (case captured of
              Some c \<Rightarrow> Inr (OutcomeCapture c)
            | None \<Rightarrow> Inl (CaptureInvalid (lit ''native capture returned no frame'')),
            OpCapture i region edge None))
   | OpHistory i _ _ \<Rightarrow> (case completed_target drawings native_target i of
         Inl e \<Rightarrow> (Inl e, p)
       | Inr target \<Rightarrow> (Inr (OutcomeDrawing (dt_drawing target)), p))
   | OpExecute i e s context1 \<Rightarrow>
       (let (out, e1) = take_outcome e
        in (case out of Some x \<Rightarrow> Inr (OutcomeExec x) | None \<Rightarrow> Inl ExecNotFinished,
            OpExecute i e1 s context1)))"

section \<open>Changing the execution of an operation\<close>

definition map_execution :: "(exec \<Rightarrow> 'a \<times> exec) \<Rightarrow> operation \<Rightarrow> 'a option \<times> operation" where
  "map_execution f p = (case p of
     OpExecute i e s context1 \<Rightarrow> (let (r, e1) = f e in (Some r, OpExecute i e1 s context1))
   | _ \<Rightarrow> (None, p))"

abbreviation or_false :: "bool option \<times> operation \<Rightarrow> bool \<times> operation" where
  "or_false r \<equiv> (fst r = Some True, snd r)"

definition record_native_capture :: "capture_result \<Rightarrow> byte list \<Rightarrow> operation \<Rightarrow> (sched_error + unit) \<times> operation" where
  "record_native_capture r pixels p = (case p of
     OpCapture i region edge _ \<Rightarrow> (case interpret_capture r pixels i of
         Inl e \<Rightarrow> (Inl e, p)
       | Inr c \<Rightarrow> (Inr (), OpCapture i region edge (Some c)))
   | _ \<Rightarrow> (Inl (CaptureInvalid (lit ''native capture completed a different operation'')), p))"

definition op_expire_before_start :: "ustr \<Rightarrow> operation \<Rightarrow> bool \<times> operation" where
  "op_expire_before_start detail p = or_false (map_execution (expire_before_start detail) p)"

definition op_finish_cancel_before_start :: "operation \<Rightarrow> bool \<times> operation" where
  "op_finish_cancel_before_start p = or_false (map_execution (\<lambda>e.
     if \<not> ex_form_handed_off e \<and> ex_cancel_requested e then cancel_before_start e else (False, e)) p)"

definition op_request_cancel :: "operation \<Rightarrow> (bool \<times> sink) option \<times> operation" where
  "op_request_cancel p = (case p of
     OpExecute i e s context1 \<Rightarrow> (let (r, e1) = request_cancel e in (Some (r, s), OpExecute i e1 s context1))
   | _ \<Rightarrow> (None, p))"

definition op_cancel_before_start :: "operation \<Rightarrow> sink option \<times> operation" where
  "op_cancel_before_start p = (case p of
     OpExecute i e s context1 \<Rightarrow>
       (let (r, e1) = cancel_before_start e in (if r then Some s else None, OpExecute i e1 s context1))
   | _ \<Rightarrow> (None, p))"

definition op_take_execution_step :: "operation \<Rightarrow> native_exec_step \<times> operation" where
  "op_take_execution_step p = (case map_execution take_step p of
     (Some s, p1) \<Rightarrow> (s, p1) | (None, p1) \<Rightarrow> (step_new SkInvalid, p1))"

definition op_acquire_eval_value_output :: "operation \<Rightarrow> value_lease option \<times> operation" where
  "op_acquire_eval_value_output p = (case map_execution acquire_eval_value_output p of
     (Some l, p1) \<Rightarrow> (l, p1) | (None, p1) \<Rightarrow> (None, p1))"

definition op_acquire_form_output :: "operation \<Rightarrow> value_lease option \<times> operation" where
  "op_acquire_form_output p = (case map_execution acquire_form_output p of
     (Some l, p1) \<Rightarrow> (l, p1) | (None, p1) \<Rightarrow> (None, p1))"

definition op_complete_execution_step :: "step_result \<Rightarrow> operation \<Rightarrow> bool \<times> operation" where
  "op_complete_execution_step r p = or_false (map_execution (complete_step r) p)"

definition op_abandon_execution :: "step_result \<Rightarrow> operation \<Rightarrow> bool \<times> operation" where
  "op_abandon_execution r p = or_false (map_execution (abandon r) p)"

section \<open>What the host answered\<close>

definition or_unknown :: "action_result_kind \<Rightarrow> (drawing_id \<Rightarrow> sched_error) \<Rightarrow> operation \<Rightarrow> sched_error + unit" where
  "or_unknown k err p = (case op_drawing_id p of
     Some i \<Rightarrow> Inl (err i) | None \<Rightarrow> Inl (UnknownResult (action_result_repr k)))"

definition interpret_result :: "action_result \<Rightarrow> operation \<Rightarrow> sched_error + unit" where
  "interpret_result r p =
     (let failure = \<lparr>nf_status = ar_native_status r, nf_detail = ar_native_detail r\<rparr> in
      case ar_kind r of
        ArSuccess \<Rightarrow> Inr ()
      | ArDrawingGone \<Rightarrow> Inl DrawingGone
      | ArDrawingGenerationChanged \<Rightarrow> Inl DrawingGenerationChanged
      | ArUnnamed \<Rightarrow> or_unknown ArUnnamed ErrUnnamed p
      | ArReadOnly \<Rightarrow> or_unknown ArReadOnly ErrReadOnly p
      | ArNotActive \<Rightarrow> or_unknown ArNotActive NotActive p
      | ArDirty \<Rightarrow> or_unknown ArDirty Dirty p
      | ArDestinationExists \<Rightarrow> or_unknown ArDestinationExists DestinationExists p
      | ArOpenFailed \<Rightarrow> Inl (OpenFailed failure)
      | ArSwitchFailed \<Rightarrow> Inl (SwitchFailed failure)
      | ArSaveFailed \<Rightarrow> Inl (SaveFailed failure)
      | ArCloseFailed \<Rightarrow> Inl (CloseFailed failure)
      | ArHistoryFailed \<Rightarrow> (case p of
            OpHistory _ direction _ \<Rightarrow> Inl (HistoryFailed direction failure)
          | _ \<Rightarrow> Inl (UnknownResult (action_result_repr ArHistoryFailed)))
      | ArNotQuiescent \<Rightarrow> Inl NotQuiescent
      | ArUndoDisabled \<Rightarrow> Inl UndoDisabled
      | ArDocumentContextFailed \<Rightarrow> Inl (DocumentContextFailed failure)
      | ArDocumentContextRestoreFailed \<Rightarrow> Inl (DocumentContextRestoreFailed failure)
      | ArExecBridgeFinalizationFailed \<Rightarrow> Inl (ExecBridgeFinalizationFailed failure)
      | ArExecBridgeSymbolsClearFailed \<Rightarrow> Inl (ExecBridgeSymbolsClearFailed failure)
      | ArExecBridgeFailed \<Rightarrow> Inl (ExecBridgeFailed failure)
      | ArCaptureUnavailable \<Rightarrow> Inl (CaptureUnavailable (nf_detail failure))
      | ArCaptureInvalid \<Rightarrow> Inl (CaptureInvalid (nf_detail failure))
      | ArCaptureRestoreFailed \<Rightarrow> Inl (CaptureRestoreFailed (nf_detail failure))
      | ArOther k \<Rightarrow> Inl (UnknownResult k))"

definition complete_native ::
  "action_result \<Rightarrow> drawing_registry \<Rightarrow> native_document_key option \<Rightarrow> operation \<Rightarrow> op_result \<times> operation" where
  "complete_native r drawings native_target p =
     (if op_execution_has_outcome p
         \<and> ar_kind r \<notin> {ArDocumentContextRestoreFailed, ArExecBridgeFinalizationFailed,
              ArExecBridgeSymbolsClearFailed, ArExecBridgeFailed}
      then complete drawings native_target p
      else if ar_kind r = ArExecBridgeSymbolsClearFailed
         \<and> op_execution_failed p
      then complete drawings native_target p
      else if ar_kind r \<in> {ArDocumentContextRestoreFailed, ArExecBridgeFinalizationFailed}
         \<and> op_execution_has_outcome p
      then complete drawings native_target (snd (map_execution (record_bridge_finalization_failure
             \<lparr>sr_kind = ResNativeError, sr_native_status = ar_native_status r, sr_lisp_errno = 0,
              sr_detail = ar_native_detail r, sr_clear_status = 0\<rparr>) p))
      else (case interpret_result r p of
        Inl e \<Rightarrow> (Inl e, p)
      | Inr _ \<Rightarrow> complete drawings native_target p))"

end
