(* ===== verification/Sched_Queue.thy ===== *)
theory Sched_Queue
  imports Sched_Operation
begin

text \<open>
  The mutation scheduler, \<open>crates/plugin/src/scheduler/queue.rs\<close>: its state and every method that runs
  under its lock, with the constants of \<open>timer.rs\<close>.  Instants and durations are nanoseconds in
  \<open>nat\<close> (the end of the clock's range is not modelled).  The two statics the methods draw from, the next job ID and
  the supply of one-shot completion channels, are fields of the state; a completion channel is the
  number it was created under.  Reading the clock and locking are the callers' business
  (\<open>Sched_World\<close>), so \<open>now\<close> is an argument.
\<close>

section \<open>Data\<close>

definition millis :: "nat \<Rightarrow> nat" where "millis n = n * 1000000"
definition secs :: "nat \<Rightarrow> nat" where "secs n = n * 1000000000"

definition READINESS_TIMEOUT :: nat where "READINESS_TIMEOUT = secs 60"
definition READINESS_RETRY_INITIAL :: nat where "READINESS_RETRY_INITIAL = millis 50"
definition READINESS_RETRY_MAX :: nat where "READINESS_RETRY_MAX = millis 500"

definition MAX_MUTATION_JOBS :: nat where "MAX_MUTATION_JOBS = 32"
definition MAX_ADMITTED_EXECUTIONS :: nat where "MAX_ADMITTED_EXECUTIONS = 8"
definition MAX_ADMITTED_SOURCE_BYTES :: nat where "MAX_ADMITTED_SOURCE_BYTES = 32 * 1024 * 1024"

text \<open>\<open>Duration::MAX\<close> bounds \<open>saturating_mul\<close>.\<close>

definition DURATION_MAX :: nat where "DURATION_MAX = secs (2 ^ 64 - 1) + 999999999"

type_synonym job_id = "64 word"
type_synonym completion = nat

datatype wait_state =
    WaitQueued nat
  | WaitReady nat nat
  | WaitDeferred nat nat nat

record mutation_job =
  jb_job_id :: job_id
  jb_operation :: operation
  jb_native_target :: "native_document_key option"
  jb_wait :: wait_state
  jb_execution_reservation :: "nat option"
  jb_capture_reservation :: bool
  jb_completion :: completion

record scheduler =
  sc_drawings :: drawing_registry
  sc_pending :: "mutation_job list"
  sc_active :: "mutation_job option"
  sc_wake_pending :: bool
  sc_stopping :: bool
  sc_quarantined :: bool
  sc_next_job_id :: job_id
  sc_next_completion :: completion

text \<open>An answer on its way: the channel, the answer, and the output to finish first.\<close>

type_synonym answer = "completion \<times> op_result \<times> sink option"
type_synonym stopped_job = "completion \<times> sink option"

datatype submission_decision = SubmitImmediate op_result | SubmitQueued completion bool
datatype take_decision = TakeAction native_action | TakeComplete answer | TakeIdle
datatype cancel_result = CancelAccepted | CancelTooLate | CancelNotFound | CancelUnavailable
datatype cancel_decision =
    CancelActive sink
  | CancelPending sink completion bool
  | CancelResult cancel_result

section \<open>Waiting for readiness\<close>

definition wait_queued :: "nat \<Rightarrow> wait_state" where
  "wait_queued now = WaitQueued (now + READINESS_TIMEOUT)"

definition wait_deadline :: "wait_state \<Rightarrow> nat" where
  "wait_deadline w = (case w of WaitQueued d \<Rightarrow> d | WaitReady d _ \<Rightarrow> d | WaitDeferred d _ _ \<Rightarrow> d)"

definition wait_begin_readiness :: "nat \<Rightarrow> wait_state \<Rightarrow> wait_state" where
  "wait_begin_readiness now w = (case w of
     WaitQueued _ \<Rightarrow> WaitReady (now + READINESS_TIMEOUT) READINESS_RETRY_INITIAL
   | _ \<Rightarrow> w)"

definition wait_retry_at :: "wait_state \<Rightarrow> nat option" where
  "wait_retry_at w = (case w of WaitDeferred _ retry_at _ \<Rightarrow> Some retry_at | _ \<Rightarrow> None)"

definition wait_retry_now :: "wait_state \<Rightarrow> wait_state" where
  "wait_retry_now w = (case w of
     WaitDeferred deadline _ retry_delay \<Rightarrow> WaitReady deadline retry_delay | _ \<Rightarrow> w)"

definition wait_readiness_may_have_changed :: "wait_state \<Rightarrow> wait_state" where
  "wait_readiness_may_have_changed w = (case w of
     WaitDeferred deadline _ _ \<Rightarrow> WaitReady deadline READINESS_RETRY_INITIAL | _ \<Rightarrow> w)"

definition wait_defer :: "nat \<Rightarrow> wait_state \<Rightarrow> wait_state" where
  "wait_defer now w = (case w of
     WaitReady deadline retry_delay \<Rightarrow>
       WaitDeferred deadline (min (now + retry_delay) deadline)
         (min (min (retry_delay * 2) DURATION_MAX) READINESS_RETRY_MAX)
   | _ \<Rightarrow> w)"

section \<open>Jobs\<close>

definition wait_is_due :: "nat \<Rightarrow> mutation_job \<Rightarrow> bool" where
  "wait_is_due now j \<longleftrightarrow> now \<ge> wait_deadline (jb_wait j)"

definition is_deferred :: "mutation_job \<Rightarrow> bool" where
  "is_deferred j \<longleftrightarrow> (case jb_wait j of WaitDeferred _ _ _ \<Rightarrow> True | _ \<Rightarrow> False)"

definition retry_is_due :: "nat \<Rightarrow> mutation_job \<Rightarrow> bool" where
  "retry_is_due now j = (case wait_retry_at (jb_wait j) of Some retry_at \<Rightarrow> now \<ge> retry_at | None \<Rightarrow> False)"

definition timeout_detail :: ustr where
  "timeout_detail = lit ''AutoCAD did not become ready within '' @ dec_nat (READINESS_TIMEOUT div secs 1)
     @ lit '' seconds''"

definition expire_active_execution_if_due :: "nat \<Rightarrow> mutation_job \<Rightarrow> bool \<times> mutation_job" where
  "expire_active_execution_if_due now j =
     (if \<not> wait_is_due now j \<or> \<not> op_readiness_wait_pending (jb_operation j) then (False, j)
      else (let (r, p) = op_expire_before_start timeout_detail (jb_operation j) in (r, j\<lparr>jb_operation := p\<rparr>)))"

definition wait_timeout_outcome ::
  "drawing_registry \<Rightarrow> native_document_key option \<Rightarrow> mutation_job \<Rightarrow> op_result \<times> mutation_job" where
  "wait_timeout_outcome drawings native_target j =
     (if op_is_execution (jb_operation j) then
        (let (_, p) = op_expire_before_start timeout_detail (jb_operation j);
             (r, p1) = complete drawings native_target p
         in (r, j\<lparr>jb_operation := p1\<rparr>))
      else (Inl (ReadinessTimedOut (op_drawing_id (jb_operation j))), j))"

definition begin_readiness :: "nat \<Rightarrow> mutation_job \<Rightarrow> mutation_job" where
  "begin_readiness now j = j\<lparr>jb_wait := wait_begin_readiness now (jb_wait j)\<rparr>"

definition retry_now :: "mutation_job \<Rightarrow> mutation_job" where
  "retry_now j = j\<lparr>jb_wait := wait_retry_now (jb_wait j)\<rparr>"

definition readiness_may_have_changed :: "mutation_job \<Rightarrow> mutation_job" where
  "readiness_may_have_changed j = j\<lparr>jb_wait := wait_readiness_may_have_changed (jb_wait j)\<rparr>"

definition defer_for_readiness :: "nat \<Rightarrow> mutation_job \<Rightarrow> mutation_job" where
  "defer_for_readiness now j = j\<lparr>jb_wait := wait_defer now (jb_wait j)\<rparr>"

text \<open>The answer a job is removed with, and the job it leaves nothing of: its output is read before
  the operation gives up its outcome.\<close>

definition stopped_of :: "mutation_job \<Rightarrow> stopped_job" where
  "stopped_of j = (jb_completion j, op_output_sink (jb_operation j))"

definition timed_out_answer ::
  "drawing_registry \<Rightarrow> native_document_key option \<Rightarrow> mutation_job \<Rightarrow> answer" where
  "timed_out_answer drawings native_target j =
     (jb_completion j, fst (wait_timeout_outcome drawings native_target j), op_output_sink (jb_operation j))"

section \<open>The scheduler\<close>

definition new_scheduler :: scheduler where
  "new_scheduler = \<lparr>sc_drawings = new_registry, sc_pending = [], sc_active = None, sc_wake_pending = False,
     sc_stopping = False, sc_quarantined = False, sc_next_job_id = 1, sc_next_completion = 0\<rparr>"

definition active_jobs :: "scheduler \<Rightarrow> mutation_job list" where
  "active_jobs s = (case sc_active s of Some j \<Rightarrow> [j] | None \<Rightarrow> [])"

definition sched_idle :: "scheduler \<Rightarrow> bool" where
  "sched_idle s \<longleftrightarrow> sc_active s = None \<and> sc_pending s = [] \<and> \<not> sc_wake_pending s"

definition sched_list :: "scheduler \<Rightarrow> drawing list" where
  "sched_list s = registry_list (sc_drawings s)"

definition replace_drawing_snapshot ::
  "(nat \<Rightarrow> ustr) \<Rightarrow> nat \<Rightarrow> native_document_snapshot list \<Rightarrow> scheduler \<Rightarrow> (nat \<times> scheduler) option" where
  "replace_drawing_snapshot gen k nds s = (case replace_snapshot gen k nds (sc_drawings s) of
     None \<Rightarrow> None | Some (k1, ds) \<Rightarrow> Some (k1, s\<lparr>sc_drawings := ds\<rparr>))"

definition sched_start :: "scheduler \<Rightarrow> scheduler" where
  "sched_start s = s\<lparr>sc_stopping := False\<rparr>"

definition execution_usage :: "scheduler \<Rightarrow> nat \<times> nat" where
  "execution_usage s = fold (\<lambda>source_bytes (count, bytes). (count + 1, bytes + source_bytes))
     (List.map_filter (\<lambda>j. op_execution_source_bytes (jb_operation j)) (sc_pending s @ active_jobs s)) (0, 0)"

definition mutation_job_count :: "scheduler \<Rightarrow> nat" where
  "mutation_job_count s = length (sc_pending s) + length (active_jobs s)"

definition request_wake :: "scheduler \<Rightarrow> bool \<times> scheduler" where
  "request_wake s =
     (if sc_stopping s \<or> sc_quarantined s \<or> sc_active s \<noteq> None \<or> sc_pending s = []
         \<or> is_deferred (hd (sc_pending s)) \<or> sc_wake_pending s
      then (False, s)
      else (True, s\<lparr>sc_wake_pending := True\<rparr>))"

subsection \<open>The active execution\<close>

text \<open>\<open>self.active.as_mut().filter(|job| job.job_id == job_id)\<close>, and an operation on its operation.\<close>

definition active_with :: "job_id \<Rightarrow> scheduler \<Rightarrow> mutation_job option" where
  "active_with i s = (case sc_active s of
     Some j \<Rightarrow> if jb_job_id j = i then Some j else None | None \<Rightarrow> None)"

definition on_active_operation ::
  "(operation \<Rightarrow> 'a \<times> operation) \<Rightarrow> mutation_job \<Rightarrow> scheduler \<Rightarrow> 'a \<times> scheduler" where
  "on_active_operation f j s =
     (let (r, p) = f (jb_operation j) in (r, s\<lparr>sc_active := Some (j\<lparr>jb_operation := p\<rparr>)\<rparr>))"

definition take_execution_step :: "job_id \<Rightarrow> nat \<Rightarrow> scheduler \<Rightarrow> native_exec_step \<times> scheduler" where
  "take_execution_step i now s = (case active_with i s of
     None \<Rightarrow> (step_new SkInvalid, s)
   | Some j \<Rightarrow> on_active_operation op_take_execution_step (snd (expire_active_execution_if_due now j)) s)"

definition sched_acquire_eval_value_output ::
  "job_id \<Rightarrow> native_document_key \<Rightarrow> scheduler \<Rightarrow> value_lease option \<times> scheduler" where
  "sched_acquire_eval_value_output i target s = (case active_with i s of
     Some j \<Rightarrow> if jb_native_target j = Some target
               then on_active_operation op_acquire_eval_value_output j s else (None, s)
   | None \<Rightarrow> (None, s))"

definition sched_acquire_form_output ::
  "job_id \<Rightarrow> native_document_key \<Rightarrow> scheduler \<Rightarrow> value_lease option \<times> scheduler" where
  "sched_acquire_form_output i target s = (case active_with i s of
     Some j \<Rightarrow> if jb_native_target j = Some target
               then on_active_operation op_acquire_form_output j s else (None, s)
   | None \<Rightarrow> (None, s))"

definition complete_execution_step :: "job_id \<Rightarrow> step_result \<Rightarrow> scheduler \<Rightarrow> bool \<times> scheduler" where
  "complete_execution_step i r s = (case active_with i s of
     Some j \<Rightarrow> on_active_operation (op_complete_execution_step r) j s | None \<Rightarrow> (False, s))"

definition abandon_execution :: "job_id \<Rightarrow> step_result \<Rightarrow> scheduler \<Rightarrow> bool \<times> scheduler" where
  "abandon_execution i r s = (case active_with i s of
     Some j \<Rightarrow> on_active_operation (op_abandon_execution r) j s | None \<Rightarrow> (False, s))"

definition sched_record_capture ::
  "job_id \<Rightarrow> capture_result \<Rightarrow> byte list \<Rightarrow> scheduler \<Rightarrow> (sched_error + unit) option \<times> scheduler" where
  "sched_record_capture i r pixels s = (case active_with i s of
     Some j \<Rightarrow> (let (x, s1) = on_active_operation (record_native_capture r pixels) j s in (Some x, s1))
   | None \<Rightarrow> (None, s))"

subsection \<open>Timers\<close>

definition next_timer_deadline :: "scheduler \<Rightarrow> nat option" where
  "next_timer_deadline s = list_min
     (map (\<lambda>j. wait_deadline (jb_wait j)) (filter (\<lambda>j. op_readiness_wait_pending (jb_operation j)) (active_jobs s))
      @ map (\<lambda>j. wait_deadline (jb_wait j)) (sc_pending s)
      @ (case sc_pending s of
           j # _ \<Rightarrow> (case wait_retry_at (jb_wait j) of Some t \<Rightarrow> [t] | None \<Rightarrow> [])
         | [] \<Rightarrow> []))"

fun expire_pending :: "nat \<Rightarrow> drawing_registry \<Rightarrow> mutation_job list \<Rightarrow> answer list \<times> mutation_job list" where
  "expire_pending now drawings [] = ([], [])"
| "expire_pending now drawings (j # js) =
     (let (expired, rest) = expire_pending now drawings js in
      if \<not> wait_is_due now j then (expired, j # rest)
      else (timed_out_answer drawings None j # expired, rest))"

definition retry_head :: "nat \<Rightarrow> mutation_job list \<Rightarrow> mutation_job list" where
  "retry_head now js = (case js of
     j # rest \<Rightarrow> (if retry_is_due now j then retry_now j else j) # rest | [] \<Rightarrow> [])"

definition process_due_timers :: "nat \<Rightarrow> scheduler \<Rightarrow> answer list \<times> bool \<times> scheduler" where
  "process_due_timers now s =
     (let active = map_option (\<lambda>j. snd (expire_active_execution_if_due now j)) (sc_active s);
          (expired, pending) = expire_pending now (sc_drawings s) (sc_pending s);
          (should_wake, s1) = request_wake (s\<lparr>sc_active := active, sc_pending := retry_head now pending\<rparr>)
      in (expired, should_wake, s1))"

definition native_state_may_be_ready :: "scheduler \<Rightarrow> bool \<times> scheduler" where
  "native_state_may_be_ready s = request_wake
     (s\<lparr>sc_pending := (case sc_pending s of
          j # rest \<Rightarrow> (if is_deferred j then readiness_may_have_changed j else j) # rest | [] \<Rightarrow> [])\<rparr>)"

subsection \<open>Stopping\<close>

definition sched_stop :: "scheduler \<Rightarrow> (sink option \<times> stopped_job list) \<times> scheduler" where
  "sched_stop s =
     (let (active_output, active) = (case sc_active s of
            Some j \<Rightarrow> (let (r, p) = op_request_cancel (jb_operation j)
                       in (map_option snd r, Some (j\<lparr>jb_operation := p\<rparr>)))
          | None \<Rightarrow> (None, None))
      in ((active_output, map stopped_of (sc_pending s)),
          s\<lparr>sc_stopping := True, sc_wake_pending := False, sc_active := active, sc_pending := []\<rparr>))"

subsection \<open>Admission\<close>

definition admit_execution ::
  "file_system \<Rightarrow> drawing_id \<Rightarrow> exec \<Rightarrow> sink \<Rightarrow> document_context_policy \<Rightarrow> nat \<Rightarrow> nat \<Rightarrow> scheduler
     \<Rightarrow> (sched_error + (job_id \<times> completion \<times> bool \<times> answer option)) \<times> scheduler" where
  "admit_execution fs i execution output context1 reservation now s =
     (if sc_stopping s then (Inl PluginStopping, s)
      else if sc_quarantined s then (Inl NativeMutationStateUnknown, s)
      else
        (let job_id = sc_next_job_id s;
             completion = sc_next_completion s;
             s1 = s\<lparr>sc_next_job_id := job_id + 1, sc_next_completion := completion + 1\<rparr>;
             operation = OpExecute i execution output context1
         in
         if ex_outcome execution \<noteq> None then
           (let out = (case prepare fs (sc_drawings s1) operation of
                  Immediate x \<Rightarrow> x | Native _ \<Rightarrow> Inl ExecNotFinished)
            in (Inr (job_id, completion, False, Some (completion, out, op_output_sink operation)), s1))
         else if mutation_job_count s1 \<ge> MAX_MUTATION_JOBS then (Inl MutationCapacity, s1)
         else if fst (execution_usage s1) \<ge> MAX_ADMITTED_EXECUTIONS
              \<or> sat_add64 (snd (execution_usage s1)) (source_bytes execution) > MAX_ADMITTED_SOURCE_BYTES
         then (Inl ExecCapacity, s1)
         else
           (let s2 = s1\<lparr>sc_pending := sc_pending s1 @ [\<lparr>jb_job_id = job_id, jb_operation = operation,
                  jb_native_target = None, jb_wait = wait_queued now, jb_execution_reservation = Some reservation,
                  jb_capture_reservation = False, jb_completion = completion\<rparr>]\<rparr>;
                (should_wake, s3) = request_wake s2
            in (Inr (job_id, completion, should_wake, None), s3))))"

definition submit_operation ::
  "file_system \<Rightarrow> operation \<Rightarrow> bool \<Rightarrow> nat \<Rightarrow> scheduler \<Rightarrow> (sched_error + submission_decision) \<times> scheduler" where
  "submit_operation fs operation capture_reservation now s =
     (if sc_stopping s then (Inl PluginStopping, s)
      else if sc_quarantined s then (Inl NativeMutationStateUnknown, s)
      else if mutation_job_count s \<ge> MAX_MUTATION_JOBS then (Inl MutationCapacity, s)
      else (case (sched_idle s, prepare fs (sc_drawings s) operation) of
        (True, Immediate out) \<Rightarrow> (Inr (SubmitImmediate out), s)
      | _ \<Rightarrow>
        (let completion = sc_next_completion s;
             s1 = s\<lparr>sc_next_job_id := sc_next_job_id s + 1, sc_next_completion := completion + 1,
                    sc_pending := sc_pending s @ [\<lparr>jb_job_id = sc_next_job_id s, jb_operation = operation,
                      jb_native_target = None, jb_wait = wait_queued now, jb_execution_reservation = None,
                      jb_capture_reservation = capture_reservation, jb_completion = completion\<rparr>]\<rparr>;
             (should_wake, s2) = request_wake s1
         in (Inr (SubmitQueued completion should_wake), s2))))"

subsection \<open>Native actions\<close>

definition take_native_action :: "file_system \<Rightarrow> nat \<Rightarrow> scheduler \<Rightarrow> take_decision \<times> scheduler" where
  "take_native_action fs now s0 =
     (let s = s0\<lparr>sc_wake_pending := False\<rparr> in
      if sc_stopping s \<or> sc_quarantined s \<or> sc_active s \<noteq> None then (TakeIdle, s)
      else (case sc_pending s of
        [] \<Rightarrow> (TakeIdle, s)
      | job # rest \<Rightarrow>
          if is_deferred job then (TakeIdle, s)
          else if wait_is_due now job then
            (TakeComplete (timed_out_answer (sc_drawings s) None job), s\<lparr>sc_pending := rest\<rparr>)
          else
            (let job1 = begin_readiness now job in
             case prepare fs (sc_drawings s) (jb_operation job1) of
               Immediate out \<Rightarrow>
                 (TakeComplete (jb_completion job1, out, op_output_sink (jb_operation job1)), s\<lparr>sc_pending := rest\<rparr>)
             | Native command \<Rightarrow>
                 (TakeAction (ActionIssued (jb_job_id job1) command),
                  s\<lparr>sc_pending := rest, sc_active := Some (job1\<lparr>jb_native_target := command_target command\<rparr>)\<rparr>))))"

text \<open>What \<open>complete_native_action\<close> does with a job whose host was not ready: the answer, if there is one
  already, or the job to put back.\<close>

definition waited_outcome ::
  "drawing_registry \<Rightarrow> action_result \<Rightarrow> nat \<Rightarrow> mutation_job \<Rightarrow> (mutation_job + op_result option) \<times> mutation_job" where
  "waited_outcome drawings r now j =
     (if ar_kind r = ArNotQuiescent \<and> op_can_wait_for_readiness (jb_operation j) then
        (let (cancelled, p) = op_finish_cancel_before_start (jb_operation j); j1 = j\<lparr>jb_operation := p\<rparr> in
         if cancelled \<or> op_execution_has_outcome p then
           (let (x, p1) = complete drawings (jb_native_target j1) p in (Inr (Some x), j1\<lparr>jb_operation := p1\<rparr>))
         else if wait_is_due now j1 then
           (let (x, j2) = wait_timeout_outcome drawings (jb_native_target j1) j1 in (Inr (Some x), j2))
         else (Inl (defer_for_readiness now (j1\<lparr>jb_native_target := None\<rparr>)), j1))
      else (Inr None, j))"

definition complete_native_action ::
  "job_id \<Rightarrow> action_result \<Rightarrow> bool \<Rightarrow> nat \<Rightarrow> scheduler
     \<Rightarrow> (answer option \<times> stopped_job list \<times> bool) \<times> scheduler" where
  "complete_native_action i r quarantine now s = (case sc_active s of
     None \<Rightarrow> ((None, [], False), s)
   | Some job \<Rightarrow>
       if jb_job_id job \<noteq> i then ((None, [], False), s)
       else (case waited_outcome (sc_drawings s) r now job of
         (Inl job1, _) \<Rightarrow> ((None, [], True), s\<lparr>sc_active := None, sc_pending := job1 # sc_pending s\<rparr>)
       | (Inr waited, job1) \<Rightarrow>
           (let output = op_output_sink (jb_operation job1);
                out = (case waited of
                    Some x \<Rightarrow> x
                  | None \<Rightarrow> fst (complete_native r (sc_drawings s) (jb_native_target job1) (jb_operation job1)));
                (rejected, s1) =
                  (if quarantine then
                     (map stopped_of (sc_pending s),
                      s\<lparr>sc_active := None, sc_quarantined := True, sc_wake_pending := False, sc_pending := []\<rparr>)
                   else ([], s\<lparr>sc_active := None\<rparr>))
            in ((Some (jb_completion job1, out, output), rejected, False), s1))))"

definition cancel_execution :: "job_id \<Rightarrow> scheduler \<Rightarrow> cancel_decision \<times> scheduler" where
  "cancel_execution i s = (case active_with i s of
     Some j \<Rightarrow> (let (r, s1) = on_active_operation op_request_cancel j s in
       (case r of
          Some (True, output) \<Rightarrow> CancelActive output
        | Some (False, _) \<Rightarrow> CancelResult CancelTooLate
        | None \<Rightarrow> CancelResult CancelNotFound, s1))
   | None \<Rightarrow>
       (case find_index (\<lambda>j. jb_job_id j = i \<and> op_is_execution (jb_operation j)) (sc_pending s) of
          None \<Rightarrow> (CancelResult CancelNotFound, s)
        | Some index \<Rightarrow>
            (let job = sc_pending s ! index; (r, p) = op_cancel_before_start (jb_operation job) in
             case r of
               None \<Rightarrow> (CancelResult CancelTooLate, s\<lparr>sc_pending := (sc_pending s)[index := job\<lparr>jb_operation := p\<rparr>]\<rparr>)
             | Some output \<Rightarrow>
                 (let (should_wake, s1) = request_wake (s\<lparr>sc_pending := remove_at index (sc_pending s)\<rparr>)
                  in (CancelPending output (jb_completion job) should_wake, s1)))))"

definition sched_wake_failed :: "nat \<Rightarrow> scheduler \<Rightarrow> (answer option \<times> bool) \<times> scheduler" where
  "sched_wake_failed now s0 =
     (let s = s0\<lparr>sc_wake_pending := False\<rparr> in
      if sc_stopping s \<or> sc_quarantined s \<or> sc_active s \<noteq> None then ((None, False), s)
      else (case sc_pending s of
        [] \<Rightarrow> ((None, False), s)
      | job # rest \<Rightarrow>
          if wait_is_due now job then
            (let (should_wake, s1) = request_wake (s\<lparr>sc_pending := rest\<rparr>)
             in ((Some (timed_out_answer (sc_drawings s) None job), should_wake), s1))
          else ((None, False),
            s\<lparr>sc_pending := defer_for_readiness now (begin_readiness now job) # rest\<rparr>)))"

end
