(* ===== verification/Sched_Contract.thy ===== *)
theory Sched_Contract
  imports Sched_Queue Exec_Invariant "HOL-Library.Sublist"
begin

text \<open>
  The interface between the scheduler and the executions it runs.  The scheduler changes an
  execution only through a fixed set of operations; the locale \<open>execution_contract\<close> states what it
  relies on: a property every one of them keeps.  Inside it, each method of the scheduler is shown
  to keep the property for all the jobs it holds.  The interpretation is for the executions that
  can arise at all (\<open>exec_reach\<close>), so what \<open>Exec_Properties\<close> proves of those holds of every execution
  in the scheduler.
\<close>

section \<open>What operations leave alone\<close>

text \<open>The parts of an operation no step of it changes.\<close>

definition op_identity :: "operation \<Rightarrow> sink option \<times> drawing_id option \<times> nat option" where
  "op_identity p = (op_output_sink p, op_drawing_id p, op_execution_source_bytes p)"

lemmas op_reads = op_execution_def op_output_sink_def op_drawing_id_def op_execution_source_bytes_def

lemma map_execution_identity:
  assumes "\<And>e. same_input (snd (f e)) e"
  shows "op_identity (snd (map_execution f p)) = op_identity p"
  using assms by (auto simp: op_identity_def map_execution_def op_reads same_input_def source_bytes_def
      split: operation.splits prod.splits) (metis snd_conv)

lemma take_step_same_input: "same_input (snd (take_step e)) e"
  using take_step_mode by (simp add: same_input_def)

lemma same_input_refl [simp]: "same_input e e"
  by (simp add: same_input_def)

lemma op_request_cancel_eq:
  "snd (op_request_cancel p) = snd (map_execution request_cancel p)"
  "snd (op_cancel_before_start p) = snd (map_execution cancel_before_start p)"
  by (simp_all add: op_request_cancel_def op_cancel_before_start_def map_execution_def split_beta split: operation.splits)

lemma op_steps_eq:
  "snd (op_take_execution_step p) = snd (map_execution take_step p)"
  "snd (op_acquire_eval_value_output p) = snd (map_execution acquire_eval_value_output p)"
  "snd (op_acquire_form_output p) = snd (map_execution acquire_form_output p)"
  by (simp_all add: op_take_execution_step_def op_acquire_eval_value_output_def op_acquire_form_output_def
      split: prod.splits option.splits)

lemma op_identity_steps [simp]:
  "op_identity (snd (op_expire_before_start m p)) = op_identity p"
  "op_identity (snd (op_finish_cancel_before_start p)) = op_identity p"
  "op_identity (snd (op_request_cancel p)) = op_identity p"
  "op_identity (snd (op_cancel_before_start p)) = op_identity p"
  "op_identity (snd (op_take_execution_step p)) = op_identity p"
  "op_identity (snd (op_acquire_eval_value_output p)) = op_identity p"
  "op_identity (snd (op_acquire_form_output p)) = op_identity p"
  "op_identity (snd (op_complete_execution_step r p)) = op_identity p"
  "op_identity (snd (op_abandon_execution r p)) = op_identity p"
  by (simp_all add: op_expire_before_start_def op_finish_cancel_before_start_def op_request_cancel_eq op_steps_eq
      op_complete_execution_step_def op_abandon_execution_def map_execution_identity others_same_input
      take_step_same_input complete_step_same_input)

lemma record_native_capture_identity [simp]:
  "op_identity (snd (record_native_capture r pixels p)) = op_identity p"
  by (cases p) (auto simp: record_native_capture_def op_identity_def op_reads split: sum.splits)

section \<open>The jobs of a scheduler\<close>

definition jobs_of :: "scheduler \<Rightarrow> mutation_job list" where
  "jobs_of s = active_jobs s @ sc_pending s"

text \<open>What identifies a job to the outside: its completion channel, and its operation's identity.\<close>

definition ticket :: "mutation_job \<Rightarrow> completion \<times> sink option \<times> drawing_id option \<times> nat option" where
  "ticket j = (jb_completion j, op_identity (jb_operation j))"

fun op_ok :: "(exec \<Rightarrow> bool) \<Rightarrow> operation \<Rightarrow> bool" where
  "op_ok ok (OpExecute i e s c) = ok e"
| "op_ok ok _ = True"

definition jobs_ok :: "(exec \<Rightarrow> bool) \<Rightarrow> scheduler \<Rightarrow> bool" where
  "jobs_ok ok s \<longleftrightarrow> (\<forall>j\<in>set (jobs_of s). op_ok ok (jb_operation j))"

lemma jobs_ok_iff:
  "jobs_ok ok s \<longleftrightarrow> (\<forall>j. sc_active s = Some j \<longrightarrow> op_ok ok (jb_operation j))
     \<and> (\<forall>j\<in>set (sc_pending s). op_ok ok (jb_operation j))"
  by (auto simp: jobs_ok_def jobs_of_def active_jobs_def split: option.splits)

lemma active_with_Some: "active_with i s = Some j \<longleftrightarrow> sc_active s = Some j \<and> jb_job_id j = i"
  by (auto simp: active_with_def split: option.splits)

lemma jobs_of_simps [sched_simps]:
  "sc_active s = Some j \<Longrightarrow> jobs_of s = j # sc_pending s"
  "sc_active s = None \<Longrightarrow> jobs_of s = sc_pending s"
  by (simp_all add: jobs_of_def active_jobs_def)

lemma request_wake_frame [sched_simps]:
  "jobs_of (snd (request_wake s)) = jobs_of s"
  "sc_pending (snd (request_wake s)) = sc_pending s"
  "sc_active (snd (request_wake s)) = sc_active s"
  "sc_drawings (snd (request_wake s)) = sc_drawings s"
  "sc_stopping (snd (request_wake s)) = sc_stopping s"
  "sc_quarantined (snd (request_wake s)) = sc_quarantined s"
  "sc_next_completion (snd (request_wake s)) = sc_next_completion s"
  by (simp_all add: request_wake_def jobs_of_def active_jobs_def)

lemma on_active_operation_frame [sched_simps]:
  "jobs_of (snd (on_active_operation f j s)) = j\<lparr>jb_operation := snd (f (jb_operation j))\<rparr> # sc_pending s"
  "sc_pending (snd (on_active_operation f j s)) = sc_pending s"
  "sc_active (snd (on_active_operation f j s)) = Some (j\<lparr>jb_operation := snd (f (jb_operation j))\<rparr>)"
  "sc_drawings (snd (on_active_operation f j s)) = sc_drawings s"
  "sc_stopping (snd (on_active_operation f j s)) = sc_stopping s"
  "sc_quarantined (snd (on_active_operation f j s)) = sc_quarantined s"
  "sc_wake_pending (snd (on_active_operation f j s)) = sc_wake_pending s"
  "sc_next_completion (snd (on_active_operation f j s)) = sc_next_completion s"
  by (simp_all add: on_active_operation_def jobs_of_def active_jobs_def split_beta)

lemma expire_active_frame [sched_simps]:
  "ticket (snd (expire_active_execution_if_due now j)) = ticket j"
  "jb_wait (snd (expire_active_execution_if_due now j)) = jb_wait j"
  "jb_job_id (snd (expire_active_execution_if_due now j)) = jb_job_id j"
  "jb_native_target (snd (expire_active_execution_if_due now j)) = jb_native_target j"
  by (simp_all add: expire_active_execution_if_due_def ticket_def split_beta)

section \<open>The contract\<close>

locale execution_contract =
  fixes ok :: "exec \<Rightarrow> bool"
  assumes ok_take: "ok e \<Longrightarrow> ok (snd (take_step e))"
    and ok_complete: "ok e \<Longrightarrow> ok (snd (complete_step r e))"
    and ok_cancel: "ok e \<Longrightarrow> ok (snd (request_cancel e))"
    and ok_expire: "ok e \<Longrightarrow> ok (snd (expire_before_start m e))"
    and ok_cancel_before: "ok e \<Longrightarrow> ok (snd (cancel_before_start e))"
    and ok_form_output: "ok e \<Longrightarrow> ok (snd (acquire_form_output e))"
    and ok_eval_output: "ok e \<Longrightarrow> ok (snd (acquire_eval_value_output e))"
    and ok_abandon: "ok e \<Longrightarrow> ok (snd (abandon r e))"
begin

lemma map_execution_ok:
  assumes "\<And>e. ok e \<Longrightarrow> ok (snd (f e))" and "op_ok ok p"
  shows "op_ok ok (snd (map_execution f p))"
  using assms(2) assms(1) by (cases p) (auto simp: map_execution_def split: prod.splits, metis snd_conv)

lemma op_steps_ok [simp]:
  assumes "op_ok ok p"
  shows "op_ok ok (snd (op_expire_before_start m p))" "op_ok ok (snd (op_finish_cancel_before_start p))"
    "op_ok ok (snd (op_request_cancel p))" "op_ok ok (snd (op_cancel_before_start p))"
    "op_ok ok (snd (op_take_execution_step p))" "op_ok ok (snd (op_acquire_eval_value_output p))"
    "op_ok ok (snd (op_acquire_form_output p))" "op_ok ok (snd (op_complete_execution_step r p))"
    "op_ok ok (snd (op_abandon_execution r p))" "op_ok ok (snd (record_native_capture c pixels p))"
proof -
  show "op_ok ok (snd (record_native_capture c pixels p))"
    using assms by (cases p) (auto simp: record_native_capture_def split: sum.splits)
qed (use assms in \<open>auto simp: op_expire_before_start_def op_finish_cancel_before_start_def op_request_cancel_eq op_steps_eq
      op_complete_execution_step_def op_abandon_execution_def
      intro!: map_execution_ok ok_take ok_complete ok_cancel ok_expire ok_cancel_before ok_form_output
        ok_eval_output ok_abandon\<close>)

lemma on_active_operation_ok:
  assumes "jobs_ok ok s" and "active_with i s = Some j" and "\<And>p. op_ok ok p \<Longrightarrow> op_ok ok (snd (f p))"
  shows "jobs_ok ok (snd (on_active_operation f j s))"
  using assms by (auto simp: jobs_ok_def sched_simps active_with_Some)

lemma expire_active_ok:
  "op_ok ok (jb_operation j) \<Longrightarrow> op_ok ok (jb_operation (snd (expire_active_execution_if_due now j)))"
  by (simp add: expire_active_execution_if_due_def split_beta)

lemma steps_ok:
  assumes "jobs_ok ok s"
  shows "jobs_ok ok (snd (take_execution_step i now s))" "jobs_ok ok (snd (sched_acquire_eval_value_output i target s))"
    "jobs_ok ok (snd (sched_acquire_form_output i target s))" "jobs_ok ok (snd (complete_execution_step i r s))"
    "jobs_ok ok (snd (abandon_execution i r s))" "jobs_ok ok (snd (sched_record_capture i c pixels s))"
proof -
  show "jobs_ok ok (snd (take_execution_step i now s))"
    using assms by (auto simp: take_execution_step_def jobs_ok_def sched_simps active_with_Some expire_active_ok
        split: option.splits)
qed (use assms in \<open>auto simp: sched_acquire_eval_value_output_def sched_acquire_form_output_def complete_execution_step_def
    abandon_execution_def sched_record_capture_def split_beta split: option.splits intro: on_active_operation_ok\<close>)

lemma expire_pending_ok:
  "\<forall>j\<in>set js. op_ok ok (jb_operation j) \<Longrightarrow> \<forall>j\<in>set (snd (expire_pending now drawings js)). op_ok ok (jb_operation j)"
  by (induction js) (auto simp: split_beta)

lemma retry_head_ok:
  "\<forall>j\<in>set js. op_ok ok (jb_operation j) \<Longrightarrow> \<forall>j\<in>set (retry_head now js). op_ok ok (jb_operation j)"
  by (cases js) (auto simp: retry_head_def retry_now_def)

lemma process_due_timers_ok:
  assumes "jobs_ok ok s"
  shows "jobs_ok ok (snd (snd (process_due_timers now s)))"
proof -
  let ?rest = "snd (expire_pending now (sc_drawings s) (sc_pending s))"
  have "\<forall>j\<in>set (retry_head now ?rest). op_ok ok (jb_operation j)"
    using assms by (intro retry_head_ok expire_pending_ok) (simp add: jobs_ok_iff)
  then show ?thesis
    using assms by (simp add: process_due_timers_def jobs_ok_iff split_beta sched_simps expire_active_ok)
      (metis expire_active_ok)
qed

lemma native_state_may_be_ready_ok:
  "jobs_ok ok s \<Longrightarrow> jobs_ok ok (snd (native_state_may_be_ready s))"
  by (cases "sc_pending s")
    (auto simp: native_state_may_be_ready_def jobs_ok_iff sched_simps readiness_may_have_changed_def)

lemma stop_ok: "jobs_ok ok s \<Longrightarrow> jobs_ok ok (snd (sched_stop s))"
  by (auto simp: sched_stop_def jobs_ok_iff split_beta split: option.splits)

lemma admit_execution_ok:
  "jobs_ok ok s \<Longrightarrow> ok execution \<Longrightarrow> jobs_ok ok (snd (admit_execution fs i execution out c reservation now s))"
  by (auto simp: admit_execution_def jobs_ok_iff Let_def split_beta sched_simps)

lemma submit_operation_ok:
  "jobs_ok ok s \<Longrightarrow> op_ok ok p \<Longrightarrow> jobs_ok ok (snd (submit_operation fs p reservation now s))"
  by (auto simp: submit_operation_def jobs_ok_iff Let_def split_beta sched_simps split: bool.splits prepared.splits)

lemma take_native_action_ok:
  "jobs_ok ok s \<Longrightarrow> jobs_ok ok (snd (take_native_action fs now s))"
  by (cases "sc_pending s")
    (auto simp: take_native_action_def jobs_ok_iff Let_def begin_readiness_def split: prepared.splits)

lemma complete_native_action_ok:
  "jobs_ok ok s \<Longrightarrow> jobs_ok ok (snd (complete_native_action i r quarantine now s))"
  by (auto simp: complete_native_action_def jobs_ok_iff waited_outcome_def
      defer_for_readiness_def split_beta Let_def split: option.splits sum.splits if_splits)

lemma cancel_execution_ok:
  assumes "jobs_ok ok s"
  shows "jobs_ok ok (snd (cancel_execution i s))"
proof (cases "active_with i s")
  case (Some j)
  then show ?thesis
    using on_active_operation_ok [OF assms Some, of op_request_cancel] by (simp add: cancel_execution_def split_beta)
next
  case None
  have "op_ok ok (jb_operation (sc_pending s ! k))" if "k < length (sc_pending s)" for k
    using assms that by (simp add: jobs_ok_iff)
  then show ?thesis
    using assms None set_remove_at_subset [of _ "sc_pending s"]
    by (auto simp: cancel_execution_def jobs_ok_iff sched_simps split_beta Let_def
        dest!: find_index_Some dest: set_update_subset_insert [THEN subsetD] split: option.splits)
qed

lemma wake_failed_ok: "jobs_ok ok s \<Longrightarrow> jobs_ok ok (snd (sched_wake_failed now s))"
  by (cases "sc_pending s")
    (auto simp: sched_wake_failed_def jobs_ok_iff sched_simps Let_def split_beta
      defer_for_readiness_def begin_readiness_def)

end

section \<open>The contract holds of reachable executions\<close>

definition reachable :: "exec \<Rightarrow> bool" where
  "reachable e \<longleftrightarrow> (\<exists>mode name bytes log. exec_reach mode name bytes e log)"

lemma reachable_inv: "reachable e \<Longrightarrow> \<exists>n k log. exec_inv n k e log"
  unfolding reachable_def using exec_reach_inv by blast

lemma reachable_complete:
  assumes "reachable e"
  shows "reachable (snd (complete_step r e))"
proof (cases "fst (complete_step r e)")
  case True
  then have "complete_step r e = (True, snd (complete_step r e))" by (metis prod.collapse)
  with assms er_complete show ?thesis unfolding reachable_def by blast
next
  case False
  from reachable_inv [OF assms] obtain n k log where "exec_inv n k e log" by blast
  from complete_step_accepted [OF this, of r] False have "complete_step r e = (False, e)" by simp
  with assms show ?thesis by simp
qed

interpretation runs: execution_contract reachable
proof
  fix e r
  assume "reachable e"
  then show "reachable (snd (complete_step r e))" by (rule reachable_complete)
qed (unfold reachable_def; blast intro: er_take er_cancel er_expire er_cancel_before er_form_output er_eval_output
    er_abandon)+

end
