(* ===== verification/Sched_Invariant.thy ===== *)
theory Sched_Invariant
  imports Sched_Contract "HOL-Library.Multiset"
begin

text \<open>
  The invariant of the scheduler: its capacities, the order of its queue, the waiting of its jobs
  and what quarantine means; and for each method which completion channels it answers.  A job is
  followed through the methods by its ticket, which no step changes.
\<close>

section \<open>Tickets\<close>

definition tickets :: "scheduler \<Rightarrow> (completion \<times> sink option \<times> drawing_id option \<times> nat option) list" where
  "tickets s = map ticket (jobs_of s)"

definition open_completions :: "scheduler \<Rightarrow> completion list" where
  "open_completions s = map jb_completion (jobs_of s)"

lemma open_completions_eq: "open_completions s = map fst (tickets s)"
  by (simp add: open_completions_def tickets_def ticket_def comp_def)

text \<open>The step from \<open>s\<close> to \<open>s1\<close> answers the channels \<open>cs\<close>: their jobs are gone, all others are still there
  in the same order, and none is new.\<close>

definition answers :: "scheduler \<Rightarrow> completion list \<Rightarrow> scheduler \<Rightarrow> bool" where
  "answers s cs s1 \<longleftrightarrow> subseq (tickets s1) (tickets s)
     \<and> mset (open_completions s) = mset cs + mset (open_completions s1)
     \<and> sc_next_completion s1 = sc_next_completion s"

lemma answers_same: "tickets s1 = tickets s \<Longrightarrow> sc_next_completion s1 = sc_next_completion s \<Longrightarrow> answers s [] s1"
  by (simp add: answers_def open_completions_eq)

lemma answers_jobs:
  assumes "jobs_of s = pre @ gone @ post" and "map ticket (jobs_of s1) = map ticket (pre @ post)"
    and "sc_next_completion s1 = sc_next_completion s"
  shows "answers s (map jb_completion gone) s1"
proof -
  have "subseq (map ticket (pre @ post)) (map ticket (pre @ gone @ post))"
    by (intro subseq_map list_emb_append_mono) (simp_all add: list_emb_append2)
  moreover have "open_completions s1 = map jb_completion (pre @ post)"
    using assms(2) unfolding open_completions_eq tickets_def by (simp add: ticket_def comp_def)
  ultimately show ?thesis
    using assms by (simp add: answers_def tickets_def open_completions_def)
qed

lemma ticket_frame [sched_simps]:
  "ticket (begin_readiness now j) = ticket j" "ticket (retry_now j) = ticket j"
  "ticket (readiness_may_have_changed j) = ticket j" "ticket (defer_for_readiness now j) = ticket j"
  "ticket (j\<lparr>jb_native_target := t\<rparr>) = ticket j"
  by (simp_all add: ticket_def begin_readiness_def retry_now_def readiness_may_have_changed_def
      defer_for_readiness_def)

lemma ticket_operation: "op_identity p = op_identity (jb_operation j) \<Longrightarrow> ticket (j\<lparr>jb_operation := p\<rparr>) = ticket j"
  by (simp add: ticket_def)

lemma answers_request_wake: "answers s cs s1 \<Longrightarrow> answers s cs (snd (request_wake s1))"
  by (simp add: answers_def tickets_def open_completions_def sched_simps)

section \<open>What each method answers\<close>

lemma on_active_operation_answers:
  assumes "active_with i s = Some j" and "\<And>p. op_identity (snd (f p)) = op_identity p" and "ticket j1 = ticket j"
  shows "answers s [] (snd (on_active_operation f j1 s))"
  using assms by (intro answers_same) (simp_all add: tickets_def sched_simps active_with_Some ticket_operation)

lemma steps_answer:
  "answers s [] (snd (take_execution_step i now s))" "answers s [] (snd (sched_acquire_eval_value_output i target s))"
  "answers s [] (snd (sched_acquire_form_output i target s))" "answers s [] (snd (complete_execution_step i r s))"
  "answers s [] (snd (abandon_execution i r s))" "answers s [] (snd (sched_record_capture i c pixels s))"
proof -
  have same: "answers s [] s" by (simp add: answers_same)
  show "answers s [] (snd (take_execution_step i now s))"
    using same by (auto simp: take_execution_step_def sched_simps split: option.splits
        intro!: on_active_operation_answers)
qed (auto simp: sched_acquire_eval_value_output_def sched_acquire_form_output_def complete_execution_step_def
    abandon_execution_def sched_record_capture_def split_beta answers_same split: option.splits
    intro!: on_active_operation_answers)

lemma expire_pending_split:
  "mset (map jb_completion js) = mset (map fst (fst (expire_pending now drawings js)))
      + mset (map jb_completion (snd (expire_pending now drawings js)))
   \<and> subseq (snd (expire_pending now drawings js)) js
   \<and> (\<forall>j\<in>set (snd (expire_pending now drawings js)). \<not> wait_is_due now j)
   \<and> (\<forall>a\<in>set (fst (expire_pending now drawings js)). \<exists>j\<in>set js. wait_is_due now j \<and> a = timed_out_answer drawings None j)"
  by (induction js) (auto simp: split_beta timed_out_answer_def)

lemma wait_deadline_frame [sched_simps]:
  "wait_deadline (wait_retry_now w) = wait_deadline w"
  "wait_deadline (wait_readiness_may_have_changed w) = wait_deadline w"
  "wait_deadline (wait_defer now w) = wait_deadline w"
  by (cases w; simp add: wait_deadline_def wait_retry_now_def wait_readiness_may_have_changed_def wait_defer_def)+

lemma retry_now_frame [sched_simps]:
  "jb_completion (retry_now j) = jb_completion j" "jb_wait (retry_now j) = wait_retry_now (jb_wait j)"
  by (simp_all add: retry_now_def)

lemma retry_head_frame [sched_simps]:
  "map ticket (retry_head now js) = map ticket js" "map jb_completion (retry_head now js) = map jb_completion js"
  "map (\<lambda>j. wait_deadline (jb_wait j)) (retry_head now js) = map (\<lambda>j. wait_deadline (jb_wait j)) js"
  by (cases js; simp add: retry_head_def sched_simps)+

lemma process_due_timers_answers:
  "answers s (map fst (fst (process_due_timers now s))) (snd (snd (process_due_timers now s)))"
proof -
  let ?rest = "snd (expire_pending now (sc_drawings s) (sc_pending s))"
  let ?s1 = "s\<lparr>sc_active := map_option (\<lambda>j. snd (expire_active_execution_if_due now j)) (sc_active s),
               sc_pending := retry_head now ?rest\<rparr>"
  note split = expire_pending_split [of "sc_pending s" now "sc_drawings s"]
  have t: "tickets ?s1 = map ticket (active_jobs s) @ map ticket ?rest"
    by (auto simp: tickets_def jobs_of_def active_jobs_def sched_simps split: option.splits)
  have "subseq (tickets ?s1) (tickets s)"
    unfolding t using split by (simp add: tickets_def jobs_of_def list_emb_append_mono subseq_map)
  moreover have "mset (open_completions s) = mset (map fst (fst (expire_pending now (sc_drawings s) (sc_pending s))))
      + mset (open_completions ?s1)"
    using split unfolding open_completions_eq t by (simp add: tickets_def jobs_of_def ticket_def comp_def)
  ultimately have "answers s (map fst (fst (expire_pending now (sc_drawings s) (sc_pending s)))) ?s1"
    by (simp add: answers_def)
  from answers_request_wake [OF this] show ?thesis
    by (simp add: process_due_timers_def split_beta)
qed

lemma native_state_may_be_ready_answers: "answers s [] (snd (native_state_may_be_ready s))"
  unfolding native_state_may_be_ready_def
  by (intro answers_request_wake answers_same)
    (auto simp: tickets_def jobs_of_def active_jobs_def sched_simps split: list.splits)

lemma stop_answers: "answers s (map fst (snd (fst (sched_stop s)))) (snd (sched_stop s))"
proof -
  have "map fst (snd (fst (sched_stop s))) = map jb_completion (sc_pending s)"
    by (simp add: sched_stop_def stopped_of_def split_beta comp_def)
  moreover have "answers s (map jb_completion (sc_pending s)) (snd (sched_stop s))"
    by (rule answers_jobs [of _ "active_jobs s" _ "[]"])
      (auto simp: sched_stop_def jobs_of_def active_jobs_def split_beta ticket_operation split: option.splits)
  ultimately show ?thesis by simp
qed

definition take_answered :: "take_decision \<Rightarrow> completion list" where
  "take_answered d = (case d of TakeComplete (c, _, _) \<Rightarrow> [c] | _ \<Rightarrow> [])"

lemma take_native_action_answers:
  "answers s (take_answered (fst (take_native_action fs now s))) (snd (take_native_action fs now s))"
proof (cases "sc_stopping s \<or> sc_quarantined s \<or> sc_active s \<noteq> None \<or> sc_pending s = []
    \<or> is_deferred (hd (sc_pending s))")
  case True
  then have "take_native_action fs now s = (TakeIdle, s\<lparr>sc_wake_pending := False\<rparr>)"
    by (auto simp: take_native_action_def Let_def split: list.splits)
  then show ?thesis
    by (auto simp: take_answered_def tickets_def jobs_of_def active_jobs_def intro!: answers_same)
next
  case False
  then obtain j js where p: "sc_pending s = j # js" by (cases "sc_pending s") auto
  with False have jobs: "jobs_of s = [] @ [j] @ js" by (simp add: sched_simps)
  show ?thesis
  proof (cases "fst (take_native_action fs now s)")
    case (TakeAction a)
    then have "tickets (snd (take_native_action fs now s)) = tickets s"
      using False p by (auto simp: take_native_action_def tickets_def jobs_of_def active_jobs_def Let_def sched_simps
          split: prepared.splits if_splits)
    moreover have "sc_next_completion (snd (take_native_action fs now s)) = sc_next_completion s"
      using False p by (auto simp: take_native_action_def Let_def split: prepared.splits)
    ultimately show ?thesis using TakeAction by (simp add: take_answered_def answers_same)
  next
    case (TakeComplete a)
    then have "take_answered (fst (take_native_action fs now s)) = map jb_completion [j]"
      using False p by (auto simp: take_native_action_def take_answered_def Let_def timed_out_answer_def
          begin_readiness_def split: prepared.splits if_splits)
    moreover have "answers s (map jb_completion [j]) (snd (take_native_action fs now s))"
      by (rule answers_jobs [OF jobs])
        (use False p TakeComplete in \<open>auto simp: take_native_action_def jobs_of_def active_jobs_def Let_def
            split: prepared.splits if_splits\<close>)
    ultimately show ?thesis by simp
  next
    case TakeIdle
    then show ?thesis
      using False p by (auto simp: take_native_action_def Let_def split: prepared.splits if_splits)
  qed
qed

definition opt_answered :: "answer option \<Rightarrow> completion list" where
  "opt_answered a = (case a of Some (c, _, _) \<Rightarrow> [c] | None \<Rightarrow> [])"

lemma waited_outcome_ticket:
  "fst (waited_outcome drawings r now j) = Inl j1 \<Longrightarrow> ticket j1 = ticket j"
  "jb_completion (snd (waited_outcome drawings r now j)) = jb_completion j"
  by (auto simp: waited_outcome_def split_beta Let_def sched_simps ticket_operation wait_timeout_outcome_def
      split: if_splits)

lemma complete_native_action_answers:
  assumes "complete_native_action i r quarantine now s = ((a, rejected, notify), s1)"
  shows "answers s (opt_answered a @ map fst rejected) s1"
proof (cases "sc_active s")
  case None
  with assms show ?thesis by (simp add: complete_native_action_def opt_answered_def answers_same)
next
  case (Some j)
  show ?thesis
  proof (cases "jb_job_id j = i")
    case False
    with Some assms show ?thesis by (simp add: complete_native_action_def opt_answered_def answers_same)
  next
    case True
    obtain w j1 where w: "waited_outcome (sc_drawings s) r now j = (w, j1)" by fastforce
    then have c: "jb_completion j1 = jb_completion j" by (metis waited_outcome_ticket(2) snd_conv)
    have jobs: "jobs_of s = j # sc_pending s" using Some by (simp add: sched_simps)
    show ?thesis
    proof (cases w)
      case (Inl j2)
      with w have "ticket j2 = ticket j" using waited_outcome_ticket(1) by (metis fst_conv)
      with Inl Some True w assms jobs show ?thesis
        by (auto simp: complete_native_action_def opt_answered_def tickets_def sched_simps
            intro!: answers_same)
    next
      case (Inr x)
      show ?thesis
      proof (cases quarantine)
        case True
        with Inr Some \<open>jb_job_id j = i\<close> w assms c
        have r: "opt_answered a @ map fst rejected = map jb_completion (jobs_of s)" and j1: "jobs_of s1 = []"
          and "sc_next_completion s1 = sc_next_completion s"
          by (auto simp: complete_native_action_def opt_answered_def sched_simps stopped_of_def comp_def)
        then show ?thesis unfolding r by (intro answers_jobs [of s "[]" _ "[]"]) simp_all
      next
        case False
        with Inr Some \<open>jb_job_id j = i\<close> w assms c
        have r: "opt_answered a @ map fst rejected = map jb_completion [j]" and j1: "jobs_of s1 = sc_pending s"
          and "sc_next_completion s1 = sc_next_completion s"
          by (auto simp: complete_native_action_def opt_answered_def sched_simps)
        then show ?thesis unfolding r by (intro answers_jobs [of s "[]" _ "sc_pending s"]) (simp_all add: jobs)
      qed
    qed
  qed
qed

definition cancel_answered :: "cancel_decision \<Rightarrow> completion list" where
  "cancel_answered d = (case d of CancelPending _ c _ \<Rightarrow> [c] | _ \<Rightarrow> [])"

lemma cancel_execution_answers:
  "answers s (cancel_answered (fst (cancel_execution i s))) (snd (cancel_execution i s))"
proof (cases "active_with i s")
  case (Some j)
  have "answers s [] (snd (on_active_operation op_request_cancel j s))"
    by (rule on_active_operation_answers [OF Some]) simp_all
  with Some show ?thesis
    by (auto simp: cancel_execution_def cancel_answered_def split_beta split: option.splits bool.splits)
next
  case None
  show ?thesis
  proof (cases "find_index (\<lambda>j. jb_job_id j = i \<and> op_is_execution (jb_operation j)) (sc_pending s)")
    case None
    with \<open>active_with i s = None\<close> show ?thesis
      by (simp add: cancel_execution_def cancel_answered_def answers_same)
  next
    case (Some k)
    from find_index_Some [OF this] have k: "k < length (sc_pending s)" by simp
    then obtain pre post where p: "sc_pending s = pre @ sc_pending s ! k # post" "length pre = k"
        "remove_at k (sc_pending s) = pre @ post"
      using remove_at_split by blast
    obtain r q where c: "op_cancel_before_start (jb_operation (sc_pending s ! k)) = (r, q)" by fastforce
    then have q: "op_identity q = op_identity (jb_operation (sc_pending s ! k))"
      by (metis op_identity_steps(4) snd_conv)
    show ?thesis
    proof (cases r)
      case None
      have "map ticket ((sc_pending s)[k := (sc_pending s ! k)\<lparr>jb_operation := q\<rparr>]) = map ticket (sc_pending s)"
        by (simp add: map_update ticket_operation [OF q]) (metis k list_update_id map_update nth_map)
      with None Some \<open>active_with i s = None\<close> c show ?thesis
        by (auto simp: cancel_execution_def cancel_answered_def tickets_def jobs_of_def active_jobs_def
            intro!: answers_same)
    next
      case (Some sink1)
      have "answers s (map jb_completion [sc_pending s ! k]) (s\<lparr>sc_pending := remove_at k (sc_pending s)\<rparr>)"
        by (rule answers_jobs [of _ "active_jobs s @ pre" _ post])
          (use p in \<open>simp_all add: jobs_of_def active_jobs_def\<close>)
      from answers_request_wake [OF this] show ?thesis
        using Some \<open>find_index _ _ = Some k\<close> \<open>active_with i s = None\<close> c
        by (simp add: cancel_execution_def cancel_answered_def split_beta)
    qed
  qed
qed

lemma wake_failed_answers:
  assumes "sched_wake_failed now s = ((a, should_wake), s1)"
  shows "answers s (opt_answered a) s1"
proof (cases "sc_stopping s \<or> sc_quarantined s \<or> sc_active s \<noteq> None \<or> sc_pending s = []")
  case True
  with assms show ?thesis
    by (auto simp: sched_wake_failed_def Let_def opt_answered_def tickets_def jobs_of_def active_jobs_def
        split: list.splits intro!: answers_same)
next
  case False
  then obtain j js where p: "sc_pending s = j # js" by (cases "sc_pending s") auto
  with False have jobs: "jobs_of s = [] @ [j] @ js" by (simp add: sched_simps)
  show ?thesis
  proof (cases "wait_is_due now j")
    case True
    have "answers s (map jb_completion [j]) (s\<lparr>sc_wake_pending := False, sc_pending := js\<rparr>)"
      by (rule answers_jobs [OF jobs]) (use False in \<open>auto simp: jobs_of_def active_jobs_def\<close>)
    from answers_request_wake [OF this] show ?thesis
      using True False p assms
      by (auto simp: sched_wake_failed_def Let_def opt_answered_def timed_out_answer_def split_beta)
  next
    case nd: False
    with False p assms show ?thesis
      by (auto simp: sched_wake_failed_def Let_def opt_answered_def tickets_def jobs_of_def active_jobs_def
          sched_simps intro!: answers_same)
  qed
qed

end
