(* ===== verification/Sched_Order.thy ===== *)
theory Sched_Order
  imports Sched_Invariant
begin

text \<open>
  Capacity, order, waiting and quarantine: the invariant \<open>sched_ok\<close> of the scheduler and that every
  method keeps it.  Capacity and order follow from the tickets alone; waiting is about where in
  the queue a job may be that the host was not ready for.
\<close>

section \<open>Capacity and order\<close>

type_synonym ticket = "completion \<times> sink option \<times> drawing_id option \<times> nat option"

definition source_sizes :: "ticket list \<Rightarrow> nat list" where
  "source_sizes ts = List.map_filter (\<lambda>(_, _, _, b). b) ts"

definition tickets_ok :: "completion \<Rightarrow> ticket list \<Rightarrow> bool" where
  "tickets_ok next ts \<longleftrightarrow> length ts \<le> MAX_MUTATION_JOBS
     \<and> length (source_sizes ts) \<le> MAX_ADMITTED_EXECUTIONS \<and> sum_list (source_sizes ts) \<le> MAX_ADMITTED_SOURCE_BYTES
     \<and> sorted_wrt (<) (map fst ts) \<and> (\<forall>t\<in>set ts. fst t < next)"

lemma map_filter_subseq: "subseq xs ys \<Longrightarrow> subseq (List.map_filter f xs) (List.map_filter f ys)"
  by (induction rule: list_emb.induct) (auto simp: map_filter_simps split: option.splits)

lemma subseq_sum_list: "subseq xs (ys :: nat list) \<Longrightarrow> sum_list xs \<le> sum_list ys"
  by (induction rule: list_emb.induct) auto

lemma subseq_set: "subseq xs ys \<Longrightarrow> set xs \<subseteq> set ys"
  by (induction rule: list_emb.induct) auto

lemma subseq_sorted_wrt: "subseq xs ys \<Longrightarrow> sorted_wrt P ys \<Longrightarrow> sorted_wrt P xs"
proof (induction rule: list_emb.induct)
  case (list_emb_Cons2 x y xs ys)
  from list_emb_Cons2(2) have "set xs \<subseteq> set ys" by (rule subseq_set)
  with list_emb_Cons2 show ?case by auto
qed auto

lemma tickets_ok_subseq:
  assumes "tickets_ok next ts" and "subseq ts1 ts"
  shows "tickets_ok next ts1"
proof -
  have "subseq (source_sizes ts1) (source_sizes ts)"
    unfolding source_sizes_def by (rule map_filter_subseq [OF assms(2)])
  moreover have "subseq (map fst ts1) (map fst ts)" by (rule subseq_map [OF assms(2)])
  moreover have "length ts1 \<le> length ts" using assms(2) by (rule list_emb_length)
  moreover have "set ts1 \<subseteq> set ts" using assms(2) by (rule subseq_set)
  ultimately show ?thesis
    using assms(1) subseq_sum_list subseq_sorted_wrt [of "map fst ts1" "map fst ts" "(<)"]
    unfolding tickets_ok_def by (meson list_emb_length order_trans subsetD)
qed

lemma execution_usage_eq:
  "execution_usage s = (length (source_sizes (tickets s)), sum_list (source_sizes (tickets s)))"
proof -
  have f: "fold (\<lambda>b (count, bytes). (count + 1, bytes + b)) bs (c, t) = (c + length bs, t + sum_list bs)"
    for bs and c t :: nat by (induction bs arbitrary: c t) auto
  have m: "List.map_filter (\<lambda>j. op_execution_source_bytes (jb_operation j)) js = source_sizes (map ticket js)" for js
    by (induction js) (simp_all add: source_sizes_def map_filter_simps ticket_def op_identity_def split: option.split)
  have app: "source_sizes (xs @ ys) = source_sizes xs @ source_sizes ys" for xs ys
    by (simp add: source_sizes_def map_filter_def)
  show ?thesis
    unfolding execution_usage_def m f tickets_def jobs_of_def map_append app by simp
qed

lemma mutation_job_count_eq: "mutation_job_count s = length (tickets s)"
  by (simp add: mutation_job_count_def tickets_def jobs_of_def)

section \<open>Waiting\<close>

definition is_queued :: "wait_state \<Rightarrow> bool" where
  "is_queued w \<longleftrightarrow> (\<exists>d. w = WaitQueued d)"

definition retry_delay_ok :: "nat \<Rightarrow> bool" where
  "retry_delay_ok d \<longleftrightarrow> READINESS_RETRY_INITIAL \<le> d \<and> d \<le> READINESS_RETRY_MAX"

fun wait_ok :: "wait_state \<Rightarrow> bool" where
  "wait_ok (WaitQueued d) = True"
| "wait_ok (WaitReady d r) = retry_delay_ok r"
| "wait_ok (WaitDeferred d t r) = (t \<le> d \<and> retry_delay_ok r)"

text \<open>Only the job at the front (the active one, if there is one) has begun to wait for the host.\<close>

definition waits_ok :: "scheduler \<Rightarrow> bool" where
  "waits_ok s \<longleftrightarrow> (\<forall>j\<in>set (jobs_of s). wait_ok (jb_wait j))
     \<and> (\<forall>j\<in>set (tl (jobs_of s)). is_queued (jb_wait j))
     \<and> (\<forall>j. sc_active s = Some j \<longrightarrow> \<not> is_queued (jb_wait j) \<and> \<not> is_deferred j)"

lemma retry_consts: "READINESS_RETRY_INITIAL = 50000000" "READINESS_RETRY_MAX = 500000000"
  by (simp_all add: READINESS_RETRY_INITIAL_def READINESS_RETRY_MAX_def millis_def)

lemma duration_max: "1000000000 \<le> DURATION_MAX"
  by (simp add: DURATION_MAX_def secs_def)

lemma wait_ok_steps [sched_simps]:
  "wait_ok (wait_queued now)" "wait_ok w \<Longrightarrow> wait_ok (wait_begin_readiness now w)"
  "wait_ok w \<Longrightarrow> wait_ok (wait_retry_now w)" "wait_ok w \<Longrightarrow> wait_ok (wait_readiness_may_have_changed w)"
  "wait_ok w \<Longrightarrow> wait_ok (wait_defer now w)"
proof -
  show "wait_ok (wait_queued now)" by (simp add: wait_queued_def)
  show "wait_ok w \<Longrightarrow> wait_ok (wait_begin_readiness now w)"
    by (cases w) (simp_all add: wait_begin_readiness_def retry_delay_ok_def retry_consts)
  show "wait_ok w \<Longrightarrow> wait_ok (wait_retry_now w)" by (cases w) (simp_all add: wait_retry_now_def)
  show "wait_ok w \<Longrightarrow> wait_ok (wait_readiness_may_have_changed w)"
    by (cases w) (simp_all add: wait_readiness_may_have_changed_def retry_delay_ok_def retry_consts)
  show "wait_ok w \<Longrightarrow> wait_ok (wait_defer now w)"
    using duration_max by (cases w) (auto simp: wait_defer_def retry_delay_ok_def retry_consts)
qed

lemma queued_steps [sched_simps]:
  "is_queued w \<Longrightarrow> wait_retry_now w = w" "is_queued w \<Longrightarrow> wait_readiness_may_have_changed w = w"
  "is_queued (wait_queued now)" "\<not> is_queued (wait_begin_readiness now w)"
  by (auto simp: is_queued_def wait_retry_now_def wait_readiness_may_have_changed_def wait_queued_def
      wait_begin_readiness_def split: wait_state.splits)

lemma is_deferred_simps [sched_simps]:
  "is_queued (jb_wait j) \<Longrightarrow> \<not> is_deferred j"
  "jb_wait (begin_readiness now j) = wait_begin_readiness now (jb_wait j)"
  "jb_wait (defer_for_readiness now j) = wait_defer now (jb_wait j)"
  "jb_wait (readiness_may_have_changed j) = wait_readiness_may_have_changed (jb_wait j)"
  by (auto simp: is_queued_def is_deferred_def begin_readiness_def defer_for_readiness_def readiness_may_have_changed_def)

text \<open>Dropping jobs, and changing only the front one, keeps the order of waiting.\<close>

lemma tl_subseq: "subseq xs ys \<Longrightarrow> set (tl xs) \<subseteq> set (tl ys)"
proof (induction rule: list_emb.induct)
  case (list_emb_Cons xs ys y)
  then have "set xs \<subseteq> set ys" by (intro subseq_set)
  then show ?case by (cases xs) auto
next
  case (list_emb_Cons2 x y xs ys)
  then show ?case by (simp add: subseq_set)
qed simp

lemma waits_ok_same:
  "waits_ok s \<Longrightarrow> subseq (jobs_of s1) (jobs_of s) \<Longrightarrow> (\<And>j. sc_active s1 = Some j \<Longrightarrow> sc_active s = Some j)
     \<Longrightarrow> waits_ok s1"
  using tl_subseq [of "jobs_of s1" "jobs_of s"] subseq_set [of "jobs_of s1" "jobs_of s"]
  unfolding waits_ok_def by blast

lemma subseq_remove_at: "subseq (remove_at k xs) xs"
proof (induction xs arbitrary: k)
  case (Cons x xs)
  then show ?case by (cases k) (simp_all add: remove_at_def list_emb_Cons)
qed (simp add: remove_at_def)

lemma waits_ok_waits:
  assumes "map jb_wait (jobs_of s1) = map jb_wait (jobs_of s)" and "sc_active s1 = sc_active s" and "waits_ok s"
  shows "waits_ok s1"
proof -
  have "waits_ok t \<longleftrightarrow> list_all wait_ok (map jb_wait (jobs_of t)) \<and> list_all is_queued (tl (map jb_wait (jobs_of t)))
      \<and> (\<forall>j. sc_active t = Some j \<longrightarrow> \<not> is_queued (jb_wait j) \<and> \<not> is_deferred j)" for t
    by (simp add: waits_ok_def list_all_iff flip: map_tl)
  with assms show ?thesis by simp
qed

lemma waits_ok_front:
  assumes "waits_ok s" and "sc_active s = None" and "sc_pending s = j # js" and "wait_ok (jb_wait j1)"
    and "sc_active s1 = None" "sc_pending s1 = j1 # js"
  shows "waits_ok s1"
  using assms by (auto simp: waits_ok_def sched_simps)

lemma waits_ok_request_wake [sched_simps]: "waits_ok (snd (request_wake s)) = waits_ok s"
  by (simp add: waits_ok_def sched_simps)

lemma waits_ok_active:
  assumes "waits_ok s" and "sc_active s = Some j" and "jb_wait j1 = jb_wait j"
    and "sc_active s1 = Some j1" and "sc_pending s1 = sc_pending s"
  shows "waits_ok s1"
  using assms by (auto simp: waits_ok_def sched_simps is_deferred_def)

lemma waits_ok_pending_queued:
  "waits_ok s \<Longrightarrow> sc_active s = Some j \<Longrightarrow> j1 \<in> set (sc_pending s) \<Longrightarrow> is_queued (jb_wait j1)"
  by (simp add: waits_ok_def sched_simps)

section \<open>Methods keep the order of waiting\<close>

lemma on_active_operation_waits:
  assumes "waits_ok s" and "active_with i s = Some j" and "jb_wait j1 = jb_wait j"
  shows "waits_ok (snd (on_active_operation f j1 s))"
  by (rule waits_ok_active [OF assms(1), of j "j1\<lparr>jb_operation := snd (f (jb_operation j1))\<rparr>"])
    (use assms(2,3) in \<open>simp_all add: active_with_Some sched_simps\<close>)

lemma steps_waits:
  assumes "waits_ok s"
  shows "waits_ok (snd (take_execution_step i now s))" "waits_ok (snd (sched_acquire_eval_value_output i target s))"
    "waits_ok (snd (sched_acquire_form_output i target s))" "waits_ok (snd (complete_execution_step i r s))"
    "waits_ok (snd (abandon_execution i r s))" "waits_ok (snd (sched_record_capture i c pixels s))"
  using assms
  by (auto simp: take_execution_step_def sched_acquire_eval_value_output_def sched_acquire_form_output_def
      complete_execution_step_def abandon_execution_def sched_record_capture_def split_beta sched_simps
      split: option.splits intro: on_active_operation_waits)

lemma retry_head_queued: "\<forall>j\<in>set js. is_queued (jb_wait j) \<Longrightarrow> retry_head now js = js"
  by (cases js) (auto simp: retry_head_def retry_now_def sched_simps)

lemma process_due_timers_waits:
  assumes "waits_ok s"
  shows "waits_ok (snd (snd (process_due_timers now s)))"
proof -
  let ?rest = "snd (expire_pending now (sc_drawings s) (sc_pending s))"
  let ?s1 = "s\<lparr>sc_active := map_option (\<lambda>j. snd (expire_active_execution_if_due now j)) (sc_active s),
               sc_pending := retry_head now ?rest\<rparr>"
  have sub: "subseq ?rest (sc_pending s)" using expire_pending_split by blast
  have "waits_ok ?s1"
  proof (cases "sc_active s")
    case (Some j)
    have "\<forall>j\<in>set ?rest. is_queued (jb_wait j)"
      using subseq_set [OF sub] waits_ok_pending_queued [OF assms Some] by blast
    then have eq: "retry_head now ?rest = ?rest" by (rule retry_head_queued)
    have w: "waits_ok (s\<lparr>sc_pending := ?rest\<rparr>)"
      by (rule waits_ok_same [OF assms]) (use Some sub in \<open>simp_all add: sched_simps\<close>)
    show ?thesis
      unfolding eq
      by (rule waits_ok_active [OF w, of j "snd (expire_active_execution_if_due now j)"])
        (simp_all add: Some expire_active_frame)
  next
    case None
    have w: "waits_ok (s\<lparr>sc_pending := ?rest\<rparr>)"
      by (rule waits_ok_same [OF assms]) (use None sub in \<open>simp_all add: sched_simps\<close>)
    show ?thesis
    proof (cases ?rest)
      case Nil
      with w None show ?thesis by (simp add: retry_head_def waits_ok_def jobs_of_def active_jobs_def)
    next
      case (Cons j js)
      with w have "wait_ok (jb_wait j)" using None by (simp add: waits_ok_def sched_simps)
      then show ?thesis
        by (intro waits_ok_front [OF w, of j js "if retry_is_due now j then retry_now j else j"])
          (use None Cons in \<open>auto simp: retry_head_def sched_simps\<close>)
    qed
  qed
  then show ?thesis by (simp add: process_due_timers_def split_beta sched_simps)
qed

lemma native_state_may_be_ready_waits:
  assumes "waits_ok s"
  shows "waits_ok (snd (native_state_may_be_ready s))"
proof (cases "sc_pending s")
  case Nil
  with assms show ?thesis by (simp add: native_state_may_be_ready_def sched_simps waits_ok_def jobs_of_def active_jobs_def)
next
  case (Cons j js)
  let ?j = "if is_deferred j then readiness_may_have_changed j else j"
  have "waits_ok (s\<lparr>sc_pending := ?j # js\<rparr>)"
  proof (cases "sc_active s")
    case None
    then have "wait_ok (jb_wait j)" using assms Cons by (simp add: waits_ok_def sched_simps)
    then show ?thesis
      by (intro waits_ok_front [OF assms None Cons, of ?j]) (simp_all add: None sched_simps)
  next
    case (Some a)
    then have "\<not> is_deferred j" using waits_ok_pending_queued [OF assms Some, of j] Cons by (simp add: sched_simps)
    with assms Cons show ?thesis by (simp add: waits_ok_def jobs_of_def active_jobs_def)
  qed
  with Cons show ?thesis by (simp add: native_state_may_be_ready_def sched_simps)
qed

lemma stop_waits:
  assumes "waits_ok s"
  shows "waits_ok (snd (sched_stop s))"
proof (cases "sc_active s")
  case None
  with assms show ?thesis by (simp add: sched_stop_def waits_ok_def jobs_of_def active_jobs_def)
next
  case (Some j)
  then show ?thesis
    using assms by (simp add: sched_stop_def waits_ok_def jobs_of_def active_jobs_def split_beta is_deferred_def)
qed

lemma waits_ok_push:
  assumes "waits_ok s" and "is_queued (jb_wait j)"
    and "sc_active s1 = sc_active s" "sc_pending s1 = sc_pending s @ [j]"
  shows "waits_ok s1"
proof -
  have "jobs_of s1 = jobs_of s @ [j]" using assms(3,4) by (simp add: jobs_of_def active_jobs_def)
  moreover from this have "set (tl (jobs_of s1)) \<subseteq> insert j (set (tl (jobs_of s)))"
    by (cases "jobs_of s") auto
  moreover have "wait_ok (jb_wait j)" using assms(2) by (auto simp: is_queued_def)
  ultimately show ?thesis using assms by (auto simp: waits_ok_def)
qed

lemma admit_execution_waits:
  assumes "waits_ok s"
  shows "waits_ok (snd (admit_execution fs i execution out c reservation now s))"
proof -
  have same: "waits_ok (s\<lparr>sc_next_job_id := a, sc_next_completion := b\<rparr>)" for a b
    by (rule waits_ok_same [OF assms]) (simp_all add: jobs_of_def active_jobs_def)
  have "waits_ok (s\<lparr>sc_next_job_id := a, sc_next_completion := b, sc_pending := sc_pending s @ [j]\<rparr>)"
    if "is_queued (jb_wait j)" for a b j
    by (rule waits_ok_push [OF assms that]) simp_all
  with same assms show ?thesis
    by (simp add: admit_execution_def Let_def split_beta sched_simps)
qed

lemma submit_operation_waits:
  assumes "waits_ok s"
  shows "waits_ok (snd (submit_operation fs p reservation now s))"
proof -
  have "waits_ok (s\<lparr>sc_next_job_id := a, sc_next_completion := b, sc_pending := sc_pending s @ [j]\<rparr>)"
    if "is_queued (jb_wait j)" for a b j
    by (rule waits_ok_push [OF assms that]) simp_all
  with assms show ?thesis
    by (simp add: submit_operation_def Let_def split_beta sched_simps split: bool.splits prepared.splits)
qed

lemma take_native_action_waits:
  assumes "waits_ok s"
  shows "waits_ok (snd (take_native_action fs now s))"
proof -
  have same: "waits_ok (s\<lparr>sc_wake_pending := False\<rparr>)"
    by (rule waits_ok_same [OF assms]) (simp_all add: jobs_of_def active_jobs_def)
  show ?thesis
  proof (cases "sc_stopping s \<or> sc_quarantined s \<or> sc_active s \<noteq> None \<or> sc_pending s = []
      \<or> is_deferred (hd (sc_pending s))")
    case True
    then have "take_native_action fs now s = (TakeIdle, s\<lparr>sc_wake_pending := False\<rparr>)"
      by (auto simp: take_native_action_def Let_def split: list.splits)
    with same show ?thesis by simp
  next
    case False
    then obtain j js where p: "sc_pending s = j # js" by (cases "sc_pending s") auto
    have w: "wait_ok (jb_wait j)" "\<forall>j\<in>set js. wait_ok (jb_wait j) \<and> is_queued (jb_wait j)"
      using assms False p by (auto simp: waits_ok_def sched_simps)
    then have tl: "\<forall>j\<in>set (tl js). is_queued (jb_wait j)" by (cases js) auto
    have "\<not> is_deferred j" using False p by simp
    then have "\<not> is_deferred (begin_readiness now j)"
      by (cases "jb_wait j") (simp_all add: is_deferred_def sched_simps wait_begin_readiness_def)
    with w tl False p show ?thesis
      by (auto simp: take_native_action_def Let_def waits_ok_def jobs_of_def active_jobs_def sched_simps is_deferred_def
          split: prepared.splits)
  qed
qed

lemma complete_native_action_waits:
  assumes "waits_ok s"
  shows "waits_ok (snd (complete_native_action i r quarantine now s))"
proof (cases "sc_active s")
  case None
  with assms show ?thesis by (simp add: complete_native_action_def)
next
  case (Some j)
  then have q: "\<forall>j1\<in>set (sc_pending s). wait_ok (jb_wait j1) \<and> is_queued (jb_wait j1)" and w: "wait_ok (jb_wait j)"
    using assms by (auto simp: waits_ok_def sched_simps)
  from q have tl: "\<forall>j\<in>set (tl (sc_pending s)). is_queued (jb_wait j)" by (cases "sc_pending s") auto
  have "wait_ok (jb_wait j1)" if "fst (waited_outcome (sc_drawings s) r now j) = Inl j1" for j1
    using that w by (auto simp: waited_outcome_def split_beta Let_def sched_simps split: if_splits)
  with Some assms q w tl show ?thesis
    by (auto simp: complete_native_action_def waits_ok_def jobs_of_def active_jobs_def split: sum.splits prod.splits)
qed

lemma cancel_execution_waits:
  assumes "waits_ok s"
  shows "waits_ok (snd (cancel_execution i s))"
proof (cases "active_with i s")
  case (Some j)
  from on_active_operation_waits [OF assms Some refl, of op_request_cancel] Some show ?thesis
    by (simp add: cancel_execution_def split_beta)
next
  case None
  have upd: "waits_ok (s\<lparr>sc_pending := (sc_pending s)[k := (sc_pending s ! k)\<lparr>jb_operation := p\<rparr>]\<rparr>)" for k p
  proof -
    let ?js = "(sc_pending s)[k := (sc_pending s ! k)\<lparr>jb_operation := p\<rparr>]"
    have m: "map jb_wait ?js = map jb_wait (sc_pending s)"
    proof (cases "k < length (sc_pending s)")
      case True
      then show ?thesis by (simp add: map_update) (metis list_update_id map_update nth_map)
    qed (simp add: not_less list_update_beyond)
    have "map jb_wait (jobs_of (s\<lparr>sc_pending := ?js\<rparr>)) = map jb_wait (jobs_of s)"
      using m by (simp add: jobs_of_def active_jobs_def)
    then show ?thesis by (rule waits_ok_waits [OF _ _ assms]) simp
  qed
  have rem: "waits_ok (s\<lparr>sc_pending := remove_at k (sc_pending s)\<rparr>)" for k
  proof (rule waits_ok_same [OF assms])
    show "subseq (jobs_of (s\<lparr>sc_pending := remove_at k (sc_pending s)\<rparr>)) (jobs_of s)"
      by (simp add: jobs_of_def active_jobs_def list_emb_append_mono subseq_remove_at)
  qed simp
  show ?thesis
    using None assms upd rem
    by (auto simp: cancel_execution_def Let_def split_beta sched_simps split: option.splits)
qed

lemma wake_failed_waits:
  assumes "waits_ok s"
  shows "waits_ok (snd (sched_wake_failed now s))"
proof -
  have same: "waits_ok (s\<lparr>sc_wake_pending := False\<rparr>)"
    by (rule waits_ok_same [OF assms]) (simp_all add: jobs_of_def active_jobs_def)
  show ?thesis
  proof (cases "sc_stopping s \<or> sc_quarantined s \<or> sc_active s \<noteq> None \<or> sc_pending s = []")
    case True
    then have "snd (sched_wake_failed now s) = s\<lparr>sc_wake_pending := False\<rparr>"
      by (auto simp: sched_wake_failed_def Let_def split: list.splits)
    with same show ?thesis by simp
  next
    case False
    then obtain j js where p: "sc_pending s = j # js" and n: "sc_active s = None" by (cases "sc_pending s") auto
    have "wait_ok (jb_wait j)" using assms p n by (simp add: waits_ok_def sched_simps)
    then have "waits_ok (s\<lparr>sc_wake_pending := False, sc_pending := defer_for_readiness now (begin_readiness now j) # js\<rparr>)"
      by (intro waits_ok_front [OF assms n p]) (simp_all add: n sched_simps)
    moreover have "waits_ok (s\<lparr>sc_wake_pending := False, sc_pending := js\<rparr>)"
      by (rule waits_ok_same [OF assms]) (use p n in \<open>simp_all add: sched_simps list_emb_Cons\<close>)
    ultimately show ?thesis
      using False p by (simp add: sched_wake_failed_def Let_def split_beta sched_simps)
  qed
qed

end
