(* ===== verification/Sched_World.thy ===== *)
theory Sched_World
  imports Sched_Order
begin

text \<open>
  The scheduler in its surroundings: the functions of \<open>queue.rs\<close>, \<open>timer.rs\<close>, \<open>bridge.rs\<close> and
  \<open>native.rs\<close> that take the lock, run one method and act on what it returns - finish or stop an
  output, send an answer, wake the host.  The world holds the scheduler, the output channels by
  handle, the answers sent so far in order, and the receivers handed to clients.  What the code
  asks of the operating system and the host is the record \<open>host\<close>: the \<open>n\<close>-th reading of the clock,
  the file system at that moment, and the status of the \<open>n\<close>-th wake-up of the native side.  The lock
  is never poisoned (no method panics while holding it), so the branches for a poisoned lock are
  left out.  Reference counts of output sinks are followed only where an execution is refused:
  wherever else a sink is dropped its channel has ended before, and dropping it changes nothing
  a reader sees.
\<close>

section \<open>The world\<close>

record host =
  hs_now :: "nat \<Rightarrow> nat"
  hs_fs :: "nat \<Rightarrow> file_system"
  hs_wake_status :: "nat \<Rightarrow> int"

record world =
  wd_sched :: scheduler
  wd_channels :: "sink \<Rightarrow> channel"
  wd_delivered :: "(completion \<times> op_result) list"
  wd_awaited :: "completion list"
  wd_ticks :: nat
  wd_wakes :: nat
  wd_timers_changed :: bool

definition clock :: "host \<Rightarrow> world \<Rightarrow> nat" where
  "clock h w = hs_now h (wd_ticks w)"

definition disk :: "host \<Rightarrow> world \<Rightarrow> file_system" where
  "disk h w = hs_fs h (wd_ticks w)"

text \<open>Running a method under the lock, with the clock read once.\<close>

definition with_lock :: "(scheduler \<Rightarrow> 'a \<times> scheduler) \<Rightarrow> world \<Rightarrow> 'a \<times> world" where
  "with_lock f w = (let (r, s) = f (wd_sched w) in (r, w\<lparr>wd_sched := s, wd_ticks := Suc (wd_ticks w)\<rparr>))"

definition on_channel :: "(channel \<Rightarrow> channel \<times> wakes) \<Rightarrow> sink option \<Rightarrow> world \<Rightarrow> world" where
  "on_channel f out w = (case out of
     Some k \<Rightarrow> w\<lparr>wd_channels := (wd_channels w)(k := fst (f (wd_channels w k)))\<rparr> | None \<Rightarrow> w)"

definition send :: "completion \<Rightarrow> op_result \<Rightarrow> world \<Rightarrow> world" where
  "send c r w = w\<lparr>wd_delivered := wd_delivered w @ [(c, r)]\<rparr>"

definition notify_changed :: "world \<Rightarrow> world" where
  "notify_changed w = w\<lparr>wd_timers_changed := True\<rparr>"

definition finish_completion :: "answer \<Rightarrow> world \<Rightarrow> world" where
  "finish_completion a w = (case a of (c, r, out) \<Rightarrow> send c r (on_channel sink_finish out w))"

definition finish_optional :: "answer option \<Rightarrow> world \<Rightarrow> world" where
  "finish_optional a w = (case a of Some x \<Rightarrow> finish_completion x w | None \<Rightarrow> w)"

definition stop_completion :: "sched_error \<Rightarrow> stopped_job \<Rightarrow> world \<Rightarrow> world" where
  "stop_completion e j w = (case j of (c, out) \<Rightarrow> send c (Inl e) (on_channel sink_stop out w))"

section \<open>Waking the host\<close>

definition wake_native_actions :: "host \<Rightarrow> world \<Rightarrow> int \<times> world" where
  "wake_native_actions h w = (hs_wake_status h (wd_wakes w), w\<lparr>wd_wakes := Suc (wd_wakes w)\<rparr>)"

definition give_up_wake :: "host \<Rightarrow> world \<Rightarrow> bool \<times> world" where
  "give_up_wake h w =
     (let ((completion, should_wake), w1) = with_lock (sched_wake_failed (clock h w)) w
      in (should_wake, finish_optional completion w1))"

lemma wake_failed_shorter:
  "sched_wake_failed now s = ((a, True), s1) \<Longrightarrow> length (sc_pending s1) < length (sc_pending s)"
  by (auto simp: sched_wake_failed_def Let_def sched_simps split_beta split: if_splits list.splits)

lemma give_up_wake_shorter:
  assumes "give_up_wake h w = (True, w1)"
  shows "length (sc_pending (wd_sched w1)) < length (sc_pending (wd_sched w))"
proof -
  obtain a b s where m: "sched_wake_failed (clock h w) (wd_sched w) = ((a, b), s)"
    by (metis prod.exhaust)
  have "wd_sched (finish_optional a v) = wd_sched v" for v
    by (simp add: finish_optional_def finish_completion_def send_def on_channel_def split: option.splits prod.splits)
  with assms m wake_failed_shorter [of "clock h w" "wd_sched w" a s] show ?thesis
    by (auto simp: give_up_wake_def with_lock_def)
qed

text \<open>\<open>wake_failed\<close> and \<open>schedule_native_actions\<close> call each other until a wake-up is accepted or nothing
  is left to wake for: each turn answers one expired job.\<close>

function wake_failed :: "host \<Rightarrow> world \<Rightarrow> world" where
  "wake_failed h w = notify_changed
     (case give_up_wake h w of (should_wake, w1) \<Rightarrow>
        if should_wake then
          (case wake_native_actions h w1 of (status, w2) \<Rightarrow> if status \<noteq> 0 then wake_failed h w2 else w2)
        else w1)"
  by pat_completeness auto
termination
  by (relation "measure (\<lambda>(h, w). length (sc_pending (wd_sched w)))")
    (auto simp: wake_native_actions_def dest!: sym [of _ "give_up_wake _ _"] dest: give_up_wake_shorter)

declare wake_failed.simps [simp del]

definition schedule_native_actions :: "host \<Rightarrow> world \<Rightarrow> world" where
  "schedule_native_actions h w =
     (case wake_native_actions h w of (status, w1) \<Rightarrow> if status \<noteq> 0 then wake_failed h w1 else w1)"

definition wake_if :: "host \<Rightarrow> bool \<Rightarrow> world \<Rightarrow> world" where
  "wake_if h should_wake w = (if should_wake then schedule_native_actions h w else w)"

section \<open>Clients\<close>

definition context_policy :: "bool \<Rightarrow> document_context_policy" where
  "context_policy force = (if force then ForceTemporary else RequireActive)"

text \<open>An execution that is refused is dropped, and with it the last sink of its channel.\<close>

definition world_admit_execution ::
  "host \<Rightarrow> drawing_id \<Rightarrow> exec \<Rightarrow> sink \<Rightarrow> bool \<Rightarrow> nat \<Rightarrow> world \<Rightarrow> (sched_error + (job_id \<times> completion)) \<times> world" where
  "world_admit_execution h i execution out force reservation w =
     (case with_lock (admit_execution (disk h w) i execution out (context_policy force) reservation (clock h w)) w of
        (Inl e, w1) \<Rightarrow> (Inl e, on_channel sink_drop (Some out) w1)
      | (Inr (job_id, completion, should_wake, immediate), w1) \<Rightarrow>
          (Inr (job_id, completion),
           notify_changed (wake_if h should_wake (finish_optional immediate
             (w1\<lparr>wd_awaited := wd_awaited w1 @ [completion]\<rparr>)))))"

datatype submission = SubmissionDone op_result | SubmissionAwaits completion

definition submit_operation_inner ::
  "host \<Rightarrow> operation \<Rightarrow> bool \<Rightarrow> world \<Rightarrow> submission \<times> world" where
  "submit_operation_inner h operation capture_reservation w =
     (case with_lock (submit_operation (disk h w) operation capture_reservation (clock h w)) w of
        (Inl e, w1) \<Rightarrow> (SubmissionDone (Inl e), w1)
      | (Inr (SubmitImmediate out), w1) \<Rightarrow> (SubmissionDone out, w1)
      | (Inr (SubmitQueued receiver should_wake), w1) \<Rightarrow>
          (SubmissionAwaits receiver, wake_if h should_wake (w1\<lparr>wd_awaited := wd_awaited w1 @ [receiver]\<rparr>)))"

text \<open>The typed replies of the client functions: an outcome of another kind is an error.\<close>

definition expect_drawing :: "sched_error \<Rightarrow> op_result \<Rightarrow> sched_error + drawing" where
  "expect_drawing e r = (case r of
     Inl err \<Rightarrow> Inl err | Inr (OutcomeDrawing d) \<Rightarrow> Inr d | Inr _ \<Rightarrow> Inl e)"

definition open_reply :: "op_result \<Rightarrow> sched_error + drawing" where
  "open_reply = expect_drawing OpenNotPublished"

definition save_reply :: "op_result \<Rightarrow> sched_error + drawing" where
  "save_reply = expect_drawing SaveNotPublished"

definition switch_reply :: "op_result \<Rightarrow> sched_error + drawing" where
  "switch_reply = expect_drawing SwitchNotPublished"

definition history_reply :: "op_result \<Rightarrow> sched_error + drawing" where
  "history_reply = expect_drawing DrawingGone"

definition close_reply :: "op_result \<Rightarrow> sched_error + unit" where
  "close_reply r = (case r of
     Inl err \<Rightarrow> Inl err | Inr OutcomeClosed \<Rightarrow> Inr () | Inr _ \<Rightarrow> Inl CloseNotPublished)"

definition capture_reply :: "op_result \<Rightarrow> sched_error + viewport_capture" where
  "capture_reply r = (case r of
     Inl err \<Rightarrow> Inl err
   | Inr (OutcomeCapture c) \<Rightarrow> Inr c
   | Inr _ \<Rightarrow> Inl (CaptureInvalid (lit ''capture operation completed without a frame'')))"

definition execution_reply :: "op_result \<Rightarrow> sched_error + exec_outcome" where
  "execution_reply r = (case r of
     Inl err \<Rightarrow> Inl err | Inr (OutcomeExec out) \<Rightarrow> Inr out | Inr _ \<Rightarrow> Inl ExecNotFinished)"

text \<open>The two reservation counters.\<close>

definition try_reserve_execution :: "nat \<Rightarrow> bool \<times> nat" where
  "try_reserve_execution reserved =
     (if reserved < MAX_ADMITTED_EXECUTIONS then (True, reserved + 1) else (False, reserved))"

definition drop_execution_reservation :: "nat \<Rightarrow> nat" where
  "drop_execution_reservation reserved = reserved - 1"

definition try_reserve_capture :: "nat \<Rightarrow> (sched_error + unit) \<times> nat" where
  "try_reserve_capture reserved = (if reserved = 0 then (Inr (), 1) else (Inl CaptureCapacity, reserved))"

definition world_list :: "world \<Rightarrow> drawing list" where
  "world_list w = sched_list (wd_sched w)"

definition world_start :: "world \<Rightarrow> world" where
  "world_start w = snd (with_lock (\<lambda>s. ((), sched_start s)) w)"

definition world_stop :: "world \<Rightarrow> world" where
  "world_stop w =
     (case with_lock sched_stop w of ((active_output, pending), w1) \<Rightarrow>
        notify_changed (fold (stop_completion PluginStopping) pending (on_channel sink_stop active_output w1)))"

definition world_cancel_execution :: "host \<Rightarrow> job_id \<Rightarrow> world \<Rightarrow> cancel_result \<times> world" where
  "world_cancel_execution h i w = (case with_lock (cancel_execution i) w of
     (CancelActive out, w1) \<Rightarrow> (CancelAccepted, on_channel sink_request_cancel (Some out) w1)
   | (CancelPending out completion should_wake, w1) \<Rightarrow>
       (CancelAccepted, notify_changed (wake_if h should_wake
          (send completion (Inr (OutcomeExec OutCancelled)) (on_channel sink_request_cancel (Some out) w1))))
   | (CancelResult r, w1) \<Rightarrow> (r, w1))"

section \<open>The host\<close>

definition world_take_native_action :: "host \<Rightarrow> world \<Rightarrow> native_action \<times> world" where
  "world_take_native_action h w = (case with_lock (take_native_action (disk h w) (clock h w)) w of
     (TakeAction a, w1) \<Rightarrow> (a, w1)
   | (TakeComplete a, w1) \<Rightarrow> (ActionIdle, finish_completion a w1)
   | (TakeIdle, w1) \<Rightarrow> (ActionIdle, w1))"

definition bound_action_result :: "action_result \<Rightarrow> action_result" where
  "bound_action_result r = r\<lparr>ar_native_detail := bound_diagnostic (ar_native_detail r)\<rparr>"

definition complete_native_action_with_quarantine :: "host \<Rightarrow> job_id \<Rightarrow> action_result \<Rightarrow> bool \<Rightarrow> world \<Rightarrow> world" where
  "complete_native_action_with_quarantine h i r quarantine w =
     (case with_lock (complete_native_action i (bound_action_result r) quarantine (clock h w)) w of
        ((completion, rejected, notify), w1) \<Rightarrow>
          (let w2 = fold (stop_completion NativeMutationStateUnknown) rejected (finish_optional completion w1)
           in if notify then notify_changed w2 else w2))"

definition world_complete_native_action :: "host \<Rightarrow> job_id \<Rightarrow> action_result \<Rightarrow> world \<Rightarrow> world" where
  "world_complete_native_action h i r w =
     complete_native_action_with_quarantine h i r (native_result_requires_quarantine (ar_kind r)) w"

definition capture_action_kind :: "capture_result_kind \<Rightarrow> action_result_kind" where
  "capture_action_kind k = (case k of
     CrSuccess \<Rightarrow> ArSuccess
   | CrDrawingGone \<Rightarrow> ArDrawingGone
   | CrDrawingGenerationChanged \<Rightarrow> ArDrawingGenerationChanged
   | CrNotActive \<Rightarrow> ArNotActive
   | CrNotQuiescent \<Rightarrow> ArNotQuiescent
   | CrUnavailable \<Rightarrow> ArCaptureUnavailable
   | CrInvalid \<Rightarrow> ArCaptureInvalid
   | CrRestoreFailed \<Rightarrow> ArCaptureRestoreFailed
   | CrOther _ \<Rightarrow> ArCaptureInvalid)"

definition complete_native_capture :: "host \<Rightarrow> job_id \<Rightarrow> capture_result \<Rightarrow> byte list \<Rightarrow> world \<Rightarrow> world" where
  "complete_native_capture h i r0 pixels w =
     (let r1 = r0\<lparr>cr_detail := bound_diagnostic (cr_detail r0)\<rparr>;
          r = (case cr_kind r1 of
                 CrOther k \<Rightarrow> r1\<lparr>cr_detail := lit ''unknown native capture result ('' @ dec_nat (unat k) @ lit '')''\<rparr>
               | _ \<Rightarrow> r1);
          action = \<lparr>ar_kind = capture_action_kind (cr_kind r), ar_native_status = 0, ar_native_detail = cr_detail r\<rparr>
      in if cr_kind r = CrSuccess then
           (case with_lock (sched_record_capture i r pixels) w of
              (Some (Inl e), w1) \<Rightarrow>
                world_complete_native_action h i
                  (action\<lparr>ar_kind := ArCaptureInvalid, ar_native_detail := sched_error_display e\<rparr>) w1
            | (_, w1) \<Rightarrow> world_complete_native_action h i action w1)
         else world_complete_native_action h i action w)"

definition complete_execution_native_action ::
  "host \<Rightarrow> job_id \<Rightarrow> action_result \<Rightarrow> finalization_observation \<Rightarrow> world \<Rightarrow> world" where
  "complete_execution_native_action h i r ob w =
     (let d = classify_execution_finalization r ob
      in complete_native_action_with_quarantine h i (fd_result d) (fd_quarantine d) w)"

definition try_claim_native_action_wake :: "world \<Rightarrow> bool \<times> world" where
  "try_claim_native_action_wake w = with_lock request_wake w"

section \<open>Timers\<close>

definition world_next_timer_deadline :: "world \<Rightarrow> nat option" where
  "world_next_timer_deadline w = next_timer_deadline (wd_sched w)"

definition world_process_due_timers :: "host \<Rightarrow> nat \<Rightarrow> world \<Rightarrow> world" where
  "world_process_due_timers h now w =
     (case with_lock (\<lambda>s. case process_due_timers now s of (expired, should_wake, s1) \<Rightarrow> ((expired, should_wake), s1)) w of
        ((expired, should_wake), w1) \<Rightarrow> wake_if h should_wake (fold finish_completion expired w1))"

definition world_native_state_may_be_ready :: "host \<Rightarrow> world \<Rightarrow> world" where
  "world_native_state_may_be_ready h w =
     (case with_lock native_state_may_be_ready w of
        (should_wake, w1) \<Rightarrow> notify_changed (wake_if h should_wake w1))"

section \<open>The steps of the active execution\<close>

definition world_take_execution_step :: "host \<Rightarrow> job_id \<Rightarrow> world \<Rightarrow> native_exec_step \<times> world" where
  "world_take_execution_step h i w = with_lock (take_execution_step i (clock h w)) w"

definition bound_step_result :: "step_result \<Rightarrow> step_result" where
  "bound_step_result r = r\<lparr>sr_detail := bound_diagnostic (sr_detail r)\<rparr>"

definition world_complete_execution_step :: "job_id \<Rightarrow> step_result \<Rightarrow> world \<Rightarrow> bool \<times> world" where
  "world_complete_execution_step i r w = with_lock (complete_execution_step i (bound_step_result r)) w"

definition world_abandon_execution :: "job_id \<Rightarrow> step_result \<Rightarrow> world \<Rightarrow> bool \<times> world" where
  "world_abandon_execution i r w = with_lock (abandon_execution i (bound_step_result r)) w"

definition begin_eval_output :: "job_id \<Rightarrow> 64 word \<Rightarrow> 64 word \<Rightarrow> world \<Rightarrow> value_lease option \<times> world" where
  "begin_eval_output i document_token database_token w = with_lock (sched_acquire_eval_value_output i
     \<lparr>dk_document_token = document_token, dk_database_token = database_token\<rparr>) w"

definition begin_form_output :: "job_id \<Rightarrow> 64 word \<Rightarrow> 64 word \<Rightarrow> world \<Rightarrow> value_lease option \<times> world" where
  "begin_form_output i document_token database_token w = with_lock (sched_acquire_form_output i
     \<lparr>dk_document_token = document_token, dk_database_token = database_token\<rparr>) w"

definition publish_snapshot ::
  "(nat \<Rightarrow> ustr) \<Rightarrow> nat \<Rightarrow> native_document_snapshot list \<Rightarrow> world \<Rightarrow> (nat \<times> world) option" where
  "publish_snapshot gen k nds w = (case replace_drawing_snapshot gen k nds (wd_sched w) of
     None \<Rightarrow> None | Some (k1, s) \<Rightarrow> Some (k1, w\<lparr>wd_sched := s\<rparr>))"

end
