(* ===== verification/Sched_Runs.thy ===== *)
theory Sched_Runs
  imports Sched_World
begin

text \<open>
  Runs of the scheduler: clients, the host, the timers and the execution's own steps in any order,
  and the invariant every reachable world satisfies.
\<close>

section \<open>Runs\<close>

definition new_world :: "(sink \<Rightarrow> channel) \<Rightarrow> world" where
  "new_world channels = \<lparr>wd_sched = new_scheduler, wd_channels = channels, wd_delivered = [], wd_awaited = [],
     wd_ticks = 0, wd_wakes = 0, wd_timers_changed = False\<rparr>"

text \<open>The output port of the active job returns its lease: the bridge is shared with the execution.\<close>

definition release_active_lease :: "64 word \<Rightarrow> value_output_kind \<Rightarrow> value_bridge_failure option \<Rightarrow> world \<Rightarrow> world" where
  "release_active_lease g k f w = (case sc_active (wd_sched w) of
     Some j \<Rightarrow> w\<lparr>wd_sched := snd (on_active_operation (map_execution (\<lambda>e.
         ((), e\<lparr>ex_bridge := release_value_output g k f (ex_bridge e)\<rparr>))) j (wd_sched w))\<rparr>
   | None \<Rightarrow> w)"

inductive world_step :: "host \<Rightarrow> world \<Rightarrow> world \<Rightarrow> bool" for h where
  ws_admit: "exec_new mode name bytes = Inr (e, ch) \<Longrightarrow>
    \<forall>j\<in>set (jobs_of (wd_sched w)). op_output_sink (jb_operation j) \<noteq> Some out \<Longrightarrow>
    world_step h w (snd (world_admit_execution h i e out force reservation
      (w\<lparr>wd_channels := (wd_channels w)(out := ch)\<rparr>)))"
| ws_submit: "\<not> op_is_execution p \<Longrightarrow> world_step h w (snd (submit_operation_inner h p reserved w))"
| ws_cancel: "world_step h w (snd (world_cancel_execution h i w))"
| ws_start: "world_step h w (world_start w)"
| ws_stop: "world_step h w (world_stop w)"
| ws_take: "world_step h w (snd (world_take_native_action h w))"
| ws_complete: "world_step h w (world_complete_native_action h i r w)"
| ws_capture: "world_step h w (complete_native_capture h i c pixels w)"
| ws_finalize: "world_step h w (complete_execution_native_action h i r ob w)"
| ws_claim: "world_step h w (snd (try_claim_native_action_wake w))"
| ws_wake_failed: "world_step h w (wake_failed h w)"
| ws_timers: "world_step h w (world_process_due_timers h now w)"
| ws_ready: "world_step h w (world_native_state_may_be_ready h w)"
| ws_step: "world_step h w (snd (world_take_execution_step h i w))"
| ws_complete_step: "world_step h w (snd (world_complete_execution_step i r w))"
| ws_abandon: "world_step h w (snd (world_abandon_execution i r w))"
| ws_eval_output: "world_step h w (snd (begin_eval_output i t d w))"
| ws_form_output: "world_step h w (snd (begin_form_output i t d w))"
| ws_release: "world_step h w (release_active_lease g k f w)"
| ws_channel: "world_step h w (on_channel (chan_apply op) (Some out) w)"
| ws_snapshot: "publish_snapshot gen n nds w = Some (n1, w1) \<Longrightarrow>
    world_step h w w1"

inductive world_reach :: "host \<Rightarrow> world \<Rightarrow> bool" for h where
  wr_new: "world_reach h (new_world channels)"
| wr_step: "world_reach h w \<Longrightarrow> world_step h w w1 \<Longrightarrow> world_reach h w1"

section \<open>The invariant of the scheduler\<close>

definition quarantine_ok :: "scheduler \<Rightarrow> bool" where
  "quarantine_ok s \<longleftrightarrow> (sc_quarantined s \<longrightarrow> jobs_of s = [] \<and> \<not> sc_wake_pending s)"

definition sched_ok :: "scheduler \<Rightarrow> bool" where
  "sched_ok s \<longleftrightarrow> tickets_ok (sc_next_completion s) (tickets s) \<and> waits_ok s \<and> jobs_ok reachable s \<and> quarantine_ok s"

text \<open>A method neither lifts nor, of itself, imposes the quarantine, and does not ask for a wake-up in it.\<close>

definition quarantine_kept :: "scheduler \<Rightarrow> scheduler \<Rightarrow> bool" where
  "quarantine_kept s s1 \<longleftrightarrow> sc_quarantined s1 = sc_quarantined s
     \<and> (sc_quarantined s \<longrightarrow> sc_wake_pending s1 \<longrightarrow> sc_wake_pending s)"

lemma sched_ok_answers:
  assumes "sched_ok s" and "answers s cs s1" and "waits_ok s1" and "jobs_ok reachable s1" and "quarantine_kept s s1"
  shows "sched_ok s1"
proof -
  have sub: "subseq (tickets s1) (tickets s)" and n: "sc_next_completion s1 = sc_next_completion s"
    using assms(2) by (simp_all add: answers_def)
  have "tickets_ok (sc_next_completion s1) (tickets s1)"
    unfolding n by (rule tickets_ok_subseq [OF _ sub]) (use assms(1) in \<open>simp add: sched_ok_def\<close>)
  moreover have "tickets s1 = []" if "jobs_of s = []"
    using list_emb_length [OF sub] that by (simp add: tickets_def)
  then have "jobs_of s = [] \<Longrightarrow> jobs_of s1 = []" by (simp add: tickets_def)
  ultimately show ?thesis
    using assms by (auto simp: sched_ok_def quarantine_ok_def quarantine_kept_def)
qed

lemma request_wake_kept [simp]: "quarantine_kept s (snd (request_wake s))"
  by (simp add: quarantine_kept_def request_wake_def)

lemma request_wake_kept_from:
  "quarantine_kept s s1 \<Longrightarrow> quarantine_kept s (snd (request_wake s1))"
  by (auto simp: quarantine_kept_def request_wake_def)

lemma kept_same: "sc_quarantined s1 = sc_quarantined s \<Longrightarrow> sc_wake_pending s1 = sc_wake_pending s \<Longrightarrow> quarantine_kept s s1"
  by (simp add: quarantine_kept_def)

lemma kept_cleared: "sc_quarantined s1 = sc_quarantined s \<Longrightarrow> \<not> sc_wake_pending s1 \<Longrightarrow> quarantine_kept s s1"
  by (simp add: quarantine_kept_def)

lemma steps_kept:
  "quarantine_kept s (snd (take_execution_step i now s))" "quarantine_kept s (snd (sched_acquire_eval_value_output i target s))"
  "quarantine_kept s (snd (sched_acquire_form_output i target s))" "quarantine_kept s (snd (complete_execution_step i r s))"
  "quarantine_kept s (snd (abandon_execution i r s))" "quarantine_kept s (snd (sched_record_capture i c pixels s))"
  by (auto simp: take_execution_step_def sched_acquire_eval_value_output_def sched_acquire_form_output_def
      complete_execution_step_def abandon_execution_def sched_record_capture_def split_beta sched_simps
      split: option.splits intro!: kept_same)

lemma methods_kept:
  "quarantine_kept s (snd (snd (process_due_timers now s)))"
  "quarantine_kept s (snd (native_state_may_be_ready s))"
  "quarantine_kept s (snd (sched_stop s))"
  "quarantine_kept s (snd (take_native_action fs now s))"
  "quarantine_kept s (snd (cancel_execution i s))"
  "quarantine_kept s (snd (sched_wake_failed now s))"
proof -
  show "quarantine_kept s (snd (snd (process_due_timers now s)))"
    by (simp add: process_due_timers_def split_beta) (intro request_wake_kept_from kept_same; simp)
  show "quarantine_kept s (snd (native_state_may_be_ready s))"
    unfolding native_state_may_be_ready_def by (intro request_wake_kept_from kept_same) simp_all
  show "quarantine_kept s (snd (sched_stop s))"
    by (intro kept_cleared) (simp_all add: sched_stop_def split_beta)
  show "quarantine_kept s (snd (take_native_action fs now s))"
    by (intro kept_cleared) (auto simp: take_native_action_def Let_def split: list.splits prepared.splits)
  show "quarantine_kept s (snd (cancel_execution i s))"
    by (auto simp: cancel_execution_def Let_def split_beta sched_simps split: option.splits
        intro!: kept_same request_wake_kept_from)
  show "quarantine_kept s (snd (sched_wake_failed now s))"
    by (auto simp: sched_wake_failed_def Let_def split_beta split: list.splits
        intro!: kept_cleared request_wake_kept_from)
qed

section \<open>Each method keeps the invariant\<close>

lemma sched_ok_steps:
  assumes "sched_ok s"
  shows "sched_ok (snd (take_execution_step i now s))" "sched_ok (snd (sched_acquire_eval_value_output i target s))"
    "sched_ok (snd (sched_acquire_form_output i target s))" "sched_ok (snd (complete_execution_step i r s))"
    "sched_ok (snd (abandon_execution i r s))" "sched_ok (snd (sched_record_capture i c pixels s))"
proof -
  have w: "waits_ok s" and j: "jobs_ok reachable s" using assms by (simp_all add: sched_ok_def)
  show "sched_ok (snd (take_execution_step i now s))"
    by (rule sched_ok_answers [OF assms steps_answer(1) steps_waits(1) [OF w] runs.steps_ok(1) [OF j] steps_kept(1)])
  show "sched_ok (snd (sched_acquire_eval_value_output i target s))"
    by (rule sched_ok_answers [OF assms steps_answer(2) steps_waits(2) [OF w] runs.steps_ok(2) [OF j] steps_kept(2)])
  show "sched_ok (snd (sched_acquire_form_output i target s))"
    by (rule sched_ok_answers [OF assms steps_answer(3) steps_waits(3) [OF w] runs.steps_ok(3) [OF j] steps_kept(3)])
  show "sched_ok (snd (complete_execution_step i r s))"
    by (rule sched_ok_answers [OF assms steps_answer(4) steps_waits(4) [OF w] runs.steps_ok(4) [OF j] steps_kept(4)])
  show "sched_ok (snd (abandon_execution i r s))"
    by (rule sched_ok_answers [OF assms steps_answer(5) steps_waits(5) [OF w] runs.steps_ok(5) [OF j] steps_kept(5)])
  show "sched_ok (snd (sched_record_capture i c pixels s))"
    by (rule sched_ok_answers [OF assms steps_answer(6) steps_waits(6) [OF w] runs.steps_ok(6) [OF j] steps_kept(6)])
qed

lemma sched_ok_methods:
  assumes "sched_ok s"
  shows "sched_ok (snd (snd (process_due_timers now s)))" "sched_ok (snd (native_state_may_be_ready s))"
    "sched_ok (snd (sched_stop s))" "sched_ok (snd (take_native_action fs now s))"
    "sched_ok (snd (cancel_execution i s))" "sched_ok (snd (sched_wake_failed now s))" "sched_ok (snd (request_wake s))"
proof -
  have w: "waits_ok s" and j: "jobs_ok reachable s" using assms by (simp_all add: sched_ok_def)
  show "sched_ok (snd (snd (process_due_timers now s)))"
    by (rule sched_ok_answers [OF assms process_due_timers_answers process_due_timers_waits [OF w]
          runs.process_due_timers_ok [OF j] methods_kept(1)])
  show "sched_ok (snd (native_state_may_be_ready s))"
    by (rule sched_ok_answers [OF assms native_state_may_be_ready_answers native_state_may_be_ready_waits [OF w]
          runs.native_state_may_be_ready_ok [OF j] methods_kept(2)])
  show "sched_ok (snd (sched_stop s))"
    by (rule sched_ok_answers [OF assms stop_answers stop_waits [OF w] runs.stop_ok [OF j] methods_kept(3)])
  show "sched_ok (snd (take_native_action fs now s))"
    by (rule sched_ok_answers [OF assms take_native_action_answers take_native_action_waits [OF w]
          runs.take_native_action_ok [OF j] methods_kept(4)])
  show "sched_ok (snd (cancel_execution i s))"
    by (rule sched_ok_answers [OF assms cancel_execution_answers cancel_execution_waits [OF w]
          runs.cancel_execution_ok [OF j] methods_kept(5)])
  obtain a b s1 where f: "sched_wake_failed now s = ((a, b), s1)" by (metis prod.exhaust)
  show "sched_ok (snd (sched_wake_failed now s))"
    by (rule sched_ok_answers [OF assms _ wake_failed_waits [OF w] runs.wake_failed_ok [OF j] methods_kept(6)])
      (use wake_failed_answers [OF f] f in simp)
  show "sched_ok (snd (request_wake s))"
    by (rule sched_ok_answers [OF assms answers_request_wake [OF answers_same [OF refl refl]]])
      (use w j in \<open>simp_all add: sched_simps jobs_ok_def\<close>)
qed

lemma complete_native_action_sched_ok:
  assumes "sched_ok s" and "complete_native_action i r quarantine now s = ((a, rejected, notify), s1)"
  shows "sched_ok s1"
proof (cases "quarantine_kept s s1")
  case True
  have w: "waits_ok s" and j: "jobs_ok reachable s" using assms by (simp_all add: sched_ok_def)
  from sched_ok_answers [OF assms(1) complete_native_action_answers [OF assms(2)] _ _ True]
    complete_native_action_waits [OF w, of i r quarantine now] runs.complete_native_action_ok [OF j, of i r quarantine now]
    assms(2) show ?thesis by simp
next
  case False
  then have "jobs_of s1 = []" "sc_quarantined s1" "\<not> sc_wake_pending s1"
    using assms(2) by (auto simp: complete_native_action_def quarantine_kept_def sched_simps
        split: option.splits if_splits sum.splits prod.splits)
  then show ?thesis
    by (auto simp: sched_ok_def tickets_ok_def tickets_def source_sizes_def map_filter_simps waits_ok_def jobs_ok_def
        quarantine_ok_def jobs_of_def active_jobs_def split: option.splits)
qed

section \<open>Admission\<close>

lemma source_sizes_snoc: "source_sizes (ts @ [t]) = source_sizes ts @ (case snd (snd (snd t)) of Some b \<Rightarrow> [b] | None \<Rightarrow> [])"
  by (auto simp: source_sizes_def map_filter_def split: option.splits prod.splits)

lemma tickets_ok_push:
  assumes "tickets_ok n ts" and "length ts < MAX_MUTATION_JOBS" and "n \<le> fst t"
    and "\<And>b. snd (snd (snd t)) = Some b \<Longrightarrow> length (source_sizes ts) < MAX_ADMITTED_EXECUTIONS
        \<and> sum_list (source_sizes ts) + b \<le> MAX_ADMITTED_SOURCE_BYTES"
  shows "tickets_ok (Suc (fst t)) (ts @ [t])"
  using assms by (auto simp: tickets_ok_def source_sizes_snoc sorted_wrt_append split: option.splits)

lemma tickets_ok_mono: "tickets_ok n ts \<Longrightarrow> n \<le> m \<Longrightarrow> tickets_ok m ts"
  by (auto simp: tickets_ok_def)

text \<open>What admitting and submitting do to the jobs: nothing, or one job more at the back.\<close>

lemma admit_execution_result:
  assumes "sched_ok s" and "admit_execution fs i e out c reservation now s = (r, s1)" and "reachable e"
  shows "sched_ok s1"
    and "case r of Inl err \<Rightarrow> jobs_of s1 = jobs_of s
       | Inr (job_id, completion, should_wake, Some a) \<Rightarrow> jobs_of s1 = jobs_of s \<and> fst a = completion
           \<and> completion = sc_next_completion s \<and> sc_next_completion s1 = Suc completion
       | Inr (job_id, completion, should_wake, None) \<Rightarrow> open_completions s1 = open_completions s @ [completion]
           \<and> completion = sc_next_completion s \<and> sc_next_completion s1 = Suc completion"
proof -
  have t: "tickets_ok (sc_next_completion s) (tickets s)" and w: "waits_ok s" and j: "jobs_ok reachable s"
    and q: "quarantine_ok s" using assms(1) by (simp_all add: sched_ok_def)
  have w1: "waits_ok s1" and j1: "jobs_ok reachable s1"
    using admit_execution_waits [OF w, of fs i e out c reservation now]
      runs.admit_execution_ok [OF j assms(3), of fs i out c reservation now] assms(2) by simp_all
  let ?n = "sc_next_completion s"
  let ?j = "\<lparr>jb_job_id = sc_next_job_id s, jb_operation = OpExecute i e out c, jb_native_target = None,
      jb_wait = wait_queued now, jb_execution_reservation = Some reservation, jb_capture_reservation = False,
      jb_completion = ?n\<rparr>"
  let ?s1 = "s\<lparr>sc_next_job_id := sc_next_job_id s + 1, sc_next_completion := Suc ?n\<rparr>"
  let ?s2 = "?s1\<lparr>sc_pending := sc_pending s @ [?j]\<rparr>"
  have jobs1: "jobs_of ?s1 = jobs_of s" and jobs2: "jobs_of ?s2 = jobs_of s @ [?j]"
    by (simp_all add: jobs_of_def active_jobs_def)
  have tick: "ticket ?j = (?n, op_identity (OpExecute i e out c))" by (simp add: ticket_def)
  have u: "execution_usage ?s1 = execution_usage s" "mutation_job_count ?s1 = mutation_job_count s"
    by (simp_all add: execution_usage_eq mutation_job_count_eq tickets_def jobs1)
  consider (refused) err where "r = Inl err" "s1 = s \<or> s1 = ?s1"
    | (finished) a where "r = Inr (sc_next_job_id s, ?n, False, Some a)" "fst a = ?n" "s1 = ?s1" "\<not> sc_quarantined s"
    | (queued) b where "r = Inr (sc_next_job_id s, ?n, b, None)" "s1 = snd (request_wake ?s2)" "\<not> sc_quarantined s"
        "length (tickets s) < MAX_MUTATION_JOBS" "length (source_sizes (tickets s)) < MAX_ADMITTED_EXECUTIONS"
        "sum_list (source_sizes (tickets s)) + source_bytes e \<le> MAX_ADMITTED_SOURCE_BYTES"
  proof -
    note def = assms(2) [unfolded admit_execution_def Let_def, unfolded add_0_right Suc_eq_plus1 [symmetric] u]
    consider "sc_stopping s \<or> sc_quarantined s"
      | "\<not> sc_stopping s" "\<not> sc_quarantined s" "ex_outcome e \<noteq> None"
      | "\<not> sc_stopping s" "\<not> sc_quarantined s" "ex_outcome e = None"
          "mutation_job_count s \<ge> MAX_MUTATION_JOBS \<or> fst (execution_usage s) \<ge> MAX_ADMITTED_EXECUTIONS
            \<or> sat_add64 (snd (execution_usage s)) (source_bytes e) > MAX_ADMITTED_SOURCE_BYTES"
      | "\<not> sc_stopping s" "\<not> sc_quarantined s" "ex_outcome e = None" "mutation_job_count s < MAX_MUTATION_JOBS"
          "fst (execution_usage s) < MAX_ADMITTED_EXECUTIONS"
          "sat_add64 (snd (execution_usage s)) (source_bytes e) \<le> MAX_ADMITTED_SOURCE_BYTES"
      by linarith
    then show thesis
    proof cases
      case 1
      with def show thesis by (intro refused [of "if sc_stopping s then PluginStopping else NativeMutationStateUnknown"])
          (auto split: if_splits)
    next
      case 2
      with def show thesis by (intro finished [OF _ _ _ 2(2)]) auto
    next
      case 3
      with def show thesis
        by (intro refused [of "if mutation_job_count s \<ge> MAX_MUTATION_JOBS then MutationCapacity else ExecCapacity"])
          (auto split: if_splits)
    next
      case 4
      have "sum_list (source_sizes (tickets s)) + source_bytes e \<le> MAX_ADMITTED_SOURCE_BYTES"
        using 4(6) sat_add64_gt_iff [of MAX_ADMITTED_SOURCE_BYTES "snd (execution_usage s)" "source_bytes e"]
        by (simp add: execution_usage_eq not_less [symmetric])
          (simp add: MAX_ADMITTED_SOURCE_BYTES_def u64_max_def)
      with 4 def show thesis
        by (intro queued [of "fst (request_wake ?s2)"]) (auto simp: split_beta execution_usage_eq mutation_job_count_eq)
    qed
  qed
  note cases = this
  from cases show "sched_ok s1"
  proof cases
    case refused
    then have "jobs_of s1 = jobs_of s" "sc_quarantined s1 = sc_quarantined s" "sc_wake_pending s1 = sc_wake_pending s"
      "?n \<le> sc_next_completion s1" using jobs1 by auto
    with t w1 j1 q show ?thesis
      by (auto simp: sched_ok_def tickets_def quarantine_ok_def intro: tickets_ok_mono)
  next
    case finished
    with t w1 j1 q jobs1 show ?thesis
      by (auto simp: sched_ok_def tickets_def quarantine_ok_def intro: tickets_ok_mono)
  next
    case queued
    have "tickets_ok (Suc ?n) (tickets s @ [ticket ?j])"
      using tickets_ok_push [OF t queued(4), of "ticket ?j"] queued(5,6)
      by (simp add: tick op_identity_def op_reads)
    then have "tickets_ok (sc_next_completion s1) (tickets s1)"
      by (simp add: queued(2) sched_simps tickets_def jobs2)
    with w1 j1 queued(2,3) show ?thesis by (simp add: sched_ok_def quarantine_ok_def sched_simps)
  qed
  show "case r of Inl err \<Rightarrow> jobs_of s1 = jobs_of s
       | Inr (job_id, completion, should_wake, Some a) \<Rightarrow> jobs_of s1 = jobs_of s \<and> fst a = completion
           \<and> completion = sc_next_completion s \<and> sc_next_completion s1 = Suc completion
       | Inr (job_id, completion, should_wake, None) \<Rightarrow> open_completions s1 = open_completions s @ [completion]
           \<and> completion = sc_next_completion s \<and> sc_next_completion s1 = Suc completion"
    using cases jobs1 jobs2 by cases (auto simp: sched_simps open_completions_def)
qed

lemma submit_operation_result:
  assumes "sched_ok s" and "submit_operation fs p reserved now s = (r, s1)" and "\<not> op_is_execution p"
  shows "sched_ok s1"
    and "case r of Inr (SubmitQueued completion should_wake) \<Rightarrow> open_completions s1 = open_completions s @ [completion]
           \<and> completion = sc_next_completion s \<and> sc_next_completion s1 = Suc completion
       | _ \<Rightarrow> s1 = s"
proof -
  have t: "tickets_ok (sc_next_completion s) (tickets s)" and w: "waits_ok s" and j: "jobs_ok reachable s"
    and q: "quarantine_ok s" using assms(1) by (simp_all add: sched_ok_def)
  have p: "op_ok reachable p" "op_execution_source_bytes p = None"
    using assms(3) by (cases p; simp add: op_is_execution_def op_reads)+
  have w1: "waits_ok s1" and j1: "jobs_ok reachable s1"
    using submit_operation_waits [OF w, of fs p reserved now]
      runs.submit_operation_ok [OF j p(1), of fs reserved now] assms(2) by simp_all
  let ?n = "sc_next_completion s"
  let ?j = "\<lparr>jb_job_id = sc_next_job_id s, jb_operation = p, jb_native_target = None,
      jb_wait = wait_queued now, jb_execution_reservation = None, jb_capture_reservation = reserved,
      jb_completion = ?n\<rparr>"
  let ?s2 = "s\<lparr>sc_next_job_id := sc_next_job_id s + 1, sc_next_completion := Suc ?n, sc_pending := sc_pending s @ [?j]\<rparr>"
  have jobs2: "jobs_of ?s2 = jobs_of s @ [?j]" by (simp add: jobs_of_def active_jobs_def)
  note def = assms(2) [unfolded submit_operation_def Let_def, unfolded Suc_eq_plus1 [symmetric]]
  consider (same) "s1 = s" "\<nexists>c b. r = Inr (SubmitQueued c b)"
    | (queued) b where "r = Inr (SubmitQueued ?n b)" "s1 = snd (request_wake ?s2)" "\<not> sc_quarantined s"
        "length (tickets s) < MAX_MUTATION_JOBS"
  proof -
    consider "sc_stopping s \<or> sc_quarantined s \<or> mutation_job_count s \<ge> MAX_MUTATION_JOBS"
      | out where "\<not> sc_stopping s" "\<not> sc_quarantined s" "mutation_job_count s < MAX_MUTATION_JOBS"
          "sched_idle s" "prepare fs (sc_drawings s) p = Immediate out"
      | "\<not> sc_stopping s" "\<not> sc_quarantined s" "mutation_job_count s < MAX_MUTATION_JOBS"
          "\<nexists>out. sched_idle s \<and> prepare fs (sc_drawings s) p = Immediate out"
      by (meson not_le)
    then show thesis
    proof cases
      case 1
      with def show thesis by (intro same) (auto split: if_splits)
    next
      case 2
      with def show thesis by (intro same) auto
    next
      case 3
      with def show thesis
        by (intro queued [of "fst (request_wake ?s2)"])
          (auto simp: split_beta mutation_job_count_eq split: bool.splits prepared.splits)
    qed
  qed
  note cases = this
  from cases show "sched_ok s1"
  proof cases
    case same
    with assms(1) show ?thesis by simp
  next
    case queued
    have "tickets_ok (Suc ?n) (tickets s @ [ticket ?j])"
      using tickets_ok_push [OF t queued(4), of "ticket ?j"] p(2) by (simp add: ticket_def op_identity_def)
    then have "tickets_ok (sc_next_completion s1) (tickets s1)"
      by (simp add: queued(2) sched_simps tickets_def jobs2)
    with w1 j1 queued(2,3) show ?thesis by (simp add: sched_ok_def quarantine_ok_def sched_simps)
  qed
  show "case r of Inr (SubmitQueued completion should_wake) \<Rightarrow> open_completions s1 = open_completions s @ [completion]
           \<and> completion = sc_next_completion s \<and> sc_next_completion s1 = Suc completion
       | _ \<Rightarrow> s1 = s"
    using cases jobs2
    by cases (auto simp: sched_simps open_completions_def split: sum.split submission_decision.split)
qed

section \<open>Every receiver is answered at most once\<close>

definition world_ok :: "world \<Rightarrow> bool" where
  "world_ok w \<longleftrightarrow> sched_ok (wd_sched w)
     \<and> mset (wd_awaited w) = mset (open_completions (wd_sched w)) + mset (map fst (wd_delivered w))
     \<and> sorted_wrt (<) (wd_awaited w) \<and> (\<forall>c\<in>set (wd_awaited w). c < sc_next_completion (wd_sched w))"

text \<open>A step of the world that answers what it takes out of the scheduler and hands out no receiver.\<close>

definition settles :: "world \<Rightarrow> world \<Rightarrow> bool" where
  "settles w w1 \<longleftrightarrow> (\<exists>cs. answers (wd_sched w) cs (wd_sched w1) \<and> map fst (wd_delivered w1) = map fst (wd_delivered w) @ cs)
     \<and> wd_awaited w1 = wd_awaited w"

lemma world_ok_settles: "world_ok w \<Longrightarrow> settles w w1 \<Longrightarrow> sched_ok (wd_sched w1) \<Longrightarrow> world_ok w1"
proof -
  assume ok: "world_ok w" "sched_ok (wd_sched w1)" and "settles w w1"
  then obtain cs where a: "answers (wd_sched w) cs (wd_sched w1)" and "wd_awaited w1 = wd_awaited w"
    and d: "map fst (wd_delivered w1) = map fst (wd_delivered w) @ cs" by (auto simp: settles_def)
  moreover have "mset (map fst (wd_delivered w1)) = mset (map fst (wd_delivered w)) + mset cs"
    unfolding d by simp
  ultimately show ?thesis using ok by (auto simp: world_ok_def answers_def simp del: mset_map)
qed

lemma channel_frame [simp]:
  "wd_sched (on_channel f out w) = wd_sched w" "wd_delivered (on_channel f out w) = wd_delivered w"
  "wd_awaited (on_channel f out w) = wd_awaited w"
  "wd_sched (send c r w) = wd_sched w" "wd_delivered (send c r w) = wd_delivered w @ [(c, r)]"
  "wd_awaited (send c r w) = wd_awaited w"
  "wd_sched (notify_changed w) = wd_sched w" "wd_delivered (notify_changed w) = wd_delivered w"
  "wd_awaited (notify_changed w) = wd_awaited w"
  by (simp_all add: on_channel_def send_def notify_changed_def split: option.split)

lemma finish_frame [simp]:
  "wd_sched (finish_completion a w) = wd_sched w" "wd_awaited (finish_completion a w) = wd_awaited w"
  "map fst (wd_delivered (finish_completion a w)) = map fst (wd_delivered w) @ [fst a]"
  "wd_sched (finish_optional b w) = wd_sched w" "wd_awaited (finish_optional b w) = wd_awaited w"
  "map fst (wd_delivered (finish_optional b w)) = map fst (wd_delivered w) @ opt_answered b"
  "wd_sched (stop_completion e k w) = wd_sched w" "wd_awaited (stop_completion e k w) = wd_awaited w"
  "map fst (wd_delivered (stop_completion e k w)) = map fst (wd_delivered w) @ [fst k]"
  by (simp_all add: finish_completion_def finish_optional_def stop_completion_def opt_answered_def
      split: option.split prod.split)

lemma fold_frame [simp]:
  "wd_sched (fold finish_completion as w) = wd_sched w" "wd_awaited (fold finish_completion as w) = wd_awaited w"
  "map fst (wd_delivered (fold finish_completion as w)) = map fst (wd_delivered w) @ map fst as"
  "wd_sched (fold (stop_completion e) ks w) = wd_sched w" "wd_awaited (fold (stop_completion e) ks w) = wd_awaited w"
  "map fst (wd_delivered (fold (stop_completion e) ks w)) = map fst (wd_delivered w) @ map fst ks"
proof -
  show "wd_sched (fold finish_completion as w) = wd_sched w" "wd_awaited (fold finish_completion as w) = wd_awaited w"
    "map fst (wd_delivered (fold finish_completion as w)) = map fst (wd_delivered w) @ map fst as"
    by (induction as arbitrary: w) simp_all
  show "wd_sched (fold (stop_completion e) ks w) = wd_sched w" "wd_awaited (fold (stop_completion e) ks w) = wd_awaited w"
    "map fst (wd_delivered (fold (stop_completion e) ks w)) = map fst (wd_delivered w) @ map fst ks"
    by (induction ks arbitrary: w) simp_all
qed

lemma with_lock_frame [simp]:
  "fst (with_lock f w) = fst (f (wd_sched w))" "wd_sched (snd (with_lock f w)) = snd (f (wd_sched w))"
  "wd_delivered (snd (with_lock f w)) = wd_delivered w" "wd_awaited (snd (with_lock f w)) = wd_awaited w"
  "wd_channels (snd (with_lock f w)) = wd_channels w"
  by (simp_all add: with_lock_def split_beta)

lemma world_ok_congruent:
  "world_ok w \<Longrightarrow> wd_sched w1 = wd_sched w \<Longrightarrow> wd_delivered w1 = wd_delivered w \<Longrightarrow> wd_awaited w1 = wd_awaited w
     \<Longrightarrow> world_ok w1"
  by (simp add: world_ok_def)

lemma settlesI:
  "answers (wd_sched w) cs (wd_sched w1) \<Longrightarrow> map fst (wd_delivered w1) = map fst (wd_delivered w) @ cs
     \<Longrightarrow> wd_awaited w1 = wd_awaited w \<Longrightarrow> settles w w1"
  by (auto simp: settles_def)

lemma wake_native_frame:
  "wd_sched (snd (wake_native_actions h w)) = wd_sched w" "wd_delivered (snd (wake_native_actions h w)) = wd_delivered w"
  "wd_awaited (snd (wake_native_actions h w)) = wd_awaited w"
  by (simp_all add: wake_native_actions_def)

lemma give_up_wake_ok:
  assumes "world_ok w"
  shows "world_ok (snd (give_up_wake h w))"
proof -
  obtain a b s1 where f: "sched_wake_failed (clock h w) (wd_sched w) = ((a, b), s1)" by (metis prod.exhaust)
  have "settles w (snd (give_up_wake h w))"
    by (rule settlesI [of _ "opt_answered a"])
      (use wake_failed_answers [OF f] f in \<open>simp_all add: give_up_wake_def split_beta\<close>)
  moreover have "sched_ok (wd_sched (snd (give_up_wake h w)))"
    using assms sched_ok_methods(6) [of "wd_sched w" "clock h w"]
    by (simp add: give_up_wake_def split_beta world_ok_def)
  ultimately show ?thesis by (rule world_ok_settles [OF assms])
qed

lemma world_wake_failed_ok: "world_ok w \<Longrightarrow> world_ok (wake_failed h w)"
proof (induction h w rule: wake_failed.induct)
  case (1 h w)
  obtain b w1 where g: "give_up_wake h w = (b, w1)" by fastforce
  obtain status w2 where n: "wake_native_actions h w1 = (status, w2)" by fastforce
  have w1: "world_ok w1" using give_up_wake_ok [OF 1(2), of h] g by simp
  then have w2: "world_ok w2"
    using n wake_native_frame [of h w1] by (auto intro: world_ok_congruent)
  have "world_ok (wake_failed h w2)" if "b" "status \<noteq> 0"
    using 1(1) [OF g [symmetric] that(1) n [symmetric] that(2) w2] .
  with w1 w2 g n show ?case
    by (subst wake_failed.simps) (auto intro: world_ok_congruent [rotated])
qed

lemma wake_if_ok: "world_ok w \<Longrightarrow> world_ok (wake_if h b w)"
proof -
  assume "world_ok w"
  then have "world_ok (snd (wake_native_actions h w))"
    by (rule world_ok_congruent) (simp_all add: wake_native_frame)
  with \<open>world_ok w\<close> world_wake_failed_ok show ?thesis
    by (simp add: wake_if_def schedule_native_actions_def split_beta)
qed

lemma notify_ok: "world_ok w \<Longrightarrow> world_ok (notify_changed w)"
  by (erule world_ok_congruent) simp_all

lemma on_channel_ok: "world_ok w \<Longrightarrow> world_ok (on_channel f out w)"
  by (erule world_ok_congruent) simp_all

text \<open>A locked method whose answers are delivered right away.\<close>

lemma locked_ok:
  assumes "world_ok w" and "answers (wd_sched w) cs (snd (f (wd_sched w)))" and "sched_ok (snd (f (wd_sched w)))"
    and "wd_sched w1 = snd (f (wd_sched w))" "map fst (wd_delivered w1) = map fst (wd_delivered w) @ cs"
    and "wd_awaited w1 = wd_awaited w"
  shows "world_ok w1"
  by (rule world_ok_settles [OF assms(1) settlesI [of _ cs]]) (use assms in simp_all)

end
