(* ===== verification/Sched_Reach.thy ===== *)
theory Sched_Reach
  imports Sched_Runs
begin

text \<open>
  Every reachable world of the scheduler satisfies its invariant: each function of the scheduler keeps it.
\<close>

section \<open>Reachable worlds satisfy the invariant\<close>

lemma world_ok_grown:
  assumes "world_ok w" and "sched_ok (wd_sched w1)" and "wd_awaited w1 = wd_awaited w" "wd_delivered w1 = wd_delivered w"
    and "open_completions (wd_sched w1) = open_completions (wd_sched w)"
    and "sc_next_completion (wd_sched w) \<le> sc_next_completion (wd_sched w1)"
  shows "world_ok w1"
  using assms unfolding world_ok_def by (metis order_less_le_trans)

text \<open>A new receiver is handed out: it is the next number, and either open or answered at once.\<close>

lemma world_ok_handed_out:
  assumes "world_ok w" and "sched_ok (wd_sched w1)" and c: "c = sc_next_completion (wd_sched w)"
    and n: "sc_next_completion (wd_sched w1) = Suc c" and a: "wd_awaited w1 = wd_awaited w @ [c]"
    and m: "mset (open_completions (wd_sched w1)) + mset (map fst (wd_delivered w1))
        = mset (open_completions (wd_sched w)) + mset (map fst (wd_delivered w)) + {#c#}"
  shows "world_ok w1"
proof -
  have "mset (wd_awaited w1) = mset (open_completions (wd_sched w1)) + mset (map fst (wd_delivered w1))"
    unfolding m a using assms(1) by (simp add: world_ok_def)
  moreover have "sorted_wrt (<) (wd_awaited w1)" "\<forall>x\<in>set (wd_awaited w1). x < sc_next_completion (wd_sched w1)"
    unfolding a n c using assms(1) by (auto simp: world_ok_def sorted_wrt_append less_Suc_eq)
  ultimately show ?thesis using assms(2) by (simp add: world_ok_def)
qed

lemma admit_ok:
  assumes "world_ok w" and "reachable e"
  shows "world_ok (snd (world_admit_execution h i e out force reservation w))"
proof -
  obtain r s1 where m: "admit_execution (disk h w) i e out (context_policy force) reservation (clock h w) (wd_sched w) = (r, s1)"
    by fastforce
  have ok: "sched_ok (wd_sched w)" using assms(1) by (simp add: world_ok_def)
  note res = admit_execution_result [OF ok m assms(2)]
  obtain w1 where l: "with_lock (admit_execution (disk h w) i e out (context_policy force) reservation (clock h w)) w = (r, w1)" and s: "wd_sched w1 = s1"
      and fr: "wd_delivered w1 = wd_delivered w" "wd_awaited w1 = wd_awaited w"
    using m by (simp add: with_lock_def)
  show ?thesis
  proof (cases r)
    case (Inl err)
    with res(2) have "jobs_of s1 = jobs_of (wd_sched w)" by simp
    moreover from Inl m have "sc_next_completion (wd_sched w) \<le> sc_next_completion s1"
      by (auto simp: admit_execution_def Let_def split_beta split: if_splits)
    ultimately have "world_ok w1"
      by (intro world_ok_grown [OF assms(1)]) (use res(1) s fr in \<open>simp_all add: open_completions_def\<close>)
    then show ?thesis using Inl by (simp add: world_admit_execution_def l on_channel_ok)
  next
    case (Inr x)
    obtain job c b a where x: "x = (job, c, b, a)" by (cases x)
    let ?w2 = "w1\<lparr>wd_awaited := wd_awaited w1 @ [c]\<rparr>"
    have "world_ok (finish_optional a ?w2)"
    proof (cases a)
      case None
      with res(2) Inr x have o: "open_completions s1 = open_completions (wd_sched w) @ [c]"
        and c: "c = sc_next_completion (wd_sched w)" "sc_next_completion s1 = Suc c" by simp_all
      have "world_ok ?w2"
        by (rule world_ok_handed_out [OF assms(1) _ c(1)]) (use res(1) s o c(2) fr in simp_all)
      with None show ?thesis by (simp add: finish_optional_def)
    next
      case (Some y)
      with res(2) Inr x have o: "open_completions s1 = open_completions (wd_sched w)" "fst y = c"
        and c: "c = sc_next_completion (wd_sched w)" "sc_next_completion s1 = Suc c"
        by (simp_all add: open_completions_def)
      have "mset (map fst (wd_delivered (finish_completion y ?w2))) = mset (map fst (wd_delivered w)) + {#c#}"
        by (subst finish_frame(3)) (simp add: o(2) fr)
      then have "world_ok (finish_completion y ?w2)"
        by (intro world_ok_handed_out [OF assms(1) _ c(1)]) (use res(1) s o c(2) fr in \<open>simp_all del: mset_map\<close>)
      with Some show ?thesis by (simp add: finish_optional_def)
    qed
    then show ?thesis
      using Inr x by (simp add: world_admit_execution_def l notify_ok wake_if_ok)
  qed
qed

lemma submit_ok:
  assumes "world_ok w" and "\<not> op_is_execution p"
  shows "world_ok (snd (submit_operation_inner h p reserved w))"
proof -
  obtain r s1 where m: "submit_operation (disk h w) p reserved (clock h w) (wd_sched w) = (r, s1)" by fastforce
  have ok: "sched_ok (wd_sched w)" using assms(1) by (simp add: world_ok_def)
  note res = submit_operation_result [OF ok m assms(2)]
  obtain w1 where l: "with_lock (submit_operation (disk h w) p reserved (clock h w)) w = (r, w1)" and s: "wd_sched w1 = s1"
      and fr: "wd_delivered w1 = wd_delivered w" "wd_awaited w1 = wd_awaited w"
    using m by (simp add: with_lock_def)
  consider (queued) c b where "r = Inr (SubmitQueued c b)" | (same) "s1 = wd_sched w" "\<nexists>c b. r = Inr (SubmitQueued c b)"
    using res(2) by (auto split: sum.splits submission_decision.splits)
  then show ?thesis
  proof cases
    case queued
    from res(2) queued have o: "open_completions s1 = open_completions (wd_sched w) @ [c]"
      and c: "c = sc_next_completion (wd_sched w)" "sc_next_completion s1 = Suc c" by simp_all
    have "world_ok (w1\<lparr>wd_awaited := wd_awaited w1 @ [c]\<rparr>)"
      by (rule world_ok_handed_out [OF assms(1) _ c(1)]) (use res(1) s o c(2) fr in simp_all)
    then show ?thesis using queued by (simp add: submit_operation_inner_def l wake_if_ok)
  next
    case same
    have "world_ok w1" by (rule world_ok_congruent [OF assms(1)]) (use same s fr in simp_all)
    with same show ?thesis
      by (auto simp: submit_operation_inner_def l split: sum.split submission_decision.split)
  qed
qed

lemma cancel_ok:
  assumes "world_ok w"
  shows "world_ok (snd (world_cancel_execution h i w))"
proof -
  obtain d s1 where m: "cancel_execution i (wd_sched w) = (d, s1)" by fastforce
  obtain w1 where l: "with_lock (cancel_execution i) w = (d, w1)" and s: "wd_sched w1 = s1"
      "wd_delivered w1 = wd_delivered w" "wd_awaited w1 = wd_awaited w"
    using m by (simp add: with_lock_def)
  have ok: "sched_ok s1" and a: "answers (wd_sched w) (cancel_answered d) s1"
    using assms sched_ok_methods(5) [of "wd_sched w" i] cancel_execution_answers [of "wd_sched w" i] m
    by (simp_all add: world_ok_def)
  show ?thesis
  proof (cases d)
    case (CancelActive out)
    with a ok s show ?thesis
      by (intro locked_ok [OF assms, of "[]" "cancel_execution i"])
        (simp_all add: world_cancel_execution_def l m cancel_answered_def)
  next
    case (CancelResult r)
    with a ok s show ?thesis
      by (intro locked_ok [OF assms, of "[]" "cancel_execution i"])
        (simp_all add: world_cancel_execution_def l m cancel_answered_def)
  next
    case (CancelPending out c b)
    with a ok s have "world_ok (send c (Inr (OutcomeExec OutCancelled)) (on_channel sink_request_cancel (Some out) w1))"
      by (intro locked_ok [OF assms, of "[c]" "cancel_execution i"]) (simp_all add: m cancel_answered_def)
    then show ?thesis using CancelPending by (simp add: world_cancel_execution_def l notify_ok wake_if_ok)
  qed
qed

lemma start_ok: "world_ok w \<Longrightarrow> world_ok (world_start w)"
  by (auto simp: world_ok_def world_start_def sched_start_def sched_ok_def tickets_def jobs_of_def active_jobs_def
      waits_ok_def jobs_ok_def quarantine_ok_def open_completions_def)

lemma world_stop_ok:
  assumes "world_ok w"
  shows "world_ok (world_stop w)"
proof -
  obtain o1 ks s1 where m: "sched_stop (wd_sched w) = ((o1, ks), s1)" by (metis prod.exhaust)
  have "sched_ok s1" "answers (wd_sched w) (map fst ks) s1"
    using assms sched_ok_methods(3) [of "wd_sched w"] stop_answers [of "wd_sched w"] m by (simp_all add: world_ok_def)
  then show ?thesis
    by (intro locked_ok [OF assms, of "map fst ks" sched_stop]) (simp_all add: m world_stop_def with_lock_def)
qed

lemma take_ok:
  assumes "world_ok w"
  shows "world_ok (snd (world_take_native_action h w))"
proof -
  let ?f = "take_native_action (disk h w) (clock h w)"
  obtain d s1 where m: "?f (wd_sched w) = (d, s1)" by fastforce
  have "sched_ok s1" "answers (wd_sched w) (take_answered d) s1"
    using assms sched_ok_methods(4) [of "wd_sched w" "disk h w" "clock h w"]
      take_native_action_answers [of "wd_sched w" "disk h w" "clock h w"] m by (simp_all add: world_ok_def)
  then show ?thesis
    by (intro locked_ok [OF assms, of "take_answered d" ?f])
      (auto simp: m world_take_native_action_def with_lock_def take_answered_def split: take_decision.split)
qed

lemma complete_quarantine_ok:
  assumes "world_ok w"
  shows "world_ok (complete_native_action_with_quarantine h i r q w)"
proof -
  let ?f = "complete_native_action i (bound_action_result r) q (clock h w)"
  obtain a ks b s1 where m: "?f (wd_sched w) = ((a, ks, b), s1)" by (metis prod.exhaust)
  have "sched_ok s1" using complete_native_action_sched_ok [OF _ m] assms by (simp add: world_ok_def)
  with complete_native_action_answers [OF m] show ?thesis
    by (intro locked_ok [OF assms, of "opt_answered a @ map fst ks" ?f])
      (simp_all add: m complete_native_action_with_quarantine_def with_lock_def Let_def)
qed

lemma plain_lock_ok:
  assumes "world_ok w" and "answers (wd_sched w) [] (snd (f (wd_sched w)))" and "sched_ok (snd (f (wd_sched w)))"
  shows "world_ok (snd (with_lock f w))"
  by (rule locked_ok [where f = f and cs = "[]", OF assms]) simp_all

lemma capture_ok:
  assumes "world_ok w"
  shows "world_ok (complete_native_capture h i c pixels w)"
proof -
  have l: "world_ok (snd (with_lock (sched_record_capture i r pixels) w))" for r
    using plain_lock_ok [of w "sched_record_capture i r pixels"] assms
    by (simp add: steps_answer(6) world_ok_def sched_ok_steps(6))
  obtain r act where eq: "complete_native_capture h i c pixels w =
      (if cr_kind r = CrSuccess then
           (case with_lock (sched_record_capture i r pixels) w of
              (Some (Inl e), w1) \<Rightarrow>
                world_complete_native_action h i
                  (act\<lparr>ar_kind := ArCaptureInvalid, ar_native_detail := sched_error_display e\<rparr>) w1
            | (_, w1) \<Rightarrow> world_complete_native_action h i act w1)
         else world_complete_native_action h i act w)"
    unfolding complete_native_capture_def Let_def by blast
  have fin: "world_ok v \<Longrightarrow> world_ok (world_complete_native_action h i x v)" for v x
    unfolding world_complete_native_action_def by (rule complete_quarantine_ok)
  obtain x w1 where x: "with_lock (sched_record_capture i r pixels) w = (x, w1)" by fastforce
  with l [of r] have "world_ok w1" by simp
  then show ?thesis unfolding eq x by (auto intro: fin assms split: option.split sum.split)
qed

lemma timers_ok:
  assumes "world_ok w"
  shows "world_ok (world_process_due_timers h now w)"
proof -
  obtain es b s1 where m: "process_due_timers now (wd_sched w) = (es, b, s1)" by (metis prod.exhaust)
  have "sched_ok s1" "answers (wd_sched w) (map fst es) s1"
    using assms sched_ok_methods(1) [of "wd_sched w" now] process_due_timers_answers [of "wd_sched w" now] m
    by (simp_all add: world_ok_def)
  then have "world_ok (fold finish_completion es (w\<lparr>wd_sched := s1, wd_ticks := Suc (wd_ticks w)\<rparr>))"
    by (intro world_ok_settles [OF assms settlesI [of _ "map fst es"]]) simp_all
  then show ?thesis by (simp add: world_process_due_timers_def with_lock_def m wake_if_ok)
qed

lemma ready_ok:
  assumes "world_ok w"
  shows "world_ok (world_native_state_may_be_ready h w)"
proof -
  have "world_ok (snd (with_lock native_state_may_be_ready w))"
    using plain_lock_ok [of w native_state_may_be_ready] assms
    by (simp add: native_state_may_be_ready_answers world_ok_def sched_ok_methods)
  then show ?thesis
    by (simp add: world_native_state_may_be_ready_def split_beta notify_ok wake_if_ok)
qed

lemma active_steps_ok:
  assumes "world_ok w"
  shows "world_ok (snd (world_take_execution_step h i w))" "world_ok (snd (world_complete_execution_step i r w))"
    "world_ok (snd (world_abandon_execution i r w))" "world_ok (snd (begin_eval_output i t d w))"
    "world_ok (snd (begin_form_output i t d w))" "world_ok (snd (try_claim_native_action_wake w))"
proof -
  have ok: "sched_ok (wd_sched w)" using assms by (simp add: world_ok_def)
  note l = plain_lock_ok [OF assms]
  show "world_ok (snd (world_take_execution_step h i w))"
    unfolding world_take_execution_step_def by (rule l) (simp_all add: steps_answer(1) sched_ok_steps(1) ok)
  show "world_ok (snd (world_complete_execution_step i r w))"
    unfolding world_complete_execution_step_def by (rule l) (simp_all add: steps_answer(4) sched_ok_steps(4) ok)
  show "world_ok (snd (world_abandon_execution i r w))"
    unfolding world_abandon_execution_def by (rule l) (simp_all add: steps_answer(5) sched_ok_steps(5) ok)
  show "world_ok (snd (begin_eval_output i t d w))"
    unfolding begin_eval_output_def by (rule l) (simp_all add: steps_answer(2) sched_ok_steps(2) ok)
  show "world_ok (snd (begin_form_output i t d w))"
    unfolding begin_form_output_def by (rule l) (simp_all add: steps_answer(3) sched_ok_steps(3) ok)
  show "world_ok (snd (try_claim_native_action_wake w))"
    unfolding try_claim_native_action_wake_def
    by (rule l) (simp_all add: answers_request_wake answers_same sched_ok_methods(7) ok)
qed

lemma release_ok:
  assumes "world_ok w"
  shows "world_ok (release_active_lease g k f w)"
proof (cases "sc_active (wd_sched w)")
  case None
  with assms show ?thesis by (simp add: release_active_lease_def)
next
  case (Some j)
  let ?s = "wd_sched w"
  let ?f = "map_execution (\<lambda>e. ((), e\<lparr>ex_bridge := release_value_output g k f (ex_bridge e)\<rparr>))"
  let ?s1 = "snd (on_active_operation ?f j ?s)"
  have ok: "sched_ok ?s" using assms by (simp add: world_ok_def)
  have aw: "active_with (jb_job_id j) ?s = Some j" using Some by (simp add: active_with_Some)
  have ans: "answers ?s [] ?s1"
    by (rule on_active_operation_answers [OF aw _ refl]) (simp add: map_execution_identity bridge_update_same_input)
  have "waits_ok ?s1" using on_active_operation_waits [OF _ aw refl] ok by (simp add: sched_ok_def)
  moreover have "jobs_ok reachable ?s1"
  proof (rule runs.on_active_operation_ok [OF _ aw])
    show "jobs_ok reachable ?s" using ok by (simp add: sched_ok_def)
    have "reachable (e\<lparr>ex_bridge := release_value_output g k f (ex_bridge e)\<rparr>)" if "reachable e" for e
      using that er_release unfolding reachable_def by blast
    then show "op_ok reachable (snd (?f p))" if "op_ok reachable p" for p
      using that by (intro runs.map_execution_ok) simp_all
  qed
  moreover have "quarantine_kept ?s ?s1" by (intro kept_same) (simp_all add: sched_simps)
  ultimately have "sched_ok ?s1" by (rule sched_ok_answers [OF ok ans])
  then show ?thesis
    by (intro world_ok_settles [OF assms settlesI [of _ "[]"]]) (use ans Some in \<open>simp_all add: release_active_lease_def\<close>)
qed

lemma snapshot_ok:
  assumes "world_ok w" and "publish_snapshot gen n nds w = Some (n1, w1)"
  shows "world_ok w1"
  using assms
  by (auto simp: publish_snapshot_def replace_drawing_snapshot_def world_ok_def sched_ok_def tickets_def jobs_of_def
      active_jobs_def waits_ok_def jobs_ok_def quarantine_ok_def open_completions_def split: option.splits)

lemma new_world_ok: "world_ok (new_world channels)"
  by (simp add: world_ok_def new_world_def new_scheduler_def sched_ok_def tickets_ok_def tickets_def jobs_of_def
      active_jobs_def source_sizes_def map_filter_simps waits_ok_def jobs_ok_def quarantine_ok_def open_completions_def)

lemma world_step_ok: "world_step h w w1 \<Longrightarrow> world_ok w \<Longrightarrow> world_ok w1"
proof (induction rule: world_step.induct)
  case (ws_admit mode name bytes e ch w out i force reservation)
  have "world_ok (w\<lparr>wd_channels := (wd_channels w)(out := ch)\<rparr>)"
    by (rule world_ok_congruent [OF ws_admit(3)]) simp_all
  moreover have "reachable e" using ws_admit(1) er_new unfolding reachable_def by blast
  ultimately show ?case by (rule admit_ok)
qed (simp_all add: submit_ok cancel_ok start_ok world_stop_ok take_ok world_complete_native_action_def
    complete_quarantine_ok capture_ok complete_execution_native_action_def Let_def world_wake_failed_ok timers_ok ready_ok
    active_steps_ok release_ok on_channel_ok snapshot_ok)

lemma world_reach_ok: "world_reach h w \<Longrightarrow> world_ok w"
  by (induction rule: world_reach.induct) (auto intro: new_world_ok world_step_ok)

end
