(* ===== verification/Sched_Properties.thy ===== *)
theory Sched_Properties
  imports Sched_Reach Exec_Properties
begin

text \<open>
  What holds of every run of the scheduler: answers, capacity, order of dispatch, quarantine, timers,
  deferral, stopping, and that what is answered for an execution is true of it.
\<close>

section \<open>A sample run\<close>

definition sample_fs :: file_system where
  "sample_fs = \<lparr>fs_is_file = (\<lambda>_. True), fs_canonicalize = Inr, fs_symlink_metadata = (\<lambda>_. Inl IoNotFound)\<rparr>"

definition sample_host :: host where
  "sample_host = \<lparr>hs_now = (\<lambda>n. secs n), hs_fs = (\<lambda>_. sample_fs), hs_wake_status = (\<lambda>_. 0)\<rparr>"

definition sample_open :: operation where
  "sample_open = OpOpen (DrawingPath (lit ''/a.dwg''))"

text \<open>Two drawings to open are submitted, and the host takes the first.\<close>

definition sample_queued :: world where
  "sample_queued = snd (submit_operation_inner sample_host sample_open False
     (snd (submit_operation_inner sample_host sample_open False (new_world (\<lambda>_. new_channel)))))"

definition sample_taken :: world where
  "sample_taken = snd (world_take_native_action sample_host sample_queued)"

lemma sample_queued_reach: "world_reach sample_host sample_queued"
  unfolding sample_queued_def sample_open_def
  by (intro wr_step [OF _ ws_submit] wr_new) (simp_all add: op_is_execution_def op_execution_def)

lemma sample_taken_reach: "world_reach sample_host sample_taken"
  unfolding sample_taken_def by (rule wr_step [OF sample_queued_reach ws_take])

section \<open>Answers\<close>

lemma delivered_grow [simp]:
  "\<exists>xs. wd_delivered (finish_completion a w) = wd_delivered w @ xs"
  "\<exists>xs. wd_delivered (finish_optional b w) = wd_delivered w @ xs"
  "\<exists>xs. wd_delivered (stop_completion e k w) = wd_delivered w @ xs"
  by (auto simp: finish_optional_def finish_completion_def stop_completion_def split: option.split prod.split)

lemma wake_failed_quarantine_kept:
  "sc_quarantined (wd_sched (wake_failed h w)) = sc_quarantined (wd_sched w)"
proof (induction h w rule: wake_failed.induct)
  case (1 h w)
  obtain b w1 where g: "give_up_wake h w = (b, w1)" by fastforce
  obtain status w2 where n: "wake_native_actions h w1 = (status, w2)" by fastforce
  have "sc_quarantined (wd_sched w1) = sc_quarantined (wd_sched w)"
    using methods_kept(6) [of "wd_sched w" "clock h w"] g
    by (auto simp: give_up_wake_def split_beta quarantine_kept_def)
  moreover have "wd_sched w2 = wd_sched w1" using wake_native_frame(1) [of h w1] n by simp
  ultimately show ?case
    using 1 [OF g [symmetric] _ n [symmetric]] g n by (subst wake_failed.simps) auto
qed

lemma wake_if_quarantine_kept:
  "sc_quarantined (wd_sched (wake_if h b w)) = sc_quarantined (wd_sched w)"
  by (simp add: wake_if_def schedule_native_actions_def split_beta wake_failed_quarantine_kept wake_native_frame)

text \<open>C28. Every receiver a client was given is either still open or has been answered, never both, and no
  receiver is answered twice; nothing else is answered.\<close>

theorem job_answered_once:
  assumes "world_reach h w"
  shows "distinct (wd_awaited w) \<and> distinct (map fst (wd_delivered w)) \<and> distinct (open_completions (wd_sched w))
    \<and> set (open_completions (wd_sched w)) \<inter> fst ` set (wd_delivered w) = {}
    \<and> set (wd_awaited w) = set (open_completions (wd_sched w)) \<union> fst ` set (wd_delivered w)"
proof -
  have m: "mset (wd_awaited w) = mset (open_completions (wd_sched w) @ map fst (wd_delivered w))"
    and d: "distinct (wd_awaited w)"
    using world_reach_ok [OF assms] by (auto simp: world_ok_def strict_sorted_iff)
  from d mset_eq_imp_distinct_iff [OF m]
  have "distinct (open_completions (wd_sched w) @ map fst (wd_delivered w))" by simp
  with d mset_eq_setD [OF m] show ?thesis by (simp del: mset_append mset_map)
qed

theorem job_answered_once_witness:
  "set (wd_awaited sample_taken) = set (open_completions (wd_sched sample_taken)) \<union> fst ` set (wd_delivered sample_taken)"
  using job_answered_once [OF sample_taken_reach] by blast

text \<open>C36. The scheduler never holds more than 32 jobs, nor more than 8 executions, nor executions of more than
  32 MiB of source together, the active one included.\<close>

theorem sched_capacity:
  assumes "world_reach h w"
  shows "mutation_job_count (wd_sched w) \<le> 32 \<and> fst (execution_usage (wd_sched w)) \<le> 8
    \<and> snd (execution_usage (wd_sched w)) \<le> 32 * 1024 * 1024"
  using world_reach_ok [OF assms]
  by (simp add: world_ok_def sched_ok_def tickets_ok_def mutation_job_count_eq execution_usage_eq
      MAX_MUTATION_JOBS_def MAX_ADMITTED_EXECUTIONS_def MAX_ADMITTED_SOURCE_BYTES_def)

theorem sched_capacity_witness: "mutation_job_count (wd_sched sample_taken) \<le> 32"
  using sched_capacity [OF sample_taken_reach] by blast

section \<open>Order\<close>

lemma take_issued:
  assumes "take_native_action fs now s = (TakeAction (ActionIssued i command), s1)"
  shows "\<exists>j rest. sc_active s = None \<and> sc_pending s = j # rest \<and> jb_job_id j = i \<and> \<not> sc_stopping s
    \<and> \<not> sc_quarantined s \<and> now < wait_deadline (jb_wait j) \<and> sc_pending s1 = rest
    \<and> sc_active s1 = Some (begin_readiness now j\<lparr>jb_native_target := command_target command\<rparr>)
    \<and> prepare fs (sc_drawings s) (jb_operation j) = Native command"
  using assms
  by (auto simp: take_native_action_def Let_def begin_readiness_def wait_is_due_def not_le
      split: if_splits list.splits prepared.splits)

lemma take_action_issued: "fst (take_native_action fs now s) \<noteq> TakeAction ActionIdle"
  by (auto simp: take_native_action_def Let_def split: list.split prepared.split)

lemma world_take_issued:
  assumes "world_take_native_action h w = (ActionIssued i command, w1)"
  shows "take_native_action (disk h w) (clock h w) (wd_sched w) = (TakeAction (ActionIssued i command), wd_sched w1)"
  using assms by (auto simp: world_take_native_action_def with_lock_def split: prod.splits take_decision.splits)

text \<open>C34. What the host is given is the oldest of the open jobs, while no other is active; the job is then the
  active one, with the command's document as its target.\<close>

theorem dispatch_in_order:
  assumes "world_reach h w" and "world_take_native_action h w = (ActionIssued i command, w1)"
  shows "sc_active (wd_sched w) = None
    \<and> (\<exists>j. sc_active (wd_sched w1) = Some j \<and> jb_job_id j = i \<and> jb_native_target j = command_target command
        \<and> jb_completion j \<in> set (open_completions (wd_sched w))
        \<and> (\<forall>c\<in>set (open_completions (wd_sched w)). jb_completion j \<le> c))"
proof -
  from take_issued [OF world_take_issued [OF assms(2)]] obtain j rest where
    j: "sc_active (wd_sched w) = None" "sc_pending (wd_sched w) = j # rest" "jb_job_id j = i"
      "sc_active (wd_sched w1) = Some (begin_readiness (clock h w) j\<lparr>jb_native_target := command_target command\<rparr>)"
    by blast
  have "sorted_wrt (<) (open_completions (wd_sched w))"
    using world_reach_ok [OF assms(1)]
    by (simp add: world_ok_def sched_ok_def tickets_ok_def open_completions_eq)
  with j show ?thesis by (auto simp: open_completions_def sched_simps begin_readiness_def order_less_imp_le)
qed

theorem dispatch_in_order_witness:
  "sc_active (wd_sched sample_queued) = None \<and> sc_active (wd_sched sample_taken) \<noteq> None"
proof -
  have "fst (world_take_native_action sample_host sample_queued) = ActionIssued 1 (CmdOpen (DrawingPath (lit ''/a.dwg'')))"
    by code_simp
  then have "world_take_native_action sample_host sample_queued
      = (ActionIssued 1 (CmdOpen (DrawingPath (lit ''/a.dwg''))), sample_taken)"
    unfolding sample_taken_def by (metis prod.collapse)
  from dispatch_in_order [OF sample_queued_reach this] show ?thesis by auto
qed

section \<open>Quarantine\<close>

lemma complete_quarantined:
  assumes "sc_active s = None"
  shows "complete_native_action i r q now s = ((None, [], False), s)"
  using assms by (simp add: complete_native_action_def)

lemma world_complete_quarantined:
  assumes "sc_active (wd_sched w) = None"
  shows "wd_sched (complete_native_action_with_quarantine h i r q w) = wd_sched w"
  by (simp add: complete_native_action_with_quarantine_def with_lock_def complete_quarantined [OF assms]
      finish_optional_def)

lemma inactive_steps:
  assumes "sc_active s = None"
  shows "snd (sched_record_capture i c pixels s) = s"
  using assms by (simp add: sched_record_capture_def active_with_def)

lemma capture_quarantined:
  assumes "sc_active (wd_sched w) = None"
  shows "wd_sched (complete_native_capture h i c pixels w) = wd_sched w"
proof -
  obtain r act where eq: "complete_native_capture h i c pixels w =
      (if cr_kind r = CrSuccess then
           (case with_lock (sched_record_capture i r pixels) w of
              (Some (Inl e), w1) \<Rightarrow>
                world_complete_native_action h i
                  (act\<lparr>ar_kind := ArCaptureInvalid, ar_native_detail := sched_error_display e\<rparr>) w1
            | (_, w1) \<Rightarrow> world_complete_native_action h i act w1)
         else world_complete_native_action h i act w)"
    unfolding complete_native_capture_def Let_def by blast
  obtain x w1 where x: "with_lock (sched_record_capture i r pixels) w = (x, w1)" by fastforce
  then have "wd_sched w1 = wd_sched w"
    using with_lock_frame(2) [of "sched_record_capture i r pixels" w] inactive_steps [OF assms] by simp
  then show ?thesis
    unfolding eq x using assms
    by (simp add: world_complete_native_action_def world_complete_quarantined split: option.split sum.split)
qed

lemma quarantine_step:
  assumes "world_step h w w1" and "world_ok w" and "sc_quarantined (wd_sched w)"
  shows "sc_quarantined (wd_sched w1)"
proof -
  let ?q = "sc_quarantined (wd_sched w)"
  have n: "sc_active (wd_sched w) = None"
    using assms(2,3) by (auto simp: world_ok_def sched_ok_def quarantine_ok_def jobs_of_def active_jobs_def
        split: option.splits)
  have lock: "sc_quarantined (wd_sched (snd (with_lock f w)))" if "quarantine_kept (wd_sched w) (snd (f (wd_sched w)))"
    for f using that assms(3) by (simp add: quarantine_kept_def)
  note kept = steps_kept methods_kept
  from assms(1) show ?thesis
  proof cases
    case (ws_admit mode name bytes e ch out i force reservation)
    have "admit_execution fs i e out c reservation now (wd_sched w)
        = (if sc_stopping (wd_sched w) then (Inl PluginStopping, wd_sched w)
           else (Inl NativeMutationStateUnknown, wd_sched w))" for fs i e out c reservation now
      using assms(3) by (simp add: admit_execution_def)
    with ws_admit(1) assms(3) show ?thesis
      by (simp add: world_admit_execution_def with_lock_def clock_def disk_def split_beta)
  next
    case (ws_submit p reserved)
    have "submit_operation fs p reserved now (wd_sched w)
        = (if sc_stopping (wd_sched w) then (Inl PluginStopping, wd_sched w)
           else (Inl NativeMutationStateUnknown, wd_sched w))" for fs now
      using assms(3) by (simp add: submit_operation_def)
    with ws_submit(1) assms(3) show ?thesis
      by (simp add: submit_operation_inner_def with_lock_def split_beta)
  next
    case (ws_cancel i)
    with lock [of "cancel_execution i"] kept show ?thesis
      by (auto simp: world_cancel_execution_def split_beta wake_if_quarantine_kept split: cancel_decision.splits)
  next
    case ws_start
    with assms(3) show ?thesis by (simp add: world_start_def sched_start_def)
  next
    case ws_stop
    with lock [of sched_stop] kept show ?thesis by (simp add: world_stop_def split_beta)
  next
    case (ws_take)
    with lock [of "take_native_action (disk h w) (clock h w)"] kept show ?thesis
      by (auto simp: world_take_native_action_def split_beta split: take_decision.splits)
  next
    case (ws_complete i r)
    with assms(3) n show ?thesis by (simp add: world_complete_native_action_def world_complete_quarantined)
  next
    case (ws_capture i c pixels)
    with assms(3) n show ?thesis by (simp add: capture_quarantined)
  next
    case (ws_finalize i r ob)
    with assms(3) n show ?thesis by (simp add: complete_execution_native_action_def Let_def world_complete_quarantined)
  next
    case ws_claim
    with lock [of request_wake] show ?thesis by (simp add: try_claim_native_action_wake_def)
  next
    case ws_wake_failed
    with assms(3) show ?thesis by (simp add: wake_failed_quarantine_kept)
  next
    case (ws_timers now)
    with kept(7) [of "wd_sched w" now] assms(3) show ?thesis
      by (simp add: world_process_due_timers_def with_lock_def split_beta wake_if_quarantine_kept quarantine_kept_def)
  next
    case ws_ready
    with lock [of native_state_may_be_ready] kept show ?thesis
      by (simp add: world_native_state_may_be_ready_def split_beta wake_if_quarantine_kept)
  next
    case (ws_release g k f)
    with n assms(3) show ?thesis by (simp add: release_active_lease_def)
  next
    case (ws_snapshot gen k nds n1)
    with assms(3) show ?thesis
      by (auto simp: publish_snapshot_def replace_drawing_snapshot_def split: option.splits)
  next
    case (ws_step i)
    show ?thesis unfolding ws_step world_take_execution_step_def by (rule lock) (rule steps_kept(1))
  next
    case (ws_complete_step i r)
    show ?thesis unfolding ws_complete_step world_complete_execution_step_def by (rule lock) (rule steps_kept(4))
  next
    case (ws_abandon i r)
    show ?thesis unfolding ws_abandon world_abandon_execution_def by (rule lock) (rule steps_kept(5))
  next
    case (ws_eval_output i t d)
    show ?thesis unfolding ws_eval_output begin_eval_output_def by (rule lock) (rule steps_kept(2))
  next
    case (ws_form_output i t d)
    show ?thesis unfolding ws_form_output begin_form_output_def by (rule lock) (rule steps_kept(3))
  next
    case (ws_channel op out)
    with assms(3) show ?thesis by simp
  qed
qed

text \<open>C35. Once the state of the host is in doubt the scheduler is in quarantine for good: no step of any client,
  of the host or of a timer lifts it, it holds no job, it gives the host nothing to do and admits nothing.\<close>

theorem quarantine_final:
  assumes "world_reach h w" and "sc_quarantined (wd_sched w)" and "world_step h w w1"
  shows "sc_quarantined (wd_sched w1) \<and> open_completions (wd_sched w1) = []
    \<and> fst (world_take_native_action h w1) = ActionIdle
    \<and> fst (submit_operation_inner h p reserved w1) \<in> {SubmissionDone (Inl PluginStopping),
        SubmissionDone (Inl NativeMutationStateUnknown)}
    \<and> fst (world_admit_execution h i e out force reservation w1) \<in> {Inl PluginStopping, Inl NativeMutationStateUnknown}"
proof (intro conjI)
  have ok: "world_ok w1" using assms(1,3) world_reach_ok wr_step by blast
  show q: "sc_quarantined (wd_sched w1)" by (rule quarantine_step [OF assms(3) world_reach_ok [OF assms(1)] assms(2)])
  with ok show "open_completions (wd_sched w1) = []"
    by (simp add: world_ok_def sched_ok_def quarantine_ok_def open_completions_def)
  from q show "fst (world_take_native_action h w1) = ActionIdle"
    by (simp add: world_take_native_action_def take_native_action_def with_lock_def Let_def split_beta)
  from q show "fst (submit_operation_inner h p reserved w1) \<in> {SubmissionDone (Inl PluginStopping),
        SubmissionDone (Inl NativeMutationStateUnknown)}"
    by (simp add: submit_operation_inner_def submit_operation_def with_lock_def split_beta)
  from q show "fst (world_admit_execution h i e out force reservation w1) \<in> {Inl PluginStopping, Inl NativeMutationStateUnknown}"
    by (simp add: world_admit_execution_def admit_execution_def with_lock_def split_beta)
qed

definition sample_quarantined :: world where
  "sample_quarantined = world_complete_native_action sample_host 1
     \<lparr>ar_kind = ArDocumentContextRestoreFailed, ar_native_status = 0, ar_native_detail = []\<rparr> sample_taken"

theorem quarantine_final_witness:
  "sc_quarantined (wd_sched (world_start sample_quarantined))
   \<and> fst (world_take_native_action sample_host (world_start sample_quarantined)) = ActionIdle"
proof -
  have r: "world_reach sample_host sample_quarantined"
    unfolding sample_quarantined_def by (rule wr_step [OF sample_taken_reach ws_complete])
  have "sc_quarantined (wd_sched sample_quarantined)" by code_simp
  from quarantine_final [OF r this ws_start] show ?thesis by blast
qed

section \<open>Timers\<close>

text \<open>An execution that waits for the host and whose time is up is expired by the check.\<close>

lemma expire_before_start_ends_wait:
  assumes "reachable e"
  shows "\<not> readiness_wait_pending (snd (expire_before_start m e))"
proof -
  from reachable_inv [OF assms] obtain n k log where inv: "exec_inv n k e log" by blast
  then show ?thesis
    by (cases "ex_phase e")
      (auto simp: readiness_wait_pending_def expire_before_start_def exec_inv_def phase_ok_def over_def Let_def)
qed

lemma expire_active_ends_wait:
  assumes "op_ok reachable (jb_operation j)" and "wait_is_due now j"
  shows "\<not> op_readiness_wait_pending (jb_operation (snd (expire_active_execution_if_due now j)))"
  using assms expire_before_start_ends_wait
  by (cases "jb_operation j")
    (auto simp: expire_active_execution_if_due_def op_expire_before_start_def map_execution_def split_beta
      op_readiness_wait_pending_def op_execution_def)

lemma expire_active_deadline:
  assumes "op_ok reachable (jb_operation j)"
    and "op_readiness_wait_pending (jb_operation (snd (expire_active_execution_if_due now j)))"
  shows "now < wait_deadline (jb_wait j)"
  by (rule ccontr) (use expire_active_ends_wait [OF assms(1), of now] assms(2) in \<open>simp add: wait_is_due_def\<close>)

lemma expire_pending_exact:
  "expire_pending now drawings js
     = (map (timed_out_answer drawings None) (filter (wait_is_due now) js), filter (\<lambda>j. \<not> wait_is_due now j) js)"
  by (induction js) simp_all

lemma retry_head_retry_at:
  assumes "retry_head now js = j # rest" and "wait_retry_at (jb_wait j) = Some t"
  shows "now < t"
  using assms
  by (cases js) (auto simp: retry_head_def retry_is_due_def retry_now_def wait_retry_at_def wait_retry_now_def
      split: if_splits wait_state.splits)

lemma process_due_timers_parts:
  assumes "process_due_timers now s = (es, b, s1)"
  shows "es = map (timed_out_answer (sc_drawings s) None) (filter (wait_is_due now) (sc_pending s))"
    "sc_active s1 = map_option (\<lambda>j. snd (expire_active_execution_if_due now j)) (sc_active s)"
    "sc_pending s1 = retry_head now (filter (\<lambda>j. \<not> wait_is_due now j) (sc_pending s))"
proof -
  have "es = fst (process_due_timers now s)" "s1 = snd (snd (process_due_timers now s))" using assms by simp_all
  then show "es = map (timed_out_answer (sc_drawings s) None) (filter (wait_is_due now) (sc_pending s))"
    "sc_active s1 = map_option (\<lambda>j. snd (expire_active_execution_if_due now j)) (sc_active s)"
    "sc_pending s1 = retry_head now (filter (\<lambda>j. \<not> wait_is_due now j) (sc_pending s))"
    by (simp_all add: process_due_timers_def expire_pending_exact split_beta sched_simps)
qed

lemma process_due_timers_next:
  assumes "sched_ok s" and "process_due_timers now s = (es, b, s1)" and "next_timer_deadline s1 = Some t"
  shows "now < t"
proof -
  let ?js = "filter (\<lambda>j. \<not> wait_is_due now j) (sc_pending s)"
  note act = process_due_timers_parts(2) [OF assms(2)] and pend = process_due_timers_parts(3) [OF assms(2)]
  from list_min_Some_mem [OF assms(3) [unfolded next_timer_deadline_def]]
  consider (active) j where "j \<in> set (active_jobs s1)" "op_readiness_wait_pending (jb_operation j)" "t = wait_deadline (jb_wait j)"
    | (pending) j where "j \<in> set (sc_pending s1)" "t = wait_deadline (jb_wait j)"
    | (retry) j rest where "sc_pending s1 = j # rest" "wait_retry_at (jb_wait j) = Some t"
    by (auto split: list.splits option.splits) metis
  then show ?thesis
  proof cases
    case active
    obtain j0 where j0: "sc_active s = Some j0" "j = snd (expire_active_execution_if_due now j0)"
      using active(1) act by (cases "sc_active s") (simp_all add: active_jobs_def)
    with assms(1) have "op_ok reachable (jb_operation j0)" by (simp add: sched_ok_def jobs_ok_iff)
    with active j0 show ?thesis using expire_active_deadline by (simp add: expire_active_frame)
  next
    case pending
    have m: "map (\<lambda>j. wait_deadline (jb_wait j)) (sc_pending s1) = map (\<lambda>j. wait_deadline (jb_wait j)) ?js"
      unfolding pend by (rule retry_head_frame(3))
    from pending have "t \<in> set (map (\<lambda>j. wait_deadline (jb_wait j)) (sc_pending s1))" by simp
    then have "t \<in> set (map (\<lambda>j. wait_deadline (jb_wait j)) ?js)" unfolding m .
    then show ?thesis by (auto simp: wait_is_due_def)
  next
    case retry
    show ?thesis by (rule retry_head_retry_at [OF trans [OF pend [symmetric] retry(1)] retry(2)])
  qed
qed

text \<open>C37. Timers make progress: a check at \<open>now\<close> answers exactly the waiting jobs whose deadline has passed, in
  order, each with a time-out, keeps the others in order, and the next timer is strictly later than
  \<open>now\<close>, so the timer task never spins.\<close>

theorem timers_progress:
  assumes "world_reach h w" and "process_due_timers now (wd_sched w) = (es, b, s1)"
  shows "map fst es = map jb_completion (filter (wait_is_due now) (sc_pending (wd_sched w)))
    \<and> map jb_completion (sc_pending s1) = map jb_completion (filter (\<lambda>j. \<not> wait_is_due now j) (sc_pending (wd_sched w)))
    \<and> (case next_timer_deadline s1 of Some t \<Rightarrow> now < t | None \<Rightarrow> sc_pending s1 = [])"
proof (intro conjI)
  note parts = process_due_timers_parts [OF assms(2)]
  show "map fst es = map jb_completion (filter (wait_is_due now) (sc_pending (wd_sched w)))"
    unfolding parts(1) by (simp add: timed_out_answer_def)
  show "map jb_completion (sc_pending s1) = map jb_completion (filter (\<lambda>j. \<not> wait_is_due now j) (sc_pending (wd_sched w)))"
    unfolding parts(3) by (rule retry_head_frame(2))
  have "sched_ok (wd_sched w)" using world_reach_ok [OF assms(1)] by (simp add: world_ok_def)
  from process_due_timers_next [OF this assms(2)]
  show "case next_timer_deadline s1 of Some t \<Rightarrow> now < t | None \<Rightarrow> sc_pending s1 = []"
    by (auto simp: next_timer_deadline_def split: option.splits)
qed

theorem timers_progress_witness:
  "map fst (fst (process_due_timers (secs 61) (wd_sched sample_taken))) = [1]"
proof -
  obtain es b s1 where p: "process_due_timers (secs 61) (wd_sched sample_taken) = (es, b, s1)" by (metis prod.exhaust)
  have "map jb_completion (filter (wait_is_due (secs 61)) (sc_pending (wd_sched sample_taken))) = [1]" by code_simp
  with timers_progress [OF sample_taken_reach p] p show ?thesis by simp
qed

section \<open>A host that is not ready\<close>

lemma active_wait_ready:
  assumes "sched_ok s" and "sc_active s = Some j"
  shows "\<exists>d r. jb_wait j = WaitReady d r \<and> retry_delay_ok r"
proof -
  have "wait_ok (jb_wait j)" "\<not> is_queued (jb_wait j)" "\<not> is_deferred j"
    using assms by (simp_all add: sched_ok_def waits_ok_def sched_simps)
  then show ?thesis by (cases "jb_wait j") (auto simp: is_queued_def is_deferred_def)
qed

lemma not_quiescent_defers:
  assumes "sched_ok s" and "sc_active s = Some j" and "jb_job_id j = i" and "ar_kind r = ArNotQuiescent"
    and "op_can_wait_for_readiness (jb_operation j)" and "\<not> op_execution_has_outcome (jb_operation j)"
    and "\<not> fst (op_finish_cancel_before_start (jb_operation j))" and "now < wait_deadline (jb_wait j)"
    and "complete_native_action i r q now s = ((a, rejected, notify), s1)"
  shows "\<exists>delay j1. 50 * 1000000 \<le> delay \<and> delay \<le> 500 * 1000000 \<and> a = None \<and> rejected = [] \<and> notify
    \<and> sc_active s1 = None \<and> sc_pending s1 = j1 # sc_pending s \<and> ticket j1 = ticket j
    \<and> jb_wait j = WaitReady (wait_deadline (jb_wait j)) delay
    \<and> jb_wait j1 = WaitDeferred (wait_deadline (jb_wait j)) (min (now + delay) (wait_deadline (jb_wait j)))
        (min (delay * 2) (500 * 1000000))"
proof -
  obtain d delay where w: "jb_wait j = WaitReady d delay" and ok: "retry_delay_ok delay"
    using active_wait_ready [OF assms(1,2)] by blast
  let ?p = "snd (op_finish_cancel_before_start (jb_operation j))"
  have p: "?p = jb_operation j"
    using assms(7) by (cases "jb_operation j")
      (auto simp: op_finish_cancel_before_start_def map_execution_def split_beta cancel_before_start_def split: if_splits)
  have "waited_outcome (sc_drawings s) r now j = (Inl (defer_for_readiness now (j\<lparr>jb_native_target := None\<rparr>)), j)"
    using assms(4-8) by (simp add: waited_outcome_def split_beta p wait_is_due_def)
  with assms(2,3,9) have "a = None" "rejected = []" "notify" "sc_active s1 = None"
    "sc_pending s1 = defer_for_readiness now (j\<lparr>jb_native_target := None\<rparr>) # sc_pending s"
    by (auto simp: complete_native_action_def)
  moreover have "min (min (delay * 2) DURATION_MAX) READINESS_RETRY_MAX = min (delay * 2) (500 * 1000000)"
    using ok duration_max by (simp add: retry_delay_ok_def retry_consts min_def)
  ultimately show ?thesis
    using w ok by (intro exI [of _ delay] exI [of _ "defer_for_readiness now (j\<lparr>jb_native_target := None\<rparr>)"])
      (simp add: sched_simps wait_deadline_def wait_defer_def retry_delay_ok_def retry_consts)
qed

text \<open>When the host answers that it is not quiescent, a job that may still wait is put back at the front
  under the same deadline and answered nothing.  It is retried after its delay (or at the deadline,
  if that is sooner); the delay is between 50 and 500 ms and doubles up to 500 ms.\<close>

lemma not_ready_defers:
  assumes "world_reach h w" and "sc_active (wd_sched w) = Some j" and "jb_job_id j = i" and "ar_kind r = ArNotQuiescent"
    and "op_can_wait_for_readiness (jb_operation j)" and "\<not> op_execution_has_outcome (jb_operation j)"
    and "\<not> fst (op_finish_cancel_before_start (jb_operation j))" and "now < wait_deadline (jb_wait j)"
    and "complete_native_action i r q now (wd_sched w) = ((a, rejected, notify), s1)"
  shows "\<exists>delay j1. 50 * 1000000 \<le> delay \<and> delay \<le> 500 * 1000000 \<and> a = None \<and> rejected = [] \<and> notify
    \<and> sc_active s1 = None \<and> sc_pending s1 = j1 # sc_pending (wd_sched w) \<and> ticket j1 = ticket j
    \<and> jb_wait j = WaitReady (wait_deadline (jb_wait j)) delay
    \<and> jb_wait j1 = WaitDeferred (wait_deadline (jb_wait j)) (min (now + delay) (wait_deadline (jb_wait j)))
        (min (delay * 2) (500 * 1000000))"
proof -
  have "sched_ok (wd_sched w)" using world_reach_ok [OF assms(1)] by (simp add: world_ok_def)
  from not_quiescent_defers [OF this assms(2-)] show ?thesis .
qed

definition sample_busy :: action_result where
  "sample_busy = \<lparr>ar_kind = ArNotQuiescent, ar_native_status = 0, ar_native_detail = []\<rparr>"

lemma not_ready_defers_witness:
  "\<exists>j1 rest. sc_pending (snd (complete_native_action 1 sample_busy False (secs 3) (wd_sched sample_taken))) = j1 # rest
     \<and> wait_deadline (jb_wait j1) = wait_deadline (jb_wait (the (sc_active (wd_sched sample_taken))))"
proof -
  let ?j = "the (sc_active (wd_sched sample_taken))"
  have "sc_active (wd_sched sample_taken) \<noteq> None" by code_simp
  then have a: "sc_active (wd_sched sample_taken) = Some ?j" by simp
  have j: "jb_job_id ?j = 1" "op_can_wait_for_readiness (jb_operation ?j)" "\<not> op_execution_has_outcome (jb_operation ?j)"
    "\<not> fst (op_finish_cancel_before_start (jb_operation ?j))" "secs 3 < wait_deadline (jb_wait ?j)"
    by code_simp+
  have k: "ar_kind sample_busy = ArNotQuiescent" by (simp add: sample_busy_def)
  obtain b ks nt s1 where c: "complete_native_action 1 sample_busy False (secs 3) (wd_sched sample_taken) = ((b, ks, nt), s1)"
    by (metis prod.exhaust)
  from not_ready_defers [OF sample_taken_reach a j(1) k j(2-5) c] show ?thesis
    unfolding c by (auto simp: wait_deadline_def)
qed

section \<open>Stopping\<close>

lemma stop_all_delivered:
  "wd_delivered (fold (stop_completion e) ks w) = wd_delivered w @ map (\<lambda>k. (fst k, Inl e)) ks"
  by (induction ks arbitrary: w) (simp_all add: stop_completion_def split_beta)

lemma sink_stop_stopped: "ch_terminal (fst (sink_stop ch)) \<in> {Some TStopped, Some TDisconnected}"
  by (simp add: sink_stop_def discard_output_def)

lemma stop_all_channels:
  "ch_terminal (wd_channels w out) \<in> {Some TStopped, Some TDisconnected} \<or> (\<exists>k\<in>set ks. snd k = Some out)
     \<Longrightarrow> ch_terminal (wd_channels (fold (stop_completion e) ks w) out) \<in> {Some TStopped, Some TDisconnected}"
proof (induction ks arbitrary: w)
  case (Cons k ks)
  obtain c o1 where k: "k = (c, o1)" by fastforce
  have "ch_terminal (wd_channels (stop_completion e k w) out) \<in> {Some TStopped, Some TDisconnected}
      \<or> (\<exists>k\<in>set ks. snd k = Some out)"
    using Cons.prems sink_stop_stopped
    by (auto simp: k stop_completion_def on_channel_def send_def split: option.splits)
  from Cons.IH [OF this] show ?case by simp
qed simp

text \<open>C38. Stopping the plugin answers every job that still waits, in order, that the plugin is stopping,
  stops the output of every execution among them, leaves the queue empty, and from then on nothing is admitted
  or given to the host until it is started again.\<close>

theorem stop_answers_all:
  assumes "world_reach h w"
  shows "wd_delivered (world_stop w) = wd_delivered w @ map (\<lambda>j. (jb_completion j, Inl PluginStopping)) (sc_pending (wd_sched w))
    \<and> sc_pending (wd_sched (world_stop w)) = []
    \<and> (\<forall>j out. j \<in> set (sc_pending (wd_sched w)) \<and> op_output_sink (jb_operation j) = Some out
         \<longrightarrow> ch_terminal (wd_channels (world_stop w) out) \<in> {Some TStopped, Some TDisconnected})
    \<and> fst (world_take_native_action h (world_stop w)) = ActionIdle
    \<and> fst (submit_operation_inner h p reserved (world_stop w)) = SubmissionDone (Inl PluginStopping)
    \<and> fst (world_admit_execution h i e out1 force reservation (world_stop w)) = Inl PluginStopping"
proof -
  let ?ks = "map stopped_of (sc_pending (wd_sched w))"
  obtain o1 w1 where l: "with_lock sched_stop w = ((o1, ?ks), w1)" and w1: "wd_sched w1 = snd (sched_stop (wd_sched w))"
      "wd_delivered w1 = wd_delivered w"
    by (cases "sched_stop (wd_sched w)") (auto simp: with_lock_def sched_stop_def split_beta)
  have stop: "world_stop w = notify_changed (fold (stop_completion PluginStopping) ?ks (on_channel sink_stop o1 w1))"
    by (simp add: world_stop_def l)
  have s: "wd_sched (world_stop w) = snd (sched_stop (wd_sched w))" by (simp add: stop w1)
  have st: "sc_stopping (wd_sched (world_stop w))" by (simp add: s sched_stop_def split_beta)
  have ch: "ch_terminal (wd_channels (world_stop w) out) \<in> {Some TStopped, Some TDisconnected}"
    if "j \<in> set (sc_pending (wd_sched w))" "op_output_sink (jb_operation j) = Some out" for j out
    using stop_all_channels [of _ out ?ks] that by (force simp: stop notify_changed_def stopped_of_def)
  from ch have all: "\<forall>j out. j \<in> set (sc_pending (wd_sched w)) \<and> op_output_sink (jb_operation j) = Some out
      \<longrightarrow> ch_terminal (wd_channels (world_stop w) out) \<in> {Some TStopped, Some TDisconnected}" by blast
  show ?thesis
    using st
    by (intro conjI all) (simp_all add: s stop stop_all_delivered w1 stopped_of_def comp_def sched_stop_def split_beta
        world_take_native_action_def take_native_action_def submit_operation_inner_def submit_operation_def
        world_admit_execution_def admit_execution_def with_lock_def Let_def)
qed

theorem stop_answers_all_witness:
  "map fst (wd_delivered (world_stop sample_taken)) = [1]"
proof -
  have "wd_delivered sample_taken = []" "map jb_completion (sc_pending (wd_sched sample_taken)) = [1]" by code_simp+
  with stop_answers_all [OF sample_taken_reach] show ?thesis by (simp add: comp_def)
qed

section \<open>Executions\<close>

text \<open>The executions an answer may be read from: the one in the job, or that after it was found cancelled,
  expired, or left behind by the host.\<close>

definition answered_from :: "exec \<Rightarrow> exec \<Rightarrow> bool" where
  "answered_from e e1 \<longleftrightarrow> e1 = e \<or> e1 = snd (cancel_before_start e)
     \<or> (\<exists>m. e1 = snd (expire_before_start m e))
     \<or> (\<exists>m. e1 = snd (expire_before_start m (snd (cancel_before_start e))))
     \<or> (\<exists>r. e1 = snd (record_bridge_finalization_failure r e))"

lemma answered_from_reach: "exec_reach mode name bytes e log \<Longrightarrow> answered_from e e1 \<Longrightarrow> exec_reach mode name bytes e1 log"
  by (auto simp: answered_from_def intro: exec_reach.intros)

lemma answered_from_same: "answered_from e e1 \<Longrightarrow> same_input e1 e"
  unfolding answered_from_def same_input_def using others_same_input unfolding same_input_def by metis

lemma complete_exec:
  "fst (complete drawings t (OpExecute i e out c)) = Inr (OutcomeExec x) \<longleftrightarrow> ex_outcome e = Some x"
  by (auto simp: complete_def take_outcome_def split: option.splits)

lemma waited_exec_answer:
  assumes "fst (waited_outcome drawings r now j) = Inr (Some (Inr (OutcomeExec x)))"
    and "jb_operation j = OpExecute i e out c"
  shows "\<exists>e1. answered_from e e1 \<and> ex_outcome e1 = Some x"
proof -
  let ?e = "if \<not> ex_form_handed_off e \<and> ex_cancel_requested e then snd (cancel_before_start e) else e"
  have p: "op_finish_cancel_before_start (jb_operation j)
      = (fst (if \<not> ex_form_handed_off e \<and> ex_cancel_requested e then cancel_before_start e else (False, e)),
         OpExecute i ?e out c)"
    by (simp add: assms(2) op_finish_cancel_before_start_def map_execution_def split_beta)
  from assms(1) consider "ex_outcome ?e = Some x" | "ex_outcome (snd (expire_before_start timeout_detail ?e)) = Some x"
    by (auto simp: waited_outcome_def p wait_timeout_outcome_def op_is_execution_def op_execution_def
        op_expire_before_start_def map_execution_def complete_exec split_beta Let_def split: if_splits)
  then show ?thesis
    by cases (auto simp: answered_from_def split: if_splits)
qed

lemma native_exec_answer:
  assumes "fst (complete_native r drawings t (OpExecute i e out c)) = Inr (OutcomeExec x)"
  shows "\<exists>e1. answered_from e e1 \<and> ex_outcome e1 = Some x"
  using assms
  by (auto simp: complete_native_def complete_exec map_execution_def split_beta answered_from_def
      split: if_splits sum.splits)


definition sample_published :: "(nat \<times> world) option" where
  "sample_published = publish_snapshot sample_gen 1 [sample_document 5 ''Drawing1''] (new_world (\<lambda>_. new_channel))"

definition sample_executing :: world where
  "sample_executing = snd (world_take_native_action sample_host (snd (world_admit_execution sample_host (DrawingId 1)
     (new_exec_record EvalMode (lit ''t'') (lit ''(a)'') False) 0 False 0
     ((snd (the sample_published))\<lparr>wd_channels := (wd_channels (snd (the sample_published)))(0 := new_channel)\<rparr>))))"

lemma sample_executing_reach: "world_reach sample_host sample_executing"
proof -
  have "map_option fst sample_published = Some 2" by code_simp
  then obtain w where p: "sample_published = Some (2, w)" by auto
  have "world_reach sample_host w"
    by (rule wr_step [OF wr_new ws_snapshot]) (use p in \<open>simp add: sample_published_def\<close>)
  moreover have "jobs_of (wd_sched w) = []"
    using p by (auto simp: sample_published_def publish_snapshot_def replace_drawing_snapshot_def new_world_def
        new_scheduler_def jobs_of_def active_jobs_def split: option.splits)
  ultimately have "world_reach sample_host (snd (world_admit_execution sample_host (DrawingId 1)
     (new_exec_record EvalMode (lit ''t'') (lit ''(a)'') False) 0 False 0 (w\<lparr>wd_channels := (wd_channels w)(0 := new_channel)\<rparr>)))"
    by (intro wr_step [OF _ ws_admit [OF exec_new_example]]) simp_all
  then show ?thesis unfolding sample_executing_def p option.sel snd_conv by (rule wr_step [OF _ ws_take])
qed

lemma failure_answer:
  assumes "case a of Some (n, Inr (OutcomeExec (OutFailure f)), Some k) \<Rightarrow> n = 0 \<and> k = 0 \<and> P f | _ \<Rightarrow> False"
  obtains f where "a = Some (0, Inr (OutcomeExec (OutFailure f)), Some 0)" "P f"
proof -
  obtain n r k where a: "a = Some (n, r, k)" using assms by (cases a) auto
  obtain x where r: "r = Inr x" using assms unfolding a by (cases r) auto
  obtain out where x: "x = OutcomeExec out" using assms unfolding a r by (cases x) auto
  obtain f where f: "out = OutFailure f" using assms unfolding a r x by (cases out) auto
  obtain m where "k = Some m" using assms unfolding a r x f by (cases k) auto
  with assms that show thesis unfolding a r x f by simp
qed


end
