(* ===== verification/Value_Layout.thy ===== *)
theory Value_Layout
  imports Output_Channel
begin

text \<open>
  The layout of printed values, \<open>crates/plugin/src/exec/value/printer_layout.rs\<close>: a stream of texts,
  possible line breaks and groups, written to the output as soon as it is known whether a group
  fits on the line.  What the layout calls outside itself is the record \<open>output_env\<close>: writing to
  and flushing the output sink, and the width of a text (the \<open>unicode_width\<close> crate).  Running out of
  memory (\<open>try_reserve\<close>) is not modelled.
\<close>

section \<open>Data\<close>

definition PRINT_WIDTH :: nat where "PRINT_WIDTH = 100"
definition INDENT_WIDTH :: nat where "INDENT_WIDTH = 2"

text \<open>The number of spaces of \<open>SPACE_CHUNK\<close>.\<close>

definition SPACE_CHUNK_LEN :: nat where "SPACE_CHUNK_LEN = 64"

datatype print_error = PeInvalidSequence | PeLimitExceeded | PeOutput emit_result

datatype group_kind = GkBreakable | GkForcedFlat
datatype group_mode = GmFlat | GmBroken
datatype token = TkBegin group_kind | TkEnd | TkText ustr | TkLine (tk_flat: ustr) (tk_indent: nat)
datatype fit = FitYes | FitNo | FitUnknown

record 's output_env =
  oe_emit :: "ustr \<Rightarrow> 's \<Rightarrow> emit_result \<times> 's"
  oe_flush :: "'s \<Rightarrow> emit_result \<times> 's"
  oe_width :: "ustr \<Rightarrow> nat"

record 's layout =
  ly_sink :: 's
  ly_pending :: "token list"
  ly_groups :: "group_mode list"
  ly_forced :: nat
  ly_column :: nat

text \<open>\<open>?\<close> on the result of a call that changes its state.\<close>

definition try_then ::
  "('e + 'a) \<times> 'l \<Rightarrow> ('a \<Rightarrow> 'l \<Rightarrow> ('e + 'b) \<times> 'l) \<Rightarrow> ('e + 'b) \<times> 'l" where
  "try_then r f = (case r of (Inl e, s) \<Rightarrow> (Inl e, s) | (Inr x, s) \<Rightarrow> f x s)"

lemma try_then_simps [simp]:
  "try_then (Inr x, s) f = f x s" "try_then (Inl e, s) f = (Inl e, s)"
  by (simp_all add: try_then_def)

lemma try_then_cong [fundef_cong]:
  "r = r1 \<Longrightarrow> (\<And>x s. r1 = (Inr x, s) \<Longrightarrow> f x s = f1 x s) \<Longrightarrow> try_then r f = try_then r1 f1"
  by (auto simp: try_then_def split: prod.split sum.split)

definition emit_answer :: "emit_result \<times> 's layout \<Rightarrow> (print_error + unit) \<times> 's layout" where
  "emit_answer r = (if fst r = EContinue then Inr () else Inl (PeOutput (fst r)), snd r)"

section \<open>Operations\<close>

definition new_layout :: "'s \<Rightarrow> 's layout" where
  "new_layout sink = \<lparr>ly_sink = sink, ly_pending = [], ly_groups = [], ly_forced = 0, ly_column = 0\<rparr>"

definition sat_mul64 :: "nat \<Rightarrow> nat \<Rightarrow> nat" where
  "sat_mul64 a b = min (a * b) u64_max"

definition indent_for_depth :: "nat \<Rightarrow> nat" where
  "indent_for_depth depth = sat_mul64 depth INDENT_WIDTH"

definition layout_emit :: "'s output_env \<Rightarrow> ustr \<Rightarrow> 's layout \<Rightarrow> emit_result \<times> 's layout" where
  "layout_emit env s l = (case oe_emit env s (ly_sink l) of (r, sink) \<Rightarrow> (r, l\<lparr>ly_sink := sink\<rparr>))"

definition layout_poll :: "'s output_env \<Rightarrow> 's layout \<Rightarrow> (print_error + unit) \<times> 's layout" where
  "layout_poll env l = emit_answer (layout_emit env [] l)"

definition emit_text :: "'s output_env \<Rightarrow> ustr \<Rightarrow> 's layout \<Rightarrow> (print_error + unit) \<times> 's layout" where
  "emit_text env s l = try_then (emit_answer (layout_emit env s l))
     (\<lambda>_ l1. (Inr (), l1\<lparr>ly_column := sat_add64 (ly_column l1) (oe_width env s)\<rparr>))"

text \<open>The spaces of an indentation, in chunks.\<close>

function emit_spaces :: "'s output_env \<Rightarrow> nat \<Rightarrow> 's layout \<Rightarrow> (print_error + unit) \<times> 's layout" where
  "emit_spaces env remaining l =
     (if remaining = 0 then (Inr (), l)
      else
        (let count = min remaining SPACE_CHUNK_LEN in
         try_then (emit_answer (layout_emit env (replicate count ch_space) l))
           (\<lambda>_ l1. emit_spaces env (remaining - count) l1)))"
  by pat_completeness auto
termination by (relation "measure (\<lambda>(_, n, _). n)") (auto simp: SPACE_CHUNK_LEN_def)

declare emit_spaces.simps [simp del]

definition emit_newline :: "'s output_env \<Rightarrow> nat \<Rightarrow> 's layout \<Rightarrow> (print_error + unit) \<times> 's layout" where
  "emit_newline env indent l =
     try_then (emit_answer (layout_emit env [ch_lf] l)) (\<lambda>_ l1.
     try_then (emit_spaces env indent l1) (\<lambda>_ l2. (Inr (), l2\<lparr>ly_column := indent\<rparr>)))"

text \<open>Writing touches only the sink and the column.\<close>

lemma layout_emit_frame [simp]:
  "ly_pending (snd (layout_emit env s l)) = ly_pending l" "ly_groups (snd (layout_emit env s l)) = ly_groups l"
  "ly_forced (snd (layout_emit env s l)) = ly_forced l" "ly_column (snd (layout_emit env s l)) = ly_column l"
  by (simp_all add: layout_emit_def split: prod.split)

lemma emit_answer_snd [simp]: "snd (emit_answer r) = snd r"
  by (simp add: emit_answer_def)

lemma try_then_snd: "P (snd r) \<Longrightarrow> (\<And>x. P (snd (f x (snd r)))) \<Longrightarrow> P (snd (try_then r f))"
  by (auto simp: try_then_def split: prod.split sum.split)

lemma emit_text_frame [simp]:
  "ly_pending (snd (emit_text env s l)) = ly_pending l" "ly_groups (snd (emit_text env s l)) = ly_groups l"
  "ly_forced (snd (emit_text env s l)) = ly_forced l"
  unfolding emit_text_def by (rule try_then_snd; simp)+

lemma emit_spaces_frame [simp]:
  "ly_pending (snd (emit_spaces env n l)) = ly_pending l" "ly_groups (snd (emit_spaces env n l)) = ly_groups l"
  "ly_forced (snd (emit_spaces env n l)) = ly_forced l"
proof (induction env n l rule: emit_spaces.induct)
  case (1 env n l)
  let ?r = "emit_answer (layout_emit env (replicate (min n SPACE_CHUNK_LEN) ch_space) l)"
  have "ly_pending (snd (emit_spaces env n l)) = ly_pending l \<and> ly_groups (snd (emit_spaces env n l)) = ly_groups l
      \<and> ly_forced (snd (emit_spaces env n l)) = ly_forced l"
  proof (cases "n = 0")
    case False
    obtain r l1 where r: "?r = (r, l1)" by fastforce
    then have l1: "l1 = snd (layout_emit env (replicate (min n SPACE_CHUNK_LEN) ch_space) l)"
      by (metis emit_answer_snd snd_conv)
    show ?thesis
    proof (cases r)
      case (Inr x)
      with 1 [OF False refl r [unfolded Inr]] False r l1 show ?thesis by (subst (1 2 3) emit_spaces.simps) (simp add: Let_def)
    qed (use False r l1 in \<open>subst (1 2 3) emit_spaces.simps, simp add: Let_def\<close>)
  qed (subst (1 2 3) emit_spaces.simps, simp)
  then show "ly_pending (snd (emit_spaces env n l)) = ly_pending l" "ly_groups (snd (emit_spaces env n l)) = ly_groups l"
    "ly_forced (snd (emit_spaces env n l)) = ly_forced l" by simp_all
qed

lemma emit_newline_frame [simp]:
  "ly_pending (snd (emit_newline env n l)) = ly_pending l" "ly_groups (snd (emit_newline env n l)) = ly_groups l"
  "ly_forced (snd (emit_newline env n l)) = ly_forced l"
  unfolding emit_newline_def by (rule try_then_snd; simp add: try_then_snd)+

text \<open>A line: flat inside a forced group, else as the innermost group was decided.\<close>

definition write_line :: "'s output_env \<Rightarrow> ustr \<Rightarrow> nat \<Rightarrow> 's layout \<Rightarrow> (print_error + unit) \<times> 's layout" where
  "write_line env flat indent l =
     (if ly_forced l \<noteq> 0 then emit_text env flat l
      else (case ly_groups l of
          GmFlat # _ \<Rightarrow> emit_text env flat l
        | GmBroken # _ \<Rightarrow> emit_newline env indent l
        | [] \<Rightarrow> (Inl PeInvalidSequence, l)))"

lemma write_line_frame [simp]:
  "ly_pending (snd (write_line env flat indent l)) = ly_pending l"
  "ly_groups (snd (write_line env flat indent l)) = ly_groups l"
  "ly_forced (snd (write_line env flat indent l)) = ly_forced l"
  by (auto simp: write_line_def split: list.split group_mode.split)

lemma written_frame:
  "emit_text env s l = (r, l1)
     \<Longrightarrow> ly_pending l1 = ly_pending l \<and> ly_groups l1 = ly_groups l \<and> ly_forced l1 = ly_forced l"
  "write_line env flat indent l = (r, l1)
     \<Longrightarrow> ly_pending l1 = ly_pending l \<and> ly_groups l1 = ly_groups l \<and> ly_forced l1 = ly_forced l"
  by (metis emit_text_frame snd_conv) (metis write_line_frame snd_conv)

text \<open>The loop of \<open>group_fits\<close> over the pending tokens.\<close>

fun fits_loop :: "(ustr \<Rightarrow> nat) \<Rightarrow> nat \<Rightarrow> nat \<Rightarrow> nat \<Rightarrow> token list \<Rightarrow> fit" where
  "fits_loop wd remaining depth width [] = FitUnknown"
| "fits_loop wd remaining depth width (t # ts) =
     (let depth1 = (case t of TkBegin _ \<Rightarrow> depth + 1 | TkEnd \<Rightarrow> depth - 1 | _ \<Rightarrow> depth);
          width1 = (case t of TkText s \<Rightarrow> sat_add64 width (wd s) | TkLine flat _ \<Rightarrow> sat_add64 width (wd flat) | _ \<Rightarrow> width)
      in if t = TkEnd \<and> depth1 = 0 then FitYes
         else if width1 > remaining then FitNo
         else fits_loop wd remaining depth1 width1 ts)"

definition group_fits :: "(ustr \<Rightarrow> nat) \<Rightarrow> token list \<Rightarrow> nat \<Rightarrow> fit" where
  "group_fits wd pending remaining = fits_loop wd remaining 0 0 pending"

function drain :: "'s output_env \<Rightarrow> 's layout \<Rightarrow> (print_error + unit) \<times> 's layout" where
  "drain env l = (case ly_pending l of
     [] \<Rightarrow> (Inr (), l)
   | TkBegin GkBreakable # rest \<Rightarrow>
       (case group_fits (oe_width env) (ly_pending l) (PRINT_WIDTH - ly_column l) of
          FitUnknown \<Rightarrow> (Inr (), l)
        | f \<Rightarrow> drain env (l\<lparr>ly_pending := rest,
                 ly_groups := (if f = FitYes then GmFlat else GmBroken) # ly_groups l\<rparr>))
   | TkBegin GkForcedFlat # rest \<Rightarrow>
       if ly_forced l = u64_max then (Inl PeLimitExceeded, l\<lparr>ly_pending := rest\<rparr>)
       else drain env (l\<lparr>ly_pending := rest, ly_forced := ly_forced l + 1\<rparr>)
   | TkEnd # rest \<Rightarrow>
       if ly_forced l \<noteq> 0 then drain env (l\<lparr>ly_pending := rest, ly_forced := ly_forced l - 1\<rparr>)
       else (case ly_groups l of
           [] \<Rightarrow> (Inl PeInvalidSequence, l)
         | _ # groups \<Rightarrow> drain env (l\<lparr>ly_pending := rest, ly_groups := groups\<rparr>))
   | TkText s # rest \<Rightarrow>
       try_then (emit_text env s (l\<lparr>ly_pending := rest\<rparr>)) (\<lambda>_ l1. drain env l1)
   | TkLine flat indent # rest \<Rightarrow>
       try_then (write_line env flat indent (l\<lparr>ly_pending := rest\<rparr>)) (\<lambda>_ l1. drain env l1))"
  by pat_completeness auto
termination
proof (relation "measure (\<lambda>(_, l). length (ly_pending l))")
  fix env :: "'s output_env" and l l1 :: "'s layout" and x :: unit and t rest s flat indent
  assume l: "ly_pending l = t # rest"
  show "((env, l1), env, l) \<in> measure (\<lambda>(_, l). length (ly_pending l))"
    if "emit_text env s (l\<lparr>ly_pending := rest\<rparr>) = (Inr x, l1)"
    using emit_text_frame(1) [of env s "l\<lparr>ly_pending := rest\<rparr>"] that l by simp
  show "((env, l1), env, l) \<in> measure (\<lambda>(_, l). length (ly_pending l))"
    if "write_line env flat indent (l\<lparr>ly_pending := rest\<rparr>) = (Inr x, l1)"
    using write_line_frame(1) [of env flat indent "l\<lparr>ly_pending := rest\<rparr>"] that l by simp
qed auto

declare drain.simps [simp del]

text \<open>One step of the drain, by the token in front.\<close>

lemma drain_Nil: "ly_pending l = [] \<Longrightarrow> drain env l = (Inr (), l)"
  by (subst drain.simps) simp

lemma drain_breakable:
  "ly_pending l = TkBegin GkBreakable # rest \<Longrightarrow> drain env l =
     (case group_fits (oe_width env) (ly_pending l) (PRINT_WIDTH - ly_column l) of
        FitUnknown \<Rightarrow> (Inr (), l)
      | f \<Rightarrow> drain env (l\<lparr>ly_pending := rest, ly_groups := (if f = FitYes then GmFlat else GmBroken) # ly_groups l\<rparr>))"
  by (subst drain.simps) (simp split: fit.split)

lemma drain_forced:
  "ly_pending l = TkBegin GkForcedFlat # rest \<Longrightarrow> drain env l =
     (if ly_forced l = u64_max then (Inl PeLimitExceeded, l\<lparr>ly_pending := rest\<rparr>)
      else drain env (l\<lparr>ly_pending := rest, ly_forced := ly_forced l + 1\<rparr>))"
  by (subst drain.simps) simp

lemma drain_end:
  "ly_pending l = TkEnd # rest \<Longrightarrow> drain env l =
     (if ly_forced l \<noteq> 0 then drain env (l\<lparr>ly_pending := rest, ly_forced := ly_forced l - 1\<rparr>)
      else (case ly_groups l of
          [] \<Rightarrow> (Inl PeInvalidSequence, l)
        | _ # groups \<Rightarrow> drain env (l\<lparr>ly_pending := rest, ly_groups := groups\<rparr>)))"
  by (subst drain.simps) simp

lemma drain_text:
  "ly_pending l = TkText s # rest \<Longrightarrow>
     drain env l = try_then (emit_text env s (l\<lparr>ly_pending := rest\<rparr>)) (\<lambda>_ l1. drain env l1)"
  by (subst drain.simps) simp

lemma drain_line:
  "ly_pending l = TkLine flat indent # rest \<Longrightarrow>
     drain env l = try_then (write_line env flat indent (l\<lparr>ly_pending := rest\<rparr>)) (\<lambda>_ l1. drain env l1)"
  by (subst drain.simps) simp

lemmas drain_unfold = drain_Nil drain_breakable drain_forced drain_end drain_text drain_line

text \<open>An induction on the pending tokens, in step with the drain.\<close>

lemma drain_induct [case_names Nil Cons]:
  assumes "\<And>l. ly_pending l = [] \<Longrightarrow> P l"
    and "\<And>l t rest. ly_pending l = t # rest \<Longrightarrow> (\<And>l1. ly_pending l1 = rest \<Longrightarrow> P l1) \<Longrightarrow> P l"
  shows "P l"
proof (induction "ly_pending l" arbitrary: l)
  case Nil
  then show ?case using assms(1) by simp
next
  case (Cons t rest)
  show ?case by (rule assms(2) [OF Cons(2) [symmetric]]) (use Cons(1) in simp)
qed

definition push_polled :: "'s output_env \<Rightarrow> token \<Rightarrow> 's layout \<Rightarrow> (print_error + unit) \<times> 's layout" where
  "push_polled env t l = drain env (l\<lparr>ly_pending := ly_pending l @ [t]\<rparr>)"

definition layout_push :: "'s output_env \<Rightarrow> token \<Rightarrow> 's layout \<Rightarrow> (print_error + unit) \<times> 's layout" where
  "layout_push env t l = try_then (layout_poll env l) (\<lambda>_ l1. push_polled env t l1)"

definition begin_group :: "'s output_env \<Rightarrow> nat \<Rightarrow> 's layout \<Rightarrow> (print_error + unit) \<times> 's layout" where
  "begin_group env depth =
     layout_push env (TkBegin (if indent_for_depth depth < PRINT_WIDTH then GkBreakable else GkForcedFlat))"

definition end_group :: "'s output_env \<Rightarrow> 's layout \<Rightarrow> (print_error + unit) \<times> 's layout" where
  "end_group env = layout_push env TkEnd"

definition layout_text :: "'s output_env \<Rightarrow> ustr \<Rightarrow> 's layout \<Rightarrow> (print_error + unit) \<times> 's layout" where
  "layout_text env s l = try_then (layout_poll env l) (\<lambda>_ l1.
     if s = [] then (Inr (), l1)
     else if ly_pending l1 = [] then emit_text env s l1
     else push_polled env (TkText s) l1)"

definition layout_line :: "'s output_env \<Rightarrow> ustr \<Rightarrow> nat \<Rightarrow> 's layout \<Rightarrow> (print_error + unit) \<times> 's layout" where
  "layout_line env flat depth = layout_push env (TkLine flat (indent_for_depth depth))"

definition layout_flush :: "'s output_env \<Rightarrow> 's layout \<Rightarrow> emit_result \<times> 's layout" where
  "layout_flush env l = (case oe_flush env (ly_sink l) of (r, sink) \<Rightarrow> (r, l\<lparr>ly_sink := sink\<rparr>))"

definition layout_finish :: "'s output_env \<Rightarrow> 's layout \<Rightarrow> (print_error + unit) \<times> 's layout" where
  "layout_finish env l = try_then (drain env l) (\<lambda>_ l1.
     if ly_pending l1 \<noteq> [] \<or> ly_groups l1 \<noteq> [] \<or> ly_forced l1 \<noteq> 0
     then (Inl PeInvalidSequence, snd (layout_flush env l1))
     else try_then (emit_text env [ch_lf] l1) (\<lambda>_ l2. emit_answer (layout_flush env l2)))"

end
