(* ===== verification/Value_Run.thy ===== *)
theory Value_Run
  imports Value_Layout
begin

text \<open>
  The layout against its specification.  \<open>lay_out\<close> lays out a whole list of tokens at once, deciding
  each group by everything that follows it; the layout of the program sees one token at a time and
  writes as soon as it can.  Both give the same text, on every sink that takes what it is given: that
  is the locale \<open>text_sink\<close>.
\<close>

section \<open>The specification\<close>

type_synonym lay_state = "group_mode list \<times> nat \<times> nat"

definition emitted :: "ustr \<Rightarrow> (ustr \<times> 'a) option \<Rightarrow> (ustr \<times> 'a) option" where
  "emitted s r = map_option (\<lambda>(t, st). (s @ t, st)) r"

lemma emitted_simps [simp]:
  "emitted s None = None" "emitted s (Some (t, st)) = Some (s @ t, st)" "emitted [] r = r"
  "emitted s (emitted t r) = emitted (s @ t) r" "emitted s r = None \<longleftrightarrow> r = None"
  by (cases r; auto simp: emitted_def)+

lemma emitted_Some: "emitted s r = Some (t, st) \<longleftrightarrow> (\<exists>u. r = Some (u, st) \<and> t = s @ u)"
  by (cases r) (auto simp: emitted_def)

fun lay_out :: "(ustr \<Rightarrow> nat) \<Rightarrow> token list \<Rightarrow> lay_state \<Rightarrow> (ustr \<times> lay_state) option" where
  "lay_out wd [] st = Some ([], st)"
| "lay_out wd (t # ts) (gs, forced, col) =
     (case t of
        TkBegin GkBreakable \<Rightarrow>
          (case group_fits wd (t # ts) (PRINT_WIDTH - col) of
             FitUnknown \<Rightarrow> None
           | f \<Rightarrow> lay_out wd ts ((if f = FitYes then GmFlat else GmBroken) # gs, forced, col))
      | TkBegin GkForcedFlat \<Rightarrow> if forced = u64_max then None else lay_out wd ts (gs, forced + 1, col)
      | TkEnd \<Rightarrow>
          if forced \<noteq> 0 then lay_out wd ts (gs, forced - 1, col)
          else (case gs of [] \<Rightarrow> None | _ # gs1 \<Rightarrow> lay_out wd ts (gs1, forced, col))
      | TkText s \<Rightarrow> emitted s (lay_out wd ts (gs, forced, sat_add64 col (wd s)))
      | TkLine flat indent \<Rightarrow>
          if forced \<noteq> 0 \<or> (gs \<noteq> [] \<and> hd gs = GmFlat) then emitted flat (lay_out wd ts (gs, forced, sat_add64 col (wd flat)))
          else if gs = [] then None
          else emitted (ch_lf # replicate indent ch_space) (lay_out wd ts (gs, forced, indent)))"

lemma fits_loop_append:
  "fits_loop wd remaining depth width ts \<noteq> FitUnknown
     \<Longrightarrow> fits_loop wd remaining depth width (ts @ us) = fits_loop wd remaining depth width ts"
proof (induction wd remaining depth width ts rule: fits_loop.induct)
  case (2 wd remaining depth width t ts)
  show ?case using 2(1) [OF refl refl] 2(2) by (cases t) (auto simp: Let_def split: if_splits)
qed simp

lemma group_fits_append:
  "group_fits wd ts remaining \<noteq> FitUnknown \<Longrightarrow> group_fits wd (ts @ us) remaining = group_fits wd ts remaining"
  by (simp add: group_fits_def fits_loop_append)

section \<open>Sinks that take what they are given\<close>

definition lay_state :: "'s layout \<Rightarrow> lay_state" where
  "lay_state l = (ly_groups l, ly_forced l, ly_column l)"

text \<open>The layout writes nothing more until it is given more: it is empty, or waits for the end of a group.\<close>

definition settled :: "(ustr \<Rightarrow> nat) \<Rightarrow> 's layout \<Rightarrow> bool" where
  "settled wd l \<longleftrightarrow> ly_pending l = [] \<or> ((\<exists>rest. ly_pending l = TkBegin GkBreakable # rest)
     \<and> group_fits wd (ly_pending l) (PRINT_WIDTH - ly_column l) = FitUnknown)"

lemma settled_lay_out: "settled wd l \<Longrightarrow> lay_out wd (ly_pending l) (lay_state l) \<noteq> None \<longleftrightarrow> ly_pending l = []"
  by (auto simp: settled_def lay_state_def)

text \<open>The operations of the layout, and what they stand for.\<close>

datatype layout_op = OpBegin nat | OpEnd | OpText ustr | OpLine ustr nat

definition apply_op :: "'s output_env \<Rightarrow> layout_op \<Rightarrow> 's layout \<Rightarrow> (print_error + unit) \<times> 's layout" where
  "apply_op env op = (case op of
     OpBegin depth \<Rightarrow> begin_group env depth
   | OpEnd \<Rightarrow> end_group env
   | OpText s \<Rightarrow> layout_text env s
   | OpLine flat depth \<Rightarrow> layout_line env flat depth)"

definition depth_kind :: "nat \<Rightarrow> group_kind" where
  "depth_kind depth = (if indent_for_depth depth < PRINT_WIDTH then GkBreakable else GkForcedFlat)"

fun op_tokens :: "layout_op \<Rightarrow> token list" where
  "op_tokens (OpBegin depth) = [TkBegin (depth_kind depth)]"
| "op_tokens OpEnd = [TkEnd]"
| "op_tokens (OpText s) = (if s = [] then [] else [TkText s])"
| "op_tokens (OpLine flat depth) = [TkLine flat (indent_for_depth depth)]"

primrec feed :: "'s output_env \<Rightarrow> layout_op list \<Rightarrow> 's layout \<Rightarrow> (print_error + unit) \<times> 's layout" where
  "feed env [] l = (Inr (), l)"
| "feed env (op # ops) l = try_then (apply_op env op l) (\<lambda>_ l1. feed env ops l1)"

definition start_state :: lay_state where "start_state = ([], 0, 0)"

locale text_sink =
  fixes env :: "'s output_env" and is_open :: "'s \<Rightarrow> bool" and sent :: "'s \<Rightarrow> ustr"
  assumes emit_open: "is_open s \<Longrightarrow> oe_emit env t s = (r, s1) \<Longrightarrow> r = EContinue \<and> is_open s1 \<and> sent s1 = sent s @ t"
    and flush_open: "is_open s \<Longrightarrow> oe_flush env s = (r, s1) \<Longrightarrow> r = EContinue \<and> is_open s1 \<and> sent s1 = sent s"
begin

text \<open>From \<open>l\<close> to \<open>l1\<close> the text \<open>s\<close> was written, up to column \<open>col\<close>.\<close>

definition wrote :: "'s layout \<Rightarrow> ustr \<Rightarrow> nat \<Rightarrow> 's layout \<Rightarrow> bool" where
  "wrote l s col l1 \<longleftrightarrow> is_open (ly_sink l1) \<and> sent (ly_sink l1) = sent (ly_sink l) @ s \<and> ly_column l1 = col
     \<and> ly_pending l1 = ly_pending l \<and> ly_groups l1 = ly_groups l \<and> ly_forced l1 = ly_forced l"

lemma layout_emit_open:
  assumes "is_open (ly_sink l)"
  obtains l1 where "layout_emit env s l = (EContinue, l1)" "wrote l s (ly_column l) l1"
  using emit_open [OF assms, of s]
  by (cases "oe_emit env s (ly_sink l)") (auto simp: layout_emit_def wrote_def intro: that)

lemma emit_text_open:
  assumes "is_open (ly_sink l)"
  obtains l1 where "emit_text env s l = (Inr (), l1)" "wrote l s (sat_add64 (ly_column l) (oe_width env s)) l1"
proof -
  obtain l1 where "layout_emit env s l = (EContinue, l1)" "wrote l s (ly_column l) l1"
    using layout_emit_open assms by metis
  then show thesis by (intro that) (auto simp: emit_text_def emit_answer_def wrote_def)
qed

lemma emit_spaces_open:
  "is_open (ly_sink l) \<Longrightarrow> \<exists>l1. emit_spaces env n l = (Inr (), l1) \<and> wrote l (replicate n ch_space) (ly_column l) l1"
proof (induction n arbitrary: l rule: less_induct)
  case (less n)
  show ?case
  proof (cases "n = 0")
    case False
    define k where "k = min n SPACE_CHUNK_LEN"
    then have k: "0 < k" "k \<le> n" using False by (auto simp: SPACE_CHUNK_LEN_def)
    obtain l1 where l1: "layout_emit env (replicate k ch_space) l = (EContinue, l1)"
        "wrote l (replicate k ch_space) (ly_column l) l1"
      using layout_emit_open less.prems by metis
    then obtain l2 where l2: "emit_spaces env (n - k) l1 = (Inr (), l2)" "wrote l1 (replicate (n - k) ch_space) (ly_column l1) l2"
      using less.IH [of "n - k" l1] k by (auto simp: wrote_def)
    have "replicate k ch_space @ replicate (n - k) ch_space = replicate n ch_space"
      using k(2) by (simp add: replicate_add [symmetric])
    with l1 l2 have "wrote l (replicate n ch_space) (ly_column l) l2" by (simp add: wrote_def)
    with l1 l2 False show ?thesis
      by (subst emit_spaces.simps) (simp add: k_def [symmetric] Let_def emit_answer_def)
  qed (use less.prems in \<open>subst emit_spaces.simps, simp add: wrote_def\<close>)
qed

lemma emit_newline_open:
  assumes "is_open (ly_sink l)"
  obtains l1 where "emit_newline env n l = (Inr (), l1)" "wrote l (ch_lf # replicate n ch_space) n l1"
proof -
  obtain l1 where l1: "layout_emit env [ch_lf] l = (EContinue, l1)" "wrote l [ch_lf] (ly_column l) l1"
    using layout_emit_open assms by metis
  then obtain l2 where l2: "emit_spaces env n l1 = (Inr (), l2)" "wrote l1 (replicate n ch_space) (ly_column l1) l2"
    using emit_spaces_open [of l1 n] by (auto simp: wrote_def)
  show thesis
    by (rule that [of "l2\<lparr>ly_column := n\<rparr>"]) (use l1 l2 in \<open>auto simp: emit_newline_def emit_answer_def wrote_def\<close>)
qed

text \<open>Draining writes a beginning of what the pending tokens are laid out as, whatever follows them.\<close>

definition drained :: "'s layout \<Rightarrow> (print_error + unit) \<times> 's layout \<Rightarrow> bool" where
  "drained l r \<longleftrightarrow> (case r of
     (Inr _, l1) \<Rightarrow> is_open (ly_sink l1) \<and> settled (oe_width env) l1
       \<and> (\<exists>out. sent (ly_sink l1) = sent (ly_sink l) @ out
            \<and> (\<forall>us. lay_out (oe_width env) (ly_pending l @ us) (lay_state l)
                  = emitted out (lay_out (oe_width env) (ly_pending l1 @ us) (lay_state l1))))
   | (Inl _, _) \<Rightarrow> \<forall>us. lay_out (oe_width env) (ly_pending l @ us) (lay_state l) = None)"

lemma drained_step:
  assumes "drained l1 r" "sent (ly_sink l1) = sent (ly_sink l) @ out"
    and "\<And>us. lay_out (oe_width env) (ly_pending l @ us) (lay_state l)
              = emitted out (lay_out (oe_width env) (ly_pending l1 @ us) (lay_state l1))"
  shows "drained l r"
proof -
  obtain x l2 where r: "r = (x, l2)" by fastforce
  show ?thesis
  proof (cases x)
    case (Inr u)
    then obtain out1 where "sent (ly_sink l2) = sent (ly_sink l1) @ out1"
        "\<And>us. lay_out (oe_width env) (ly_pending l1 @ us) (lay_state l1)
            = emitted out1 (lay_out (oe_width env) (ly_pending l2 @ us) (lay_state l2))"
      using assms(1) r by (auto simp: drained_def)
    with assms r Inr show ?thesis by (auto simp: drained_def intro!: exI [of _ "out @ out1"])
  qed (use assms r in \<open>auto simp: drained_def\<close>)
qed

lemma drained_line:
  assumes "is_open (ly_sink l)" "ly_pending l = TkLine flat indent # rest"
    and "\<And>l1. ly_pending l1 = rest \<Longrightarrow> is_open (ly_sink l1) \<Longrightarrow> drained l1 (drain env l1)"
  shows "drained l (drain env l)"
proof -
  let ?l = "l\<lparr>ly_pending := rest\<rparr>"
  have o: "is_open (ly_sink ?l)" using assms(1) by simp
  show ?thesis
  proof (cases "ly_forced l \<noteq> 0 \<or> (ly_groups l \<noteq> [] \<and> hd (ly_groups l) = GmFlat)")
    case True
    obtain l1 where l1: "emit_text env flat ?l = (Inr (), l1)" "wrote ?l flat (sat_add64 (ly_column ?l) (oe_width env flat)) l1"
      using emit_text_open [OF o] by metis
    have "write_line env flat indent ?l = emit_text env flat ?l"
      using True by (auto simp: write_line_def split: list.split)
    then have "drain env l = drain env l1" using assms(2) l1(1) by (simp add: drain_line)
    moreover have "drained l (drain env l1)"
      by (rule drained_step [OF assms(3), where out = flat]) (use l1 assms(2) True in \<open>auto simp: wrote_def lay_state_def\<close>)
    ultimately show ?thesis by simp
  next
    case False
    show ?thesis
    proof (cases "ly_groups l")
      case Nil
      with False assms(2) show ?thesis by (simp add: drain_line write_line_def drained_def lay_state_def)
    next
      case (Cons g gs)
      with False have g: "g = GmBroken" by (cases g) auto
      obtain l1 where l1: "emit_newline env indent ?l = (Inr (), l1)" "wrote ?l (ch_lf # replicate indent ch_space) indent l1"
        using emit_newline_open [OF o] by metis
      have "write_line env flat indent ?l = emit_newline env indent ?l"
        using False Cons g by (simp add: write_line_def)
      then have "drain env l = drain env l1" using assms(2) l1(1) by (simp add: drain_line)
      moreover have "drained l (drain env l1)"
        by (rule drained_step [OF assms(3), where out = "ch_lf # replicate indent ch_space"])
           (use l1 assms(2) False Cons g in \<open>auto simp: wrote_def lay_state_def\<close>)
      ultimately show ?thesis by simp
    qed
  qed
qed

lemma drained_drain: "is_open (ly_sink l) \<Longrightarrow> drained l (drain env l)"
proof (induction l rule: drain_induct)
  case (Nil l)
  then show ?case by (auto simp: drain_Nil drained_def settled_def)
next
  case (Cons l t rest)
  let ?wd = "oe_width env"
  show ?case
  proof (cases t)
    case (TkBegin k)
    show ?thesis
    proof (cases k)
      case GkBreakable
      let ?fit = "group_fits ?wd (ly_pending l) (PRINT_WIDTH - ly_column l)"
      note p = Cons(1) [unfolded TkBegin GkBreakable]
      have d: "drain env l = (if ?fit = FitUnknown then (Inr (), l)
          else drain env (l\<lparr>ly_pending := rest, ly_groups := (if ?fit = FitYes then GmFlat else GmBroken) # ly_groups l\<rparr>))"
        by (simp add: drain_breakable [OF p] split: fit.split)
      show ?thesis
      proof (cases "?fit = FitUnknown")
        case True
        with d p Cons(3) show ?thesis by (auto simp: drained_def settled_def)
      next
        case False
        have fit: "group_fits ?wd (ly_pending l @ us) (PRINT_WIDTH - ly_column l) = ?fit" for us
          by (rule group_fits_append [OF False])
        let ?l = "l\<lparr>ly_pending := rest, ly_groups := (if ?fit = FitYes then GmFlat else GmBroken) # ly_groups l\<rparr>"
        have "drained ?l (drain env ?l)" using Cons(2,3) by simp
        then have "drained l (drain env ?l)"
          by (rule drained_step [where out = "[]"]) (use False fit p in \<open>auto simp: lay_state_def split: fit.split\<close>)
        with d False show ?thesis by simp
      qed
    next
      case GkForcedFlat
      note p = Cons(1) [unfolded TkBegin GkForcedFlat]
      let ?l = "l\<lparr>ly_pending := rest, ly_forced := ly_forced l + 1\<rparr>"
      show ?thesis
      proof (cases "ly_forced l = u64_max")
        case False
        have "drained ?l (drain env ?l)" using Cons(2,3) by simp
        then have "drained l (drain env ?l)"
          by (rule drained_step [where out = "[]"]) (use False p in \<open>auto simp: lay_state_def\<close>)
        with False p show ?thesis by (simp add: drain_forced)
      qed (use p in \<open>simp add: drain_forced drained_def lay_state_def\<close>)
    qed
  next
    case TkEnd
    note p = Cons(1) [unfolded TkEnd]
    show ?thesis
    proof (cases "ly_forced l \<noteq> 0")
      case True
      let ?l = "l\<lparr>ly_pending := rest, ly_forced := ly_forced l - 1\<rparr>"
      have "drained ?l (drain env ?l)" using Cons(2,3) by simp
      then have "drained l (drain env ?l)"
        by (rule drained_step [where out = "[]"]) (use True p in \<open>auto simp: lay_state_def\<close>)
      with True p show ?thesis by (simp add: drain_end)
    next
      case False
      show ?thesis
      proof (cases "ly_groups l")
        case (Cons g gs)
        let ?l = "l\<lparr>ly_pending := rest, ly_groups := gs\<rparr>"
        have "drained ?l (drain env ?l)" using \<open>is_open _\<close> Cons.IH by simp
        then have "drained l (drain env ?l)"
          by (rule drained_step [where out = "[]"]) (use False Cons p in \<open>auto simp: lay_state_def\<close>)
        with False p Cons show ?thesis by (simp add: drain_end)
      qed (use False p in \<open>simp add: drain_end drained_def lay_state_def\<close>)
    qed
  next
    case (TkText s)
    let ?l = "l\<lparr>ly_pending := rest\<rparr>"
    have "is_open (ly_sink ?l)" using Cons(3) by simp
    then obtain l1 where l1: "emit_text env s ?l = (Inr (), l1)" "wrote ?l s (sat_add64 (ly_column ?l) (?wd s)) l1"
      using emit_text_open by metis
    have "drained l1 (drain env l1)" using l1(2) Cons(2) by (simp add: wrote_def)
    then have "drained l (drain env l1)"
      by (rule drained_step [where out = s]) (use l1 Cons(1) TkText in \<open>auto simp: wrote_def lay_state_def\<close>)
    with l1 Cons(1) TkText show ?thesis by (simp add: drain_text)
  next
    case (TkLine flat indent)
    show ?thesis by (rule drained_line [OF Cons(3) Cons(1) [unfolded TkLine]]) (use Cons(2) in blast)
  qed
qed

text \<open>What was written so far is laid out from the tokens \<open>ts\<close>; the rest of them is pending.\<close>

definition logged :: "ustr \<Rightarrow> token list \<Rightarrow> 's layout \<Rightarrow> bool" where
  "logged s0 ts l \<longleftrightarrow> is_open (ly_sink l) \<and> settled (oe_width env) l
     \<and> (\<exists>out. sent (ly_sink l) = s0 @ out
          \<and> (\<forall>us. lay_out (oe_width env) (ts @ us) start_state
                = emitted out (lay_out (oe_width env) (ly_pending l @ us) (lay_state l))))"

definition legal :: "token list \<Rightarrow> bool" where
  "legal ts \<longleftrightarrow> (\<exists>us. lay_out (oe_width env) (ts @ us) start_state \<noteq> None)"

lemma not_legal: "\<not> legal ts \<Longrightarrow> lay_out (oe_width env) ts start_state = None"
  unfolding legal_def by (metis append_Nil2)

lemma legal_prefix: "legal (ts @ us) \<Longrightarrow> legal ts"
  unfolding legal_def by (metis append.assoc)

lemma logged_new: "is_open sink \<Longrightarrow> logged (sent sink) [] (new_layout sink)"
  by (simp add: logged_def new_layout_def settled_def lay_state_def start_state_def)

lemma layout_poll_open:
  assumes "logged s0 ts l"
  obtains l1 where "layout_poll env l = (Inr (), l1)" "logged s0 ts l1"
proof -
  obtain l1 where l1: "layout_emit env [] l = (EContinue, l1)" "wrote l [] (ly_column l) l1"
    using layout_emit_open [of l "[]"] assms by (auto simp: logged_def)
  show thesis
    by (rule that [of l1]) (use l1 assms in \<open>auto simp: layout_poll_def emit_answer_def logged_def wrote_def settled_def lay_state_def\<close>)
qed

text \<open>An operation on a layout: its tokens follow, or nothing could have followed them.\<close>

definition takes :: "ustr \<Rightarrow> token list \<Rightarrow> (print_error + unit) \<times> 's layout \<Rightarrow> bool" where
  "takes s0 ts r \<longleftrightarrow> (case r of (Inr _, l1) \<Rightarrow> logged s0 ts l1 | (Inl _, _) \<Rightarrow> \<not> legal ts)"

lemma takes_legal: "takes s0 ts r \<Longrightarrow> legal ts \<Longrightarrow> \<exists>l1. r = (Inr (), l1) \<and> logged s0 ts l1"
  by (cases r) (auto simp: takes_def split: sum.splits)

lemma push_polled_takes:
  assumes "logged s0 ts l"
  shows "takes s0 (ts @ [t]) (push_polled env t l)"
proof -
  let ?l = "l\<lparr>ly_pending := ly_pending l @ [t]\<rparr>"
  obtain out where out: "sent (ly_sink l) = s0 @ out"
      "\<And>us. lay_out (oe_width env) (ts @ us) start_state
            = emitted out (lay_out (oe_width env) (ly_pending l @ us) (lay_state l))"
    and o: "is_open (ly_sink ?l)"
    using assms by (auto simp: logged_def)
  have d: "drained ?l (drain env ?l)" by (rule drained_drain [OF o])
  obtain x l1 where r: "drain env ?l = (x, l1)" by fastforce
  have st: "lay_state ?l = lay_state l" by (simp add: lay_state_def)
  show ?thesis
  proof (cases x)
    case (Inr u)
    then obtain out1 where "sent (ly_sink l1) = sent (ly_sink ?l) @ out1"
        "\<And>us. lay_out (oe_width env) (ly_pending ?l @ us) (lay_state ?l)
            = emitted out1 (lay_out (oe_width env) (ly_pending l1 @ us) (lay_state l1))"
      "is_open (ly_sink l1)" "settled (oe_width env) l1"
      using d r by (auto simp: drained_def)
    with out(1) out(2) [of "t # us" for us] r Inr st show ?thesis
      by (auto simp: takes_def push_polled_def logged_def intro!: exI [of _ "out @ out1"])
  next
    case (Inl e)
    with d r st have "\<And>us. lay_out (oe_width env) (ly_pending l @ t # us) (lay_state l) = None" by (simp add: drained_def)
    with out(2) [of "t # us" for us] r Inl show ?thesis by (simp add: takes_def push_polled_def legal_def)
  qed
qed

lemma layout_push_takes:
  assumes "logged s0 ts l"
  shows "takes s0 (ts @ [t]) (layout_push env t l)"
proof -
  obtain l1 where "layout_poll env l = (Inr (), l1)" "logged s0 ts l1" using layout_poll_open [OF assms] by metis
  then show ?thesis by (simp add: layout_push_def push_polled_takes)
qed

lemma layout_text_takes:
  assumes "logged s0 ts l"
  shows "takes s0 (ts @ op_tokens (OpText s)) (layout_text env s l)"
proof -
  obtain l1 where l1: "layout_poll env l = (Inr (), l1)" "logged s0 ts l1" using layout_poll_open [OF assms] by metis
  show ?thesis
  proof (cases "s = []")
    case False
    show ?thesis
    proof (cases "ly_pending l1 = []")
      case True
      have "is_open (ly_sink l1)" using l1(2) by (simp add: logged_def)
      then obtain l2 where l2: "emit_text env s l1 = (Inr (), l2)" "wrote l1 s (sat_add64 (ly_column l1) (oe_width env s)) l2"
        using emit_text_open by metis
      obtain out where out: "sent (ly_sink l1) = s0 @ out"
          "\<And>us. lay_out (oe_width env) (ts @ us) start_state = emitted out (lay_out (oe_width env) us (lay_state l1))"
        using l1(2) True by (auto simp: logged_def)
      have "logged s0 (ts @ [TkText s]) l2"
        unfolding logged_def
        using l2(2) out(1) out(2) [of "TkText s # us" for us] True
        by (auto simp: wrote_def settled_def lay_state_def intro!: exI [of _ "out @ s"])
      with l1 l2 True False show ?thesis by (simp add: layout_text_def takes_def)
    next
      case pending: False
      with l1 False push_polled_takes [OF l1(2)] show ?thesis by (simp add: layout_text_def)
    qed
  qed (use l1 in \<open>simp add: layout_text_def takes_def\<close>)
qed

lemma apply_op_takes:
  "logged s0 ts l \<Longrightarrow> takes s0 (ts @ op_tokens op) (apply_op env op l)"
  using layout_push_takes layout_text_takes
  by (cases op) (simp_all add: apply_op_def begin_group_def end_group_def layout_line_def depth_kind_def)

lemma feed_takes: "logged s0 ts l \<Longrightarrow> takes s0 (ts @ concat (map op_tokens ops)) (feed env ops l)"
proof (induction ops arbitrary: ts l)
  case (Cons op ops)
  obtain x l1 where r: "apply_op env op l = (x, l1)" by fastforce
  note t = apply_op_takes [OF Cons(2), of op]
  show ?case
  proof (cases x)
    case (Inr u)
    with t r Cons(1) [of "ts @ op_tokens op" l1] show ?thesis by (simp add: takes_def)
  next
    case (Inl e)
    with t r legal_prefix [of "ts @ op_tokens op" "concat (map op_tokens ops)"] show ?thesis by (auto simp: takes_def)
  qed
qed (simp add: takes_def)

text \<open>At the end: a new line if every group is closed, a failure otherwise.\<close>

lemma layout_finish_logged:
  assumes "logged s0 ts l"
  obtains r l1 where "layout_finish env l = (r, l1)"
    "\<And>out col. lay_out (oe_width env) ts start_state = Some (out, [], 0, col)
       \<Longrightarrow> r = Inr () \<and> is_open (ly_sink l1) \<and> sent (ly_sink l1) = s0 @ out @ [ch_lf]"
    "r = Inr () \<Longrightarrow> \<exists>out col. lay_out (oe_width env) ts start_state = Some (out, [], 0, col)"
proof -
  obtain out where out: "sent (ly_sink l) = s0 @ out"
      "lay_out (oe_width env) ts start_state = emitted out (lay_out (oe_width env) (ly_pending l) (lay_state l))"
    and o: "is_open (ly_sink l)" and s: "settled (oe_width env) l"
    using assms by (fastforce simp: logged_def dest: spec [of _ "[]"])
  have d: "drain env l = (Inr (), l)"
    using s by (auto simp: settled_def drain_Nil drain_breakable)
  show thesis
  proof (cases "ly_pending l = [] \<and> ly_groups l = [] \<and> ly_forced l = 0")
    case True
    obtain l1 where l1: "emit_text env [ch_lf] l = (Inr (), l1)" "wrote l [ch_lf] (sat_add64 (ly_column l) (oe_width env [ch_lf])) l1"
      using emit_text_open [OF o] by metis
    obtain f sk where sk: "oe_flush env (ly_sink l1) = (f, sk)" by fastforce
    have "f = EContinue \<and> is_open sk \<and> sent sk = sent (ly_sink l1)"
      using flush_open [OF _ sk] l1(2) by (simp add: wrote_def)
    with True d l1 sk out show thesis
      by (intro that [of "Inr ()" "l1\<lparr>ly_sink := sk\<rparr>"])
         (auto simp: layout_finish_def layout_flush_def emit_answer_def wrote_def lay_state_def)
  next
    case False
    have "layout_finish env l = (Inl PeInvalidSequence, snd (layout_flush env l))"
      using False d by (auto simp: layout_finish_def)
    moreover have "lay_out (oe_width env) ts start_state \<noteq> Some (t, [], 0, col)" for t col
      using False out(2) settled_lay_out [OF s] by (auto simp: lay_state_def emitted_Some)
    ultimately show thesis using that by blast
  qed
qed

theorem stream_is_lay_out:
  assumes "is_open sink"
  obtains r l1 where "try_then (feed env ops (new_layout sink)) (\<lambda>_. layout_finish env) = (r, l1)"
    "\<And>out col. lay_out (oe_width env) (concat (map op_tokens ops)) start_state = Some (out, [], 0, col)
       \<Longrightarrow> r = Inr () \<and> sent (ly_sink l1) = sent sink @ out @ [ch_lf]"
    "r = Inr () \<Longrightarrow> \<exists>out col. lay_out (oe_width env) (concat (map op_tokens ops)) start_state = Some (out, [], 0, col)"
proof -
  obtain x l where f: "feed env ops (new_layout sink) = (x, l)" by fastforce
  have t: "takes (sent sink) (concat (map op_tokens ops)) (x, l)"
    using feed_takes [OF logged_new [OF assms], of ops] f by simp
  show thesis
  proof (cases x)
    case (Inr u)
    with t have "logged (sent sink) (concat (map op_tokens ops)) l" by (simp add: takes_def)
    then show thesis by (rule layout_finish_logged) (use that f Inr in auto)
  next
    case (Inl e)
    with t have "lay_out (oe_width env) (concat (map op_tokens ops)) start_state = None"
      by (simp add: takes_def not_legal)
    with f Inl that show thesis by simp
  qed
qed

text \<open>Whatever comes after, what has been written is a beginning of it.\<close>

theorem stream_writes_prefix:
  assumes "is_open sink" "feed env ops (new_layout sink) = (Inr (), l)"
    and "lay_out (oe_width env) (concat (map op_tokens ops) @ us) start_state = Some (out, st)"
  shows "\<exists>rest. sent sink @ out = sent (ly_sink l) @ rest"
  using feed_takes [OF logged_new [OF assms(1)], of ops] assms(2,3)
  by (auto simp: takes_def logged_def emitted_Some)

end

end
