(* ===== verification/Value_Document.thy ===== *)
theory Value_Document
  imports Value_Run
begin

text \<open>
  Documents: what the tokens of the layout stand for when their groups are closed.  A document is
  rendered by deciding each group once, by the width it has on one line; \<open>lay_out\<close> of the tokens of
  a document is its rendering, so by \<open>stream_is_lay_out\<close> the layout of the program prints it.
\<close>

section \<open>Documents and their rendering\<close>

datatype doc = DcText ustr | DcLine ustr nat | DcGroup group_kind "doc list"

text \<open>Where a document stands: outside every group, in a group that was decided, or in a group that
  is too deep to be broken.\<close>

datatype doc_mode = DmTop | DmFlat | DmBroken | DmForced

fun doc_tokens :: "doc \<Rightarrow> token list" and docs_tokens :: "doc list \<Rightarrow> token list" where
  "doc_tokens (DcText s) = (if s = [] then [] else [TkText s])"
| "doc_tokens (DcLine flat indent) = [TkLine flat indent]"
| "doc_tokens (DcGroup k ds) = TkBegin k # docs_tokens ds @ [TkEnd]"
| "docs_tokens [] = []"
| "docs_tokens (d # ds) = doc_tokens d @ docs_tokens ds"

text \<open>The width on one line.\<close>

fun flat_width :: "(ustr \<Rightarrow> nat) \<Rightarrow> doc \<Rightarrow> nat" and flat_widths :: "(ustr \<Rightarrow> nat) \<Rightarrow> doc list \<Rightarrow> nat" where
  "flat_width wd (DcText s) = (if s = [] then 0 else wd s)"
| "flat_width wd (DcLine flat indent) = wd flat"
| "flat_width wd (DcGroup k ds) = flat_widths wd ds"
| "flat_widths wd [] = 0"
| "flat_widths wd (d # ds) = flat_width wd d + flat_widths wd ds"

text \<open>The text on one line.\<close>

fun flat_text :: "doc \<Rightarrow> ustr" and flat_texts :: "doc list \<Rightarrow> ustr" where
  "flat_text (DcText s) = s"
| "flat_text (DcLine flat indent) = flat"
| "flat_text (DcGroup k ds) = flat_texts ds"
| "flat_texts [] = []"
| "flat_texts (d # ds) = flat_text d @ flat_texts ds"

definition inner_mode :: "(ustr \<Rightarrow> nat) \<Rightarrow> nat \<Rightarrow> group_kind \<Rightarrow> doc list \<Rightarrow> doc_mode" where
  "inner_mode wd col k ds = (if k = GkForcedFlat then DmForced
     else if flat_widths wd ds \<le> PRINT_WIDTH - col then DmFlat else DmBroken)"

text \<open>The text of a document that starts in a column, and the column it ends in.\<close>

fun render :: "(ustr \<Rightarrow> nat) \<Rightarrow> doc_mode \<Rightarrow> nat \<Rightarrow> doc \<Rightarrow> ustr \<times> nat"
  and renders :: "(ustr \<Rightarrow> nat) \<Rightarrow> doc_mode \<Rightarrow> nat \<Rightarrow> doc list \<Rightarrow> ustr \<times> nat" where
  "render wd m col (DcText s) = (s, if s = [] then col else sat_add64 col (wd s))"
| "render wd m col (DcLine flat indent) =
     (if m = DmBroken then (ch_lf # replicate indent ch_space, indent) else (flat, sat_add64 col (wd flat)))"
| "render wd m col (DcGroup k ds) = renders wd (inner_mode wd col k ds) col ds"
| "renders wd m col [] = ([], col)"
| "renders wd m col (d # ds) =
     (case render wd m col d of (s, col1) \<Rightarrow> case renders wd m col1 ds of (t, col2) \<Rightarrow> (s @ t, col2))"

text \<open>Well formed documents: lines only inside groups, no breakable group inside a forced one.\<close>

fun doc_ok :: "doc_mode \<Rightarrow> doc \<Rightarrow> bool" and docs_ok :: "doc_mode \<Rightarrow> doc list \<Rightarrow> bool" where
  "doc_ok m (DcText s) = True"
| "doc_ok m (DcLine flat indent) = (m \<noteq> DmTop)"
| "doc_ok m (DcGroup k ds) = (if k = GkForcedFlat then docs_ok DmForced ds else m \<noteq> DmForced \<and> docs_ok DmFlat ds)"
| "docs_ok m [] = True"
| "docs_ok m (d # ds) = (doc_ok m d \<and> docs_ok m ds)"

fun doc_depth :: "doc \<Rightarrow> nat" and docs_depth :: "doc list \<Rightarrow> nat" where
  "doc_depth (DcText s) = 0"
| "doc_depth (DcLine flat indent) = 0"
| "doc_depth (DcGroup k ds) = Suc (docs_depth ds)"
| "docs_depth [] = 0"
| "docs_depth (d # ds) = max (doc_depth d) (docs_depth ds)"

lemma docs_tokens_append [simp]: "docs_tokens (ds @ es) = docs_tokens ds @ docs_tokens es"
  by (induction ds) simp_all

lemma docs_ok_append [simp]: "docs_ok m (ds @ es) \<longleftrightarrow> docs_ok m ds \<and> docs_ok m es"
  by (induction ds) auto

lemma docs_depth_append [simp]: "docs_depth (ds @ es) = max (docs_depth ds) (docs_depth es)"
  by (induction ds) auto

lemma flat_texts_append [simp]: "flat_texts (ds @ es) = flat_texts ds @ flat_texts es"
  by (induction ds) simp_all

lemma renders_append:
  "renders wd m col (ds @ es)
     = (case renders wd m col ds of (s, col1) \<Rightarrow> case renders wd m col1 es of (t, col2) \<Rightarrow> (s @ t, col2))"
  by (induction ds arbitrary: col) (simp_all split: prod.split)

lemma flat_broken_ok: "docs_ok DmFlat ds = docs_ok DmBroken ds" "doc_ok DmFlat d = doc_ok DmBroken d"
proof -
  have "m = DmFlat \<Longrightarrow> doc_ok m d = doc_ok DmBroken d" "m = DmFlat \<Longrightarrow> docs_ok m ds = docs_ok DmBroken ds" for m
    by (induction m d and m ds rule: doc_ok_docs_ok.induct) auto
  then show "docs_ok DmFlat ds = docs_ok DmBroken ds" "doc_ok DmFlat d = doc_ok DmBroken d" by auto
qed

section \<open>Groups fit by the width of their text\<close>

lemma fits_loop_docs:
  assumes "remaining < u64_max"
  shows "width \<le> remaining \<Longrightarrow> fits_loop wd remaining (Suc n) width (doc_tokens d @ ts)
           = (if width + flat_width wd d \<le> remaining then fits_loop wd remaining (Suc n) (width + flat_width wd d) ts else FitNo)"
    and "width \<le> remaining \<Longrightarrow> fits_loop wd remaining (Suc n) width (docs_tokens ds @ ts)
           = (if width + flat_widths wd ds \<le> remaining then fits_loop wd remaining (Suc n) (width + flat_widths wd ds) ts else FitNo)"
proof (induction d and ds arbitrary: n width ts and n width ts rule: doc_tokens_docs_tokens.induct)
  case (1 s)
  then show ?case using sat_add64_gt_iff [OF assms, of width "wd s"] assms by (auto simp: sat_add64_def min_def Let_def not_less)
next
  case (2 flat indent)
  then show ?case using sat_add64_gt_iff [OF assms, of width "wd flat"] assms by (auto simp: sat_add64_def min_def Let_def not_less)
qed (auto simp: Let_def add.assoc)

lemma group_fits_docs:
  "group_fits wd (TkBegin k # docs_tokens ds @ TkEnd # ts) (PRINT_WIDTH - col)
     = (if flat_widths wd ds \<le> PRINT_WIDTH - col then FitYes else FitNo)"
proof -
  have "PRINT_WIDTH - col < u64_max" by (simp add: PRINT_WIDTH_def u64_max_def)
  then show ?thesis using fits_loop_docs(2) [of "PRINT_WIDTH - col" 0 wd 0 ds] by (simp add: group_fits_def Let_def)
qed

section \<open>The tokens of a document are laid out as its rendering\<close>

definition mode_state :: "doc_mode \<Rightarrow> group_mode list \<Rightarrow> nat \<Rightarrow> bool" where
  "mode_state m gs forced \<longleftrightarrow> (case m of
     DmTop \<Rightarrow> gs = [] \<and> forced = 0
   | DmFlat \<Rightarrow> gs \<noteq> [] \<and> hd gs = GmFlat \<and> forced = 0
   | DmBroken \<Rightarrow> gs \<noteq> [] \<and> hd gs = GmBroken \<and> forced = 0
   | DmForced \<Rightarrow> forced \<noteq> 0)"

lemma lay_out_docs:
  shows "mode_state m gs forced \<Longrightarrow> doc_ok m d \<Longrightarrow> forced + doc_depth d \<le> u64_max
      \<Longrightarrow> lay_out wd (doc_tokens d @ ts) (gs, forced, col)
        = emitted (fst (render wd m col d)) (lay_out wd ts (gs, forced, snd (render wd m col d)))"
    and "mode_state m gs forced \<Longrightarrow> docs_ok m ds \<Longrightarrow> forced + docs_depth ds \<le> u64_max
      \<Longrightarrow> lay_out wd (docs_tokens ds @ ts) (gs, forced, col)
        = emitted (fst (renders wd m col ds)) (lay_out wd ts (gs, forced, snd (renders wd m col ds)))"
proof (induction d and ds arbitrary: m gs forced col ts and m gs forced col ts rule: doc_tokens_docs_tokens.induct)
  case (2 flat indent)
  then show ?case by (cases m) (auto simp: mode_state_def)
next
  case (3 k ds)
  show ?case
  proof (cases k)
    case GkBreakable
    let ?m = "inner_mode wd col k ds"
    let ?g = "if ?m = DmFlat then GmFlat else GmBroken"
    have m: "m \<noteq> DmForced" "docs_ok DmFlat ds" using 3(3) GkBreakable by simp_all
    then have f: "forced = 0" using 3(2) by (cases m) (auto simp: mode_state_def)
    have im: "?m = DmFlat \<or> ?m = DmBroken" using GkBreakable by (simp add: inner_mode_def)
    then have ok: "docs_ok ?m ds" "mode_state ?m (?g # gs) forced"
      using m(2) flat_broken_ok(1) f by (auto simp: mode_state_def)
    have fit: "lay_out wd (TkBegin k # docs_tokens ds @ TkEnd # ts) (gs, forced, col)
        = lay_out wd (docs_tokens ds @ TkEnd # ts) (?g # gs, forced, col)"
      using GkBreakable by (simp add: group_fits_docs inner_mode_def)
    have "forced + docs_depth ds \<le> u64_max" using 3(4) by simp
    from 3(1) [OF ok(2,1) this] f show ?thesis using fit by simp
  next
    case GkForcedFlat
    have "mode_state DmForced gs (forced + 1)" "docs_ok DmForced ds" "(forced + 1) + docs_depth ds \<le> u64_max" "forced \<noteq> u64_max"
      using 3(3,4) GkForcedFlat by (auto simp: mode_state_def)
    with 3(1) [OF this(1,2,3)] GkForcedFlat show ?thesis by (simp add: inner_mode_def)
  qed
next
  case (5 d ds)
  have "forced + doc_depth d \<le> u64_max" "forced + docs_depth ds \<le> u64_max" using 5(5) by simp_all
  with 5(1) [OF 5(3)] 5(2) [OF 5(3)] 5(4) show ?case by (simp add: case_prod_beta)
qed auto

lemma lay_out_top:
  assumes "docs_ok DmTop ds" "docs_depth ds \<le> u64_max"
  shows "lay_out wd (docs_tokens ds) start_state = Some (fst (renders wd DmTop 0 ds), [], 0, snd (renders wd DmTop 0 ds))"
  using lay_out_docs(2) [of DmTop "[]" 0 ds wd "[]" 0] assms by (simp add: mode_state_def start_state_def)

section \<open>On one line\<close>

text \<open>Where a group is flat so is everything in it.\<close>

lemma print_width_u64: "n \<le> PRINT_WIDTH \<Longrightarrow> n \<le> u64_max"
  by (simp add: PRINT_WIDTH_def u64_max_def)

lemma render_flat:
  shows "m = DmFlat \<or> m = DmForced \<Longrightarrow> doc_ok m d \<Longrightarrow> (m = DmFlat \<Longrightarrow> col + flat_width wd d \<le> PRINT_WIDTH)
     \<Longrightarrow> fst (render wd m col d) = flat_text d
       \<and> (col + flat_width wd d \<le> PRINT_WIDTH \<longrightarrow> snd (render wd m col d) = col + flat_width wd d)"
    and "m = DmFlat \<or> m = DmForced \<Longrightarrow> docs_ok m ds \<Longrightarrow> (m = DmFlat \<Longrightarrow> col + flat_widths wd ds \<le> PRINT_WIDTH)
     \<Longrightarrow> fst (renders wd m col ds) = flat_texts ds
       \<and> (col + flat_widths wd ds \<le> PRINT_WIDTH \<longrightarrow> snd (renders wd m col ds) = col + flat_widths wd ds)"
proof (induction d and ds arbitrary: m col and m col rule: doc_tokens_docs_tokens.induct)
  case (1 s)
  then show ?case by (auto simp: sat_add64_def dest: print_width_u64)
next
  case (2 flat indent)
  then show ?case by (auto simp: sat_add64_def dest: print_width_u64)
next
  case (3 k ds)
  have "inner_mode wd col k ds = DmFlat \<or> inner_mode wd col k ds = DmForced" "docs_ok (inner_mode wd col k ds) ds"
    "inner_mode wd col k ds = DmFlat \<Longrightarrow> col + flat_widths wd ds \<le> PRINT_WIDTH"
    using 3(2-4) by (auto simp: inner_mode_def split: if_splits)
  from 3(1) [OF this] show ?case by simp
next
  case (5 d ds)
  have ok: "doc_ok m d" "docs_ok m ds" using 5(4) by simp_all
  have w: "m = DmFlat \<Longrightarrow> col + flat_width wd d \<le> PRINT_WIDTH" using 5(5) by simp
  obtain s col1 where r: "render wd m col d = (s, col1)" by fastforce
  have d: "s = flat_text d" "col + flat_width wd d \<le> PRINT_WIDTH \<Longrightarrow> col1 = col + flat_width wd d"
    using 5(1) [OF 5(3) ok(1) w] r by auto
  have w2: "m = DmFlat \<Longrightarrow> col1 + flat_widths wd ds \<le> PRINT_WIDTH" using 5(5) d(2) w by simp
  show ?case
    using 5(2) [OF 5(3) ok(2) w2] r d by (auto simp: case_prod_beta)
qed simp

end
