(* ===== verification/Value_Real.thy ===== *)
theory Value_Real
  imports Lisp_Grammar "HOL-Library.Sublist"
begin

text \<open>
  How a real number is printed, \<open>format_autolisp_real\<close> and \<open>trim_fraction\<close> of
  \<open>crates/plugin/src/exec/value/printer.rs\<close>.  An \<open>f64\<close> is its bit pattern; its value is an exact
  fraction, from which the library's \<open>{:.5e}\<close> takes six significant digits, rounded half to even.
  The lemmas show that what is printed is a decimal token of the scanner.
\<close>

section \<open>Floating point numbers\<close>

type_synonym float64 = "64 word"

definition f64_negative :: "float64 \<Rightarrow> bool" where
  "f64_negative v \<longleftrightarrow> 2 ^ 63 \<le> unat v"

definition f64_exponent :: "float64 \<Rightarrow> nat" where
  "f64_exponent v = unat v div 2 ^ 52 mod 2 ^ 11"

definition f64_fraction :: "float64 \<Rightarrow> nat" where
  "f64_fraction v = unat v mod 2 ^ 52"

definition is_finite :: "float64 \<Rightarrow> bool" where
  "is_finite v \<longleftrightarrow> f64_exponent v \<noteq> 2047"

definition f64_is_zero :: "float64 \<Rightarrow> bool" where
  "f64_is_zero v \<longleftrightarrow> f64_exponent v = 0 \<and> f64_fraction v = 0"

text \<open>The magnitude as a fraction.\<close>

definition f64_ratio :: "float64 \<Rightarrow> nat \<times> nat" where
  "f64_ratio v =
     (let e = f64_exponent v; m = f64_fraction v in
      if e = 0 then (m, 2 ^ 1074)
      else if 1075 \<le> e then ((2 ^ 52 + m) * 2 ^ (e - 1075), 1)
      else (2 ^ 52 + m, 2 ^ (1075 - e)))"

section \<open>Scientific notation with five decimals\<close>

text \<open>How often \<open>b\<close> can be multiplied by ten and stay at most \<open>a\<close>, and how often \<open>a\<close> has to be until it
  is at least \<open>b\<close>.\<close>

function powers_below :: "nat \<Rightarrow> nat \<Rightarrow> nat" where
  "powers_below a b = (if 0 < b \<and> 10 * b \<le> a then Suc (powers_below a (10 * b)) else 0)"
  by pat_completeness auto
termination by (relation "measure (\<lambda>(a, b). a - b)") auto

function powers_missing :: "nat \<Rightarrow> nat \<Rightarrow> nat" where
  "powers_missing a b = (if 0 < a \<and> a < b then Suc (powers_missing (10 * a) b) else 0)"
  by pat_completeness auto
termination by (relation "measure (\<lambda>(a, b). b - a)") auto

declare powers_below.simps [simp del] powers_missing.simps [simp del]

definition round_half_even :: "nat \<Rightarrow> nat \<Rightarrow> nat" where
  "round_half_even a b =
     (let q = a div b; r = a mod b in if b < 2 * r \<or> (2 * r = b \<and> odd q) then q + 1 else q)"

text \<open>Six significant digits, as a number, and the exponent.\<close>

definition scientific_digits :: "nat \<Rightarrow> nat \<Rightarrow> nat \<times> int" where
  "scientific_digits a b =
     (let up = powers_below a b; down = powers_missing a b;
          k = int up - int down;
          q = round_half_even (a * 10 ^ down * 10 ^ 5) (b * 10 ^ up)
      in if q = 10 ^ 6 then (10 ^ 5, k + 1) else (q, k))"

text \<open>\<open>format!("{value:.5e}")\<close> split at the \<open>e\<close>, with the exponent read back.\<close>

definition scientific_parts :: "float64 \<Rightarrow> ustr \<times> int" where
  "scientific_parts v =
     (case f64_ratio v of (a, b) \<Rightarrow> case scientific_digits a b of (q, k) \<Rightarrow>
        ((if f64_negative v then [ch_minus] else []) @ take 1 (dec_nat q) @ [ch_dot] @ drop 1 (dec_nat q), k))"

section \<open>Printing\<close>

text \<open>\<open>while value.ends_with('0') && !value.ends_with(".0") { value.pop(); }\<close>\<close>

function trim_fraction :: "ustr \<Rightarrow> ustr" where
  "trim_fraction s =
     (if s \<noteq> [] \<and> last s = 48 \<and> \<not> suffix [ch_dot, 48] s then trim_fraction (butlast s) else s)"
  by pat_completeness auto
termination by (relation "measure length") auto

declare trim_fraction.simps [simp del]

text \<open>The fixed notation, for exponents from -4 to 5.\<close>

definition fixed_real :: "bool \<Rightarrow> ustr \<Rightarrow> int \<Rightarrow> ustr" where
  "fixed_real negative digits exponent1 =
     (let decimal = exponent1 + 1; sign = (if negative then [ch_minus] else []) in
      if decimal \<le> 0 then
        trim_fraction (sign @ [48, ch_dot] @ replicate (nat (- decimal)) 48 @ digits)
      else if length digits \<le> nat decimal then
        sign @ digits @ replicate (nat decimal - length digits) 48 @ [ch_dot, 48]
      else trim_fraction (sign @ take (nat decimal) digits @ [ch_dot] @ drop (nat decimal) digits))"

definition scientific_real :: "ustr \<Rightarrow> int \<Rightarrow> ustr" where
  "scientific_real mantissa exponent1 =
     (let magnitude = nat \<bar>exponent1\<bar> in
      trim_fraction mantissa @ [101] @ (if 0 \<le> exponent1 then [ch_plus] else [ch_minus])
        @ (if magnitude < 10 then [48] else []) @ dec_nat magnitude)"

definition format_autolisp_real :: "float64 \<Rightarrow> ustr option" where
  "format_autolisp_real v =
     (if \<not> is_finite v then None
      else if f64_is_zero v then Some (lit ''0.0'')
      else
        (case scientific_parts v of (mantissa, exponent1) \<Rightarrow>
           let negative = take 1 mantissa = [ch_minus]; digits = filter is_ascii_digit mantissa in
           if -4 \<le> exponent1 \<and> exponent1 < 6 then Some (fixed_real negative digits exponent1)
           else Some (scientific_real mantissa exponent1)))"

section \<open>What is printed is a decimal\<close>

text \<open>An optional sign, digits, a period, digits and perhaps an exponent.\<close>

definition real_text :: "ustr \<Rightarrow> bool" where
  "real_text s \<longleftrightarrow> (\<exists>sg ds fs ex. s = sg @ ds @ ch_dot # fs @ ex \<and> sg \<in> {[], [ch_minus]} \<and> ds \<noteq> []
     \<and> list_all is_ascii_digit (ds @ fs)
     \<and> (ex = [] \<or> (\<exists>es xs. ex = 101 # es @ xs \<and> es \<in> {[ch_plus], [ch_minus]} \<and> xs \<noteq> [] \<and> list_all is_ascii_digit xs)))"

lemma real_textI:
  "sg \<in> {[], [ch_minus]} \<Longrightarrow> ds \<noteq> [] \<Longrightarrow> list_all is_ascii_digit (ds @ fs) \<Longrightarrow> real_text (sg @ ds @ ch_dot # fs)"
  unfolding real_text_def by (intro exI [of _ sg] exI [of _ ds] exI [of _ fs] exI [of _ "[]"]) simp

lemma real_text_exponentI:
  assumes "sg \<in> {[], [ch_minus]}" "ds \<noteq> []" "list_all is_ascii_digit (ds @ fs)"
    and "es \<in> {[ch_plus], [ch_minus]}" "xs \<noteq> []" "list_all is_ascii_digit xs"
  shows "real_text (sg @ ds @ ch_dot # fs @ 101 # es @ xs)"
  unfolding real_text_def
  using assms by (intro exI [of _ sg] exI [of _ ds] exI [of _ fs] exI [of _ "101 # es @ xs"]) auto

lemma trim_fraction_keeps:
  "list_all is_ascii_digit fs
     \<Longrightarrow> \<exists>gs. trim_fraction (p @ ch_dot # fs) = p @ ch_dot # gs \<and> list_all is_ascii_digit gs"
proof (induction fs rule: rev_induct)
  case Nil
  then show ?case by (subst trim_fraction.simps) simp
next
  case (snoc c fs)
  have "butlast (p @ ch_dot # fs @ [c]) = p @ ch_dot # fs" by (simp add: butlast_append)
  with snoc show ?case by (subst trim_fraction.simps) auto
qed

lemma digit_48 [simp]: "is_ascii_digit 48"
  by (simp add: is_ascii_digit_def)

lemma digits_dec_nat: "list_all is_ascii_digit (dec_nat n)"
  using dec_nat_digits by (simp add: list_all_iff)

lemma list_all_take_drop: "list_all P xs \<Longrightarrow> list_all P (take n xs) \<and> list_all P (drop n xs)"
  by (simp add: list_all_iff) (meson in_set_dropD in_set_takeD)

lemma fixed_real_text:
  assumes ds: "ds \<noteq> []" "list_all is_ascii_digit ds"
  shows "real_text (fixed_real negative ds k)"
proof -
  let ?sg = "if negative then [ch_minus] else []"
  have sg: "?sg \<in> {[], [ch_minus]}" by simp
  have trim: "real_text (trim_fraction (?sg @ a @ ch_dot # b))" if "a \<noteq> []" "list_all is_ascii_digit (a @ b)" for a b
    using trim_fraction_keeps [of b "?sg @ a"] that real_textI [OF sg that(1)] by auto
  consider "k + 1 \<le> 0" | "0 < k + 1" "length ds \<le> nat (k + 1)" | "0 < k + 1" "nat (k + 1) < length ds" by linarith
  then show ?thesis
  proof cases
    case 1
    have "list_all is_ascii_digit ([48] @ replicate (nat (- (k + 1))) 48 @ ds)" using ds(2) by (auto simp: list_all_iff)
    from trim [OF _ this] 1 show ?thesis by (simp add: fixed_real_def)
  next
    case 2
    have "list_all is_ascii_digit ((ds @ replicate (nat (k + 1) - length ds) 48) @ [48])"
      using ds(2) by (auto simp: list_all_iff)
    from real_textI [OF sg _ this] ds(1) 2 show ?thesis by (simp add: fixed_real_def)
  next
    case 3
    then have "take (nat (k + 1)) ds \<noteq> []" using ds by simp
    then have "real_text (trim_fraction (?sg @ take (nat (k + 1)) ds @ ch_dot # drop (nat (k + 1)) ds))"
      by (rule trim) (use ds(2) in simp)
    with 3 show ?thesis by (cases negative) (simp_all add: fixed_real_def Let_def)
  qed
qed

lemma scientific_real_text:
  assumes "sg \<in> {[], [ch_minus]}" "ds \<noteq> []" "list_all is_ascii_digit (ds @ fs)"
  shows "real_text (scientific_real (sg @ ds @ ch_dot # fs) k)"
proof -
  obtain gs where "trim_fraction ((sg @ ds) @ ch_dot # fs) = (sg @ ds) @ ch_dot # gs" "list_all is_ascii_digit gs"
    using trim_fraction_keeps [of fs "sg @ ds"] assms(3) by auto
  then show ?thesis
    using real_text_exponentI [OF assms(1,2), of gs "if 0 \<le> k then [ch_plus] else [ch_minus]"
        "(if nat \<bar>k\<bar> < 10 then [48] else []) @ dec_nat (nat \<bar>k\<bar>)"] assms(3) digits_dec_nat
    by (simp add: scientific_real_def Let_def)
qed

lemma format_autolisp_real_text:
  assumes "format_autolisp_real v = Some s"
  shows "real_text s"
proof (cases "f64_is_zero v")
  case True
  with assms have s: "s = [48, ch_dot, 48]" by (simp add: format_autolisp_real_def lit_def split: if_splits)
  show ?thesis using real_textI [of "[]" "[48]" "[48]"] unfolding s by simp
next
  case False
  obtain a b where ab: "f64_ratio v = (a, b)" by (cases "f64_ratio v")
  obtain q k where qk: "scientific_digits a b = (q, k)" by (cases "scientific_digits a b")
  let ?sg = "if f64_negative v then [ch_minus] else []"
  let ?d = "take 1 (dec_nat q)" and ?f = "drop 1 (dec_nat q)"
  have d: "?d \<noteq> []" "list_all is_ascii_digit (?d @ ?f)" "list_all is_ascii_digit ?f" "list_all is_ascii_digit ?d"
    using digits_dec_nat [of q] list_all_take_drop [OF digits_dec_nat, of 1 q] by simp_all
  have p: "scientific_parts v = (?sg @ ?d @ ch_dot # ?f, k)" by (simp add: scientific_parts_def ab qk)
  have nd: "\<not> is_ascii_digit ch_minus" "\<not> is_ascii_digit ch_dot" by (simp_all add: is_ascii_digit_def)
  have "filter is_ascii_digit ?d @ filter is_ascii_digit ?f = dec_nat q"
    using digits_dec_nat [of q] by (metis append_take_drop_id filter_append filter_id_conv list_all_iff)
  then have f: "filter is_ascii_digit (?sg @ ?d @ ch_dot # ?f) = dec_nat q" using nd by simp
  from assms False consider "s = fixed_real (take 1 (?sg @ ?d @ ch_dot # ?f) = [ch_minus]) (dec_nat q) k"
    | "s = scientific_real (?sg @ ?d @ ch_dot # ?f) k"
    unfolding format_autolisp_real_def p by (auto simp only: f prod.case Let_def option.inject split: if_splits)
  then show ?thesis
  proof cases
    case 1
    then show ?thesis using fixed_real_text digits_dec_nat by simp
  next
    case 2
    then show ?thesis using scientific_real_text [of ?sg ?d ?f k] d by simp
  qed
qed

lemma as_bytes_ascii: "\<forall>c\<in>set s. c < 128 \<Longrightarrow> as_bytes s = map of_nat s"
  by (induction s) (simp_all add: encode_char_def)

lemma digit_byte: "is_ascii_digit c \<Longrightarrow> byte_is_digit (of_nat c)"
  unfolding is_ascii_digit_def byte_is_digit_def by (simp add: word_le_nat_alt unat_of_nat take_bit_nat_eq_self)

lemma real_text_ascii: "real_text s \<Longrightarrow> c \<in> set s \<Longrightarrow> is_ascii_digit c \<or> c \<in> {ch_plus, ch_minus, ch_dot, 101}"
  by (auto simp: real_text_def list_all_iff)

lemma real_text_decimal:
  assumes "real_text s"
  shows "is_decimal s"
proof -
  obtain sg ds fs ex where s: "s = sg @ ds @ ch_dot # fs @ ex" "sg \<in> {[], [ch_minus]}" "ds \<noteq> []"
    "list_all is_ascii_digit (ds @ fs)"
    and ex: "ex = [] \<or> (\<exists>es xs. ex = 101 # es @ xs \<and> es \<in> {[ch_plus], [ch_minus]} \<and> xs \<noteq> [] \<and> list_all is_ascii_digit xs)"
    using assms unfolding real_text_def by blast
  let ?b = "map of_nat :: ustr \<Rightarrow> byte list"
  have "c < 128" if "c \<in> set s" for c
    using real_text_ascii [OF assms that] by (auto simp: is_ascii_digit_def)
  then have "as_bytes s = ?b s" by (intro as_bytes_ascii ballI)
  then have "as_bytes s = ?b sg @ ?b ds @ 46 # ?b fs @ ?b ex" by (simp add: s(1))
  moreover have "?b sg \<in> {[], [43], [45]}" using s(2) by auto
  moreover have "decimal_exponent (?b ex)"
    using ex
  proof
    assume "\<exists>es xs. ex = 101 # es @ xs \<and> es \<in> {[ch_plus], [ch_minus]} \<and> xs \<noteq> [] \<and> list_all is_ascii_digit xs"
    then obtain es xs where e: "ex = 101 # es @ xs" "es \<in> {[ch_plus], [ch_minus]}" "xs \<noteq> []" "list_all is_ascii_digit xs"
      by blast
    have "?b ex = 101 # ?b es @ ?b xs" "?b es \<in> {[], [43], [45]}" "?b xs \<noteq> []" "\<forall>d\<in>set (?b xs). byte_is_digit d"
      using e by (auto simp: list_all_iff digit_byte)
    then show ?thesis unfolding decimal_exponent_def
      by (intro disjI2 exI [of _ 101] exI [of _ "?b es"] exI [of _ "?b xs"]) simp
  qed (simp add: decimal_exponent_def)
  moreover have "?b ds \<noteq> []" "\<forall>d\<in>set (?b ds). byte_is_digit d" "\<forall>d\<in>set (?b fs). byte_is_digit d"
    using s(3,4) by (auto simp: list_all_iff digit_byte)
  ultimately show ?thesis unfolding is_decimal_iff decimal_bytes_def
    by (intro exI [of _ "?b sg"] exI [of _ "?b ds"] exI [of _ "?b fs"] exI [of _ "?b ex"] conjI)
qed

end
