(* ===== verification/Value_Printer.thy ===== *)
theory Value_Printer
  imports Value_Layout Value_Real Ids
begin

text \<open>
  The printer of AutoLISP values, \<open>crates/plugin/src/exec/value/printer.rs\<close>: events in, text out
  through the layout.  The stack of open lists has its innermost list first.  After an error the
  caller drops the printer, so only the error of a failed operation matters.
\<close>

section \<open>Data\<close>

definition MAX_VALUE_DEPTH :: nat where "MAX_VALUE_DEPTH = 64 * 1024"
definition MAX_VALUE_TEXT_BYTES :: nat where "MAX_VALUE_TEXT_BYTES = OUTPUT_CHUNK_BYTES"
definition MAX_ENTITY_HANDLE_BYTES :: nat where "MAX_ENTITY_HANDLE_BYTES = 32"
definition MAX_OBJECT_LABEL_BYTES :: nat where "MAX_OBJECT_LABEL_BYTES = 128"

datatype list_state = LsEmpty | LsValues | LsAwaitingTail | LsComplete

datatype number_state =
  NsStart | NsSignOnly | NsIntegerDigits | NsExponentMarker | NsExponentSign | NsExponentDigits | NsOther

datatype nil_state = NlStart | NlN | NlNi | NlNil | NlOther

record symbol_state =
  ss_number :: number_state
  ss_nil :: nil_state

datatype atom_state = AsNone | AsString | AsSymbol symbol_state

datatype opaque_kind =
  OkEntity | OkSelectionSet | OkVlaObject | OkFile | OkFunction | OkError | OkObject | OkCycle | OkTooDeep

record 's printer =
  pr_layout :: "'s layout"
  pr_lists :: "list_state list"
  pr_atom :: atom_state
  pr_skipped :: nat
  pr_roots :: nat

section \<open>Characters\<close>

definition number_advance :: "number_state \<Rightarrow> uchar \<Rightarrow> number_state" where
  "number_advance st ch =
     (if st = NsStart \<and> ch \<in> {ch_plus, ch_minus} then NsSignOnly
      else if st \<in> {NsStart, NsSignOnly} \<and> is_ascii_digit ch then NsIntegerDigits
      else if st = NsIntegerDigits \<and> is_ascii_digit ch then NsIntegerDigits
      else if st = NsIntegerDigits \<and> ch \<in> {101, 69} then NsExponentMarker
      else if st = NsExponentMarker \<and> ch \<in> {ch_plus, ch_minus} then NsExponentSign
      else if st \<in> {NsExponentMarker, NsExponentSign} \<and> is_ascii_digit ch then NsExponentDigits
      else if st = NsExponentDigits \<and> is_ascii_digit ch then NsExponentDigits
      else NsOther)"

definition nil_advance :: "nil_state \<Rightarrow> uchar \<Rightarrow> nil_state" where
  "nil_advance st ch =
     (if st = NlStart \<and> to_ascii_uppercase ch = 78 then NlN
      else if st = NlN \<and> to_ascii_uppercase ch = 73 then NlNi
      else if st = NlNi \<and> to_ascii_uppercase ch = 76 then NlNil
      else NlOther)"

definition symbol_new :: symbol_state where
  "symbol_new = \<lparr>ss_number = NsStart, ss_nil = NlStart\<rparr>"

definition symbol_is_empty :: "symbol_state \<Rightarrow> bool" where
  "symbol_is_empty st \<longleftrightarrow> ss_number st = NsStart"

definition symbol_is_valid :: "symbol_state \<Rightarrow> bool" where
  "symbol_is_valid st \<longleftrightarrow> ss_number st \<notin> {NsStart, NsIntegerDigits, NsExponentDigits} \<and> ss_nil st \<noteq> NlNil"

definition symbol_push :: "ustr \<Rightarrow> symbol_state \<Rightarrow> symbol_state" where
  "symbol_push s st = fold (\<lambda>ch st. \<lparr>ss_number = number_advance (ss_number st) ch, ss_nil = nil_advance (ss_nil st) ch\<rparr>) s st"

definition valid_symbol_character :: "uchar \<Rightarrow> bool" where
  "valid_symbol_character ch \<longleftrightarrow> \<not> is_control ch \<and> \<not> is_whitespace ch
     \<and> ch \<notin> {ch_lparen, ch_rparen, ch_dquote, ch_semi, ch_quote, ch_dot}"

definition requires_readable_escape :: "uchar \<Rightarrow> bool" where
  "requires_readable_escape ch \<longleftrightarrow> ch \<in> {ch_dquote, ch_bslash, ch_esc, ch_lf, ch_cr, ch_tab} \<or> is_control ch"

definition valid_label :: "ustr \<Rightarrow> nat \<Rightarrow> bool" where
  "valid_label s max_bytes \<longleftrightarrow> s \<noteq> [] \<and> byte_len s \<le> max_bytes
     \<and> (\<forall>ch\<in>set s. \<not> is_control ch \<and> \<not> is_whitespace ch \<and> ch \<notin> {60, 62, 64, ch_dquote, ch_bslash})"

definition opaque_name :: "opaque_kind \<Rightarrow> ustr" where
  "opaque_name k = (case k of
     OkEntity \<Rightarrow> lit ''Entity'' | OkSelectionSet \<Rightarrow> lit ''SelectionSet'' | OkVlaObject \<Rightarrow> lit ''VlaObject''
   | OkFile \<Rightarrow> lit ''File'' | OkFunction \<Rightarrow> lit ''Function'' | OkError \<Rightarrow> lit ''Error''
   | OkObject \<Rightarrow> lit ''Object'' | OkCycle \<Rightarrow> lit ''Cycle'' | OkTooDeep \<Rightarrow> lit ''TooDeep'')"

text \<open>What a character of a string is printed as.\<close>

definition escape_char :: "uchar \<Rightarrow> ustr" where
  "escape_char ch =
     (if ch = ch_dquote then [ch_bslash, ch_dquote]
      else if ch = ch_bslash then [ch_bslash, ch_bslash]
      else if ch = ch_esc then [ch_bslash, 101]
      else if ch = ch_lf then [ch_bslash, 110]
      else if ch = ch_cr then [ch_bslash, 114]
      else if ch = ch_tab then [ch_bslash, 116]
      else if is_control ch then [ch_bslash, 48 + ch div 64 mod 8, 48 + ch div 8 mod 8, 48 + ch mod 8]
      else [ch])"

text \<open>\<open>str::split_inclusive\<close>.\<close>

fun split_inclusive :: "uchar \<Rightarrow> ustr \<Rightarrow> ustr list" where
  "split_inclusive sep [] = []"
| "split_inclusive sep (ch # s) =
     (if ch = sep then [ch] # split_inclusive sep s
      else (case split_inclusive sep s of [] \<Rightarrow> [[ch]] | f # fs \<Rightarrow> (ch # f) # fs))"

section \<open>Writing\<close>

definition on_layout :: "('s layout \<Rightarrow> ('e + 'a) \<times> 's layout) \<Rightarrow> 's printer \<Rightarrow> ('e + 'a) \<times> 's printer" where
  "on_layout f p = (case f (pr_layout p) of (r, l) \<Rightarrow> (r, p\<lparr>pr_layout := l\<rparr>))"

type_synonym 's print_step = "'s printer \<Rightarrow> (print_error + unit) \<times> 's printer"

definition print_write :: "'s output_env \<Rightarrow> ustr \<Rightarrow> 's print_step" where
  "print_write env s = on_layout (layout_text env s)"

definition poll_output :: "'s output_env \<Rightarrow> 's print_step" where
  "poll_output env = on_layout (layout_poll env)"

definition require_no_atom :: "'s print_step" where
  "require_no_atom p = (if pr_atom p = AsNone then Inr () else Inl PeInvalidSequence, p)"

definition before_value :: "'s output_env \<Rightarrow> 's print_step" where
  "before_value env p = (case pr_lists p of
     [] \<Rightarrow> if pr_roots p = u64_max then (Inl PeLimitExceeded, p) else (Inr (), p\<lparr>pr_roots := pr_roots p + 1\<rparr>)
   | LsEmpty # rest \<Rightarrow> on_layout (layout_line env [] (length (pr_lists p))) (p\<lparr>pr_lists := LsValues # rest\<rparr>)
   | LsValues # rest \<Rightarrow> on_layout (layout_line env [ch_space] (length (pr_lists p))) p
   | LsAwaitingTail # rest \<Rightarrow>
       on_layout (layout_line env [ch_space] (length (pr_lists p))) (p\<lparr>pr_lists := LsComplete # rest\<rparr>)
   | LsComplete # rest \<Rightarrow> (Inl PeInvalidSequence, p))"

definition before_symbol_value :: "'s output_env \<Rightarrow> 's print_step" where
  "before_symbol_value env p = (case pr_lists p of
     LsEmpty # rest \<Rightarrow> (Inr (), p\<lparr>pr_lists := LsValues # rest\<rparr>) | _ \<Rightarrow> before_value env p)"

definition append_bounded :: "'s output_env \<Rightarrow> ustr \<Rightarrow> ustr \<Rightarrow> 's printer \<Rightarrow> (print_error + ustr) \<times> 's printer" where
  "append_bounded env buffer s p =
     (if byte_len buffer + byte_len s > OUTPUT_CHUNK_BYTES
      then try_then (print_write env buffer p) (\<lambda>_ p1. (Inr s, p1))
      else (Inr (buffer @ s), p))"

fun escape_loop :: "'s output_env \<Rightarrow> ustr \<Rightarrow> ustr \<Rightarrow> 's print_step" where
  "escape_loop env buffer [] p = print_write env buffer p"
| "escape_loop env buffer (ch # s) p =
     try_then (append_bounded env buffer (escape_char ch) p) (\<lambda>buffer1. escape_loop env buffer1 s)"

fun symbol_loop :: "'s output_env \<Rightarrow> ustr \<Rightarrow> ustr list \<Rightarrow> 's print_step" where
  "symbol_loop env buffer [] p = print_write env buffer p"
| "symbol_loop env buffer (f # fs) p =
     (if f \<noteq> [] \<and> last f = ch_bslash then
        try_then (append_bounded env buffer (butlast f) p) (\<lambda>buffer1 p1.
        try_then (append_bounded env buffer1 [ch_bslash, ch_bslash] p1) (\<lambda>buffer2. symbol_loop env buffer2 fs))
      else try_then (append_bounded env buffer f p) (\<lambda>buffer1. symbol_loop env buffer1 fs))"

definition write_symbol_chunk :: "'s output_env \<Rightarrow> ustr \<Rightarrow> 's print_step" where
  "write_symbol_chunk env s =
     (if ch_bslash \<notin> set s then print_write env s else symbol_loop env [] (split_inclusive ch_bslash s))"

section \<open>Values\<close>

definition new_printer :: "'s \<Rightarrow> 's printer" where
  "new_printer sink = \<lparr>pr_layout = new_layout sink, pr_lists = [], pr_atom = AsNone, pr_skipped = 0, pr_roots = 0\<rparr>"

definition print_scalar :: "'s output_env \<Rightarrow> ustr \<Rightarrow> 's print_step" where
  "print_scalar env s p =
     (if pr_skipped p \<noteq> 0 then poll_output env p
      else try_then (require_no_atom p) (\<lambda>_ p1. try_then (before_value env p1) (\<lambda>_ p2. print_write env s p2)))"

definition opaque_value :: "'s output_env \<Rightarrow> opaque_kind \<Rightarrow> ustr option \<Rightarrow> 's print_step" where
  "opaque_value env k payload p =
     (if pr_skipped p \<noteq> 0 then poll_output env p
      else
        try_then (require_no_atom p) (\<lambda>_ p1. try_then (before_value env p1) (\<lambda>_ p2.
        try_then (print_write env (lit ''#<'') p2) (\<lambda>_ p3. try_then (print_write env (opaque_name k) p3) (\<lambda>_ p4.
        try_then (case payload of
            Some s \<Rightarrow> if s \<noteq> [] then try_then (print_write env [ch_space] p4) (\<lambda>_ p5. print_write env s p5) else (Inr (), p4)
          | None \<Rightarrow> (Inr (), p4)) (\<lambda>_ p6.
        print_write env (lit ''>'') p6))))))"

definition print_too_deep :: "'s output_env \<Rightarrow> 's print_step" where
  "print_too_deep env = opaque_value env OkTooDeep None"

definition print_begin_list :: "'s output_env \<Rightarrow> 's print_step" where
  "print_begin_list env p =
     (if pr_skipped p \<noteq> 0 then
        try_then (poll_output env p) (\<lambda>_ p1.
          if pr_skipped p1 = u64_max then (Inl PeLimitExceeded, p1) else (Inr (), p1\<lparr>pr_skipped := pr_skipped p1 + 1\<rparr>))
      else
        try_then (require_no_atom p) (\<lambda>_ p1.
        if length (pr_lists p1) = MAX_VALUE_DEPTH then
          try_then (print_too_deep env p1) (\<lambda>_ p2. (Inr (), p2\<lparr>pr_skipped := 1\<rparr>))
        else
          try_then (before_value env p1) (\<lambda>_ p2.
          try_then (on_layout (begin_group env (length (pr_lists p2))) p2) (\<lambda>_ p3.
          try_then (print_write env [ch_lparen] p3) (\<lambda>_ p4. (Inr (), p4\<lparr>pr_lists := LsEmpty # pr_lists p4\<rparr>))))))"

definition print_end_list :: "'s output_env \<Rightarrow> 's print_step" where
  "print_end_list env p =
     (if pr_skipped p \<noteq> 0 then try_then (poll_output env p) (\<lambda>_ p1. (Inr (), p1\<lparr>pr_skipped := pr_skipped p1 - 1\<rparr>))
      else
        try_then (require_no_atom p) (\<lambda>_ p1. case pr_lists p1 of
          [] \<Rightarrow> (Inl PeInvalidSequence, p1)
        | st # rest \<Rightarrow>
            if st = LsAwaitingTail then (Inl PeInvalidSequence, p1)
            else
              (let p2 = p1\<lparr>pr_lists := rest\<rparr> in
               try_then (if st \<noteq> LsEmpty then on_layout (layout_line env [] (length rest)) p2 else (Inr (), p2)) (\<lambda>_ p3.
               try_then (print_write env [ch_rparen] p3) (\<lambda>_ p4. on_layout (end_group env) p4)))))"

definition print_dot :: "'s output_env \<Rightarrow> 's print_step" where
  "print_dot env p =
     (if pr_skipped p \<noteq> 0 then poll_output env p
      else
        try_then (require_no_atom p) (\<lambda>_ p1. case pr_lists p1 of
          LsValues # rest \<Rightarrow>
            try_then (on_layout (layout_line env [ch_space] (length (pr_lists p1))) (p1\<lparr>pr_lists := LsAwaitingTail # rest\<rparr>))
              (\<lambda>_ p2. print_write env [ch_dot] p2)
        | _ \<Rightarrow> (Inl PeInvalidSequence, p1)))"

definition print_nil :: "'s output_env \<Rightarrow> 's print_step" where
  "print_nil env = print_scalar env (lit ''nil'')"

definition print_true :: "'s output_env \<Rightarrow> 's print_step" where
  "print_true env = print_scalar env (lit ''T'')"

definition print_integer :: "'s output_env \<Rightarrow> 64 word \<Rightarrow> 's print_step" where
  "print_integer env v = print_scalar env (dec_int (sint v))"

definition print_real :: "'s output_env \<Rightarrow> float64 \<Rightarrow> 's print_step" where
  "print_real env v p = (case format_autolisp_real v of
     None \<Rightarrow> (Inl PeInvalidSequence, p) | Some s \<Rightarrow> print_scalar env s p)"

definition print_begin_symbol :: "'s output_env \<Rightarrow> 's print_step" where
  "print_begin_symbol env p =
     (if pr_skipped p \<noteq> 0 then poll_output env p
      else try_then (require_no_atom p) (\<lambda>_ p1. try_then (poll_output env p1) (\<lambda>_ p2.
        (Inr (), p2\<lparr>pr_atom := AsSymbol symbol_new\<rparr>))))"

definition print_symbol_chunk :: "'s output_env \<Rightarrow> ustr \<Rightarrow> 's print_step" where
  "print_symbol_chunk env s p =
     (if byte_len s > MAX_VALUE_TEXT_BYTES \<or> \<not> list_all valid_symbol_character s then (Inl PeInvalidSequence, p)
      else if pr_skipped p \<noteq> 0 then poll_output env p
      else (case pr_atom p of
        AsSymbol st \<Rightarrow>
          if s = [] then poll_output env p
          else try_then (if symbol_is_empty st then before_symbol_value env p else (Inr (), p)) (\<lambda>_ p1.
            write_symbol_chunk env s (p1\<lparr>pr_atom := AsSymbol (symbol_push s st)\<rparr>))
      | _ \<Rightarrow> (Inl PeInvalidSequence, p)))"

definition print_end_symbol :: "'s output_env \<Rightarrow> 's print_step" where
  "print_end_symbol env p =
     (if pr_skipped p \<noteq> 0 then poll_output env p
      else (case pr_atom p of
        AsSymbol st \<Rightarrow>
          if \<not> symbol_is_valid st then (Inl PeInvalidSequence, p)
          else try_then (poll_output env p) (\<lambda>_ p1. (Inr (), p1\<lparr>pr_atom := AsNone\<rparr>))
      | _ \<Rightarrow> (Inl PeInvalidSequence, p)))"

definition print_begin_string :: "'s output_env \<Rightarrow> 's print_step" where
  "print_begin_string env p =
     (if pr_skipped p \<noteq> 0 then poll_output env p
      else try_then (require_no_atom p) (\<lambda>_ p1. try_then (poll_output env p1) (\<lambda>_ p2.
        try_then (before_value env p2) (\<lambda>_ p3. try_then (print_write env [ch_dquote] p3) (\<lambda>_ p4.
        (Inr (), p4\<lparr>pr_atom := AsString\<rparr>))))))"

definition print_string_chunk :: "'s output_env \<Rightarrow> ustr \<Rightarrow> 's print_step" where
  "print_string_chunk env s p =
     (if byte_len s > MAX_VALUE_TEXT_BYTES then (Inl PeInvalidSequence, p)
      else if pr_skipped p \<noteq> 0 then poll_output env p
      else if pr_atom p \<noteq> AsString then (Inl PeInvalidSequence, p)
      else if \<not> list_ex requires_readable_escape s then print_write env s p
      else escape_loop env [] s p)"

definition print_end_string :: "'s output_env \<Rightarrow> 's print_step" where
  "print_end_string env p =
     (if pr_skipped p \<noteq> 0 then poll_output env p
      else if pr_atom p \<noteq> AsString then (Inl PeInvalidSequence, p)
      else try_then (poll_output env p) (\<lambda>_ p1. print_write env [ch_dquote] (p1\<lparr>pr_atom := AsNone\<rparr>)))"

text \<open>The handle of an entity that can be looked up again.\<close>

definition entity_handle :: "ustr option \<Rightarrow> ustr option" where
  "entity_handle handle = (case handle of
     Some s \<Rightarrow> if s \<noteq> [] \<and> byte_len s \<le> MAX_ENTITY_HANDLE_BYTES \<and> all_hexdigits s
              then Some (map to_ascii_uppercase s) else None
   | None \<Rightarrow> None)"

definition print_entity :: "'s output_env \<Rightarrow> ustr option \<Rightarrow> 's print_step" where
  "print_entity env handle p = (case entity_handle handle of
     None \<Rightarrow> opaque_value env OkEntity None p
   | Some s \<Rightarrow>
       if pr_skipped p \<noteq> 0 then poll_output env p
       else
         try_then (require_no_atom p) (\<lambda>_ p1. try_then (before_value env p1) (\<lambda>_ p2.
         try_then (print_write env (lit ''(handent \"'') p2) (\<lambda>_ p3. try_then (print_write env s p3) (\<lambda>_ p4.
         print_write env (lit ''\")'') p4)))))"

definition print_object :: "'s output_env \<Rightarrow> ustr option \<Rightarrow> 's print_step" where
  "print_object env label = opaque_value env OkObject
     (case label of Some s \<Rightarrow> if valid_label s MAX_OBJECT_LABEL_BYTES then Some s else None | None \<Rightarrow> None)"

definition print_finish :: "'s output_env \<Rightarrow> 's printer \<Rightarrow> (print_error + unit) \<times> 's" where
  "print_finish env p =
     (if pr_atom p \<noteq> AsNone \<or> pr_lists p \<noteq> [] \<or> pr_skipped p \<noteq> 0 then (Inl PeInvalidSequence, ly_sink (pr_layout p))
      else (case layout_finish env (pr_layout p) of (r, l) \<Rightarrow> (r, ly_sink l)))"

end
