(* ===== verification/Value_Port.thy ===== *)
theory Value_Port
  imports Value_Printer Value_Bridge
begin

text \<open>
  The way values take from the host to the output: the event codes of
  \<open>crates/plugin/src/exec/value/event.rs\<close>, the port of \<open>port.rs\<close> that checks their order and drives
  the printer, and the lines of \<open>println.rs\<close>.  Sink and bridge are shared with the execution, so
  their states are arguments: while the port runs the sink is with the printer.
\<close>

section \<open>Events\<close>

datatype value_event =
    EvBeginList | EvEndList | EvDot | EvNil | EvTrue
  | EvInteger "64 word" | EvReal float64
  | EvBeginString | EvStringChunk ustr | EvEndString
  | EvBeginSymbol | EvSymbolChunk ustr | EvEndSymbol
  | EvEntity "ustr option" | EvSelectionSet | EvVlaObject | EvFile | EvFunction | EvErrorObject
  | EvObject "ustr option" | EvCycle | EvTooDeep

datatype output_event = OevBeginValue | OevEndValue | OevPrintln ustr | OevInvalidPrintln | OevValue value_event

datatype payload = PlNil | PlInteger "64 word" | PlReal float64 | PlString ustr | PlEntity "ustr option"

datatype event_code =
    EcBeginList | EcEndList | EcDot | EcNil | EcTrue | EcInteger | EcReal | EcBeginString | EcStringChunk
  | EcEndString | EcBeginSymbol | EcSymbolChunk | EcEndSymbol | EcEntity | EcSelectionSet | EcVlaObject
  | EcFile | EcFunction | EcErrorObject | EcObject | EcCycle | EcTooDeep | EcBeginValue | EcEndValue
  | EcPrintln | EcInvalidPrintln

definition event_code_all :: "event_code list" where
  "event_code_all = [EcBeginList, EcEndList, EcDot, EcNil, EcTrue, EcInteger, EcReal, EcBeginString, EcStringChunk,
     EcEndString, EcBeginSymbol, EcSymbolChunk, EcEndSymbol, EcEntity, EcSelectionSet, EcVlaObject,
     EcFile, EcFunction, EcErrorObject, EcObject, EcCycle, EcTooDeep, EcBeginValue, EcEndValue,
     EcPrintln, EcInvalidPrintln]"

text \<open>\<open>*event as i32\<close>: the discriminants.\<close>

definition event_code_repr :: "event_code \<Rightarrow> int" where
  "event_code_repr c = (case c of
     EcBeginList \<Rightarrow> 1 | EcEndList \<Rightarrow> 2 | EcDot \<Rightarrow> 3 | EcNil \<Rightarrow> 4 | EcTrue \<Rightarrow> 5 | EcInteger \<Rightarrow> 6 | EcReal \<Rightarrow> 7
   | EcBeginString \<Rightarrow> 8 | EcStringChunk \<Rightarrow> 9 | EcEndString \<Rightarrow> 10 | EcBeginSymbol \<Rightarrow> 11 | EcSymbolChunk \<Rightarrow> 12
   | EcEndSymbol \<Rightarrow> 13 | EcEntity \<Rightarrow> 14 | EcSelectionSet \<Rightarrow> 15 | EcVlaObject \<Rightarrow> 16 | EcFile \<Rightarrow> 17 | EcFunction \<Rightarrow> 18
   | EcErrorObject \<Rightarrow> 19 | EcObject \<Rightarrow> 20 | EcCycle \<Rightarrow> 21 | EcTooDeep \<Rightarrow> 22 | EcBeginValue \<Rightarrow> 23 | EcEndValue \<Rightarrow> 24
   | EcPrintln \<Rightarrow> 25 | EcInvalidPrintln \<Rightarrow> 26)"

text \<open>\<open>None\<close> is \<open>ProtocolViolation\<close>.\<close>

definition event_code_try_from :: "int \<Rightarrow> event_code option" where
  "event_code_try_from code = find (\<lambda>event. event_code_repr event = code) event_code_all"

definition event_decode :: "event_code \<Rightarrow> payload \<Rightarrow> output_event option" where
  "event_decode c p = (case (c, p) of
     (EcBeginList, PlNil) \<Rightarrow> Some (OevValue EvBeginList)
   | (EcEndList, PlNil) \<Rightarrow> Some (OevValue EvEndList)
   | (EcDot, PlNil) \<Rightarrow> Some (OevValue EvDot)
   | (EcNil, PlNil) \<Rightarrow> Some (OevValue EvNil)
   | (EcTrue, PlNil) \<Rightarrow> Some (OevValue EvTrue)
   | (EcInteger, PlInteger v) \<Rightarrow> Some (OevValue (EvInteger v))
   | (EcReal, PlReal v) \<Rightarrow> Some (OevValue (EvReal v))
   | (EcBeginString, PlNil) \<Rightarrow> Some (OevValue EvBeginString)
   | (EcStringChunk, PlString s) \<Rightarrow> Some (OevValue (EvStringChunk s))
   | (EcEndString, PlNil) \<Rightarrow> Some (OevValue EvEndString)
   | (EcBeginSymbol, PlNil) \<Rightarrow> Some (OevValue EvBeginSymbol)
   | (EcSymbolChunk, PlString s) \<Rightarrow> Some (OevValue (EvSymbolChunk s))
   | (EcEndSymbol, PlNil) \<Rightarrow> Some (OevValue EvEndSymbol)
   | (EcEntity, PlEntity h) \<Rightarrow> Some (OevValue (EvEntity h))
   | (EcSelectionSet, PlNil) \<Rightarrow> Some (OevValue EvSelectionSet)
   | (EcVlaObject, PlNil) \<Rightarrow> Some (OevValue EvVlaObject)
   | (EcFile, PlNil) \<Rightarrow> Some (OevValue EvFile)
   | (EcFunction, PlNil) \<Rightarrow> Some (OevValue EvFunction)
   | (EcErrorObject, PlNil) \<Rightarrow> Some (OevValue EvErrorObject)
   | (EcObject, PlString s) \<Rightarrow> Some (OevValue (EvObject (Some s)))
   | (EcCycle, PlNil) \<Rightarrow> Some (OevValue EvCycle)
   | (EcTooDeep, PlNil) \<Rightarrow> Some (OevValue EvTooDeep)
   | (EcBeginValue, PlNil) \<Rightarrow> Some OevBeginValue
   | (EcEndValue, PlNil) \<Rightarrow> Some OevEndValue
   | (EcPrintln, PlString s) \<Rightarrow> Some (OevPrintln s)
   | (EcInvalidPrintln, PlNil) \<Rightarrow> Some OevInvalidPrintln
   | _ \<Rightarrow> None)"

definition output_event_of :: "int \<Rightarrow> payload \<Rightarrow> output_event option" where
  "output_event_of code p = Option.bind (event_code_try_from code) (\<lambda>c. event_decode c p)"

text \<open>What the host sends, and how it is read.\<close>

datatype lisp_payload_kind = LpkInvalid | LpkNil | LpkInteger | LpkReal | LpkString | LpkEntity | LpkOther "8 word"

record lisp_output_event =
  le_code :: int
  le_payload_kind :: lisp_payload_kind
  le_integer :: "64 word"
  le_real :: float64
  le_has_text :: bool

definition lisp_payload :: "lisp_output_event \<Rightarrow> ustr \<Rightarrow> payload option" where
  "lisp_payload event s = (case le_payload_kind event of
     LpkNil \<Rightarrow> Some PlNil
   | LpkInteger \<Rightarrow> Some (PlInteger (le_integer event))
   | LpkReal \<Rightarrow> Some (PlReal (le_real event))
   | LpkString \<Rightarrow> Some (PlString s)
   | LpkEntity \<Rightarrow> Some (PlEntity (if le_has_text event then Some s else None))
   | _ \<Rightarrow> None)"

section \<open>Lines\<close>

definition MAX_PRINTLN_BYTES :: nat where "MAX_PRINTLN_BYTES = 4 * 1024"

fun emit_fragments :: "'s output_env \<Rightarrow> ustr list \<Rightarrow> 's \<Rightarrow> emit_result \<times> 's" where
  "emit_fragments env [] sink = oe_flush env sink"
| "emit_fragments env (f # fs) sink =
     (case oe_emit env f sink of (r, sink1) \<Rightarrow> if r \<noteq> EContinue then (r, sink1) else emit_fragments env fs sink1)"

definition emit_line :: "'s output_env \<Rightarrow> ustr \<Rightarrow> 's \<Rightarrow> emit_result \<times> 's" where
  "emit_line env s = emit_fragments env [s, [ch_lf]]"

definition println_write :: "'s output_env \<Rightarrow> ustr \<Rightarrow> 's \<Rightarrow> emit_result \<times> 's" where
  "println_write env s sink =
     (if list_ex is_control s then (EInvalidSequence, sink)
      else if byte_len s > MAX_PRINTLN_BYTES then (ELimitExceeded, sink)
      else emit_line env s sink)"

section \<open>The port\<close>

datatype output_port_mode = PmForm | PmEvalValue

record 's output_port =
  po_lease :: "value_lease option"
  po_printer :: "'s printer option"
  po_mode :: output_port_mode
  po_completed :: nat
  po_result :: emit_result

definition inactive_port :: "'s output_port" where
  "inactive_port = \<lparr>po_lease = None, po_printer = None, po_mode = PmForm, po_completed = 0, po_result = EInactive\<rparr>"

definition new_port :: "'s output_env \<Rightarrow> value_lease \<Rightarrow> output_port_mode \<Rightarrow> 's \<Rightarrow> 's output_port \<times> 's" where
  "new_port env l mode sink = (case oe_emit env [] sink of (r, sink1) \<Rightarrow>
     (\<lparr>po_lease = Some l, po_printer = None, po_mode = mode, po_completed = 0, po_result = r\<rparr>, sink1))"

definition port_claimed :: "value_bridge \<Rightarrow> 's output_port \<Rightarrow> bool" where
  "port_claimed b p = (case po_lease p of Some l \<Rightarrow> lease_is_open l b | None \<Rightarrow> False)"

definition port_fail :: "emit_result \<Rightarrow> 's output_port \<Rightarrow> emit_result \<times> 's output_port" where
  "port_fail r p = (r, p\<lparr>po_printer := None, po_result := r\<rparr>)"

definition print_error_result :: "print_error \<Rightarrow> emit_result" where
  "print_error_result e = (case e of
     PeInvalidSequence \<Rightarrow> EInvalidSequence | PeLimitExceeded \<Rightarrow> ELimitExceeded | PeOutput r \<Rightarrow> r)"

definition port_begin_value :: "'s output_port \<Rightarrow> 's \<Rightarrow> (emit_result \<times> 's output_port) \<times> 's" where
  "port_begin_value p sink =
     (if po_printer p \<noteq> None \<or> (po_mode p = PmEvalValue \<and> po_completed p \<noteq> 0) then (port_fail EInvalidSequence p, sink)
      else if po_lease p = None then (port_fail EInactive p, sink)
      else ((EContinue, p\<lparr>po_printer := Some (new_printer sink)\<rparr>), sink))"

text \<open>The printer with the sink in hand.\<close>

definition with_sink :: "'s \<Rightarrow> 's printer \<Rightarrow> 's printer" where
  "with_sink sink p = p\<lparr>pr_layout := (pr_layout p)\<lparr>ly_sink := sink\<rparr>\<rparr>"

definition port_end_value :: "'s output_env \<Rightarrow> 's output_port \<Rightarrow> 's \<Rightarrow> (emit_result \<times> 's output_port) \<times> 's" where
  "port_end_value env p sink = (case po_printer p of
     None \<Rightarrow> (port_fail EInvalidSequence p, sink)
   | Some printer \<Rightarrow>
       (let p1 = p\<lparr>po_printer := None\<rparr> in
        if pr_roots printer \<noteq> 1 then (port_fail EInvalidSequence p1, sink)
        else (case print_finish env (with_sink sink printer) of
          (Inr _, sink1) \<Rightarrow> ((EContinue, p1\<lparr>po_completed := po_completed p1 + 1\<rparr>), sink1)
        | (Inl e, sink1) \<Rightarrow> (port_fail (print_error_result e) p1, sink1))))"

definition port_println :: "'s output_env \<Rightarrow> ustr \<Rightarrow> 's output_port \<Rightarrow> 's \<Rightarrow> (emit_result \<times> 's output_port) \<times> 's" where
  "port_println env s p sink =
     (if po_mode p \<noteq> PmForm \<or> po_printer p \<noteq> None then (port_fail EInvalidSequence p, sink)
      else if po_lease p = None then (port_fail EInactive p, sink)
      else (case println_write env s sink of (r, sink1) \<Rightarrow>
        if r = EContinue then ((r, p), sink1) else (port_fail r p, sink1)))"

definition print_event :: "'s output_env \<Rightarrow> value_event \<Rightarrow> 's print_step" where
  "print_event env e = (case e of
     EvBeginList \<Rightarrow> print_begin_list env
   | EvEndList \<Rightarrow> print_end_list env
   | EvDot \<Rightarrow> print_dot env
   | EvNil \<Rightarrow> print_nil env
   | EvTrue \<Rightarrow> print_true env
   | EvInteger v \<Rightarrow> print_integer env v
   | EvReal v \<Rightarrow> print_real env v
   | EvBeginString \<Rightarrow> print_begin_string env
   | EvStringChunk s \<Rightarrow> print_string_chunk env s
   | EvEndString \<Rightarrow> print_end_string env
   | EvBeginSymbol \<Rightarrow> print_begin_symbol env
   | EvSymbolChunk s \<Rightarrow> print_symbol_chunk env s
   | EvEndSymbol \<Rightarrow> print_end_symbol env
   | EvEntity h \<Rightarrow> print_entity env h
   | EvSelectionSet \<Rightarrow> opaque_value env OkSelectionSet None
   | EvVlaObject \<Rightarrow> opaque_value env OkVlaObject None
   | EvFile \<Rightarrow> opaque_value env OkFile None
   | EvFunction \<Rightarrow> opaque_value env OkFunction None
   | EvErrorObject \<Rightarrow> opaque_value env OkError None
   | EvObject label \<Rightarrow> print_object env label
   | EvCycle \<Rightarrow> opaque_value env OkCycle None
   | EvTooDeep \<Rightarrow> print_too_deep env)"

definition port_value :: "'s output_env \<Rightarrow> value_event \<Rightarrow> 's output_port \<Rightarrow> 's \<Rightarrow> (emit_result \<times> 's output_port) \<times> 's" where
  "port_value env e p sink = (case po_printer p of
     None \<Rightarrow> (port_fail EInvalidSequence p, sink)
   | Some printer \<Rightarrow>
       (case print_event env e (with_sink sink printer) of (r, printer1) \<Rightarrow>
          ((case r of Inr _ \<Rightarrow> (EContinue, p\<lparr>po_printer := Some printer1\<rparr>)
            | Inl err \<Rightarrow> port_fail (print_error_result err) p), ly_sink (pr_layout printer1))))"

definition port_write ::
  "'s output_env \<Rightarrow> value_bridge \<Rightarrow> output_event option \<Rightarrow> 's output_port \<Rightarrow> 's \<Rightarrow> (emit_result \<times> 's output_port) \<times> 's" where
  "port_write env b event p sink = (case event of
     None \<Rightarrow> (port_fail EInvalidSequence p, sink)
   | Some e \<Rightarrow>
       if po_result p \<noteq> EContinue then ((po_result p, p), sink)
       else if \<not> port_claimed b p then ((EInactive, p\<lparr>po_result := EInactive\<rparr>), sink)
       else (case e of
           OevBeginValue \<Rightarrow> port_begin_value p sink
         | OevEndValue \<Rightarrow> port_end_value env p sink
         | OevPrintln s \<Rightarrow> port_println env s p sink
         | OevInvalidPrintln \<Rightarrow> (port_fail EInvalidSequence p, sink)
         | OevValue v \<Rightarrow> port_value env v p sink))"

definition write_lisp_output_event ::
  "'s output_env \<Rightarrow> value_bridge \<Rightarrow> lisp_output_event \<Rightarrow> ustr \<Rightarrow> 's output_port \<Rightarrow> 's
     \<Rightarrow> (emit_result \<times> 's output_port) \<times> 's" where
  "write_lisp_output_event env b event s =
     port_write env b (Option.bind (lisp_payload event s) (output_event_of (le_code event)))"

definition port_invalidate :: "'s output_port \<Rightarrow> 's output_port" where
  "port_invalidate p = snd (port_fail EInvalidSequence p)"

definition bridge_failure :: "output_port_mode \<Rightarrow> emit_result \<Rightarrow> value_bridge_failure option" where
  "bridge_failure mode r = (case r of
     EInvalidSequence \<Rightarrow> Some BridgeInvalidSequence
   | ELimitExceeded \<Rightarrow> Some BridgeLimitExceeded
   | EFinished \<Rightarrow> Some BridgeOutputFinished
   | ECancelled \<Rightarrow> if mode = PmEvalValue then Some BridgePostCommitCancelled else None
   | _ \<Rightarrow> None)"

definition completion_failure :: "'s output_port \<Rightarrow> value_bridge_failure option \<times> 's output_port" where
  "completion_failure p =
     (if po_result p \<noteq> EContinue then (bridge_failure (po_mode p) (po_result p), p)
      else if po_printer p \<noteq> None then (Some BridgeAbandoned, p\<lparr>po_result := EInvalidSequence\<rparr>)
      else if po_mode p = PmEvalValue \<and> po_completed p \<noteq> 1
      then (Some BridgeMissingValue, p\<lparr>po_result := EInvalidSequence\<rparr>)
      else (None, p))"

definition port_finish :: "'s output_port \<Rightarrow> value_bridge \<Rightarrow> emit_result \<times> value_bridge" where
  "port_finish p b = (case completion_failure p of (failure, p1) \<Rightarrow>
     (po_result p1, case po_lease p1 of Some l \<Rightarrow> lease_release l failure b | None \<Rightarrow> b))"

definition port_drop :: "'s output_port \<Rightarrow> value_bridge \<Rightarrow> value_bridge" where
  "port_drop p b = (case po_lease p of Some l \<Rightarrow> lease_drop l b | None \<Rightarrow> b)"

end
