(* ===== verification/Value_Protocol.thy ===== *)
theory Value_Protocol
  imports Value_Port
begin

text \<open>
  What the printer and the port accept: the symbols that can be read back, the reals as decimals,
  and the sequences of events that a port completes without a failure.
\<close>

section \<open>Symbols\<close>

text \<open>The texts a reader would take for a number.\<close>

definition signed_digits :: "ustr \<Rightarrow> bool" where
  "signed_digits s \<longleftrightarrow> (case s of [] \<Rightarrow> False
     | c # ds \<Rightarrow> (if c \<in> {ch_plus, ch_minus} then ds \<noteq> [] \<and> list_all is_ascii_digit ds
                 else list_all is_ascii_digit (c # ds)))"

definition number_text :: "ustr \<Rightarrow> bool" where
  "number_text s \<longleftrightarrow> signed_digits s
     \<or> (\<exists>m e es. s = m @ e # es \<and> e \<in> {101, 69} \<and> signed_digits m \<and> signed_digits es)"

definition nil_text :: "ustr \<Rightarrow> bool" where
  "nil_text s \<longleftrightarrow> map to_ascii_uppercase s = lit ''NIL''"

lemma symbol_push_append: "symbol_push (s @ t) st = symbol_push t (symbol_push s st)"
  by (simp add: symbol_push_def)

lemma symbol_push_Nil [simp]: "symbol_push [] st = st"
  by (simp add: symbol_push_def)

lemma signed_digits_snoc:
  "signed_digits (s @ [c]) \<longleftrightarrow> is_ascii_digit c \<and> (s \<in> {[], [ch_plus], [ch_minus]} \<or> signed_digits s)"
  by (cases s) (auto simp: signed_digits_def is_ascii_digit_def)

abbreviation number_of :: "ustr \<Rightarrow> number_state \<Rightarrow> number_state" where
  "number_of s st \<equiv> fold (\<lambda>ch st. number_advance st ch) s st"

lemma number_advance_simps:
  "number_advance NsStart c = (if c \<in> {ch_plus, ch_minus} then NsSignOnly else if is_ascii_digit c then NsIntegerDigits else NsOther)"
  "number_advance NsSignOnly c = (if is_ascii_digit c then NsIntegerDigits else NsOther)"
  "number_advance NsIntegerDigits c =
     (if is_ascii_digit c then NsIntegerDigits else if c \<in> {101, 69} then NsExponentMarker else NsOther)"
  "number_advance NsExponentMarker c =
     (if c \<in> {ch_plus, ch_minus} then NsExponentSign else if is_ascii_digit c then NsExponentDigits else NsOther)"
  "number_advance NsExponentSign c = (if is_ascii_digit c then NsExponentDigits else NsOther)"
  "number_advance NsExponentDigits c = (if is_ascii_digit c then NsExponentDigits else NsOther)"
  "number_advance NsOther c = NsOther"
  by (simp_all add: number_advance_def)

text \<open>A mantissa, the marker and what follows it.\<close>

definition exponent_text :: "ustr \<Rightarrow> (ustr \<Rightarrow> bool) \<Rightarrow> bool" where
  "exponent_text s P \<longleftrightarrow> (\<exists>m e u. s = m @ e # u \<and> e \<in> {101, 69} \<and> signed_digits m \<and> P u)"

lemma exponent_textI: "e \<in> {101, 69} \<Longrightarrow> signed_digits m \<Longrightarrow> P u \<Longrightarrow> exponent_text (m @ e # u) P"
  unfolding exponent_text_def by blast

lemma exponent_text_snoc: "exponent_text s P \<Longrightarrow> (\<And>u. P u \<Longrightarrow> Q (u @ [c])) \<Longrightarrow> exponent_text (s @ [c]) Q"
  unfolding exponent_text_def by (metis append.assoc append_Cons)

lemma number_of_text:
  "case number_of s NsStart of
     NsStart \<Rightarrow> s = []
   | NsSignOnly \<Rightarrow> s \<in> {[ch_plus], [ch_minus]}
   | NsIntegerDigits \<Rightarrow> signed_digits s
   | NsExponentMarker \<Rightarrow> exponent_text s (\<lambda>u. u = [])
   | NsExponentSign \<Rightarrow> exponent_text s (\<lambda>u. u \<in> {[ch_plus], [ch_minus]})
   | NsExponentDigits \<Rightarrow> exponent_text s signed_digits
   | NsOther \<Rightarrow> True"
proof (induction s rule: rev_induct)
  case (snoc c s)
  note step = number_advance_simps signed_digits_snoc
  show ?case
  proof (cases "number_of s NsStart")
    case NsIntegerDigits
    with snoc show ?thesis using exponent_textI [of c s "\<lambda>u. u = []" "[]"] by (simp add: step)
  next
    case NsExponentMarker
    with snoc have e: "exponent_text s (\<lambda>u. u = [])" by simp
    show ?thesis using NsExponentMarker exponent_text_snoc [OF e, of signed_digits c]
        exponent_text_snoc [OF e, of "\<lambda>u. u \<in> {[ch_plus], [ch_minus]}" c] signed_digits_snoc [of "[]" c] by (simp add: step)
  next
    case NsExponentSign
    with snoc have e: "exponent_text s (\<lambda>u. u \<in> {[ch_plus], [ch_minus]})" by simp
    show ?thesis using NsExponentSign exponent_text_snoc [OF e, of signed_digits c] signed_digits_snoc by (simp add: step)
  next
    case NsExponentDigits
    with snoc have e: "exponent_text s signed_digits" by simp
    show ?thesis using NsExponentDigits exponent_text_snoc [OF e, of signed_digits c] signed_digits_snoc by (simp add: step)
  qed (use snoc signed_digits_snoc [of "[]" c] in \<open>auto simp: step\<close>)
qed simp

lemma number_of_digits: "list_all is_ascii_digit ds \<Longrightarrow> number_of ds NsIntegerDigits = NsIntegerDigits"
  "list_all is_ascii_digit ds \<Longrightarrow> number_of ds NsExponentDigits = NsExponentDigits"
  by (induction ds) (simp_all add: number_advance_simps)

lemma signed_digits_cases:
  assumes "signed_digits s"
  obtains sg d ds where "s = sg @ d # ds" "sg \<in> {[], [ch_plus], [ch_minus]}" "is_ascii_digit d" "list_all is_ascii_digit ds"
proof (cases s)
  case (Cons c cs)
  show thesis
  proof (cases "c \<in> {ch_plus, ch_minus}")
    case True
    then obtain d ds where "cs = d # ds" "is_ascii_digit d" "list_all is_ascii_digit ds"
      using assms Cons by (cases cs) (auto simp: signed_digits_def)
    with True Cons show thesis by (intro that [of "[c]" d ds]) auto
  next
    case False
    with assms Cons show thesis by (intro that [of "[]" c cs]) (auto simp: signed_digits_def)
  qed
qed (use assms in \<open>simp add: signed_digits_def\<close>)

lemma number_of_signed_digits:
  assumes "signed_digits s"
  shows "number_of s NsStart = NsIntegerDigits" "number_of s NsExponentMarker = NsExponentDigits"
  using assms by (elim signed_digits_cases; auto simp: number_advance_simps number_of_digits is_ascii_digit_def)+

lemma number_of_is_number:
  "number_of s NsStart \<in> {NsIntegerDigits, NsExponentDigits} \<longleftrightarrow> number_text s"
proof
  assume "number_of s NsStart \<in> {NsIntegerDigits, NsExponentDigits}"
  with number_of_text [of s] show "number_text s" by (auto simp: number_text_def exponent_text_def)
next
  assume "number_text s"
  then consider "signed_digits s"
    | m e es where "s = m @ e # es" "e \<in> {101, 69}" "signed_digits m" "signed_digits es"
    unfolding number_text_def by blast
  then show "number_of s NsStart \<in> {NsIntegerDigits, NsExponentDigits}"
  proof cases
    case 2
    moreover have "number_advance NsIntegerDigits e = NsExponentMarker"
      using 2(2) by (auto simp: number_advance_simps is_ascii_digit_def)
    ultimately show ?thesis by (simp add: number_of_signed_digits)
  qed (simp add: number_of_signed_digits)
qed

lemma number_of_start: "number_of s NsStart = NsStart \<longleftrightarrow> s = []"
  using number_of_text [of s] by (cases "number_of s NsStart") auto

lemma nil_advance_simps:
  "nil_advance NlStart c = (if to_ascii_uppercase c = 78 then NlN else NlOther)"
  "nil_advance NlN c = (if to_ascii_uppercase c = 73 then NlNi else NlOther)"
  "nil_advance NlNi c = (if to_ascii_uppercase c = 76 then NlNil else NlOther)"
  "nil_advance NlNil c = NlOther" "nil_advance NlOther c = NlOther"
  by (simp_all add: nil_advance_def)

lemma nil_of_other: "fold (\<lambda>ch st. nil_advance st ch) s NlOther = NlOther"
  by (induction s) (simp_all add: nil_advance_simps)

lemma nil_of_nil: "fold (\<lambda>ch st. nil_advance st ch) s NlStart = NlNil \<longleftrightarrow> nil_text s"
proof -
  consider "s = []" | a where "s = [a]" | a b where "s = [a, b]" | a b c where "s = [a, b, c]"
    | a b c d r where "s = a # b # c # d # r"
    by (metis list.exhaust)
  then show ?thesis
    by cases (simp_all add: nil_advance_simps nil_text_def lit_def nil_of_other)
qed

lemma symbol_push_states:
  "ss_number (symbol_push s st) = number_of s (ss_number st)"
  "ss_nil (symbol_push s st) = fold (\<lambda>ch st. nil_advance st ch) s (ss_nil st)"
  unfolding symbol_push_def by (induction s arbitrary: st) simp_all

lemma symbol_is_valid_iff:
  "symbol_is_valid (symbol_push s symbol_new) \<longleftrightarrow> s \<noteq> [] \<and> \<not> number_text s \<and> \<not> nil_text s"
  using number_of_is_number [of s] number_of_start [of s]
  by (auto simp: symbol_is_valid_def symbol_push_states symbol_new_def nil_of_nil)

lemma symbol_is_empty_iff: "symbol_is_empty (symbol_push s symbol_new) \<longleftrightarrow> s = []"
  by (simp add: symbol_is_empty_def symbol_push_states symbol_new_def number_of_start)

section \<open>Sequences of events\<close>

text \<open>The events of a port, one after the other, each with the bridge as it is then.\<close>

fun port_run ::
  "'s output_env \<Rightarrow> (value_bridge \<times> output_event option) list \<Rightarrow> 's output_port \<Rightarrow> 's
     \<Rightarrow> (emit_result list \<times> 's output_port) \<times> 's" where
  "port_run env [] p sink = (([], p), sink)"
| "port_run env ((b, e) # es) p sink =
     (case port_write env b e p sink of ((r, p1), sink1) \<Rightarrow>
      case port_run env es p1 sink1 of ((rs, p2), sink2) \<Rightarrow> ((r # rs, p2), sink2))"

text \<open>What a port prints: lines, and values with their events between begin and end.\<close>

datatype port_item = ItLine ustr | ItValue "value_event list"

fun item_events :: "port_item \<Rightarrow> output_event list" where
  "item_events (ItLine s) = [OevPrintln s]"
| "item_events (ItValue vs) = OevBeginValue # map OevValue vs @ [OevEndValue]"

fun is_value :: "port_item \<Rightarrow> bool" where
  "is_value (ItLine _) = False" | "is_value (ItValue _) = True"

text \<open>A port without a failure has seen whole items, and perhaps a value that is not ended.\<close>

definition port_history :: "output_event list \<Rightarrow> 's output_port \<Rightarrow> bool" where
  "port_history es p \<longleftrightarrow> (\<exists>its rest. es = concat (map item_events its) @ rest
     \<and> (if po_printer p = None then rest = [] else \<exists>vs. rest = OevBeginValue # map OevValue vs)
     \<and> po_completed p = length (filter is_value its)
     \<and> (po_mode p = PmEvalValue \<longrightarrow> (\<forall>i\<in>set its. is_value i) \<and> length its \<le> 1 \<and> (po_printer p \<noteq> None \<longrightarrow> its = [])))"

lemma port_historyI:
  "es = concat (map item_events its) @ rest
     \<Longrightarrow> (if po_printer p = None then rest = [] else \<exists>vs. rest = OevBeginValue # map OevValue vs)
     \<Longrightarrow> po_completed p = length (filter is_value its)
     \<Longrightarrow> (po_mode p = PmEvalValue \<Longrightarrow> (\<forall>i\<in>set its. is_value i) \<and> length its \<le> 1 \<and> (po_printer p \<noteq> None \<longrightarrow> its = []))
     \<Longrightarrow> port_history es p"
  unfolding port_history_def by blast

lemma port_fail_result [simp]: "po_result (snd (port_fail r p)) = r" "fst (port_fail r p) = r"
  by (simp_all add: port_fail_def)

text \<open>A failure of the printer is a failure: it is never reported as \<open>EContinue\<close>.\<close>

definition honest :: "(print_error + 'a) \<times> 'l \<Rightarrow> bool" where
  "honest r \<longleftrightarrow> fst r \<noteq> Inl (PeOutput EContinue)"

lemma honest_pair [simp]:
  "honest (Inr x, l)" "honest (Inl PeInvalidSequence, l)" "honest (Inl PeLimitExceeded, l)"
  "honest (Inl (PeOutput r), l) \<longleftrightarrow> r \<noteq> EContinue"
  by (simp_all add: honest_def)

lemma honest_try_then: "honest r \<Longrightarrow> (\<And>x l. r = (Inr x, l) \<Longrightarrow> honest (f x l)) \<Longrightarrow> honest (try_then r f)"
  by (auto simp: honest_def try_then_def split: prod.split sum.split)

lemma honest_emit_answer: "honest (emit_answer r)"
  by (simp add: honest_def emit_answer_def)

lemma honest_on_layout: "(\<And>l. honest (f l)) \<Longrightarrow> honest (on_layout f p)"
  by (simp add: honest_def on_layout_def split: prod.split) (metis fst_conv)

lemma honest_emit_text: "honest (emit_text env s l)"
  unfolding emit_text_def by (intro honest_try_then honest_emit_answer) simp

lemma honest_emit_spaces: "honest (emit_spaces env n l)"
proof (induction env n l rule: emit_spaces.induct)
  case (1 env n l)
  then show ?case by (subst emit_spaces.simps) (auto simp: Let_def intro!: honest_try_then honest_emit_answer)
qed

lemma honest_write_line: "honest (write_line env flat indent l)"
  by (auto simp: write_line_def emit_newline_def honest_emit_text intro!: honest_try_then honest_emit_answer honest_emit_spaces
      split: list.split group_mode.split)

lemma honest_drain: "honest (drain env l)"
proof (induction l rule: drain_induct)
  case (Cons l t rest)
  show ?case
  proof (cases t)
    case (TkBegin k)
    with Cons show ?thesis by (cases k) (simp_all add: drain_breakable drain_forced split: fit.split)
  next
    case TkEnd
    with Cons show ?thesis by (simp add: drain_end split: list.split)
  next
    case (TkText s)
    with Cons show ?thesis
      by (auto simp: drain_text intro!: honest_try_then honest_emit_text dest: written_frame)
  next
    case (TkLine flat indent)
    with Cons show ?thesis
      by (auto simp: drain_line intro!: honest_try_then honest_write_line dest: written_frame)
  qed
qed (simp add: drain_Nil)

lemmas honest_layout = honest_try_then honest_emit_answer honest_emit_text honest_drain

lemma honest_layout_ops:
  "honest (layout_poll env l)" "honest (layout_push env t l)" "honest (layout_text env s l)"
  "honest (layout_line env s n l)" "honest (begin_group env n l)" "honest (end_group env l)" "honest (layout_finish env l)"
  by (auto simp: layout_poll_def layout_push_def push_polled_def layout_text_def layout_line_def begin_group_def end_group_def
      layout_finish_def intro!: honest_layout)

lemma honest_writes:
  "honest (print_write env s p)" "honest (poll_output env p)" "honest (require_no_atom p)"
  "honest (before_value env p)" "honest (before_symbol_value env p)" "honest (append_bounded env b s p)"
  by (auto simp: print_write_def poll_output_def require_no_atom_def before_value_def before_symbol_value_def append_bounded_def
      intro!: honest_on_layout honest_layout_ops honest_try_then split: list.split list_state.split)

lemma honest_loops: "honest (escape_loop env b s p)" "honest (symbol_loop env b fs p)"
proof -
  show "honest (escape_loop env b s p)"
    by (induction env b s p rule: escape_loop.induct) (auto intro!: honest_try_then honest_writes)
  show "honest (symbol_loop env b fs p)"
    by (induction env b fs p rule: symbol_loop.induct) (auto intro!: honest_try_then honest_writes)
qed

lemma honest_scalars: "honest (print_scalar env s p)" "honest (opaque_value env k pl p)"
  unfolding print_scalar_def opaque_value_def
  by (auto intro!: honest_try_then honest_writes split: option.split)

lemma honest_print_event: "honest (print_event env e p)"
  by (cases e)
     (auto simp: print_event_def print_begin_list_def print_end_list_def print_dot_def print_nil_def print_true_def
       print_integer_def print_real_def print_begin_string_def print_string_chunk_def print_end_string_def print_begin_symbol_def
       print_symbol_chunk_def print_end_symbol_def print_entity_def print_object_def print_too_deep_def write_symbol_chunk_def
       Let_def honest_scalars honest_writes honest_loops
       intro!: honest_try_then honest_on_layout honest_layout_ops split: option.split atom_state.split list.split list_state.split)

lemma honest_print_finish: "honest (print_finish env p)"
  using honest_layout_ops(7) [of env "pr_layout p"]
  by (cases "layout_finish env (pr_layout p)") (auto simp: print_finish_def honest_def)

lemma honest_result: "honest (Inl e, l) \<Longrightarrow> print_error_result e \<noteq> EContinue"
  by (cases e) (simp_all add: print_error_result_def)

text \<open>The answer of a write is the state of the port, which is final once it is not to continue.\<close>

lemma port_write_answer:
  assumes "port_write env b e p sink = ((r, p1), sink1)"
  shows "po_result p1 = r" "po_mode p1 = po_mode p" "po_lease p1 = po_lease p"
    "po_result p \<noteq> EContinue \<Longrightarrow> r \<noteq> EContinue \<and> sink1 = sink"
  using assms
  by (auto simp: port_write_def port_begin_value_def port_end_value_def port_println_def port_value_def port_fail_def
      Let_def split: option.splits if_splits output_event.splits prod.splits sum.splits)

lemma port_write_continue:
  assumes "port_write env b e p sink = ((EContinue, p1), sink1)"
  shows "po_result p = EContinue \<and> (
     (e = Some OevBeginValue \<and> po_printer p = None \<and> (po_mode p = PmEvalValue \<longrightarrow> po_completed p = 0)
        \<and> po_printer p1 \<noteq> None \<and> po_completed p1 = po_completed p)
   \<or> (e = Some OevEndValue \<and> (\<exists>pr. po_printer p = Some pr \<and> pr_roots pr = 1) \<and> po_printer p1 = None
        \<and> po_completed p1 = po_completed p + 1)
   \<or> ((\<exists>s. e = Some (OevPrintln s)) \<and> po_mode p = PmForm \<and> po_printer p = None \<and> po_printer p1 = None
        \<and> po_completed p1 = po_completed p)
   \<or> ((\<exists>v. e = Some (OevValue v)) \<and> po_printer p \<noteq> None \<and> po_printer p1 \<noteq> None \<and> po_completed p1 = po_completed p))"
proof -
  have run: "po_result p = EContinue"
    using port_write_answer(4) [OF assms] by blast
  obtain ev where e: "e = Some ev"
    using assms by (cases e) (auto simp: port_write_def port_fail_def)
  have claimed: "port_claimed b p"
    using assms e run by (auto simp: port_write_def split: if_splits)
  show ?thesis
  proof (cases ev)
    case OevBeginValue
    with assms e run claimed show ?thesis by (auto simp: port_write_def port_begin_value_def port_fail_def split: if_splits)
  next
    case OevEndValue
    with assms e run claimed have w: "port_end_value env p sink = ((EContinue, p1), sink1)" by (simp add: port_write_def)
    then obtain pr where pr: "po_printer p = Some pr" "pr_roots pr = 1"
      by (auto simp: port_end_value_def port_fail_def Let_def split: option.splits if_splits)
    obtain r sk where f: "print_finish env (with_sink sink pr) = (r, sk)" by fastforce
    then have "honest (r, sk)" using honest_print_finish by metis
    then show ?thesis
      using w pr f e OevEndValue run
      by (cases r) (auto simp: port_end_value_def port_fail_def Let_def dest!: honest_result)
  next
    case (OevPrintln s)
    with assms e run claimed show ?thesis
      by (cases "po_mode p") (auto simp: port_write_def port_println_def port_fail_def split: if_splits prod.splits)
  next
    case OevInvalidPrintln
    with assms e run claimed show ?thesis by (simp add: port_write_def port_fail_def)
  next
    case (OevValue v)
    with assms e run claimed have w: "port_value env v p sink = ((EContinue, p1), sink1)" by (simp add: port_write_def)
    then obtain pr where pr: "po_printer p = Some pr" by (auto simp: port_value_def port_fail_def split: option.splits)
    obtain r pr1 where f: "print_event env v (with_sink sink pr) = (r, pr1)" by fastforce
    then have "honest (r, pr1)" using honest_print_event by metis
    then show ?thesis
      using w pr f e OevValue run by (cases r) (auto simp: port_value_def port_fail_def dest!: honest_result)
  qed
qed

lemma port_history_step:
  assumes h: "port_history es p" and w: "port_write env b e p sink = ((EContinue, p1), sink1)"
  obtains ev where "e = Some ev" "port_history (es @ [ev]) p1"
proof -
  obtain its rest where its: "es = concat (map item_events its) @ rest"
      "if po_printer p = None then rest = [] else \<exists>vs. rest = OevBeginValue # map OevValue vs"
      "po_completed p = length (filter is_value its)"
      "po_mode p = PmEvalValue \<longrightarrow> (\<forall>i\<in>set its. is_value i) \<and> length its \<le> 1 \<and> (po_printer p \<noteq> None \<longrightarrow> its = [])"
    using h unfolding port_history_def by blast
  note mode = port_write_answer(2) [OF w]
  have none: "its = []" if "po_mode p = PmEvalValue" "po_completed p = 0"
    using that its(3,4) by (cases its) auto
  from port_write_continue [OF w] consider
      "e = Some OevBeginValue" "po_printer p = None" "po_mode p = PmEvalValue \<longrightarrow> po_completed p = 0"
        "po_printer p1 \<noteq> None" "po_completed p1 = po_completed p"
    | "e = Some OevEndValue" "po_printer p \<noteq> None" "po_printer p1 = None" "po_completed p1 = po_completed p + 1"
    | s where "e = Some (OevPrintln s)" "po_mode p = PmForm" "po_printer p = None" "po_printer p1 = None"
        "po_completed p1 = po_completed p"
    | v where "e = Some (OevValue v)" "po_printer p \<noteq> None" "po_printer p1 \<noteq> None" "po_completed p1 = po_completed p"
    by auto
  then show thesis
  proof cases
    case 1
    have r: "rest = []" using 1 its(2) by simp
    have n: "its = []" if "po_mode p1 = PmEvalValue" using none 1 mode that by simp
    have "port_history (es @ [OevBeginValue]) p1"
      by (rule port_historyI [of _ its "[OevBeginValue]"]) (use 1 its(1,3) r n in auto)
    with 1 that show thesis by blast
  next
    case 2
    then obtain vs where vs: "rest = OevBeginValue # map OevValue vs" using its(2) by auto
    have "port_history (es @ [OevEndValue]) p1"
      by (rule port_historyI [of _ "its @ [ItValue vs]" "[]"]) (use 2 its vs mode in auto)
    with 2 that show thesis by blast
  next
    case 3
    with its mode have "port_history (es @ [OevPrintln s]) p1" by (intro port_historyI [of _ "its @ [ItLine s]" "[]"]) auto
    with 3 that show thesis by blast
  next
    case 4
    then obtain vs where vs: "rest = OevBeginValue # map OevValue vs" using its(2) by auto
    have "port_history (es @ [OevValue v]) p1"
      by (rule port_historyI [of _ its "rest @ [OevValue v]"]) (use 4 its vs mode in \<open>auto intro!: exI [of _ "vs @ [v]"]\<close>)
    with 4 that show thesis by blast
  qed
qed

lemma port_run_stuck:
  "po_result p \<noteq> EContinue \<Longrightarrow> port_run env es p sink = ((rs, p1), sink1)
     \<Longrightarrow> po_result p1 \<noteq> EContinue \<and> sink1 = sink \<and> EContinue \<notin> set rs"
proof (induction env es p sink arbitrary: rs p1 sink1 rule: port_run.induct)
  case (2 env b e es p sink)
  obtain r p2 s2 where w: "port_write env b e p sink = ((r, p2), s2)" by (metis prod.exhaust)
  obtain rs2 p3 s3 where w2: "port_run env es p2 s2 = ((rs2, p3), s3)" by (metis prod.exhaust)
  note a = port_write_answer [OF w]
  have "po_result p2 \<noteq> EContinue" using a(1,4) 2(2) by simp
  from 2(1) [OF w [symmetric] refl this w2] a(4) [OF 2(2)] 2(3) w w2 show ?case by auto
qed simp

lemma port_run_history:
  assumes "port_run env es p sink = ((rs, p1), sink1)" "port_history evs p" "po_result p1 = EContinue"
  shows "\<exists>evs1. map snd es = map Some evs1 \<and> port_history (evs @ evs1) p1 \<and> set rs \<subseteq> {EContinue} \<and> po_mode p1 = po_mode p"
  using assms
proof (induction env es p sink arbitrary: evs rs p1 sink1 rule: port_run.induct)
  case (2 env b e es p sink)
  obtain r p2 s2 where w: "port_write env b e p sink = ((r, p2), s2)" by (metis prod.exhaust)
  obtain rs2 p3 s3 where w2: "port_run env es p2 s2 = ((rs2, p3), s3)" by (metis prod.exhaust)
  have r: "r = EContinue"
    using port_run_stuck [OF _ w2] port_write_answer(1) [OF w] 2(2,4) w w2 by fastforce
  obtain ev where ev: "e = Some ev" "port_history (evs @ [ev]) p2"
    using port_history_step [OF 2(3) w [unfolded r]] by blast
  have fin: "po_result p3 = EContinue" "p1 = p3" "rs = r # rs2" using 2(2,4) w w2 by simp_all
  obtain evs1 where "map snd es = map Some evs1" "port_history ((evs @ [ev]) @ evs1) p3" "set rs2 \<subseteq> {EContinue}"
      "po_mode p3 = po_mode p2"
    using 2(1) [OF w [symmetric] refl w2 ev(2) fin(1)] by blast
  with ev(1) fin r port_write_answer(2) [OF w] show ?case by (intro exI [of _ "ev # evs1"]) auto
qed simp

lemma port_history_new: "po_printer p = None \<Longrightarrow> po_completed p = 0 \<Longrightarrow> port_history [] p"
  by (rule port_historyI [of _ "[]" "[]"]) auto


text \<open>A sink that takes every text, and a lease on the window of an evaluation.\<close>

definition plain_env :: "ustr output_env" where
  "plain_env = \<lparr>oe_emit = (\<lambda>s sink. (EContinue, sink @ s)), oe_flush = (\<lambda>sink. (EContinue, sink)), oe_width = length\<rparr>"

definition eval_lease :: value_lease where
  "eval_lease = \<lparr>ls_generation = 1, ls_kind = EvalValueOutput\<rparr>"

definition eval_bridge :: value_bridge where
  "eval_bridge = snd (acquire_value_output EvalValueOutput (begin_value_output EvalValueOutput bridge_default))"

definition sample_events :: "(value_bridge \<times> output_event option) list" where
  "sample_events = map (\<lambda>e. (eval_bridge, Some e)) [OevBeginValue, OevValue EvBeginList, OevValue EvNil, OevValue EvEndList, OevEndValue]"


text \<open>After a failure a port writes nothing more and answers every event with a failure;
  what it answered last is what it is finished with.\<close>

lemma port_failure_final:
  assumes "po_result p \<noteq> EContinue" "port_run env es p sink = ((rs, p1), sink1)"
  shows "sink1 = sink \<and> EContinue \<notin> set rs \<and> fst (port_finish p1 b) \<noteq> EContinue
     \<and> (es \<noteq> [] \<longrightarrow> fst (port_finish p1 b) = last rs)"
proof -
  have last: "es \<noteq> [] \<Longrightarrow> po_result p1 = last rs" if "port_run env es p sink = ((rs, p1), sink1)" for es p sink rs p1 sink1
    using that
  proof (induction env es p sink arbitrary: rs p1 sink1 rule: port_run.induct)
    case (2 env b e es p sink)
    obtain r p2 s2 where w: "port_write env b e p sink = ((r, p2), s2)" by (metis prod.exhaust)
    obtain rs2 p3 s3 where w2: "port_run env es p2 s2 = ((rs2, p3), s3)" by (metis prod.exhaust)
    have "es \<noteq> [] \<Longrightarrow> rs2 \<noteq> []" using w2 by (cases es) (auto split: prod.splits)
    with 2(1) [OF w [symmetric] refl _ w2] 2(3) w w2 port_write_answer(1) [OF w]
    show ?case by (cases "es = []") auto
  qed simp
  have "fst (port_finish p1 b) = po_result p1" if "po_result p1 \<noteq> EContinue"
    using that by (simp add: port_finish_def completion_failure_def)
  with port_run_stuck [OF assms] last [OF assms(2)] show ?thesis by auto
qed

lemma port_failure_final_witness:
  "snd (port_run plain_env sample_events (port_invalidate (fst (new_port plain_env eval_lease PmEvalValue []))) [1]) = [1]"
proof -
  let ?p = "port_invalidate (fst (new_port plain_env eval_lease PmEvalValue []))"
  obtain rs p1 sink1 where run: "port_run plain_env sample_events ?p [1] = ((rs, p1), sink1)" by (metis prod.exhaust)
  have "po_result ?p \<noteq> EContinue" by code_simp
  from port_failure_final [OF this run] run show ?thesis by simp
qed

section \<open>Symbols, chunk by chunk\<close>

primrec print_symbol_chunks :: "'s output_env \<Rightarrow> ustr list \<Rightarrow> 's print_step" where
  "print_symbol_chunks env [] p = (Inr (), p)"
| "print_symbol_chunks env (c # cs) p = try_then (print_symbol_chunk env c p) (\<lambda>_ p1. print_symbol_chunks env cs p1)"

text \<open>The layout holds nothing of the printer.\<close>

definition same_front :: "'s printer \<Rightarrow> 's printer \<Rightarrow> bool" where
  "same_front p q \<longleftrightarrow> pr_atom q = pr_atom p \<and> pr_skipped q = pr_skipped p"

lemma same_front_refl [simp]: "same_front p p"
  by (simp add: same_front_def)

lemma same_front_on_layout [simp]: "same_front p (snd (on_layout f p))"
  by (simp add: same_front_def on_layout_def split: prod.split)

lemma same_front_then:
  "same_front p (snd r) \<Longrightarrow> (\<And>x l. r = (Inr x, l) \<Longrightarrow> same_front l (snd (f x l))) \<Longrightarrow> same_front p (snd (try_then r f))"
  by (auto simp: same_front_def try_then_def split: prod.split sum.split)

lemma same_front_writes:
  "same_front p (snd (print_write env s p))" "same_front p (snd (poll_output env p))"
  "same_front p (snd (append_bounded env b s p))"
  by (simp_all add: print_write_def poll_output_def append_bounded_def same_front_then)

lemma same_front_before: "same_front p (snd (before_value env p))" "same_front p (snd (before_symbol_value env p))"
proof -
  have a: "same_front p (snd (on_layout f (p\<lparr>pr_lists := ls\<rparr>)))" for f and ls :: "list_state list" and p :: "'a printer"
    by (simp add: same_front_def on_layout_def split: prod.split)
  show "same_front p (snd (before_value env p))"
    by (auto simp: before_value_def a same_front_def [of p "p\<lparr>pr_roots := r\<rparr>" for r] split: list.split list_state.split)
  then show "same_front p (snd (before_symbol_value env p))"
    by (auto simp: before_symbol_value_def same_front_def split: list.split list_state.split)
qed

lemma same_front_symbol: "same_front p (snd (write_symbol_chunk env s p))"
proof -
  have "same_front p (snd (symbol_loop env b fs p))" for b fs
    by (induction env b fs p rule: symbol_loop.induct) (auto intro!: same_front_then simp: same_front_writes)
  then show ?thesis by (simp add: write_symbol_chunk_def same_front_writes)
qed

lemma print_symbol_chunk_state:
  assumes "print_symbol_chunk env c p = (Inr (), p1)" "pr_skipped p = 0"
    and "pr_atom p = AsSymbol (symbol_push s symbol_new)"
  shows "pr_skipped p1 = 0 \<and> pr_atom p1 = AsSymbol (symbol_push (s @ c) symbol_new) \<and> list_all valid_symbol_character c"
proof -
  have v: "list_all valid_symbol_character c" using assms(1) by (auto simp: print_symbol_chunk_def split: if_splits)
  show ?thesis
  proof (cases "c = []")
    case True
    with assms v same_front_writes(2) [of p env] show ?thesis
      by (auto simp: print_symbol_chunk_def same_front_def split: if_splits)
  next
    case False
    let ?st = "symbol_push s symbol_new"
    let ?b = "if symbol_is_empty ?st then before_symbol_value env p else (Inr (), p)"
    let ?f = "\<lambda>p1. write_symbol_chunk env c (p1\<lparr>pr_atom := AsSymbol (symbol_push c ?st)\<rparr>)"
    have w: "try_then ?b (\<lambda>_. ?f) = (Inr (), p1)"
      using assms False v by (auto simp: print_symbol_chunk_def split: if_splits)
    obtain p2 where p2: "?b = (Inr (), p2)" "?f p2 = (Inr (), p1)"
      using w by (cases ?b) (auto simp: try_then_def split: sum.splits)
    have "same_front p p2" using same_front_before(2) [of p env] p2(1) by (auto split: if_splits)
    moreover have "same_front (p2\<lparr>pr_atom := AsSymbol (symbol_push c ?st)\<rparr>) p1"
      using same_front_symbol [of "p2\<lparr>pr_atom := AsSymbol (symbol_push c ?st)\<rparr>" env c] p2(2) by simp
    ultimately show ?thesis using assms(2) v by (simp add: same_front_def symbol_push_append)
  qed
qed

lemma print_symbol_chunks_state:
  "print_symbol_chunks env cs p = (Inr (), p1) \<Longrightarrow> pr_skipped p = 0 \<Longrightarrow> pr_atom p = AsSymbol (symbol_push s symbol_new)
     \<Longrightarrow> pr_skipped p1 = 0 \<and> pr_atom p1 = AsSymbol (symbol_push (s @ concat cs) symbol_new)
       \<and> list_all valid_symbol_character (concat cs)"
proof (induction cs arbitrary: p s)
  case (Cons c cs)
  obtain p2 where p2: "print_symbol_chunk env c p = (Inr (), p2)" "print_symbol_chunks env cs p2 = (Inr (), p1)"
    using Cons(2) by (cases "print_symbol_chunk env c p") (auto simp: try_then_def split: sum.splits)
  from Cons(1) [OF p2(2)] print_symbol_chunk_state [OF p2(1) Cons(3,4)] show ?case by auto
qed simp

text \<open> However a symbol is cut into chunks, its end is refused exactly if it is empty or would be
  read as a number or as nil, and its characters are all such as a symbol may have.\<close>

lemma symbols_readable:
  assumes "pr_skipped p = 0" "print_begin_symbol env p = (Inr (), p1)" "print_symbol_chunks env cs p1 = (Inr (), p2)"
  shows "(fst (print_end_symbol env p2) = Inl PeInvalidSequence
        \<longleftrightarrow> concat cs = [] \<or> number_text (concat cs) \<or> nil_text (concat cs))
     \<and> list_all valid_symbol_character (concat cs)"
proof -
  have p1: "pr_skipped p1 = 0" "pr_atom p1 = AsSymbol (symbol_push [] symbol_new)"
    using assms(1,2) same_front_writes(2) [of p env]
    by (auto simp: print_begin_symbol_def require_no_atom_def same_front_def try_then_def split: if_splits prod.splits sum.splits)
  note p2 = print_symbol_chunks_state [OF assms(3) p1]
  have "fst (poll_output env p2) \<noteq> Inl PeInvalidSequence"
    by (simp add: poll_output_def on_layout_def layout_poll_def emit_answer_def split: prod.split)
  then have "fst (try_then (poll_output env p2) (\<lambda>_ p3. (Inr (), p3\<lparr>pr_atom := AsNone\<rparr>))) \<noteq> Inl PeInvalidSequence"
    by (auto simp: try_then_def split: prod.split sum.split)
  with p2 show ?thesis by (simp add: print_end_symbol_def symbol_is_valid_iff)
qed

lemma symbols_readable_witness:
  "fst (print_end_symbol plain_env (snd (print_symbol_chunks plain_env [[49], [101, 45], [51]]
     (snd (print_begin_symbol plain_env (new_printer []))))))
   = Inl PeInvalidSequence"
proof -
  let ?p1 = "snd (print_begin_symbol plain_env (new_printer []))"
  let ?p2 = "snd (print_symbol_chunks plain_env [[49], [101, 45], [51]] ?p1)"
  have "fst (print_begin_symbol plain_env (new_printer [])) = Inr ()" by code_simp
  then have a: "print_begin_symbol plain_env (new_printer []) = (Inr (), ?p1)" by (metis prod.collapse)
  have "fst (print_symbol_chunks plain_env [[49], [101, 45], [51]] ?p1) = Inr ()" by code_simp
  then have b: "print_symbol_chunks plain_env [[49], [101, 45], [51]] ?p1 = (Inr (), ?p2)" by (metis prod.collapse)
  have "signed_digits [49]" "signed_digits [45, 51]" by code_simp+
  then have "number_text ([49] @ 101 # [45, 51])" unfolding number_text_def by blast
  with symbols_readable [OF _ a b] show ?thesis by (simp add: new_printer_def)
qed

end
