(* ===== verification/Value_Render.thy ===== *)
theory Value_Render
  imports Value_Document Value_Protocol
begin

text \<open>
  Whole values: the events the host sends for a value, the document the value is printed as, and that
  the printer, given these events, writes the rendering of that document.
\<close>

section \<open>Values, their events and their documents\<close>

datatype lisp_atom =
    LaNil | LaTrue | LaInt "64 word" | LaReal float64
  | LaString "ustr list"
  | LaSymbol "ustr list"
  | LaEntity "ustr option"
  | LaOpaque value_event

datatype lisp_value = LvAtom lisp_atom | LvList "lisp_value list" | LvDotted "lisp_value list" lisp_value

fun atom_events :: "lisp_atom \<Rightarrow> value_event list" where
  "atom_events LaNil = [EvNil]"
| "atom_events LaTrue = [EvTrue]"
| "atom_events (LaInt v) = [EvInteger v]"
| "atom_events (LaReal v) = [EvReal v]"
| "atom_events (LaString cs) = EvBeginString # map EvStringChunk cs @ [EvEndString]"
| "atom_events (LaSymbol cs) = EvBeginSymbol # map EvSymbolChunk cs @ [EvEndSymbol]"
| "atom_events (LaEntity h) = [EvEntity h]"
| "atom_events (LaOpaque e) = [e]"

fun value_events :: "lisp_value \<Rightarrow> value_event list" and values_events :: "lisp_value list \<Rightarrow> value_event list" where
  "value_events (LvAtom a) = atom_events a"
| "value_events (LvList vs) = EvBeginList # values_events vs @ [EvEndList]"
| "value_events (LvDotted vs v) = EvBeginList # values_events vs @ EvDot # value_events v @ [EvEndList]"
| "values_events [] = []"
| "values_events (v # vs) = value_events v @ values_events vs"

text \<open>The kind and the payload of a value that can only be named.\<close>

definition opaque_event :: "value_event \<Rightarrow> (opaque_kind \<times> ustr option) option" where
  "opaque_event e = (case e of
     EvSelectionSet \<Rightarrow> Some (OkSelectionSet, None)
   | EvVlaObject \<Rightarrow> Some (OkVlaObject, None)
   | EvFile \<Rightarrow> Some (OkFile, None)
   | EvFunction \<Rightarrow> Some (OkFunction, None)
   | EvErrorObject \<Rightarrow> Some (OkError, None)
   | EvObject label \<Rightarrow> Some (OkObject,
       case label of Some s \<Rightarrow> if valid_label s MAX_OBJECT_LABEL_BYTES then Some s else None | None \<Rightarrow> None)
   | EvCycle \<Rightarrow> Some (OkCycle, None)
   | EvTooDeep \<Rightarrow> Some (OkTooDeep, None)
   | _ \<Rightarrow> None)"

definition opaque_texts :: "opaque_kind \<Rightarrow> ustr option \<Rightarrow> ustr list" where
  "opaque_texts k payload = [lit ''#<'', opaque_name k]
     @ (case payload of Some s \<Rightarrow> if s \<noteq> [] then [[ch_space], s] else [] | None \<Rightarrow> []) @ [lit ''>'']"

text \<open>What goes through a buffer of bounded size.\<close>

fun bounded_texts :: "ustr \<Rightarrow> ustr list \<Rightarrow> ustr list" where
  "bounded_texts buffer [] = [buffer]"
| "bounded_texts buffer (s # ss) =
     (if byte_len buffer + byte_len s > OUTPUT_CHUNK_BYTES then buffer # bounded_texts s ss
      else bounded_texts (buffer @ s) ss)"

definition string_texts :: "ustr \<Rightarrow> ustr list" where
  "string_texts s = (if \<not> list_ex requires_readable_escape s then [s] else bounded_texts [] (map escape_char s))"

definition fragment_texts :: "ustr \<Rightarrow> ustr list" where
  "fragment_texts f = (if f \<noteq> [] \<and> last f = ch_bslash then [butlast f, [ch_bslash, ch_bslash]] else [f])"

definition symbol_texts :: "ustr \<Rightarrow> ustr list" where
  "symbol_texts s = (if ch_bslash \<notin> set s then [s]
     else bounded_texts [] (concat (map fragment_texts (split_inclusive ch_bslash s))))"

fun atom_texts :: "lisp_atom \<Rightarrow> ustr list" where
  "atom_texts LaNil = [lit ''nil'']"
| "atom_texts LaTrue = [lit ''T'']"
| "atom_texts (LaInt v) = [dec_int (sint v)]"
| "atom_texts (LaReal v) = [the (format_autolisp_real v)]"
| "atom_texts (LaString cs) = [[ch_dquote]] @ concat (map string_texts cs) @ [[ch_dquote]]"
| "atom_texts (LaSymbol cs) = concat (map symbol_texts (filter (\<lambda>c. c \<noteq> []) cs))"
| "atom_texts (LaEntity h) = (case entity_handle h of
     None \<Rightarrow> opaque_texts OkEntity None | Some s \<Rightarrow> [lit ''(handent \"'', s, lit ''\")''])"
| "atom_texts (LaOpaque e) = (case opaque_event e of None \<Rightarrow> [] | Some (k, payload) \<Rightarrow> opaque_texts k payload)"

fun atom_ok :: "lisp_atom \<Rightarrow> bool" where
  "atom_ok (LaReal v) = (format_autolisp_real v \<noteq> None)"
| "atom_ok (LaString cs) = list_all (\<lambda>c. byte_len c \<le> MAX_VALUE_TEXT_BYTES) cs"
| "atom_ok (LaSymbol cs) = (list_all (\<lambda>c. byte_len c \<le> MAX_VALUE_TEXT_BYTES \<and> list_all valid_symbol_character c) cs
     \<and> concat cs \<noteq> [] \<and> \<not> number_text (concat cs) \<and> \<not> nil_text (concat cs))"
| "atom_ok (LaOpaque e) = (opaque_event e \<noteq> None)"
| "atom_ok _ = True"

fun value_ok :: "lisp_value \<Rightarrow> bool" and values_ok :: "lisp_value list \<Rightarrow> bool" where
  "value_ok (LvAtom a) = atom_ok a"
| "value_ok (LvList vs) = values_ok vs"
| "value_ok (LvDotted vs v) = (vs \<noteq> [] \<and> values_ok vs \<and> value_ok v)"
| "values_ok [] = True"
| "values_ok (v # vs) = (value_ok v \<and> values_ok vs)"

fun value_depth :: "lisp_value \<Rightarrow> nat" and values_depth :: "lisp_value list \<Rightarrow> nat" where
  "value_depth (LvAtom a) = 0"
| "value_depth (LvList vs) = Suc (values_depth vs)"
| "value_depth (LvDotted vs v) = Suc (max (values_depth vs) (value_depth v))"
| "values_depth [] = 0"
| "values_depth (v # vs) = max (value_depth v) (values_depth vs)"

definition is_symbol :: "lisp_value \<Rightarrow> bool" where
  "is_symbol v = (case v of LvAtom (LaSymbol cs) \<Rightarrow> True | _ \<Rightarrow> False)"

text \<open>The document of a value inside \<open>d\<close> lists.  A first symbol follows its parenthesis at once; a list
  that is too deep is replaced.\<close>

definition first_line :: "nat \<Rightarrow> lisp_value \<Rightarrow> doc list" where
  "first_line d v = (if is_symbol v then [] else [DcLine [] (indent_for_depth d)])"

definition next_line :: "nat \<Rightarrow> doc list" where
  "next_line d = [DcLine [ch_space] (indent_for_depth d)]"

definition list_doc :: "nat \<Rightarrow> bool \<Rightarrow> doc list \<Rightarrow> doc" where
  "list_doc d none ds = DcGroup (depth_kind d)
     (DcText [ch_lparen] # ds @ (if none then [] else [DcLine [] (indent_for_depth d)]) @ [DcText [ch_rparen]])"

definition too_deep_docs :: "doc list" where
  "too_deep_docs = map DcText (opaque_texts OkTooDeep None)"

fun value_docs :: "nat \<Rightarrow> lisp_value \<Rightarrow> doc list" and items_docs :: "nat \<Rightarrow> bool \<Rightarrow> lisp_value list \<Rightarrow> doc list" where
  "value_docs d (LvAtom a) = map DcText (atom_texts a)"
| "value_docs d (LvList vs) =
     (if d = MAX_VALUE_DEPTH then too_deep_docs else [list_doc d (vs = []) (items_docs (Suc d) True vs)])"
| "value_docs d (LvDotted vs v) =
     (if d = MAX_VALUE_DEPTH then too_deep_docs
      else [list_doc d False (items_docs (Suc d) True vs @ next_line (Suc d) @ DcText [ch_dot] # next_line (Suc d) @ value_docs (Suc d) v)])"
| "items_docs d first [] = []"
| "items_docs d first (v # vs) =
     (if first then first_line d v else next_line d) @ value_docs d v @ items_docs d False vs"

text \<open>The events of a value, one after the other.\<close>

primrec print_events :: "'s output_env \<Rightarrow> value_event list \<Rightarrow> 's print_step" where
  "print_events env [] p = (Inr (), p)"
| "print_events env (e # es) p = try_then (print_event env e p) (\<lambda>_ p1. print_events env es p1)"

lemma try_then_assoc: "try_then (try_then r f) g = try_then r (\<lambda>x l. try_then (f x l) g)"
  by (auto simp: try_then_def split: prod.split sum.split)

lemma print_events_append:
  "print_events env (es @ fs) p = try_then (print_events env es p) (\<lambda>_ p1. print_events env fs p1)"
  by (induction es arbitrary: p) (simp_all add: try_then_assoc)

primrec print_texts :: "'s output_env \<Rightarrow> ustr list \<Rightarrow> 's print_step" where
  "print_texts env [] p = (Inr (), p)"
| "print_texts env (s # ss) p = try_then (print_write env s p) (\<lambda>_ p1. print_texts env ss p1)"

lemma print_texts_append:
  "print_texts env (ss @ ts) p = try_then (print_texts env ss p) (\<lambda>_ p1. print_texts env ts p1)"
  by (induction ss arbitrary: p) (simp_all add: try_then_assoc)

lemma try_then_return: "try_then r (\<lambda>x l. (Inr x, l)) = r"
  by (auto simp: try_then_def split: prod.split sum.split)

lemma try_then_unit: "try_then r (\<lambda>x l. (Inr (), l)) = r"
  using try_then_return [of r] by simp

lemma append_then:
  "try_then (append_bounded env b s p) (\<lambda>b1 p1. print_texts env (bounded_texts b1 ss) p1)
     = print_texts env (bounded_texts b (s # ss)) p"
  by (simp add: append_bounded_def try_then_assoc)

lemma escape_loop_texts: "escape_loop env b s = print_texts env (bounded_texts b (map escape_char s))"
proof (induction s arbitrary: b)
  case Nil
  show ?case by (rule ext) (simp add: try_then_unit)
next
  case (Cons c s)
  show ?case by (rule ext) (simp add: Cons append_then del: bounded_texts.simps)
qed

lemma symbol_loop_texts: "symbol_loop env b fs = print_texts env (bounded_texts b (concat (map fragment_texts fs)))"
proof (induction fs arbitrary: b)
  case Nil
  show ?case by (rule ext) (simp add: try_then_unit)
next
  case (Cons f fs)
  have a: "(\<lambda>b1. print_texts env (bounded_texts b1 ss)) = (\<lambda>b1 p1. print_texts env (bounded_texts b1 ss) p1)" for ss by simp
  have t: "(\<lambda>b1 p1. try_then (append_bounded env b1 s p1) (\<lambda>b2. print_texts env (bounded_texts b2 ss)))
      = (\<lambda>b1. print_texts env (bounded_texts b1 (s # ss)))" for s ss
    by (intro ext) (simp add: append_then del: bounded_texts.simps)
  show ?case
    by (rule ext) (simp add: Cons append_then t fragment_texts_def del: bounded_texts.simps)
qed

section \<open>The printer writes the document\<close>

text \<open>Where the next value goes: the tokens before it and the printer after them.\<close>

definition slot :: "bool \<Rightarrow> 's printer \<Rightarrow> (token list \<times> 's printer) option" where
  "slot symb p = (case pr_lists p of
     [] \<Rightarrow> if pr_roots p = u64_max then None else Some ([], p\<lparr>pr_roots := pr_roots p + 1\<rparr>)
   | LsEmpty # rest \<Rightarrow> Some (if symb then [] else [TkLine [] (indent_for_depth (length (pr_lists p)))],
       p\<lparr>pr_lists := LsValues # rest\<rparr>)
   | LsValues # rest \<Rightarrow> Some ([TkLine [ch_space] (indent_for_depth (length (pr_lists p)))], p)
   | LsAwaitingTail # rest \<Rightarrow> Some ([TkLine [ch_space] (indent_for_depth (length (pr_lists p)))],
       p\<lparr>pr_lists := LsComplete # rest\<rparr>)
   | LsComplete # rest \<Rightarrow> None)"

definition ready :: "'s printer \<Rightarrow> bool" where
  "ready p \<longleftrightarrow> pr_atom p = AsNone \<and> pr_skipped p = 0"

lemma slot_ready: "slot symb p = Some (us, q) \<Longrightarrow> ready p \<Longrightarrow> ready q"
  by (auto simp: slot_def ready_def split: list.splits list_state.splits if_splits)

lemma layout_last [simp]:
  "p\<lparr>pr_layout := l, pr_lists := x\<rparr> = p\<lparr>pr_lists := x, pr_layout := l\<rparr>"
  "p\<lparr>pr_layout := l, pr_atom := a\<rparr> = p\<lparr>pr_atom := a, pr_layout := l\<rparr>"
  "p\<lparr>pr_layout := l, pr_skipped := n\<rparr> = p\<lparr>pr_skipped := n, pr_layout := l\<rparr>"
  "p\<lparr>pr_layout := l, pr_roots := n\<rparr> = p\<lparr>pr_roots := n, pr_layout := l\<rparr>"
  by (cases p; simp)+

lemma print_texts_write:
  "print_texts env [s] = print_write env s"
  "print_texts env (s # t # ss) = (\<lambda>p. try_then (print_write env s p) (\<lambda>_. print_texts env (t # ss)))"
  by (rule ext, simp add: try_then_unit) (rule ext, subst print_texts.simps(2), rule refl)

text \<open>The front state inside a symbol that began with the text \<open>s\<close>.\<close>

abbreviation "symbol_at s p \<equiv> p\<lparr>pr_atom := AsSymbol (symbol_push s symbol_new)\<rparr>"

definition chunk_ok :: "ustr \<Rightarrow> bool" where
  "chunk_ok c \<longleftrightarrow> byte_len c \<le> MAX_VALUE_TEXT_BYTES \<and> list_all valid_symbol_character c"

context text_sink
begin

text \<open>From the front state of \<open>p\<close> the operation adds the tokens and ends in the front state of \<open>q\<close>,
  whatever the layout holds, if these tokens can be laid out.\<close>

definition emits :: "'s print_step \<Rightarrow> 's printer \<Rightarrow> token list \<Rightarrow> 's printer \<Rightarrow> bool" where
  "emits f p us q \<longleftrightarrow> (\<forall>s0 ts l. logged s0 ts l \<longrightarrow> legal (ts @ us)
     \<longrightarrow> (\<exists>l1. f (p\<lparr>pr_layout := l\<rparr>) = (Inr (), q\<lparr>pr_layout := l1\<rparr>) \<and> logged s0 (ts @ us) l1))"

lemma emits_then:
  assumes "emits f p us q" "emits g q vs r"
  shows "emits (\<lambda>p. try_then (f p) (\<lambda>_. g)) p (us @ vs) r"
  unfolding emits_def
proof (intro allI impI)
  fix s0 ts l
  assume l: "logged s0 ts l" "legal (ts @ us @ vs)"
  then have "legal (ts @ us)" using legal_prefix [of "ts @ us" vs] by simp
  then obtain l1 where l1: "f (p\<lparr>pr_layout := l\<rparr>) = (Inr (), q\<lparr>pr_layout := l1\<rparr>)" "logged s0 (ts @ us) l1"
    using assms(1) l(1) unfolding emits_def by blast
  have "legal ((ts @ us) @ vs)" using l(2) by simp
  then obtain l2 where "g (q\<lparr>pr_layout := l1\<rparr>) = (Inr (), r\<lparr>pr_layout := l2\<rparr>)" "logged s0 ((ts @ us) @ vs) l2"
    using assms(2) l1(2) unfolding emits_def by blast
  with l1 show "\<exists>l1. try_then (f (p\<lparr>pr_layout := l\<rparr>)) (\<lambda>_. g) = (Inr (), r\<lparr>pr_layout := l1\<rparr>) \<and> logged s0 (ts @ us @ vs) l1"
    by auto
qed

lemma emits_then_nothing: "emits f p us q \<Longrightarrow> emits g q [] r \<Longrightarrow> emits (\<lambda>p. try_then (f p) (\<lambda>_. g)) p us r"
  using emits_then [of f p us q g "[]" r] by simp

lemma emits_cong:
  "emits f p us q \<Longrightarrow> (\<And>l. g (p1\<lparr>pr_layout := l\<rparr>) = f (p\<lparr>pr_layout := l\<rparr>)) \<Longrightarrow> emits g p1 us q"
  by (simp add: emits_def)

lemma emits_return: "(\<And>l. f (p\<lparr>pr_layout := l\<rparr>) = (Inr (), q\<lparr>pr_layout := l\<rparr>)) \<Longrightarrow> emits f p [] q"
  by (auto simp: emits_def)

lemma emits_op: "emits (on_layout (apply_op env op)) p (op_tokens op) p"
  unfolding emits_def
proof (intro allI impI)
  fix s0 ts l
  assume "logged s0 ts l" "legal (ts @ op_tokens op)"
  from takes_legal [OF apply_op_takes [OF this(1)] this(2)]
  show "\<exists>l1. on_layout (apply_op env op) (p\<lparr>pr_layout := l\<rparr>) = (Inr (), p\<lparr>pr_layout := l1\<rparr>) \<and> logged s0 (ts @ op_tokens op) l1"
    by (auto simp: on_layout_def)
qed

lemma emits_line: "emits (on_layout (layout_line env flat d)) p [TkLine flat (indent_for_depth d)] p"
  using emits_op [of "OpLine flat d" p] by (simp add: apply_op_def)

lemma emits_write: "emits (print_write env s) p (doc_tokens (DcText s)) p"
  using emits_op [of "OpText s" p] by (auto simp: apply_op_def print_write_def emits_def)

lemma emits_poll: "emits (poll_output env) p [] p"
  unfolding emits_def
proof (intro allI impI)
  fix s0 ts l
  assume "logged s0 ts l"
  then obtain l1 where "layout_poll env l = (Inr (), l1)" "logged s0 ts l1" using layout_poll_open by metis
  then show "\<exists>l1. poll_output env (p\<lparr>pr_layout := l\<rparr>) = (Inr (), p\<lparr>pr_layout := l1\<rparr>) \<and> logged s0 (ts @ []) l1"
    by (intro exI [of _ l1]) (simp add: poll_output_def on_layout_def)
qed

lemma emits_texts: "emits (print_texts env ss) p (docs_tokens (map DcText ss)) p"
proof (induction ss)
  case (Cons s ss)
  have "emits (\<lambda>p. try_then (print_write env s p) (\<lambda>_. print_texts env ss)) p (docs_tokens (map DcText (s # ss))) p"
    using emits_then [OF emits_write [of s p] Cons] by simp
  then show ?case by (rule emits_cong) simp
qed (simp add: emits_return)

lemma emits_before_value:
  assumes "slot False p = Some (us, q)"
  shows "emits (before_value env) p us q"
proof (cases "pr_lists p")
  case Nil
  with assms have "us = []" "q = p\<lparr>pr_roots := pr_roots p + 1\<rparr>" "pr_roots p \<noteq> u64_max"
    by (auto simp: slot_def split: if_splits)
  with Nil show ?thesis by (auto intro!: emits_return simp: before_value_def)
next
  case (Cons st rest)
  let ?line = "\<lambda>flat. on_layout (layout_line env flat (length (pr_lists p)))"
  show ?thesis
  proof (cases st)
    case LsEmpty
    with Cons assms have q: "q = p\<lparr>pr_lists := LsValues # rest\<rparr>" "us = [TkLine [] (indent_for_depth (length (pr_lists p)))]"
      by (simp_all add: slot_def)
    show ?thesis unfolding q(2) by (rule emits_cong [OF emits_line]) (simp add: before_value_def Cons LsEmpty q(1))
  next
    case LsValues
    with Cons assms have q: "q = p" "us = [TkLine [ch_space] (indent_for_depth (length (pr_lists p)))]"
      by (simp_all add: slot_def)
    show ?thesis unfolding q(2) by (rule emits_cong [OF emits_line]) (simp add: before_value_def Cons LsValues q(1))
  next
    case LsAwaitingTail
    with Cons assms have q: "q = p\<lparr>pr_lists := LsComplete # rest\<rparr>" "us = [TkLine [ch_space] (indent_for_depth (length (pr_lists p)))]"
      by (simp_all add: slot_def)
    show ?thesis unfolding q(2) by (rule emits_cong [OF emits_line]) (simp add: before_value_def Cons LsAwaitingTail q(1))
  qed (use assms Cons in \<open>simp add: slot_def\<close>)
qed

lemma emits_before_symbol_value:
  assumes "slot True p = Some (us, q)"
  shows "emits (before_symbol_value env) p us q"
proof (cases "\<exists>rest. pr_lists p = LsEmpty # rest")
  case True
  with assms show ?thesis by (auto simp: slot_def before_symbol_value_def intro!: emits_return)
next
  case False
  then have "slot False p = Some (us, q)" using assms by (auto simp: slot_def split: list.splits list_state.splits)
  from emits_before_value [OF this] show ?thesis
    by (rule emits_cong) (use False in \<open>auto simp: before_symbol_value_def split: list.split list_state.split\<close>)
qed

lemma emits_scalar:
  assumes "ready p" "slot False p = Some (us, q)"
  shows "emits (print_scalar env s) p (us @ doc_tokens (DcText s)) q"
  by (rule emits_cong [OF emits_then [OF emits_before_value [OF assms(2)] emits_write]])
     (use assms(1) in \<open>simp add: print_scalar_def require_no_atom_def ready_def\<close>)

lemma emits_valued_texts:
  assumes "slot False p = Some (us, q)"
    and "\<And>l. f (p\<lparr>pr_layout := l\<rparr>) = try_then (before_value env (p\<lparr>pr_layout := l\<rparr>)) (\<lambda>_. print_texts env ss)"
  shows "emits f p (us @ docs_tokens (map DcText ss)) q"
  by (rule emits_cong [OF emits_then [OF emits_before_value [OF assms(1)] emits_texts]]) (simp add: assms(2))

lemma opaque_value_texts:
  "ready p \<Longrightarrow> opaque_value env k payload p = try_then (before_value env p) (\<lambda>_. print_texts env (opaque_texts k payload))"
  by (cases payload)
     (simp_all add: opaque_value_def ready_def require_no_atom_def opaque_texts_def try_then_assoc print_texts_write del: print_texts.simps)

lemma ready_layout [simp]: "ready (p\<lparr>pr_layout := l\<rparr>) = ready p"
  by (simp add: ready_def)

lemma emits_opaque:
  "ready p \<Longrightarrow> slot False p = Some (us, q)
     \<Longrightarrow> emits (opaque_value env k payload) p (us @ docs_tokens (map DcText (opaque_texts k payload))) q"
  by (rule emits_valued_texts) (simp_all add: opaque_value_texts)

lemma emits_entity:
  assumes "ready p" "slot False p = Some (us, q)"
  shows "emits (print_entity env h) p (us @ docs_tokens (map DcText (atom_texts (LaEntity h)))) q"
proof (cases "entity_handle h")
  case None
  show ?thesis
    using emits_opaque [OF assms, of OkEntity None] None by (auto simp: print_entity_def intro: emits_cong)
next
  case (Some s)
  show ?thesis
    by (rule emits_valued_texts [OF assms(2)])
       (use assms(1) Some in \<open>simp add: print_entity_def ready_def require_no_atom_def print_texts_write del: print_texts.simps\<close>)
qed

lemma emits_list: "emits (on_layout (begin_group env d)) p [TkBegin (depth_kind d)] p"
  "emits (on_layout (end_group env)) p [TkEnd] p"
  using emits_op [of "OpBegin d" p] emits_op [of OpEnd p] by (simp_all add: apply_op_def)

lemma emits_set: "(\<And>l. f (p\<lparr>pr_layout := l\<rparr>) = q\<lparr>pr_layout := l\<rparr>) \<Longrightarrow> emits (\<lambda>p. (Inr (), f p)) p [] q"
  by (simp add: emits_return)

text \<open>Strings.\<close>

lemma emits_begin_string:
  assumes "ready p" "slot False p = Some (us, q)"
  shows "emits (print_begin_string env) p (us @ doc_tokens (DcText [ch_dquote])) (q\<lparr>pr_atom := AsString\<rparr>)"
proof -
  let ?set = "\<lambda>p. p\<lparr>pr_atom := AsString\<rparr>"
  have "emits (\<lambda>p. try_then (poll_output env p) (\<lambda>_ p. try_then (before_value env p) (\<lambda>_ p. try_then (print_write env [ch_dquote] p)
      (\<lambda>_ p. (Inr (), ?set p))))) p ([] @ us @ doc_tokens (DcText [ch_dquote]) @ []) (?set q)"
    by (intro emits_then [OF emits_poll] emits_then [OF emits_before_value [OF assms(2)]] emits_then [OF emits_write] emits_set) simp
  then have "emits (\<lambda>p. try_then (poll_output env p) (\<lambda>_ p. try_then (before_value env p) (\<lambda>_ p. try_then (print_write env [ch_dquote] p)
      (\<lambda>_ p. (Inr (), ?set p))))) p (us @ doc_tokens (DcText [ch_dquote])) (?set q)" by simp
  then show ?thesis
    by (rule emits_cong) (use assms(1) in \<open>simp add: print_begin_string_def ready_def require_no_atom_def\<close>)
qed

lemma emits_string_chunk:
  assumes "pr_skipped p = 0" "pr_atom p = AsString" "byte_len c \<le> MAX_VALUE_TEXT_BYTES"
  shows "emits (print_string_chunk env c) p (docs_tokens (map DcText (string_texts c))) p"
proof (cases "list_ex requires_readable_escape c")
  case True
  with emits_texts [of "string_texts c" p] assms(3) show ?thesis
    by (auto elim!: emits_cong simp: print_string_chunk_def assms(1,2) escape_loop_texts string_texts_def not_less)
next
  case False
  with emits_write [of c p] assms(3) show ?thesis
    by (auto elim!: emits_cong simp: print_string_chunk_def assms(1,2) string_texts_def not_less)
qed

lemma emits_string_chunks:
  assumes "pr_skipped p = 0" "pr_atom p = AsString" "list_all (\<lambda>c. byte_len c \<le> MAX_VALUE_TEXT_BYTES) cs"
  shows "emits (print_events env (map EvStringChunk cs)) p (docs_tokens (map DcText (concat (map string_texts cs)))) p"
  using assms(3)
proof (induction cs)
  case (Cons c cs)
  then have "byte_len c \<le> MAX_VALUE_TEXT_BYTES" by simp
  from emits_then [OF emits_string_chunk [OF assms(1,2) this] Cons.IH] Cons.prems
  have "emits (\<lambda>p. try_then (print_string_chunk env c p) (\<lambda>_. print_events env (map EvStringChunk cs))) p
      (docs_tokens (map DcText (concat (map string_texts (c # cs))))) p" by simp
  then show ?case by (rule emits_cong) (simp add: print_event_def)
qed (simp add: emits_return)

lemma emits_end_string:
  assumes "pr_skipped p = 0" "pr_atom p = AsString"
  shows "emits (print_end_string env) p (doc_tokens (DcText [ch_dquote])) (p\<lparr>pr_atom := AsNone\<rparr>)"
proof -
  have set: "emits (\<lambda>p. print_write env [ch_dquote] (p\<lparr>pr_atom := AsNone\<rparr>)) p (doc_tokens (DcText [ch_dquote])) (p\<lparr>pr_atom := AsNone\<rparr>)"
    by (rule emits_cong [OF emits_write [of _ "p\<lparr>pr_atom := AsNone\<rparr>"]]) simp
  have "emits (\<lambda>p. try_then (poll_output env p) (\<lambda>_ p. print_write env [ch_dquote] (p\<lparr>pr_atom := AsNone\<rparr>))) p
      (doc_tokens (DcText [ch_dquote])) (p\<lparr>pr_atom := AsNone\<rparr>)"
    using emits_then [OF emits_poll set] by simp
  then show ?thesis by (rule emits_cong) (simp add: print_end_string_def assms)
qed

text \<open>Symbols.\<close>

lemma emits_write_symbol: "emits (write_symbol_chunk env c) p (docs_tokens (map DcText (symbol_texts c))) p"
proof (cases "ch_bslash \<in> set c")
  case True
  with emits_texts [of "symbol_texts c" p] show ?thesis
    by (auto elim!: emits_cong simp: write_symbol_chunk_def symbol_loop_texts symbol_texts_def)
next
  case False
  with emits_write [of c p] show ?thesis by (auto elim!: emits_cong simp: write_symbol_chunk_def symbol_texts_def)
qed

lemma emits_symbol_chunk_more:
  assumes "pr_skipped p = 0" "chunk_ok c" "s \<noteq> []"
  shows "emits (print_symbol_chunk env c) (symbol_at s p)
    (docs_tokens (map DcText (concat (map symbol_texts (filter (\<lambda>c. c \<noteq> []) [c]))))) (symbol_at (s @ c) p)"
proof (cases "c = []")
  case True
  show ?thesis unfolding True
    by (rule emits_cong [where f = "poll_output env" and p = "symbol_at s p"])
       (use emits_poll [of "symbol_at s p"] in \<open>simp_all add: print_symbol_chunk_def assms(1)\<close>)
next
  case False
  have "emits (print_symbol_chunk env c) (symbol_at s p) (docs_tokens (map DcText (symbol_texts c))) (symbol_at (s @ c) p)"
    by (rule emits_cong [OF emits_write_symbol])
       (use assms False in \<open>simp add: print_symbol_chunk_def chunk_ok_def symbol_is_empty_iff symbol_push_append not_less\<close>)
  with False show ?thesis by simp
qed

lemma emits_symbol_chunk_first:
  assumes "pr_skipped p = 0" "chunk_ok c" "c \<noteq> []" "slot True p = Some (us, q)"
  shows "emits (print_symbol_chunk env c) (symbol_at [] p) (us @ docs_tokens (map DcText (symbol_texts c))) (symbol_at c q)"
proof -
  have slot: "slot True (symbol_at [] p) = Some (us, symbol_at [] q)"
    using assms(4) by (auto simp: slot_def split: list.splits list_state.splits if_splits)
  have w: "emits (\<lambda>p. write_symbol_chunk env c (p\<lparr>pr_atom := AsSymbol (symbol_push c symbol_new)\<rparr>)) (symbol_at [] q)
      (docs_tokens (map DcText (symbol_texts c))) (symbol_at c q)"
    by (rule emits_cong [OF emits_write_symbol [of c "symbol_at c q"]]) simp
  show ?thesis
    by (rule emits_cong [OF emits_then [OF emits_before_symbol_value [OF slot] w]])
       (use assms in \<open>simp add: print_symbol_chunk_def chunk_ok_def not_less symbol_is_empty_iff [of "[]", simplified]\<close>)
qed

lemma emits_symbol_chunks_more:
  assumes "pr_skipped p = 0" "list_all chunk_ok cs" "s \<noteq> []"
  shows "emits (print_events env (map EvSymbolChunk cs)) (symbol_at s p)
    (docs_tokens (map DcText (concat (map symbol_texts (filter (\<lambda>c. c \<noteq> []) cs))))) (symbol_at (s @ concat cs) p)"
  using assms(2,3)
proof (induction cs arbitrary: s)
  case (Cons c cs)
  have c: "chunk_ok c" "list_all chunk_ok cs" "s @ c \<noteq> []" using Cons.prems by simp_all
  from emits_then [OF emits_symbol_chunk_more [OF assms(1) c(1) Cons.prems(2)] Cons.IH [OF c(2,3)]]
  have "emits (\<lambda>p. try_then (print_symbol_chunk env c p) (\<lambda>_. print_events env (map EvSymbolChunk cs))) (symbol_at s p)
      (docs_tokens (map DcText (concat (map symbol_texts (filter (\<lambda>c. c \<noteq> []) (c # cs)))))) (symbol_at (s @ concat (c # cs)) p)"
    by (cases "c = []") simp_all
  then show ?case by (rule emits_cong) (simp add: print_event_def)
qed (simp add: emits_return)

lemma emits_symbol_chunks:
  assumes "pr_skipped p = 0" "list_all chunk_ok cs" "concat cs \<noteq> []" "slot True p = Some (us, q)" "pr_skipped q = 0"
  shows "emits (print_events env (map EvSymbolChunk cs)) (symbol_at [] p)
    (us @ docs_tokens (map DcText (concat (map symbol_texts (filter (\<lambda>c. c \<noteq> []) cs))))) (symbol_at (concat cs) q)"
  using assms(2,3)
proof (induction cs)
  case (Cons c cs)
  have c: "chunk_ok c" "list_all chunk_ok cs" using Cons.prems by simp_all
  show ?case
  proof (cases "c = []")
    case True
    have poll: "emits (print_symbol_chunk env []) (symbol_at [] p) [] (symbol_at [] p)"
      by (rule emits_cong [OF emits_poll [of "symbol_at [] p"]]) (simp add: print_symbol_chunk_def assms(1))
    from emits_then [OF poll Cons.IH] c(2) Cons.prems(2) True
    have "emits (\<lambda>p. try_then (print_symbol_chunk env [] p) (\<lambda>_. print_events env (map EvSymbolChunk cs))) (symbol_at [] p)
        (us @ docs_tokens (map DcText (concat (map symbol_texts (filter (\<lambda>c. c \<noteq> []) (c # cs)))))) (symbol_at (concat (c # cs)) q)"
      by simp
    then show ?thesis unfolding True by (rule emits_cong) (simp add: print_event_def)
  next
    case False
    from emits_then [OF emits_symbol_chunk_first [OF assms(1) c(1) False assms(4)] emits_symbol_chunks_more [OF assms(5) c(2) False]]
    have "emits (\<lambda>p. try_then (print_symbol_chunk env c p) (\<lambda>_. print_events env (map EvSymbolChunk cs))) (symbol_at [] p)
        (us @ docs_tokens (map DcText (concat (map symbol_texts (filter (\<lambda>c. c \<noteq> []) (c # cs)))))) (symbol_at (concat (c # cs)) q)"
      using False by simp
    then show ?thesis by (rule emits_cong) (simp add: print_event_def)
  qed
qed simp

end

end
