(* ===== verification/Value_Written.thy ===== *)
theory Value_Written
  imports Value_Render
begin

text \<open>
  Whole values through the printer: atoms, lists, dotted lists, and the lists that are too deep.
\<close>

lemma slot_frame:
  "slot symb p = Some (us, q) \<Longrightarrow> pr_skipped q = pr_skipped p \<and> pr_atom q = pr_atom p \<and> length (pr_lists q) = length (pr_lists p)"
  by (auto simp: slot_def split: list.splits list_state.splits if_splits)

lemma set_back [simp]: "pr_atom p = a \<Longrightarrow> p\<lparr>pr_atom := a\<rparr> = p" "pr_skipped p = n \<Longrightarrow> p\<lparr>pr_skipped := n\<rparr> = p"
  "pr_lists p = ls \<Longrightarrow> p\<lparr>pr_lists := ls\<rparr> = p"
  by (cases p; simp)+

section \<open>The documents of values are well formed\<close>

lemma depth_kind_Suc: "depth_kind d = GkForcedFlat \<Longrightarrow> depth_kind (Suc d) = GkForcedFlat"
  by (auto simp: depth_kind_def indent_for_depth_def sat_mul64_def INDENT_WIDTH_def PRINT_WIDTH_def u64_max_def split: if_splits)

lemma text_docs [simp]: "docs_ok m (map DcText ss)" "docs_depth (map DcText ss) = 0" "flat_texts (map DcText ss) = concat ss"
  by (induction ss) simp_all

lemma value_docs_ok:
  shows "(m = DmForced \<Longrightarrow> depth_kind d = GkForcedFlat) \<Longrightarrow> docs_ok m (value_docs d v)"
    and "(m = DmForced \<Longrightarrow> depth_kind d = GkForcedFlat) \<Longrightarrow> m \<noteq> DmTop \<Longrightarrow> docs_ok m (items_docs d first vs)"
proof (induction d v and d first vs arbitrary: m and m rule: value_docs_items_docs.induct)
  case (2 d vs)
  show ?case
    using 2(1) [of DmForced] 2(1) [of DmFlat] 2(2) depth_kind_Suc [of d]
    by (cases "depth_kind d") (auto simp: too_deep_docs_def list_doc_def)
next
  case (3 d vs v)
  show ?case
    using 3(1) [of DmForced] 3(1) [of DmFlat] 3(2) [of DmForced] 3(2) [of DmFlat] 3(3) depth_kind_Suc [of d]
    by (cases "depth_kind d") (auto simp: too_deep_docs_def list_doc_def next_line_def)
qed (auto simp: first_line_def next_line_def)

lemma value_docs_depth:
  shows "d \<le> MAX_VALUE_DEPTH \<Longrightarrow> docs_depth (value_docs d v) \<le> MAX_VALUE_DEPTH - d"
    and "d \<le> MAX_VALUE_DEPTH \<Longrightarrow> docs_depth (items_docs d first vs) \<le> MAX_VALUE_DEPTH - d"
proof (induction d v and d first vs rule: value_docs_items_docs.induct)
  case (2 d vs)
  then show ?case by (cases "d = MAX_VALUE_DEPTH") (auto simp: too_deep_docs_def list_doc_def)
next
  case (3 d vs v)
  then show ?case by (cases "d = MAX_VALUE_DEPTH") (auto simp: too_deep_docs_def list_doc_def next_line_def)
qed (auto simp: first_line_def next_line_def)

lemma value_lay_out:
  "lay_out wd (docs_tokens (value_docs 0 v)) start_state
     = Some (fst (renders wd DmTop 0 (value_docs 0 v)), [], 0, snd (renders wd DmTop 0 (value_docs 0 v)))"
proof (rule lay_out_top)
  show "docs_ok DmTop (value_docs 0 v)" by (rule value_docs_ok) simp
  show "docs_depth (value_docs 0 v) \<le> u64_max"
    using value_docs_depth(1) [of 0 v] by (simp add: MAX_VALUE_DEPTH_def u64_max_def)
qed

text \<open>What a value is printed as, from the first column.\<close>

definition value_text :: "(ustr \<Rightarrow> nat) \<Rightarrow> lisp_value \<Rightarrow> ustr" where
  "value_text wd v = fst (renders wd DmTop 0 (value_docs 0 v))"

lemma port_run_append:
  "port_run env (es @ fs) p s = (case port_run env es p s of ((rs, p1), s1) \<Rightarrow>
     case port_run env fs p1 s1 of ((rs1, p2), s2) \<Rightarrow> ((rs @ rs1, p2), s2))"
  by (induction env es p s rule: port_run.induct) (simp_all split: prod.splits)

section \<open>The printer writes the text of a value\<close>

declare print_events.simps(2) [simp del]

context text_sink
begin

lemma emits_begin_symbol:
  assumes "ready p"
  shows "emits (print_begin_symbol env) p [] (symbol_at [] p)"
proof -
  have "emits (\<lambda>p. try_then (poll_output env p) (\<lambda>_ p. (Inr (), p\<lparr>pr_atom := AsSymbol symbol_new\<rparr>))) p [] (symbol_at [] p)"
    by (intro emits_then_nothing [OF emits_poll] emits_set) simp
  then show ?thesis
    by (rule emits_cong)
       (use assms in \<open>simp add: print_begin_symbol_def ready_def require_no_atom_def\<close>)
qed

lemma emits_end_symbol:
  assumes "ready p" "s \<noteq> []" "\<not> number_text s" "\<not> nil_text s"
  shows "emits (print_end_symbol env) (symbol_at s p) [] p"
proof -
  have "emits (\<lambda>p. try_then (poll_output env p) (\<lambda>_ p. (Inr (), p\<lparr>pr_atom := AsNone\<rparr>))) (symbol_at s p) [] p"
    by (intro emits_then_nothing [OF emits_poll] emits_set) (use assms(1) in \<open>simp add: ready_def\<close>)
  then show ?thesis
    by (rule emits_cong)
       (use assms in \<open>simp add: print_end_symbol_def ready_def symbol_is_valid_iff\<close>)
qed

lemma emits_events_Cons:
  "emits (print_event env e) p us q \<Longrightarrow> emits (print_events env es) q vs r \<Longrightarrow> emits (print_events env (e # es)) p (us @ vs) r"
  by (rule emits_cong [OF emits_then]) (simp_all add: print_events.simps(2))

lemma emits_events_append:
  "emits (print_events env es) p us q \<Longrightarrow> emits (print_events env fs) q vs r \<Longrightarrow> emits (print_events env (es @ fs)) p (us @ vs) r"
  by (rule emits_cong [OF emits_then]) (simp_all add: print_events_append)

lemma emits_events_one: "emits (print_event env e) p us q \<Longrightarrow> emits (print_events env [e]) p us q"
  using emits_events_Cons [of e p us q "[]" "[]" q] by (simp add: emits_return)

lemma emits_symbol:
  assumes "ready p" "slot True p = Some (us, q)" "atom_ok (LaSymbol cs)"
  shows "emits (print_events env (atom_events (LaSymbol cs))) p (us @ docs_tokens (map DcText (atom_texts (LaSymbol cs)))) q"
proof -
  have q: "ready q" using slot_ready [OF assms(2,1)] .
  have ok: "list_all chunk_ok cs" "concat cs \<noteq> []" "\<not> number_text (concat cs)" "\<not> nil_text (concat cs)"
    using assms(3) by (auto simp: chunk_ok_def list_all_iff)
  have b: "emits (print_event env EvBeginSymbol) p [] (symbol_at [] p)"
    using emits_begin_symbol [OF assms(1)] by (simp add: print_event_def)
  have e: "emits (print_events env [EvEndSymbol]) (symbol_at (concat cs) q) [] q"
    using emits_end_symbol [OF q ok(2-4)] by (intro emits_events_one) (simp add: print_event_def)
  have c: "emits (print_events env (map EvSymbolChunk cs)) (symbol_at [] p)
      (us @ docs_tokens (map DcText (atom_texts (LaSymbol cs)))) (symbol_at (concat cs) q)"
    using emits_symbol_chunks [OF _ ok(1,2) assms(2)] assms(1) q by (simp add: ready_def)
  show ?thesis using emits_events_Cons [OF b emits_events_append [OF c e]] by simp
qed

lemma emits_string:
  assumes "ready p" "slot False p = Some (us, q)" "atom_ok (LaString cs)"
  shows "emits (print_events env (atom_events (LaString cs))) p (us @ docs_tokens (map DcText (atom_texts (LaString cs)))) q"
proof -
  have q: "ready q" using slot_ready [OF assms(2,1)] .
  let ?q = "q\<lparr>pr_atom := AsString\<rparr>"
  have b: "emits (print_event env EvBeginString) p (us @ doc_tokens (DcText [ch_dquote])) ?q"
    using emits_begin_string [OF assms(1,2)] by (simp add: print_event_def)
  have c: "emits (print_events env (map EvStringChunk cs)) ?q (docs_tokens (map DcText (concat (map string_texts cs)))) ?q"
    using emits_string_chunks [of ?q cs] assms(3) q by (simp add: ready_def)
  have e: "emits (print_events env [EvEndString]) ?q (doc_tokens (DcText [ch_dquote])) q"
    using emits_end_string [of ?q] q by (intro emits_events_one) (simp add: print_event_def ready_def)
  show ?thesis using emits_events_Cons [OF b emits_events_append [OF c e]] by simp
qed

lemma emits_atom:
  assumes "ready p" "slot (is_symbol (LvAtom a)) p = Some (us, q)" "atom_ok a"
  shows "emits (print_events env (atom_events a)) p (us @ docs_tokens (map DcText (atom_texts a))) q"
proof (cases a)
  case (LaSymbol cs)
  with assms emits_symbol [OF assms(1), of us q cs] show ?thesis by (simp add: is_symbol_def)
next
  case (LaString cs)
  with assms emits_string [OF assms(1), of us q cs] show ?thesis by (simp add: is_symbol_def)
next
  case (LaEntity h)
  with assms emits_entity [OF assms(1), of us q h] show ?thesis
    by (auto simp: is_symbol_def print_event_def intro!: emits_events_one)
next
  case (LaReal v)
  then obtain s where s: "format_autolisp_real v = Some s" using assms(3) by auto
  have r: "print_real env v = print_scalar env s" by (rule ext) (simp add: print_real_def s)
  show ?thesis
    using emits_scalar [OF assms(1), of us q s] assms(2) LaReal s
    by (auto simp: is_symbol_def print_event_def r intro!: emits_events_one)
next
  case (LaOpaque e)
  then obtain k pl where e: "opaque_event e = Some (k, pl)" using assms(3) by auto
  have "print_event env e = opaque_value env k pl"
    using e by (cases e) (auto simp: opaque_event_def print_event_def print_object_def print_too_deep_def)
  then show ?thesis
    using emits_opaque [OF assms(1), of us q k pl] assms(2) LaOpaque e
    by (auto simp: is_symbol_def intro!: emits_events_one)
next
  case LaNil
  then show ?thesis using emits_scalar [OF assms(1), of us q "lit ''nil''"] assms(2)
    by (auto simp: is_symbol_def print_event_def print_nil_def intro!: emits_events_one)
next
  case LaTrue
  then show ?thesis using emits_scalar [OF assms(1), of us q "lit ''T''"] assms(2)
    by (auto simp: is_symbol_def print_event_def print_true_def intro!: emits_events_one)
next
  case (LaInt v)
  then show ?thesis using emits_scalar [OF assms(1), of us q "dec_int (sint v)"] assms(2)
    by (auto simp: is_symbol_def print_event_def print_integer_def intro!: emits_events_one)
qed

text \<open>Lists.\<close>

lemma emits_begin_list:
  assumes "ready p" "slot False p = Some (us, q)" "length (pr_lists p) < MAX_VALUE_DEPTH"
  shows "emits (print_event env EvBeginList) p (us @ TkBegin (depth_kind (length (pr_lists p))) # doc_tokens (DcText [ch_lparen]))
    (q\<lparr>pr_lists := LsEmpty # pr_lists q\<rparr>)"
proof -
  let ?set = "\<lambda>p. p\<lparr>pr_lists := LsEmpty # pr_lists p\<rparr>"
  have g: "emits (\<lambda>p. on_layout (begin_group env (length (pr_lists p))) p) q [TkBegin (depth_kind (length (pr_lists p)))] q"
    by (rule emits_cong [OF emits_list(1) [of "length (pr_lists p)"]]) (use slot_frame [OF assms(2)] in simp)
  have "emits (\<lambda>p. try_then (before_value env p) (\<lambda>_ p. try_then (on_layout (begin_group env (length (pr_lists p))) p)
      (\<lambda>_ p. try_then (print_write env [ch_lparen] p) (\<lambda>_ p. (Inr (), ?set p))))) p
      (us @ [TkBegin (depth_kind (length (pr_lists p)))] @ doc_tokens (DcText [ch_lparen]) @ []) (?set q)"
    by (intro emits_then [OF emits_before_value [OF assms(2)]] emits_then [OF g] emits_then [OF emits_write] emits_set) simp
  then have "emits (\<lambda>p. try_then (before_value env p) (\<lambda>_ p. try_then (on_layout (begin_group env (length (pr_lists p))) p)
      (\<lambda>_ p. try_then (print_write env [ch_lparen] p) (\<lambda>_ p. (Inr (), ?set p))))) p
      (us @ TkBegin (depth_kind (length (pr_lists p))) # doc_tokens (DcText [ch_lparen])) (?set q)" by simp
  then show ?thesis
    by (rule emits_cong) (use assms in \<open>simp add: print_event_def print_begin_list_def ready_def require_no_atom_def\<close>)
qed

lemma emits_end_list:
  assumes "ready p" "pr_lists p = st # rest" "st \<noteq> LsAwaitingTail"
  shows "emits (print_event env EvEndList) p
    ((if st = LsEmpty then [] else [TkLine [] (indent_for_depth (length rest))]) @ doc_tokens (DcText [ch_rparen]) @ [TkEnd])
    (p\<lparr>pr_lists := rest\<rparr>)"
proof -
  let ?q = "p\<lparr>pr_lists := rest\<rparr>"
  have line: "emits (\<lambda>p. if st \<noteq> LsEmpty then on_layout (layout_line env [] (length rest)) p else (Inr (), p)) ?q
      (if st = LsEmpty then [] else [TkLine [] (indent_for_depth (length rest))]) ?q"
    by (cases "st = LsEmpty") (simp_all add: emits_line emits_return)
  show ?thesis
    by (rule emits_cong [OF emits_then [OF line emits_then [OF emits_write emits_list(2)]]])
       (use assms in \<open>simp add: print_event_def print_end_list_def ready_def require_no_atom_def Let_def\<close>)
qed

lemma emits_dot:
  assumes "ready p" "pr_lists p = LsValues # rest"
  shows "emits (print_event env EvDot) p (TkLine [ch_space] (indent_for_depth (Suc (length rest))) # doc_tokens (DcText [ch_dot]))
    (p\<lparr>pr_lists := LsAwaitingTail # rest\<rparr>)"
proof -
  let ?q = "p\<lparr>pr_lists := LsAwaitingTail # rest\<rparr>"
  have "emits (\<lambda>p. try_then (on_layout (layout_line env [ch_space] (Suc (length rest))) p) (\<lambda>_ p. print_write env [ch_dot] p)) ?q
      (TkLine [ch_space] (indent_for_depth (Suc (length rest))) # doc_tokens (DcText [ch_dot])) ?q"
    using emits_then [OF emits_line emits_write [of "[ch_dot]"]] by simp
  then show ?thesis
    by (rule emits_cong) (use assms in \<open>simp add: print_event_def print_dot_def ready_def require_no_atom_def\<close>)
qed

text \<open>Lists that are too deep are skipped, with everything in them.\<close>

lemma emits_begin_too_deep:
  assumes "ready p" "slot False p = Some (us, q)" "length (pr_lists p) = MAX_VALUE_DEPTH"
  shows "emits (print_event env EvBeginList) p (us @ docs_tokens too_deep_docs) (q\<lparr>pr_skipped := 1\<rparr>)"
proof -
  have "emits (\<lambda>p. try_then (print_too_deep env p) (\<lambda>_ p. (Inr (), p\<lparr>pr_skipped := 1\<rparr>))) p
      (us @ docs_tokens too_deep_docs) (q\<lparr>pr_skipped := 1\<rparr>)"
    unfolding print_too_deep_def too_deep_docs_def
    by (intro emits_then_nothing [OF emits_opaque [OF assms(1,2)]] emits_set) simp
  then show ?thesis
    by (rule emits_cong)
       (use assms in \<open>simp add: print_event_def print_begin_list_def ready_def require_no_atom_def\<close>)
qed

definition skippable :: "value_event \<Rightarrow> bool" where
  "skippable e \<longleftrightarrow> (case e of
     EvBeginList \<Rightarrow> False | EvEndList \<Rightarrow> False
   | EvReal v \<Rightarrow> format_autolisp_real v \<noteq> None
   | EvStringChunk c \<Rightarrow> byte_len c \<le> MAX_VALUE_TEXT_BYTES
   | EvSymbolChunk c \<Rightarrow> chunk_ok c
   | _ \<Rightarrow> True)"

lemma print_event_skips:
  assumes "pr_skipped p \<noteq> 0" "skippable e"
  shows "print_event env e p = poll_output env p"
  using assms
  by (cases e)
     (auto simp: skippable_def print_event_def print_nil_def print_true_def print_integer_def print_real_def print_scalar_def
       print_dot_def print_begin_string_def print_string_chunk_def print_end_string_def print_begin_symbol_def
       print_symbol_chunk_def chunk_ok_def print_end_symbol_def print_entity_def print_object_def print_too_deep_def
       opaque_value_def not_less split: option.split)

lemma emits_skip:
  assumes "pr_skipped p \<noteq> 0"
  shows "list_all skippable es \<Longrightarrow> emits (print_events env es) p [] p"
proof (induction es)
  case (Cons e es)
  then have "emits (print_event env e) p [] p"
    by (intro emits_cong [OF emits_poll]) (simp add: print_event_skips assms)
  from emits_events_Cons [OF this, of es "[]" p] Cons show ?case by simp
qed (simp add: emits_return)

lemma atom_skippable: "atom_ok a \<Longrightarrow> list_all skippable (atom_events a)"
  by (cases a) (auto simp: skippable_def list_all_iff chunk_ok_def opaque_event_def split: value_event.splits)

lemma emits_skip_list:
  assumes "pr_skipped p \<noteq> 0" "pr_skipped p < u64_max" "emits (print_events env es) (p\<lparr>pr_skipped := pr_skipped p + 1\<rparr>) [] (p\<lparr>pr_skipped := pr_skipped p + 1\<rparr>)"
  shows "emits (print_events env (EvBeginList # es @ [EvEndList])) p [] p"
proof -
  let ?p = "p\<lparr>pr_skipped := pr_skipped p + 1\<rparr>"
  have b: "emits (print_event env EvBeginList) p [] ?p"
  proof -
    have "emits (\<lambda>p. if pr_skipped p = u64_max then (Inl PeLimitExceeded, p) else (Inr (), p\<lparr>pr_skipped := pr_skipped p + 1\<rparr>)) p [] ?p"
      by (rule emits_return) (use assms(2) in simp)
    from emits_then_nothing [OF emits_poll this] show ?thesis
      by (rule emits_cong) (use assms(1) in \<open>simp add: print_event_def print_begin_list_def\<close>)
  qed
  have e: "emits (print_event env EvEndList) ?p [] p"
  proof -
    have "emits (\<lambda>p. (Inr (), p\<lparr>pr_skipped := pr_skipped p - 1\<rparr>)) ?p [] p"
      by (rule emits_return) simp
    from emits_then_nothing [OF emits_poll this] show ?thesis
      by (rule emits_cong) (simp add: print_event_def print_end_list_def)
  qed
  show ?thesis using emits_events_Cons [OF b emits_events_append [OF assms(3) emits_events_one [OF e]]] by simp
qed

lemma emits_skip_value:
  shows "value_ok v \<Longrightarrow> pr_skipped p \<noteq> 0 \<Longrightarrow> pr_skipped p + value_depth v \<le> u64_max
      \<Longrightarrow> emits (print_events env (value_events v)) p [] p"
    and "values_ok vs \<Longrightarrow> pr_skipped p \<noteq> 0 \<Longrightarrow> pr_skipped p + values_depth vs \<le> u64_max
      \<Longrightarrow> emits (print_events env (values_events vs)) p [] p"
proof (induction v and vs arbitrary: p and p rule: value_events_values_events.induct)
  case (1 a)
  then show ?case by (simp add: emits_skip atom_skippable)
next
  case (2 vs)
  let ?p = "p\<lparr>pr_skipped := pr_skipped p + 1\<rparr>"
  have "emits (print_events env (values_events vs)) ?p [] ?p" by (rule 2(1)) (use 2(2-4) in simp_all)
  with emits_skip_list [of p "values_events vs"] 2(3,4) show ?case by simp
next
  case (3 vs v)
  let ?p = "p\<lparr>pr_skipped := pr_skipped p + 1\<rparr>"
  have a: "emits (print_events env (values_events vs)) ?p [] ?p" by (rule 3(1)) (use 3(3-5) in simp_all)
  have b: "emits (print_events env (value_events v)) ?p [] ?p" by (rule 3(2)) (use 3(3-5) in simp_all)
  have d: "emits (print_events env [EvDot]) ?p [] ?p" by (rule emits_skip) (simp_all add: skippable_def)
  have "emits (print_events env (values_events vs @ [EvDot] @ value_events v)) ?p [] ?p"
    using emits_events_append [OF a emits_events_append [OF d b]] by simp
  with emits_skip_list [of p "values_events vs @ [EvDot] @ value_events v"] 3(4,5) show ?case by simp
next
  case 4
  show ?case by (simp add: emits_return)
next
  case (5 v vs)
  then show ?case using emits_events_append [of "value_events v" p "[]" p "values_events vs" "[]" p] by simp
qed

text \<open>Values and the items of a list.\<close>

lemma docs_tokens_list_doc:
  "docs_tokens [list_doc d none ds] = TkBegin (depth_kind d) # doc_tokens (DcText [ch_lparen]) @ docs_tokens ds
     @ (if none then [] else [TkLine [] (indent_for_depth d)]) @ doc_tokens (DcText [ch_rparen]) @ [TkEnd]"
  by (simp add: list_doc_def)

lemma emits_skip_end:
  assumes "ready q"
  shows "emits (print_events env [EvEndList]) (q\<lparr>pr_skipped := 1\<rparr>) [] q"
proof (rule emits_events_one)
  have "emits (\<lambda>p. (Inr (), p\<lparr>pr_skipped := pr_skipped p - 1\<rparr>)) (q\<lparr>pr_skipped := 1\<rparr>) [] q"
    by (rule emits_return) (use assms in \<open>simp add: ready_def\<close>)
  from emits_then_nothing [OF emits_poll this] show "emits (print_event env EvEndList) (q\<lparr>pr_skipped := 1\<rparr>) [] q"
    by (rule emits_cong) (simp add: print_event_def print_end_list_def)
qed

lemma emits_values:
  shows "value_ok v \<Longrightarrow> ready p \<Longrightarrow> slot (is_symbol v) p = Some (us, q) \<Longrightarrow> length (pr_lists p) \<le> MAX_VALUE_DEPTH
      \<Longrightarrow> value_depth v \<le> u64_max
      \<Longrightarrow> emits (print_events env (value_events v)) p (us @ docs_tokens (value_docs (length (pr_lists p)) v)) q"
    and "values_ok vs \<Longrightarrow> ready p \<Longrightarrow> pr_lists p = (if first then LsEmpty else LsValues) # rest
      \<Longrightarrow> Suc (length rest) \<le> MAX_VALUE_DEPTH \<Longrightarrow> values_depth vs \<le> u64_max
      \<Longrightarrow> emits (print_events env (values_events vs)) p (docs_tokens (items_docs (Suc (length rest)) first vs))
            (p\<lparr>pr_lists := (if first \<and> vs = [] then LsEmpty else LsValues) # rest\<rparr>)"
proof (induction v and vs arbitrary: p us q and p first rest rule: value_events_values_events.induct)
  case (1 a)
  then show ?case using emits_atom [of p a us q] by simp
next
  case (2 vs)
  have slot: "slot False p = Some (us, q)" using 2(4) by (simp add: is_symbol_def)
  have q: "ready q" using slot_ready [OF slot 2(3)] .
  show ?case
  proof (cases "length (pr_lists p) = MAX_VALUE_DEPTH")
    case True
    let ?s = "q\<lparr>pr_skipped := 1\<rparr>"
    have v: "emits (print_events env (values_events vs)) ?s [] ?s"
      by (rule emits_skip_value(2)) (use 2 in simp_all)
    show ?thesis
      using emits_events_Cons [OF emits_begin_too_deep [OF 2(3) slot True] emits_events_append [OF v emits_skip_end [OF q]]] True by simp
  next
    case False
    let ?n = "length (pr_lists p)"
    let ?q1 = "q\<lparr>pr_lists := LsEmpty # pr_lists q\<rparr>" and ?q2 = "q\<lparr>pr_lists := (if vs = [] then LsEmpty else LsValues) # pr_lists q\<rparr>"
    have n: "length (pr_lists q) = ?n" "?n < MAX_VALUE_DEPTH" using slot_frame [OF slot] False 2(5) by simp_all
    have v: "emits (print_events env (values_events vs)) ?q1 (docs_tokens (items_docs (Suc ?n) True vs)) ?q2"
      using 2(1) [of ?q1 True "pr_lists q"] 2(2,6) q n by (simp add: ready_def)
    have e: "emits (print_events env [EvEndList]) ?q2
        ((if vs = [] then [] else [TkLine [] (indent_for_depth ?n)]) @ doc_tokens (DcText [ch_rparen]) @ [TkEnd]) q"
      using emits_end_list [of ?q2 "if vs = [] then LsEmpty else LsValues" "pr_lists q"] q n
      by (intro emits_events_one) (auto simp: ready_def)
    show ?thesis
      using emits_events_Cons [OF emits_begin_list [OF 2(3) slot n(2)] emits_events_append [OF v e]] False
      by (simp add: docs_tokens_list_doc del: docs_tokens.simps)
  qed
next
  case (3 vs v)
  have slot: "slot False p = Some (us, q)" using 3(5) by (simp add: is_symbol_def)
  have q: "ready q" using slot_ready [OF slot 3(4)] .
  show ?case
  proof (cases "length (pr_lists p) = MAX_VALUE_DEPTH")
    case True
    let ?s = "q\<lparr>pr_skipped := 1\<rparr>"
    have vs: "emits (print_events env (values_events vs)) ?s [] ?s"
      by (rule emits_skip_value(2)) (use 3 in simp_all)
    have d: "emits (print_events env [EvDot]) ?s [] ?s" by (rule emits_skip) (simp_all add: skippable_def)
    have v: "emits (print_events env (value_events v)) ?s [] ?s"
      by (rule emits_skip_value(1)) (use 3 in simp_all)
    show ?thesis
      using emits_events_Cons [OF emits_begin_too_deep [OF 3(4) slot True]
          emits_events_append [OF vs emits_events_append [OF d emits_events_append [OF v emits_skip_end [OF q]]]]] True by simp
  next
    case False
    let ?n = "length (pr_lists p)"
    let ?at = "\<lambda>st. q\<lparr>pr_lists := st # pr_lists q\<rparr>"
    have n: "length (pr_lists q) = ?n" "?n < MAX_VALUE_DEPTH" using slot_frame [OF slot] False 3(6) by simp_all
    have vs: "emits (print_events env (values_events vs)) (?at LsEmpty) (docs_tokens (items_docs (Suc ?n) True vs)) (?at LsValues)"
      using 3(1) [of "?at LsEmpty" True "pr_lists q"] 3(3,7) q n by (simp add: ready_def)
    have d: "emits (print_events env [EvDot]) (?at LsValues) (docs_tokens (next_line (Suc ?n) @ [DcText [ch_dot]])) (?at LsAwaitingTail)"
      using emits_dot [of "?at LsValues" "pr_lists q"] q n by (intro emits_events_one) (simp add: ready_def next_line_def)
    have "slot (is_symbol v) (?at LsAwaitingTail) = Some (docs_tokens (next_line (Suc ?n)), ?at LsComplete)"
      using n by (simp add: slot_def next_line_def)
    then have v: "emits (print_events env (value_events v)) (?at LsAwaitingTail)
        (docs_tokens (next_line (Suc ?n)) @ docs_tokens (value_docs (Suc ?n) v)) (?at LsComplete)"
      using 3(2) [of "?at LsAwaitingTail"] 3(3,7) q n by (simp add: ready_def)
    have e: "emits (print_events env [EvEndList]) (?at LsComplete)
        ([TkLine [] (indent_for_depth ?n)] @ doc_tokens (DcText [ch_rparen]) @ [TkEnd]) q"
      using emits_end_list [of "?at LsComplete" LsComplete "pr_lists q"] q n
      by (intro emits_events_one) (auto simp: ready_def)
    show ?thesis
      using emits_events_Cons [OF emits_begin_list [OF 3(4) slot n(2)]
          emits_events_append [OF vs emits_events_append [OF d emits_events_append [OF v e]]]] False
      by (simp add: docs_tokens_list_doc del: docs_tokens.simps)
         (simp add: next_line_def)
  qed
next
  case 4
  then show ?case by (simp add: emits_return)
next
  case (5 v vs)
  let ?q = "p\<lparr>pr_lists := LsValues # rest\<rparr>"
  let ?line = "if first then first_line (Suc (length rest)) v else next_line (Suc (length rest))"
  have "slot (is_symbol v) p = Some (docs_tokens ?line, ?q)"
    using 5(5) by (auto simp: slot_def first_line_def next_line_def)
  then have v: "emits (print_events env (value_events v)) p (docs_tokens ?line @ docs_tokens (value_docs (Suc (length rest)) v)) ?q"
    using 5(1) [of p] 5(3-7) by simp
  have vs: "emits (print_events env (values_events vs)) ?q (docs_tokens (items_docs (Suc (length rest)) False vs)) ?q"
    using 5(2) [of ?q False rest] 5(3-7) by (simp add: ready_def)
  show ?case using emits_events_append [OF v vs] by simp
qed

lemma print_value:
  assumes "is_open sink" "value_ok v" "value_depth v \<le> u64_max"
  obtains p sink1 where "print_events env (value_events v) (new_printer sink) = (Inr (), p)" "pr_roots p = 1"
    "print_finish env p = (Inr (), sink1)" "is_open sink1" "sent sink1 = sent sink @ value_text (oe_width env) v @ [ch_lf]"
proof -
  let ?p = "new_printer sink" and ?us = "docs_tokens (value_docs 0 v)"
  let ?q = "?p\<lparr>pr_roots := 1\<rparr>"
  have ready: "ready ?p" and lists: "pr_lists ?p = []" by (simp_all add: ready_def new_printer_def)
  have slot: "slot (is_symbol v) ?p = Some ([], ?q)" by (simp add: slot_def new_printer_def u64_max_def)
  have e: "emits (print_events env (value_events v)) ?p ?us ?q"
    using emits_values(1) [OF assms(2) ready slot] assms(3) lists by simp
  have "legal ([] @ ?us)"
    unfolding legal_def using value_lay_out [of "oe_width env" v] by (intro exI [of _ "[]"]) simp
  moreover have "logged (sent sink) [] (new_layout sink)" by (rule logged_new [OF assms(1)])
  ultimately obtain l1 where l1: "print_events env (value_events v) (?p\<lparr>pr_layout := new_layout sink\<rparr>) = (Inr (), ?q\<lparr>pr_layout := l1\<rparr>)"
      "logged (sent sink) ([] @ ?us) l1"
    using e unfolding emits_def by blast
  obtain r l2 where f: "layout_finish env l1 = (r, l2)"
      "\<And>out col. lay_out (oe_width env) ?us start_state = Some (out, [], 0, col)
         \<Longrightarrow> r = Inr () \<and> is_open (ly_sink l2) \<and> sent (ly_sink l2) = sent sink @ out @ [ch_lf]"
    by (rule layout_finish_logged [OF l1(2) [simplified]]) blast
  have r: "r = Inr ()" "is_open (ly_sink l2)" "sent (ly_sink l2) = sent sink @ value_text (oe_width env) v @ [ch_lf]"
    using f(2) [OF value_lay_out] by (simp_all add: value_text_def)
  show thesis
  proof (rule that)
    show "print_events env (value_events v) (new_printer sink) = (Inr (), ?q\<lparr>pr_layout := l1\<rparr>)"
      using l1(1) by (simp add: new_printer_def)
    show "print_finish env (?q\<lparr>pr_layout := l1\<rparr>) = (Inr (), ly_sink l2)"
      using f(1) r(1) by (simp add: print_finish_def new_printer_def)
  qed (use r in simp_all)
qed

text \<open>The same through a port.\<close>

lemma port_run_values:
  "print_events env es (with_sink s pr) = (Inr (), pr1) \<Longrightarrow> po_result p = EContinue \<Longrightarrow> port_claimed b p \<Longrightarrow> po_printer p = Some pr
     \<Longrightarrow> \<exists>pr2. port_run env (map (\<lambda>e. (b, Some (OevValue e))) es) p s
           = ((replicate (length es) EContinue, p\<lparr>po_printer := Some pr2\<rparr>), ly_sink (pr_layout pr1))
         \<and> with_sink (ly_sink (pr_layout pr1)) pr2 = pr1"
proof (induction es arbitrary: p s pr)
  case Nil
  then show ?case by (cases p) (auto simp: with_sink_def intro!: exI [of _ pr])
next
  case (Cons e es)
  obtain x pr2 where x: "print_event env e (with_sink s pr) = (x, pr2)" by fastforce
  with Cons(2) obtain u where u: "x = Inr u" by (cases x) (auto simp: print_events.simps(2))
  have w: "with_sink (ly_sink (pr_layout pr2)) pr2 = pr2" by (simp add: with_sink_def)
  have r: "print_events env es (with_sink (ly_sink (pr_layout pr2)) pr2) = (Inr (), pr1)"
    using Cons(2) x u w by (simp add: print_events.simps(2))
  have c: "port_claimed b (p\<lparr>po_printer := Some pr2\<rparr>)" using Cons(4) by (simp add: port_claimed_def)
  from Cons(1) [OF r _ c] Cons(3-5) x u show ?case
    by (auto simp: port_write_def port_value_def)
qed

lemma port_value_written:
  assumes "is_open sink" "value_ok v" "value_depth v \<le> u64_max"
    and "po_result p = EContinue" "port_claimed b p" "po_printer p = None" "po_mode p = PmEvalValue \<longrightarrow> po_completed p = 0"
  shows "\<exists>sink1. port_run env (map (\<lambda>e. (b, Some e)) (item_events (ItValue (value_events v)))) p sink
      = ((replicate (length (value_events v) + 2) EContinue, p\<lparr>po_completed := po_completed p + 1\<rparr>), sink1)
    \<and> is_open sink1 \<and> sent sink1 = sent sink @ value_text (oe_width env) v @ [ch_lf]"
proof -
  obtain pr sink1 where pr: "print_events env (value_events v) (new_printer sink) = (Inr (), pr)" "pr_roots pr = 1"
      "print_finish env pr = (Inr (), sink1)" "is_open sink1" "sent sink1 = sent sink @ value_text (oe_width env) v @ [ch_lf]"
    by (rule print_value [OF assms(1-3)])
  let ?p = "p\<lparr>po_printer := Some (new_printer sink)\<rparr>"
  have lease: "po_lease p \<noteq> None" using assms(5) by (auto simp: port_claimed_def split: option.splits)
  have b: "port_write env b (Some OevBeginValue) p sink = ((EContinue, ?p), sink)"
    using assms(4-7) lease by (auto simp: port_write_def port_begin_value_def)
  have ws: "with_sink sink (new_printer sink) = new_printer sink" by (simp add: with_sink_def new_printer_def new_layout_def)
  have claimed: "port_claimed b ?p" using assms(5) by (simp add: port_claimed_def)
  obtain pr2 where v: "port_run env (map (\<lambda>e. (b, Some (OevValue e))) (value_events v)) ?p sink
      = ((replicate (length (value_events v)) EContinue, ?p\<lparr>po_printer := Some pr2\<rparr>), ly_sink (pr_layout pr))"
      "with_sink (ly_sink (pr_layout pr)) pr2 = pr"
    using port_run_values [of "value_events v" sink "new_printer sink" pr ?p b] pr(1) ws assms(4) claimed by auto
  have roots: "pr_roots pr2 = 1" using v(2) pr(2) by (metis (no_types) printer.select_convs(5) printer.surjective printer.update_convs(1) with_sink_def)
  have e: "port_write env b (Some OevEndValue) (?p\<lparr>po_printer := Some pr2\<rparr>) (ly_sink (pr_layout pr))
      = ((EContinue, p\<lparr>po_completed := po_completed p + 1\<rparr>), sink1)"
    using assms(4,5,6) v(2) pr(3) roots
    by (cases p) (simp add: port_write_def port_end_value_def port_claimed_def Let_def)
  have run: "port_run env ((b, Some OevBeginValue) # map (\<lambda>e. (b, Some (OevValue e))) (value_events v) @ [(b, Some OevEndValue)]) p sink
      = ((EContinue # replicate (length (value_events v)) EContinue @ [EContinue], p\<lparr>po_completed := po_completed p + 1\<rparr>), sink1)"
    using b e v(1) by (simp add: port_run_append)
  have rep: "EContinue # replicate n EContinue @ [EContinue] = replicate (n + 2) EContinue" for n
    by (simp add: replicate_append_same)
  have ev: "map (\<lambda>e. (b, Some e)) (item_events (ItValue (value_events v)))
      = (b, Some OevBeginValue) # map (\<lambda>e. (b, Some (OevValue e))) (value_events v) @ [(b, Some OevEndValue)]"
    by (simp add: comp_def)
  show ?thesis unfolding ev by (intro exI [of _ sink1] conjI run [unfolded rep] pr(4,5))
qed

end

end
