(* ===== verification/Value_Served.thy ===== *)
theory Value_Served
  imports Value_Written
begin

text \<open>
  The output channel as a sink of the layout: a consumer reads a chunk whenever a producer has to wait.
  It takes every text it is given, so it is an instance of \<open>text_sink\<close>, and what was written is
  what was read followed by what the channel holds.
\<close>

record served =
  sv_channel :: channel
  sv_read :: ustr

text \<open>One \<open>emit\<close>; whenever it waits the consumer takes a chunk.  The fuel counts the chunks.\<close>

fun serve :: "nat \<Rightarrow> ustr \<Rightarrow> served \<Rightarrow> emit_result \<times> served" where
  "serve fuel s sv = (case sink_emit (sv_channel sv) s of
     (Some r, ch, _) \<Rightarrow> (r, sv\<lparr>sv_channel := ch\<rparr>)
   | (None, ch, rest) \<Rightarrow>
       (case (fuel, stream_next_chunk ch) of
          (Suc n, ChunkReady chunk, ch1, _) \<Rightarrow> serve n rest \<lparr>sv_channel = ch1, sv_read = sv_read sv @ chunk\<rparr>
        | _ \<Rightarrow> (EStopped, sv\<lparr>sv_channel := ch\<rparr>)))"

declare serve.simps [simp del]

definition served_load :: "ustr \<Rightarrow> served \<Rightarrow> nat" where
  "served_load s sv = byte_len (content (sv_channel sv)) + byte_len s"

definition served_emit :: "ustr \<Rightarrow> served \<Rightarrow> emit_result \<times> served" where
  "served_emit s sv = serve (served_load s sv) s sv"

definition served_flush :: "served \<Rightarrow> emit_result \<times> served" where
  "served_flush sv = (case sink_flush (sv_channel sv) of (r, ch, _) \<Rightarrow> (r, sv\<lparr>sv_channel := ch\<rparr>))"

definition served_env :: "(ustr \<Rightarrow> nat) \<Rightarrow> served output_env" where
  "served_env wd = \<lparr>oe_emit = served_emit, oe_flush = served_flush, oe_width = wd\<rparr>"

definition served_new :: served where
  "served_new = \<lparr>sv_channel = new_channel, sv_read = []\<rparr>"

definition served_open :: "served \<Rightarrow> bool" where
  "served_open sv \<longleftrightarrow> channel_ok (sv_channel sv) \<and> ch_terminal (sv_channel sv) = None"

definition served_text :: "served \<Rightarrow> ustr" where
  "served_text sv = sv_read sv @ content (sv_channel sv)"

lemma served_new_open: "served_open served_new" "served_text served_new = []"
  by (simp_all add: served_open_def served_text_def served_new_def chan_simps) (simp add: new_channel_def)

text \<open>A waiting \<open>emit\<close> leaves a chunk to take.\<close>

lemma waiting_chunk:
  assumes "channel_ok ch" "ch_pending ch = []" "rest \<noteq> []" "\<not> can_accept ch rest"
  obtains chunk ch1 where "stream_next_chunk ch = (ChunkReady chunk, ch1, wake_space)" "chunk \<noteq> []"
    "channel_ok ch1" "ch_terminal ch1 = ch_terminal ch" "content ch = chunk @ content ch1"
proof -
  have "OUTPUT_BUFFER_BYTES - ch_queued ch < 4"
    using assms(3,4) len_utf8_le4 [of "hd rest"] by (simp add: can_accept_def)
  then have "ch_queued ch \<noteq> 0" using channel_consts(3) by linarith
  then obtain chunk cs where c: "ch_ready ch = chunk # cs"
    using assms(1,2) by (cases "ch_ready ch") (auto simp: channel_ok_def content_def)
  then show thesis
    using assms(1,2)
    by (intro that [of chunk "ch\<lparr>ch_ready := cs, ch_queued := ch_queued ch - byte_len chunk\<rparr>"])
       (auto simp: stream_next_chunk_def channel_ok_def content_def)
qed

lemma serve_open:
  "served_open sv \<Longrightarrow> served_load s sv \<le> fuel
     \<Longrightarrow> \<exists>sv1. serve fuel s sv = (EContinue, sv1) \<and> served_open sv1 \<and> served_text sv1 = served_text sv @ s"
proof (induction fuel arbitrary: s sv rule: less_induct)
  case (less fuel)
  obtain r ch rest where e: "sink_emit (sv_channel sv) s = (r, ch, rest)" using prod_cases3 by blast
  have ok: "channel_ok (sv_channel sv)" "ch_terminal (sv_channel sv) = None" using less(2) by (simp_all add: served_open_def)
  note spec = sink_emit_spec [OF ok(1) e]
  have c: "content ch @ rest = content (sv_channel sv) @ s" using spec(5) [OF ok(2)] by simp
  have ch: "channel_ok ch" "ch_terminal ch = None" using spec(1,2) ok(2) by simp_all
  consider "r = Some EContinue" "rest = []" | "r = None" "rest \<noteq> []" "ch_pending ch = []" "\<not> can_accept ch rest"
    using spec(5) [OF ok(2)] by blast
  then show ?case
  proof cases
    case 1
    with e c ch show ?thesis by (subst serve.simps) (simp add: served_open_def served_text_def)
  next
    case 2
    obtain chunk ch1 where n: "stream_next_chunk ch = (ChunkReady chunk, ch1, wake_space)" "chunk \<noteq> []"
        "channel_ok ch1" "ch_terminal ch1 = ch_terminal ch" "content ch = chunk @ content ch1"
      by (rule waiting_chunk [OF ch(1) 2(3,2,4)])
    let ?sv = "\<lparr>sv_channel = ch1, sv_read = sv_read sv @ chunk\<rparr>"
    have "byte_len (content ch1) + byte_len chunk + byte_len rest = byte_len (content (sv_channel sv)) + byte_len s"
      using arg_cong [OF c, of byte_len] n(5) by simp
    moreover have "byte_len chunk \<noteq> 0" using n(2) by simp
    ultimately have load: "served_load rest ?sv < served_load s sv" unfolding served_load_def by (simp only: served.simps)
    then obtain m where m: "fuel = Suc m" using less(3) by (cases fuel) auto
    have o: "served_open ?sv" using n(3,4) ch(2) by (simp add: served_open_def)
    obtain sv1 where sv1: "serve m rest ?sv = (EContinue, sv1)" "served_open sv1" "served_text sv1 = served_text ?sv @ rest"
      using less(1) [of m ?sv rest] o m load less(3) by auto
    have "served_text ?sv @ rest = served_text sv @ s" using c n(5) by (simp add: served_text_def)
    with sv1 e 2(1) n(1) m show ?thesis by (subst serve.simps) simp
  qed
qed

interpretation served: text_sink "served_env wd" served_open served_text for wd
proof
  fix s sv r sv1
  assume o: "served_open sv"
  show "r = EContinue \<and> served_open sv1 \<and> served_text sv1 = served_text sv @ s"
    if "oe_emit (served_env wd) s sv = (r, sv1)"
    using serve_open [OF o order_refl, of s] that by (simp add: served_env_def served_emit_def)
  show "r = EContinue \<and> served_open sv1 \<and> served_text sv1 = served_text sv"
    if "oe_flush (served_env wd) sv = (r, sv1)"
    using o that
    by (auto simp: served_env_def served_flush_def sink_flush_def served_open_def served_text_def Let_def chan_simps publish_pending_ok
        split: prod.splits)
qed

text \<open>C32.  The streaming layout is the layout of all tokens at once: it succeeds exactly if every group
  is well formed, then the text is the one laid out with a new line at its end, and at any time what
  has been written is a beginning of that text.\<close>

theorem streaming_layout:
  assumes "served_open sink" and "try_then (feed (served_env wd) ops (new_layout sink)) (\<lambda>_. layout_finish (served_env wd)) = (r, l)"
  shows "(r = Inr () \<longleftrightarrow> (\<exists>out col. lay_out wd (concat (map op_tokens ops)) start_state = Some (out, [], 0, col)))
    \<and> (\<forall>out col. lay_out wd (concat (map op_tokens ops)) start_state = Some (out, [], 0, col)
         \<longrightarrow> served_text (ly_sink l) = served_text sink @ out @ [ch_lf]
           \<and> (\<forall>ops1 ops2 l1. ops = ops1 @ ops2 \<and> feed (served_env wd) ops1 (new_layout sink) = (Inr (), l1)
                \<longrightarrow> (\<exists>rest. served_text sink @ out = served_text (ly_sink l1) @ rest)))"
proof -
  have wd: "oe_width (served_env wd) = wd" by (simp add: served_env_def)
  obtain r1 l1 where s: "try_then (feed (served_env wd) ops (new_layout sink)) (\<lambda>_. layout_finish (served_env wd)) = (r1, l1)"
      "\<And>out col. lay_out wd (concat (map op_tokens ops)) start_state = Some (out, [], 0, col)
         \<Longrightarrow> r1 = Inr () \<and> served_text (ly_sink l1) = served_text sink @ out @ [ch_lf]"
      "r1 = Inr () \<Longrightarrow> \<exists>out col. lay_out wd (concat (map op_tokens ops)) start_state = Some (out, [], 0, col)"
    using served.stream_is_lay_out [OF assms(1), of wd ops] wd by metis
  have p: "\<exists>rest. served_text sink @ out = served_text (ly_sink l1) @ rest"
    if "lay_out wd (concat (map op_tokens ops)) start_state = Some (out, [], 0, col)"
      "ops = ops1 @ ops2" "feed (served_env wd) ops1 (new_layout sink) = (Inr (), l1)" for out col ops1 ops2 l1
    using served.stream_writes_prefix [OF assms(1) that(3), of "concat (map op_tokens ops2)"] that(1,2) wd by simp
  show ?thesis using s p assms(2) by fastforce
qed

definition sample_ops :: "layout_op list" where
  "sample_ops = [OpBegin 0, OpText [40], OpLine [] 1, OpText (replicate 60 97), OpLine [32] 1, OpText (replicate 60 98),
     OpLine [] 0, OpText [41], OpEnd]"

theorem streaming_layout_witness:
  "fst (try_then (feed (served_env length) sample_ops (new_layout served_new)) (\<lambda>_. layout_finish (served_env length))) = Inr ()
   \<and> served_text (ly_sink (snd (try_then (feed (served_env length) sample_ops (new_layout served_new))
       (\<lambda>_. layout_finish (served_env length)))))
     = [40, 10, 32, 32] @ replicate 60 97 @ [10, 32, 32] @ replicate 60 98 @ [10, 41, 10]"
proof -
  obtain r l where rl: "try_then (feed (served_env length) sample_ops (new_layout served_new)) (\<lambda>_. layout_finish (served_env length)) = (r, l)"
    by fastforce
  have "lay_out length (concat (map op_tokens sample_ops)) start_state
      = Some ([40, 10, 32, 32] @ replicate 60 97 @ [10, 32, 32] @ replicate 60 98 @ [10, 41], [], 0, 1)"
    by code_simp
  with streaming_layout [OF served_new_open(1) rl] rl served_new_open(2) show ?thesis by auto
qed

end
