(* ===== verification/Lisp_Plain.thy ===== *)
theory Lisp_Plain
  imports Lisp_Grammar
begin

text \<open>
  Texts the scanner is sure to take: forms without comments, quotes and carriage returns.  Lines that are
  such forms make up a valid source of as many forms, the converse of \<open>validate_accepts_programs\<close> for them.
\<close>

inductive plain_items :: "ustr \<Rightarrow> bool" where
  plain_Nil: "plain_items []"
| plain_char: "ch \<notin> {ch_lparen, ch_rparen, ch_dquote, ch_semi} \<Longrightarrow> plain_items t \<Longrightarrow> plain_items (ch # t)"
| plain_string: "string_tail s \<Longrightarrow> plain_items t \<Longrightarrow> plain_items ((ch_dquote # s) @ t)"
| plain_list: "plain_items u \<Longrightarrow> plain_items t \<Longrightarrow> plain_items (ch_lparen # u @ ch_rparen # t)"

definition plain_atom :: "ustr \<Rightarrow> bool" where
  "plain_atom t \<longleftrightarrow> t \<noteq> [] \<and> (\<forall>ch\<in>set t. \<not> is_atom_delimiter ch) \<and> (ch_dot \<in> set t \<longrightarrow> is_decimal t)"

definition plain_form :: "ustr \<Rightarrow> bool" where
  "plain_form f \<longleftrightarrow> ch_cr \<notin> set f
     \<and> (plain_atom f \<or> (\<exists>s. string_tail s \<and> f = ch_dquote # s) \<or> (\<exists>u. plain_items u \<and> f = ch_lparen # u @ [ch_rparen]))"

lemma plain_append: "plain_items s \<Longrightarrow> plain_items t \<Longrightarrow> plain_items (s @ t)"
proof (induction rule: plain_items.induct)
  case (plain_string s u)
  then show ?case using plain_items.plain_string [of s "u @ t"] by simp
qed (auto intro: plain_items.intros)

lemma plain_chars: "\<forall>ch\<in>set s. ch \<notin> {ch_lparen, ch_rparen, ch_dquote, ch_semi} \<Longrightarrow> plain_items s"
  by (induction s) (auto intro: plain_items.intros)

lemma plain_paren: "plain_items u \<Longrightarrow> plain_items (ch_lparen # u @ [ch_rparen])"
  using plain_list [of u "[]"] plain_Nil by simp

lemma plain_quoted: "string_tail s \<Longrightarrow> plain_items (ch_dquote # s)"
  using plain_string [of s "[]"] plain_Nil by simp

text \<open>A step over the next character.\<close>

lemma step_over:
  assumes "cursor_ok c" "remaining c = ch # r" "ch \<noteq> ch_cr"
  shows "peek c = Some ch" "moved c [ch] (advance c)" "cursor_ok (advance c)" "remaining (advance c) = r"
proof -
  show p: "peek c = Some ch" using assms(2) by (simp add: peek_def)
  show m: "moved c [ch] (advance c)" by (rule advance_moved_char [OF assms(1) p assms(3)])
  show "cursor_ok (advance c)" by (rule moved_ok [OF m])
  show "remaining (advance c) = r" using m assms(2) by (simp add: moved_def)
qed

lemma scan_string_tail:
  "string_tail s \<Longrightarrow> ch_cr \<notin> set s \<Longrightarrow> cursor_ok c \<Longrightarrow> remaining c = s @ r
     \<Longrightarrow> \<exists>c1. scan_string_loop start c = (None, c1) \<and> moved c s c1"
proof (induction s arbitrary: c rule: string_tail.induct)
  case string_close
  then show ?case using step_over [of c ch_dquote r] by (subst scan_string_loop.simps) simp
next
  case (string_char ch t)
  note s = step_over [of c ch "t @ r"]
  obtain c1 where "scan_string_loop start (advance c) = (None, c1)" "moved (advance c) t c1"
    using string_char.IH [OF _ s(3,4)] string_char.prems by auto
  with moved_trans [OF s(2) this(2)] s(1) string_char.prems string_char.hyps show ?case
    by (subst scan_string_loop.simps) auto
next
  case (string_escape t ch)
  note s = step_over [of c ch_bslash "ch # t @ r"] and s2 = step_over [of "advance c" ch "t @ r"]
  have p: "cursor_ok c" "remaining c = ch_bslash # ch # t @ r" "ch \<noteq> ch_cr" "ch_cr \<notin> set t"
    using string_escape.prems by auto
  note s = s [OF p(1,2), simplified] note s2 = s2 [OF s(3,4) p(3)]
  obtain c1 where "scan_string_loop start (advance (advance c)) = (None, c1)" "moved (advance (advance c)) t c1"
    using string_escape.IH [OF p(4) s2(3,4)] by auto
  moreover have "\<not> is_end (advance c)" using s(4) by (simp add: is_end_iff)
  ultimately show ?case
    using s(1) moved_trans [OF s(2) moved_trans [OF s2(2)]] by (subst scan_string_loop.simps) auto
qed

lemma scan_plain_string:
  assumes "string_tail s" "ch_cr \<notin> set s" "cursor_ok c" "remaining c = ch_dquote # s @ r"
  shows "\<exists>c1. scan_string c = (None, c1) \<and> moved c (ch_dquote # s) c1"
proof -
  note st = step_over [OF assms(3,4), simplified]
  obtain c1 where "scan_string_loop (cu_line c, cu_column c) (advance c) = (None, c1)" "moved (advance c) s c1"
    using scan_string_tail [OF assms(1,2) st(3,4)] by blast
  with moved_trans [OF st(2) this(2)] show ?thesis by (simp add: scan_string_def)
qed

lemma scan_plain_items:
  "plain_items u \<Longrightarrow> ch_cr \<notin> set u \<Longrightarrow> cursor_ok c \<Longrightarrow> remaining c = u @ r
     \<Longrightarrow> \<exists>c1. moved c u c1 \<and> scan_list_loop start (Suc d) c = scan_list_loop start (Suc d) c1"
proof (induction u arbitrary: c d r rule: plain_items.induct)
  case plain_Nil
  then show ?case using moved_refl by blast
next
  case (plain_char ch t)
  note s = step_over [of c ch "t @ r"]
  obtain c1 where c1: "moved (advance c) t c1" "scan_list_loop start (Suc d) (advance c) = scan_list_loop start (Suc d) c1"
    using plain_char.IH [of "advance c" r d] s(3,4) plain_char.prems by auto
  have "scan_list_loop start (Suc d) c = scan_list_loop start (Suc d) (advance c)"
    using s(1) plain_char.prems plain_char.hyps(1) by (subst scan_list_loop.simps) simp
  with c1 moved_trans [OF s(2) c1(1)] plain_char.prems show ?case by auto
next
  case (plain_string s t)
  have p: "cursor_ok c" "remaining c = ch_dquote # s @ t @ r" "ch_cr \<notin> set s" "ch_cr \<notin> set t"
    using plain_string.prems by auto
  obtain c0 where c0: "scan_string c = (None, c0)" "moved c (ch_dquote # s) c0"
    using scan_plain_string [OF plain_string.hyps(1) p(3,1,2)] by blast
  have r: "remaining c0 = t @ r" using c0(2) p(2) by (simp add: moved_def)
  obtain c1 where c1: "moved c0 t c1" "scan_list_loop start (Suc d) c0 = scan_list_loop start (Suc d) c1"
    using plain_string.IH [OF p(4) moved_ok [OF c0(2)] r] by blast
  have "peek c = Some ch_dquote" using p(2) by (simp add: peek_def)
  then have "scan_list_loop start (Suc d) c = scan_list_loop start (Suc d) c0"
    using c0(1) by (subst scan_list_loop.simps) simp
  with c1 moved_trans [OF c0(2) c1(1)] show ?case by auto
next
  case (plain_list u t)
  have p: "cursor_ok c" "remaining c = ch_lparen # u @ ch_rparen # t @ r" "ch_cr \<notin> set u" "ch_cr \<notin> set t"
    using plain_list.prems by auto
  note s = step_over [OF p(1,2), simplified]
  obtain c1 where c1: "moved (advance c) u c1"
      "scan_list_loop start (Suc (Suc d)) (advance c) = scan_list_loop start (Suc (Suc d)) c1"
    using plain_list.IH(1) [OF p(3) s(3,4)] by blast
  have r1: "remaining c1 = ch_rparen # t @ r" using c1(1) s(4) by (simp add: moved_def)
  note s1 = step_over [OF moved_ok [OF c1(1)] r1, simplified]
  obtain c2 where c2: "moved (advance c1) t c2"
      "scan_list_loop start (Suc d) (advance c1) = scan_list_loop start (Suc d) c2"
    using plain_list.IH(2) [OF p(4) s1(3,4)] by blast
  have "scan_list_loop start (Suc d) c = scan_list_loop start (Suc (Suc d)) (advance c)"
    using s(1) by (subst scan_list_loop.simps) simp
  moreover have "scan_list_loop start (Suc (Suc d)) c1 = scan_list_loop start (Suc d) (advance c1)"
    using s1(1) by (subst scan_list_loop.simps) simp
  moreover have "moved c (ch_lparen # u @ ch_rparen # t) c2"
    using moved_trans [OF s(2) moved_trans [OF c1(1) moved_trans [OF s1(2) c2(1)]]] by simp
  ultimately show ?case using c1(2) c2(2) by auto
qed

lemma scan_plain_list:
  assumes "plain_items u" "ch_cr \<notin> set u" "cursor_ok c" "remaining c = ch_lparen # u @ ch_rparen # r"
  shows "\<exists>c1. scan_list c = (None, c1) \<and> moved c (ch_lparen # u @ [ch_rparen]) c1"
proof -
  let ?start = "(cu_line c, cu_column c)"
  note s = step_over [OF assms(3,4), simplified]
  obtain c1 where c1: "moved (advance c) u c1" "scan_list_loop ?start (Suc 0) (advance c) = scan_list_loop ?start (Suc 0) c1"
    using scan_plain_items [OF assms(1,2) s(3,4)] by blast
  have r1: "remaining c1 = ch_rparen # r" using c1(1) s(4) by (simp add: moved_def)
  note s1 = step_over [OF moved_ok [OF c1(1)] r1, simplified]
  have "scan_list_loop ?start 0 c = scan_list_loop ?start (Suc 0) (advance c)"
    using s(1) by (subst scan_list_loop.simps) simp
  moreover have "scan_list_loop ?start (Suc 0) c1 = (None, advance c1)"
    using s1(1) by (subst scan_list_loop.simps) simp
  moreover have "moved c (ch_lparen # u @ [ch_rparen]) (advance c1)"
    using moved_trans [OF s(2) moved_trans [OF c1(1) s1(2)]] by simp
  ultimately show ?thesis using c1(2) by (simp add: scan_list_def)
qed

lemma scan_plain_atom:
  assumes "plain_atom t" "cursor_ok c" "remaining c = t @ ch_lf # r"
  shows "moved c t (scan_atom c)"
proof -
  have t: "t \<noteq> []" "\<forall>ch\<in>set t. \<not> is_atom_delimiter ch" "ch_dot \<in> set t \<longrightarrow> is_decimal t"
    using assms(1) by (simp_all add: plain_atom_def)
  have lf: "is_atom_delimiter ch_lf" "is_atom_delimiter ch_cr" by (simp_all add: is_atom_delimiter_def is_whitespace_def)
  have tw: "takeWhile (\<lambda>c. \<not> is_atom_delimiter c) (t @ ch_lf # r) = t"
    using t(2) lf by (simp add: takeWhile_append)
  have tb: "take_bytes (case str_find is_atom_delimiter (t @ ch_lf # r) of None \<Rightarrow> byte_len (t @ ch_lf # r) | Some n \<Rightarrow> n)
      (t @ ch_lf # r) = t"
    using take_bytes_str_find [of "t @ ch_lf # r" is_atom_delimiter] tw by simp
  have "atom_byte_count (t @ ch_lf # r) = byte_len t"
  proof (cases "str_find (\<lambda>ch. ch = ch_dot) t")
    case (Some n)
    then have "ch_dot \<in> set t" by (auto dest: str_find_Some)
    with t(3) Some tb show ?thesis by (simp add: atom_byte_count_def Let_def)
  qed (use tb in \<open>simp add: atom_byte_count_def Let_def\<close>)
  then show ?thesis
    using advance_to_moved [OF assms(2,3)] t(2) lf(2) assms(3) by (auto simp: scan_atom_def)
qed

lemma scan_plain_form:
  assumes "plain_form f" "cursor_ok c" "remaining c = f @ ch_lf # r"
  shows "\<exists>c1. scan_form c = (None, c1) \<and> moved c f c1"
proof -
  have cr: "ch_cr \<notin> set f" using assms(1) by (simp add: plain_form_def)
  consider "plain_atom f" | s where "string_tail s" "f = ch_dquote # s"
    | u where "plain_items u" "f = ch_lparen # u @ [ch_rparen]"
    using assms(1) unfolding plain_form_def by blast
  then show ?thesis
  proof cases
    case 1
    then obtain ch t where f: "f = ch # t" "\<not> is_atom_delimiter ch" by (cases f) (auto simp: plain_atom_def)
    then have p: "peek c = Some ch" "\<not> is_end c" using assms(3) by (simp_all add: peek_def is_end_iff)
    have "ch \<notin> {ch_quote, ch_lparen, ch_rparen, ch_dquote}" using f(2) by (auto simp: is_atom_delimiter_def)
    with p have "scan_form c = (None, scan_atom c)"
      by (simp add: scan_form_def quote_loop.simps)
    with scan_plain_atom [OF 1 assms(2,3)] show ?thesis by blast
  next
    case 2
    then have r: "remaining c = ch_dquote # s @ ch_lf # r" using assms(3) by simp
    then have "scan_form c = scan_string c" by (simp add: scan_form_def quote_loop.simps peek_def is_end_iff)
    with scan_plain_string [OF 2(1) _ assms(2) r] cr 2(2) show ?thesis by auto
  next
    case 3
    then have r: "remaining c = ch_lparen # u @ ch_rparen # ch_lf # r" using assms(3) by simp
    then have "scan_form c = scan_list c" by (simp add: scan_form_def quote_loop.simps peek_def is_end_iff)
    with scan_plain_list [OF 3(1) _ assms(2) r] cr 3(2) show ?thesis by auto
  qed
qed

text \<open>White space before a form, here a new line.\<close>

lemma plain_form_head: "plain_form f \<Longrightarrow> \<exists>ch t. f = ch # t \<and> \<not> is_whitespace ch \<and> ch \<noteq> ch_semi"
  by (cases f) (auto simp: plain_form_def plain_atom_def is_atom_delimiter_def is_whitespace_def)

lemma skip_trivia_form:
  assumes "remaining c = f @ r" "plain_form f"
  shows "skip_trivia c = (None, c)"
proof -
  obtain ch t where f: "f = ch # t" "\<not> is_whitespace ch" "ch \<noteq> ch_semi" using plain_form_head [OF assms(2)] by blast
  then have "peek c = Some ch" using assms(1) by (simp add: peek_def)
  with f show ?thesis by (simp add: skip_trivia.simps skip_spaces.simps)
qed

lemma skip_trivia_lf:
  assumes "cursor_ok c" "remaining c = ch_lf # r" "skip_trivia (advance c) = (None, c1)"
  shows "skip_trivia c = (None, c1)"
proof -
  have "peek c = Some ch_lf" using assms(2) by (simp add: peek_def)
  moreover have "is_whitespace ch_lf" by (simp add: is_whitespace_def)
  ultimately have "skip_spaces c = skip_spaces (advance c)" by (simp add: skip_spaces.simps [of c])
  then show ?thesis using assms(3) unfolding skip_trivia.simps [of c] skip_trivia.simps [of "advance c"] by (simp only:)
qed

lemma validate_plain:
  assumes "\<forall>f\<in>set fs. plain_form f"
  shows "cursor_ok c \<Longrightarrow> remaining c = concat (map (\<lambda>f. f @ [ch_lf]) fs) \<or> remaining c = ch_lf # concat (map (\<lambda>f. f @ [ch_lf]) fs)
     \<Longrightarrow> validate_loop k \<lparr>sc_cursor = c, sc_finished = False\<rparr> = Inr (k + length fs)"
  using assms
proof (induction fs arbitrary: c k)
  case Nil
  have e: "skip_trivia d = (None, d)" if "remaining d = []" for d
    using that by (simp add: skip_trivia.simps skip_spaces.simps peek_def)
  have "\<exists>c1. skip_trivia c = (None, c1) \<and> is_end c1"
  proof (cases "remaining c = []")
    case False
    then have r: "remaining c = ch_lf # []" using Nil by simp
    note s = step_over [OF Nil(1) r, simplified]
    from skip_trivia_lf [OF Nil(1) r e [OF s(4)]] s(4) show ?thesis by (auto simp: is_end_iff)
  qed (use e in \<open>auto simp: is_end_iff\<close>)
  then show ?case by (subst validate_loop.simps) (auto simp: next_form_def)
next
  case (Cons f fs)
  let ?rest = "concat (map (\<lambda>f. f @ [ch_lf]) fs)"
  have f: "plain_form f" using Cons.prems(3) by simp
  have "\<exists>c1. skip_trivia c = (None, c1) \<and> cursor_ok c1 \<and> remaining c1 = f @ ch_lf # ?rest"
  proof (cases "remaining c = f @ ch_lf # ?rest")
    case True
    with skip_trivia_form [OF True f] Cons.prems(1) show ?thesis by blast
  next
    case False
    then have r: "remaining c = ch_lf # f @ ch_lf # ?rest" using Cons.prems(2) by simp
    note s = step_over [OF Cons.prems(1) r, simplified]
    from skip_trivia_lf [OF Cons.prems(1) r skip_trivia_form [OF s(4) f]] s show ?thesis by blast
  qed
  then obtain c1 where c1: "skip_trivia c = (None, c1)" "cursor_ok c1" "remaining c1 = f @ ch_lf # ?rest" by blast
  then obtain c2 where c2: "scan_form c1 = (None, c2)" "moved c1 f c2" using scan_plain_form [OF f c1(2,3)] by blast
  have r2: "remaining c2 = ch_lf # ?rest" using c2(2) c1(3) by (simp add: moved_def)
  have "\<not> is_end c1" using c1(3) plain_form_head [OF f] by (auto simp: is_end_iff)
  then have nf: "\<exists>sp. next_form \<lparr>sc_cursor = c, sc_finished = False\<rparr> = (Some (Inr sp), \<lparr>sc_cursor = c2, sc_finished = False\<rparr>)"
    using c1(1) c2(1) by (simp add: next_form_def)
  have "validate_loop (k + 1) \<lparr>sc_cursor = c2, sc_finished = False\<rparr> = Inr (k + 1 + length fs)"
    using Cons.IH [of c2 "k + 1"] moved_ok [OF c2(2)] r2 Cons.prems(3) by simp
  with nf show ?case by (subst validate_loop.simps) auto
qed

lemma validate_plain_lines:
  "\<forall>f\<in>set fs. plain_form f \<Longrightarrow> validate (concat (map (\<lambda>f. f @ [ch_lf]) fs)) = Inr (length fs)"
  using validate_plain [of fs "new_cursor (concat (map (\<lambda>f. f @ [ch_lf]) fs))" 0]
  by (simp add: validate_def scan_def cursor_ok_new) (simp add: remaining_def new_cursor_def)

end
