(* ===== verification/Value_Readable.thy ===== *)
theory Value_Readable
  imports Value_Served Lisp_Plain
begin

text \<open>
  What is printed can be read: a value without opaque parts is printed as one form of the language, and
  several values as as many.
\<close>

section \<open>Atoms\<close>

fun readable_atom :: "lisp_atom \<Rightarrow> bool" where
  "readable_atom (LaEntity h) = (entity_handle h \<noteq> None)"
| "readable_atom (LaOpaque e) = False"
| "readable_atom a = True"

fun readable :: "lisp_value \<Rightarrow> bool" and readables :: "lisp_value list \<Rightarrow> bool" where
  "readable (LvAtom a) = readable_atom a"
| "readable (LvList vs) = readables vs"
| "readable (LvDotted vs v) = (readables vs \<and> readable v)"
| "readables [] = True"
| "readables (v # vs) = (readable v \<and> readables vs)"

lemma bounded_texts_concat: "concat (bounded_texts b ss) = b @ concat ss"
  by (induction b ss rule: bounded_texts.induct) auto

lemma escape_same: "\<not> requires_readable_escape ch \<Longrightarrow> escape_char ch = [ch]"
  by (auto simp: requires_readable_escape_def escape_char_def)

lemma string_texts_concat: "concat (string_texts s) = concat (map escape_char s)"
proof (cases "list_ex requires_readable_escape s")
  case False
  then have "map escape_char s = map (\<lambda>ch. [ch]) s" by (simp add: list_ex_iff escape_same)
  then have "concat (map escape_char s) = concat (map (\<lambda>ch. [ch]) s)" by (simp only:)
  with False show ?thesis by (simp add: string_texts_def)
qed (simp add: string_texts_def bounded_texts_concat)

lemma string_octal: "string_tail t \<Longrightarrow> string_tail ((48 + n mod 8) # t)"
proof -
  have "n mod 8 < 8" by simp
  then have "48 + n mod 8 \<notin> {ch_dquote, ch_bslash}" by auto
  then show "string_tail t \<Longrightarrow> string_tail ((48 + n mod 8) # t)" by (rule string_char)
qed

lemma escape_char_tail: "string_tail t \<Longrightarrow> string_tail (escape_char ch @ t)"
  by (auto simp: escape_char_def intro!: string_escape string_octal intro: string_char)

lemma escape_chars_tail: "string_tail (concat (map escape_char s) @ [ch_dquote])"
  by (induction s) (auto intro: string_close escape_char_tail)

lemma escape_char_no_cr: "ch_cr \<notin> set (escape_char ch)"
  by (auto simp: escape_char_def)

lemma split_inclusive_concat: "concat (split_inclusive sep s) = s"
  by (induction sep s rule: split_inclusive.induct) (auto split: list.split)

lemma fragment_chars: "set (concat (fragment_texts f)) \<subseteq> insert ch_bslash (set f)" "f \<noteq> [] \<Longrightarrow> concat (fragment_texts f) \<noteq> []"
  by (auto simp: fragment_texts_def dest: in_set_butlastD)

lemma fragments_chars:
  "set (concat (concat (map fragment_texts fs))) \<subseteq> insert ch_bslash (set (concat fs))"
  "concat fs \<noteq> [] \<Longrightarrow> concat (concat (map fragment_texts fs)) \<noteq> []"
proof (induction fs)
  case (Cons f fs)
  {
    case 1
    then show ?case using Cons.IH(1) fragment_chars(1) [of f] by auto
  next
    case 2
    then show ?case using Cons.IH(2) fragment_chars(2) [of f] by (cases "f = []") auto
  }
qed simp_all

lemma symbol_texts_chars: "set (concat (symbol_texts s)) \<subseteq> insert ch_bslash (set s)" "s \<noteq> [] \<Longrightarrow> concat (symbol_texts s) \<noteq> []"
  using fragments_chars [of "split_inclusive ch_bslash s"]
  by (auto simp: symbol_texts_def bounded_texts_concat split_inclusive_concat simp del: concat_eq_Nil_conv set_concat)

lemma plain_form_item: "plain_form f \<Longrightarrow> plain_items f"
proof -
  assume "plain_form f"
  then consider "plain_atom f" | s where "string_tail s" "f = ch_dquote # s"
    | u where "plain_items u" "f = ch_lparen # u @ [ch_rparen]"
    unfolding plain_form_def by blast
  then show "plain_items f"
  proof cases
    case 1
    then show ?thesis by (intro plain_chars) (auto simp: plain_atom_def is_atom_delimiter_def)
  qed (simp_all add: plain_quoted plain_paren)
qed

lemma delimiter_cr: "is_atom_delimiter ch_cr"
  by (simp add: is_atom_delimiter_def is_whitespace_def)

lemma plain_atomI:
  assumes "t \<noteq> []" "\<And>ch. ch \<in> set t \<Longrightarrow> \<not> is_atom_delimiter ch" "ch_dot \<in> set t \<Longrightarrow> is_decimal t"
  shows "plain_form t"
proof -
  have "ch_cr \<notin> set t" using assms(2) delimiter_cr by blast
  then show ?thesis unfolding plain_form_def plain_atom_def using assms by blast
qed

lemma ascii_not_delimiter:
  "is_ascii_digit ch \<Longrightarrow> \<not> is_atom_delimiter ch \<and> ch \<noteq> ch_dot" "ch \<in> {ch_plus, ch_minus, 101} \<Longrightarrow> \<not> is_atom_delimiter ch \<and> ch \<noteq> ch_dot"
  "\<not> is_atom_delimiter ch_dot"
  by (auto simp: is_ascii_digit_def is_atom_delimiter_def is_whitespace_def)

lemma plain_int: "plain_form (dec_int i)"
proof (rule plain_atomI)
  have nat: "dec_nat n \<noteq> []" for n by (subst dec_nat.simps) simp
  then show "dec_int i \<noteq> []" by (simp add: dec_int_def)
  have d: "is_ascii_digit ch \<or> ch = ch_minus" if "ch \<in> set (dec_int i)" for ch
    using that dec_nat_digits by (auto simp: dec_int_def split: if_splits)
  then show "\<not> is_atom_delimiter ch" if "ch \<in> set (dec_int i)" for ch
    using that ascii_not_delimiter(1,2) by blast
  show "is_decimal (dec_int i)" if "ch_dot \<in> set (dec_int i)"
    using d [OF that] ascii_not_delimiter(1) by auto
qed

lemma plain_real:
  assumes "format_autolisp_real v = Some s"
  shows "plain_form s"
proof (rule plain_atomI)
  note r = format_autolisp_real_text [OF assms]
  then show "s \<noteq> []" by (auto simp: real_text_def)
  show "\<not> is_atom_delimiter ch" if "ch \<in> set s" for ch
    using real_text_ascii [OF r that] ascii_not_delimiter by auto
  show "is_decimal s" by (rule real_text_decimal [OF r])
qed

lemma plain_symbol:
  assumes "atom_ok (LaSymbol cs)"
  shows "plain_form (concat (atom_texts (LaSymbol cs)))"
proof (rule plain_atomI)
  let ?t = "concat (atom_texts (LaSymbol cs))"
  have t: "?t = concat (map (\<lambda>c. concat (symbol_texts c)) (filter (\<lambda>c. c \<noteq> []) cs))"
    by (induction cs) auto
  obtain c where c: "c \<in> set cs" "c \<noteq> []" using assms by auto
  then show "?t \<noteq> []" using symbol_texts_chars(2) [of c] unfolding t by auto
  have v: "ch = ch_bslash \<or> valid_symbol_character ch" if "ch \<in> set ?t" for ch
  proof -
    from that obtain c where "c \<in> set cs" "ch \<in> set (concat (symbol_texts c))" unfolding t by auto
    with symbol_texts_chars(1) [of c] assms show ?thesis by (auto simp: list_all_iff)
  qed
  show "\<not> is_atom_delimiter ch" if "ch \<in> set ?t" for ch
    using v [OF that] by (auto simp: valid_symbol_character_def is_atom_delimiter_def is_whitespace_def)
  show "is_decimal ?t" if "ch_dot \<in> set ?t"
    using v [OF that] by (auto simp: valid_symbol_character_def)
qed

lemma plain_string_atom: "plain_form (concat (atom_texts (LaString cs)))"
proof -
  have "concat (concat (map string_texts cs)) = concat (map escape_char (concat cs))"
    by (induction cs) (simp_all add: string_texts_concat)
  then have t: "concat (atom_texts (LaString cs)) = ch_dquote # concat (map escape_char (concat cs)) @ [ch_dquote]" by simp
  have "ch_cr \<notin> set (concat (map escape_char (concat cs)))" using escape_char_no_cr by auto
  then show ?thesis unfolding t plain_form_def using escape_chars_tail [of "concat cs"] by auto
qed

lemma plain_entity:
  assumes "entity_handle h = Some s"
  shows "plain_form (concat (atom_texts (LaEntity h)))"
proof -
  obtain x where x: "s = map to_ascii_uppercase x" "\<forall>ch\<in>set x. is_ascii_hexdigit ch"
    using assms by (auto simp: entity_handle_def all_hexdigits_iff split: option.splits if_splits)
  then have s: "\<forall>ch\<in>set s. ch \<notin> {ch_dquote, ch_bslash, ch_cr}"
    by (auto simp: is_ascii_hexdigit_def is_ascii_digit_def to_ascii_uppercase_def)
  have "string_tail (s @ [ch_dquote])"
    using s by (induction s) (auto intro: string_close string_char)
  moreover have "plain_items (lit ''handent '')" by (rule plain_chars) (simp add: lit_def)
  ultimately have "plain_items (lit ''handent '' @ ch_dquote # s @ [ch_dquote])"
    by (intro plain_append plain_quoted)
  moreover have "concat (atom_texts (LaEntity h)) = ch_lparen # (lit ''handent '' @ ch_dquote # s @ [ch_dquote]) @ [ch_rparen]"
    by (simp add: assms lit_def)
  moreover have "ch_cr \<notin> set (lit ''handent '')" by (simp add: lit_def)
  ultimately show ?thesis unfolding plain_form_def using s by auto
qed

lemma atom_plain:
  assumes "readable_atom a" "atom_ok a"
  shows "plain_form (concat (atom_texts a))"
proof (cases a)
  case (LaReal v)
  with assms(2) show ?thesis by (auto intro: plain_real)
next
  case (LaEntity h)
  with assms(1) plain_entity [of h] show ?thesis by auto
next
  case LaNil
  then show ?thesis by (auto simp: lit_def is_atom_delimiter_def is_whitespace_def intro!: plain_atomI)
next
  case LaTrue
  then show ?thesis by (auto simp: lit_def is_atom_delimiter_def is_whitespace_def intro!: plain_atomI)
qed (use assms plain_int plain_symbol plain_string_atom in auto)

section \<open>Lists\<close>

definition plain_text :: "ustr \<Rightarrow> bool" where
  "plain_text t \<longleftrightarrow> plain_items t \<and> ch_cr \<notin> set t"

lemma plain_text_append: "plain_text s \<Longrightarrow> plain_text t \<Longrightarrow> plain_text (s @ t)"
  by (simp add: plain_text_def plain_append)

lemma plain_text_Nil [simp]: "plain_text []"
  by (simp add: plain_text_def plain_Nil)

lemma plain_form_text: "plain_form f \<Longrightarrow> plain_text f"
  by (simp add: plain_text_def plain_form_item) (simp add: plain_form_def)

lemma plain_text_list: "plain_text u \<Longrightarrow> plain_form (ch_lparen # u @ [ch_rparen])"
  by (auto simp: plain_text_def plain_form_def)

lemma render_text_docs: "fst (renders wd m col (map DcText ss)) = concat ss"
proof (induction ss arbitrary: col)
  case (Cons s ss)
  show ?case using Cons [of "snd (render wd m col (DcText s))"] by (simp add: case_prod_beta)
qed simp

lemma renders_plain_append:
  assumes "\<And>m col. plain_text (fst (renders wd m col ds))" "\<And>m col. plain_text (fst (renders wd m col es))"
  shows "plain_text (fst (renders wd m col (ds @ es)))"
  using assms plain_text_append by (simp add: renders_append case_prod_beta)

lemma render_line_plain: "plain_text flat \<Longrightarrow> plain_text (fst (renders wd m col [DcLine flat indent]))"
  by (auto simp: plain_text_def intro!: plain_chars)

lemma lines_plain:
  "plain_text (fst (renders wd m col (first_line d v)))" "plain_text (fst (renders wd m col (next_line d)))"
  unfolding first_line_def next_line_def
  by (auto simp del: renders.simps intro!: render_line_plain) (auto simp: plain_text_def intro!: plain_chars)

lemma list_doc_form:
  assumes "\<And>m col. plain_text (fst (renders wd m col ds))"
  shows "plain_form (fst (renders wd m col [list_doc d none ds]))"
proof -
  let ?m = "inner_mode wd col (depth_kind d)
      (DcText [ch_lparen] # ds @ (if none then [] else [DcLine [] (indent_for_depth d)]) @ [DcText [ch_rparen]])"
  let ?col = "sat_add64 col (wd [ch_lparen])"
  let ?in = "ds @ (if none then [] else [DcLine [] (indent_for_depth d)])"
  have "plain_text (fst (renders wd ?m ?col ?in))"
    by (rule renders_plain_append [OF assms]) (cases none; simp del: renders.simps(2) add: render_line_plain)
  moreover have "fst (renders wd m col [list_doc d none ds]) = ch_lparen # fst (renders wd ?m ?col ?in) @ [ch_rparen]"
    unfolding list_doc_def by (simp add: renders_append case_prod_beta)
  ultimately show ?thesis using plain_text_list by simp
qed

lemma values_plain:
  shows "readable v \<Longrightarrow> value_ok v \<Longrightarrow> d + value_depth v \<le> MAX_VALUE_DEPTH \<Longrightarrow> plain_form (fst (renders wd m col (value_docs d v)))"
    and "readables vs \<Longrightarrow> values_ok vs \<Longrightarrow> d + values_depth vs \<le> MAX_VALUE_DEPTH
      \<Longrightarrow> plain_text (fst (renders wd m col (items_docs d first vs)))"
proof (induction d v and d first vs arbitrary: m col and m col rule: value_docs_items_docs.induct)
  case (1 d a)
  then show ?case by (simp add: render_text_docs atom_plain)
next
  case (2 d vs)
  then have "d \<noteq> MAX_VALUE_DEPTH" by auto
  moreover have "plain_text (fst (renders wd m col (items_docs (Suc d) True vs)))" for m col
    using 2 \<open>d \<noteq> MAX_VALUE_DEPTH\<close> by auto
  ultimately show ?case by (simp only: value_docs.simps if_False) (rule list_doc_form)
next
  case (3 d vs v)
  then have d: "d \<noteq> MAX_VALUE_DEPTH" by auto
  have a: "plain_text (fst (renders wd m col (items_docs (Suc d) True vs)))" for m col
    using 3 d by auto
  have b: "plain_text (fst (renders wd m col (value_docs (Suc d) v)))" for m col
    using 3 d by (intro plain_form_text) auto
  have dot: "plain_text (fst (renders wd m col [DcText [ch_dot]]))" for m col
    by (auto simp: plain_text_def intro!: plain_chars)
  have "plain_text (fst (renders wd m col (items_docs (Suc d) True vs @ next_line (Suc d) @ [DcText [ch_dot]] @ next_line (Suc d) @ value_docs (Suc d) v)))"
    for m col
    by (intro renders_plain_append a b dot lines_plain)
  with d show ?case by (simp only: value_docs.simps if_False append_Cons append_Nil) (rule list_doc_form)
next
  case (4 d first)
  then show ?case by simp
next
  case (5 d first v vs)
  have v: "plain_text (fst (renders wd m col (value_docs d v)))" for m col
    using 5 by (intro plain_form_text) auto
  have vs: "plain_text (fst (renders wd m col (items_docs d False vs)))" for m col
    using 5 by auto
  have line: "plain_text (fst (renders wd m col (if first then first_line d v else next_line d)))" for m col
    using lines_plain by simp
  show ?case unfolding items_docs.simps by (intro renders_plain_append v vs line)
qed

lemma value_text_plain:
  "readable v \<Longrightarrow> value_ok v \<Longrightarrow> value_depth v \<le> MAX_VALUE_DEPTH \<Longrightarrow> plain_form (value_text wd v)"
  unfolding value_text_def by (rule values_plain(1)) simp_all

section \<open>On one line\<close>

text \<open>A value on one line: the items of a list apart by one space.\<close>

fun one_line :: "lisp_value \<Rightarrow> ustr" and spaced :: "lisp_value list \<Rightarrow> ustr" where
  "one_line (LvAtom a) = concat (atom_texts a)"
| "one_line (LvList vs) = ch_lparen # drop 1 (spaced vs) @ [ch_rparen]"
| "one_line (LvDotted vs v) = ch_lparen # drop 1 (spaced vs) @ [ch_space, ch_dot, ch_space] @ one_line v @ [ch_rparen]"
| "spaced [] = []"
| "spaced (v # vs) = ch_space # one_line v @ spaced vs"

lemma flat_values:
  shows "d + value_depth v \<le> MAX_VALUE_DEPTH \<Longrightarrow> flat_texts (value_docs d v) = one_line v"
    and "d + values_depth vs \<le> MAX_VALUE_DEPTH
      \<Longrightarrow> flat_texts (items_docs d first vs) = (if first then drop 1 (spaced vs) else spaced vs)"
proof (induction d v and d first vs rule: value_docs_items_docs.induct)
  case (2 d vs)
  then have "d \<noteq> MAX_VALUE_DEPTH" by auto
  with 2 show ?case by (auto simp: list_doc_def)
next
  case (3 d vs v)
  then have "d \<noteq> MAX_VALUE_DEPTH" by auto
  with 3 show ?case by (auto simp: list_doc_def next_line_def)
qed (auto simp: first_line_def next_line_def)

lemma renders_text_docs_top: "ss \<noteq> [] \<Longrightarrow> fst (renders wd m col (map DcText ss)) = flat_texts (map DcText ss)"
  by (simp add: render_text_docs)

lemma value_text_flat:
  assumes "flat_widths wd (value_docs 0 v) \<le> PRINT_WIDTH" "value_depth v \<le> MAX_VALUE_DEPTH"
  shows "value_text wd v = one_line v"
proof -
  have flat: "flat_texts (value_docs 0 v) = one_line v" by (rule flat_values(1)) (use assms(2) in simp)
  show ?thesis
  proof (cases v)
    case (LvAtom a)
    then show ?thesis by (simp add: value_text_def render_text_docs)
  next
    case (LvList vs)
    have d: "0 \<noteq> MAX_VALUE_DEPTH" by (simp add: MAX_VALUE_DEPTH_def)
    then obtain ds where ds: "value_docs 0 v = [DcGroup (depth_kind 0) ds]" using LvList by (simp add: list_doc_def)
    have k: "depth_kind 0 = GkBreakable" by (simp add: depth_kind_def indent_for_depth_def sat_mul64_def PRINT_WIDTH_def)
    have "docs_ok DmFlat (value_docs 0 v)" by (rule value_docs_ok) simp
    then have "docs_ok DmFlat ds" by (simp add: ds k)
    from render_flat(2) [of DmFlat ds 0 wd, OF _ this] assms(1) ds k
    have "fst (renders wd DmFlat 0 ds) = flat_texts ds" by simp
    with ds k assms(1) flat show ?thesis by (simp add: value_text_def inner_mode_def case_prod_beta)
  next
    case (LvDotted vs u)
    have d: "0 \<noteq> MAX_VALUE_DEPTH" by (simp add: MAX_VALUE_DEPTH_def)
    then obtain ds where ds: "value_docs 0 v = [DcGroup (depth_kind 0) ds]" using LvDotted by (simp add: list_doc_def)
    have k: "depth_kind 0 = GkBreakable" by (simp add: depth_kind_def indent_for_depth_def sat_mul64_def PRINT_WIDTH_def)
    have "docs_ok DmFlat (value_docs 0 v)" by (rule value_docs_ok) simp
    then have "docs_ok DmFlat ds" by (simp add: ds k)
    from render_flat(2) [of DmFlat ds 0 wd, OF _ this] assms(1) ds k
    have "fst (renders wd DmFlat 0 ds) = flat_texts ds" by simp
    with ds k assms(1) flat show ?thesis by (simp add: value_text_def inner_mode_def case_prod_beta)
  qed
qed

section \<open>Through the port\<close>

text \<open>The events of a value, between its begin and its end, while the window of the lease is open.\<close>

definition sent_value :: "value_bridge \<Rightarrow> lisp_value \<Rightarrow> (value_bridge \<times> output_event option) list" where
  "sent_value b v = map (\<lambda>e. (b, Some e)) (item_events (ItValue (value_events v)))"

definition idle_port :: "value_bridge \<Rightarrow> 's output_port \<Rightarrow> bool" where
  "idle_port b p \<longleftrightarrow> po_result p = EContinue \<and> port_claimed b p \<and> po_printer p = None"

lemma port_prints_value:
  assumes "served_open sink" "value_ok v" "value_depth v \<le> u64_max" "idle_port b p" "po_mode p = PmEvalValue \<longrightarrow> po_completed p = 0"
  shows "\<exists>sink1. port_run (served_env wd) (sent_value b v) p sink
      = ((replicate (length (value_events v) + 2) EContinue, p\<lparr>po_completed := po_completed p + 1\<rparr>), sink1)
    \<and> served_open sink1 \<and> served_text sink1 = served_text sink @ value_text wd v @ [ch_lf]"
  using served.port_value_written [OF assms(1-3), of p b wd] assms(4,5)
  by (auto simp: idle_port_def sent_value_def served_env_def)

lemma port_prints_values:
  "served_open sink \<Longrightarrow> values_ok vs \<Longrightarrow> values_depth vs \<le> u64_max \<Longrightarrow> idle_port b p
     \<Longrightarrow> po_mode p = PmEvalValue \<longrightarrow> po_completed p = 0 \<and> length vs \<le> 1
     \<Longrightarrow> \<exists>sink1 rs. port_run (served_env wd) (concat (map (sent_value b) vs)) p sink
      = ((rs, p\<lparr>po_completed := po_completed p + length vs\<rparr>), sink1) \<and> set rs \<subseteq> {EContinue}
    \<and> served_open sink1 \<and> served_text sink1 = served_text sink @ concat (map (\<lambda>v. value_text wd v @ [ch_lf]) vs)"
proof (induction vs arbitrary: p sink)
  case (Cons v vs)
  obtain sink1 where s1: "port_run (served_env wd) (sent_value b v) p sink
      = ((replicate (length (value_events v) + 2) EContinue, p\<lparr>po_completed := po_completed p + 1\<rparr>), sink1)"
      "served_open sink1" "served_text sink1 = served_text sink @ value_text wd v @ [ch_lf]"
    using port_prints_value [OF Cons(2), of v b p wd] Cons(3-6) by auto
  let ?p = "p\<lparr>po_completed := po_completed p + 1\<rparr>"
  have "idle_port b ?p" using Cons(5) by (simp add: idle_port_def port_claimed_def)
  moreover have "po_mode ?p = PmEvalValue \<longrightarrow> vs = []" using Cons(6) by auto
  moreover have "vs = [] \<Longrightarrow> \<exists>sink2 rs. port_run (served_env wd) (concat (map (sent_value b) vs)) ?p sink1
      = ((rs, ?p\<lparr>po_completed := po_completed ?p + length vs\<rparr>), sink2) \<and> set rs \<subseteq> {EContinue}
    \<and> served_open sink2 \<and> served_text sink2 = served_text sink1 @ concat (map (\<lambda>v. value_text wd v @ [ch_lf]) vs)"
    using s1(2) by simp
  ultimately obtain sink2 rs where s2: "port_run (served_env wd) (concat (map (sent_value b) vs)) ?p sink1
      = ((rs, ?p\<lparr>po_completed := po_completed ?p + length vs\<rparr>), sink2)" "set rs \<subseteq> {EContinue}" "served_open sink2"
      "served_text sink2 = served_text sink1 @ concat (map (\<lambda>v. value_text wd v @ [ch_lf]) vs)"
    using Cons(1) [OF s1(2), of ?p] Cons(3,4) by (cases "vs = []") auto
  from s1 s2 show ?case by (auto simp: port_run_append)
qed simp

section \<open>Properties\<close>


definition sample_value :: lisp_value where
  "sample_value = LvList [LvAtom LaNil, LvAtom (LaInt 7), LvDotted [LvAtom (LaString [lit ''a'', [10]])] (LvAtom LaTrue)]"

definition sample_port :: "served output_port" where
  "sample_port = fst (new_port (served_env length) eval_lease PmEvalValue served_new)"

lemma sample_port_idle: "idle_port eval_bridge sample_port" "po_completed sample_port = 0" "po_mode sample_port = PmEvalValue"
proof -
  have "po_result sample_port = EContinue" "port_claimed eval_bridge sample_port" "po_completed sample_port = 0"
    "po_mode sample_port = PmEvalValue"
    by code_simp+
  moreover have "po_printer sample_port = None"
    by (simp add: sample_port_def new_port_def split: prod.split)
  ultimately show "idle_port eval_bridge sample_port" "po_completed sample_port = 0" "po_mode sample_port = PmEvalValue"
    by (simp_all add: idle_port_def)
qed

lemma sample_value_ok: "value_ok sample_value" "value_depth sample_value \<le> MAX_VALUE_DEPTH" "value_depth sample_value \<le> u64_max"
  by (simp_all add: sample_value_def MAX_VALUE_TEXT_BYTES_def OUTPUT_CHUNK_BYTES_def MAX_VALUE_DEPTH_def u64_max_def lit_def len_utf8_def)


text \<open>C31.  Readable values are printed as source text: what any number of them leave at the consumer is a
  valid source of exactly as many forms.\<close>

theorem printed_readable:
  assumes "values_ok vs" "readables vs" "values_depth vs \<le> MAX_VALUE_DEPTH" "idle_port b p"
    and "po_mode p = PmEvalValue \<longrightarrow> po_completed p = 0 \<and> length vs \<le> 1"
    and "port_run (served_env wd) (concat (map (sent_value b) vs)) p served_new = ((rs, p1), sink1)"
  shows "set rs \<subseteq> {EContinue} \<and> validate (served_text sink1) = Inr (length vs)"
proof -
  have "values_depth vs \<le> u64_max" using assms(3) by (simp add: MAX_VALUE_DEPTH_def u64_max_def)
  from port_prints_values [OF served_new_open(1) assms(1) this assms(4,5), of wd] assms(6)
  have t: "set rs \<subseteq> {EContinue}" "served_text sink1 = concat (map (\<lambda>v. value_text wd v @ [ch_lf]) vs)"
    by (auto simp: served_new_open(2))
  have "\<forall>f\<in>set (map (value_text wd) vs). plain_form f"
    using assms(1-3) by (induction vs) (auto intro: value_text_plain)
  from validate_plain_lines [OF this] t show ?thesis by (simp add: comp_def)
qed

theorem printed_readable_witness:
  "validate (served_text (snd (port_run (served_env length) (sent_value eval_bridge sample_value) sample_port served_new))) = Inr 1"
proof -
  obtain rs p1 sink1 where run: "port_run (served_env length) (concat (map (sent_value eval_bridge) [sample_value])) sample_port served_new
      = ((rs, p1), sink1)"
    by (metis prod.exhaust)
  have "readables [sample_value]" by (simp add: sample_value_def)
  from printed_readable [OF _ this _ sample_port_idle(1) _ run] sample_value_ok sample_port_idle(2) run show ?thesis by simp
qed

text \<open> A value that fits on a line is printed on one line, its items apart by one space.\<close>

lemma printed_on_one_line:
  assumes "flat_widths wd (value_docs 0 v) \<le> PRINT_WIDTH" "value_ok v" "value_depth v \<le> MAX_VALUE_DEPTH"
    and "served_open sink" "idle_port b p" "po_mode p = PmEvalValue \<longrightarrow> po_completed p = 0"
  shows "served_text (snd (port_run (served_env wd) (sent_value b v) p sink)) = served_text sink @ one_line v @ [ch_lf]"
proof -
  have "value_depth v \<le> u64_max" using assms(3) by (simp add: MAX_VALUE_DEPTH_def u64_max_def)
  from port_prints_value [OF assms(4,2) this assms(5,6), of wd] value_text_flat [OF assms(1,3)] show ?thesis by auto
qed

lemma printed_on_one_line_witness:
  "served_text (snd (port_run (served_env length) (sent_value eval_bridge sample_value) sample_port served_new))
     = one_line sample_value @ [10]"
proof -
  have "flat_widths length (value_docs 0 sample_value) \<le> PRINT_WIDTH" by code_simp
  from printed_on_one_line [OF this sample_value_ok(1,2) served_new_open(1) sample_port_idle(1)] sample_port_idle(2)
    served_new_open(2) show ?thesis by simp
qed

end
