(* ===== verification/Rpc_Messages.thy ===== *)
theory Rpc_Messages
  imports Sched_World
begin

text \<open>
  The messages of the execution service and of drawing errors, \<open>crates/rpc/proto/acadctl.proto\<close>, and
  their constructors in \<open>crates/rpc/src/request.rs\<close>.  Enumerations travel as \<open>i32\<close> codes and may hold
  a code the receiver does not know; the generated \<open>try_from\<close> gives the name back.  A field of
  message type may be absent.  The bytes of a message are made by the protobuf library and stay
  outside: where the code puts an encoded message into the details of a status, the encoder and the
  decoder are parameters.
\<close>

section \<open>Enumerations\<close>

datatype rpc_exec_mode = RpcModeUnspecified | RpcEval | RpcExec

fun exec_mode_code :: "rpc_exec_mode \<Rightarrow> int" where
  "exec_mode_code RpcModeUnspecified = 0"
| "exec_mode_code RpcEval = 1"
| "exec_mode_code RpcExec = 2"

definition exec_mode_try_from :: "int \<Rightarrow> rpc_exec_mode option" where
  "exec_mode_try_from n = (if n = 0 then Some RpcModeUnspecified else if n = 1 then Some RpcEval
     else if n = 2 then Some RpcExec else None)"

datatype cancel_disposition = CdUnspecified | CdAccepted | CdTooLate

fun cancel_disposition_code :: "cancel_disposition \<Rightarrow> int" where
  "cancel_disposition_code CdUnspecified = 0"
| "cancel_disposition_code CdAccepted = 1"
| "cancel_disposition_code CdTooLate = 2"

definition cancel_disposition_try_from :: "int \<Rightarrow> cancel_disposition option" where
  "cancel_disposition_try_from n = (if n = 0 then Some CdUnspecified else if n = 1 then Some CdAccepted
     else if n = 2 then Some CdTooLate else None)"

datatype rpc_drawing_outcome = RdoUnspecified | RdoNotStarted | RdoRolledBack | RdoCommitted | RdoUnknown

fun drawing_outcome_code :: "rpc_drawing_outcome \<Rightarrow> int" where
  "drawing_outcome_code RdoUnspecified = 0"
| "drawing_outcome_code RdoNotStarted = 1"
| "drawing_outcome_code RdoRolledBack = 2"
| "drawing_outcome_code RdoCommitted = 3"
| "drawing_outcome_code RdoUnknown = 4"

definition drawing_outcome_try_from :: "int \<Rightarrow> rpc_drawing_outcome option" where
  "drawing_outcome_try_from n = (if n = 0 then Some RdoUnspecified else if n = 1 then Some RdoNotStarted
     else if n = 2 then Some RdoRolledBack else if n = 3 then Some RdoCommitted
     else if n = 4 then Some RdoUnknown else None)"

fun drawing_error_code :: "drawing_error_kind \<Rightarrow> int" where
  "drawing_error_code DekUnspecified = 0"
| "drawing_error_code DekNotOpen = 1"
| "drawing_error_code DekReplaced = 2"
| "drawing_error_code DekReadOnly = 3"
| "drawing_error_code DekUnsavedChanges = 4"
| "drawing_error_code DekNoFileName = 5"
| "drawing_error_code DekBusy = 6"
| "drawing_error_code DekUndoDisabled = 7"
| "drawing_error_code DekDestinationExists = 8"
| "drawing_error_code DekReadinessTimedOut = 9"
| "drawing_error_code DekNotActive = 10"
| "drawing_error_code DekHistoryOutcomeUnknown = 11"
| "drawing_error_code DekViewportUnavailable = 12"
| "drawing_error_code DekCaptureFailed = 13"

definition all_drawing_error_kinds :: "drawing_error_kind list" where
  "all_drawing_error_kinds = [DekUnspecified, DekNotOpen, DekReplaced, DekReadOnly, DekUnsavedChanges,
     DekNoFileName, DekBusy, DekUndoDisabled, DekDestinationExists, DekReadinessTimedOut, DekNotActive,
     DekHistoryOutcomeUnknown, DekViewportUnavailable, DekCaptureFailed]"

definition drawing_error_try_from :: "int \<Rightarrow> drawing_error_kind option" where
  "drawing_error_try_from n = find (\<lambda>k. drawing_error_code k = n) all_drawing_error_kinds"

lemma exec_mode_codes [simp]: "exec_mode_try_from (exec_mode_code m) = Some m"
  by (cases m) (simp_all add: exec_mode_try_from_def)

lemma cancel_disposition_codes [simp]: "cancel_disposition_try_from (cancel_disposition_code d) = Some d"
  by (cases d) (simp_all add: cancel_disposition_try_from_def)

lemma drawing_outcome_codes [simp]: "drawing_outcome_try_from (drawing_outcome_code d) = Some d"
  by (cases d) (simp_all add: drawing_outcome_try_from_def)

lemma drawing_error_codes [simp]: "drawing_error_try_from (drawing_error_code k) = Some k"
  by (cases k) (simp_all add: drawing_error_try_from_def all_drawing_error_kinds_def)

section \<open>Statuses and drawing errors\<close>

datatype status_code =
    CodeUnknown | CodeInvalidArgument | CodeDeadlineExceeded | CodeNotFound | CodeResourceExhausted
  | CodeFailedPrecondition | CodeUnimplemented | CodeInternal | CodeOther

record status =
  ss_code :: status_code
  ss_message :: ustr
  ss_details :: "byte list"

definition status_new :: "status_code \<Rightarrow> ustr \<Rightarrow> status" where
  "status_new code message = \<lparr>ss_code = code, ss_message = message, ss_details = []\<rparr>"

record drawing_error =
  de_kind :: int
  de_drawing_id :: "32 word option"
  de_detail :: ustr

definition drawing_error_status :: "(drawing_error \<Rightarrow> byte list) \<Rightarrow> drawing_error \<Rightarrow> status_code \<Rightarrow> status" where
  "drawing_error_status encode e code =
     \<lparr>ss_code = code, ss_message = lit ''drawing operation failed'', ss_details = encode e\<rparr>"

definition drawing_error_from_status :: "(byte list \<Rightarrow> drawing_error option) \<Rightarrow> status \<Rightarrow> drawing_error option" where
  "drawing_error_from_status decode s = (if ss_details s \<noteq> [] then decode (ss_details s) else None)"

section \<open>The execution service\<close>

record exec_request =
  eq_drawing_id :: "32 word"
  eq_mode :: int
  eq_source_name :: ustr
  eq_source :: "byte list"
  eq_force :: bool

definition exec_request_new :: "drawing_id \<Rightarrow> rpc_exec_mode \<Rightarrow> source_name \<Rightarrow> byte list \<Rightarrow> bool \<Rightarrow> exec_request" where
  "exec_request_new i mode name source force =
     \<lparr>eq_drawing_id = drawing_id_to_u32 i, eq_mode = exec_mode_code mode, eq_source_name = name,
      eq_source = source, eq_force = force\<rparr>"

text \<open>The message of a client, if it is one the receiver knows.\<close>

datatype client_message = MsgRequest exec_request | MsgCancel

record rpc_source_location =
  rl_source_name :: ustr
  rl_line :: nat
  rl_column :: nat

record rpc_exec_failure =
  rf_message :: ustr
  rf_form_index :: "nat option"
  rf_location :: "rpc_source_location option"
  rf_drawing_outcome :: int
  rf_drawing_error :: int

datatype rpc_outcome = RpcSuccess | RpcFailure rpc_exec_failure | RpcCancelled

text \<open>An event of the server; \<open>Finished\<close> without an outcome, and \<open>None\<close> where an event is expected, are
  messages with the field absent or unknown.\<close>

datatype server_event =
    EvAccepted
  | EvOutput ustr
  | EvFinished "rpc_outcome option"
  | EvCancelAcknowledgement int

end
