(* ===== verification/Rpc_Request.thy ===== *)
theory Rpc_Request
  imports Rpc_Messages
begin

text \<open>
  What the plugin's execution service does with a request before and after the scheduler,
  \<open>crates/plugin/src/rpc/exec.rs\<close> and \<open>status.rs\<close>: the check of the request, the failures of a
  refused one, and the translation of outcomes and scheduler errors to the wire.  The response
  stream is in \<open>Rpc_Response\<close>.
\<close>

section \<open>Statuses\<close>

definition parse_drawing_id :: "32 word \<Rightarrow> status + drawing_id" where
  "parse_drawing_id i = (case drawing_id_try_from_u32 i of
     Some d \<Rightarrow> Inr d
   | None \<Rightarrow> Inl (status_new CodeInvalidArgument (lit ''The drawing ID is invalid'')))"

definition scheduler_error_code :: "sched_error \<Rightarrow> status_code" where
  "scheduler_error_code e = (case e of
     DrawingNotFound _ \<Rightarrow> CodeNotFound
   | ReadinessTimedOut _ \<Rightarrow> CodeDeadlineExceeded
   | CaptureCapacity \<Rightarrow> CodeResourceExhausted
   | _ \<Rightarrow> if is_internal e then CodeInternal else CodeFailedPrecondition)"

definition scheduler_error_detail :: "sched_error \<Rightarrow> ustr" where
  "scheduler_error_detail e = (case e of
     CaptureUnavailable detail \<Rightarrow> detail
   | CaptureInvalid detail \<Rightarrow> detail
   | CaptureRestoreFailed detail \<Rightarrow> detail
   | _ \<Rightarrow> [])"

definition drawing_error_of :: "sched_error \<Rightarrow> drawing_error_kind \<Rightarrow> drawing_error" where
  "drawing_error_of e kind = \<lparr>de_kind = drawing_error_code kind,
     de_drawing_id = map_option drawing_id_to_u32 (error_drawing_id e), de_detail = scheduler_error_detail e\<rparr>"

definition scheduler_error_status :: "(drawing_error \<Rightarrow> byte list) \<Rightarrow> sched_error \<Rightarrow> status" where
  "scheduler_error_status encode e = (case drawing_error_kind_of e of
     Some kind \<Rightarrow> drawing_error_status encode (drawing_error_of e kind) (scheduler_error_code e)
   | None \<Rightarrow> status_new (scheduler_error_code e) (sched_error_display e))"

section \<open>Requests\<close>

definition request_failure :: "ustr \<Rightarrow> exec_failure" where
  "request_failure message = failure_not_started (bounded_diagnostic message)"

record validated_request =
  vr_drawing_id :: drawing_id
  vr_mode :: exec_mode
  vr_source_name :: source_name
  vr_source :: "byte list"
  vr_force :: bool

definition validate_request :: "exec_request \<Rightarrow> exec_failure + validated_request" where
  "validate_request request =
     (case drawing_id_try_from_u32 (eq_drawing_id request) of
        None \<Rightarrow> Inl (request_failure (lit ''The drawing ID is invalid''))
      | Some drawing_id \<Rightarrow>
     (case source_name_new (eq_source_name request) of
        Inl SourceNameEmpty \<Rightarrow> Inl (request_failure (lit ''The source name is required''))
      | Inl SourceNameTooLong \<Rightarrow> Inl (request_failure (lit ''The source name exceeds the 4 KiB limit''))
      | Inr source_name \<Rightarrow>
     (case exec_mode_try_from (eq_mode request) of
        Some RpcEval \<Rightarrow> Inr \<lparr>vr_drawing_id = drawing_id, vr_mode = EvalMode, vr_source_name = source_name,
          vr_source = eq_source request, vr_force = eq_force request\<rparr>
      | Some RpcExec \<Rightarrow> Inr \<lparr>vr_drawing_id = drawing_id, vr_mode = ExecMode, vr_source_name = source_name,
          vr_source = eq_source request, vr_force = eq_force request\<rparr>
      | _ \<Rightarrow> Inl (request_failure (lit ''The execution mode must be eval or exec'')))))"

definition validation_failure :: "source_validation_error \<Rightarrow> source_name \<Rightarrow> exec_failure" where
  "validation_failure error source_name = (case error of
     SourceTooLarge \<Rightarrow> request_failure (lit ''The source exceeds the 4 MiB limit'')
   | InvalidUtf8 \<Rightarrow> request_failure (lit ''The source is not valid UTF-8'')
   | NullCharacter \<Rightarrow> request_failure (lit ''The source contains U+0000, which AutoLISP cannot represent'')
   | ExpectedOneForm actual \<Rightarrow>
       request_failure (lit ''eval requires exactly one top-level form; found '' @ dec_nat actual)
   | ScanFailed e \<Rightarrow> \<lparr>xf_message = scan_error_message (err_kind e), xf_form_index = None,
       xf_location = Some (location_from_scan_error source_name e),
       xf_drawing_outcome = NotStarted, xf_drawing_error = None\<rparr>)"

definition scheduler_failure :: "sched_error \<Rightarrow> exec_failure" where
  "scheduler_failure e = \<lparr>xf_message = bounded_diagnostic (sched_error_display e), xf_form_index = None,
     xf_location = None, xf_drawing_outcome = error_drawing_outcome e,
     xf_drawing_error = drawing_error_kind_of e\<rparr>"

section \<open>Outcomes on the wire\<close>

definition rpc_drawing_outcome_of :: "drawing_outcome \<Rightarrow> rpc_drawing_outcome" where
  "rpc_drawing_outcome_of d = (case d of
     NotStarted \<Rightarrow> RdoNotStarted | RolledBack \<Rightarrow> RdoRolledBack
   | Committed \<Rightarrow> RdoCommitted | OutcomeUnknown \<Rightarrow> RdoUnknown)"

definition rpc_location :: "source_location \<Rightarrow> rpc_source_location" where
  "rpc_location l = \<lparr>rl_source_name = sl_name l, rl_line = sl_line l, rl_column = sl_column l\<rparr>"

definition rpc_failure :: "exec_failure \<Rightarrow> rpc_exec_failure" where
  "rpc_failure f = \<lparr>rf_message = bounded_diagnostic (xf_message f), rf_form_index = xf_form_index f,
     rf_location = map_option rpc_location (xf_location f),
     rf_drawing_outcome = drawing_outcome_code (rpc_drawing_outcome_of (xf_drawing_outcome f)),
     rf_drawing_error = drawing_error_code
       (case xf_drawing_error f of Some k \<Rightarrow> k | None \<Rightarrow> DekUnspecified)\<rparr>"

definition rpc_outcome_of :: "exec_outcome \<Rightarrow> rpc_outcome" where
  "rpc_outcome_of out = (case out of
     OutSuccess \<Rightarrow> RpcSuccess | OutCancelled \<Rightarrow> RpcCancelled | OutFailure f \<Rightarrow> RpcFailure (rpc_failure f))"

definition finished_event :: "exec_outcome \<Rightarrow> server_event" where
  "finished_event out = EvFinished (Some (rpc_outcome_of out))"

text \<open>What the stream of an execution that has been answered ends with.\<close>

definition answer_outcome :: "sched_error + exec_outcome \<Rightarrow> exec_outcome" where
  "answer_outcome a = (case a of Inr out \<Rightarrow> out | Inl e \<Rightarrow> OutFailure (scheduler_failure e))"

section \<open>Answering the call\<close>

text \<open>A call that is answered with a stream gets either one terminal event or the events of an admitted
  execution (\<open>Rpc_Response\<close>); \<open>first\<close> is what came as the first message: an expired wait, a broken stream,
  its end, or a message whose content may be unknown.\<close>

datatype first_message = FirstTimedOut | FirstBroken status | FirstEnd | First "client_message option"

definition first_request :: "first_message \<Rightarrow> status + exec_request" where
  "first_request first = (case first of
     FirstTimedOut \<Rightarrow> Inl (status_new CodeDeadlineExceeded (lit ''The execution request was not received''))
   | FirstBroken s \<Rightarrow> Inl s
   | FirstEnd \<Rightarrow> Inl (status_new CodeInvalidArgument (lit ''The first execution message is required''))
   | First (Some (MsgRequest request)) \<Rightarrow> Inr request
   | First _ \<Rightarrow> Inl (status_new CodeInvalidArgument (lit ''The first execution message must be a request'')))"

datatype execute_reply =
    ReplyStatus status
  | ReplyTerminal server_event
  | ReplyStream job_id completion sink

definition terminal_response :: "exec_failure \<Rightarrow> execute_reply" where
  "terminal_response failure = ReplyTerminal (finished_event (OutFailure failure))"

text \<open>\<open>execute\<close> with the counter of reservations; the sink \<open>out\<close> is the fresh channel of the execution.
  Returned with the reply is the counter afterwards: an error gives the reservation back, a terminal
  response keeps it until its stream is dropped, and of an admitted execution the job keeps it - or
  nobody, if the job was answered at once.  Validation runs on another thread, which does not panic.\<close>

definition execute_admitted ::
  "(drawing_error \<Rightarrow> byte list) \<Rightarrow> host \<Rightarrow> validated_request \<Rightarrow> sink \<Rightarrow> nat \<Rightarrow> world
     \<Rightarrow> execute_reply \<times> nat \<times> world" where
  "execute_admitted encode h request out reservation w =
     (case exec_new (vr_mode request) (vr_source_name request) (vr_source request) of
        Inl error \<Rightarrow> (terminal_response (validation_failure error (vr_source_name request)), reservation, w)
      | Inr (execution, ch) \<Rightarrow>
          (case world_admit_execution h (vr_drawing_id request) execution out (vr_force request) reservation
              (w\<lparr>wd_channels := (wd_channels w)(out := ch)\<rparr>) of
             (Inr (job_id, completion), w1) \<Rightarrow>
               (ReplyStream job_id completion out,
                if ex_outcome execution = None then reservation else drop_execution_reservation reservation, w1)
           | (Inl e, w1) \<Rightarrow>
               if is_internal e
               then (ReplyStatus (scheduler_error_status encode e), drop_execution_reservation reservation, w1)
               else (terminal_response (scheduler_failure e), reservation, w1)))"

definition execute ::
  "(drawing_error \<Rightarrow> byte list) \<Rightarrow> host \<Rightarrow> first_message \<Rightarrow> sink \<Rightarrow> nat \<Rightarrow> world
     \<Rightarrow> execute_reply \<times> nat \<times> world" where
  "execute encode h first out reserved w =
     (case try_reserve_execution reserved of
        (False, n) \<Rightarrow>
          (ReplyStatus (status_new CodeResourceExhausted (lit ''Too many live execution streams'')), n, w)
      | (True, reservation) \<Rightarrow>
     (case first_request first of
        Inl s \<Rightarrow> (ReplyStatus s, drop_execution_reservation reservation, w)
      | Inr request \<Rightarrow>
     (case validate_request request of
        Inl failure \<Rightarrow> (terminal_response failure, reservation, w)
      | Inr validated \<Rightarrow> execute_admitted encode h validated out reservation w)))"

end
