(* ===== verification/Rpc_Response.thy ===== *)
theory Rpc_Response
  imports Rpc_Request
begin

text \<open>
  The response stream of an admitted execution and the task that reads the client's further
  messages, \<open>crates/plugin/src/rpc/exec.rs\<close>.  A \<open>poll\<close> is one pass of \<open>next_event\<close> over what is ready:
  the output channel, the answer of the scheduler if it has come, and the queue between the reader
  and the stream.  \<open>select!\<close> is \<open>biased\<close>: control before output, control before completion.
\<close>

section \<open>The stream\<close>

datatype response_phase = RpSendAccepted | RpRelayOutput | RpAwaitCompletion | RpDone

text \<open>The receiving end of the control channel: what is queued, and whether the sender is gone.\<close>

type_synonym control_queue = "(status + cancel_disposition) list \<times> bool"

record response =
  rs_control :: "control_queue option"
  rs_control_aborted :: bool
  rs_phase :: response_phase

definition new_response :: response where
  "new_response = \<lparr>rs_control = Some ([], False), rs_control_aborted = False, rs_phase = RpSendAccepted\<rparr>"

datatype poll = PollEvent server_event | PollFailed status | PollEnd | PollAgain | PollPending

type_synonym exec_answer = "sched_error + exec_outcome"

definition handle_control ::
  "(status + cancel_disposition) option \<Rightarrow> response \<Rightarrow> poll \<times> response" where
  "handle_control c r = (case c of
     None \<Rightarrow> (PollAgain, r\<lparr>rs_control := None\<rparr>)
   | Some (Inr d) \<Rightarrow> (PollEvent (EvCancelAcknowledgement (cancel_disposition_code d)), r)
   | Some (Inl s) \<Rightarrow> (PollFailed s, r))"

text \<open>\<open>control.recv()\<close>: a message, the end once the sender is gone, or nothing yet (\<open>None\<close>).\<close>

definition control_recv :: "response \<Rightarrow> ((status + cancel_disposition) option \<times> response) option" where
  "control_recv r = (case rs_control r of
     None \<Rightarrow> None
   | Some (c # cs, closed) \<Rightarrow> Some (Some c, r\<lparr>rs_control := Some (cs, closed)\<rparr>)
   | Some ([], True) \<Rightarrow> Some (None, r)
   | Some ([], False) \<Rightarrow> None)"

definition relay_output :: "channel \<Rightarrow> response \<Rightarrow> poll \<times> channel \<times> response" where
  "relay_output ch r = (case stream_next_chunk ch of
     (ChunkReady chunk, ch1, _) \<Rightarrow> (PollEvent (EvOutput chunk), ch1, r)
   | (ChunkEnd, ch1, _) \<Rightarrow> (PollAgain, ch1, r\<lparr>rs_phase := RpAwaitCompletion\<rparr>)
   | (ChunkWait, ch1, _) \<Rightarrow> (PollPending, ch1, r))"

definition finish_response :: "exec_answer option \<Rightarrow> response \<Rightarrow> poll \<times> response" where
  "finish_response answer r = (case answer of
     None \<Rightarrow> (PollPending, r)
   | Some a \<Rightarrow> (PollEvent (finished_event (answer_outcome a)),
       r\<lparr>rs_control_aborted := True, rs_phase := RpDone\<rparr>))"

text \<open>One turn of the loop in \<open>next_event\<close>.\<close>

definition response_turn :: "channel \<Rightarrow> exec_answer option \<Rightarrow> response \<Rightarrow> poll \<times> channel \<times> response" where
  "response_turn ch answer r = (case rs_phase r of
     RpSendAccepted \<Rightarrow> (PollEvent EvAccepted, ch, r\<lparr>rs_phase := RpRelayOutput\<rparr>)
   | RpRelayOutput \<Rightarrow>
       (case control_recv r of
          Some (c, r1) \<Rightarrow> (case handle_control c r1 of (p, r2) \<Rightarrow> (p, ch, r2))
        | None \<Rightarrow> relay_output ch r)
   | RpAwaitCompletion \<Rightarrow>
       (case control_recv r of
          Some (c, r1) \<Rightarrow> (case handle_control c r1 of (p, r2) \<Rightarrow> (p, ch, r2))
        | None \<Rightarrow> (case finish_response answer r of (p, r1) \<Rightarrow> (p, ch, r1)))
   | RpDone \<Rightarrow> (PollEnd, ch, r))"

text \<open>A turn that goes round again closes the control or moves on to the completion.\<close>

definition turns_left :: "response \<Rightarrow> nat" where
  "turns_left r = (if rs_control r = None then 0 else 1) + (if rs_phase r = RpRelayOutput then 1 else 0)"

lemma response_turn_again:
  "response_turn ch answer r = (PollAgain, ch1, r1) \<Longrightarrow> turns_left r1 < turns_left r"
  by (auto simp: response_turn_def relay_output_def finish_response_def handle_control_def control_recv_def
      turns_left_def split: response_phase.splits option.splits prod.splits chunk_turn.splits list.splits
      bool.splits sum.splits)

function next_event :: "channel \<Rightarrow> exec_answer option \<Rightarrow> response \<Rightarrow> poll \<times> channel \<times> response" where
  "next_event ch answer r = (case response_turn ch answer r of
     (PollAgain, ch1, r1) \<Rightarrow> next_event ch1 answer r1
   | other \<Rightarrow> other)"
  by pat_completeness auto
termination
  by (relation "measure (\<lambda>(_, _, r). turns_left r)") (auto dest!: sym [of _ "response_turn _ _ _"] dest: response_turn_again)

declare next_event.simps [simp del]

text \<open>\<open>execution_response\<close>: \<open>try_unfold\<close> over \<open>next_event\<close>.  A failure or the end drops the state, which
  aborts the reader and drops the output stream; after it the stream only ends.\<close>

definition poll_response ::
  "exec_answer option \<Rightarrow> channel \<times> response option \<Rightarrow> poll \<times> channel \<times> response option" where
  "poll_response answer st = (case st of
     (ch, None) \<Rightarrow> (PollEnd, ch, None)
   | (ch, Some r) \<Rightarrow>
       (case next_event ch answer r of
          (PollFailed s, ch1, _) \<Rightarrow> (PollFailed s, fst (stream_drop ch1), None)
        | (PollEnd, ch1, _) \<Rightarrow> (PollEnd, fst (stream_drop ch1), None)
        | (p, ch1, r1) \<Rightarrow> (p, ch1, Some r1)))"

section \<open>The reader of the client's messages\<close>

text \<open>What the stream of the client yields next: a message (whose content may be unknown), its end, or
  an error of the transport.\<close>

datatype inbound = InMessage "client_message option" | InEnd | InError status

text \<open>The reader waits for a message, waits for room in the control channel (and returns afterwards, if
  so marked), or has returned.\<close>

datatype reader_state = Reading | Sending "status + cancel_disposition" bool | ReaderReturned

record reader =
  rd_state :: reader_state
  rd_disposition :: "cancel_disposition option"

definition new_reader :: reader where
  "new_reader = \<lparr>rd_state = Reading, rd_disposition = None\<rparr>"

definition cancel_reply :: "cancel_result \<Rightarrow> status + cancel_disposition" where
  "cancel_reply c = (case c of
     CancelAccepted \<Rightarrow> Inr CdAccepted
   | CancelTooLate \<Rightarrow> Inr CdTooLate
   | CancelNotFound \<Rightarrow> Inr CdTooLate
   | CancelUnavailable \<Rightarrow> Inl (status_new CodeInternal (lit ''Execution cancellation state is unavailable'')))"

text \<open>Whether the next message makes the reader call \<open>cancel_execution\<close>.\<close>

definition asks_to_cancel :: "inbound \<Rightarrow> reader \<Rightarrow> bool" where
  "asks_to_cancel i rd \<longleftrightarrow> rd_state rd = Reading \<and> i = InMessage (Some MsgCancel) \<and> rd_disposition rd = None"

text \<open>One pass of the reader's loop up to its next wait; \<open>c\<close> is what \<open>cancel_execution\<close> answers if it is
  asked.\<close>

definition reader_read :: "cancel_result \<Rightarrow> inbound \<Rightarrow> reader \<Rightarrow> reader" where
  "reader_read c i rd = (case i of
     InEnd \<Rightarrow> rd\<lparr>rd_state := ReaderReturned\<rparr>
   | InError s \<Rightarrow> rd\<lparr>rd_state := Sending (Inl s) True\<rparr>
   | InMessage m \<Rightarrow>
       if m \<noteq> Some MsgCancel then
         rd\<lparr>rd_state := Sending (Inl (status_new CodeInvalidArgument
           (lit ''Only Cancel is valid after the execution request''))) True\<rparr>
       else if rd_disposition rd \<noteq> None then rd
       else (case cancel_reply c of
           Inl s \<Rightarrow> rd\<lparr>rd_state := Sending (Inl s) True\<rparr>
         | Inr d \<Rightarrow> \<lparr>rd_state = Sending (Inr d) False, rd_disposition = Some d\<rparr>))"

text \<open>\<open>sender.send\<close> on the channel of capacity one: refused once the receiver is gone, put off while a
  message is queued.\<close>

definition control_capacity :: nat where
  "control_capacity = 1"

definition reader_send :: "control_queue option \<Rightarrow> reader \<Rightarrow> control_queue option \<times> reader" where
  "reader_send q rd = (case rd_state rd of
     Sending m stop \<Rightarrow>
       (case q of
          None \<Rightarrow> (None, rd\<lparr>rd_state := ReaderReturned\<rparr>)
        | Some (cs, closed) \<Rightarrow>
            if length cs < control_capacity
            then (Some (cs @ [m], closed), rd\<lparr>rd_state := if stop then ReaderReturned else Reading\<rparr>)
            else (q, rd))
   | _ \<Rightarrow> (q, rd))"

text \<open>A reader that has returned has dropped its sender.\<close>

definition close_sender :: "reader \<Rightarrow> control_queue option \<Rightarrow> control_queue option" where
  "close_sender rd q = (if rd_state rd = ReaderReturned then map_option (\<lambda>(cs, _). (cs, True)) q else q)"

section \<open>A call\<close>

text \<open>An execution call from its admission: the channel, the answer once the scheduler has given it, the
  stream (\<open>None\<close> once it is dropped), the reader, and what has been sent: events, then perhaps one
  status.  \<open>ca_accepted\<close> is the text the channel took, \<open>ca_cancels\<close> counts calls of \<open>cancel_execution\<close>.\<close>

record call =
  ca_channel :: channel
  ca_answer :: "exec_answer option"
  ca_response :: "response option"
  ca_reader :: reader
  ca_sent :: "server_event list"
  ca_status :: "status option"
  ca_accepted :: ustr
  ca_cancels :: nat

definition new_call :: "channel \<Rightarrow> call" where
  "new_call ch = \<lparr>ca_channel = ch, ca_answer = None, ca_response = Some new_response, ca_reader = new_reader,
     ca_sent = [], ca_status = None, ca_accepted = [], ca_cancels = 0\<rparr>"

text \<open>The moves of the parties: the producers and the scheduler use the channel, the scheduler answers,
  the client's next message arrives (with what the scheduler says if it is asked to cancel), the reader
  gets to send, the transport polls the stream, or drops it.\<close>

datatype call_move =
    MvProduce chan_op
  | MvAnswer exec_answer
  | MvInbound inbound cancel_result
  | MvSend
  | MvPoll
  | MvDrop

definition reader_alive :: "call \<Rightarrow> bool" where
  "reader_alive c \<longleftrightarrow> (case ca_response c of Some r \<Rightarrow> \<not> rs_control_aborted r | None \<Rightarrow> False)"

definition record_poll :: "poll \<times> channel \<times> response option \<Rightarrow> call \<Rightarrow> call" where
  "record_poll t c = (case t of (p, ch, r) \<Rightarrow>
     (let c1 = c\<lparr>ca_channel := ch, ca_response := r\<rparr> in
      case p of
        PollEvent e \<Rightarrow> c1\<lparr>ca_sent := ca_sent c @ [e]\<rparr>
      | PollFailed s \<Rightarrow> c1\<lparr>ca_status := Some s\<rparr>
      | _ \<Rightarrow> c1))"

definition with_control :: "(control_queue option \<Rightarrow> reader \<Rightarrow> control_queue option \<times> reader) \<Rightarrow> call \<Rightarrow> call" where
  "with_control f c = (case ca_response c of
     None \<Rightarrow> c
   | Some r \<Rightarrow> (case f (rs_control r) (ca_reader c) of (q, rd) \<Rightarrow>
       c\<lparr>ca_response := Some (r\<lparr>rs_control := close_sender rd q\<rparr>), ca_reader := rd\<rparr>))"

definition call_apply :: "call_move \<Rightarrow> call \<Rightarrow> call" where
  "call_apply m c = (case m of
     MvProduce op \<Rightarrow> c\<lparr>ca_channel := fst (chan_apply op (ca_channel c)),
       ca_accepted := ca_accepted c @ op_accepts op (ca_channel c)\<rparr>
   | MvAnswer a \<Rightarrow> c\<lparr>ca_answer := get_or_insert (ca_answer c) a\<rparr>
   | MvInbound i d \<Rightarrow>
       if reader_alive c \<and> rd_state (ca_reader c) = Reading
       then with_control (\<lambda>q rd. (q, reader_read d i rd))
         (c\<lparr>ca_cancels := ca_cancels c + (if asks_to_cancel i (ca_reader c) then 1 else 0)\<rparr>)
       else c
   | MvSend \<Rightarrow> if reader_alive c then with_control reader_send c else c
   | MvPoll \<Rightarrow> record_poll (poll_response (ca_answer c) (ca_channel c, ca_response c)) c
   | MvDrop \<Rightarrow> (if ca_response c = None then c
       else c\<lparr>ca_response := None, ca_channel := fst (stream_drop (ca_channel c))\<rparr>))"

fun call_run :: "call_move list \<Rightarrow> call \<Rightarrow> call" where
  "call_run [] c = c"
| "call_run (m # ms) c = call_run ms (call_apply m c)"

end
