(* ===== verification/Rpc_Protocol.thy ===== *)
theory Rpc_Protocol
  imports Rpc_Response
begin

text \<open>
  The protocol between the plugin and a client of an execution, as an automaton over the events of a
  response, and the proof that every response stream of the plugin follows it, whatever the order in
  which channel, scheduler, reader and transport get to move.
\<close>

section \<open>The protocol\<close>

text \<open>Nothing sent, execution accepted (and whether a cancellation was acknowledged), finished.\<close>

datatype stage = StNew | StOpen bool | StClosed

fun protocol_step :: "stage \<Rightarrow> server_event \<Rightarrow> stage option" where
  "protocol_step StNew EvAccepted = Some (StOpen False)"
| "protocol_step StNew (EvFinished (Some (RpcFailure f))) = Some StClosed"
| "protocol_step (StOpen acked) (EvOutput chunk) =
     (if chunk \<noteq> [] \<and> byte_len chunk \<le> OUTPUT_CHUNK_BYTES then Some (StOpen acked) else None)"
| "protocol_step (StOpen False) (EvCancelAcknowledgement n) =
     (if n = cancel_disposition_code CdAccepted \<or> n = cancel_disposition_code CdTooLate
      then Some (StOpen True) else None)"
| "protocol_step (StOpen acked) (EvFinished (Some out)) = Some StClosed"
| "protocol_step _ _ = None"

fun protocol_from :: "stage \<Rightarrow> server_event list \<Rightarrow> stage option" where
  "protocol_from g [] = Some g"
| "protocol_from g (e # es) = Option.bind (protocol_step g e) (\<lambda>g1. protocol_from g1 es)"

definition protocol :: "server_event list \<Rightarrow> stage option" where
  "protocol = protocol_from StNew"

lemma protocol_from_append:
  "protocol_from g (es @ fs) = Option.bind (protocol_from g es) (\<lambda>g1. protocol_from g1 fs)"
  by (induction es arbitrary: g) (auto split: Option.bind_splits)

lemma protocol_snoc: "protocol es = Some g \<Longrightarrow> protocol (es @ [e]) = protocol_step g e"
  by (simp add: protocol_def protocol_from_append)

lemma protocol_Nil [simp]: "protocol [] = Some StNew"
  by (simp add: protocol_def)

lemma protocol_step_not_new: "protocol_step g e \<noteq> Some StNew"
  by (cases "(g, e)" rule: protocol_step.cases) auto

lemma protocol_new: "protocol es = Some StNew \<Longrightarrow> es = []"
proof (cases es rule: rev_cases)
  case (snoc fs e)
  assume "protocol es = Some StNew"
  with snoc have "Option.bind (protocol fs) (\<lambda>g. protocol_step g e) = Some StNew"
    by (simp add: protocol_def protocol_from_append)
  with protocol_step_not_new show ?thesis by (auto simp: Option.bind_eq_Some_conv)
qed

text \<open>What the events carry.\<close>

fun event_text :: "server_event list \<Rightarrow> ustr" where
  "event_text [] = []"
| "event_text (EvOutput chunk # es) = chunk @ event_text es"
| "event_text (_ # es) = event_text es"

fun ack_codes :: "server_event list \<Rightarrow> int list" where
  "ack_codes [] = []"
| "ack_codes (EvCancelAcknowledgement n # es) = n # ack_codes es"
| "ack_codes (_ # es) = ack_codes es"

lemma event_text_append [simp]: "event_text (es @ fs) = event_text es @ event_text fs"
  by (induction es rule: event_text.induct) auto

lemma ack_codes_append [simp]: "ack_codes (es @ fs) = ack_codes es @ ack_codes fs"
  by (induction es rule: ack_codes.induct) auto

section \<open>Text through the channel\<close>

definition flows :: "server_event list \<Rightarrow> channel \<Rightarrow> ustr \<Rightarrow> bool" where
  "flows sent ch accepted \<longleftrightarrow> channel_ok ch \<and> (ch_terminal ch \<noteq> None \<longrightarrow> ch_pending ch = [])
     \<and> (\<exists>lost. event_text sent @ content ch @ lost = accepted
          \<and> (lost \<noteq> [] \<longrightarrow> content ch = [] \<and> 3 \<le> terminal_rank (ch_terminal ch)))"

lemma flows_new: "flows [] new_channel []"
  using channel_consts by (simp add: flows_def new_channel_def channel_ok_def content_def)

lemma terminal_rank_0 [simp]: "0 < terminal_rank t \<longleftrightarrow> t \<noteq> None" "terminal_rank t = 0 \<longleftrightarrow> t = None"
  by (auto simp: terminal_rank_def split: option.splits terminal_state.splits)

lemma discard_output_fields [simp]:
  "ch_pending (discard_output ch) = []" "ch_ready (discard_output ch) = []"
  by (simp_all add: discard_output_def)

text \<open>Ending a channel publishes or discards what was pending.\<close>

lemma chan_apply_flushed:
  assumes "channel_ok ch" and "op_valid op" and "ch_terminal ch \<noteq> None \<longrightarrow> ch_pending ch = []"
  shows "ch_terminal (fst (chan_apply op ch)) \<noteq> None \<longrightarrow> ch_pending (fst (chan_apply op ch)) = []"
proof (cases op)
  case (OpEmit "text")
  obtain t ch1 w where e: "emit_turn ch text = (t, ch1, w)" using prod_cases3 by blast
  have same: "ch_terminal ch1 = ch_terminal ch"
    using emit_turn_cases(2) [OF assms(1) _ e] OpEmit assms(2) by (simp add: op_valid_def)
  have "ch_terminal ch \<noteq> None \<Longrightarrow> ch1 = ch" using e by (auto simp: emit_turn_def)
  with same assms(3) OpEmit e show ?thesis by (auto simp: chan_apply_def)
next
  case OpNext
  then show ?thesis using assms(3)
    by (auto simp: chan_apply_def stream_next_chunk_def split: list.splits)
qed (use assms(3) in \<open>auto simp: channel_op_defs chan_simps\<close>)

lemma flows_apply:
  assumes "flows sent ch accepted" and "op_valid op"
  shows "\<exists>lost. event_text sent @ op_delivers op ch @ content (fst (chan_apply op ch)) @ lost
      = accepted @ op_accepts op ch
    \<and> (lost \<noteq> [] \<longrightarrow> content (fst (chan_apply op ch)) = [] \<and> 3 \<le> terminal_rank (ch_terminal (fst (chan_apply op ch))))"
proof -
  let ?ch = "fst (chan_apply op ch)"
  have ok: "channel_ok ch" using assms(1) by (simp add: flows_def)
  obtain l0 where l0: "event_text sent @ content ch @ l0 = accepted"
      "l0 \<noteq> [] \<longrightarrow> content ch = [] \<and> 3 \<le> terminal_rank (ch_terminal ch)"
    using assms(1) by (auto simp: flows_def)
  obtain l1 where l1: "op_delivers op ch @ content ?ch @ l1 = content ch @ op_accepts op ch"
      "l1 \<noteq> [] \<longrightarrow> content ?ch = [] \<and> 3 \<le> terminal_rank (ch_terminal ?ch)"
    using chan_apply_fifo [OF ok assms(2)] by blast
  note mono = terminal_rank_mono [OF ok assms(2)]
  show ?thesis
  proof (cases "l0 = []")
    case True
    then have "event_text sent @ op_delivers op ch @ content ?ch @ l1 = accepted @ op_accepts op ch"
      using l0(1) l1(1) by (metis append.assoc append_Nil2)
    with l1(2) show ?thesis by blast
  next
    case False
    with l0(2) have e: "content ch = []" "3 \<le> terminal_rank (ch_terminal ch)" by simp_all
    then have "ch_terminal ch \<noteq> None" by (metis terminal_rank_0(2) not_numeral_le_zero)
    then have a: "op_accepts op ch = []" using op_accepts_ended [OF assms(2)] by simp
    with l1(1) e(1) have "op_delivers op ch = []" "content ?ch = []" by auto
    with a l0(1) e mono show ?thesis by (intro exI [of _ l0]) auto
  qed
qed

lemma flows_produce:
  assumes "flows sent ch accepted" and "op_valid op" and "op \<noteq> OpNext"
  shows "flows sent (fst (chan_apply op ch)) (accepted @ op_accepts op ch)"
proof -
  have ok: "channel_ok ch" "ch_terminal ch \<noteq> None \<longrightarrow> ch_pending ch = []" using assms(1) by (simp_all add: flows_def)
  have "op_delivers op ch = []" using assms(3) by (auto simp: op_delivers_def split: chan_op.splits)
  with flows_apply [OF assms(1,2)] chan_apply_ok [OF ok(1) assms(2)] chan_apply_flushed [OF ok(1) assms(2) ok(2)]
  show ?thesis by (auto simp: flows_def)
qed

lemma flows_next:
  assumes "flows sent ch accepted" and "stream_next_chunk ch = (t, ch1, w)"
  shows "flows (sent @ (case t of ChunkReady chunk \<Rightarrow> [EvOutput chunk] | _ \<Rightarrow> [])) ch1 accepted"
proof -
  have ok: "channel_ok ch" "ch_terminal ch \<noteq> None \<longrightarrow> ch_pending ch = []" using assms(1) by (simp_all add: flows_def)
  have v: "op_valid OpNext" by (simp add: op_valid_def)
  have c: "fst (chan_apply OpNext ch) = ch1" "op_accepts OpNext ch = []"
      "op_delivers OpNext ch = (case t of ChunkReady chunk \<Rightarrow> chunk | _ \<Rightarrow> [])"
    using assms(2) by (simp_all add: chan_apply_def op_accepts_def op_delivers_def)
  from flows_apply [OF assms(1) v] chan_apply_ok [OF ok(1) v] chan_apply_flushed [OF ok(1) v ok(2)]
  show ?thesis unfolding c by (cases t) (auto simp: flows_def)
qed

lemma flows_drop: "flows sent ch accepted \<Longrightarrow> flows sent (fst (stream_drop ch)) accepted"
  using flows_produce [of sent ch accepted OpDropStream]
  by (simp add: chan_apply_def op_accepts_def op_valid_def)

end
