(* ===== verification/Rpc_Stream.thy ===== *)
theory Rpc_Stream
  imports Rpc_Protocol
begin

text \<open>
  The invariant of a call: its events follow the protocol in step with the phase of the response, carry
  the text that went through the channel, and hold at most the one acknowledgement the reader made.
\<close>

section \<open>The invariant\<close>

definition queue_codes :: "control_queue option \<Rightarrow> int list" where
  "queue_codes q = (case q of None \<Rightarrow> []
     | Some (cs, _) \<Rightarrow> concat (map (\<lambda>m. case m of Inr d \<Rightarrow> [cancel_disposition_code d] | Inl _ \<Rightarrow> []) cs))"

definition sending_codes :: "reader \<Rightarrow> int list" where
  "sending_codes rd = (case rd_state rd of Sending (Inr d) _ \<Rightarrow> [cancel_disposition_code d] | _ \<Rightarrow> [])"

definition disposition_codes :: "reader \<Rightarrow> int list" where
  "disposition_codes rd = (case rd_disposition rd of None \<Rightarrow> [] | Some d \<Rightarrow> [cancel_disposition_code d])"

text \<open>Every acknowledgement is the reader's one disposition, sent or on its way (or lost with the stream).\<close>

definition acks_ok :: "server_event list \<Rightarrow> control_queue option \<Rightarrow> reader \<Rightarrow> bool" where
  "acks_ok sent q rd \<longleftrightarrow> rd_disposition rd \<noteq> Some CdUnspecified
     \<and> (\<exists>rest. ack_codes sent @ queue_codes q @ sending_codes rd @ rest = disposition_codes rd)"

definition acks_kept :: "server_event list \<Rightarrow> reader \<Rightarrow> bool" where
  "acks_kept sent rd \<longleftrightarrow> rd_disposition rd \<noteq> Some CdUnspecified
     \<and> (\<exists>rest. ack_codes sent @ rest = disposition_codes rd)"

definition stage_of :: "response \<Rightarrow> server_event list \<Rightarrow> stage" where
  "stage_of r sent = (case rs_phase r of
     RpSendAccepted \<Rightarrow> StNew | RpDone \<Rightarrow> StClosed | _ \<Rightarrow> StOpen (ack_codes sent \<noteq> []))"

definition finished_with :: "exec_answer option \<Rightarrow> server_event list \<Rightarrow> bool" where
  "finished_with answer sent \<longleftrightarrow> (\<exists>a es. answer = Some a \<and> sent = es @ [finished_event (answer_outcome a)])"

definition drained :: "channel \<Rightarrow> bool" where
  "drained ch \<longleftrightarrow> ch_terminal ch \<noteq> None \<and> ch_ready ch = []"

definition in_step :: "server_event list \<Rightarrow> exec_answer option \<Rightarrow> channel \<Rightarrow> response \<Rightarrow> bool" where
  "in_step sent answer ch r \<longleftrightarrow> protocol sent = Some (stage_of r sent)
     \<and> (rs_phase r \<in> {RpAwaitCompletion, RpDone} \<longrightarrow> drained ch)
     \<and> (rs_phase r = RpSendAccepted \<longrightarrow> ack_codes sent = [])
     \<and> (rs_phase r = RpDone \<longrightarrow> finished_with answer sent)"

definition stream_ok ::
  "server_event list \<Rightarrow> exec_answer option \<Rightarrow> ustr \<Rightarrow> reader \<Rightarrow> channel \<Rightarrow> response \<Rightarrow> bool" where
  "stream_ok sent answer accepted rd ch r \<longleftrightarrow>
     flows sent ch accepted \<and> acks_ok sent (rs_control r) rd \<and> in_step sent answer ch r"

text \<open>What is left of it once the stream is dropped: whatever was sent stays within the protocol, and a
  stream that had finished had sent everything.\<close>

definition sent_ok :: "server_event list \<Rightarrow> exec_answer option \<Rightarrow> ustr \<Rightarrow> reader \<Rightarrow> channel \<Rightarrow> bool" where
  "sent_ok sent answer accepted rd ch \<longleftrightarrow> flows sent ch accepted \<and> acks_kept sent rd
     \<and> (\<exists>g. protocol sent = Some g \<and> (g = StClosed \<longrightarrow> finished_with answer sent))"

lemma disposition_codes_le: "length (disposition_codes rd) \<le> 1"
  by (simp add: disposition_codes_def split: option.splits)

lemma acks_first:
  assumes "acks_ok sent (Some (Inr d # cs, closed)) rd"
  shows "ack_codes sent = []" and "d = CdAccepted \<or> d = CdTooLate"
    and "acks_ok (sent @ [EvCancelAcknowledgement (cancel_disposition_code d)]) (Some (cs, closed)) rd"
proof -
  from assms obtain rest where r: "ack_codes sent @ cancel_disposition_code d
      # queue_codes (Some (cs, closed)) @ sending_codes rd @ rest = disposition_codes rd"
    by (auto simp: acks_ok_def queue_codes_def)
  moreover have "length (ack_codes sent) + 1 \<le> length (disposition_codes rd)"
    unfolding r [symmetric] by simp
  ultimately show n: "ack_codes sent = []"
    using disposition_codes_le [of rd] by (cases "ack_codes sent") auto
  obtain x where x: "rd_disposition rd = Some x"
    using r by (cases "rd_disposition rd") (auto simp: disposition_codes_def)
  with r n have c: "cancel_disposition_code d = cancel_disposition_code x" by (simp add: disposition_codes_def)
  have "d = x" using c by (metis cancel_disposition_codes option.inject)
  then show "d = CdAccepted \<or> d = CdTooLate" using assms x by (cases d) (auto simp: acks_ok_def)
  from r assms show "acks_ok (sent @ [EvCancelAcknowledgement (cancel_disposition_code d)]) (Some (cs, closed)) rd"
    by (auto simp: acks_ok_def)
qed

lemma acks_dropped: "acks_ok sent q rd \<Longrightarrow> acks_kept sent rd"
  by (auto simp: acks_ok_def acks_kept_def)

lemma stream_sent: "stream_ok sent answer accepted rd ch r \<Longrightarrow> sent_ok sent answer accepted rd ch"
  by (auto simp: stream_ok_def sent_ok_def in_step_def stage_of_def dest: acks_dropped
      split: response_phase.splits)

lemma sent_drop: "sent_ok sent answer accepted rd ch \<Longrightarrow> sent_ok sent answer accepted rd (fst (stream_drop ch))"
  by (simp add: sent_ok_def flows_drop)

section \<open>Turns and polls\<close>

definition sent_by :: "poll \<Rightarrow> server_event list" where
  "sent_by p = (case p of PollEvent e \<Rightarrow> [e] | _ \<Rightarrow> [])"

lemma control_recv_cases:
  obtains (none) "control_recv r = None"
    | (ended) "rs_control r = Some ([], True)" "control_recv r = Some (None, r)"
    | (some) c cs closed where "rs_control r = Some (c # cs, closed)"
        "control_recv r = Some (Some c, r\<lparr>rs_control := Some (cs, closed)\<rparr>)"
proof (cases "rs_control r")
  case None
  then show thesis by (intro none) (simp add: control_recv_def)
next
  case (Some q)
  obtain cs closed where q: "q = (cs, closed)" by (cases q)
  show thesis
  proof (cases cs)
    case Nil
    with Some q none ended show thesis by (cases closed) (simp_all add: control_recv_def)
  next
    case (Cons c ds)
    with Some q show thesis by (intro some) (simp_all add: control_recv_def)
  qed
qed

lemma acks_tail: "acks_ok sent (Some (Inl s # cs, closed)) rd \<Longrightarrow> acks_ok sent (Some (cs, closed)) rd"
  by (simp add: acks_ok_def queue_codes_def)

lemma acks_closed: "acks_ok sent (Some ([], closed)) rd \<Longrightarrow> acks_ok sent None rd"
  by (simp add: acks_ok_def queue_codes_def)

lemma handle_control_ok:
  assumes "stream_ok sent answer accepted rd ch r" and "rs_phase r \<in> {RpRelayOutput, RpAwaitCompletion}"
    and "control_recv r = Some (c, r1)" and "handle_control c r1 = (p, r2)"
  shows "stream_ok (sent @ sent_by p) answer accepted rd ch r2"
proof -
  have fl: "flows sent ch accepted" and ac: "acks_ok sent (rs_control r) rd" and st: "in_step sent answer ch r"
    using assms(1) by (simp_all add: stream_ok_def)
  show ?thesis
  proof (cases r rule: control_recv_cases)
    case none
    with assms(3) show ?thesis by simp
  next
    case ended
    with assms(3,4) have "r2 = r\<lparr>rs_control := None\<rparr>" "p = PollAgain" by (auto simp: handle_control_def)
    with fl ac st ended show ?thesis
      by (auto simp: stream_ok_def sent_by_def in_step_def stage_of_def dest: acks_closed)
  next
    case (some x cs closed)
    with assms(3) have cr: "c = Some x" "r1 = r\<lparr>rs_control := Some (cs, closed)\<rparr>" by simp_all
    show ?thesis
    proof (cases x)
      case (Inl s)
      with cr assms(4) have "r2 = r1" "p = PollFailed s" by (auto simp: handle_control_def)
      with fl ac st some cr Inl show ?thesis
        by (auto simp: stream_ok_def sent_by_def in_step_def stage_of_def intro: acks_tail)
    next
      case (Inr d)
      let ?e = "EvCancelAcknowledgement (cancel_disposition_code d)"
      from cr Inr assms(4) have o: "r2 = r1" "p = PollEvent ?e" by (auto simp: handle_control_def)
      note af = acks_first [OF ac [unfolded some(1) Inr]]
      have "protocol sent = Some (StOpen False)"
        using st assms(2) af(1) by (auto simp: in_step_def stage_of_def)
      with af(2) have "protocol (sent @ [?e]) = Some (StOpen True)" by (auto simp: protocol_snoc)
      with st assms(2) have "in_step (sent @ [?e]) answer ch r1"
        by (auto simp: in_step_def stage_of_def cr)
      moreover have "flows (sent @ [?e]) ch accepted" using fl by (simp add: flows_def)
      ultimately show ?thesis using af(3) o cr by (simp add: stream_ok_def sent_by_def)
    qed
  qed
qed

lemma relay_output_ok:
  assumes "stream_ok sent answer accepted rd ch r" and "rs_phase r = RpRelayOutput"
    and "relay_output ch r = (p, ch1, r1)"
  shows "stream_ok (sent @ sent_by p) answer accepted rd ch1 r1"
proof -
  have fl: "flows sent ch accepted" and ac: "acks_ok sent (rs_control r) rd" and st: "in_step sent answer ch r"
    using assms(1) by (simp_all add: stream_ok_def)
  obtain t c w where n: "stream_next_chunk ch = (t, c, w)" using prod_cases3 by blast
  note fn = flows_next [OF fl n]
  have pr: "protocol sent = Some (StOpen (ack_codes sent \<noteq> []))" using st assms(2) by (simp add: in_step_def stage_of_def)
  show ?thesis
  proof (cases t)
    case (ChunkReady chunk)
    have "chunk \<noteq> [] \<and> byte_len chunk \<le> OUTPUT_CHUNK_BYTES"
      using next_chunk_ok [OF _ n] fl ChunkReady by (simp add: flows_def)
    with pr have "protocol (sent @ [EvOutput chunk]) = Some (StOpen (ack_codes sent \<noteq> []))"
      by (simp add: protocol_snoc)
    with fn ac assms(2,3) n ChunkReady show ?thesis
      by (auto simp: relay_output_def stream_ok_def sent_by_def in_step_def stage_of_def acks_ok_def)
  next
    case ChunkEnd
    then have "drained ch" "c = ch" using n by (auto simp: stream_next_chunk_def drained_def split: list.splits if_splits)
    with fn ac pr assms(2,3) n ChunkEnd show ?thesis
      by (auto simp: relay_output_def stream_ok_def sent_by_def in_step_def stage_of_def)
  next
    case ChunkWait
    with fn ac st n assms(2,3) show ?thesis
      by (auto simp: relay_output_def stream_ok_def sent_by_def in_step_def stage_of_def)
  qed
qed

lemma finish_response_ok:
  assumes "stream_ok sent answer accepted rd ch r" and "rs_phase r = RpAwaitCompletion"
    and "finish_response answer r = (p, r1)"
  shows "stream_ok (sent @ sent_by p) answer accepted rd ch r1"
proof (cases answer)
  case None
  with assms show ?thesis by (auto simp: finish_response_def sent_by_def)
next
  case (Some a)
  have fl: "flows sent ch accepted" and ac: "acks_ok sent (rs_control r) rd" and st: "in_step sent answer ch r"
    using assms(1) by (simp_all add: stream_ok_def)
  let ?e = "finished_event (answer_outcome a)"
  have "protocol sent = Some (StOpen (ack_codes sent \<noteq> []))" using st assms(2) by (simp add: in_step_def stage_of_def)
  then have "protocol (sent @ [?e]) = Some StClosed" by (simp add: protocol_snoc finished_event_def)
  moreover have "ack_codes (sent @ [?e]) = ack_codes sent" "event_text (sent @ [?e]) = event_text sent"
    by (simp_all add: finished_event_def)
  ultimately show ?thesis using Some fl ac st assms(2,3)
    by (auto simp: finish_response_def sent_by_def stream_ok_def flows_def acks_ok_def in_step_def stage_of_def
        finished_with_def)
qed

lemma response_turn_ok:
  assumes "stream_ok sent answer accepted rd ch r" and "response_turn ch answer r = (p, ch1, r1)"
  shows "stream_ok (sent @ sent_by p) answer accepted rd ch1 r1"
proof (cases "rs_phase r")
  case RpSendAccepted
  with assms have "protocol sent = Some StNew" "ack_codes sent = []"
    by (simp_all add: stream_ok_def in_step_def stage_of_def)
  then have "protocol (sent @ [EvAccepted]) = Some (StOpen False)" by (simp add: protocol_snoc)
  with RpSendAccepted assms \<open>ack_codes sent = []\<close> show ?thesis
    by (auto simp: response_turn_def stream_ok_def sent_by_def flows_def acks_ok_def in_step_def stage_of_def)
next
  case RpRelayOutput
  then show ?thesis using assms relay_output_ok [OF assms(1)] handle_control_ok [OF assms(1)]
    by (auto simp: response_turn_def split: option.splits prod.splits)
next
  case RpAwaitCompletion
  then show ?thesis using assms finish_response_ok [OF assms(1)] handle_control_ok [OF assms(1)]
    by (auto simp: response_turn_def split: option.splits prod.splits)
next
  case RpDone
  with assms show ?thesis by (auto simp: response_turn_def sent_by_def)
qed

lemma next_event_ok:
  assumes "stream_ok sent answer accepted rd ch r" and "next_event ch answer r = (p, ch1, r1)"
  shows "stream_ok (sent @ sent_by p) answer accepted rd ch1 r1"
  using assms
proof (induction ch answer r rule: next_event.induct)
  case (1 ch answer r)
  obtain q c s where t: "response_turn ch answer r = (q, c, s)" using prod_cases3 by blast
  note ok = response_turn_ok [OF 1(2) t]
  show ?case
  proof (cases "q = PollAgain")
    case True
    with ok have "stream_ok sent answer accepted rd c s" by (simp add: sent_by_def)
    moreover have "next_event c answer s = (p, ch1, r1)"
      using 1(3) t True by (subst (asm) next_event.simps) simp
    ultimately show ?thesis using 1(1) t True by auto
  next
    case False
    with 1(3) t have "(q, c, s) = (p, ch1, r1)" by (subst (asm) next_event.simps) (cases q; simp)
    with ok show ?thesis by simp
  qed
qed

lemma next_event_again: "next_event ch answer r \<noteq> (PollAgain, ch1, r1)"
proof (induction ch answer r rule: next_event.induct)
  case (1 ch answer r)
  obtain q c s where t: "response_turn ch answer r = (q, c, s)" using prod_cases3 by blast
  with 1 show ?case by (subst next_event.simps) (cases q; auto)
qed

end
