(* ===== verification/Rpc_Call.thy ===== *)
theory Rpc_Call
  imports Rpc_Stream
begin

text \<open>
  Whole calls: the invariant through every move of the parties, and what it says about the events a
  client is sent.
\<close>

section \<open>The reader\<close>

lemma acks_read:
  assumes "acks_ok sent q rd" and "rd_state rd = Reading"
  shows "acks_ok sent q (reader_read d i rd)"
proof (cases i)
  case (InMessage m)
  show ?thesis
  proof (cases "m = Some MsgCancel \<and> rd_disposition rd = None")
    case True
    with assms have "ack_codes sent = []" "queue_codes q = []"
      by (auto simp: acks_ok_def disposition_codes_def)
    with True InMessage assms show ?thesis
      by (cases d) (auto simp: acks_ok_def reader_read_def cancel_reply_def sending_codes_def disposition_codes_def)
  next
    case False
    with InMessage assms show ?thesis
      by (auto simp: acks_ok_def reader_read_def sending_codes_def disposition_codes_def)
  qed
qed (use assms in \<open>auto simp: acks_ok_def reader_read_def sending_codes_def disposition_codes_def\<close>)

lemma disposition_codes_state [simp]: "disposition_codes (rd\<lparr>rd_state := s\<rparr>) = disposition_codes rd"
  by (simp add: disposition_codes_def)

lemma acks_sent_to_queue:
  assumes "acks_ok sent q rd" and "reader_send q rd = (q1, rd1)"
  shows "acks_ok sent q1 rd1"
proof (cases "rd_state rd")
  case (Sending m stop)
  have n: "sending_codes (rd\<lparr>rd_state := if stop then ReaderReturned else Reading\<rparr>) = []"
    by (simp add: sending_codes_def)
  show ?thesis
  proof (cases q)
    case None
    with Sending assms have "q1 = None" "rd1 = rd\<lparr>rd_state := ReaderReturned\<rparr>" by (auto simp: reader_send_def)
    with None assms(1) show ?thesis by (auto simp: acks_ok_def sending_codes_def [of "_\<lparr>rd_state := ReaderReturned\<rparr>"])
  next
    case (Some x)
    obtain cs closed where x: "x = (cs, closed)" by (cases x)
    show ?thesis
    proof (cases "cs = []")
      case True
      with Some x Sending assms(2) have o: "q1 = Some ([m], closed)"
          "rd1 = rd\<lparr>rd_state := if stop then ReaderReturned else Reading\<rparr>"
        by (auto simp: reader_send_def control_capacity_def)
      have "queue_codes q1 = sending_codes rd" "queue_codes q = []"
        using True Some x Sending o by (auto simp: queue_codes_def sending_codes_def)
      with assms(1) show ?thesis unfolding o(2) by (simp add: acks_ok_def n)
    next
      case False
      with Some x Sending assms have "q1 = q" "rd1 = rd" by (cases cs; auto simp: reader_send_def control_capacity_def)+
      with assms(1) show ?thesis by simp
    qed
  qed
qed (use assms in \<open>auto simp: reader_send_def\<close>)

lemma queue_codes_close [simp]: "queue_codes (close_sender rd q) = queue_codes q"
  by (auto simp: close_sender_def queue_codes_def split: option.splits)

lemma acks_close [simp]: "acks_ok sent (close_sender rd q) rd1 = acks_ok sent q rd1"
  by (simp add: acks_ok_def)

text \<open>\<open>cancel_execution\<close> is called at most once; a second request is not passed on.\<close>

definition asks_once :: "reader \<Rightarrow> nat \<Rightarrow> bool" where
  "asks_once rd n \<longleftrightarrow> n \<le> 1 \<and> (rd_disposition rd \<noteq> None \<longrightarrow> n = 1)
     \<and> (rd_disposition rd = None \<and> n = 1 \<longrightarrow> rd_state rd \<noteq> Reading)
     \<and> (\<forall>s stop. rd_state rd = Sending (Inl s) stop \<longrightarrow> stop)"

lemma asks_once_read:
  assumes "asks_once rd n" and "rd_state rd = Reading"
  shows "asks_once (reader_read d i rd) (n + (if asks_to_cancel i rd then 1 else 0))"
  using assms
  by (auto simp: asks_once_def reader_read_def asks_to_cancel_def cancel_reply_def
      split: inbound.splits cancel_result.splits)

lemma asks_once_send:
  assumes "asks_once rd n" and "reader_send q rd = (q1, rd1)" and "acks_ok sent q rd"
  shows "asks_once rd1 n"
proof -
  have d: "rd_disposition rd \<noteq> None" if "rd_state rd = Sending (Inr d) stop" for d stop
    using assms(3) that by (auto simp: acks_ok_def sending_codes_def disposition_codes_def split: option.splits)
  show ?thesis
  proof (cases "rd_state rd")
    case (Sending m stop)
    with assms(1,2) d show ?thesis
      by (cases m) (auto simp: asks_once_def reader_send_def split: option.splits prod.splits if_splits)
  qed (use assms(1,2) in \<open>auto simp: asks_once_def reader_send_def\<close>)
qed

section \<open>Calls\<close>

definition move_ok :: "call_move \<Rightarrow> bool" where
  "move_ok m \<longleftrightarrow> (case m of MvProduce op \<Rightarrow> op_valid op \<and> op \<noteq> OpNext \<and> op \<noteq> OpDropStream | _ \<Rightarrow> True)"

definition call_ok :: "call \<Rightarrow> bool" where
  "call_ok c \<longleftrightarrow> asks_once (ca_reader c) (ca_cancels c)
     \<and> (case ca_response c of
          Some r \<Rightarrow> ca_status c = None
            \<and> stream_ok (ca_sent c) (ca_answer c) (ca_accepted c) (ca_reader c) (ca_channel c) r
        | None \<Rightarrow> sent_ok (ca_sent c) (ca_answer c) (ca_accepted c) (ca_reader c) (ca_channel c))"

lemma new_call_ok:
  assumes "flows [] ch []"
  shows "call_ok (new_call ch)"
  using assms
  by (simp add: call_ok_def new_call_def asks_once_def new_reader_def stream_ok_def acks_ok_def queue_codes_def
      sending_codes_def disposition_codes_def new_response_def in_step_def stage_of_def)

text \<open>The channel an execution starts with: open, or already finished for a source without forms.\<close>

lemma exec_new_flows:
  assumes "exec_new mode name bytes = Inr (e, ch)"
  shows "flows [] ch []"
proof -
  have "ch = new_channel \<or> ch = fst (sink_finish new_channel)"
    using assms by (auto simp: exec_new_def Let_def split: if_splits option.splits sum.splits)
  then show ?thesis using flows_new flows_produce [OF flows_new, of OpFinish]
    by (auto simp: chan_apply_def op_accepts_def op_valid_def)
qed

lemma finished_with_answered [intro]:
  "finished_with answer sent \<Longrightarrow> finished_with (get_or_insert answer a) sent"
  by (auto simp: finished_with_def)

lemma drained_produce:
  assumes "drained ch" and "channel_ok ch" and "op_valid op" and "ch_pending ch = []"
  shows "drained (fst (chan_apply op ch))"
proof (cases op)
  case (OpEmit "text")
  obtain t ch1 w where e: "emit_turn ch text = (t, ch1, w)" using prod_cases3 by blast
  then have "ch1 = ch" using assms(1) by (auto simp: emit_turn_def drained_def)
  with assms(1) OpEmit e show ?thesis by (simp add: chan_apply_def)
next
  case OpNext
  then show ?thesis using assms(1) by (auto simp: chan_apply_def stream_next_chunk_def drained_def split: list.splits)
qed (use assms(1,4) in \<open>auto simp: channel_op_defs chan_simps drained_def discard_output_def publish_pending_def\<close>)

lemma stream_produce:
  assumes "stream_ok sent answer accepted rd ch r" and "op_valid op" and "op \<noteq> OpNext"
  shows "stream_ok sent answer (accepted @ op_accepts op ch) rd (fst (chan_apply op ch)) r"
proof -
  have fl: "flows sent ch accepted" and st: "in_step sent answer ch r" using assms(1) by (simp_all add: stream_ok_def)
  have "drained (fst (chan_apply op ch))" if "drained ch"
    using drained_produce [OF that _ assms(2)] fl that by (simp add: flows_def drained_def)
  with st have "in_step sent answer (fst (chan_apply op ch)) r" by (auto simp: in_step_def)
  with assms(1) flows_produce [OF fl assms(2,3)] show ?thesis by (simp add: stream_ok_def)
qed

lemma stream_reader:
  assumes "stream_ok sent answer accepted rd ch r" and "acks_ok sent q rd1"
  shows "stream_ok sent answer accepted rd1 ch (r\<lparr>rs_control := q\<rparr>)"
  using assms by (simp add: stream_ok_def in_step_def stage_of_def cong: response_phase.case_cong)

lemma call_apply_ok:
  assumes "call_ok c" and "move_ok m"
  shows "call_ok (call_apply m c)"
proof (cases m)
  case (MvProduce op)
  with assms show ?thesis
    by (auto simp: call_ok_def call_apply_def move_ok_def sent_ok_def stream_produce flows_produce split: option.splits)
next
  case (MvAnswer a)
  with assms(1) show ?thesis
    by (auto simp: call_ok_def call_apply_def stream_ok_def in_step_def sent_ok_def split: option.splits)
next
  case (MvInbound i d)
  show ?thesis
  proof (cases "reader_alive c \<and> rd_state (ca_reader c) = Reading")
    case True
    then obtain r where r: "ca_response c = Some r" by (auto simp: reader_alive_def split: option.splits)
    with True assms(1) acks_read [of "ca_sent c" "rs_control r" "ca_reader c" d i] asks_once_read [of "ca_reader c"]
    show ?thesis
      by (auto simp: call_ok_def call_apply_def MvInbound with_control_def stream_ok_def in_step_def stage_of_def
          cong: response_phase.case_cong)
  next
    case False
    with assms(1) MvInbound show ?thesis by (auto simp: call_apply_def)
  qed
next
  case MvSend
  show ?thesis
  proof (cases "reader_alive c")
    case True
    then obtain r where r: "ca_response c = Some r" by (auto simp: reader_alive_def split: option.splits)
    obtain q rd where s: "reader_send (rs_control r) (ca_reader c) = (q, rd)" by (cases "reader_send (rs_control r) (ca_reader c)")
    have ok: "stream_ok (ca_sent c) (ca_answer c) (ca_accepted c) (ca_reader c) (ca_channel c) r"
      using assms(1) r by (simp add: call_ok_def)
    then have ac: "acks_ok (ca_sent c) (rs_control r) (ca_reader c)" by (simp add: stream_ok_def)
    have "acks_ok (ca_sent c) (close_sender rd q) rd" using acks_sent_to_queue [OF ac s] by simp
    with stream_reader [OF ok this] asks_once_send [OF _ s ac] assms(1) True r s MvSend show ?thesis
      by (simp add: call_ok_def call_apply_def with_control_def)
  next
    case False
    with assms(1) MvSend show ?thesis by (simp add: call_apply_def)
  qed
next
  case MvPoll
  show ?thesis
  proof (cases "ca_response c")
    case None
    with assms(1) MvPoll show ?thesis
      by (simp add: call_apply_def poll_response_def record_poll_def call_ok_def)
  next
    case (Some r)
    obtain p ch1 r1 where n: "next_event (ca_channel c) (ca_answer c) r = (p, ch1, r1)" using prod_cases3 by blast
    have "stream_ok (ca_sent c) (ca_answer c) (ca_accepted c) (ca_reader c) (ca_channel c) r"
      using assms(1) Some by (simp add: call_ok_def)
    from next_event_ok [OF this n] n Some MvPoll assms(1) show ?thesis
      by (cases p) (auto simp: call_apply_def poll_response_def record_poll_def call_ok_def sent_by_def
          intro!: sent_drop dest: stream_sent)
  qed
next
  case MvDrop
  with assms(1) show ?thesis
    by (auto simp: call_apply_def call_ok_def intro!: sent_drop dest: stream_sent split: option.splits)
qed

lemma call_run_ok: "list_all move_ok ms \<Longrightarrow> call_ok c \<Longrightarrow> call_ok (call_run ms c)"
  by (induction ms arbitrary: c) (simp_all add: call_apply_ok)

lemma call_sent_ok: "call_ok c \<Longrightarrow>
    sent_ok (ca_sent c) (ca_answer c) (ca_accepted c) (ca_reader c) (ca_channel c)"
  by (auto simp: call_ok_def dest: stream_sent split: option.splits)

end
