(* ===== verification/Client_Messages.thy ===== *)
theory Client_Messages
  imports Rpc_Request
begin

text \<open>
  What the command line says when a request fails, \<open>crates/cli/src/commands/mod.rs\<close>, and the failure
  of an execution in words, \<open>commands/exec/mod.rs\<close>.  A branch that panics (\<open>unreachable!\<close>) is
  \<open>None\<close>.
\<close>

section \<open>Text\<close>

definition starts_with :: "ustr \<Rightarrow> ustr \<Rightarrow> bool" where
  "starts_with s p \<longleftrightarrow> take (length p) s = p"

fun str_contains :: "ustr \<Rightarrow> ustr \<Rightarrow> bool" where
  "str_contains [] needle = (needle = [])"
| "str_contains (c # s) needle = (starts_with (c # s) needle \<or> str_contains s needle)"

definition trim_end_matches :: "(uchar \<Rightarrow> bool) \<Rightarrow> ustr \<Rightarrow> ustr" where
  "trim_end_matches P s = rev (dropWhile P (rev s))"

lemma trim_end_matches_prefix: "\<exists>cut. s = trim_end_matches P s @ cut \<and> (\<forall>c\<in>set cut. P c)"
proof -
  have "rev s = takeWhile P (rev s) @ dropWhile P (rev s)" by simp
  then have "s = rev (dropWhile P (rev s)) @ rev (takeWhile P (rev s))" by (metis rev_append rev_rev_ident)
  then show ?thesis unfolding trim_end_matches_def
    by (intro exI [of _ "rev (takeWhile P (rev s))"]) (auto dest: set_takeWhileD)
qed

section \<open>Requests that fail\<close>

datatype request_operation = ReqOpen | ReqSwitch | ReqSave | ReqClose | ReqScreenshot | ReqExecute | ReqUndo | ReqRedo

datatype query_error = CannotConnect | QueryTimedOut | OutdatedPlugin | RequestFailed ustr

definition incompatible_message :: "ustr \<Rightarrow> bool" where
  "incompatible_message message = str_contains message (lit ''failed to decode Protobuf message'')"

definition query_error_message :: "query_error \<Rightarrow> ustr" where
  "query_error_message e = (case e of
     CannotConnect \<Rightarrow> lit ''Plugin unavailable: install it and restart AutoCAD.''
   | QueryTimedOut \<Rightarrow> lit ''Timeout: plugin did not respond.''
   | OutdatedPlugin \<Rightarrow> lit ''Plugin incompatible: update it and restart AutoCAD.''
   | RequestFailed message \<Rightarrow>
       if incompatible_message message then lit ''Plugin incompatible: update it and restart AutoCAD.''
       else lit ''Unknown error.'')"

text \<open>A sentence with the target in the middle.\<close>

definition about_target :: "string \<Rightarrow> target \<Rightarrow> string \<Rightarrow> ustr" where
  "about_target before t after = lit before @ target_display t @ lit after"

definition operation_failure_message :: "request_operation \<Rightarrow> target option \<Rightarrow> ustr" where
  "operation_failure_message operation target = (case (operation, target) of
     (ReqOpen, _) \<Rightarrow> lit ''Drawing was not opened.''
   | (ReqSwitch, Some t) \<Rightarrow> about_target ''Drawing '' t '' was not activated.''
   | (ReqSave, Some t) \<Rightarrow> about_target ''Drawing '' t '' was not saved.''
   | (ReqClose, Some t) \<Rightarrow> about_target ''Drawing '' t '' was not closed.''
   | (ReqScreenshot, Some t) \<Rightarrow> about_target ''Drawing '' t '' was not captured.''
   | (ReqExecute, Some t) \<Rightarrow> about_target ''Code was not run in drawing '' t ''.''
   | (ReqUndo, Some t) \<Rightarrow> about_target ''Undo was not run for drawing '' t ''.''
   | (ReqRedo, Some t) \<Rightarrow> about_target ''Redo was not run for drawing '' t ''.''
   | _ \<Rightarrow> lit ''Operation failed.'')"

definition timeout_message :: "request_operation \<Rightarrow> target option \<Rightarrow> ustr" where
  "timeout_message operation target = (case (operation, target) of
     (ReqOpen, _) \<Rightarrow> lit ''Timeout: drawing was not opened.''
   | (ReqSwitch, Some t) \<Rightarrow> about_target ''Timeout: drawing '' t '' was not activated.''
   | (ReqSave, Some t) \<Rightarrow> about_target ''Timeout: drawing '' t '' was not saved.''
   | (ReqClose, Some t) \<Rightarrow> about_target ''Timeout: drawing '' t '' was not closed.''
   | (ReqScreenshot, Some t) \<Rightarrow> about_target ''Timeout: drawing '' t '' was not captured.''
   | (ReqExecute, Some t) \<Rightarrow> about_target ''Timeout: code was not run in drawing '' t ''.''
   | (ReqUndo, Some t) \<Rightarrow> about_target ''Timeout: undo was not run for drawing '' t ''.''
   | (ReqRedo, Some t) \<Rightarrow> about_target ''Timeout: redo was not run for drawing '' t ''.''
   | _ \<Rightarrow> lit ''Timeout: operation failed.'')"

definition unknown_history_outcome_message :: "request_operation \<Rightarrow> target option \<Rightarrow> ustr" where
  "unknown_history_outcome_message operation target = (case (operation, target) of
     (ReqUndo, Some t) \<Rightarrow> about_target ''Undo may have run for drawing '' t
       '': document focus could not be restored. Restart AutoCAD before another mutation; do not retry blindly.''
   | (ReqRedo, Some t) \<Rightarrow> about_target ''Redo may have run for drawing '' t
       '': document focus could not be restored. Restart AutoCAD before another mutation; do not retry blindly.''
   | _ \<Rightarrow> lit ''Operation outcome unknown: do not retry blindly.'')"

definition drawing_error_message ::
  "request_operation \<Rightarrow> drawing_error_kind \<Rightarrow> target \<Rightarrow> ustr \<Rightarrow> ustr option" where
  "drawing_error_message operation kind t detail = (case kind of
     DekNotOpen \<Rightarrow> Some (about_target ''Drawing '' t '' is not open.'')
   | DekReplaced \<Rightarrow> Some (about_target ''Drawing '' t '' changed before the operation.'')
   | DekReadOnly \<Rightarrow> Some (about_target ''Drawing '' t '' is read-only.'')
   | DekNotActive \<Rightarrow>
       if operation = ReqScreenshot then
         Some (about_target ''Drawing '' t '' is not active: use acadctl switch '' @ target_display t @ lit '' first.'')
       else Some (about_target ''Drawing '' t '' is not active: use --force to activate it temporarily.'')
   | DekUnsavedChanges \<Rightarrow> Some (about_target ''Drawing '' t '' has unsaved changes.'')
   | DekNoFileName \<Rightarrow> Some (about_target ''Drawing '' t '' has no filename: use --as FILE.'')
   | DekBusy \<Rightarrow> Some (about_target ''Drawing '' t '' is busy.'')
   | DekUndoDisabled \<Rightarrow> Some (about_target ''Undo is disabled for drawing '' t ''.'')
   | DekDestinationExists \<Rightarrow> Some (lit ''Destination exists: choose another path.'')
   | DekReadinessTimedOut \<Rightarrow> None
   | DekHistoryOutcomeUnknown \<Rightarrow> None
   | DekViewportUnavailable \<Rightarrow>
       if detail = [] then Some (about_target ''The active viewport for drawing '' t '' is unavailable.'')
       else Some (about_target ''The active viewport for drawing '' t '' is unavailable: '' @ detail @ lit ''.'')
   | DekCaptureFailed \<Rightarrow>
       if detail = [] then Some (about_target ''The active viewport for drawing '' t '' could not be captured.'')
       else Some (about_target ''The active viewport for drawing '' t '' could not be captured: '' @ detail @ lit ''.'')
   | DekUnspecified \<Rightarrow> None)"

definition request_error_message ::
  "(byte list \<Rightarrow> drawing_error option) \<Rightarrow> request_operation \<Rightarrow> target option \<Rightarrow> status \<Rightarrow> ustr option" where
  "request_error_message decode operation target s =
     (if ss_code s = CodeUnimplemented \<or> incompatible_message (ss_message s)
      then Some (lit ''Plugin incompatible: update it and restart AutoCAD.'')
      else
        (let fallback = Some (operation_failure_message operation target) in
         case drawing_error_from_status decode s of
           None \<Rightarrow> fallback
         | Some error \<Rightarrow>
             (case drawing_error_try_from (de_kind error) of
                None \<Rightarrow> fallback
              | Some kind \<Rightarrow>
                  if kind = DekUnspecified then fallback
                  else if kind = DekReadinessTimedOut then Some (timeout_message operation target)
                  else if kind = DekHistoryOutcomeUnknown
                  then Some (unknown_history_outcome_message operation target)
                  else (case target of
                      Some t \<Rightarrow> drawing_error_message operation kind t (de_detail error)
                    | None \<Rightarrow> fallback))))"

section \<open>Executions that fail\<close>

definition readiness_timed_out :: "rpc_exec_failure \<Rightarrow> bool" where
  "readiness_timed_out f \<longleftrightarrow> starts_with (rf_message f) (lit ''AutoCAD did not become ready'')
     \<or> drawing_error_try_from (rf_drawing_error f) = Some DekReadinessTimedOut"

definition location_free_failure_message :: "rpc_exec_failure \<Rightarrow> target \<Rightarrow> ustr option" where
  "location_free_failure_message f t =
     (let plain = Some (if starts_with (rf_message f) (lit ''The source '') \<or> starts_with (rf_message f) (lit ''eval '')
            then trim_end_matches (\<lambda>c. c = of_char CHR ''.'') (rf_message f)
            else lit ''Code failed in drawing '' @ target_display t) in
      case drawing_error_try_from (rf_drawing_error f) of
        Some kind \<Rightarrow> if kind \<noteq> DekUnspecified then drawing_error_message ReqExecute kind t [] else plain
      | None \<Rightarrow> plain)"

definition join_sentences :: "ustr \<Rightarrow> ustr \<Rightarrow> ustr" where
  "join_sentences first second =
     trim_end_matches (\<lambda>c. c \<in> set (lit ''.!?'')) first @ lit ''. '' @ second"

definition drawing_outcome_message :: "int \<Rightarrow> ustr" where
  "drawing_outcome_message outcome = (case drawing_outcome_try_from outcome of
     Some RdoNotStarted \<Rightarrow> lit ''Code was not run.''
   | Some RdoRolledBack \<Rightarrow> lit ''Changes were rolled back. Other side effects may remain.''
   | Some RdoCommitted \<Rightarrow> lit ''Changes were committed before the failure.''
   | _ \<Rightarrow> lit ''Outcome unknown: retrying may run code twice.'')"

text \<open>The name under which a location is shown: the one the server sent, or the client's own.\<close>

definition shown_source_name :: "rpc_source_location \<Rightarrow> ustr \<Rightarrow> ustr" where
  "shown_source_name l fallback = (if rl_source_name l = [] then fallback else rl_source_name l)"

definition failure_message :: "rpc_exec_failure \<Rightarrow> ustr \<Rightarrow> target \<Rightarrow> ustr option" where
  "failure_message f fallback t =
     (if readiness_timed_out f then Some (lit ''Timeout: code was not run.'')
      else
        (case (if rf_message f = [] then Some (lit ''Code failed in drawing '' @ target_display t)
               else if rf_location f \<noteq> None \<or> rf_form_index f \<noteq> None then Some (rf_message f)
               else location_free_failure_message f t) of
           None \<Rightarrow> None
         | Some message \<Rightarrow>
             (let rendered = (case (rf_location f, rf_form_index f) of
                  (Some l, Some form) \<Rightarrow> lit ''Code failed in '' @ shown_source_name l fallback @ lit '' at form ''
                    @ dec_nat form @ lit '', line '' @ dec_nat (rl_line l) @ lit '': '' @ message
                | (Some l, None) \<Rightarrow> lit ''Invalid code in '' @ shown_source_name l fallback @ lit '' at line ''
                    @ dec_nat (rl_line l) @ lit '', column '' @ dec_nat (rl_column l) @ lit '': '' @ message
                | (None, Some form) \<Rightarrow> lit ''Code failed in '' @ fallback @ lit '' at form '' @ dec_nat form
                    @ lit '': '' @ message
                | (None, None) \<Rightarrow> message)
              in Some (join_sentences rendered (drawing_outcome_message (rf_drawing_outcome f))))))"

definition response_start_error :: "status \<Rightarrow> ustr" where
  "response_start_error s =
     (if ss_code s = CodeUnimplemented \<or> incompatible_message (ss_message s)
      then lit ''Plugin incompatible: code was not run.''
      else lit ''Outcome unknown: retrying may run code twice.'')"

end
