(* ===== verification/Client_Exec.thy ===== *)
theory Client_Exec
  imports Client_Messages
begin

text \<open>
  The command line's side of an execution, \<open>crates/cli/src/commands/exec/\<close>: Ctrl+C
  (\<open>interrupt.rs\<close>), the waits that can be interrupted (\<open>stream.rs\<close>) and the session that turns the
  events of the server into output, diagnostics and an exit code (\<open>mod.rs\<close>).  A session is a state
  machine whose states are the waits of \<open>run\<close> and \<open>drive\<close>; a turn is one pass of the \<open>select!\<close> at
  that wait over what is ready, interrupts first (\<open>biased\<close>).  The two writers (\<open>writer.rs\<close>) are seen
  from the session: a chunk handed to standard output is answered with success or failure, a text
  handed to standard error may be answered or, with \<open>try_write\<close>, is not waited for.
\<close>

section \<open>Ctrl+C\<close>

datatype interrupt = IntCancel bool | IntDetach

datatype client_disposition = NotQueued | Queued | Accepted | TooLate

datatype interrupt_phase = Attached | CancelRequested client_disposition | DetachRequested client_disposition

text \<open>The task that listens for signals; a first signal publishes \<open>Cancel\<close> to the server, which works
  (\<open>queued\<close>) as long as the connection takes messages.\<close>

datatype signal_task = AwaitingFirst | AwaitingSecond | SignalsOver

definition publish_cancel :: "bool \<Rightarrow> client_message list \<times> interrupt" where
  "publish_cancel queued = (if queued then [MsgCancel] else [], IntCancel queued)"

definition signal_received ::
  "bool \<Rightarrow> signal_task \<Rightarrow> signal_task \<times> client_message list \<times> interrupt list" where
  "signal_received open1 t = (case t of
     AwaitingFirst \<Rightarrow> (case publish_cancel open1 of (ms, i) \<Rightarrow> (AwaitingSecond, ms, [i]))
   | AwaitingSecond \<Rightarrow> (SignalsOver, [], [IntDetach])
   | SignalsOver \<Rightarrow> (SignalsOver, [], []))"

definition note_phase :: "interrupt \<Rightarrow> interrupt_phase \<Rightarrow> interrupt_phase \<times> ustr list" where
  "note_phase i p = (case (p, i) of
     (Attached, IntCancel queued) \<Rightarrow>
       (CancelRequested (if queued then Queued else NotQueued), [lit ''Stopping... ''])
   | (CancelRequested d, IntDetach) \<Rightarrow> (DetachRequested d, [])
   | (Attached, IntDetach) \<Rightarrow> (p, [])
   | (CancelRequested _, IntCancel _) \<Rightarrow> (p, [])
   | (DetachRequested _, _) \<Rightarrow> (p, []))"

definition cancellation_requested :: "interrupt_phase \<Rightarrow> bool" where
  "cancellation_requested p \<longleftrightarrow> p \<noteq> Attached"

definition detach_requested :: "interrupt_phase \<Rightarrow> bool" where
  "detach_requested p \<longleftrightarrow> (case p of DetachRequested _ \<Rightarrow> True | _ \<Rightarrow> False)"

definition cancellation_disposition :: "interrupt_phase \<Rightarrow> client_disposition option" where
  "cancellation_disposition p = (case p of
     Attached \<Rightarrow> None | CancelRequested d \<Rightarrow> Some d | DetachRequested d \<Rightarrow> Some d)"

datatype acknowledgement_result = AckRecorded | AckRecordedBeforeInterrupt | AckDuplicate | AckInvalid

definition acknowledge_cancellation ::
  "client_disposition \<Rightarrow> interrupt_phase \<Rightarrow> acknowledgement_result \<times> interrupt_phase" where
  "acknowledge_cancellation d p = (case cancellation_disposition p of
     None \<Rightarrow> (AckRecordedBeforeInterrupt, CancelRequested d)
   | Some current \<Rightarrow>
       (case current of
          Accepted \<Rightarrow> (AckDuplicate, p)
        | TooLate \<Rightarrow> (AckDuplicate, p)
        | NotQueued \<Rightarrow> (AckInvalid, p)
        | Queued \<Rightarrow> (case p of
            CancelRequested _ \<Rightarrow> (AckRecorded, CancelRequested d)
          | DetachRequested _ \<Rightarrow> (AckRecorded, DetachRequested d)
          | Attached \<Rightarrow> (AckInvalid, p))))"

datatype cancellation_receipt = ReceiptContinue | ReceiptDetach | ReceiptDuplicate | ReceiptInvalid

definition receipt_of :: "acknowledgement_result \<times> interrupt_phase \<Rightarrow> cancellation_receipt \<times> interrupt_phase" where
  "receipt_of r = (case r of
     (AckDuplicate, p) \<Rightarrow> (ReceiptDuplicate, p)
   | (AckInvalid, p) \<Rightarrow> (ReceiptInvalid, p)
   | (_, p) \<Rightarrow> (if detach_requested p then ReceiptDetach else ReceiptContinue, p))"

definition record_cancellation_acknowledgement ::
  "int \<Rightarrow> interrupt_phase \<Rightarrow> cancellation_receipt \<times> interrupt_phase" where
  "record_cancellation_acknowledgement code p = (case cancel_disposition_try_from code of
     Some CdAccepted \<Rightarrow> receipt_of (acknowledge_cancellation Accepted p)
   | Some CdTooLate \<Rightarrow> receipt_of (acknowledge_cancellation TooLate p)
   | _ \<Rightarrow> (ReceiptInvalid, p))"

section \<open>The session\<close>

text \<open>Where the session waits, or how it ended.\<close>

datatype wait_point =
    WaitStart
  | WaitMessage
  | WaitStdout
  | WaitDiagnostic
  | Exited nat
  | Panicked

record session =
  se_wait :: wait_point
  se_accepted :: bool
  se_interrupts :: interrupt_phase
  se_stdout :: "ustr list"
  se_stderr :: "ustr list"
  se_holds_response :: bool

record session_config =
  cf_source_name :: ustr
  cf_target :: target
  cf_stdout_starts :: bool

definition new_session :: session where
  "new_session = \<lparr>se_wait = WaitStart, se_accepted = False, se_interrupts = Attached, se_stdout = [],
     se_stderr = [], se_holds_response = False\<rparr>"

definition diagnostic :: "ustr list \<Rightarrow> session \<Rightarrow> session" where
  "diagnostic texts s = s\<lparr>se_stderr := se_stderr s @ texts\<rparr>"

definition exit_with :: "nat \<Rightarrow> session \<Rightarrow> session" where
  "exit_with n s = s\<lparr>se_wait := Exited n\<rparr>"

definition finish_stopping :: "string \<Rightarrow> session \<Rightarrow> session" where
  "finish_stopping message s =
     (if cancellation_requested (se_interrupts s) then diagnostic [lit message @ [ch_lf]] s else s)"

definition cancelled_exit :: "session \<Rightarrow> session" where
  "cancelled_exit s = exit_with 130 s"

definition stopped_exit :: "session \<Rightarrow> session" where
  "stopped_exit s = cancelled_exit (finish_stopping ''done.'' s)"

definition detach_exit :: "session \<Rightarrow> session" where
  "detach_exit s = cancelled_exit (diagnostic [[ch_lf] @ lit ''Detached: code may still be running.'' @ [ch_lf]] s)"

definition stopping_connection_lost :: "session \<Rightarrow> session" where
  "stopping_connection_lost s =
     cancelled_exit (finish_stopping ''connection lost: code may still be running.'' s)"

text \<open>\<open>write_diagnostic\<close>: the text is handed to standard error and the session waits for it.\<close>

definition write_diagnostic :: "ustr \<Rightarrow> session \<Rightarrow> session" where
  "write_diagnostic message s = (diagnostic [message] s)\<lparr>se_wait := WaitDiagnostic\<rparr>"

definition diagnostic_failure :: "string \<Rightarrow> session \<Rightarrow> session" where
  "diagnostic_failure message s = write_diagnostic (lit message @ [ch_lf]) s"

definition INVALID_RESPONSE :: string where
  "INVALID_RESPONSE = ''Invalid response: outcome unknown.''"

definition invalid_response :: "session \<Rightarrow> session" where
  "invalid_response s = diagnostic_failure INVALID_RESPONSE s"

definition lost_response :: "session \<Rightarrow> session" where
  "lost_response s =
     (if cancellation_requested (se_interrupts s) then stopping_connection_lost s
      else diagnostic_failure ''Connection lost: code may still be running.'' s)"

definition output_failed :: "session \<Rightarrow> session" where
  "output_failed s = diagnostic_failure ''Output failed: code may still be running.'' (s\<lparr>se_holds_response := False\<rparr>)"

definition report_failure :: "session_config \<Rightarrow> rpc_exec_failure \<Rightarrow> session \<Rightarrow> session" where
  "report_failure cf f s =
     (let s1 = finish_stopping ''done.'' s in
      case failure_message f (cf_source_name cf) (cf_target cf) of
        Some message \<Rightarrow> write_diagnostic (message @ [ch_lf]) s1
      | None \<Rightarrow> s1\<lparr>se_wait := Panicked\<rparr>)"

section \<open>Messages\<close>

text \<open>What \<open>message().await\<close> returns: an event (whose content may be unknown), the end, or an error.\<close>

datatype response_message = RespEvent "server_event option" | RespEnd | RespBroken

definition finish_session :: "session_config \<Rightarrow> rpc_outcome \<Rightarrow> session \<Rightarrow> session" where
  "finish_session cf out s =
     (if \<not> se_accepted s \<and> (out = RpcSuccess \<or> out = RpcCancelled) then invalid_response s
      else (case out of
          RpcSuccess \<Rightarrow> if cancellation_requested (se_interrupts s) then stopped_exit s else exit_with 0 s
        | RpcCancelled \<Rightarrow> stopped_exit s
        | RpcFailure f \<Rightarrow> report_failure cf f s))"

definition print_chunk :: "session_config \<Rightarrow> ustr \<Rightarrow> session \<Rightarrow> session" where
  "print_chunk cf chunk s =
     (if cancellation_requested (se_interrupts s) then s
      else if \<not> cf_stdout_starts cf then output_failed s
      else s\<lparr>se_stdout := se_stdout s @ [chunk], se_wait := WaitStdout\<rparr>)"

definition handle_acknowledgement :: "int \<Rightarrow> session \<Rightarrow> session" where
  "handle_acknowledgement code s =
     (case record_cancellation_acknowledgement code (se_interrupts s) of (receipt, p) \<Rightarrow>
        (let s1 = s\<lparr>se_interrupts := p\<rparr> in
         case receipt of
           ReceiptContinue \<Rightarrow> s1
         | ReceiptDetach \<Rightarrow> detach_exit s1
         | ReceiptDuplicate \<Rightarrow> invalid_response s1
         | ReceiptInvalid \<Rightarrow> invalid_response s1))"

definition handle_event :: "session_config \<Rightarrow> server_event option \<Rightarrow> session \<Rightarrow> session" where
  "handle_event cf e s = (case e of
     Some EvAccepted \<Rightarrow> if se_accepted s then invalid_response s else s\<lparr>se_accepted := True\<rparr>
   | Some (EvOutput chunk) \<Rightarrow> if \<not> se_accepted s then invalid_response s else print_chunk cf chunk s
   | Some (EvCancelAcknowledgement code) \<Rightarrow>
       if \<not> se_accepted s then invalid_response s else handle_acknowledgement code s
   | Some (EvFinished (Some out)) \<Rightarrow> finish_session cf out s
   | Some (EvFinished None) \<Rightarrow> invalid_response s
   | None \<Rightarrow> invalid_response s)"

definition handle_message :: "session_config \<Rightarrow> response_message \<Rightarrow> session \<Rightarrow> session" where
  "handle_message cf m s = (case m of
     RespEvent e \<Rightarrow> handle_event cf e s
   | RespEnd \<Rightarrow> if detach_requested (se_interrupts s) then detach_exit s else lost_response s
   | RespBroken \<Rightarrow> if detach_requested (se_interrupts s) then detach_exit s else lost_response s)"

definition start_response :: "status option \<Rightarrow> session \<Rightarrow> session" where
  "start_response refused s = (case refused of
     None \<Rightarrow> s\<lparr>se_wait := WaitMessage, se_holds_response := True\<rparr>
   | Some st \<Rightarrow>
       if detach_requested (se_interrupts s) then detach_exit s
       else if cancellation_requested (se_interrupts s) then stopping_connection_lost s
       else write_diagnostic (response_start_error st @ [ch_lf]) s)"

section \<open>Turns\<close>

text \<open>What is ready: interrupts noticed, the answer to the call, messages of the response, the result of
  the write to standard output, and that the diagnostic was written.\<close>

record ready =
  ry_interrupts :: "interrupt list"
  ry_start :: "status option option"
  ry_messages :: "response_message list"
  ry_stdout :: "bool option"
  ry_diagnostic :: bool

definition note_interrupt :: "interrupt \<Rightarrow> session \<Rightarrow> session" where
  "note_interrupt i s = (case note_phase i (se_interrupts s) of (p, texts) \<Rightarrow>
     diagnostic texts (s\<lparr>se_interrupts := p\<rparr>))"

definition interrupted :: "session \<Rightarrow> session" where
  "interrupted s = (case se_wait s of
     WaitDiagnostic \<Rightarrow> cancelled_exit s
   | WaitStdout \<Rightarrow> if detach_requested (se_interrupts s) then detach_exit s else s\<lparr>se_wait := WaitMessage\<rparr>
   | _ \<Rightarrow> if detach_requested (se_interrupts s) then detach_exit s else s)"

definition session_turn :: "session_config \<Rightarrow> ready \<Rightarrow> session \<Rightarrow> (ready \<times> session) option" where
  "session_turn cf ry s = (case se_wait s of
     Exited _ \<Rightarrow> None
   | Panicked \<Rightarrow> None
   | w \<Rightarrow>
     (case ry_interrupts ry of
        i # is \<Rightarrow> Some (ry\<lparr>ry_interrupts := is\<rparr>, interrupted (note_interrupt i s))
      | [] \<Rightarrow>
        (case w of
           WaitStart \<Rightarrow> map_option (\<lambda>refused. (ry\<lparr>ry_start := None\<rparr>, start_response refused s)) (ry_start ry)
         | WaitMessage \<Rightarrow> (case ry_messages ry of
             m # ms \<Rightarrow> Some (ry\<lparr>ry_messages := ms\<rparr>, handle_message cf m s) | [] \<Rightarrow> None)
         | WaitStdout \<Rightarrow> map_option (\<lambda>ok. (ry\<lparr>ry_stdout := None\<rparr>,
             if ok then s\<lparr>se_wait := WaitMessage\<rparr> else output_failed s)) (ry_stdout ry)
         | _ \<Rightarrow> if ry_diagnostic ry then Some (ry\<lparr>ry_diagnostic := False\<rparr>, exit_with 1 s) else None)))"

section \<open>The client of an execution\<close>

text \<open>The session with the signal task, what is ready for it, the messages it has sent after its request,
  and the events handled so far.\<close>

record client =
  cv_session :: session
  cv_ready :: ready
  cv_signals :: signal_task
  cv_sent :: "client_message list"
  cv_received :: "server_event option list"

definition new_client :: client where
  "new_client = \<lparr>cv_session = new_session,
     cv_ready = \<lparr>ry_interrupts = [], ry_start = None, ry_messages = [], ry_stdout = None, ry_diagnostic = False\<rparr>,
     cv_signals = AwaitingFirst, cv_sent = [], cv_received = []\<rparr>"

text \<open>What can happen: a signal (with the connection open or not), the answer to the call, a message of the
  response, the result of a write to standard output or of the diagnostic, and the client's own turn.\<close>

datatype client_move =
    CvSignal bool
  | CvStart "status option"
  | CvMessage response_message
  | CvStdout bool
  | CvDiagnostic
  | CvTurn

definition client_turn :: "session_config \<Rightarrow> client \<Rightarrow> client" where
  "client_turn cf c = (case session_turn cf (cv_ready c) (cv_session c) of
     None \<Rightarrow> c
   | Some (ry, s) \<Rightarrow> c\<lparr>cv_session := s, cv_ready := ry,
       cv_received := cv_received c
         @ (if length (ry_messages ry) < length (ry_messages (cv_ready c))
            then (case ry_messages (cv_ready c) of RespEvent e # _ \<Rightarrow> [e] | _ \<Rightarrow> []) else [])\<rparr>)"

definition client_apply :: "session_config \<Rightarrow> client_move \<Rightarrow> client \<Rightarrow> client" where
  "client_apply cf m c = (case m of
     CvSignal open1 \<Rightarrow> (case signal_received open1 (cv_signals c) of (t, ms, is) \<Rightarrow>
       c\<lparr>cv_signals := t, cv_sent := cv_sent c @ ms,
         cv_ready := (cv_ready c)\<lparr>ry_interrupts := ry_interrupts (cv_ready c) @ is\<rparr>\<rparr>)
   | CvStart refused \<Rightarrow> c\<lparr>cv_ready := (cv_ready c)\<lparr>ry_start := Some refused\<rparr>\<rparr>
   | CvMessage message \<Rightarrow>
       c\<lparr>cv_ready := (cv_ready c)\<lparr>ry_messages := ry_messages (cv_ready c) @ [message]\<rparr>\<rparr>
   | CvStdout ok \<Rightarrow> (if se_wait (cv_session c) = WaitStdout
       then c\<lparr>cv_ready := (cv_ready c)\<lparr>ry_stdout := Some ok\<rparr>\<rparr> else c)
   | CvDiagnostic \<Rightarrow> (if se_wait (cv_session c) = WaitDiagnostic
       then c\<lparr>cv_ready := (cv_ready c)\<lparr>ry_diagnostic := True\<rparr>\<rparr> else c)
   | CvTurn \<Rightarrow> client_turn cf c)"

end
