(* ===== verification/Exec_Session.thy ===== *)
theory Exec_Session
  imports Rpc_Call Client_Exec
begin

text \<open>
  An execution seen from both ends: a call of the plugin (\<open>Rpc_Response\<close>) and the client that made it
  (\<open>Client_Exec\<close>), joined by a connection that delivers in order and may break at any time.
\<close>

section \<open>The joint system\<close>

record joint =
  jt_call :: call
  jt_client :: client
  jt_delivered :: nat
  jt_taken :: nat

datatype joint_move =
    JmServer call_move
  | JmClient client_move
  | JmForward cancel_result
  | JmClientGone inbound
  | JmDeliver
  | JmLost response_message

definition new_joint :: "channel \<Rightarrow> joint" where
  "new_joint ch = \<lparr>jt_call = new_call ch, jt_client = new_client, jt_delivered = 0, jt_taken = 0\<rparr>"

definition on_client :: "session_config \<Rightarrow> client_move \<Rightarrow> joint \<Rightarrow> joint" where
  "on_client cf m j = j\<lparr>jt_client := client_apply cf m (jt_client j)\<rparr>"

definition on_call :: "call_move \<Rightarrow> joint \<Rightarrow> joint" where
  "on_call m j = j\<lparr>jt_call := call_apply m (jt_call j)\<rparr>"

text \<open>A message of the client reaches the reader when the reader waits for one.\<close>

definition joint_apply :: "session_config \<Rightarrow> joint_move \<Rightarrow> joint \<Rightarrow> joint" where
  "joint_apply cf m j = (case m of
     JmServer m1 \<Rightarrow> on_call m1 j
   | JmClient m1 \<Rightarrow> on_client cf m1 j
   | JmForward d \<Rightarrow>
       if jt_taken j < length (cv_sent (jt_client j)) \<and> reader_alive (jt_call j)
          \<and> rd_state (ca_reader (jt_call j)) = Reading
       then (on_call (MvInbound (InMessage (Some (cv_sent (jt_client j) ! jt_taken j))) d) j)
              \<lparr>jt_taken := jt_taken j + 1\<rparr>
       else j
   | JmClientGone i \<Rightarrow> on_call (MvInbound i CancelNotFound) j
   | JmDeliver \<Rightarrow>
       if jt_delivered j < length (ca_sent (jt_call j))
       then (on_client cf (CvMessage (RespEvent (Some (ca_sent (jt_call j) ! jt_delivered j)))) j)
              \<lparr>jt_delivered := jt_delivered j + 1\<rparr>
       else j
   | JmLost message \<Rightarrow> on_client cf (CvMessage message) j)"

text \<open>What the parties may do on their own: the plugin's side does not read messages the client did not
  send, nor the client events the plugin did not send.\<close>

definition joint_move_ok :: "joint_move \<Rightarrow> bool" where
  "joint_move_ok m \<longleftrightarrow> (case m of
     JmServer m1 \<Rightarrow> move_ok m1 \<and> (case m1 of MvInbound _ _ \<Rightarrow> False | _ \<Rightarrow> True)
   | JmClient m1 \<Rightarrow> (case m1 of CvMessage _ \<Rightarrow> False | _ \<Rightarrow> True)
   | JmClientGone i \<Rightarrow> (case i of InMessage _ \<Rightarrow> False | _ \<Rightarrow> True)
   | JmLost message \<Rightarrow> (case message of RespEvent _ \<Rightarrow> False | _ \<Rightarrow> True)
   | _ \<Rightarrow> True)"

fun joint_run :: "session_config \<Rightarrow> joint_move list \<Rightarrow> joint \<Rightarrow> joint" where
  "joint_run cf [] j = j"
| "joint_run cf (m # ms) j = joint_run cf ms (joint_apply cf m j)"

section \<open>The session while it follows the protocol\<close>

text \<open>Events as they are handled, and those still waiting.\<close>

definition waiting_events :: "response_message list \<Rightarrow> server_event option list" where
  "waiting_events ms = concat (map (\<lambda>m. case m of RespEvent e \<Rightarrow> [e] | _ \<Rightarrow> []) ms)"

lemma waiting_events_simps [simp]:
  "waiting_events [] = []" "waiting_events (RespEvent e # ms) = e # waiting_events ms"
  "waiting_events (RespEnd # ms) = waiting_events ms" "waiting_events (RespBroken # ms) = waiting_events ms"
  "waiting_events (ms @ ns) = waiting_events ms @ waiting_events ns"
  by (simp_all add: waiting_events_def)

text \<open>The disposition agrees with the acknowledgements handled, and with what was sent.\<close>

definition disposition_ok :: "server_event list \<Rightarrow> client_message list \<Rightarrow> interrupt_phase \<Rightarrow> bool" where
  "disposition_ok es sent p \<longleftrightarrow>
     (if ack_codes es = [] then cancellation_disposition p \<in> {None, Some NotQueued, Some Queued}
      else cancellation_disposition p \<in> {Some Accepted, Some TooLate})
     \<and> (cancellation_disposition p = Some NotQueued \<longrightarrow> sent = [])"

definition signals_ok :: "client \<Rightarrow> bool" where
  "signals_ok c \<longleftrightarrow>
     (cv_signals c = AwaitingFirst \<longrightarrow> cv_sent c = [] \<and> ry_interrupts (cv_ready c) = []
        \<and> cancellation_disposition (se_interrupts (cv_session c)) \<notin> {Some NotQueued, Some Queued})
     \<and> (\<forall>queued. IntCancel queued \<in> set (ry_interrupts (cv_ready c)) \<longrightarrow> queued = (cv_sent c \<noteq> []))
     \<and> set (cv_sent c) \<subseteq> {MsgCancel}"

definition INVALID_TEXT :: ustr where
  "INVALID_TEXT = lit INVALID_RESPONSE @ [ch_lf]"

definition never_invalid :: "session \<Rightarrow> bool" where
  "never_invalid s \<longleftrightarrow> INVALID_TEXT \<notin> set (se_stderr s)"

text \<open>While the session goes on it has printed all output unless it was interrupted, and its idea of the
  protocol is the right one; an exit with code zero means success.\<close>

definition session_on :: "session \<Rightarrow> bool" where
  "session_on s \<longleftrightarrow> se_wait s \<in> {WaitStart, WaitMessage, WaitStdout}"

definition session_ok :: "server_event list \<Rightarrow> client_message list \<Rightarrow> session \<Rightarrow> bool" where
  "session_ok es sent s \<longleftrightarrow> never_invalid s
     \<and> (se_wait s = WaitStart \<longrightarrow> es = [])
     \<and> (session_on s \<longrightarrow> disposition_ok es sent (se_interrupts s)
          \<and> protocol es = Some (if se_accepted s then StOpen (ack_codes es \<noteq> []) else StNew)
          \<and> (se_interrupts s = Attached \<longrightarrow> concat (se_stdout s) = event_text es))
     \<and> (se_wait s = Exited 0 \<longrightarrow>
          (\<exists>es1. es = es1 @ [EvFinished (Some RpcSuccess)]) \<and> concat (se_stdout s) = event_text es)"

section \<open>Texts\<close>

lemma outcome_message_end: "take 3 (rev (drawing_outcome_message n)) \<noteq> take 3 (rev (lit INVALID_RESPONSE))"
  and outcome_message_long: "3 \<le> length (drawing_outcome_message n)"
proof -
  have "drawing_outcome_message n \<in> set [lit ''Code was not run.'',
      lit ''Changes were rolled back. Other side effects may remain.'',
      lit ''Changes were committed before the failure.'', lit ''Outcome unknown: retrying may run code twice.'']"
    by (auto simp: drawing_outcome_message_def split: option.splits rpc_drawing_outcome.splits)
  moreover have "list_all (\<lambda>t. take 3 (rev t) \<noteq> take 3 (rev (lit INVALID_RESPONSE)) \<and> 3 \<le> length t)
     [lit ''Code was not run.'', lit ''Changes were rolled back. Other side effects may remain.'',
      lit ''Changes were committed before the failure.'', lit ''Outcome unknown: retrying may run code twice.'']"
    by code_simp
  ultimately show "take 3 (rev (drawing_outcome_message n)) \<noteq> take 3 (rev (lit INVALID_RESPONSE))"
      "3 \<le> length (drawing_outcome_message n)"
    unfolding list_all_iff by blast+
qed

lemma failure_message_valid: "failure_message f name t = Some message \<Longrightarrow> message @ [ch_lf] \<noteq> INVALID_TEXT"
proof
  assume m: "failure_message f name t = Some message" and i: "message @ [ch_lf] = INVALID_TEXT"
  have i1: "message = lit INVALID_RESPONSE" using i by (simp add: INVALID_TEXT_def)
  have "lit ''Timeout: code was not run.'' \<noteq> lit INVALID_RESPONSE" by code_simp
  with m i1 obtain x where "message = x @ drawing_outcome_message (rf_drawing_outcome f)"
    by (auto simp: failure_message_def join_sentences_def Let_def split: if_splits option.splits)
      (metis append.assoc)+
  then have "take 3 (rev message) = take 3 (rev (drawing_outcome_message (rf_drawing_outcome f)))"
    using outcome_message_long by (simp add: take_append)
  with i1 outcome_message_end show False by metis
qed

lemma texts_valid [simp]:
  "lit ''Stopping... '' \<noteq> INVALID_TEXT" "lit ''done.'' @ [ch_lf] \<noteq> INVALID_TEXT"
  "ch_lf # lit ''Detached: code may still be running.'' @ [ch_lf] \<noteq> INVALID_TEXT"
  "lit ''connection lost: code may still be running.'' @ [ch_lf] \<noteq> INVALID_TEXT"
  "lit ''Connection lost: code may still be running.'' @ [ch_lf] \<noteq> INVALID_TEXT"
  "lit ''Output failed: code may still be running.'' @ [ch_lf] \<noteq> INVALID_TEXT"
  by code_simp+

lemmas texts_valid_sym [simp] = texts_valid [THEN not_sym]

lemma start_error_valid [simp]: "response_start_error st @ [ch_lf] \<noteq> INVALID_TEXT"
proof -
  have "lit ''Plugin incompatible: code was not run.'' @ [ch_lf] \<noteq> INVALID_TEXT"
    "lit ''Outcome unknown: retrying may run code twice.'' @ [ch_lf] \<noteq> INVALID_TEXT" by code_simp+
  then show ?thesis by (simp add: response_start_error_def)
qed

lemmas session_texts = diagnostic_def exit_with_def finish_stopping_def cancelled_exit_def stopped_exit_def
  detach_exit_def stopping_connection_lost_def write_diagnostic_def diagnostic_failure_def lost_response_def
  output_failed_def report_failure_def Let_def

lemma exits_valid:
  assumes "never_invalid s"
  shows "never_invalid (stopped_exit s)" "never_invalid (detach_exit s)" "never_invalid (lost_response s)"
    "never_invalid (output_failed s)" "never_invalid (report_failure cf f s)" "never_invalid (exit_with n s)"
    "never_invalid (cancelled_exit s)" "never_invalid (stopping_connection_lost s)"
    "never_invalid (start_response refused s)" "never_invalid (note_interrupt i s)"
  using assms failure_message_valid [THEN not_sym] start_error_valid [THEN not_sym]
  by (auto simp: never_invalid_def session_texts start_response_def note_interrupt_def note_phase_def
      split: option.splits interrupt_phase.splits interrupt.splits)

lemma exits_wait [simp]:
  "se_wait (stopped_exit s) = Exited 130" "se_wait (detach_exit s) = Exited 130"
  "se_wait (cancelled_exit s) = Exited 130" "se_wait (exit_with n s) = Exited n"
  "se_wait (stopping_connection_lost s) = Exited 130" "se_wait (output_failed s) = WaitDiagnostic"
  "se_wait (write_diagnostic text1 s) = WaitDiagnostic" "se_wait (diagnostic_failure m s) = WaitDiagnostic"
  "se_wait (note_interrupt i s) = se_wait s"
  by (simp_all add: session_texts note_interrupt_def split: prod.splits)

section \<open>One message, one interrupt\<close>

lemma note_disposition:
  assumes "disposition_ok es sent p" and "\<forall>queued. i = IntCancel queued \<longrightarrow> queued = (sent \<noteq> [])"
  shows "disposition_ok es sent (fst (note_phase i p))"
  using assms
  by (auto simp: disposition_ok_def note_phase_def cancellation_disposition_def
      split: interrupt_phase.splits interrupt.splits if_splits)

lemma note_attached: "fst (note_phase i p) = Attached \<Longrightarrow> p = Attached"
  by (auto simp: note_phase_def split: interrupt_phase.splits interrupt.splits)

lemma receipt_ok:
  assumes "disposition_ok es sent p" and "ack_codes es = []" and "sent \<noteq> []"
    and "n = cancel_disposition_code CdAccepted \<or> n = cancel_disposition_code CdTooLate"
    and "record_cancellation_acknowledgement n p = (r, p1)"
  shows "r \<in> {ReceiptContinue, ReceiptDetach}" and "p1 \<noteq> Attached"
    and "disposition_ok (es @ [EvCancelAcknowledgement n]) sent p1"
proof -
  have "\<exists>d. d \<in> {Accepted, TooLate} \<and> receipt_of (acknowledge_cancellation d p) = (r, p1)"
    using assms(4,5) cancel_disposition_codes [of CdAccepted] cancel_disposition_codes [of CdTooLate]
    by (auto simp: record_cancellation_acknowledgement_def)
  then obtain d where d: "d \<in> {Accepted, TooLate}" "receipt_of (acknowledge_cancellation d p) = (r, p1)" by blast
  have "cancellation_disposition p \<in> {None, Some Queued}" using assms(1-3) by (auto simp: disposition_ok_def)
  with d show "r \<in> {ReceiptContinue, ReceiptDetach}" "p1 \<noteq> Attached"
      "disposition_ok (es @ [EvCancelAcknowledgement n]) sent p1"
    by (auto simp: acknowledge_cancellation_def receipt_of_def disposition_ok_def cancellation_disposition_def
        split: interrupt_phase.splits if_splits)
qed

lemma session_exit:
  assumes "never_invalid s" and "se_wait s \<in> {WaitDiagnostic, Exited 130, Exited 1, Panicked}"
  shows "session_ok es sent s"
  using assms by (auto simp: session_ok_def session_on_def)

lemma finish_session_ok:
  assumes "session_ok es sent s" and "se_wait s = WaitMessage"
    and "protocol (es @ [EvFinished (Some out)]) \<noteq> None"
  shows "session_ok (es @ [EvFinished (Some out)]) sent (finish_session cf out s)"
proof -
  let ?es = "es @ [EvFinished (Some out)]"
  have on: "session_on s" using assms(2) by (simp add: session_on_def)
  have ni: "never_invalid s" and pr: "protocol es = Some (if se_accepted s then StOpen (ack_codes es \<noteq> []) else StNew)"
    and tx: "se_interrupts s = Attached \<longrightarrow> concat (se_stdout s) = event_text es"
    using assms(1) on by (simp_all add: session_ok_def)
  show ?thesis
  proof (cases out)
    case RpcSuccess
    with pr assms(3) have a: "se_accepted s" by (auto simp: protocol_snoc split: if_splits)
    show ?thesis
    proof (cases "cancellation_requested (se_interrupts s)")
      case True
      with RpcSuccess a show ?thesis using exits_valid(1) [OF ni] by (simp add: finish_session_def session_exit)
    next
      case False
      with RpcSuccess a tx exits_valid(6) [OF ni, of 0] show ?thesis
        by (auto simp: finish_session_def session_ok_def session_on_def cancellation_requested_def exit_with_def)
    qed
  next
    case (RpcFailure f)
    have "se_wait (report_failure cf f s) \<in> {WaitDiagnostic, Panicked}"
      by (simp add: report_failure_def Let_def split: option.splits)
    with RpcFailure show ?thesis using exits_valid(5) [OF ni, of cf f]
      by (auto simp: finish_session_def intro: session_exit)
  next
    case RpcCancelled
    with pr assms(3) have "se_accepted s" by (auto simp: protocol_snoc split: if_splits)
    with RpcCancelled show ?thesis using exits_valid(1) [OF ni] by (simp add: finish_session_def session_exit)
  qed
qed

lemma handle_event_ok:
  assumes "session_ok es sent s" and "se_wait s = WaitMessage" and "protocol (es @ [e]) \<noteq> None"
    and "ack_codes [e] \<noteq> [] \<longrightarrow> sent \<noteq> []"
  shows "session_ok (es @ [e]) sent (handle_event cf (Some e) s)"
proof -
  have on: "session_on s" using assms(2) by (simp add: session_on_def)
  have ni: "never_invalid s" and di: "disposition_ok es sent (se_interrupts s)"
    and pr: "protocol es = Some (if se_accepted s then StOpen (ack_codes es \<noteq> []) else StNew)"
    and tx: "se_interrupts s = Attached \<longrightarrow> concat (se_stdout s) = event_text es"
    using assms(1) on by (simp_all add: session_ok_def)
  note step = protocol_snoc [OF pr, of e]
  show ?thesis
  proof (cases e)
    case EvAccepted
    with assms(3) step have a: "\<not> se_accepted s" by (auto split: if_splits)
    with pr have "es = []" by (auto intro: protocol_new)
    with EvAccepted a di ni tx assms(2) step show ?thesis
      by (auto simp: handle_event_def session_ok_def session_on_def never_invalid_def disposition_ok_def)
  next
    case (EvOutput chunk)
    with assms(3) step have a: "se_accepted s" by (auto split: if_splits)
    with EvOutput assms(3) step have pr1: "protocol (es @ [e]) = Some (StOpen (ack_codes (es @ [e]) \<noteq> []))"
      by (auto split: if_splits)
    have di1: "disposition_ok (es @ [e]) sent (se_interrupts s)" using di EvOutput
      by (cases "ack_codes es = []") (simp_all add: disposition_ok_def)
    show ?thesis
    proof (cases "cancellation_requested (se_interrupts s) \<or> cf_stdout_starts cf")
      case True
      with EvOutput a ni di1 pr1 tx assms(2) show ?thesis
        by (auto simp: handle_event_def print_chunk_def session_ok_def session_on_def never_invalid_def
            cancellation_requested_def)
    next
      case False
      with EvOutput a show ?thesis using exits_valid(4) [OF ni]
        by (simp add: handle_event_def print_chunk_def session_exit)
    qed
  next
    case (EvFinished out)
    then show ?thesis
    proof (cases out)
      case None
      with EvFinished assms(3) step show ?thesis by (auto split: if_splits)
    next
      case (Some x)
      with EvFinished assms show ?thesis by (simp add: handle_event_def finish_session_ok)
    qed
  next
    case (EvCancelAcknowledgement n)
    with assms(3) step have a: "se_accepted s" by (cases "se_accepted s") auto
    with EvCancelAcknowledgement assms(3) step have k: "ack_codes es = []"
      by (cases "ack_codes es = []") auto
    with EvCancelAcknowledgement assms(3) step a have n:
        "n = cancel_disposition_code CdAccepted \<or> n = cancel_disposition_code CdTooLate"
      by (auto split: if_splits)
    from EvCancelAcknowledgement assms(4) have st: "sent \<noteq> []" by simp
    obtain r p1 where rp: "record_cancellation_acknowledgement n (se_interrupts s) = (r, p1)" by fastforce
    note ro = receipt_ok [OF di k st n rp]
    from EvCancelAcknowledgement step a k n have pr1: "protocol (es @ [e]) = Some (StOpen True)" by auto
    have ni1: "never_invalid (s\<lparr>se_interrupts := p1\<rparr>)" using ni by (simp add: never_invalid_def)
    show ?thesis
    proof (cases "r = ReceiptDetach")
      case True
      with EvCancelAcknowledgement a rp show ?thesis using exits_valid(2) [OF ni1]
        by (simp add: handle_event_def handle_acknowledgement_def Let_def session_exit)
    next
      case False
      with ro have "r = ReceiptContinue" by simp
      with EvCancelAcknowledgement a rp ro ni1 pr1 assms(2) show ?thesis
        by (auto simp: handle_event_def handle_acknowledgement_def Let_def session_ok_def session_on_def)
    qed
  qed
qed

lemma note_interrupt_fields [simp]:
  "se_interrupts (note_interrupt i s) = fst (note_phase i (se_interrupts s))"
  "se_stdout (note_interrupt i s) = se_stdout s" "se_accepted (note_interrupt i s) = se_accepted s"
  by (simp_all add: note_interrupt_def diagnostic_def split: prod.splits)

lemma interrupted_ok:
  assumes "session_ok es sent s" and "\<forall>queued. i = IntCancel queued \<longrightarrow> queued = (sent \<noteq> [])"
    and "session_on s \<or> se_wait s = WaitDiagnostic"
  shows "session_ok es sent (interrupted (note_interrupt i s))"
proof -
  let ?n = "note_interrupt i s"
  have ni: "never_invalid ?n" using assms(1) exits_valid(10) by (simp add: session_ok_def)
  show ?thesis
  proof (cases "se_wait s = WaitDiagnostic \<or> detach_requested (se_interrupts ?n)")
    case True
    with assms(3) have "interrupted ?n \<in> {cancelled_exit ?n, detach_exit ?n}"
      by (auto simp: interrupted_def session_on_def)
    with exits_valid(2,7) [OF ni] show ?thesis by (auto intro: session_exit)
  next
    case False
    with assms(3) have on: "session_on s" by simp
    have i: "interrupted ?n = ?n\<lparr>se_wait := if se_wait s = WaitStdout then WaitMessage else se_wait s\<rparr>"
      using False on by (auto simp: interrupted_def session_on_def)
    from assms(1) on have di: "disposition_ok es sent (se_interrupts s)"
      and at: "se_interrupts s = Attached \<longrightarrow> concat (se_stdout s) = event_text es"
      and pr: "protocol es = Some (if se_accepted s then StOpen (ack_codes es \<noteq> []) else StNew)"
      and st: "se_wait s = WaitStart \<longrightarrow> es = []"
      by (simp_all add: session_ok_def)
    have ni1: "never_invalid (interrupted ?n)" unfolding i using ni by (simp add: never_invalid_def)
    have on1: "session_on (interrupted ?n)" "se_wait (interrupted ?n) \<noteq> Exited 0"
      unfolding i using on by (auto simp: session_on_def)
    have f: "se_interrupts (interrupted ?n) = fst (note_phase i (se_interrupts s))"
        "se_stdout (interrupted ?n) = se_stdout s" "se_accepted (interrupted ?n) = se_accepted s"
        "se_wait (interrupted ?n) = WaitStart \<longrightarrow> se_wait s = WaitStart"
      unfolding i by simp_all
    show ?thesis
      unfolding session_ok_def f(1-3)
      using ni1 on1 f(4) st pr at note_disposition [OF di assms(2)] note_attached by metis
  qed
qed

lemma start_response_ok:
  assumes "session_ok es sent s" and "se_wait s = WaitStart"
  shows "session_ok es sent (start_response refused s)"
proof (cases refused)
  case None
  with assms show ?thesis
    by (auto simp: start_response_def session_ok_def session_on_def never_invalid_def)
next
  case (Some st)
  have ni: "never_invalid s" using assms(1) by (simp add: session_ok_def)
  have "se_wait (start_response refused s) \<in> {Exited 130, WaitDiagnostic}"
    using Some by (simp add: start_response_def)
  with exits_valid(9) [OF ni] show ?thesis by (auto intro: session_exit)
qed

lemma lost_ok:
  assumes "session_ok es sent s"
  shows "session_ok es sent (if detach_requested (se_interrupts s) then detach_exit s else lost_response s)"
proof -
  have ni: "never_invalid s" using assms by (simp add: session_ok_def)
  have "se_wait (lost_response s) \<in> {Exited 130, WaitDiagnostic}" by (simp add: lost_response_def)
  with exits_valid(2,3) [OF ni] show ?thesis by (auto intro: session_exit)
qed

lemma stdout_ok:
  assumes "session_ok es sent s" and "se_wait s = WaitStdout"
  shows "session_ok es sent (if ok then s\<lparr>se_wait := WaitMessage\<rparr> else output_failed s)"
proof (cases ok)
  case True
  with assms show ?thesis by (auto simp: session_ok_def session_on_def never_invalid_def)
next
  case False
  have "never_invalid s" using assms(1) by (simp add: session_ok_def)
  with False exits_valid(4) show ?thesis by (auto intro: session_exit)
qed

section \<open>Turns of the client\<close>

text \<open>An exit with 130 needs a signal, or an execution that was cancelled.\<close>

definition stop_has_reason :: "server_event list \<Rightarrow> client \<Rightarrow> bool" where
  "stop_has_reason es c \<longleftrightarrow> cv_signals c \<noteq> AwaitingFirst
     \<or> se_interrupts (cv_session c) = Attached
       \<and> (se_wait (cv_session c) = Exited 130 \<longrightarrow> (\<exists>fs. es = fs @ [EvFinished (Some RpcCancelled)]))"

definition client_ok :: "server_event list \<Rightarrow> client \<Rightarrow> bool" where
  "client_ok es c \<longleftrightarrow> cv_received c = map Some es \<and> session_ok es (cv_sent c) (cv_session c)
     \<and> signals_ok c \<and> stop_has_reason es c"

lemma new_client_ok: "client_ok [] new_client"
  by (simp add: client_ok_def new_client_def session_ok_def new_session_def never_invalid_def session_on_def
      disposition_ok_def cancellation_disposition_def signals_ok_def stop_has_reason_def)

end
