(* ===== verification/Exec_Joint.thy ===== *)
theory Exec_Joint
  imports Exec_Session
begin

text \<open>
  The invariant of the joint system of plugin and client: each side keeps its own, the connection
  delivers a prefix of what was sent, and an acknowledgement implies a request to cancel.
\<close>

section \<open>Turns of the client\<close>

lemma session_turn_cases:
  assumes "session_turn cf ry s = Some (ry1, s1)"
  obtains (interrupt) i "is" where "ry_interrupts ry = i # is" "ry1 = ry\<lparr>ry_interrupts := is\<rparr>"
      "s1 = interrupted (note_interrupt i s)" "session_on s \<or> se_wait s = WaitDiagnostic"
    | (start) refused where "se_wait s = WaitStart" "ry1 = ry\<lparr>ry_start := None\<rparr>" "s1 = start_response refused s"
    | (message) m ms where "se_wait s = WaitMessage" "ry_messages ry = m # ms" "ry1 = ry\<lparr>ry_messages := ms\<rparr>"
        "s1 = handle_message cf m s"
    | (stdout) ok where "se_wait s = WaitStdout" "ry1 = ry\<lparr>ry_stdout := None\<rparr>"
        "s1 = (if ok then s\<lparr>se_wait := WaitMessage\<rparr> else output_failed s)"
    | (diag) "se_wait s = WaitDiagnostic" "ry1 = ry\<lparr>ry_diagnostic := False\<rparr>" "s1 = exit_with 1 s"
proof (cases "ry_interrupts ry")
  case (Cons i "is")
  with assms interrupt show thesis
    by (cases "se_wait s") (auto simp: session_turn_def session_on_def)
next
  case Nil
  show thesis
  proof (cases "se_wait s")
    case WaitStart
    with Nil assms start show thesis by (auto simp: session_turn_def)
  next
    case WaitMessage
    with Nil assms message show thesis by (auto simp: session_turn_def split: list.splits)
  next
    case WaitStdout
    with Nil assms stdout show thesis by (auto simp: session_turn_def)
  next
    case WaitDiagnostic
    with Nil assms diag show thesis by (auto simp: session_turn_def split: if_splits)
  qed (use assms in \<open>auto simp: session_turn_def\<close>)
qed

text \<open>The event the next turn handles, if it handles one.\<close>

definition next_received :: "ready \<Rightarrow> ready \<Rightarrow> server_event option list" where
  "next_received ry ry1 = (if length (ry_messages ry1) < length (ry_messages ry)
     then (case ry_messages ry of RespEvent e # _ \<Rightarrow> [e] | _ \<Rightarrow> []) else [])"

lemma client_turn_unfold:
  "client_turn cf c = (case session_turn cf (cv_ready c) (cv_session c) of
     None \<Rightarrow> c
   | Some (ry, s) \<Rightarrow> c\<lparr>cv_session := s, cv_ready := ry, cv_received := cv_received c @ next_received (cv_ready c) ry\<rparr>)"
  unfolding client_turn_def next_received_def by (rule refl)

lemma exits_interrupts [simp]:
  "se_interrupts (stopped_exit s) = se_interrupts s" "se_interrupts (detach_exit s) = se_interrupts s"
  "se_interrupts (cancelled_exit s) = se_interrupts s" "se_interrupts (exit_with n s) = se_interrupts s"
  "se_interrupts (stopping_connection_lost s) = se_interrupts s" "se_interrupts (output_failed s) = se_interrupts s"
  "se_interrupts (write_diagnostic m s) = se_interrupts s" "se_interrupts (lost_response s) = se_interrupts s"
  "se_interrupts (diagnostic_failure t s) = se_interrupts s" "se_interrupts (invalid_response s) = se_interrupts s"
  "se_interrupts (report_failure cf f s) = se_interrupts s" "se_interrupts (start_response refused s) = se_interrupts s"
  "se_interrupts (finish_session cf out s) = se_interrupts s" "se_interrupts (print_chunk cf chunk s) = se_interrupts s"
  by (auto simp: session_texts invalid_response_def start_response_def finish_session_def print_chunk_def
      split: option.splits rpc_outcome.splits)

lemma interrupted_interrupts [simp]: "se_interrupts (interrupted s) = se_interrupts s"
  by (simp add: interrupted_def split: wait_point.splits)

text \<open>An acknowledgement never brings the disposition back to one made by a signal.\<close>

lemma acknowledgement_disposition:
  "record_cancellation_acknowledgement n p = (r, p1)
    \<Longrightarrow> p1 = p \<or> cancellation_disposition p1 \<in> {Some Accepted, Some TooLate}"
  by (auto simp: record_cancellation_acknowledgement_def acknowledge_cancellation_def receipt_of_def
      cancellation_disposition_def split: option.splits cancel_disposition.splits client_disposition.splits
      interrupt_phase.splits)

lemma handle_event_interrupts:
  "se_interrupts (handle_event cf e s) = se_interrupts s
   \<or> (\<exists>n. e = Some (EvCancelAcknowledgement n)
        \<and> cancellation_disposition (se_interrupts (handle_event cf e s)) \<in> {Some Accepted, Some TooLate})"
proof (cases e)
  case None
  then show ?thesis by (simp add: handle_event_def)
next
  case (Some x)
  show ?thesis
  proof (cases x)
    case (EvCancelAcknowledgement n)
    obtain r p1 where rp: "record_cancellation_acknowledgement n (se_interrupts s) = (r, p1)" by fastforce
    with acknowledgement_disposition [OF rp] EvCancelAcknowledgement Some show ?thesis
      by (auto simp: handle_event_def handle_acknowledgement_def Let_def split: cancellation_receipt.splits)
  qed (use Some in \<open>auto simp: handle_event_def split: option.splits\<close>)
qed

lemma handle_message_interrupts:
  "(\<forall>n. m \<noteq> RespEvent (Some (EvCancelAcknowledgement n))) \<Longrightarrow>
    se_interrupts (handle_message cf m s) = se_interrupts s"
  using handle_event_interrupts [of cf _ s] by (auto simp: handle_message_def split: response_message.splits)

lemma signals_ok_turn:
  assumes "signals_ok c" and "session_turn cf (cv_ready c) (cv_session c) = Some (ry, s)"
  shows "signals_ok (c\<lparr>cv_session := s, cv_ready := ry, cv_received := r\<rparr>)"
  using assms(2)
proof (cases rule: session_turn_cases)
  case (interrupt i "is")
  with assms(1) show ?thesis by (auto simp: signals_ok_def)
next
  case (message m ms)
  have "se_interrupts s = se_interrupts (cv_session c)
      \<or> cancellation_disposition (se_interrupts s) \<in> {Some Accepted, Some TooLate}"
    using handle_event_interrupts [of cf _ "cv_session c"] message(4)
    by (cases m) (auto simp: handle_message_def)
  with message assms(1) show ?thesis by (auto simp: signals_ok_def)
next
  case (stdout ok)
  with assms(1) show ?thesis by (cases ok) (auto simp: signals_ok_def)
qed (use assms(1) in \<open>auto simp: signals_ok_def\<close>)

lemma attached_not_detached [simp]: "\<not> detach_requested Attached" "\<not> cancellation_requested Attached"
  by (simp_all add: detach_requested_def cancellation_requested_def)

lemma report_failure_wait: "se_wait (report_failure cf f s) \<in> {WaitDiagnostic, Panicked}"
  by (simp add: report_failure_def Let_def split: option.splits)

lemma attached_event:
  assumes "se_interrupts s = Attached" and "se_wait s = WaitMessage"
    and "ack_codes [e] = []" and "se_wait (handle_event cf (Some e) s) = Exited 130"
  shows "e = EvFinished (Some RpcCancelled)"
proof (cases e)
  case (EvFinished out)
  have "se_wait (report_failure cf f s) \<noteq> Exited 130" for f using report_failure_wait [of cf f s] by auto
  with EvFinished assms show ?thesis
    by (auto simp: handle_event_def finish_session_def invalid_response_def split: option.splits rpc_outcome.splits if_splits)
qed (use assms in \<open>auto simp: handle_event_def print_chunk_def invalid_response_def split: if_splits\<close>)

lemma attached_turn:
  assumes "se_interrupts s = Attached" and "ry_interrupts ry = []" and "session_turn cf ry s = Some (ry1, s1)"
    and "\<forall>e ms. ry_messages ry = RespEvent (Some e) # ms \<longrightarrow> ack_codes [e] = []"
    and "\<forall>ms. ry_messages ry \<noteq> RespEvent None # ms"
  shows "se_interrupts s1 = Attached \<and> (se_wait s1 = Exited 130 \<longrightarrow>
    next_received ry ry1 = [Some (EvFinished (Some RpcCancelled))])"
  using assms(3)
proof (cases rule: session_turn_cases)
  case (interrupt i "is")
  with assms(2) show ?thesis by simp
next
  case (start refused)
  with assms(1) show ?thesis by (auto simp: start_response_def split: option.splits)
next
  case (message m ms)
  show ?thesis
  proof (cases m)
    case (RespEvent x)
    with message assms(5) obtain e where e: "x = Some e" by auto
    with message RespEvent assms(4) have a: "ack_codes [e] = []" by simp
    then have "se_interrupts s1 = Attached"
      using handle_event_interrupts [of cf x s] message RespEvent e assms(1) by (auto simp: handle_message_def)
    with attached_event [OF assms(1) message(1) a] message RespEvent e show ?thesis
      by (auto simp: handle_message_def next_received_def)
  qed (use message assms(1) in \<open>auto simp: handle_message_def lost_response_def\<close>)
next
  case (stdout ok)
  with assms(1) show ?thesis by (cases ok) auto
next
  case diag
  with assms(1) show ?thesis by simp
qed

lemma session_turn_ok:
  assumes "session_ok es sent s" and "session_turn cf ry s = Some (ry1, s1)"
    and "\<forall>queued. IntCancel queued \<in> set (ry_interrupts ry) \<longrightarrow> queued = (sent \<noteq> [])"
    and "\<forall>e ms. ry_messages ry = RespEvent (Some e) # ms \<longrightarrow>
       protocol (es @ [e]) \<noteq> None \<and> (ack_codes [e] \<noteq> [] \<longrightarrow> sent \<noteq> [])"
    and "\<forall>ms. ry_messages ry \<noteq> RespEvent None # ms"
  shows "\<exists>fs. session_ok (es @ fs) sent s1 \<and> next_received ry ry1 = map Some fs
    \<and> map Some fs @ waiting_events (ry_messages ry1) = waiting_events (ry_messages ry)"
  using assms(2)
proof (cases rule: session_turn_cases)
  case (interrupt i "is")
  with interrupted_ok [OF assms(1), of i] assms(3) show ?thesis by (intro exI [of _ "[]"]) (auto simp: next_received_def)
next
  case (start refused)
  with start_response_ok [OF assms(1)] show ?thesis by (intro exI [of _ "[]"]) (auto simp: next_received_def)
next
  case (message m ms)
  show ?thesis
  proof (cases m)
    case (RespEvent x)
    with message assms(5) obtain e where e: "x = Some e" by auto
    with message RespEvent assms(4) have "protocol (es @ [e]) \<noteq> None" "ack_codes [e] \<noteq> [] \<longrightarrow> sent \<noteq> []"
      by simp_all
    from handle_event_ok [OF assms(1) message(1) this, of cf] message RespEvent e show ?thesis
      by (intro exI [of _ "[e]"]) (auto simp: handle_message_def next_received_def)
  qed (use message lost_ok [OF assms(1)] in \<open>auto simp: handle_message_def next_received_def intro!: exI [of _ "[]"]\<close>)
next
  case (stdout ok)
  with stdout_ok [OF assms(1), of ok] show ?thesis by (intro exI [of _ "[]"]) (auto simp: next_received_def)
next
  case diag
  have "never_invalid (exit_with 1 s)" using assms(1) exits_valid(6) by (simp add: session_ok_def)
  then have "session_ok es sent (exit_with 1 s)" by (intro session_exit) simp_all
  with diag show ?thesis by (intro exI [of _ "[]"]) (auto simp: next_received_def)
qed

lemma client_turn_ok:
  assumes "client_ok es c"
    and "\<forall>e ms. ry_messages (cv_ready c) = RespEvent (Some e) # ms \<longrightarrow>
       protocol (es @ [e]) \<noteq> None \<and> (ack_codes [e] \<noteq> [] \<longrightarrow> cv_sent c \<noteq> [])"
    and "\<forall>ms. ry_messages (cv_ready c) \<noteq> RespEvent None # ms"
  shows "\<exists>fs. client_ok (es @ fs) (client_turn cf c)
    \<and> map Some fs @ waiting_events (ry_messages (cv_ready (client_turn cf c))) = waiting_events (ry_messages (cv_ready c))
    \<and> cv_sent (client_turn cf c) = cv_sent c"
proof (cases "session_turn cf (cv_ready c) (cv_session c)")
  case None
  with assms(1) show ?thesis by (intro exI [of _ "[]"]) (simp add: client_turn_unfold)
next
  case (Some x)
  obtain ry s where x: "x = (ry, s)" by (cases x)
  note t = Some [unfolded x]
  have so: "session_ok es (cv_sent c) (cv_session c)" and sg: "signals_ok c" and sr: "stop_has_reason es c"
    and rc: "cv_received c = map Some es"
    using assms(1) by (simp_all add: client_ok_def)
  have q: "\<forall>queued. IntCancel queued \<in> set (ry_interrupts (cv_ready c)) \<longrightarrow> queued = (cv_sent c \<noteq> [])"
    using sg by (simp add: signals_ok_def)
  from session_turn_ok [OF so t q assms(2,3)] obtain fs where fs: "session_ok (es @ fs) (cv_sent c) s"
      "next_received (cv_ready c) ry = map Some fs"
      "map Some fs @ waiting_events (ry_messages ry) = waiting_events (ry_messages (cv_ready c))" by blast
  let ?c = "c\<lparr>cv_session := s, cv_ready := ry, cv_received := map Some (es @ fs)\<rparr>"
  have c: "client_turn cf c = ?c" using t fs(2) rc by (simp add: client_turn_unfold)
  have "stop_has_reason (es @ fs) ?c"
  proof (cases "cv_signals c = AwaitingFirst")
    case True
    then have i: "ry_interrupts (cv_ready c) = []" "cv_sent c = []" using sg by (simp_all add: signals_ok_def)
    from True sr have at: "se_interrupts (cv_session c) = Attached" by (simp add: stop_has_reason_def)
    have na: "\<forall>e ms. ry_messages (cv_ready c) = RespEvent (Some e) # ms \<longrightarrow> ack_codes [e] = []"
      using assms(2) i(2) by blast
    from attached_turn [OF at i(1) t na assms(3)] fs(2) show ?thesis by (auto simp: stop_has_reason_def)
  next
    case False
    then show ?thesis by (simp add: stop_has_reason_def)
  qed
  with fs signals_ok_turn [OF sg t, of "map Some (es @ fs)"] show ?thesis
    unfolding c by (intro exI [of _ fs]) (simp add: client_ok_def)
qed

end
