(* ===== verification/Rpc_Properties.thy ===== *)
theory Rpc_Properties
  imports Rpc_Call
begin

text \<open>
  The properties of the response streams: the protocol, completeness of the output, and that a call
  whose execution has been answered is polled to its end.
\<close>

section \<open>Progress\<close>

definition queue_length :: "response \<Rightarrow> nat" where
  "queue_length r = (case rs_control r of Some (cs, _) \<Rightarrow> length cs | None \<Rightarrow> 0)"

text \<open>An upper bound on the polls a stream needs once its channel has ended and the answer is there.\<close>

definition polls_left :: "channel \<Rightarrow> response \<Rightarrow> nat" where
  "polls_left ch r = (case rs_phase r of RpSendAccepted \<Rightarrow> 2 | RpDone \<Rightarrow> 0 | _ \<Rightarrow> 1)
     + length (ch_ready ch) + queue_length r"

definition over :: "exec_answer \<Rightarrow> poll \<Rightarrow> bool" where
  "over a p \<longleftrightarrow> p = PollEvent (finished_event (answer_outcome a)) \<or> (\<exists>s. p = PollFailed s)"

lemma turn_progress:
  assumes "response_turn ch (Some a) r = (p, ch1, r1)" and "ch_terminal ch \<noteq> None" and "rs_phase r \<noteq> RpDone"
  shows "over a p \<or> (ch_terminal ch1 \<noteq> None \<and> rs_phase r1 \<noteq> RpDone
    \<and> (p = PollAgain \<and> polls_left ch1 r1 \<le> polls_left ch r
       \<or> (\<exists>e. p = PollEvent e) \<and> polls_left ch1 r1 < polls_left ch r))"
proof (cases r rule: control_recv_cases)
  case none
  with assms show ?thesis
    by (cases "rs_phase r")
      (auto simp: response_turn_def relay_output_def finish_response_def stream_next_chunk_def over_def
        polls_left_def queue_length_def split: list.splits)
next
  case ended
  with assms show ?thesis
    by (cases "rs_phase r")
      (auto simp: response_turn_def handle_control_def polls_left_def queue_length_def)
next
  case (some x cs closed)
  with assms show ?thesis
    by (cases "rs_phase r"; cases x)
      (auto simp: response_turn_def handle_control_def polls_left_def queue_length_def over_def)
qed

lemma next_progress:
  assumes "next_event ch (Some a) r = (p, ch1, r1)" and "ch_terminal ch \<noteq> None" and "rs_phase r \<noteq> RpDone"
  shows "over a p \<or> (ch_terminal ch1 \<noteq> None \<and> rs_phase r1 \<noteq> RpDone \<and> (\<exists>e. p = PollEvent e)
    \<and> polls_left ch1 r1 < polls_left ch r)"
  using assms
proof (induction ch "Some a" r rule: next_event.induct)
  case (1 ch r)
  obtain q c s where t: "response_turn ch (Some a) r = (q, c, s)" using prod_cases3 by blast
  note tp = turn_progress [OF t 1(3,4)]
  show ?case
  proof (cases "q = PollAgain")
    case True
    with tp have k: "ch_terminal c \<noteq> None" "rs_phase s \<noteq> RpDone" "polls_left c s \<le> polls_left ch r"
      by (auto simp: over_def)
    have "next_event c (Some a) s = (p, ch1, r1)" using 1(2) t True by (subst (asm) next_event.simps) simp
    from 1(1) [OF t [symmetric] True refl this k(1,2)] k(3) show ?thesis by auto
  next
    case False
    with 1(2) t have "(q, c, s) = (p, ch1, r1)" by (subst (asm) next_event.simps) (cases q; simp)
    with tp False show ?thesis by auto
  qed
qed

text \<open>The call has told its client the answer, or broken off with a status.\<close>

definition call_over :: "exec_answer \<Rightarrow> call \<Rightarrow> bool" where
  "call_over a c \<longleftrightarrow> ca_status c \<noteq> None \<or> (\<exists>es. ca_sent c = es @ [finished_event (answer_outcome a)])"

lemma poll_progress:
  assumes "ca_response c = Some r" and "ca_answer c = Some a" and "ch_terminal (ca_channel c) \<noteq> None"
    and "rs_phase r \<noteq> RpDone"
  shows "call_over a (call_apply MvPoll c)
    \<or> (\<exists>r1. ca_response (call_apply MvPoll c) = Some r1 \<and> ca_answer (call_apply MvPoll c) = Some a
         \<and> ch_terminal (ca_channel (call_apply MvPoll c)) \<noteq> None \<and> rs_phase r1 \<noteq> RpDone
         \<and> polls_left (ca_channel (call_apply MvPoll c)) r1 < polls_left (ca_channel c) r)"
proof -
  obtain p ch1 r1 where n: "next_event (ca_channel c) (Some a) r = (p, ch1, r1)" using prod_cases3 by blast
  from next_progress [OF n assms(3,4)] show ?thesis
    using n assms(1,2)
    by (auto simp: call_apply_def poll_response_def record_poll_def over_def call_over_def)
qed

lemma polls_finish:
  assumes "ca_response c = Some r" and "ca_answer c = Some a" and "ch_terminal (ca_channel c) \<noteq> None"
    and "rs_phase r \<noteq> RpDone" and "polls_left (ca_channel c) r \<le> n"
  shows "\<exists>k\<le>n. call_over a (call_run (replicate k MvPoll) c)"
  using assms
proof (induction n arbitrary: c r)
  case 0
  from poll_progress [OF 0(1-4)] 0(4,5) show ?case by (cases "rs_phase r") (auto simp: polls_left_def)
next
  case (Suc n)
  from poll_progress [OF Suc.prems(1-4)] show ?case
  proof (elim disjE exE conjE)
    assume "call_over a (call_apply MvPoll c)"
    then show ?case by (intro exI [of _ 1]) simp
  next
    fix r1
    assume s: "ca_response (call_apply MvPoll c) = Some r1" "ca_answer (call_apply MvPoll c) = Some a"
      "ch_terminal (ca_channel (call_apply MvPoll c)) \<noteq> None" "rs_phase r1 \<noteq> RpDone"
      "polls_left (ca_channel (call_apply MvPoll c)) r1 < polls_left (ca_channel c) r"
    with Suc.IH [OF s(1-4)] Suc.prems(5) obtain k where "k \<le> n" "call_over a (call_run (replicate k MvPoll) (call_apply MvPoll c))"
      by auto
    then show ?case by (intro exI [of _ "Suc k"]) simp
  qed
qed

section \<open>Properties\<close>

definition sample_source :: "byte list" where
  "sample_source = as_bytes (lit ''(a)'')"

lemma sample_exec_new: "\<exists>e. exec_new ExecMode (lit ''s'') sample_source = Inr (e, new_channel)"
proof -
  have "(case exec_new ExecMode (lit ''s'') sample_source of Inr (_, ch) \<Rightarrow> ch = new_channel | Inl _ \<Rightarrow> False)"
    by code_simp
  then show ?thesis by (auto split: sum.splits prod.splits)
qed

text \<open>Output, a cancellation that is accepted, and its end.\<close>

definition sample_call_moves :: "call_move list" where
  "sample_call_moves = [MvPoll, MvProduce (OpEmit (lit ''hi'')), MvInbound (InMessage (Some MsgCancel)) CancelAccepted,
     MvProduce OpCancel, MvSend, MvPoll, MvPoll, MvAnswer (Inr OutCancelled), MvPoll]"

text \<open>C9. Every response stream of an execution follows the protocol: it is accepted, then come output chunks
  within bounds and at most one acknowledgement, and last, once, the answer the scheduler gave.  The
  acknowledgement is the answer to the one time the scheduler was asked to cancel.\<close>

theorem response_protocol:
  assumes "exec_new mode name bytes = Inr (e, ch)" and "list_all move_ok moves"
    and "c = call_run moves (new_call ch)"
  shows "(\<exists>g. protocol (ca_sent c) = Some g
      \<and> (g = StClosed \<longrightarrow> (\<exists>a es. ca_answer c = Some a \<and> ca_sent c = es @ [finished_event (answer_outcome a)])))
    \<and> ca_cancels c \<le> 1
    \<and> (ack_codes (ca_sent c) = [] \<or> ca_cancels c = 1
         \<and> map_option cancel_disposition_code (rd_disposition (ca_reader c)) = Some (hd (ack_codes (ca_sent c))))"
proof -
  have ok: "call_ok c" using assms call_run_ok new_call_ok exec_new_flows by blast
  then have once: "asks_once (ca_reader c) (ca_cancels c)" by (simp add: call_ok_def)
  from call_sent_ok [OF ok] obtain rest where
      ak: "ack_codes (ca_sent c) @ rest = disposition_codes (ca_reader c)"
    and pr: "\<exists>g. protocol (ca_sent c) = Some g \<and> (g = StClosed \<longrightarrow> finished_with (ca_answer c) (ca_sent c))"
    by (auto simp: sent_ok_def acks_kept_def)
  have "ack_codes (ca_sent c) = [] \<or> ca_cancels c = 1
      \<and> map_option cancel_disposition_code (rd_disposition (ca_reader c)) = Some (hd (ack_codes (ca_sent c)))"
    using ak once by (cases "rd_disposition (ca_reader c)"; cases "ack_codes (ca_sent c)")
      (auto simp: disposition_codes_def asks_once_def)
  with pr once show ?thesis unfolding finished_with_def asks_once_def by blast
qed

theorem response_protocol_witness:
  "ca_sent (call_run sample_call_moves (new_call new_channel))
     = [EvAccepted, EvCancelAcknowledgement 1, EvOutput (lit ''hi''), EvFinished (Some RpcCancelled)]
   \<and> (\<exists>g. protocol (ca_sent (call_run sample_call_moves (new_call new_channel))) = Some g)"
proof -
  obtain e where e: "exec_new ExecMode (lit ''s'') sample_source = Inr (e, new_channel)"
    using sample_exec_new by blast
  have "list_all move_ok sample_call_moves" by code_simp
  from response_protocol [OF e this refl]
  have "\<exists>g. protocol (ca_sent (call_run sample_call_moves (new_call new_channel))) = Some g" by blast
  moreover have "ca_sent (call_run sample_call_moves (new_call new_channel))
     = [EvAccepted, EvCancelAcknowledgement 1, EvOutput (lit ''hi''), EvFinished (Some RpcCancelled)]" by code_simp
  ultimately show ?thesis by blast
qed

text \<open>C10. The events carry the output of the execution: what the client was sent is always a beginning of what
  the channel took, and if the stream has finished and the channel was ended by finishing or by
  cancelling, it is all of it.\<close>

theorem response_complete:
  assumes "exec_new mode name bytes = Inr (e, ch)" and "list_all move_ok moves"
    and "c = call_run moves (new_call ch)"
  shows "(\<exists>rest. ca_accepted c = event_text (ca_sent c) @ rest)
    \<and> (ca_response c \<noteq> None \<and> protocol (ca_sent c) = Some StClosed
         \<and> ch_terminal (ca_channel c) \<in> {Some TFinished, Some TCancelled}
       \<longrightarrow> ca_accepted c = event_text (ca_sent c))"
proof -
  have ok: "call_ok c" using assms call_run_ok new_call_ok exec_new_flows by blast
  then have fl: "flows (ca_sent c) (ca_channel c) (ca_accepted c)" by (simp add: call_sent_ok [unfolded sent_ok_def])
  moreover have "ca_accepted c = event_text (ca_sent c)"
    if r: "ca_response c \<noteq> None" and p: "protocol (ca_sent c) = Some StClosed"
      and t: "ch_terminal (ca_channel c) \<in> {Some TFinished, Some TCancelled}"
  proof -
    obtain r where "ca_response c = Some r" using r by blast
    with ok p have "drained (ca_channel c)"
      by (auto simp: call_ok_def stream_ok_def in_step_def stage_of_def split: response_phase.splits)
    with fl have "content (ca_channel c) = []" by (simp add: drained_def flows_def content_def)
    with fl t show ?thesis by (auto simp: flows_def terminal_rank_def)
  qed
  moreover have "\<exists>rest. ca_accepted c = event_text (ca_sent c) @ rest"
    using fl unfolding flows_def by metis
  ultimately show ?thesis by blast
qed

theorem response_complete_witness:
  "ca_accepted (call_run sample_call_moves (new_call new_channel)) = lit ''hi''
   \<and> event_text (ca_sent (call_run sample_call_moves (new_call new_channel))) = lit ''hi''"
proof -
  let ?c = "call_run sample_call_moves (new_call new_channel)"
  obtain e where e: "exec_new ExecMode (lit ''s'') sample_source = Inr (e, new_channel)"
    using sample_exec_new by blast
  have "list_all move_ok sample_call_moves" by code_simp
  from response_complete [OF e this refl]
  have "ca_response ?c \<noteq> None \<and> protocol (ca_sent ?c) = Some StClosed
      \<and> ch_terminal (ca_channel ?c) \<in> {Some TFinished, Some TCancelled}
    \<longrightarrow> ca_accepted ?c = event_text (ca_sent ?c)" by blast
  moreover have "ca_response ?c \<noteq> None" "protocol (ca_sent ?c) = Some StClosed"
    "ch_terminal (ca_channel ?c) \<in> {Some TFinished, Some TCancelled}" "ca_accepted ?c = lit ''hi''" by code_simp+
  ultimately show ?thesis by metis
qed

text \<open>C11. A call that has been answered and whose channel has ended does not hang: left to itself, within as
  many polls as there are chunks and control messages waiting, and two more, the stream has told
  the client the answer or has broken off with a status.\<close>

theorem response_finishes:
  assumes "ca_response c = Some r" and "rs_phase r \<noteq> RpDone" and "ca_answer c = Some a"
    and "ch_terminal (ca_channel c) \<noteq> None"
  shows "\<exists>k\<le>length (ch_ready (ca_channel c)) + queue_length r + 2. call_over a (call_run (replicate k MvPoll) c)"
  by (rule polls_finish [OF assms(1,3,4,2)]) (simp add: polls_left_def split: response_phase.splits)

definition sample_answered :: call where
  "sample_answered = call_run [MvProduce (OpEmit (lit ''hi'')), MvProduce OpFinish, MvAnswer (Inr OutSuccess)]
     (new_call new_channel)"

theorem response_finishes_witness:
  "\<exists>k\<le>3. call_over (Inr OutSuccess) (call_run (replicate k MvPoll) sample_answered)"
proof -
  have "ca_response sample_answered = Some new_response" "rs_phase new_response \<noteq> RpDone"
    "ca_answer sample_answered = Some (Inr OutSuccess)" "ch_terminal (ca_channel sample_answered) \<noteq> None"
    by code_simp+
  from response_finishes [OF this] have
    "\<exists>k\<le>length (ch_ready (ca_channel sample_answered)) + queue_length new_response + 2.
       call_over (Inr OutSuccess) (call_run (replicate k MvPoll) sample_answered)" .
  moreover have "length (ch_ready (ca_channel sample_answered)) + queue_length new_response + 2 = 3" by code_simp
  ultimately show ?thesis by (simp only:)
qed

end
