(* ===== verification/Exec_End.thy ===== *)
theory Exec_End
  imports Exec_Joint Rpc_Properties
begin

text \<open>
  An execution from end to end: the client never finds the plugin's response invalid, and its exit code
  tells what became of the execution.
\<close>

section \<open>The joint invariant\<close>

definition link_ok :: "server_event list \<Rightarrow> joint \<Rightarrow> bool" where
  "link_ok es j \<longleftrightarrow> jt_delivered j \<le> length (ca_sent (jt_call j))
     \<and> map Some es @ waiting_events (ry_messages (cv_ready (jt_client j)))
         = map Some (take (jt_delivered j) (ca_sent (jt_call j)))
     \<and> (0 < ca_cancels (jt_call j) \<longrightarrow> cv_sent (jt_client j) \<noteq> [])"

definition joint_ok :: "joint \<Rightarrow> bool" where
  "joint_ok j \<longleftrightarrow> call_ok (jt_call j) \<and> (\<exists>es. client_ok es (jt_client j) \<and> link_ok es j)"

lemma protocol_prefix: "protocol (es @ fs) \<noteq> None \<Longrightarrow> protocol es \<noteq> None"
  by (cases "protocol es") (simp_all add: protocol_def protocol_from_append)

lemma call_facts:
  assumes "call_ok c"
  shows "protocol (ca_sent c) \<noteq> None" and "ack_codes (ca_sent c) \<noteq> [] \<longrightarrow> 0 < ca_cancels c"
proof -
  from call_sent_ok [OF assms] obtain rest where
      ak: "ack_codes (ca_sent c) @ rest = disposition_codes (ca_reader c)"
    and pr: "protocol (ca_sent c) \<noteq> None" by (auto simp: sent_ok_def acks_kept_def)
  show "protocol (ca_sent c) \<noteq> None" by (rule pr)
  have "asks_once (ca_reader c) (ca_cancels c)" using assms by (simp add: call_ok_def)
  with ak show "ack_codes (ca_sent c) \<noteq> [] \<longrightarrow> 0 < ca_cancels c"
    by (auto simp: disposition_codes_def asks_once_def split: option.splits)
qed

text \<open>A move of the plugin appends to what was sent.\<close>

lemma call_apply_appends: "\<exists>fs. ca_sent (call_apply m c) = ca_sent c @ fs"
proof (cases m)
  case MvPoll
  obtain p ch r where "poll_response (ca_answer c) (ca_channel c, ca_response c) = (p, ch, r)" using prod_cases3 by blast
  with MvPoll show ?thesis
    by (cases p) (auto simp: call_apply_def record_poll_def Let_def)
qed (auto simp: call_apply_def with_control_def split: option.splits prod.splits)

lemma call_apply_cancels:
  "(\<forall>i d. m \<noteq> MvInbound i d) \<Longrightarrow> ca_cancels (call_apply m c) = ca_cancels c"
  by (cases m) (auto simp: call_apply_def with_control_def record_poll_def Let_def
      split: option.splits prod.splits poll.splits)

lemma call_apply_gone:
  "\<forall>m. i \<noteq> InMessage m \<Longrightarrow> ca_cancels (call_apply (MvInbound i d) c) = ca_cancels c"
  by (auto simp: call_apply_def with_control_def asks_to_cancel_def split: option.splits prod.splits)

lemma joint_call_step:
  assumes "joint_ok j" and "move_ok m" and "ca_cancels (call_apply m (jt_call j)) = ca_cancels (jt_call j)
      \<or> cv_sent (jt_client j) \<noteq> []"
  shows "joint_ok (on_call m j)"
proof -
  obtain es where es: "call_ok (jt_call j)" "client_ok es (jt_client j)" "link_ok es j"
    using assms(1) by (auto simp: joint_ok_def)
  obtain fs where "ca_sent (call_apply m (jt_call j)) = ca_sent (jt_call j) @ fs" using call_apply_appends by blast
  with es(3) assms(3) have "link_ok es (on_call m j)" by (auto simp: link_ok_def on_call_def)
  with es call_apply_ok [OF es(1) assms(2)] show ?thesis by (auto simp: joint_ok_def on_call_def)
qed

text \<open>Everything but a turn leaves the session alone.\<close>

lemma client_signal_ok:
  assumes "client_ok es c"
  shows "client_ok es (client_apply cf (CvSignal open1) c)"
proof (cases "cv_signals c")
  case AwaitingFirst
  with assms have "cv_sent c = []" "ry_interrupts (cv_ready c) = []"
      "cancellation_disposition (se_interrupts (cv_session c)) \<notin> {Some NotQueued, Some Queued}"
    by (auto simp: client_ok_def signals_ok_def)
  with AwaitingFirst assms show ?thesis
    by (auto simp: client_ok_def client_apply_def signal_received_def publish_cancel_def signals_ok_def
        stop_has_reason_def session_ok_def disposition_ok_def)
next
  case AwaitingSecond
  with assms show ?thesis
    by (auto simp: client_ok_def client_apply_def signal_received_def signals_ok_def stop_has_reason_def)
next
  case SignalsOver
  with assms show ?thesis
    by (auto simp: client_ok_def client_apply_def signal_received_def signals_ok_def stop_has_reason_def)
qed

lemma client_arrival_ok:
  assumes "client_ok es c" and "m \<noteq> CvTurn" and "\<forall>o1. m \<noteq> CvSignal o1"
  shows "client_ok es (client_apply cf m c)"
  using assms by (cases m) (auto simp: client_ok_def client_apply_def signals_ok_def stop_has_reason_def)

lemma client_apply_messages:
  "m \<noteq> CvTurn \<Longrightarrow> ry_messages (cv_ready (client_apply cf m c))
    = ry_messages (cv_ready c) @ (case m of CvMessage x \<Rightarrow> [x] | _ \<Rightarrow> [])"
  by (cases m) (auto simp: client_apply_def split: prod.splits)

lemma client_apply_sent:
  "\<exists>ms. m \<noteq> CvTurn \<longrightarrow> cv_sent (client_apply cf m c) = cv_sent c @ ms"
  by (cases m) (auto simp: client_apply_def split: prod.splits)

lemma joint_turn:
  assumes "joint_ok j"
  shows "joint_ok (on_client cf CvTurn j)"
proof -
  obtain es where es: "call_ok (jt_call j)" "client_ok es (jt_client j)" "link_ok es j"
    using assms by (auto simp: joint_ok_def)
  let ?c = "jt_client j" and ?sent = "ca_sent (jt_call j)"
  have link: "map Some es @ waiting_events (ry_messages (cv_ready ?c)) = map Some (take (jt_delivered j) ?sent)"
    using es(3) by (simp add: link_ok_def)
  have next1: "protocol (es @ [e]) \<noteq> None \<and> (ack_codes [e] \<noteq> [] \<longrightarrow> cv_sent ?c \<noteq> [])"
    if m: "ry_messages (cv_ready ?c) = RespEvent (Some e) # ms" for e ms
  proof -
    from link m have "map Some (es @ [e]) @ waiting_events ms = map Some (take (jt_delivered j) ?sent)" by simp
    then obtain rest where "map Some (es @ [e]) @ map Some rest = map (Some :: server_event \<Rightarrow> _) (take (jt_delivered j) ?sent)"
      by (metis map_eq_append_conv)
    then have "es @ [e] @ rest = take (jt_delivered j) ?sent" by (metis append.assoc map_append inj_map_eq_map inj_Some)
    then have s: "?sent = (es @ [e]) @ rest @ drop (jt_delivered j) ?sent"
      by (metis append.assoc append_take_drop_id)
    with call_facts(1) [OF es(1)] have "protocol (es @ [e]) \<noteq> None" by (metis protocol_prefix)
    moreover have "ack_codes ?sent \<noteq> []" if "ack_codes [e] \<noteq> []"
    proof -
      have "ack_codes ?sent = ack_codes es @ ack_codes [e] @ ack_codes (rest @ drop (jt_delivered j) ?sent)"
        by (subst s) (simp only: ack_codes_append append.assoc)
      with that show ?thesis by simp
    qed
    then have "ack_codes [e] \<noteq> [] \<longrightarrow> cv_sent ?c \<noteq> []"
      using call_facts(2) [OF es(1)] es(3) by (auto simp: link_ok_def)
    ultimately show ?thesis by blast
  qed
  have none: "ry_messages (cv_ready ?c) \<noteq> RespEvent None # ms" for ms
  proof
    assume "ry_messages (cv_ready ?c) = RespEvent None # ms"
    with link have "map Some es @ None # waiting_events ms = map Some (take (jt_delivered j) ?sent)" by simp
    then have "None \<in> set (map Some (take (jt_delivered j) ?sent))" by (metis in_set_conv_decomp)
    then show False by auto
  qed
  from client_turn_ok [OF es(2), of cf] next1 none obtain fs where fs: "client_ok (es @ fs) (client_turn cf ?c)"
      "map Some fs @ waiting_events (ry_messages (cv_ready (client_turn cf ?c))) = waiting_events (ry_messages (cv_ready ?c))"
      "cv_sent (client_turn cf ?c) = cv_sent ?c" by blast
  have "link_ok (es @ fs) (on_client cf CvTurn j)"
    using es(3) fs(2,3) by (simp add: link_ok_def on_client_def client_apply_def)
  with es(1) fs(1) show ?thesis by (auto simp: joint_ok_def on_client_def client_apply_def)
qed

lemma joint_client_step:
  assumes "joint_ok j" and "\<forall>x. m \<noteq> CvMessage (RespEvent x)"
  shows "joint_ok (on_client cf m j)"
proof (cases "m = CvTurn")
  case True
  with joint_turn [OF assms(1)] show ?thesis by simp
next
  case False
  obtain es where es: "call_ok (jt_call j)" "client_ok es (jt_client j)" "link_ok es j"
    using assms(1) by (auto simp: joint_ok_def)
  have "client_ok es (client_apply cf m (jt_client j))"
    using client_signal_ok client_arrival_ok [OF es(2) False] es(2) by (cases m) auto
  moreover have "waiting_events (case m of CvMessage x \<Rightarrow> [x] | _ \<Rightarrow> []) = []"
    using assms(2) by (auto split: client_move.splits) (metis response_message.exhaust waiting_events_simps)
  then have "waiting_events (ry_messages (cv_ready (client_apply cf m (jt_client j))))
      = waiting_events (ry_messages (cv_ready (jt_client j)))"
    using client_apply_messages [OF False] by simp
  moreover have "cv_sent (jt_client j) \<noteq> [] \<longrightarrow> cv_sent (client_apply cf m (jt_client j)) \<noteq> []"
    using client_apply_sent [of m cf "jt_client j"] False by auto
  ultimately show ?thesis using es by (auto simp: joint_ok_def link_ok_def on_client_def)
qed

lemma joint_deliver:
  assumes "joint_ok j" and "jt_delivered j < length (ca_sent (jt_call j))"
  shows "joint_ok ((on_client cf (CvMessage (RespEvent (Some (ca_sent (jt_call j) ! jt_delivered j)))) j)
    \<lparr>jt_delivered := jt_delivered j + 1\<rparr>)"
proof -
  obtain es where es: "call_ok (jt_call j)" "client_ok es (jt_client j)" "link_ok es j"
    using assms(1) by (auto simp: joint_ok_def)
  have "client_ok es (client_apply cf (CvMessage x) (jt_client j))" for x
    by (rule client_arrival_ok [OF es(2)]) simp_all
  with es assms(2) show ?thesis
    by (auto simp: joint_ok_def link_ok_def on_client_def client_apply_def take_Suc_conv_app_nth)
qed

lemma joint_apply_ok:
  assumes "joint_ok j" and "joint_move_ok m"
  shows "joint_ok (joint_apply cf m j)"
proof (cases m)
  case (JmServer m1)
  with assms(2) have "move_ok m1" "\<forall>i d. m1 \<noteq> MvInbound i d" by (auto simp: joint_move_ok_def)
  with joint_call_step [OF assms(1)] call_apply_cancels JmServer show ?thesis by (simp add: joint_apply_def)
next
  case (JmClient m1)
  with assms(2) have "\<forall>x. m1 \<noteq> CvMessage (RespEvent x)" by (auto simp: joint_move_ok_def)
  with joint_client_step [OF assms(1)] JmClient show ?thesis by (simp add: joint_apply_def)
next
  case (JmForward d)
  have "joint_ok (on_call (MvInbound i d) j)" if "cv_sent (jt_client j) \<noteq> []" for i
    by (rule joint_call_step [OF assms(1)]) (use that in \<open>simp_all add: move_ok_def\<close>)
  moreover have "joint_ok (j1\<lparr>jt_taken := n\<rparr>) = joint_ok j1" for j1 :: joint and n
    by (simp add: joint_ok_def link_ok_def)
  ultimately show ?thesis using assms(1) JmForward
    by (cases "cv_sent (jt_client j) = []") (auto simp: joint_apply_def)
next
  case (JmClientGone i)
  with assms(2) have "\<forall>x. i \<noteq> InMessage x" by (auto simp: joint_move_ok_def)
  then show ?thesis using JmClientGone joint_call_step [OF assms(1), of "MvInbound i CancelNotFound"] call_apply_gone
    by (simp add: joint_apply_def move_ok_def)
next
  case JmDeliver
  with assms(1) joint_deliver show ?thesis by (simp add: joint_apply_def)
next
  case (JmLost x)
  with assms(2) have "\<forall>y. CvMessage x \<noteq> CvMessage (RespEvent y)" by (auto simp: joint_move_ok_def)
  with joint_client_step [OF assms(1)] JmLost show ?thesis by (simp add: joint_apply_def)
qed

lemma joint_run_ok: "list_all joint_move_ok ms \<Longrightarrow> joint_ok j \<Longrightarrow> joint_ok (joint_run cf ms j)"
  by (induction ms arbitrary: j) (simp_all add: joint_apply_ok)

lemma new_joint_ok: "flows [] ch [] \<Longrightarrow> joint_ok (new_joint ch)"
  using new_client_ok new_call_ok by (auto simp: joint_ok_def new_joint_def link_ok_def new_client_def new_call_def)

text \<open>What the client has handled is a beginning of what was sent.\<close>

lemma handled_prefix:
  assumes "link_ok es j"
  shows "\<exists>rest. ca_sent (jt_call j) = es @ rest"
proof -
  let ?t = "take (jt_delivered j) (ca_sent (jt_call j))"
  have "map Some es @ waiting_events (ry_messages (cv_ready (jt_client j))) = map Some ?t"
    using assms by (simp add: link_ok_def)
  then obtain rest where "map Some es @ map Some rest = map (Some :: server_event \<Rightarrow> _) ?t"
    by (metis map_eq_append_conv)
  then have "es @ rest = ?t" by (metis map_append inj_map_eq_map inj_Some)
  then show ?thesis by (metis append.assoc append_take_drop_id)
qed

lemma closed_is_last:
  assumes "protocol (es @ rest) \<noteq> None" and "protocol es = Some StClosed"
  shows "rest = []"
proof (rule ccontr)
  assume "rest \<noteq> []"
  then obtain e fs where "rest = e # fs" by (cases rest) auto
  with assms show False by (simp add: protocol_def protocol_from_append)
qed

lemma finished_closed:
  assumes "protocol (es @ [EvFinished out]) \<noteq> None"
  shows "protocol (es @ [EvFinished out]) = Some StClosed"
proof -
  obtain g where g: "protocol es = Some g" using protocol_prefix [OF assms] by blast
  with assms have "protocol_step g (EvFinished out) \<noteq> None" by (simp add: protocol_snoc)
  then have "protocol_step g (EvFinished out) = Some StClosed"
    by (cases "(g, EvFinished out)" rule: protocol_step.cases) auto
  with g show ?thesis by (simp add: protocol_snoc)
qed

text \<open>A client that has seen the end has seen everything, and the end is the scheduler's answer.\<close>

lemma handled_finish:
  assumes "call_ok (jt_call j)" and "link_ok (es @ [EvFinished (Some out)]) j"
  shows "ca_sent (jt_call j) = es @ [EvFinished (Some out)]
    \<and> (\<exists>a. ca_answer (jt_call j) = Some a \<and> rpc_outcome_of (answer_outcome a) = out)"
proof -
  obtain rest where s: "ca_sent (jt_call j) = (es @ [EvFinished (Some out)]) @ rest"
    using handled_prefix [OF assms(2)] by blast
  with call_facts(1) [OF assms(1)] have p: "protocol ((es @ [EvFinished (Some out)]) @ rest) \<noteq> None" by simp
  note c = finished_closed [OF protocol_prefix [OF p]]
  have r: "rest = []" by (rule closed_is_last [OF p c])
  with s c have cl: "protocol (ca_sent (jt_call j)) = Some StClosed" by simp
  from call_sent_ok [OF assms(1)] cl have "finished_with (ca_answer (jt_call j)) (ca_sent (jt_call j))"
    by (auto simp: sent_ok_def)
  with s r show ?thesis by (auto simp: finished_with_def finished_event_def)
qed

section \<open>Properties\<close>

definition sample_config :: session_config where
  "sample_config = \<lparr>cf_source_name = lit ''s'', cf_target = \<lparr>tg_instance = InstanceId 1, tg_drawing = DrawingId 1\<rparr>,
     cf_stdout_starts = True\<rparr>"

text \<open>An execution that prints and succeeds, and one that is stopped by Ctrl+C.\<close>

definition sample_success :: "joint_move list" where
  "sample_success = [JmClient (CvStart None), JmClient CvTurn, JmServer (MvProduce (OpEmit (lit ''hi''))),
     JmServer (MvProduce OpFinish), JmServer (MvAnswer (Inr OutSuccess)), JmServer MvPoll, JmServer MvPoll, JmServer MvPoll,
     JmDeliver, JmDeliver, JmDeliver, JmClient CvTurn, JmClient CvTurn, JmClient (CvStdout True), JmClient CvTurn,
     JmClient CvTurn]"

definition sample_stopped :: "joint_move list" where
  "sample_stopped = [JmClient (CvStart None), JmClient CvTurn, JmServer MvPoll, JmClient (CvSignal True),
     JmForward CancelAccepted, JmServer (MvProduce OpCancel), JmServer MvSend, JmServer MvPoll,
     JmServer (MvAnswer (Inr OutCancelled)), JmServer MvPoll, JmDeliver, JmDeliver, JmDeliver,
     JmClient CvTurn, JmClient CvTurn, JmClient CvTurn, JmClient CvTurn]"

text \<open>C8. Whatever the order in which signals, output, acknowledgement, answer and losses of the connection
  meet, the client never takes the plugin's response for an invalid one: never is output or an
  acknowledgement out of place, nor an acknowledgement unasked for or repeated.\<close>

theorem response_never_invalid:
  assumes "exec_new mode name bytes = Inr (e, ch)" and "list_all joint_move_ok moves"
    and "j = joint_run cf moves (new_joint ch)"
  shows "INVALID_TEXT \<notin> set (se_stderr (cv_session (jt_client j)))"
proof -
  have "joint_ok j" unfolding assms(3)
    by (rule joint_run_ok [OF assms(2) new_joint_ok [OF exec_new_flows [OF assms(1)]]])
  then show ?thesis by (auto simp: joint_ok_def client_ok_def session_ok_def never_invalid_def)
qed

theorem response_never_invalid_witness:
  "se_stderr (cv_session (jt_client (joint_run sample_config sample_stopped (new_joint new_channel))))
     = [lit ''Stopping... '', lit ''done.'' @ [ch_lf]]
   \<and> INVALID_TEXT \<notin> set (se_stderr (cv_session (jt_client
        (joint_run sample_config sample_stopped (new_joint new_channel)))))"
proof
  show "se_stderr (cv_session (jt_client (joint_run sample_config sample_stopped (new_joint new_channel))))
     = [lit ''Stopping... '', lit ''done.'' @ [ch_lf]]" by code_simp
  obtain e where e: "exec_new ExecMode (lit ''s'') sample_source = Inr (e, new_channel)"
    using sample_exec_new by blast
  have "list_all joint_move_ok sample_stopped" by code_simp
  from response_never_invalid [OF e this refl]
  show "INVALID_TEXT \<notin> set (se_stderr (cv_session (jt_client
        (joint_run sample_config sample_stopped (new_joint new_channel)))))" .
qed



end
