(* ===== verification/Client_Source.thy ===== *)
theory Client_Source
  imports Client_Messages
begin

text \<open>
  Loading a source on the client, \<open>crates/cli/src/source.rs\<close>, and that the plugin accepts what the client
  accepted.  A reader is the list of what its calls of \<open>read\<close> will come to; the file system's
  answers to opening a path are a parameter.  Running out of memory is left out, the capacity the
  code asks for is not.
\<close>

section \<open>Reading\<close>

datatype read_error = RdNotFound | RdPermissionDenied | RdBrokenPipe | RdInvalidData | RdTimedOut | RdOther

text \<open>A call of \<open>read\<close> finds data (and leaves what does not fit), is interrupted, or fails; with nothing
  left it returns zero.\<close>

datatype read_event = RdData "byte list" | RdInterrupted | RdFailed read_error

type_synonym read_source = "read_event list"

definition UTF8_BOM :: "byte list" where "UTF8_BOM = [0xEF, 0xBB, 0xBF]"
definition READ_BUFFER_BYTES :: nat where "READ_BUFFER_BYTES = 64 * 1024"
definition MAX_RAW_SOURCE_BYTES :: nat where
  "MAX_RAW_SOURCE_BYTES = MAX_EXECUTION_SOURCE_BYTES + length UTF8_BOM + 1"

text \<open>The capacity asked for when \<open>needed\<close> bytes do not fit: doubled, at least what is needed, at most the
  limit.\<close>

definition grown_capacity :: "nat \<Rightarrow> nat \<Rightarrow> nat" where
  "grown_capacity capacity needed =
     (if needed > capacity then
        min (max (if capacity = 0 then READ_BUFFER_BYTES else sat_add64 capacity capacity) needed) MAX_RAW_SOURCE_BYTES
      else capacity)"

text \<open>The loop, with the bytes read so far and the capacity; each turn uses up part of the reader.\<close>

fun reader_size :: "read_source \<Rightarrow> nat" where
  "reader_size [] = 0"
| "reader_size (RdData bs # rs) = Suc (length bs) + reader_size rs"
| "reader_size (_ # rs) = Suc (reader_size rs)"

text \<open>One call of \<open>read\<close> with room for \<open>n\<close> bytes.\<close>

definition read_some :: "nat \<Rightarrow> byte list \<Rightarrow> read_source \<Rightarrow> byte list \<times> read_source" where
  "read_some n bs rs = (take n bs, if length bs \<le> n then rs else RdData (drop n bs) # rs)"

lemma drop_shorter: "0 < n \<Longrightarrow> bs \<noteq> [] \<Longrightarrow> length (drop n bs) < length bs"
  by (cases bs) auto

function read_loop :: "read_source \<Rightarrow> nat \<Rightarrow> byte list \<Rightarrow> read_error + (byte list \<times> nat)" where
  "read_loop rs capacity bytes =
     (if \<not> length bytes < MAX_RAW_SOURCE_BYTES then Inr (bytes, capacity)
      else (case rs of
          [] \<Rightarrow> Inr (bytes, capacity)
        | RdInterrupted # rs1 \<Rightarrow> read_loop rs1 capacity bytes
        | RdFailed e # _ \<Rightarrow> Inl e
        | RdData bs # rs1 \<Rightarrow>
            if bs = [] then Inr (bytes, capacity)
            else
              read_loop (snd (read_some (min (MAX_RAW_SOURCE_BYTES - length bytes) READ_BUFFER_BYTES) bs rs1))
                (grown_capacity capacity (length bytes
                   + length (fst (read_some (min (MAX_RAW_SOURCE_BYTES - length bytes) READ_BUFFER_BYTES) bs rs1))))
                (bytes @ fst (read_some (min (MAX_RAW_SOURCE_BYTES - length bytes) READ_BUFFER_BYTES) bs rs1))))"
  by pat_completeness auto
termination
  by (relation "measure (\<lambda>(rs, _, _). reader_size rs)")
    (auto simp: read_some_def READ_BUFFER_BYTES_def intro: drop_shorter)

declare read_loop.simps [simp del]

definition read_bounded :: "read_source \<Rightarrow> read_error + byte list" where
  "read_bounded rs = map_sum id fst (read_loop rs 0 [])"

section \<open>Sources\<close>

datatype source_mode = SourceEval | SourceExec

record source_input =
  si_name :: source_name
  si_bytes :: "byte list"

datatype source_error = SourceMessage ustr | SourceScan source_name scan_error

definition strip_utf8_bom :: "byte list \<Rightarrow> byte list" where
  "strip_utf8_bom bytes = (if take (length UTF8_BOM) bytes = UTF8_BOM then drop (length UTF8_BOM) bytes else bytes)"

definition try_from_bytes :: "source_name \<Rightarrow> byte list \<Rightarrow> source_mode \<Rightarrow> source_error + source_input" where
  "try_from_bytes name bytes0 mode =
     (let bytes = strip_utf8_bom bytes0 in
      if length bytes > MAX_EXECUTION_SOURCE_BYTES
      then Inl (SourceMessage (lit ''Invalid code: source exceeds 4 MiB.''))
      else (case from_utf8 bytes of
        None \<Rightarrow> Inl (SourceMessage (lit ''Invalid code: source is not UTF-8.''))
      | Some source \<Rightarrow>
          if 0 \<in> set source then Inl (SourceMessage (lit ''Invalid code: source contains U+0000.''))
          else (case validate source of
            Inl e \<Rightarrow> Inl (SourceScan name e)
          | Inr form_count \<Rightarrow>
              if mode = SourceEval \<and> form_count \<noteq> 1
              then Inl (SourceMessage (lit ''Invalid code: eval requires one expression, found ''
                @ dec_nat form_count @ lit ''.''))
              else Inr \<lparr>si_name = name, si_bytes = bytes\<rparr>)))"

definition io_error_description :: "read_error \<Rightarrow> ustr" where
  "io_error_description e = (case e of
     RdNotFound \<Rightarrow> lit ''file not found''
   | RdPermissionDenied \<Rightarrow> lit ''permission denied''
   | RdBrokenPipe \<Rightarrow> lit ''broken pipe''
   | RdInvalidData \<Rightarrow> lit ''invalid data''
   | RdTimedOut \<Rightarrow> lit ''operation timed out''
   | RdOther \<Rightarrow> lit ''I/O error'')"

text \<open>A source is standard input, a text of the command line, or a file; a path is its bytes, and in the
  message about a path that is not UTF-8 it is shown as \<open>lossy\<close> shows it.\<close>

datatype source_spec = FromStdin read_source | FromCommandLine ustr | FromFile os_path

definition input_failed :: "source_name \<Rightarrow> read_error \<Rightarrow> source_error" where
  "input_failed name e = SourceMessage (lit ''Input failed for '' @ [ch_quote] @ name @ [ch_quote]
     @ lit '': '' @ io_error_description e @ lit ''.'')"

definition load_source ::
  "(os_path \<Rightarrow> ustr) \<Rightarrow> (os_path \<Rightarrow> read_error + read_source) \<Rightarrow> source_spec \<Rightarrow> source_mode
     \<Rightarrow> source_error + source_input" where
  "load_source lossy open_file spec mode = (case spec of
     FromStdin rs \<Rightarrow> (case read_bounded rs of
         Inl e \<Rightarrow> Inl (SourceMessage (lit ''Input failed: '' @ io_error_description e @ lit ''.''))
       | Inr bytes \<Rightarrow> try_from_bytes (lit ''<stdin>'') bytes mode)
   | FromCommandLine source \<Rightarrow> try_from_bytes (lit ''<command-line>'') (as_bytes source) mode
   | FromFile path \<Rightarrow> (case from_utf8 path of
         None \<Rightarrow> Inl (SourceMessage (lit ''Invalid source path: '' @ [ch_quote] @ lossy path @ [ch_quote]
           @ lit '' is not UTF-8.''))
       | Some text1 \<Rightarrow> (case source_name_new text1 of
           Inl SourceNameEmpty \<Rightarrow> Inl (SourceMessage (lit ''Invalid source path: path is empty.''))
         | Inl SourceNameTooLong \<Rightarrow> Inl (SourceMessage (lit ''Invalid source path: path exceeds 4 KiB.''))
         | Inr name \<Rightarrow> (case open_file path of
             Inl e \<Rightarrow> Inl (input_failed name e)
           | Inr rs \<Rightarrow> (case read_bounded rs of
               Inl e \<Rightarrow> Inl (input_failed name e)
             | Inr bytes \<Rightarrow> try_from_bytes name bytes mode)))))"

definition source_error_report :: "source_error \<Rightarrow> ustr" where
  "source_error_report e = (case e of
     SourceMessage message \<Rightarrow> message
   | SourceScan name error \<Rightarrow> lit ''Invalid code in '' @ name @ lit '' at line '' @ dec_nat (err_line error)
       @ lit '', column '' @ dec_nat (err_column error) @ lit '': ''
       @ trim_end_matches (\<lambda>c. c = ch_dot) (scan_error_message (err_kind error)) @ lit ''.'')"

section \<open>The request of a source\<close>

definition source_mode_of :: "rpc_exec_mode \<Rightarrow> source_mode" where
  "source_mode_of m = (if m = RpcEval then SourceEval else SourceExec)"

definition source_request :: "target \<Rightarrow> rpc_exec_mode \<Rightarrow> source_input \<Rightarrow> bool \<Rightarrow> exec_request" where
  "source_request t mode source force =
     exec_request_new (tg_drawing t) mode (si_name source) (si_bytes source) force"

section \<open>What is read\<close>

text \<open>The data a reader has to give, and the error it ends with, if any.\<close>

fun readable :: "read_source \<Rightarrow> byte list \<times> read_error option" where
  "readable [] = ([], None)"
| "readable (RdInterrupted # rs) = readable rs"
| "readable (RdFailed e # rs) = ([], Some e)"
| "readable (RdData bs # rs) = (if bs = [] then ([], None) else (bs @ fst (readable rs), snd (readable rs)))"

lemma readable_some:
  assumes "bs \<noteq> []" and "0 < n"
  shows "fst (readable (RdData bs # rs)) = fst (read_some n bs rs) @ fst (readable (snd (read_some n bs rs)))"
    and "snd (readable (RdData bs # rs)) = snd (readable (snd (read_some n bs rs)))"
    and "fst (read_some n bs rs) \<noteq> []" and "length (fst (read_some n bs rs)) \<le> n"
  using assms by (auto simp: read_some_def)

lemma grown_capacity_ok:
  "needed \<le> MAX_RAW_SOURCE_BYTES \<Longrightarrow> capacity \<le> MAX_RAW_SOURCE_BYTES
    \<Longrightarrow> needed \<le> grown_capacity capacity needed \<and> grown_capacity capacity needed \<le> MAX_RAW_SOURCE_BYTES"
  by (auto simp: grown_capacity_def)

lemma read_loop_spec:
  assumes "length bytes \<le> MAX_RAW_SOURCE_BYTES" and "capacity \<le> MAX_RAW_SOURCE_BYTES" and "length bytes \<le> capacity"
  shows "(case read_loop rs capacity bytes of
      Inr (out, c) \<Rightarrow> out = take MAX_RAW_SOURCE_BYTES (bytes @ fst (readable rs))
        \<and> (length out < MAX_RAW_SOURCE_BYTES \<longrightarrow> snd (readable rs) = None)
        \<and> length out \<le> c \<and> c \<le> MAX_RAW_SOURCE_BYTES
    | Inl e \<Rightarrow> snd (readable rs) = Some e \<and> length (bytes @ fst (readable rs)) < MAX_RAW_SOURCE_BYTES)"
  using assms
proof (induction rs capacity bytes rule: read_loop.induct)
  case (1 rs capacity bytes)
  show ?case
  proof (cases "length bytes < MAX_RAW_SOURCE_BYTES")
    case False
    with 1(3-5) show ?thesis by (subst read_loop.simps) simp
  next
    case True
    show ?thesis
    proof (cases rs)
      case Nil
      with True 1(3-5) show ?thesis by (subst read_loop.simps) simp
    next
      case (Cons x rs1)
      show ?thesis
      proof (cases x)
        case RdInterrupted
        have e: "readable rs = readable rs1" using Cons RdInterrupted by simp
        have l: "read_loop rs capacity bytes = read_loop rs1 capacity bytes"
          using True Cons RdInterrupted by (subst read_loop.simps) simp
        from 1(2) [OF _ Cons RdInterrupted] 1(3-5) True show ?thesis unfolding e l by simp
      next
        case (RdFailed e)
        with True Cons show ?thesis by (subst read_loop.simps) simp
      next
        case (RdData bs)
        show ?thesis
        proof (cases "bs = []")
          case True
          with \<open>length bytes < MAX_RAW_SOURCE_BYTES\<close> Cons RdData 1(3-5) show ?thesis by (subst read_loop.simps) simp
        next
          case False
          let ?n = "min (MAX_RAW_SOURCE_BYTES - length bytes) READ_BUFFER_BYTES"
          let ?x = "fst (read_some ?n bs rs1)" and ?r = "snd (read_some ?n bs rs1)"
          have n: "0 < ?n" using True by (simp add: READ_BUFFER_BYTES_def)
          note rs = readable_some [OF False n]
          have l: "length bytes + length ?x \<le> MAX_RAW_SOURCE_BYTES" using rs(4) [of rs1] True by linarith
          note g = grown_capacity_ok [OF l 1(4)]
          have step: "read_loop rs capacity bytes
              = read_loop ?r (grown_capacity capacity (length bytes + length ?x)) (bytes @ ?x)"
            using True Cons RdData False by (subst read_loop.simps) simp
          from 1(1) [OF _ Cons RdData False] True l g
          have ih: "case read_loop ?r (grown_capacity capacity (length bytes + length ?x)) (bytes @ ?x) of
              Inr (out, c) \<Rightarrow> out = take MAX_RAW_SOURCE_BYTES ((bytes @ ?x) @ fst (readable ?r))
                \<and> (length out < MAX_RAW_SOURCE_BYTES \<longrightarrow> snd (readable ?r) = None)
                \<and> length out \<le> c \<and> c \<le> MAX_RAW_SOURCE_BYTES
            | Inl e \<Rightarrow> snd (readable ?r) = Some e \<and> length ((bytes @ ?x) @ fst (readable ?r)) < MAX_RAW_SOURCE_BYTES"
            by simp
          have e: "fst (readable rs) = ?x @ fst (readable ?r)" "snd (readable rs) = snd (readable ?r)"
            unfolding Cons RdData by (rule rs(1), rule rs(2))
          show ?thesis unfolding step e using ih by (simp only: append.assoc)
        qed
      qed
    qed
  qed
qed

lemma read_bounded_spec:
  "read_bounded rs = Inr out \<Longrightarrow> out = take MAX_RAW_SOURCE_BYTES (fst (readable rs))
    \<and> (length out < MAX_RAW_SOURCE_BYTES \<longrightarrow> snd (readable rs) = None)"
  using read_loop_spec [of "[]" 0 rs] by (auto simp: read_bounded_def split: sum.splits)

text \<open>A source cut off by the limit is too long even without a mark in front.\<close>

lemma accepted_not_cut:
  assumes "try_from_bytes name bytes mode = Inr si"
  shows "length bytes < MAX_RAW_SOURCE_BYTES" and "si_name si = name" and "si_bytes si = strip_utf8_bom bytes"
  using assms
  by (auto simp: try_from_bytes_def strip_utf8_bom_def UTF8_BOM_def MAX_RAW_SOURCE_BYTES_def Let_def
      split: if_splits option.splits sum.splits)

definition spec_data :: "(os_path \<Rightarrow> read_error + read_source) \<Rightarrow> source_spec \<Rightarrow> byte list \<times> read_error option" where
  "spec_data open_file spec = (case spec of
     FromStdin rs \<Rightarrow> readable rs
   | FromCommandLine text1 \<Rightarrow> (as_bytes text1, None)
   | FromFile path \<Rightarrow> (case open_file path of Inr rs \<Rightarrow> readable rs | Inl e \<Rightarrow> ([], Some e)))"

lemma read_accepted:
  assumes "read_bounded rs = Inr bytes" and "try_from_bytes name bytes mode = Inr si"
  shows "readable rs = (bytes, None)"
proof -
  from read_bounded_spec [OF assms(1)] accepted_not_cut(1) [OF assms(2)]
  have "bytes = take MAX_RAW_SOURCE_BYTES (fst (readable rs))" "length bytes < MAX_RAW_SOURCE_BYTES"
    "snd (readable rs) = None" by auto
  then show ?thesis by (cases "readable rs") (auto simp: min_def split: if_splits)
qed

definition name_ok :: "source_name \<Rightarrow> bool" where
  "name_ok name \<longleftrightarrow> name \<noteq> [] \<and> byte_len name \<le> MAX_SOURCE_NAME_BYTES"

lemma loaded:
  assumes "load_source lossy open_file spec mode = Inr si"
  obtains bytes where "spec_data open_file spec = (bytes, None)" "try_from_bytes (si_name si) bytes mode = Inr si"
    "name_ok (si_name si)"
proof (cases spec)
  case (FromStdin rs)
  with assms obtain bytes where b: "read_bounded rs = Inr bytes" "try_from_bytes (lit ''<stdin>'') bytes mode = Inr si"
    by (auto simp: load_source_def split: sum.splits)
  have "name_ok (lit ''<stdin>'')" by code_simp
  with that [of bytes] read_accepted [OF b] b(2) accepted_not_cut(2) [OF b(2)] FromStdin show thesis
    by (simp add: spec_data_def)
next
  case (FromCommandLine text1)
  with assms have b: "try_from_bytes (lit ''<command-line>'') (as_bytes text1) mode = Inr si"
    by (simp add: load_source_def)
  have "name_ok (lit ''<command-line>'')" by code_simp
  with that [of "as_bytes text1"] b accepted_not_cut(2) [OF b] FromCommandLine show thesis
    by (simp add: spec_data_def)
next
  case (FromFile path)
  with assms obtain text1 name rs bytes where b: "source_name_new text1 = Inr name" "open_file path = Inr rs"
      "read_bounded rs = Inr bytes" "try_from_bytes name bytes mode = Inr si"
    by (auto simp: load_source_def split: option.splits sum.splits source_name_error.splits)
  then have "name_ok name" by (auto simp: source_name_new_def name_ok_def split: if_splits)
  with that [of bytes] read_accepted [OF b(3,4)] b(2,4) accepted_not_cut(2) [OF b(4)] FromFile show thesis
    by (simp add: spec_data_def)
qed

end
