(* ===== verification/Client_Agreement.thy ===== *)
theory Client_Agreement
  imports Client_Source
begin

text \<open>
  Client and plugin agree on sources: what \<open>load_source\<close> accepted is read whole and passes the checks of
  the plugin's service (\<open>validate_request\<close>, \<open>exec_new\<close>), save for a source with a second byte order
  mark, which each side strips once.
\<close>

section \<open>The two checks\<close>

definition has_bom :: "byte list \<Rightarrow> bool" where
  "has_bom bytes \<longleftrightarrow> take 3 bytes = [0xEF, 0xBB, 0xBF]"

definition exec_mode_of :: "source_mode \<Rightarrow> exec_mode" where
  "exec_mode_of m = (case m of SourceEval \<Rightarrow> EvalMode | SourceExec \<Rightarrow> ExecMode)"

lemma strip_same: "strip_utf8_bom = strip_bom"
proof -
  have "length UTF8_BOM = 3" by (simp add: UTF8_BOM_def)
  then show ?thesis by (intro ext) (simp only: strip_utf8_bom_def strip_bom_def, simp only: UTF8_BOM_def)
qed

lemma strip_bom_none: "\<not> has_bom bytes \<Longrightarrow> strip_bom bytes = bytes"
  by (simp add: strip_bom_def has_bom_def)

text \<open>The client's check of bytes and the plugin's check of what the client strips them to.\<close>

lemma same_check:
  assumes "\<not> has_bom (strip_bom bytes)"
  shows "isl (try_from_bytes name bytes mode) = isl (exec_new (exec_mode_of mode) name (strip_bom bytes))"
  unfolding try_from_bytes_def exec_new_def strip_same strip_bom_none [OF assms]
  by (cases mode) (auto simp: Let_def exec_mode_of_def split: option.splits sum.splits)

lemma exec_new_source:
  assumes "exec_new mode name bytes = Inr (e, ch)"
  shows "as_bytes (ex_source e) = strip_bom bytes" and "ex_mode e = mode" and "ex_source_name e = name"
  using assms
  by (auto simp: exec_new_def Let_def new_exec_record_def dest!: from_utf8_Some split: if_splits option.splits sum.splits)

lemma request_validates:
  assumes "name_ok (si_name source)" and "did_get (tg_drawing t) \<noteq> 0" and "mode \<in> {RpcEval, RpcExec}"
  shows "validate_request (source_request t mode source force) = Inr
    \<lparr>vr_drawing_id = tg_drawing t, vr_mode = exec_mode_of (source_mode_of mode), vr_source_name = si_name source,
     vr_source = si_bytes source, vr_force = force\<rparr>"
proof -
  have d: "drawing_id_try_from_u32 (drawing_id_to_u32 (tg_drawing t)) = Some (tg_drawing t)"
    using assms(2) by (rule drawing_id_wire_round_trip)
  have n: "source_name_new (si_name source) = Inr (si_name source)"
    using assms(1) by (simp add: source_name_new_def name_ok_def)
  show ?thesis
    using assms(3) d n
    by (auto simp: validate_request_def source_request_def exec_request_new_def source_mode_of_def exec_mode_of_def
        simp del: exec_mode_code.simps)
qed

section \<open>Properties\<close>

definition sample_open :: "os_path \<Rightarrow> read_error + read_source" where
  "sample_open path = Inr [RdData [0xEF], RdInterrupted, RdData [0xBB, 0xBF, 40], RdData [97, 41]]"

definition sample_target :: target where
  "sample_target = \<lparr>tg_instance = InstanceId 1, tg_drawing = DrawingId 1\<rparr>"

text \<open>C13. A source that is loaded was read whole: the reader ended without an error and the source is all of
  its data, less a byte order mark in front; an input cut off at the limit is never taken for a
  shorter source.\<close>

theorem source_read_whole:
  assumes "load_source lossy open_file spec mode = Inr source"
  shows "\<exists>bytes. spec_data open_file spec = (bytes, None) \<and> si_bytes source = strip_bom bytes
    \<and> length (si_bytes source) \<le> MAX_EXECUTION_SOURCE_BYTES"
proof -
  obtain bytes where b: "spec_data open_file spec = (bytes, None)" "try_from_bytes (si_name source) bytes mode = Inr source"
    using loaded [OF assms] by metis
  have "length (strip_bom bytes) \<le> MAX_EXECUTION_SOURCE_BYTES"
    using b(2) by (auto simp: try_from_bytes_def strip_same Let_def split: if_splits)
  with b accepted_not_cut(3) [OF b(2)] show ?thesis by (simp add: strip_same)
qed

lemma sample_loaded:
  "load_source (\<lambda>_. []) sample_open (FromFile [97]) SourceEval = Inr \<lparr>si_name = [97], si_bytes = [40, 97, 41]\<rparr>"
  by code_simp

theorem source_read_whole_witness:
  "\<exists>bytes. spec_data sample_open (FromFile [97]) = (bytes, None) \<and> [40, 97, 41] = strip_bom bytes"
  using source_read_whole [OF sample_loaded] by (auto simp only: source_input.simps)



text \<open>Two byte order marks are a form for the client and no form for the plugin: an \<open>eval\<close> of them passes the
  client's check and is refused by the plugin.\<close>

lemma second_bom_diverges:
  "\<not> isl (try_from_bytes [97] [0xEF, 0xBB, 0xBF, 0xEF, 0xBB, 0xBF] SourceEval)
   \<and> exec_new EvalMode [97] [0xEF, 0xBB, 0xBF] = Inl (ExpectedOneForm 0)"
proof (rule conjI)
  show "\<not> isl (try_from_bytes [97] [0xEF, 0xBB, 0xBF, 0xEF, 0xBB, 0xBF] SourceEval)" by code_simp
  have "(case exec_new EvalMode [97] [0xEF, 0xBB, 0xBF] of Inl x \<Rightarrow> x = ExpectedOneForm 0 | Inr _ \<Rightarrow> False)" by code_simp
  then show "exec_new EvalMode [97] [0xEF, 0xBB, 0xBF] = Inl (ExpectedOneForm 0)" by (auto split: sum.splits)
qed

end
