(* ===== verification/Shot_Names.thy ===== *)
theory Shot_Names
  imports Drawing_Paths
begin

text \<open>
  The names of screenshot files, \<open>crates/cli/src/commands/screenshot/output.rs\<close> and the time stamp of
  \<open>screenshot/mod.rs\<close>: how a name is made, and which names the cleanup takes for its own.  The
  property says that these are the same names.
\<close>

section \<open>Numbers\<close>

definition digits_value :: "ustr \<Rightarrow> nat" where
  "digits_value s = foldl (\<lambda>v c. v * 10 + (c - 48)) 0 s"

text \<open>\<open>{:0w}\<close>: at least \<open>w\<close> digits.\<close>

definition dec_padded :: "nat \<Rightarrow> nat \<Rightarrow> ustr" where
  "dec_padded w n = replicate (w - length (dec_nat n)) 48 @ dec_nat n"

text \<open>\<open>str::parse::<u64>\<close>.\<close>

definition parse_u64 :: "ustr \<Rightarrow> nat option" where
  "parse_u64 s =
     (let digits = (if s \<noteq> [] \<and> hd s = ch_plus then tl s else s)
      in if digits \<noteq> [] \<and> list_all is_ascii_digit digits \<and> digits_value digits \<le> u64_max
         then Some (digits_value digits) else None)"

definition str_strip_prefix :: "ustr \<Rightarrow> ustr \<Rightarrow> ustr option" where
  "str_strip_prefix p s = (if take (length p) s = p then Some (drop (length p) s) else None)"

definition str_strip_suffix :: "ustr \<Rightarrow> ustr \<Rightarrow> ustr option" where
  "str_strip_suffix p s =
     (if length p \<le> length s \<and> drop (length s - length p) s = p then Some (take (length s - length p) s) else None)"

section \<open>Time stamps\<close>

definition timestamp :: "nat \<Rightarrow> nat \<Rightarrow> nat \<Rightarrow> nat \<Rightarrow> nat \<Rightarrow> nat \<Rightarrow> nat \<Rightarrow> ustr" where
  "timestamp year month day hour minute second millisecond =
     dec_padded 4 year @ dec_padded 2 month @ dec_padded 2 day @ [84]
     @ dec_padded 2 hour @ dec_padded 2 minute @ dec_padded 2 second @ [ch_dot] @ dec_padded 3 millisecond @ [90]"

definition is_leap_year :: "nat \<Rightarrow> bool" where
  "is_leap_year year \<longleftrightarrow> year mod 4 = 0 \<and> (year mod 100 \<noteq> 0 \<or> year mod 400 = 0)"

definition byte_range :: "nat \<Rightarrow> nat \<Rightarrow> 'a list \<Rightarrow> 'a list" where
  "byte_range i j bytes = take (j - i) (drop i bytes)"

definition number_of :: "byte list \<Rightarrow> nat" where
  "number_of bytes = foldl (\<lambda>v digit. v * 10 + unat (digit - 48)) 0 bytes"

definition days_in_month :: "nat \<Rightarrow> nat \<Rightarrow> nat option" where
  "days_in_month year month =
     (if month \<in> {1, 3, 5, 7, 8, 10, 12} then Some 31
      else if month \<in> {4, 6, 9, 11} then Some 30
      else if month = 2 \<and> is_leap_year year then Some 29
      else if month = 2 then Some 28
      else None)"

definition is_valid_timestamp :: "ustr \<Rightarrow> bool" where
  "is_valid_timestamp stamp =
     (if byte_len stamp \<noteq> 20 then False
      else
        let bytes = as_bytes stamp
        in if bytes ! 8 \<noteq> 84 \<or> bytes ! 15 \<noteq> 46 \<or> bytes ! 19 \<noteq> 90 then False
           else if list_ex (\<lambda>(i, j). \<not> list_all (\<lambda>b. is_ascii_digit (unat b)) (byte_range i j bytes))
               [(0, 8), (9, 15), (16, 19)] then False
           else
             let year = number_of (byte_range 0 4 bytes); month = number_of (byte_range 4 6 bytes);
                 day = number_of (byte_range 6 8 bytes); hour = number_of (byte_range 9 11 bytes);
                 minute = number_of (byte_range 11 13 bytes); second = number_of (byte_range 13 15 bytes)
             in case days_in_month year month of
                  None \<Rightarrow> False
                | Some days \<Rightarrow> year \<noteq> 0 \<and> day \<noteq> 0 \<and> day \<le> days \<and> hour < 24 \<and> minute < 60 \<and> second < 60)"

section \<open>File names\<close>

definition FILE_PREFIX :: ustr where "FILE_PREFIX = lit ''acadctl-screenshot-''"
definition FILE_SUFFIX :: ustr where "FILE_SUFFIX = lit ''.png''"

definition generated_filename :: "ustr \<Rightarrow> nat \<Rightarrow> ustr" where
  "generated_filename stamp ordinal =
     (if ordinal = 1 then FILE_PREFIX @ stamp @ FILE_SUFFIX
      else FILE_PREFIX @ stamp @ lit ''--'' @ dec_nat ordinal @ FILE_SUFFIX)"

definition staged_filename :: "ustr \<Rightarrow> nat \<Rightarrow> ustr" where
  "staged_filename stamp ordinal =
     (if ordinal = 1 then [ch_dot] @ FILE_PREFIX @ stamp @ FILE_SUFFIX @ lit ''.publishing''
      else [ch_dot] @ FILE_PREFIX @ stamp @ FILE_SUFFIX @ lit ''.publishing--'' @ dec_nat ordinal)"

definition managed_ordinal :: "ustr \<Rightarrow> bool" where
  "managed_ordinal ordinal =
     (if ordinal = [] then True
      else (case str_strip_prefix (lit ''--'') ordinal of
        None \<Rightarrow> False
      | Some digits \<Rightarrow>
          if digits = [] \<or> hd digits = 48 \<or> \<not> list_all is_ascii_digit digits then False
          else (case parse_u64 digits of Some value1 \<Rightarrow> value1 \<ge> 2 | None \<Rightarrow> False)))"

definition is_managed_filename :: "ustr \<Rightarrow> bool" where
  "is_managed_filename filename =
     (case Option.bind (str_strip_prefix FILE_PREFIX filename) (str_strip_suffix FILE_SUFFIX) of
        None \<Rightarrow> False
      | Some body \<Rightarrow>
          (case (if byte_len body < 20 then None else from_utf8 (take 20 (as_bytes body))) of
             None \<Rightarrow> False
           | Some stamp \<Rightarrow>
               if \<not> is_valid_timestamp stamp then False
               else managed_ordinal (drop_bytes (byte_len stamp) body)))"

text \<open>The names the cleanup looks at are those of the operating system; one that is not UTF-8 is passed over.\<close>

definition managed_entry :: "byte list \<Rightarrow> bool" where
  "managed_entry name = (case from_utf8 name of None \<Rightarrow> False | Some filename \<Rightarrow> is_managed_filename filename)"

section \<open>Digits\<close>

lemma digits_value_simps [simp]:
  "digits_value [] = 0"
  "digits_value (s @ [c]) = digits_value s * 10 + (c - 48)"
  by (simp_all add: digits_value_def)

lemma dec_padded_digits: "list_all is_ascii_digit (dec_padded w n)"
  using dec_nat_digits [of n] by (auto simp: dec_padded_def list_all_iff is_ascii_digit_def)

lemma dec_padded_1: "dec_padded (Suc 0) n = dec_nat n"
  by (simp add: dec_padded_def Suc_le_eq)

lemma dec_padded_Suc:
  assumes "0 < w"
  shows "dec_padded (Suc w) n = dec_padded w (n div 10) @ [48 + n mod 10]"
proof (cases "n < 10")
  case True
  then have "dec_nat n = [48 + n]" "dec_nat (n div 10) = [48]"
    by (simp_all add: dec_nat.simps [of n] dec_nat.simps [of 0])
  moreover have "replicate w 48 = replicate (w - 1) 48 @ [48 :: nat]"
    using assms by (metis Suc_diff_1 replicate_Suc replicate_append_same)
  ultimately show ?thesis using True by (simp add: dec_padded_def)
next
  case False
  then have "dec_nat n = dec_nat (n div 10) @ [48 + n mod 10]" by (simp add: dec_nat.simps [of n])
  then show ?thesis by (simp add: dec_padded_def)
qed

lemma dec_padded_length: "n < 10 ^ w \<Longrightarrow> 0 < w \<Longrightarrow> length (dec_padded w n) = w"
proof (induction w arbitrary: n)
  case (Suc w)
  show ?case
  proof (cases "w = 0")
    case True
    with Suc.prems show ?thesis by (simp add: dec_padded_1 dec_nat.simps [of n])
  next
    case False
    have "n div 10 < 10 ^ w" using Suc.prems(1) by (simp add: less_mult_imp_div_less mult.commute)
    with Suc.IH [of "n div 10"] False show ?thesis by (simp add: dec_padded_Suc)
  qed
qed simp

lemma digits_value_dec_nat [simp]: "digits_value (dec_nat n) = n"
proof (induction n rule: dec_nat.induct)
  case (1 n)
  show ?case
  proof (cases "n < 10")
    case True
    then show ?thesis using digits_value_simps(2) [of "[]" "48 + n"] by (simp add: dec_nat.simps [of n])
  next
    case False
    with 1 show ?thesis by (simp add: dec_nat.simps [of n] div_mult_mod_eq)
  qed
qed

lemma digits_value_zeros: "digits_value (replicate k 48 @ s) = digits_value s"
  by (induction k) (simp_all add: digits_value_def)

lemma digits_value_padded [simp]: "digits_value (dec_padded w n) = n"
  by (simp add: dec_padded_def digits_value_zeros)

lemma digits_as_padded:
  assumes "list_all is_ascii_digit xs" and "xs \<noteq> []"
  shows "xs = dec_padded (length xs) (digits_value xs)"
  using assms
proof (induction xs rule: rev_induct)
  case (snoc c xs)
  from snoc.prems have "48 \<le> c" "c - 48 < 10" by (auto simp: is_ascii_digit_def)
  then obtain d where c: "c = 48 + d" "d < 10" by (metis le_add_diff_inverse)
  show ?case
  proof (cases "xs = []")
    case True
    with c show ?thesis
      using digits_value_simps(2) [of "[]" c] by (simp add: dec_padded_1 dec_nat.simps [of d])
  next
    case False
    with snoc have "xs = dec_padded (length xs) (digits_value xs)" by simp
    with False c show ?thesis by (simp add: dec_padded_Suc)
  qed
qed simp

lemma digits_value_less: "list_all is_ascii_digit xs \<Longrightarrow> digits_value xs < 10 ^ length xs"
proof (induction xs rule: rev_induct)
  case (snoc c xs)
  then show ?case by (auto simp: is_ascii_digit_def)
qed simp

lemma digits_as_dec_nat:
  assumes "list_all is_ascii_digit xs" "xs \<noteq> []" "hd xs \<noteq> 48"
  shows "xs = dec_nat (digits_value xs)"
proof -
  have x: "xs = replicate (length xs - length (dec_nat (digits_value xs))) 48 @ dec_nat (digits_value xs)"
    using digits_as_padded [OF assms(1,2)] by (simp add: dec_padded_def)
  with assms(3) have "length xs - length (dec_nat (digits_value xs)) = 0"
    by (metis append_Cons hd_append2 hd_replicate list.sel(1) replicate_empty)
  with x show ?thesis by simp
qed

lemma dec_nat_hd: "n \<noteq> 0 \<Longrightarrow> hd (dec_nat n) \<noteq> 48"
proof (induction n rule: dec_nat.induct)
  case (1 n)
  show ?case
  proof (cases "n < 10")
    case True
    with 1(2) show ?thesis by (simp add: dec_nat.simps [of n])
  next
    case False
    with 1 show ?thesis by (simp add: dec_nat.simps [of n])
  qed
qed

section \<open>ASCII text\<close>

definition ascii :: "ustr \<Rightarrow> bool" where
  "ascii s \<longleftrightarrow> list_all (\<lambda>c. c < 128) s"

lemma ascii_simps [simp]:
  "ascii []"
  "ascii (c # s) \<longleftrightarrow> c < 128 \<and> ascii s"
  "ascii (s @ t) \<longleftrightarrow> ascii s \<and> ascii t"
  by (auto simp: ascii_def)

lemma ascii_digits: "list_all is_ascii_digit s \<Longrightarrow> ascii s"
  by (auto simp: ascii_def is_ascii_digit_def list_all_iff)

lemma ascii_bytes: "ascii s \<Longrightarrow> as_bytes s = map of_nat s"
  by (induction s) (simp_all add: encode_char_def)

lemma ascii_byte_len: "ascii s \<Longrightarrow> byte_len s = length s"
  by (induction s) (simp_all add: len_utf8_def)

lemma word8_lt: "(of_nat n :: byte) < 128 \<longleftrightarrow> n mod 256 < 128"
  by (simp add: word_less_nat_alt unat_of_nat)

lemma word8_high: "128 \<le> k \<Longrightarrow> k < 256 \<Longrightarrow> (of_nat k :: byte) < 128 \<longleftrightarrow> False"
  by (simp add: word8_lt)

lemma encode_char_ascii: "(\<forall>b\<in>set (encode_char c). b < 128) \<longleftrightarrow> c < 128"
proof -
  have "(of_nat (128 + k mod 64) :: byte) < 128 \<longleftrightarrow> False" for k
  proof (rule word8_high)
    have "k mod 64 < 64" by simp
    then show "128 + k mod 64 < 256" by linarith
  qed simp
  then show ?thesis by (auto simp: encode_char_def word8_lt simp del: of_nat_add)
qed

lemma as_bytes_below_128: "(\<forall>b\<in>set (as_bytes s). b < 128) \<longleftrightarrow> ascii s"
  by (induction s) (auto simp: encode_char_ascii [symmetric])

lemma from_utf8_ascii: "ascii s \<Longrightarrow> from_utf8 (as_bytes s) = Some s"
proof (induction s)
  case (Cons c s)
  then have b: "as_bytes (c # s) = of_nat c # as_bytes s" "(of_nat c :: byte) < 128" "unat (of_nat c :: byte) = c"
    by (simp_all add: encode_char_def word8_lt unat_of_nat)
  moreover have "lead_width (of_nat c) = 1" using b(2) by (simp add: lead_width_def)
  moreover have "spelled_char [of_nat c] = c" using b(3) by (simp add: spelled_char_def)
  moreover have "is_scalar c" "encode_char c = [of_nat c]" using Cons.prems by (simp_all add: is_scalar_def encode_char_def)
  ultimately show ?case using Cons by (subst from_utf8.simps) simp
qed (simp add: from_utf8.simps)

text \<open>The first byte of a character that is not ASCII is not.\<close>

lemma encode_char_hd: "is_scalar c \<Longrightarrow> 128 \<le> c \<Longrightarrow> \<not> hd (encode_char c) < 128"
  by (auto simp: is_scalar_def encode_char_def word8_high simp del: of_nat_add)

lemma ascii_start:
  assumes "list_all is_scalar s" and "\<forall>b\<in>set (take n (as_bytes s)). b < 128" and "n \<le> byte_len s"
  shows "ascii (take n s) \<and> n \<le> length s \<and> as_bytes (take n s) = take n (as_bytes s)"
  using assms
proof (induction s arbitrary: n)
  case (Cons c s)
  show ?case
  proof (cases n)
    case (Suc m)
    have ne: "encode_char c \<noteq> []" by (metis len_utf8_pos(2) length_encode_char list.size(3))
    then have "hd (encode_char c) \<in> set (take n (as_bytes (c # s)))"
      using Suc by (cases "encode_char c") auto
    with Cons.prems have "hd (encode_char c) < 128" by blast
    with encode_char_hd [of c] Cons.prems(1) have c: "c < 128" by (metis leI list.pred_inject(2))
    then have e: "encode_char c = [of_nat c]" "len_utf8 c = 1" by (simp_all add: encode_char_def len_utf8_def)
    from Cons.IH [of m] Cons.prems Suc e have "ascii (take m s) \<and> m \<le> length s \<and> as_bytes (take m s) = take m (as_bytes s)"
      by simp
    with c e Suc show ?thesis by simp
  qed simp
qed simp

section \<open>What a time stamp is\<close>

lemma twenty:
  assumes "length xs = 20"
  shows "xs = byte_range 0 8 xs @ [xs ! 8] @ byte_range 9 15 xs @ [xs ! 15] @ byte_range 16 19 xs @ [xs ! 19]"
proof -
  have "xs = take 8 xs @ xs ! 8 # drop 9 xs" using id_take_nth_drop [of 8 xs] assms by simp
  moreover have "drop 9 xs = take 6 (drop 9 xs) @ xs ! 15 # drop 16 xs"
    using id_take_nth_drop [of 6 "drop 9 xs"] assms by simp
  moreover have "drop 16 xs = take 3 (drop 16 xs) @ [xs ! 19]"
    using id_take_nth_drop [of 3 "drop 16 xs"] assms by simp
  ultimately show ?thesis by (simp add: byte_range_def)
qed

lemma list_all_part:
  "list_all P xs \<Longrightarrow> list_all P (take n xs)"
  "list_all P xs \<Longrightarrow> list_all P (drop n xs)"
  by (auto simp: list_all_iff dest: in_set_takeD in_set_dropD)

lemma number_of_ascii: "list_all is_ascii_digit xs \<Longrightarrow> number_of (map of_nat xs) = digits_value xs"
proof (induction xs rule: rev_induct)
  case (snoc c xs)
  from snoc.prems obtain d where c: "c = 48 + d" "d < 10"
    by (auto simp: is_ascii_digit_def) (metis add_diff_inverse_nat less_Suc_eq_le less_diff_conv2 linorder_not_le numeral_plus_numeral semiring_norm(2,3,4,5,6,8,9) eval_nat_numeral(3) Suc_eq_plus1)
  have "unat (of_nat c - 48 :: byte) = d" using c by (simp add: unat_of_nat)
  with snoc c show ?case by (simp add: number_of_def)
qed (simp add: number_of_def)

lemma digit_of_nat: "c < 256 \<Longrightarrow> unat (of_nat c :: byte) = c"
  by (simp add: unat_of_nat)

text \<open>A date of the calendar in the years the form can hold, and a time of the day.\<close>

definition calendar_date :: "nat \<Rightarrow> nat \<Rightarrow> nat \<Rightarrow> bool" where
  "calendar_date year month day \<longleftrightarrow> 1 \<le> year \<and> year \<le> 9999 \<and> 1 \<le> month \<and> month \<le> 12 \<and> 1 \<le> day
     \<and> day \<le> [31, if year mod 400 = 0 \<or> (year mod 4 = 0 \<and> year mod 100 \<noteq> 0) then 29 else 28,
              31, 30, 31, 30, 31, 31, 30, 31, 30, 31] ! (month - 1)"

definition clock_time :: "nat \<Rightarrow> nat \<Rightarrow> nat \<Rightarrow> nat \<Rightarrow> bool" where
  "clock_time hour minute second millisecond \<longleftrightarrow> hour < 24 \<and> minute < 60 \<and> second < 60 \<and> millisecond < 1000"

lemma calendar_date_iff:
  "calendar_date year month day \<longleftrightarrow> year \<le> 9999 \<and>
     (case days_in_month year month of None \<Rightarrow> False | Some days \<Rightarrow> year \<noteq> 0 \<and> day \<noteq> 0 \<and> day \<le> days)"
proof -
  have leap: "is_leap_year year \<longleftrightarrow> year mod 400 = 0 \<or> (year mod 4 = 0 \<and> year mod 100 \<noteq> 0)"
  proof -
    have "year mod 400 = 0 \<Longrightarrow> year mod 4 = 0" by presburger
    then show ?thesis by (auto simp: is_leap_year_def)
  qed
  show ?thesis
  proof (cases "month < 13")
    case True
    then have "month = 0 \<or> month = 1 \<or> month = 2 \<or> month = 3 \<or> month = 4 \<or> month = 5 \<or> month = 6 \<or> month = 7
        \<or> month = 8 \<or> month = 9 \<or> month = 10 \<or> month = 11 \<or> month = 12"
      by presburger
    then show ?thesis by (elim disjE) (auto simp: calendar_date_def days_in_month_def leap)
  next
    case False
    then show ?thesis by (simp add: calendar_date_def days_in_month_def)
  qed
qed

text \<open>The parts of the text, and what is asked of the numbers in them.\<close>

definition stamp_parts :: "ustr \<Rightarrow> ustr \<Rightarrow> ustr \<Rightarrow> ustr" where
  "stamp_parts date time fraction = date @ [84] @ time @ [ch_dot] @ fraction @ [90]"

lemma stamp_numbers:
  assumes "list_all is_ascii_digit date" "list_all is_ascii_digit time" "length date = 8" "length time = 6"
    and "b = map of_nat (stamp_parts date time fraction)"
  shows "number_of (byte_range 0 4 b) = digits_value (take 4 date)"
    "number_of (byte_range 4 6 b) = digits_value (take 2 (drop 4 date))"
    "number_of (byte_range 6 8 b) = digits_value (drop 6 date)"
    "number_of (byte_range 9 11 b) = digits_value (take 2 time)"
    "number_of (byte_range 11 13 b) = digits_value (take 2 (drop 2 time))"
    "number_of (byte_range 13 15 b) = digits_value (drop 4 time)"
  using assms(1-4) unfolding assms(5)
  by (simp_all add: stamp_parts_def byte_range_def take_map drop_map number_of_ascii list_all_part)

lemma is_valid_timestamp_parts:
  "is_valid_timestamp s \<longleftrightarrow> (\<exists>date time fraction. s = stamp_parts date time fraction
     \<and> list_all is_ascii_digit (date @ time @ fraction) \<and> length date = 8 \<and> length time = 6 \<and> length fraction = 3
     \<and> calendar_date (digits_value (take 4 date)) (digits_value (take 2 (drop 4 date))) (digits_value (drop 6 date))
     \<and> digits_value (take 2 time) < 24 \<and> digits_value (take 2 (drop 2 time)) < 60 \<and> digits_value (drop 4 time) < 60)"
  (is "_ \<longleftrightarrow> (\<exists>date time fraction. ?ok date time fraction)")
proof
  assume v: "is_valid_timestamp s"
  let ?b = "as_bytes s"
  have l: "length ?b = 20" using v by (simp add: is_valid_timestamp_def split: if_splits)
  have sep: "?b ! 8 = 84" "?b ! 15 = 46" "?b ! 19 = 90"
    and dig: "list_all (\<lambda>b. is_ascii_digit (unat b)) (byte_range 0 8 ?b @ byte_range 9 15 ?b @ byte_range 16 19 ?b)"
    using v by (auto simp: is_valid_timestamp_def Let_def split: if_splits)
  have low: "is_ascii_digit (unat b) \<Longrightarrow> b < 128" for b :: byte
    by (simp add: is_ascii_digit_def word_less_nat_alt)
  have "set ?b = set (byte_range 0 8 ?b @ byte_range 9 15 ?b @ byte_range 16 19 ?b) \<union> {84, 46, 90}"
    using arg_cong [OF twenty [OF l], of set] by (auto simp: sep)
  moreover have "\<forall>b\<in>set (byte_range 0 8 ?b @ byte_range 9 15 ?b @ byte_range 16 19 ?b). b < 128"
    using dig low unfolding list_all_iff by blast
  ultimately have "\<forall>b\<in>set ?b. b < 128" by auto
  then have a: "ascii s" by (simp only: as_bytes_below_128)
  have b: "?b = map of_nat s" and ls: "length s = 20" using ascii_bytes [OF a] l a by (simp_all add: ascii_byte_len)
  let ?d = "take 8 s" and ?t = "take 6 (drop 9 s)" and ?f = "take 3 (drop 16 s)"
  have r: "byte_range 0 8 ?b = map of_nat ?d" "byte_range 9 15 ?b = map of_nat ?t" "byte_range 16 19 ?b = map of_nat ?f"
    by (simp_all add: b byte_range_def take_map drop_map)
  have small: "c < 128" if "c \<in> set s" for c using a that by (simp add: ascii_def list_all_iff)
  have "c \<in> set (?d @ ?t @ ?f) \<Longrightarrow> c \<in> set s" for c by (auto dest: in_set_takeD in_set_dropD)
  with small have "c \<in> set (?d @ ?t @ ?f) \<Longrightarrow> unat (of_nat c :: byte) = c" for c
    by (intro digit_of_nat) (meson less_trans numeral_less_iff semiring_norm(76,78,81))
  moreover have "\<forall>c\<in>set (?d @ ?t @ ?f). is_ascii_digit (unat (of_nat c :: byte))"
    using dig unfolding r by (auto simp: list_all_iff)
  ultimately have digits: "list_all is_ascii_digit (?d @ ?t @ ?f)" unfolding list_all_iff by metis
  have y: "digits_value (take 4 ?d) \<le> 9999"
    using digits_value_less [OF list_all_part(1) [of _ ?d 4]] digits ls by simp
  have s: "s = stamp_parts ?d ?t ?f"
  proof -
    have "s ! 8 = 84 \<and> s ! 15 = 46 \<and> s ! 19 = 90"
    proof (intro conjI)
      have "unat (?b ! i) = s ! i" if "i < 20" for i
        using that ls small [of "s ! i"] by (simp add: b digit_of_nat)
      from this [of 8] this [of 15] this [of 19] sep show "s ! 8 = 84" "s ! 15 = 46" "s ! 19 = 90" by simp_all
    qed
    then show ?thesis using twenty [OF ls] by (simp add: byte_range_def stamp_parts_def)
  qed
  have "?b = map of_nat (stamp_parts ?d ?t ?f)" using b s by simp
  then have nums: "number_of (byte_range 0 4 ?b) = digits_value (take 4 ?d)"
    "number_of (byte_range 4 6 ?b) = digits_value (take 2 (drop 4 ?d))"
    "number_of (byte_range 6 8 ?b) = digits_value (drop 6 ?d)"
    "number_of (byte_range 9 11 ?b) = digits_value (take 2 ?t)"
    "number_of (byte_range 11 13 ?b) = digits_value (take 2 (drop 2 ?t))"
    "number_of (byte_range 13 15 ?b) = digits_value (drop 4 ?t)"
    using stamp_numbers [of ?d ?t ?b ?f] digits ls by simp_all
  have m: "(case days_in_month (digits_value (take 4 ?d)) (digits_value (take 2 (drop 4 ?d))) of
        None \<Rightarrow> False
      | Some days \<Rightarrow> digits_value (take 4 ?d) \<noteq> 0 \<and> digits_value (drop 6 ?d) \<noteq> 0 \<and> digits_value (drop 6 ?d) \<le> days
          \<and> digits_value (take 2 ?t) < 24 \<and> digits_value (take 2 (drop 2 ?t)) < 60 \<and> digits_value (drop 4 ?t) < 60)"
    using v l by (auto simp: is_valid_timestamp_def Let_def nums split: if_splits option.splits)
  have "?ok ?d ?t ?f"
    using s digits ls y m by (auto simp: calendar_date_iff split: option.splits)
  then show "\<exists>date time fraction. ?ok date time fraction" by blast
next
  assume "\<exists>date time fraction. ?ok date time fraction"
  then obtain date time fraction where ok: "?ok date time fraction" by blast
  then have d: "list_all is_ascii_digit date" "list_all is_ascii_digit time" "list_all is_ascii_digit fraction"
    and l: "length date = 8" "length time = 6" "length fraction = 3" by simp_all
  have s: "s = stamp_parts date time fraction" using ok by simp
  have a: "ascii s" using d by (simp add: s stamp_parts_def ascii_digits)
  have bl: "byte_len s = 20" using ascii_byte_len [OF a] l by (simp add: s stamp_parts_def)
  have b: "as_bytes s = map of_nat date @ [84] @ map of_nat time @ [46] @ map of_nat fraction @ [90]"
    using ascii_bytes [OF a] by (simp add: s stamp_parts_def)
  have n: "as_bytes s ! 8 = 84" "as_bytes s ! 15 = 46" "as_bytes s ! 19 = 90"
    using l by (simp_all add: b nth_append)
  have r: "byte_range 0 8 (as_bytes s) = map of_nat date" "byte_range 9 15 (as_bytes s) = map of_nat time"
    "byte_range 16 19 (as_bytes s) = map of_nat fraction"
    using l by (simp_all add: b byte_range_def)
  have digit: "list_all (\<lambda>b :: byte. is_ascii_digit (unat b)) (map of_nat xs)" if "list_all is_ascii_digit xs" for xs
    using that by (auto simp: list_all_iff is_ascii_digit_def digit_of_nat)
  have "as_bytes s = map of_nat (stamp_parts date time fraction)" by (simp add: b stamp_parts_def)
  note nums = stamp_numbers [OF d(1,2) l(1,2) this]
  have m: "case days_in_month (digits_value (take 4 date)) (digits_value (take 2 (drop 4 date))) of
        None \<Rightarrow> False
      | Some days \<Rightarrow> digits_value (take 4 date) \<noteq> 0 \<and> digits_value (drop 6 date) \<noteq> 0 \<and> digits_value (drop 6 date) \<le> days"
    using ok by (simp add: calendar_date_iff)
  have clock: "digits_value (take 2 time) < 24" "digits_value (take 2 (drop 2 time)) < 60" "digits_value (drop 4 time) < 60"
    using ok by simp_all
  show "is_valid_timestamp s"
    using clock m digit [OF d(1)] digit [OF d(2)] digit [OF d(3)]
    by (simp add: is_valid_timestamp_def Let_def bl n r nums split: option.splits)
qed

lemma valid_timestamp_ascii: "is_valid_timestamp s \<Longrightarrow> ascii s \<and> length s = 20"
  by (auto simp: is_valid_timestamp_parts stamp_parts_def ascii_digits)

lemma split_three: "xs = take a xs @ take b (drop a xs) @ drop (a + b) xs"
  by (metis add.commute append_take_drop_id drop_drop)

lemma timestamps_are_dates:
  "is_valid_timestamp s \<longleftrightarrow> (\<exists>year month day hour minute second millisecond.
     calendar_date year month day \<and> clock_time hour minute second millisecond
     \<and> s = timestamp year month day hour minute second millisecond)"
proof
  assume "is_valid_timestamp s"
  then obtain date time fraction where s: "s = stamp_parts date time fraction"
    and d: "list_all is_ascii_digit date" "list_all is_ascii_digit time" "list_all is_ascii_digit fraction"
    and l: "length date = 8" "length time = 6" "length fraction = 3"
    and c: "calendar_date (digits_value (take 4 date)) (digits_value (take 2 (drop 4 date))) (digits_value (drop 6 date))"
      "digits_value (take 2 time) < 24" "digits_value (take 2 (drop 2 time)) < 60" "digits_value (drop 4 time) < 60"
    unfolding is_valid_timestamp_parts by (auto simp: list_all_iff)
  have pad: "xs = dec_padded w (digits_value xs)" if "list_all is_ascii_digit xs" "length xs = w" "0 < w" for xs w
    using digits_as_padded [of xs] that by auto
  have "timestamp (digits_value (take 4 date)) (digits_value (take 2 (drop 4 date))) (digits_value (drop 6 date))
      (digits_value (take 2 time)) (digits_value (take 2 (drop 2 time))) (digits_value (drop 4 time)) (digits_value fraction)
    = (take 4 date @ take 2 (drop 4 date) @ drop 6 date) @ [84]
      @ (take 2 time @ take 2 (drop 2 time) @ drop 4 time) @ [ch_dot] @ fraction @ [90]"
    using d l by (simp add: timestamp_def pad [symmetric] list_all_part)
  also have "\<dots> = s"
    using split_three [of date 4 2] split_three [of time 2 2] by (simp add: s stamp_parts_def)
  finally have t: "s = timestamp (digits_value (take 4 date)) (digits_value (take 2 (drop 4 date))) (digits_value (drop 6 date))
      (digits_value (take 2 time)) (digits_value (take 2 (drop 2 time))) (digits_value (drop 4 time)) (digits_value fraction)"
    by simp
  have "digits_value fraction < 1000" using digits_value_less [OF d(3)] l by simp
  with c have "clock_time (digits_value (take 2 time)) (digits_value (take 2 (drop 2 time))) (digits_value (drop 4 time))
      (digits_value fraction)" by (simp add: clock_time_def)
  with c(1) t show "\<exists>year month day hour minute second millisecond.
     calendar_date year month day \<and> clock_time hour minute second millisecond
     \<and> s = timestamp year month day hour minute second millisecond" by blast
next
  assume "\<exists>year month day hour minute second millisecond.
     calendar_date year month day \<and> clock_time hour minute second millisecond
     \<and> s = timestamp year month day hour minute second millisecond"
  then obtain year month day hour minute second millisecond where
    c: "calendar_date year month day" "clock_time hour minute second millisecond"
    and s: "s = timestamp year month day hour minute second millisecond" by blast
  have "day \<le> 31"
    using c(1) by (auto simp: calendar_date_iff days_in_month_def split: option.splits if_splits)
  with c have r: "year < 10 ^ 4" "month < 10 ^ 2" "day < 10 ^ 2" "hour < 10 ^ 2" "minute < 10 ^ 2" "second < 10 ^ 2"
      "millisecond < 10 ^ 3"
    by (simp_all add: calendar_date_def clock_time_def)
  have l: "length (dec_padded 4 year) = 4" "length (dec_padded 2 month) = 2" "length (dec_padded 2 day) = 2"
    "length (dec_padded 2 hour) = 2" "length (dec_padded 2 minute) = 2" "length (dec_padded 2 second) = 2"
    "length (dec_padded 3 millisecond) = 3"
    by (rule dec_padded_length [OF r(1)] dec_padded_length [OF r(2)] dec_padded_length [OF r(3)]
        dec_padded_length [OF r(4)] dec_padded_length [OF r(5)] dec_padded_length [OF r(6)] dec_padded_length [OF r(7)],
        simp)+
  let ?date = "dec_padded 4 year @ dec_padded 2 month @ dec_padded 2 day"
  let ?time = "dec_padded 2 hour @ dec_padded 2 minute @ dec_padded 2 second"
  have "s = stamp_parts ?date ?time (dec_padded 3 millisecond)"
    by (simp add: s timestamp_def stamp_parts_def)
  moreover have "list_all is_ascii_digit (?date @ ?time @ dec_padded 3 millisecond)"
    by (simp add: dec_padded_digits)
  ultimately show "is_valid_timestamp s"
    unfolding is_valid_timestamp_parts using l c
    by (intro exI [of _ ?date] exI [of _ ?time] exI [of _ "dec_padded 3 millisecond"])
      (simp add: clock_time_def)
qed

lemma managed_ordinal_iff:
  "managed_ordinal rest \<longleftrightarrow> rest = [] \<or> (\<exists>n. 2 \<le> n \<and> n \<le> u64_max \<and> rest = lit ''--'' @ dec_nat n)"
proof
  assume m: "managed_ordinal rest"
  show "rest = [] \<or> (\<exists>n. 2 \<le> n \<and> n \<le> u64_max \<and> rest = lit ''--'' @ dec_nat n)"
  proof (cases "rest = []")
    case False
    with m obtain digits where d: "str_strip_prefix (lit ''--'') rest = Some digits" "digits \<noteq> []" "hd digits \<noteq> 48"
        "list_all is_ascii_digit digits" "\<exists>v. parse_u64 digits = Some v \<and> 2 \<le> v"
      by (auto simp: managed_ordinal_def split: option.splits if_splits)
    have "hd digits \<noteq> ch_plus" using d(2,4) by (cases digits) (auto simp: is_ascii_digit_def)
    with d(5) have v: "2 \<le> digits_value digits" "digits_value digits \<le> u64_max"
      by (auto simp: parse_u64_def split: if_splits)
    have "rest = lit ''--'' @ digits"
      using d(1) by (auto simp: str_strip_prefix_def split: if_splits) (metis append_take_drop_id)
    moreover have "digits = dec_nat (digits_value digits)" by (rule digits_as_dec_nat [OF d(4,2,3)])
    ultimately show ?thesis using v by metis
  qed simp
next
  assume "rest = [] \<or> (\<exists>n. 2 \<le> n \<and> n \<le> u64_max \<and> rest = lit ''--'' @ dec_nat n)"
  then show "managed_ordinal rest"
  proof
    assume "\<exists>n. 2 \<le> n \<and> n \<le> u64_max \<and> rest = lit ''--'' @ dec_nat n"
    then obtain n where n: "2 \<le> n" "n \<le> u64_max" "rest = lit ''--'' @ dec_nat n" by blast
    have d: "list_all is_ascii_digit (dec_nat n)" using dec_nat_digits by (simp add: list_all_iff)
    then have "hd (dec_nat n) \<noteq> ch_plus" by (cases "dec_nat n") (auto simp: is_ascii_digit_def)
    with n(1,2) d have "parse_u64 (dec_nat n) = Some n" by (simp add: parse_u64_def)
    with n d dec_nat_hd [of n] show ?thesis by (simp add: managed_ordinal_def str_strip_prefix_def lit_def)
  qed (simp add: managed_ordinal_def)
qed

lemma generated_filename_ordinal:
  "1 \<le> n \<Longrightarrow> generated_filename stamp n
     = FILE_PREFIX @ (stamp @ (if n = 1 then [] else lit ''--'' @ dec_nat n)) @ FILE_SUFFIX"
  by (simp add: generated_filename_def)

lemma strip_name: "Option.bind (str_strip_prefix FILE_PREFIX f) (str_strip_suffix FILE_SUFFIX) = Some body
    \<longleftrightarrow> f = FILE_PREFIX @ body @ FILE_SUFFIX"
proof
  assume "Option.bind (str_strip_prefix FILE_PREFIX f) (str_strip_suffix FILE_SUFFIX) = Some body"
  then obtain g where g: "take (length FILE_PREFIX) f = FILE_PREFIX" "g = drop (length FILE_PREFIX) f"
      "drop (length g - length FILE_SUFFIX) g = FILE_SUFFIX" "body = take (length g - length FILE_SUFFIX) g"
    by (auto simp: str_strip_prefix_def str_strip_suffix_def split: if_splits)
  from g(3,4) have "g = body @ FILE_SUFFIX" by (metis append_take_drop_id)
  with g(1,2) show "f = FILE_PREFIX @ body @ FILE_SUFFIX" by (metis append_take_drop_id)
qed (simp add: str_strip_prefix_def str_strip_suffix_def)

lemma file_affixes_ascii: "ascii FILE_PREFIX" "ascii FILE_SUFFIX" "ascii (lit ''--'')" "ascii (dec_nat n)"
proof -
  show "ascii FILE_PREFIX" "ascii FILE_SUFFIX" "ascii (lit ''--'')" by code_simp+
  show "ascii (dec_nat n)" by (rule ascii_digits) (use dec_nat_digits in \<open>simp add: list_all_iff\<close>)
qed

lemma is_managed_filename_iff:
  assumes "list_all is_scalar filename"
  shows "is_managed_filename filename \<longleftrightarrow> (\<exists>stamp rest. filename = FILE_PREFIX @ (stamp @ rest) @ FILE_SUFFIX
     \<and> is_valid_timestamp stamp \<and> managed_ordinal rest)"
proof
  assume m: "is_managed_filename filename"
  then obtain body where f: "filename = FILE_PREFIX @ body @ FILE_SUFFIX"
    unfolding is_managed_filename_def by (auto simp: strip_name split: option.splits)
  have strip: "Option.bind (str_strip_prefix FILE_PREFIX filename) (str_strip_suffix FILE_SUFFIX) = Some body"
    using f by (simp add: strip_name)
  from m obtain stamp where s: "20 \<le> byte_len body" "from_utf8 (take 20 (as_bytes body)) = Some stamp"
      "is_valid_timestamp stamp" "managed_ordinal (drop_bytes (byte_len stamp) body)"
    unfolding is_managed_filename_def strip by (auto split: option.splits if_splits)
  have a: "ascii stamp" "length stamp = 20" using valid_timestamp_ascii [OF s(3)] by simp_all
  have b: "as_bytes stamp = take 20 (as_bytes body)" using from_utf8_Some [OF s(2)] by simp
  have "list_all is_scalar body" using assms f by simp
  moreover have "\<forall>b\<in>set (take 20 (as_bytes body)). b < 128" using a(1) by (simp only: b [symmetric] as_bytes_below_128)
  ultimately have t: "ascii (take 20 body)" "as_bytes (take 20 body) = take 20 (as_bytes body)"
    using ascii_start [of body 20] s(1) by simp_all
  have "stamp = take 20 body" using from_utf8_ascii [OF t(1)] t(2) s(2) by simp
  then have body: "body = stamp @ drop 20 body" by simp
  then have "drop_bytes (byte_len stamp) body = drop 20 body" by (metis drop_bytes_append)
  with s(3,4) body f show "\<exists>stamp rest. filename = FILE_PREFIX @ (stamp @ rest) @ FILE_SUFFIX
     \<and> is_valid_timestamp stamp \<and> managed_ordinal rest" by metis
next
  assume "\<exists>stamp rest. filename = FILE_PREFIX @ (stamp @ rest) @ FILE_SUFFIX
     \<and> is_valid_timestamp stamp \<and> managed_ordinal rest"
  then obtain stamp rest where f: "filename = FILE_PREFIX @ (stamp @ rest) @ FILE_SUFFIX"
    and v: "is_valid_timestamp stamp" "managed_ordinal rest" by blast
  have a: "ascii stamp" "length stamp = 20" "byte_len stamp = 20"
    using valid_timestamp_ascii [OF v(1)] by (simp_all add: ascii_byte_len)
  have strip: "Option.bind (str_strip_prefix FILE_PREFIX filename) (str_strip_suffix FILE_SUFFIX) = Some (stamp @ rest)"
    unfolding strip_name by (rule f)
  have "take 20 (as_bytes (stamp @ rest)) = as_bytes stamp" using a(3) by simp
  moreover have "drop_bytes 20 (stamp @ rest) = rest" using drop_bytes_append [of stamp rest] a(3) by simp
  ultimately show "is_managed_filename filename"
    unfolding is_managed_filename_def strip using a v from_utf8_ascii [OF a(1)] by simp
qed

text \<open>The name under which an image is staged is never one of those.\<close>

lemma staged_not_managed: "\<not> managed_entry (as_bytes (staged_filename stamp n))"
proof
  assume "managed_entry (as_bytes (staged_filename stamp n))"
  then obtain f where f: "from_utf8 (as_bytes (staged_filename stamp n)) = Some f" "is_managed_filename f"
    by (auto simp: managed_entry_def split: option.splits)
  from f(2) obtain body where "f = FILE_PREFIX @ body @ FILE_SUFFIX"
    by (auto simp: is_managed_filename_iff from_utf8_Some [OF f(1)])
  then have "hd (as_bytes f) = 97" by (simp add: FILE_PREFIX_def lit_def encode_char_def)
  moreover have "hd (as_bytes (staged_filename stamp n)) = 46" by (simp add: staged_filename_def encode_char_def)
  ultimately show False using from_utf8_Some [OF f(1)] by simp
qed

lemma managed_entry_iff:
  "managed_entry name \<longleftrightarrow> (\<exists>stamp n. is_valid_timestamp stamp \<and> 1 \<le> n \<and> n \<le> u64_max
   \<and> name = as_bytes (generated_filename stamp n))"
proof
  assume "managed_entry name"
  then obtain f where f: "from_utf8 name = Some f" "is_managed_filename f"
    by (auto simp: managed_entry_def split: option.splits)
  then obtain stamp rest where r: "f = FILE_PREFIX @ (stamp @ rest) @ FILE_SUFFIX" "is_valid_timestamp stamp"
      "managed_ordinal rest"
    using is_managed_filename_iff from_utf8_Some [OF f(1)] by blast
  from r(3) obtain n where n: "1 \<le> n" "n \<le> u64_max" "rest = (if n = 1 then [] else lit ''--'' @ dec_nat n)"
  proof (cases "rest = []")
    case True
    then show thesis using that [of 1] by (simp add: u64_max_def)
  next
    case False
    with r(3) obtain n where "2 \<le> n" "n \<le> u64_max" "rest = lit ''--'' @ dec_nat n"
      by (auto simp: managed_ordinal_iff)
    then show thesis using that [of n] by simp
  qed
  have "f = generated_filename stamp n" using r(1) n generated_filename_ordinal by simp
  with f(1) r(2) n(1,2) show "\<exists>stamp n. is_valid_timestamp stamp \<and> 1 \<le> n \<and> n \<le> u64_max
      \<and> name = as_bytes (generated_filename stamp n)"
    using from_utf8_Some [OF f(1)] by blast
next
  assume "\<exists>stamp n. is_valid_timestamp stamp \<and> 1 \<le> n \<and> n \<le> u64_max \<and> name = as_bytes (generated_filename stamp n)"
  then obtain stamp n where s: "is_valid_timestamp stamp" "1 \<le> n" "n \<le> u64_max"
      "name = as_bytes (generated_filename stamp n)" by blast
  let ?rest = "if n = 1 then [] else lit ''--'' @ dec_nat n"
  have g: "generated_filename stamp n = FILE_PREFIX @ (stamp @ ?rest) @ FILE_SUFFIX"
    by (rule generated_filename_ordinal [OF s(2)])
  then have "ascii (generated_filename stamp n)"
    using valid_timestamp_ascii [OF s(1)] file_affixes_ascii by simp
  then have u: "from_utf8 name = Some (generated_filename stamp n)" by (simp add: s(4) from_utf8_ascii)
  have "managed_ordinal ?rest" using s(2,3) by (auto simp: managed_ordinal_iff intro!: exI [of _ n])
  then have "is_managed_filename (generated_filename stamp n)"
    using is_managed_filename_iff from_utf8_Some [OF u] g s(1) by blast
  then show "managed_entry name" by (simp add: managed_entry_def u)
qed

section \<open>Property\<close>

text \<open>C17. The cleanup knows the files of the program by their names: a name in the directory is taken
  for one of its screenshots exactly if the program may have made it, from the time stamp of a date of
  the calendar (of the years 1 to 9999) and a time of the day, with an ordinal in the range of 64
  bits.\<close>

theorem managed_names_are_generated:
  "managed_entry name \<longleftrightarrow> (\<exists>year month day hour minute second millisecond n.
     calendar_date year month day \<and> clock_time hour minute second millisecond \<and> 1 \<le> n \<and> n \<le> u64_max
     \<and> name = as_bytes (generated_filename (timestamp year month day hour minute second millisecond) n))"
  unfolding managed_entry_iff timestamps_are_dates by blast

end
