(* ===== verification/Shot_Files.thy ===== *)
theory Shot_Files
  imports Shot_Names
begin

text \<open>
  Publishing a screenshot, \<open>crates/cli/src/commands/screenshot/output.rs\<close>.  The disk is what names
  stand for (a path names an entry, a file is an inode) and what the files hold.  Between any two calls
  of the program others may change the disk in any way, and any call may fail: both are parameters,
  indexed by the number of the call.  What the operating system knows of paths (following links,
  listing and canonicalising directories) is a parameter too.  The log of the calls that changed or
  inspected names is not in the code; the properties are about it.
\<close>

section \<open>The disk\<close>

datatype disk_error = DeNotFound | DeAlreadyExists | DeOther nat

record disk_file =
  df_bytes :: "byte list"
  df_modified :: nat

datatype disk_entry = EntFile nat | EntDirectory | EntOther

record disk =
  dk_names :: "os_path \<Rightarrow> disk_entry option"
  dk_files :: "nat \<Rightarrow> disk_file option"

text \<open>Each event is kept with the disk it found.\<close>

datatype disk_event =
    EvMakeDir os_path
  | EvInspect os_path
  | EvCreate os_path nat
  | EvWrite nat "byte list"
  | EvLink os_path os_path
  | EvRemove os_path
  | EvRemoveFailed os_path

type_synonym disk_log = "(disk_event \<times> disk) list"

record io_state =
  io_disk :: disk
  io_calls :: nat
  io_log :: disk_log

record platform =
  pf_others :: "nat \<Rightarrow> disk \<Rightarrow> disk"
  pf_fault :: "nat \<Rightarrow> disk_error option"
  pf_written :: "nat \<Rightarrow> nat"
  pf_clock :: "nat \<Rightarrow> nat"
  pf_new_file :: "disk \<Rightarrow> nat"
  pf_is_dir :: "disk \<Rightarrow> os_path \<Rightarrow> disk_error + bool"
  pf_canonicalize :: "disk \<Rightarrow> os_path \<Rightarrow> disk_error + os_path"
  pf_keeps_times :: bool
  pf_current_dir :: "disk \<Rightarrow> disk_error + os_path"
  pf_read_dir :: "disk \<Rightarrow> os_path \<Rightarrow> disk_error + (disk_error + byte list) list"

type_synonym ('e, 'a) io = "io_state \<Rightarrow> ('e + 'a) \<times> io_state"

text \<open>\<open>Ok(..)\<close>, \<open>Err(..)\<close>, \<open>?\<close> and \<open>map_err\<close>.\<close>

definition io_return :: "'a \<Rightarrow> ('e, 'a) io" where
  "io_return x s = (Inr x, s)"

definition io_fail :: "'e \<Rightarrow> ('e, 'a) io" where
  "io_fail e s = (Inl e, s)"

definition io_bind :: "('e, 'a) io \<Rightarrow> ('a \<Rightarrow> ('e, 'b) io) \<Rightarrow> ('e, 'b) io" where
  "io_bind m f s = (case m s of (Inl e, s1) \<Rightarrow> (Inl e, s1) | (Inr x, s1) \<Rightarrow> f x s1)"

definition io_map_err :: "('e \<Rightarrow> 'f) \<Rightarrow> ('e, 'a) io \<Rightarrow> ('f, 'a) io" where
  "io_map_err g m s = (case m s of (Inl e, s1) \<Rightarrow> (Inl (g e), s1) | (Inr x, s1) \<Rightarrow> (Inr x, s1))"

definition io_handle :: "('e, 'a) io \<Rightarrow> ('e + 'a \<Rightarrow> ('f, 'b) io) \<Rightarrow> ('f, 'b) io" where
  "io_handle m f s = (case m s of (r, s1) \<Rightarrow> f r s1)"

section \<open>The calls of the file system\<close>

text \<open>A call: the others have had their turn, then it fails or does its work.\<close>

definition io_call :: "platform \<Rightarrow> (disk_error, 'a) io \<Rightarrow> (disk_error, 'a) io" where
  "io_call P act s =
     (let s1 = s\<lparr>io_disk := pf_others P (io_calls s) (io_disk s), io_calls := Suc (io_calls s)\<rparr>
      in case pf_fault P (io_calls s) of Some e \<Rightarrow> (Inl e, s1) | None \<Rightarrow> act s1)"

definition io_query :: "(disk \<Rightarrow> disk_error + 'a) \<Rightarrow> (disk_error, 'a) io" where
  "io_query q s = (q (io_disk s), s)"

definition log_event :: "disk_event \<Rightarrow> io_state \<Rightarrow> io_state" where
  "log_event ev s = s\<lparr>io_log := (ev, io_disk s) # io_log s\<rparr>"

definition set_name :: "os_path \<Rightarrow> disk_entry option \<Rightarrow> io_state \<Rightarrow> io_state" where
  "set_name p entry s = s\<lparr>io_disk := (io_disk s)\<lparr>dk_names := (dk_names (io_disk s))(p := entry)\<rparr>\<rparr>"

definition set_file :: "nat \<Rightarrow> disk_file \<Rightarrow> io_state \<Rightarrow> io_state" where
  "set_file i f s = s\<lparr>io_disk := (io_disk s)\<lparr>dk_files := (dk_files (io_disk s))(i := Some f)\<rparr>\<rparr>"

text \<open>\<open>fs::metadata\<close> follows links, \<open>fs::symlink_metadata\<close> looks at the entry itself.\<close>

definition fs_metadata_is_dir :: "platform \<Rightarrow> os_path \<Rightarrow> (disk_error, bool) io" where
  "fs_metadata_is_dir P p = io_call P (io_query (\<lambda>d. pf_is_dir P d p))"

definition fs_canonicalize1 :: "platform \<Rightarrow> os_path \<Rightarrow> (disk_error, os_path) io" where
  "fs_canonicalize1 P p = io_call P (io_query (\<lambda>d. pf_canonicalize P d p))"

definition fs_current_dir :: "platform \<Rightarrow> (disk_error, os_path) io" where
  "fs_current_dir P = io_call P (io_query (pf_current_dir P))"

definition fs_read_dir :: "platform \<Rightarrow> os_path \<Rightarrow> (disk_error, (disk_error + byte list) list) io" where
  "fs_read_dir P p = io_call P (io_query (\<lambda>d. pf_read_dir P d p))"

definition entry_metadata :: "disk \<Rightarrow> os_path \<Rightarrow> disk_error + (disk_entry \<times> nat)" where
  "entry_metadata d p = (case dk_names d p of
     None \<Rightarrow> Inl DeNotFound
   | Some (EntFile i) \<Rightarrow> Inr (EntFile i, case dk_files d i of Some f \<Rightarrow> df_modified f | None \<Rightarrow> 0)
   | Some entry \<Rightarrow> Inr (entry, 0))"

definition fs_symlink_metadata1 :: "platform \<Rightarrow> os_path \<Rightarrow> (disk_error, disk_entry \<times> nat) io" where
  "fs_symlink_metadata1 P p =
     io_call P (\<lambda>s. (entry_metadata (io_disk s) p, log_event (EvInspect p) s))"

definition fs_create_dir :: "platform \<Rightarrow> os_path \<Rightarrow> (disk_error, unit) io" where
  "fs_create_dir P p = io_call P (\<lambda>s.
     if dk_names (io_disk s) p \<noteq> None then (Inl DeAlreadyExists, s)
     else (Inr (), set_name p (Some EntDirectory) (log_event (EvMakeDir p) s)))"

text \<open>\<open>OpenOptions::new().write(true).create_new(true).open(..)\<close>.\<close>

definition fs_create_new :: "platform \<Rightarrow> os_path \<Rightarrow> (disk_error, nat) io" where
  "fs_create_new P p = io_call P (\<lambda>s.
     if dk_names (io_disk s) p \<noteq> None then (Inl DeAlreadyExists, s)
     else let i = pf_new_file P (io_disk s)
       in (Inr i, set_file i \<lparr>df_bytes = [], df_modified = pf_clock P (io_calls s)\<rparr>
                    (set_name p (Some (EntFile i)) (log_event (EvCreate p i) s))))"

text \<open>\<open>write_all\<close> from the start of the file; when it fails, a part has been written.\<close>

definition put_bytes :: "platform \<Rightarrow> nat \<Rightarrow> byte list \<Rightarrow> io_state \<Rightarrow> io_state" where
  "put_bytes P i bs s =
     (let old = (case dk_files (io_disk s) i of Some f \<Rightarrow> df_bytes f | None \<Rightarrow> [])
      in set_file i \<lparr>df_bytes = bs @ drop (length bs) old, df_modified = pf_clock P (io_calls s)\<rparr>
           (log_event (EvWrite i bs) s))"

definition fs_write_all :: "platform \<Rightarrow> nat \<Rightarrow> byte list \<Rightarrow> (disk_error, unit) io" where
  "fs_write_all P i bs s =
     (case io_call P (io_return ()) s of
        (Inl e, s1) \<Rightarrow> (Inl e, put_bytes P i (take (pf_written P (io_calls s)) bs) s1)
      | (Inr u, s1) \<Rightarrow> (Inr u, put_bytes P i bs s1))"

definition fs_sync_all :: "platform \<Rightarrow> nat \<Rightarrow> (disk_error, unit) io" where
  "fs_sync_all P i = io_call P (io_return ())"

definition fs_hard_link :: "platform \<Rightarrow> os_path \<Rightarrow> os_path \<Rightarrow> (disk_error, unit) io" where
  "fs_hard_link P p q = io_call P (\<lambda>s. case dk_names (io_disk s) p of
     None \<Rightarrow> (Inl DeNotFound, s)
   | Some EntDirectory \<Rightarrow> (Inl (DeOther 1), s)
   | Some entry \<Rightarrow>
       if dk_names (io_disk s) q \<noteq> None then (Inl DeAlreadyExists, s)
       else (Inr (), set_name q (Some entry) (log_event (EvLink p q) s)))"

definition fs_remove_file :: "platform \<Rightarrow> os_path \<Rightarrow> (disk_error, unit) io" where
  "fs_remove_file P p s =
     (case io_call P (\<lambda>s1. case dk_names (io_disk s1) p of
            None \<Rightarrow> (Inl DeNotFound, s1)
          | Some EntDirectory \<Rightarrow> (Inl (DeOther 1), s1)
          | Some _ \<Rightarrow> (Inr (), set_name p None (log_event (EvRemove p) s1))) s of
        (Inl e, s2) \<Rightarrow> (Inl e, log_event (EvRemoveFailed p) s2)
      | (Inr u, s2) \<Rightarrow> (Inr u, s2))"

section \<open>Errors\<close>

datatype output_error =
    OeInvalidTimestamp
  | OeInvalidOutput os_path ustr
  | OeIo ustr os_path disk_error

definition output_error_message :: "(os_path \<Rightarrow> ustr) \<Rightarrow> (disk_error \<Rightarrow> ustr) \<Rightarrow> output_error \<Rightarrow> ustr" where
  "output_error_message show_path show_error e = (case e of
     OeInvalidTimestamp \<Rightarrow> lit ''Invalid screenshot timestamp: expected YYYYMMDDTHHMMSS.mmmZ.''
   | OeInvalidOutput path reason \<Rightarrow> lit ''Invalid screenshot output '' @ [ch_quote] @ show_path path @ [ch_quote]
       @ lit '': '' @ reason @ lit ''.''
   | OeIo operation path source \<Rightarrow> lit ''Screenshot output failed while '' @ operation @ lit '' '' @ [ch_quote]
       @ show_path path @ [ch_quote] @ lit '': '' @ show_error source @ lit ''.'')"

definition io_error :: "string \<Rightarrow> os_path \<Rightarrow> disk_error \<Rightarrow> output_error" where
  "io_error operation path source = OeIo (lit operation) path source"

definition invalid_output :: "os_path \<Rightarrow> string \<Rightarrow> output_error" where
  "invalid_output path reason = OeInvalidOutput path (lit reason)"

section \<open>Directories\<close>

definition existing_parent :: "os_path \<Rightarrow> os_path" where
  "existing_parent path = (case path_parent b_slash b_dot path of
     Some parent \<Rightarrow> if parent \<noteq> [] then parent else [b_dot]
   | None \<Rightarrow> [b_dot])"

definition join_name :: "os_path \<Rightarrow> ustr \<Rightarrow> os_path" where
  "join_name directory name = path_join b_slash directory (as_bytes name)"

definition canonicalize_directory :: "platform \<Rightarrow> os_path \<Rightarrow> (output_error, os_path) io" where
  "canonicalize_directory P path = io_map_err (io_error ''resolving directory'' path) (fs_canonicalize1 P path)"

definition absolute_path :: "platform \<Rightarrow> os_path \<Rightarrow> (output_error, os_path) io" where
  "absolute_path P path =
     (if path_is_absolute b_slash path then io_return path
      else io_map_err (io_error ''resolving current directory'' path)
        (io_bind (fs_current_dir P) (\<lambda>directory. io_return (path_join b_slash directory path))))"

definition require_directory :: "platform \<Rightarrow> os_path \<Rightarrow> (output_error, unit) io" where
  "require_directory P path = io_handle (fs_metadata_is_dir P path) (\<lambda>r. case r of
     Inr True \<Rightarrow> io_return ()
   | Inr False \<Rightarrow> io_fail (invalid_output path ''parent is not a directory'')
   | Inl DeNotFound \<Rightarrow> io_fail (invalid_output path ''parent directory does not exist'')
   | Inl source \<Rightarrow> io_fail (io_error ''inspecting directory'' path source))"

definition create_real_directory :: "platform \<Rightarrow> os_path \<Rightarrow> (output_error, unit) io" where
  "create_real_directory P path = io_handle (fs_create_dir P path) (\<lambda>r. case r of
     Inr _ \<Rightarrow> io_return ()
   | Inl DeAlreadyExists \<Rightarrow> io_handle (fs_symlink_metadata1 P path) (\<lambda>m. case m of
       Inr (EntDirectory, _) \<Rightarrow> io_return ()
     | Inr _ \<Rightarrow> io_fail (invalid_output path ''managed path is not a real directory'')
     | Inl source \<Rightarrow> io_fail (io_error ''inspecting managed directory'' path source))
   | Inl source \<Rightarrow> io_fail (io_error ''creating managed directory'' path source))"

definition MANAGED_PARENT_DIRECTORY :: ustr where "MANAGED_PARENT_DIRECTORY = lit ''acadctl''"
definition MANAGED_SCREENSHOT_DIRECTORY :: ustr where "MANAGED_SCREENSHOT_DIRECTORY = lit ''screenshots''"

definition prepare_managed_directory :: "platform \<Rightarrow> os_path \<Rightarrow> (output_error, os_path) io" where
  "prepare_managed_directory P system_temp_directory =
     (let parent = join_name system_temp_directory MANAGED_PARENT_DIRECTORY;
          directory = join_name parent MANAGED_SCREENSHOT_DIRECTORY
      in io_bind (create_real_directory P parent) (\<lambda>_.
         io_bind (create_real_directory P directory) (\<lambda>_. io_return directory)))"

section \<open>Cleaning up\<close>

text \<open>24 hours, in nanoseconds.\<close>

definition MANAGED_SCREENSHOT_RETENTION :: nat where
  "MANAGED_SCREENSHOT_RETENTION = 24 * 60 * 60 * 10 ^ 9"

definition is_expired :: "nat \<Rightarrow> nat \<Rightarrow> bool" where
  "is_expired now modified \<longleftrightarrow> modified \<le> now \<and> now - modified > MANAGED_SCREENSHOT_RETENTION"

definition metadata_modified :: "platform \<Rightarrow> nat \<Rightarrow> (disk_error, nat) io" where
  "metadata_modified P modified = (if pf_keeps_times P then io_return modified else io_fail (DeOther 0))"

fun cleanup_entries :: "platform \<Rightarrow> os_path \<Rightarrow> nat \<Rightarrow> (disk_error + byte list) list \<Rightarrow> (output_error, unit) io" where
  "cleanup_entries P directory now [] = io_return ()"
| "cleanup_entries P directory now (Inl source # entries) =
     io_fail (io_error ''reading managed directory'' directory source)"
| "cleanup_entries P directory now (Inr name # entries) =
     (let path = path_join b_slash directory name
      in if \<not> managed_entry name then cleanup_entries P directory now entries
         else
           io_bind (io_map_err (io_error ''inspecting managed file'' path) (fs_symlink_metadata1 P path)) (\<lambda>(entry, time).
             case entry of
               EntFile _ \<Rightarrow>
                 io_bind (io_map_err (io_error ''reading managed file time'' path) (metadata_modified P time)) (\<lambda>modified.
                   if is_expired now modified then
                     io_bind (io_map_err (io_error ''removing expired screenshot'' path) (fs_remove_file P path))
                       (\<lambda>_. cleanup_entries P directory now entries)
                   else cleanup_entries P directory now entries)
             | _ \<Rightarrow> cleanup_entries P directory now entries))"

definition cleanup_managed_directory :: "platform \<Rightarrow> os_path \<Rightarrow> nat \<Rightarrow> (output_error, unit) io" where
  "cleanup_managed_directory P directory now =
     io_bind (io_map_err (io_error ''reading managed directory'' directory) (fs_read_dir P directory))
       (cleanup_entries P directory now)"

section \<open>Destinations\<close>

datatype destination = DestExact os_path | DestGenerated os_path

definition resolve_destination :: "platform \<Rightarrow> os_path option \<Rightarrow> os_path \<Rightarrow> nat \<Rightarrow> (output_error, destination) io" where
  "resolve_destination P destination system_temp_directory now = (case destination of
     None \<Rightarrow>
       io_bind (absolute_path P system_temp_directory) (\<lambda>temp.
       io_bind (prepare_managed_directory P temp) (\<lambda>directory.
       io_bind (cleanup_managed_directory P directory now) (\<lambda>_.
       io_return (DestGenerated directory))))
   | Some path \<Rightarrow> io_handle (fs_metadata_is_dir P path) (\<lambda>r. case r of
       Inr True \<Rightarrow> io_bind (canonicalize_directory P path) (\<lambda>directory. io_return (DestGenerated directory))
     | Inr False \<Rightarrow> io_fail (invalid_output path ''destination already exists'')
     | Inl DeNotFound \<Rightarrow> io_handle (fs_symlink_metadata1 P path) (\<lambda>m. case m of
         Inr _ \<Rightarrow> io_fail (invalid_output path ''destination already exists'')
       | Inl _ \<Rightarrow> (case path_file_name b_slash b_dot path of
           None \<Rightarrow> io_fail (invalid_output path ''file name is missing'')
         | Some filename \<Rightarrow>
             io_bind (require_directory P (existing_parent path)) (\<lambda>_.
             io_bind (canonicalize_directory P (existing_parent path)) (\<lambda>parent.
             io_return (DestExact (path_join b_slash parent filename))))))
     | Inl source \<Rightarrow> io_fail (io_error ''inspecting destination'' path source)))"

definition resolved_path :: "destination \<Rightarrow> os_path" where
  "resolved_path d = (case d of DestExact path \<Rightarrow> path | DestGenerated directory \<Rightarrow> directory)"

definition destination_directory :: "destination \<Rightarrow> os_path" where
  "destination_directory d = (case d of
     DestExact path \<Rightarrow> (case path_parent b_slash b_dot path of
        Some parent \<Rightarrow> if parent \<noteq> [] then parent else [b_dot]
      | None \<Rightarrow> [b_dot])
   | DestGenerated directory \<Rightarrow> directory)"

section \<open>The staged file\<close>

record staged_file =
  sf_file :: nat
  sf_open :: bool
  sf_path :: os_path
  sf_remove_on_drop :: bool

function stage_file :: "platform \<Rightarrow> os_path \<Rightarrow> ustr \<Rightarrow> nat \<Rightarrow> (output_error, staged_file) io" where
  "stage_file P directory stamp ordinal s =
     (let path = join_name directory (staged_filename stamp ordinal)
      in case fs_create_new P path s of
           (Inr file, s1) \<Rightarrow>
             (Inr \<lparr>sf_file = file, sf_open = True, sf_path = path, sf_remove_on_drop = True\<rparr>, s1)
         | (Inl DeAlreadyExists, s1) \<Rightarrow>
             if ordinal < u64_max then stage_file P directory stamp (ordinal + 1) s1
             else (Inl (invalid_output directory ''temporary filename ordinals are exhausted''), s1)
         | (Inl source, s1) \<Rightarrow> (Inl (io_error ''creating temporary file'' path source), s1))"
  by pat_completeness auto
termination
  by (relation "measure (\<lambda>(_, _, _, ordinal, _). u64_max - ordinal)") auto

declare stage_file.simps [simp del]

definition staged_remove :: "platform \<Rightarrow> staged_file \<Rightarrow> io_state \<Rightarrow> staged_file \<times> io_state" where
  "staged_remove P staged s = (case fs_remove_file P (sf_path staged) s of
     (Inr _, s1) \<Rightarrow> (staged\<lparr>sf_remove_on_drop := False\<rparr>, s1)
   | (Inl _, s1) \<Rightarrow> (staged, s1))"

definition staged_drop :: "platform \<Rightarrow> staged_file \<Rightarrow> io_state \<Rightarrow> io_state" where
  "staged_drop P staged s = (if sf_remove_on_drop staged then snd (fs_remove_file P (sf_path staged) s) else s)"

definition staged_write :: "platform \<Rightarrow> byte list \<Rightarrow> staged_file \<Rightarrow> (output_error, staged_file) io" where
  "staged_write P png staged =
     io_bind (io_map_err (io_error ''writing temporary file'' (sf_path staged)) (fs_write_all P (sf_file staged) png)) (\<lambda>_.
     io_bind (io_map_err (io_error ''syncing temporary file'' (sf_path staged)) (fs_sync_all P (sf_file staged))) (\<lambda>_.
     io_return (staged\<lparr>sf_open := False\<rparr>)))"

section \<open>Publishing\<close>

definition publish_link :: "platform \<Rightarrow> os_path \<Rightarrow> os_path \<Rightarrow> (disk_error, unit) io" where
  "publish_link P staged target = fs_hard_link P staged target"

text \<open>What is left of the staged file goes back with the path, for its end of life.\<close>

definition published :: "platform \<Rightarrow> os_path \<Rightarrow> staged_file \<Rightarrow> (output_error, os_path \<times> staged_file) io" where
  "published P path staged s = (case staged_remove P staged s of (staged1, s1) \<Rightarrow> (Inr (path, staged1), s1))"

definition publish_exact :: "platform \<Rightarrow> os_path \<Rightarrow> staged_file \<Rightarrow> (output_error, os_path \<times> staged_file) io" where
  "publish_exact P path staged = io_bind
     (io_map_err (\<lambda>source. if source = DeAlreadyExists then invalid_output path ''destination already exists''
                            else io_error ''publishing file'' path source)
        (publish_link P (sf_path staged) path))
     (\<lambda>_. published P path staged)"

function publish_generated ::
  "platform \<Rightarrow> os_path \<Rightarrow> ustr \<Rightarrow> nat \<Rightarrow> staged_file \<Rightarrow> (output_error, os_path \<times> staged_file) io" where
  "publish_generated P directory stamp ordinal staged s =
     (let path = join_name directory (generated_filename stamp ordinal)
      in case publish_link P (sf_path staged) path s of
           (Inr _, s1) \<Rightarrow> published P path staged s1
         | (Inl DeAlreadyExists, s1) \<Rightarrow>
             if ordinal < u64_max then publish_generated P directory stamp (ordinal + 1) staged s1
             else (Inl (invalid_output directory ''screenshot filename ordinals are exhausted''), s1)
         | (Inl source, s1) \<Rightarrow> (Inl (io_error ''publishing file'' path source), s1))"
  by pat_completeness auto
termination
  by (relation "measure (\<lambda>(_, _, _, ordinal, _, _). u64_max - ordinal)") auto

declare publish_generated.simps [simp del]

definition publish_to :: "platform \<Rightarrow> destination \<Rightarrow> ustr \<Rightarrow> staged_file \<Rightarrow> (output_error, os_path \<times> staged_file) io" where
  "publish_to P destination stamp staged = (case destination of
     DestExact path \<Rightarrow> publish_exact P path staged
   | DestGenerated directory \<Rightarrow> publish_generated P directory stamp 1 staged)"

definition publish_png_in ::
  "platform \<Rightarrow> byte list \<Rightarrow> os_path option \<Rightarrow> ustr \<Rightarrow> os_path \<Rightarrow> nat \<Rightarrow> (output_error, os_path) io" where
  "publish_png_in P png destination stamp system_temp_directory now =
     (if \<not> is_valid_timestamp stamp then io_fail OeInvalidTimestamp
      else io_bind (resolve_destination P destination system_temp_directory now) (\<lambda>dest.
        if from_utf8 (resolved_path dest) = None
        then io_fail (invalid_output (resolved_path dest) ''path is not valid UTF-8'')
        else io_bind (stage_file P (destination_directory dest) stamp 1) (\<lambda>staged s.
          case io_bind (staged_write P png staged) (publish_to P dest stamp) s of
            (Inl e, s1) \<Rightarrow> (Inl e, staged_drop P staged s1)
          | (Inr (path, staged1), s1) \<Rightarrow> (Inr path, staged_drop P staged1 s1))))"

end
