(* ===== verification/Shot_Published.thy ===== *)
theory Shot_Published
  imports Shot_Files
begin

text \<open>
  What publishing a screenshot does to the disk, whatever others do in between and whichever calls
  fail.  Each part of the program is given a precondition and a postcondition on its run (\<open>io_ok\<close>);
  the invariant is about the log.
\<close>

section \<open>Conditions before and after\<close>

definition io_ok :: "(io_state \<Rightarrow> bool) \<Rightarrow> ('e, 'a) io \<Rightarrow> ('e + 'a \<Rightarrow> io_state \<Rightarrow> bool) \<Rightarrow> bool" where
  "io_ok Pre m Post \<longleftrightarrow> (\<forall>s. Pre s \<longrightarrow> (case m s of (r, s1) \<Rightarrow> Post r s1))"

lemma io_okI: "(\<And>s r s1. Pre s \<Longrightarrow> m s = (r, s1) \<Longrightarrow> Post r s1) \<Longrightarrow> io_ok Pre m Post"
  by (auto simp: io_ok_def)

lemma io_okD: "io_ok Pre m Post \<Longrightarrow> Pre s \<Longrightarrow> m s = (r, s1) \<Longrightarrow> Post r s1"
  by (auto simp: io_ok_def)

lemma io_ok_weaken:
  "io_ok Pre m Post \<Longrightarrow> (\<And>s. Pre1 s \<Longrightarrow> Pre s) \<Longrightarrow> (\<And>r s. Post r s \<Longrightarrow> Post1 r s) \<Longrightarrow> io_ok Pre1 m Post1"
  by (fastforce simp: io_ok_def)

lemma io_ok_return: "(\<And>s. Pre s \<Longrightarrow> Post (Inr x) s) \<Longrightarrow> io_ok Pre (io_return x) Post"
  by (simp add: io_ok_def io_return_def)

lemma io_ok_fail: "(\<And>s. Pre s \<Longrightarrow> Post (Inl e) s) \<Longrightarrow> io_ok Pre (io_fail e) Post"
  by (simp add: io_ok_def io_fail_def)

lemma io_ok_bind:
  assumes "io_ok Pre m Mid" and "\<And>x. io_ok (Mid (Inr x)) (f x) Post" and "\<And>e s. Mid (Inl e) s \<Longrightarrow> Post (Inl e) s"
  shows "io_ok Pre (io_bind m f) Post"
  using assms unfolding io_ok_def io_bind_def by (fastforce split: prod.splits sum.splits)

lemma io_ok_map_err:
  assumes "io_ok Pre m (\<lambda>r. Post (map_sum g id r))"
  shows "io_ok Pre (io_map_err g m) Post"
  using assms unfolding io_ok_def io_map_err_def by (fastforce split: prod.splits sum.splits)

lemma io_ok_handle:
  assumes "io_ok Pre m Mid" and "\<And>r. io_ok (Mid r) (f r) Post"
  shows "io_ok Pre (io_handle m f) Post"
  using assms unfolding io_ok_def io_handle_def by (fastforce split: prod.splits)

section \<open>What a step of the log may do\<close>

text \<open>The program has made this name, for this file, earlier.\<close>

definition made :: "disk_log \<Rightarrow> os_path \<Rightarrow> bool" where
  "made past p \<longleftrightarrow> list_ex (\<lambda>(ev, _). case ev of EvCreate q _ \<Rightarrow> q = p | _ \<Rightarrow> False) past"

definition made_file :: "disk_log \<Rightarrow> nat \<Rightarrow> bool" where
  "made_file past i \<longleftrightarrow> list_ex (\<lambda>(ev, _). case ev of EvCreate _ j \<Rightarrow> j = i | _ \<Rightarrow> False) past"

text \<open>It has looked at this name and found a regular file that has expired.\<close>

definition found_expired :: "nat \<Rightarrow> disk_log \<Rightarrow> os_path \<Rightarrow> bool" where
  "found_expired now past p \<longleftrightarrow> list_ex (\<lambda>(ev, d). case ev of
     EvInspect q \<Rightarrow> q = p \<and> (case entry_metadata d p of Inr (EntFile _, time) \<Rightarrow> is_expired now time | _ \<Rightarrow> False)
   | _ \<Rightarrow> False) past"

definition managed_path :: "os_path \<Rightarrow> os_path \<Rightarrow> bool" where
  "managed_path directory p \<longleftrightarrow> (\<exists>name. managed_entry name \<and> p = path_join b_slash directory name)"

text \<open>Directories, files and links are made under names that are free; only files of its own are written;
  what is removed is its own, or an expired screenshot among the managed ones.\<close>

definition harmless :: "(os_path \<Rightarrow> bool) \<Rightarrow> nat \<Rightarrow> disk_log \<Rightarrow> disk_event \<times> disk \<Rightarrow> bool" where
  "harmless managed now past step = (case step of
     (EvMakeDir p, d) \<Rightarrow> dk_names d p = None
   | (EvInspect p, d) \<Rightarrow> True
   | (EvCreate p i, d) \<Rightarrow> dk_names d p = None
   | (EvWrite i bs, d) \<Rightarrow> made_file past i
   | (EvLink p q, d) \<Rightarrow> made past p \<and> dk_names d q = None
   | (EvRemove p, d) \<Rightarrow> made past p \<or> (managed p \<and> found_expired now past p)
   | (EvRemoveFailed p, d) \<Rightarrow> True)"

text \<open>The newest step is the first of the log.\<close>

fun harmless_log :: "(os_path \<Rightarrow> bool) \<Rightarrow> nat \<Rightarrow> disk_log \<Rightarrow> bool" where
  "harmless_log managed now [] = True"
| "harmless_log managed now (step # past) = (harmless managed now past step \<and> harmless_log managed now past)"

text \<open>Nothing has been staged yet.\<close>

definition staging :: "disk_event \<Rightarrow> bool" where
  "staging ev = (case ev of EvCreate _ _ \<Rightarrow> True | EvLink _ _ \<Rightarrow> True | EvWrite _ _ \<Rightarrow> True | _ \<Rightarrow> False)"

definition unstaged :: "(os_path \<Rightarrow> bool) \<Rightarrow> nat \<Rightarrow> io_state \<Rightarrow> bool" where
  "unstaged managed now s \<longleftrightarrow> harmless_log managed now (io_log s) \<and> list_all (\<lambda>(ev, _). \<not> staging ev) (io_log s)"

text \<open>Others leave a staged file alone.\<close>

definition left_alone :: "platform \<Rightarrow> os_path \<Rightarrow> nat \<Rightarrow> bool" where
  "left_alone P p i \<longleftrightarrow> (\<forall>n d. dk_names d p = Some (EntFile i) \<longrightarrow>
     dk_names (pf_others P n d) p = Some (EntFile i)
     \<and> map_option df_bytes (dk_files (pf_others P n d) i) = map_option df_bytes (dk_files d i))"

definition holds_file :: "disk \<Rightarrow> os_path \<Rightarrow> nat \<Rightarrow> byte list \<Rightarrow> bool" where
  "holds_file d p i bs \<longleftrightarrow> dk_names d p = Some (EntFile i) \<and> map_option df_bytes (dk_files d i) = Some bs"

text \<open>The file \<open>i\<close> is staged as \<open>p\<close> and published nowhere; it holds \<open>bs\<close> if nobody else touched it.\<close>

definition is_create :: "disk_event \<Rightarrow> bool" where
  "is_create ev = (case ev of EvCreate _ _ \<Rightarrow> True | _ \<Rightarrow> False)"

definition is_link :: "disk_event \<Rightarrow> bool" where
  "is_link ev = (case ev of EvLink _ _ \<Rightarrow> True | _ \<Rightarrow> False)"

definition staged_log :: "(os_path \<Rightarrow> bool) \<Rightarrow> nat \<Rightarrow> os_path \<Rightarrow> nat \<Rightarrow> disk_log \<Rightarrow> bool" where
  "staged_log managed now p i log \<longleftrightarrow> harmless_log managed now log
     \<and> filter is_create (map fst log) = [EvCreate p i] \<and> list_all (\<lambda>(ev, _). \<not> is_link ev) log"

definition staged_at :: "platform \<Rightarrow> (os_path \<Rightarrow> bool) \<Rightarrow> nat \<Rightarrow> os_path \<Rightarrow> nat \<Rightarrow> byte list \<Rightarrow> io_state \<Rightarrow> bool" where
  "staged_at P managed now p i bs s \<longleftrightarrow> staged_log managed now p i (io_log s)
     \<and> (left_alone P p i \<longrightarrow> holds_file (io_disk s) p i bs)"

lemmas log_defs = harmless_def made_def made_file_def found_expired_def

section \<open>Before a file is staged\<close>

text \<open>A call keeps a property of the log if its work does.\<close>

lemma io_ok_call_log:
  assumes "\<And>s. L (io_log s) \<Longrightarrow> (case act s of (r, s1) \<Rightarrow> Post r s1)" and "\<And>e s. L (io_log s) \<Longrightarrow> Post (Inl e) s"
  shows "io_ok (\<lambda>s. L (io_log s)) (io_call P act) Post"
proof (rule io_okI)
  fix s r s1
  assume l: "L (io_log s)" and run: "io_call P act s = (r, s1)"
  let ?s = "s\<lparr>io_disk := pf_others P (io_calls s) (io_disk s), io_calls := Suc (io_calls s)\<rparr>"
  have "L (io_log ?s)" using l by simp
  with assms(1) [of ?s] assms(2) [of ?s] run show "Post r s1"
    by (auto simp: io_call_def Let_def split: option.splits)
qed

lemma unstaged_log: "unstaged M now s \<longleftrightarrow> (\<lambda>l. harmless_log M now l \<and> list_all (\<lambda>(ev, _). \<not> staging ev) l) (io_log s)"
  by (simp add: unstaged_def)

abbreviation (input) keeps_unstaged :: "(os_path \<Rightarrow> bool) \<Rightarrow> nat \<Rightarrow> ('e, 'a) io \<Rightarrow> bool" where
  "keeps_unstaged M now m \<equiv> io_ok (unstaged M now) m (\<lambda>_. unstaged M now)"

lemma unstaged_call:
  assumes "\<And>s. unstaged M now s \<Longrightarrow> (case act s of (r, s1) \<Rightarrow> Post r s1)" and "\<And>e s. unstaged M now s \<Longrightarrow> Post (Inl e) s"
  shows "io_ok (unstaged M now) (io_call P act) Post"
  using io_ok_call_log [where L = "\<lambda>l. harmless_log M now l \<and> list_all (\<lambda>(ev, _). \<not> staging ev) l"
      and act = act and Post = Post and P = P] assms
  by (simp add: unstaged_def [abs_def])

lemma unstaged_query: "keeps_unstaged M now (io_call P (io_query q))"
  by (rule unstaged_call) (simp_all add: io_query_def)

lemma unstaged_queries:
  "keeps_unstaged M now (fs_metadata_is_dir P p)" "keeps_unstaged M now (fs_canonicalize1 P p)"
  "keeps_unstaged M now (fs_current_dir P)" "keeps_unstaged M now (fs_read_dir P p)"
  by (simp_all add: fs_metadata_is_dir_def fs_canonicalize1_def fs_current_dir_def fs_read_dir_def unstaged_query)

lemma unstaged_symlink_metadata:
  "io_ok (unstaged M now) (fs_symlink_metadata1 P p) (\<lambda>r s. unstaged M now s
     \<and> (case r of Inr (EntFile i, time) \<Rightarrow> is_expired now time \<longrightarrow> found_expired now (io_log s) p | _ \<Rightarrow> True))"
  unfolding fs_symlink_metadata1_def
  by (rule unstaged_call)
    (auto simp: unstaged_def log_event_def staging_def harmless_def found_expired_def split: sum.splits prod.splits disk_entry.splits)

lemma unstaged_create_dir: "keeps_unstaged M now (fs_create_dir P p)"
  unfolding fs_create_dir_def
  by (rule unstaged_call) (auto simp: unstaged_def log_event_def set_name_def staging_def harmless_def)

lemma unstaged_remove:
  assumes "M p"
  shows "io_ok (\<lambda>s. unstaged M now s \<and> found_expired now (io_log s) p) (fs_remove_file P p) (\<lambda>_. unstaged M now)"
proof (rule io_okI)
  fix s r s1
  assume pre: "unstaged M now s \<and> found_expired now (io_log s) p" and run: "fs_remove_file P p s = (r, s1)"
  show "unstaged M now s1"
    using pre assms run
    by (auto simp: fs_remove_file_def io_call_def Let_def unstaged_def log_event_def set_name_def staging_def harmless_def
        split: option.splits disk_entry.splits)
qed

lemma io_ok_conj_case: "io_ok Pre m Post \<Longrightarrow> io_ok (\<lambda>s. Pre s \<and> A) m (\<lambda>r s. Post r s \<and> A)"
  by (auto simp: io_ok_def split: prod.splits)

lemma unstaged_return: "keeps_unstaged M now (io_return x)"
  by (rule io_ok_return)

lemma unstaged_fail: "keeps_unstaged M now (io_fail e)"
  by (rule io_ok_fail)

lemma unstaged_bind:
  "keeps_unstaged M now m \<Longrightarrow> (\<And>x. keeps_unstaged M now (f x)) \<Longrightarrow> keeps_unstaged M now (io_bind m f)"
  by (rule io_ok_bind)

lemma unstaged_handle:
  "keeps_unstaged M now m \<Longrightarrow> (\<And>r. keeps_unstaged M now (f r)) \<Longrightarrow> keeps_unstaged M now (io_handle m f)"
  by (rule io_ok_handle)

lemma unstaged_map_err: "keeps_unstaged M now m \<Longrightarrow> keeps_unstaged M now (io_map_err g m)"
  by (rule io_ok_map_err)

lemma unstaged_metadata: "keeps_unstaged M now (fs_symlink_metadata1 P p)"
  by (rule io_ok_weaken [OF unstaged_symlink_metadata]) (assumption, erule conjunct1)

lemmas unstaged_rules = unstaged_return unstaged_fail unstaged_bind unstaged_handle unstaged_map_err unstaged_queries
  unstaged_create_dir unstaged_metadata

lemma unstaged_require_directory: "keeps_unstaged M now (require_directory P path)"
  unfolding require_directory_def
  by (intro unstaged_rules) (auto simp: unstaged_rules split: sum.split bool.split disk_error.split)

lemma unstaged_create_real_directory: "keeps_unstaged M now (create_real_directory P path)"
  unfolding create_real_directory_def
  by (intro unstaged_rules)
    (auto simp: unstaged_rules intro!: unstaged_handle unstaged_metadata split: sum.split disk_error.split prod.split disk_entry.split)

lemma unstaged_canonicalize_directory: "keeps_unstaged M now (canonicalize_directory P path)"
  unfolding canonicalize_directory_def by (intro unstaged_rules)

lemma unstaged_cleanup_entries:
  assumes "\<And>name. managed_entry name \<Longrightarrow> M (path_join b_slash directory name)"
  shows "keeps_unstaged M now (cleanup_entries P directory now entries)"
proof (induction entries)
  case Nil
  show ?case by (simp add: unstaged_return)
next
  case (Cons entry entries)
  show ?case
  proof (cases entry)
    case (Inl source)
    then show ?thesis by (simp add: unstaged_fail)
  next
    case (Inr name)
    let ?path = "path_join b_slash directory name"
    show ?thesis
    proof (cases "managed_entry name")
      case True
      let ?found = "\<lambda>r s. unstaged M now s
        \<and> (case r of Inr (EntFile i, time) \<Rightarrow> is_expired now time \<longrightarrow> found_expired now (io_log s) ?path | _ \<Rightarrow> True)"
      have look: "io_ok (unstaged M now)
          (io_map_err (io_error ''inspecting managed file'' ?path) (fs_symlink_metadata1 P ?path)) ?found"
        by (rule io_ok_map_err, rule io_ok_weaken [OF unstaged_symlink_metadata]) (auto split: sum.splits prod.splits disk_entry.splits)
      have remove: "io_ok (\<lambda>s. unstaged M now s \<and> found_expired now (io_log s) ?path)
          (io_bind (io_map_err (io_error ''removing expired screenshot'' ?path) (fs_remove_file P ?path))
            (\<lambda>_. cleanup_entries P directory now entries)) (\<lambda>_. unstaged M now)"
        by (rule io_ok_bind [where Mid = "\<lambda>_. unstaged M now"])
          (auto intro: io_ok_map_err unstaged_remove [where M = M] assms [OF True] Cons.IH)
      let ?seen = "\<lambda>time s. unstaged M now s \<and> (is_expired now time \<longrightarrow> found_expired now (io_log s) ?path)"
      have found_file: "io_ok (?seen time)
          (io_bind (io_map_err (io_error ''reading managed file time'' ?path) (metadata_modified P time)) (\<lambda>modified.
             if is_expired now modified then
               io_bind (io_map_err (io_error ''removing expired screenshot'' ?path) (fs_remove_file P ?path))
                 (\<lambda>_. cleanup_entries P directory now entries)
             else cleanup_entries P directory now entries)) (\<lambda>_. unstaged M now)" for time
      proof (rule io_ok_bind [where Mid = "\<lambda>r s. ?seen time s \<and> (case r of Inr m \<Rightarrow> m = time | Inl _ \<Rightarrow> True)"])
        show "io_ok (?seen time)
            (io_map_err (io_error ''reading managed file time'' ?path) (metadata_modified P time))
            (\<lambda>r s. ?seen time s \<and> (case r of Inr m \<Rightarrow> m = time | Inl _ \<Rightarrow> True))"
          by (rule io_ok_map_err) (auto simp: metadata_modified_def intro!: io_ok_return io_ok_fail)
      next
        fix modified
        show "io_ok (\<lambda>s. ?seen time s \<and> (case Inr modified of Inr m \<Rightarrow> m = time | Inl _ \<Rightarrow> True))
            (if is_expired now modified then
               io_bind (io_map_err (io_error ''removing expired screenshot'' ?path) (fs_remove_file P ?path))
                 (\<lambda>_. cleanup_entries P directory now entries)
             else cleanup_entries P directory now entries) (\<lambda>_. unstaged M now)"
          by (cases "is_expired now modified")
            (auto intro: io_ok_weaken [OF remove] io_ok_weaken [OF Cons.IH])
      qed auto
      have "keeps_unstaged M now (cleanup_entries P directory now (Inr name # entries))"
        using True
        by (auto simp: Let_def intro!: io_ok_bind [OF look] split: prod.split disk_entry.split)
          (auto intro: found_file io_ok_weaken [OF Cons.IH])
      with Inr show ?thesis by simp
    next
      case False
      with Inr Cons.IH show ?thesis by simp
    qed
  qed
qed

section \<open>Where the image goes\<close>

definition absolute_from :: "os_path \<Rightarrow> os_path \<Rightarrow> bool" where
  "absolute_from path t \<longleftrightarrow> (if path_is_absolute b_slash path then t = path else \<exists>cwd. t = path_join b_slash cwd path)"

definition managed_directory :: "os_path \<Rightarrow> os_path" where
  "managed_directory t = join_name (join_name t MANAGED_PARENT_DIRECTORY) MANAGED_SCREENSHOT_DIRECTORY"

text \<open>The files the cleanup may remove: none, when a destination is given.\<close>

definition cleanable :: "os_path option \<Rightarrow> os_path \<Rightarrow> os_path \<Rightarrow> bool" where
  "cleanable destination temp p \<longleftrightarrow> destination = None
     \<and> (\<exists>t. absolute_from temp t \<and> managed_path (managed_directory t) p)"

definition destination_ok :: "os_path option \<Rightarrow> os_path \<Rightarrow> destination \<Rightarrow> bool" where
  "destination_ok destination temp dest = (case destination of
     None \<Rightarrow> (\<exists>t. absolute_from temp t \<and> dest = DestGenerated (managed_directory t))
   | Some path \<Rightarrow> (\<exists>directory. dest = DestGenerated directory)
       \<or> (\<exists>parent filename. path_file_name b_slash b_dot path = Some filename
            \<and> dest = DestExact (path_join b_slash parent filename)))"

lemma absolute_path_ok:
  "io_ok (unstaged M now) (absolute_path P path)
     (\<lambda>r s. unstaged M now s \<and> (case r of Inr t \<Rightarrow> absolute_from path t | Inl _ \<Rightarrow> True))"
proof (cases "path_is_absolute b_slash path")
  case True
  then show ?thesis by (auto simp: absolute_path_def absolute_from_def intro!: io_ok_return)
next
  case False
  let ?Q = "\<lambda>r s. unstaged M now s \<and> (case r of Inr t \<Rightarrow> absolute_from path t | Inl (_ :: disk_error) \<Rightarrow> True)"
  have "io_ok (unstaged M now) (io_bind (fs_current_dir P) (\<lambda>directory. io_return (path_join b_slash directory path))) ?Q"
    by (rule io_ok_bind [OF unstaged_queries(3)]) (use False in \<open>auto simp: absolute_from_def intro!: io_ok_return\<close>)
  then have "io_ok (unstaged M now) (io_bind (fs_current_dir P) (\<lambda>directory. io_return (path_join b_slash directory path)))
      (\<lambda>r s. unstaged M now s \<and> (case map_sum g id r of Inr t \<Rightarrow> absolute_from path t | Inl _ \<Rightarrow> True))" for g
    by (rule io_ok_weaken) (auto split: sum.splits)
  with False show ?thesis by (auto simp: absolute_path_def intro!: io_ok_map_err)
qed

lemma prepare_managed_directory_ok:
  "io_ok (unstaged M now) (prepare_managed_directory P t)
     (\<lambda>r s. unstaged M now s \<and> (case r of Inr directory \<Rightarrow> directory = managed_directory t | Inl _ \<Rightarrow> True))"
  unfolding prepare_managed_directory_def Let_def
  by (intro io_ok_bind [OF unstaged_create_real_directory] io_ok_return) (simp_all add: managed_directory_def)

lemma cleanup_managed_directory_ok:
  assumes "\<And>name. managed_entry name \<Longrightarrow> M (path_join b_slash directory name)"
  shows "keeps_unstaged M now (cleanup_managed_directory P directory now)"
  unfolding cleanup_managed_directory_def
  by (intro unstaged_bind unstaged_map_err unstaged_queries unstaged_cleanup_entries assms)

lemma resolve_destination_ok:
  "io_ok (unstaged (cleanable destination temp) now) (resolve_destination P destination temp now)
     (\<lambda>r s. unstaged (cleanable destination temp) now s
        \<and> (case r of Inr dest \<Rightarrow> destination_ok destination temp dest | Inl _ \<Rightarrow> True))"
proof (cases destination)
  case None
  let ?M = "cleanable destination temp"
  have clean: "keeps_unstaged ?M now (cleanup_managed_directory P (managed_directory t) now)" if "absolute_from temp t" for t
    by (rule cleanup_managed_directory_ok) (use that None in \<open>auto simp: cleanable_def managed_path_def\<close>)
  have rest: "io_ok (\<lambda>s. unstaged ?M now s \<and> absolute_from temp t)
      (io_bind (prepare_managed_directory P t) (\<lambda>directory.
       io_bind (cleanup_managed_directory P directory now) (\<lambda>_. io_return (DestGenerated directory))))
      (\<lambda>r s. unstaged ?M now s \<and> (case r of Inr dest \<Rightarrow> destination_ok destination temp dest | Inl _ \<Rightarrow> True))" for t
  proof (rule io_ok_bind)
    show "io_ok (\<lambda>s. unstaged ?M now s \<and> absolute_from temp t) (prepare_managed_directory P t)
        (\<lambda>r s. (unstaged ?M now s \<and> (case r of Inr directory \<Rightarrow> directory = managed_directory t | Inl _ \<Rightarrow> True))
           \<and> absolute_from temp t)"
      by (rule io_ok_conj_case [OF prepare_managed_directory_ok])
  next
    fix directory
    show "io_ok (\<lambda>s. (unstaged ?M now s \<and> (case Inr directory of Inr directory \<Rightarrow> directory = managed_directory t | Inl _ \<Rightarrow> True))
           \<and> absolute_from temp t)
        (io_bind (cleanup_managed_directory P directory now) (\<lambda>_. io_return (DestGenerated directory)))
        (\<lambda>r s. unstaged ?M now s \<and> (case r of Inr dest \<Rightarrow> destination_ok destination temp dest | Inl _ \<Rightarrow> True))"
    proof (cases "absolute_from temp t \<and> directory = managed_directory t")
      case True
      then have "keeps_unstaged ?M now (cleanup_managed_directory P directory now)" using clean by simp
      then have "io_ok (unstaged ?M now) (io_bind (cleanup_managed_directory P directory now) (\<lambda>_. io_return (DestGenerated directory)))
          (\<lambda>r s. unstaged ?M now s \<and> (case r of Inr dest \<Rightarrow> destination_ok destination temp dest | Inl _ \<Rightarrow> True))"
        by (rule io_ok_bind) (use True None in \<open>auto simp: destination_ok_def intro!: io_ok_return\<close>)
      then show ?thesis by (rule io_ok_weaken) simp_all
    next
      case False
      then show ?thesis by (auto simp: io_ok_def)
    qed
  qed auto
  have "io_ok (unstaged ?M now) (io_bind (absolute_path P temp) (\<lambda>t.
      io_bind (prepare_managed_directory P t) (\<lambda>directory.
       io_bind (cleanup_managed_directory P directory now) (\<lambda>_. io_return (DestGenerated directory)))))
      (\<lambda>r s. unstaged ?M now s \<and> (case r of Inr dest \<Rightarrow> destination_ok destination temp dest | Inl _ \<Rightarrow> True))"
    by (rule io_ok_bind [OF absolute_path_ok]) (auto intro: io_ok_weaken [OF rest])
  with None show ?thesis by (simp add: resolve_destination_def)
next
  case (Some path)
  let ?M = "cleanable destination temp"
  let ?Q = "\<lambda>r s. unstaged ?M now s \<and> (case r of Inr dest \<Rightarrow> destination_ok destination temp dest | Inl _ \<Rightarrow> True)"
  have fail: "io_ok (unstaged ?M now) (io_fail e) ?Q" for e by (rule io_ok_fail) simp
  have directory: "io_ok (unstaged ?M now)
      (io_bind (canonicalize_directory P path) (\<lambda>directory. io_return (DestGenerated directory))) ?Q"
    using Some by (intro io_ok_bind [OF unstaged_canonicalize_directory] io_ok_return) (auto simp: destination_ok_def)
  have exact: "io_ok (unstaged ?M now) (io_bind (require_directory P (existing_parent path)) (\<lambda>_.
      io_bind (canonicalize_directory P (existing_parent path)) (\<lambda>parent.
      io_return (DestExact (path_join b_slash parent filename))))) ?Q"
    if "path_file_name b_slash b_dot path = Some filename" for filename
    using Some that
    by (intro io_ok_bind [OF unstaged_require_directory] io_ok_bind [OF unstaged_canonicalize_directory] io_ok_return)
      (auto simp: destination_ok_def)
  show ?thesis
    unfolding resolve_destination_def Some option.case
    by (intro io_ok_handle [OF unstaged_queries(1)])
      (auto intro!: fail [unfolded Some] directory [unfolded Some] exact [unfolded Some] io_ok_handle [OF unstaged_metadata]
        split: sum.split bool.split disk_error.split option.split)
qed

section \<open>The staged file\<close>

text \<open>A part that is run while the file is staged; \<open>Q\<close> is about the result and the state.\<close>

definition others_turn :: "platform \<Rightarrow> io_state \<Rightarrow> io_state" where
  "others_turn P s = s\<lparr>io_disk := pf_others P (io_calls s) (io_disk s), io_calls := Suc (io_calls s)\<rparr>"

lemma io_callE:
  assumes "io_call P act s = (r, s1)"
  obtains e where "r = Inl e" "s1 = others_turn P s" | "act (others_turn P s) = (r, s1)"
  using assms by (auto simp: io_call_def others_turn_def Let_def split: option.splits)

lemma others_turn_log [simp]: "io_log (others_turn P s) = io_log s"
  by (simp add: others_turn_def)

lemma unstaged_call_log:
  assumes "unstaged M now s" and "io_call P act s = (r, s1)"
  shows "\<exists>s2. unstaged M now s2 \<and> io_log s2 = io_log s \<and> ((\<exists>e. r = Inl e \<and> s1 = s2) \<or> act s2 = (r, s1))"
  using assms(2)
  by (rule io_callE) (use assms(1) in \<open>auto simp: unstaged_def intro!: exI [of _ "others_turn P s"]\<close>)

lemma fs_create_new_ok:
  "io_ok (unstaged M now) (fs_create_new P p)
     (\<lambda>r s. case r of Inl _ \<Rightarrow> unstaged M now s | Inr i \<Rightarrow> staged_at P M now p i [] s)"
proof (rule io_okI)
  fix s r s1
  assume pre: "unstaged M now s" and run: "fs_create_new P p s = (r, s1)"
  have none: "filter is_create (map fst l) = []" "list_all (\<lambda>(ev, _). \<not> is_link ev) l"
    if "list_all (\<lambda>(ev, _). \<not> staging ev) l" for l :: disk_log
    using that
    by (auto simp: filter_empty_conv list_all_iff staging_def is_create_def is_link_def split: disk_event.splits)
  from unstaged_call_log [OF pre run [unfolded fs_create_new_def]] none
  show "case r of Inl _ \<Rightarrow> unstaged M now s1 | Inr i \<Rightarrow> staged_at P M now p i [] s1"
    by (auto simp: Let_def unstaged_def staged_at_def staged_log_def is_create_def is_link_def log_event_def set_name_def
        set_file_def harmless_def holds_file_def split: if_splits)
qed

lemma stage_file_ok:
  "io_ok (unstaged M now) (stage_file P directory stamp ordinal) (\<lambda>r s. case r of
     Inl _ \<Rightarrow> unstaged M now s
   | Inr f \<Rightarrow> staged_at P M now (sf_path f) (sf_file f) [] s \<and> sf_remove_on_drop f \<and> sf_open f
       \<and> (\<exists>n. sf_path f = join_name directory (staged_filename stamp n)))"
proof (rule io_okI)
  fix s r s1
  assume "unstaged M now s" "stage_file P directory stamp ordinal s = (r, s1)"
  then show "case r of
     Inl _ \<Rightarrow> unstaged M now s1
   | Inr f \<Rightarrow> staged_at P M now (sf_path f) (sf_file f) [] s1 \<and> sf_remove_on_drop f \<and> sf_open f
       \<and> (\<exists>n. sf_path f = join_name directory (staged_filename stamp n))"
  proof (induction P directory stamp ordinal s rule: stage_file.induct)
    case (1 P directory stamp ordinal s)
    let ?path = "join_name directory (staged_filename stamp ordinal)"
    obtain q t where q: "fs_create_new P ?path s = (q, t)" by (cases "fs_create_new P ?path s") auto
    have post: "case q of Inl _ \<Rightarrow> unstaged M now t | Inr i \<Rightarrow> staged_at P M now ?path i [] t"
      by (rule io_okD [OF fs_create_new_ok 1(2) q])
    show ?case
    proof (cases q)
      case (Inr i)
      with 1(3) q post show ?thesis by (subst (asm) stage_file.simps) auto
    next
      case (Inl e)
      with post have u: "unstaged M now t" by simp
      show ?thesis
      proof (cases "e = DeAlreadyExists \<and> ordinal < u64_max")
        case True
        with 1(3) q Inl have "stage_file P directory stamp (ordinal + 1) t = (r, s1)"
          by (subst (asm) stage_file.simps) simp
        with 1(1) [OF refl] q Inl True u show ?thesis by simp
      next
        case False
        with 1(3) q Inl u show ?thesis
          by (subst (asm) stage_file.simps) (auto simp: Let_def split: disk_error.splits if_splits)
      qed
    qed
  qed
qed

lemma staged_log_made: "staged_log M now p i log \<Longrightarrow> made log p \<and> made_file log i"
proof -
  assume "staged_log M now p i log"
  then have "EvCreate p i \<in> set (filter is_create (map fst log))" by (simp add: staged_log_def)
  then have "EvCreate p i \<in> set (map fst log)" by simp
  then show ?thesis by (force simp: made_def made_file_def list_ex_iff)
qed

lemma staged_turn: "staged_at P M now p i bs s \<Longrightarrow> staged_at P M now p i bs (others_turn P s)"
  by (auto simp: staged_at_def holds_file_def left_alone_def others_turn_def)

lemma staged_put_bytes:
  assumes "staged_at P M now p i bs s"
  shows "staged_at P M now p i (cs @ drop (length cs) bs) (put_bytes P i cs s)"
  using assms staged_log_made [of M now p i "io_log s"]
  by (auto simp: staged_at_def staged_log_def put_bytes_def Let_def set_file_def log_event_def harmless_def is_create_def
      is_link_def holds_file_def split: option.splits)

lemma fs_write_all_ok:
  "io_ok (staged_at P M now p i []) (fs_write_all P i bs)
     (\<lambda>r s. case r of Inl _ \<Rightarrow> staged_log M now p i (io_log s) | Inr _ \<Rightarrow> staged_at P M now p i bs s)"
proof (rule io_okI)
  fix s r s1
  assume pre: "staged_at P M now p i [] s" and run: "fs_write_all P i bs s = (r, s1)"
  obtain q t where q: "io_call P (io_return () :: (disk_error, unit) io) s = (q, t)"
    by (cases "io_call P (io_return () :: (disk_error, unit) io) s") auto
  then have t: "t = others_turn P s" by (rule io_callE) (simp_all add: io_return_def)
  have "staged_at P M now p i cs (put_bytes P i cs t)" for cs
    using staged_put_bytes [OF staged_turn [OF pre], of cs] t by simp
  then show "case r of Inl _ \<Rightarrow> staged_log M now p i (io_log s1) | Inr _ \<Rightarrow> staged_at P M now p i bs s1"
    using run q by (auto simp: fs_write_all_def staged_at_def split: sum.splits)
qed

lemma staged_call_pure:
  "io_ok (staged_at P M now p i bs) (io_call P (io_return x)) (\<lambda>_. staged_at P M now p i bs)"
  by (rule io_okI, erule io_callE) (auto simp: io_return_def dest: staged_turn)

lemma staged_write_ok:
  assumes "sf_path f = p" and "sf_file f = i"
  shows "io_ok (staged_at P M now p i []) (staged_write P png f)
     (\<lambda>r s. case r of Inl _ \<Rightarrow> staged_log M now p i (io_log s)
                     | Inr g \<Rightarrow> staged_at P M now p i png s \<and> g = f\<lparr>sf_open := False\<rparr>)"
  unfolding staged_write_def assms fs_sync_all_def
  by (intro io_ok_bind [where Mid = "\<lambda>r s. case r of Inl _ \<Rightarrow> staged_log M now p i (io_log s) | Inr _ \<Rightarrow> staged_at P M now p i png s"]
      io_ok_map_err io_ok_return io_ok_weaken [OF fs_write_all_ok] io_ok_weaken [OF staged_call_pure])
    (auto simp: staged_at_def split: sum.splits)

section \<open>Publishing\<close>

definition published_at ::
  "platform \<Rightarrow> (os_path \<Rightarrow> bool) \<Rightarrow> nat \<Rightarrow> os_path \<Rightarrow> nat \<Rightarrow> byte list \<Rightarrow> os_path \<Rightarrow> disk_log \<Rightarrow> disk_log \<Rightarrow> bool" where
  "published_at P managed now p i png path removals log \<longleftrightarrow> (\<exists>d past. log = removals @ (EvLink p path, d) # past
     \<and> staged_log managed now p i past \<and> list_all (\<lambda>(ev, _). ev = EvRemove p \<or> ev = EvRemoveFailed p) removals
     \<and> dk_names d path = None \<and> (left_alone P p i \<longrightarrow> holds_file d p i png))"

lemma publish_link_ok:
  "io_ok (staged_at P M now p i png) (publish_link P p path) (\<lambda>r s. case r of
     Inl _ \<Rightarrow> staged_at P M now p i png s
   | Inr _ \<Rightarrow> published_at P M now p i png path [] (io_log s))"
proof (rule io_okI)
  fix s r s1
  assume pre: "staged_at P M now p i png s" and run: "publish_link P p path s = (r, s1)"
  from run [unfolded publish_link_def fs_hard_link_def]
  show "case r of Inl _ \<Rightarrow> staged_at P M now p i png s1 | Inr _ \<Rightarrow> published_at P M now p i png path [] (io_log s1)"
    by (rule io_callE)
      (use staged_turn [OF pre] in \<open>auto simp: published_at_def staged_at_def set_name_def log_event_def
        split: option.splits disk_entry.splits if_splits\<close>)
qed

lemma fs_remove_file_log:
  "fs_remove_file P p s = (r, s1) \<Longrightarrow> \<exists>d. io_log s1 = ((case r of Inl _ \<Rightarrow> EvRemoveFailed p | Inr _ \<Rightarrow> EvRemove p), d) # io_log s"
  by (auto simp: fs_remove_file_def io_call_def Let_def log_event_def set_name_def
      split: prod.splits sum.splits option.splits disk_entry.splits)

lemma published_removed:
  assumes "published_at P M now p i png path rs log" and "ev = EvRemove p \<or> ev = EvRemoveFailed p"
  shows "published_at P M now p i png path ((ev, d) # rs) ((ev, d) # log)"
  using assms by (auto simp: published_at_def)

lemma published_ok:
  assumes "sf_path f = p" and "sf_remove_on_drop f"
  shows "io_ok (\<lambda>s. published_at P M now p i png path [] (io_log s)) (published P path f) (\<lambda>r s. case r of
     Inl _ \<Rightarrow> False
   | Inr (q, g) \<Rightarrow> q = path \<and> sf_path g = p \<and> (\<exists>rs. published_at P M now p i png path rs (io_log s)
       \<and> (sf_remove_on_drop g \<or> rs \<noteq> [])))"
proof (rule io_okI)
  fix s r s1
  assume pre: "published_at P M now p i png path [] (io_log s)" and run: "published P path f s = (r, s1)"
  obtain q t where q: "fs_remove_file P p s = (q, t)" by (cases "fs_remove_file P p s") auto
  from fs_remove_file_log [OF q] obtain d where
    "io_log t = ((case q of Inl _ \<Rightarrow> EvRemoveFailed p | Inr _ \<Rightarrow> EvRemove p), d) # io_log s" by blast
  with published_removed [OF pre] have
    "published_at P M now p i png path [((case q of Inl _ \<Rightarrow> EvRemoveFailed p | Inr _ \<Rightarrow> EvRemove p), d)] (io_log t)"
    by (cases q) simp_all
  with run q assms show "case r of
     Inl _ \<Rightarrow> False
   | Inr (q, g) \<Rightarrow> q = path \<and> sf_path g = p \<and> (\<exists>rs. published_at P M now p i png path rs (io_log s1)
       \<and> (sf_remove_on_drop g \<or> rs \<noteq> []))"
    by (cases q) (auto simp: published_def staged_remove_def)
qed

text \<open>Where a destination leads: an exact path, or a name with an ordinal that 64 bits can hold.\<close>

definition path_for :: "destination \<Rightarrow> ustr \<Rightarrow> os_path \<Rightarrow> bool" where
  "path_for dest stamp path = (case dest of
     DestExact q \<Rightarrow> path = q
   | DestGenerated directory \<Rightarrow> \<exists>n. 1 \<le> n \<and> n \<le> u64_max \<and> path = join_name directory (generated_filename stamp n))"

text \<open>After the attempt to publish: nothing was linked, or one name was and the staged file is still due to be
  removed or has been.\<close>

definition attempt_ok :: "platform \<Rightarrow> (os_path \<Rightarrow> bool) \<Rightarrow> nat \<Rightarrow> os_path \<Rightarrow> nat \<Rightarrow> byte list \<Rightarrow> destination \<Rightarrow> ustr
    \<Rightarrow> output_error + (os_path \<times> staged_file) \<Rightarrow> io_state \<Rightarrow> bool" where
  "attempt_ok P managed now p i png dest stamp r s = (case r of
     Inl _ \<Rightarrow> staged_log managed now p i (io_log s)
   | Inr (path, g) \<Rightarrow> sf_path g = p \<and> path_for dest stamp path
       \<and> (\<exists>rs. published_at P managed now p i png path rs (io_log s) \<and> (sf_remove_on_drop g \<or> rs \<noteq> [])))"

lemma publish_exact_ok:
  assumes "sf_path f = p" "sf_remove_on_drop f"
  shows "io_ok (staged_at P M now p i png) (publish_exact P path f) (attempt_ok P M now p i png (DestExact path) stamp)"
  unfolding publish_exact_def assms(1)
proof (rule io_ok_bind [where Mid = "\<lambda>r s. case r of
     Inl _ \<Rightarrow> staged_at P M now p i png s | Inr _ \<Rightarrow> published_at P M now p i png path [] (io_log s)"])
  show "io_ok (staged_at P M now p i png)
     (io_map_err (\<lambda>source. if source = DeAlreadyExists then invalid_output path ''destination already exists''
                            else io_error ''publishing file'' path source) (publish_link P p path))
     (\<lambda>r s. case r of Inl _ \<Rightarrow> staged_at P M now p i png s | Inr _ \<Rightarrow> published_at P M now p i png path [] (io_log s))"
    by (rule io_ok_map_err, rule io_ok_weaken [OF publish_link_ok]) (auto split: sum.splits)
next
  fix x :: unit
  show "io_ok (\<lambda>s. case Inr x :: output_error + unit of
       Inl _ \<Rightarrow> staged_at P M now p i png s | Inr _ \<Rightarrow> published_at P M now p i png path [] (io_log s))
     (published P path f) (attempt_ok P M now p i png (DestExact path) stamp)"
    by (rule io_ok_weaken [OF published_ok [OF assms]]) (auto simp: attempt_ok_def path_for_def split: sum.splits)
qed (auto simp: attempt_ok_def staged_at_def)

lemma publish_generated_ok:
  assumes "sf_path f = p" "sf_remove_on_drop f"
  shows "staged_at P M now p i png s \<Longrightarrow> 1 \<le> ordinal \<Longrightarrow> ordinal \<le> u64_max
    \<Longrightarrow> publish_generated P directory stamp ordinal f s = (r, s1)
    \<Longrightarrow> attempt_ok P M now p i png (DestGenerated directory) stamp r s1"
  using assms
proof (induction P directory stamp ordinal f s rule: publish_generated.induct)
  case (1 P directory stamp ordinal f s)
  let ?path = "join_name directory (generated_filename stamp ordinal)"
  obtain q t where q: "publish_link P p ?path s = (q, t)" by (cases "publish_link P p ?path s") auto
  have post: "case q of Inl _ \<Rightarrow> staged_at P M now p i png t | Inr _ \<Rightarrow> published_at P M now p i png ?path [] (io_log t)"
    by (rule io_okD [OF publish_link_ok 1(2) q])
  show ?case
  proof (cases q)
    case (Inr u)
    with 1(5,6) q have run: "published P ?path f t = (r, s1)" by (subst (asm) publish_generated.simps) simp
    from post Inr have "published_at P M now p i png ?path [] (io_log t)" by simp
    from io_okD [OF published_ok [OF 1(6,7)] this run] 1(3,4) show ?thesis
      by (auto simp: attempt_ok_def path_for_def split: sum.splits)
  next
    case (Inl e)
    with post have st: "staged_at P M now p i png t" by simp
    show ?thesis
    proof (cases "e = DeAlreadyExists \<and> ordinal < u64_max")
      case True
      with 1(5,6) q Inl have "publish_generated P directory stamp (ordinal + 1) f t = (r, s1)"
        by (subst (asm) publish_generated.simps) simp
      with 1(1) [OF refl] q Inl True st 1(6,7) show ?thesis by simp
    next
      case False
      with 1(5,6) q Inl st show ?thesis
        by (subst (asm) publish_generated.simps)
          (auto simp: Let_def attempt_ok_def staged_at_def split: disk_error.splits if_splits)
    qed
  qed
qed

lemma publish_to_ok:
  assumes "sf_path f = p" "sf_remove_on_drop f"
  shows "io_ok (staged_at P M now p i png) (publish_to P dest stamp f) (attempt_ok P M now p i png dest stamp)"
proof (cases dest)
  case (DestExact path)
  then show ?thesis using publish_exact_ok [OF assms] by (simp add: publish_to_def)
next
  case (DestGenerated directory)
  have one: "1 \<le> u64_max" by (simp add: u64_max_def)
  from DestGenerated show ?thesis
    by (auto simp: publish_to_def io_ok_def intro: publish_generated_ok [OF assms _ order_refl one] split: prod.split)
qed

section \<open>The whole run\<close>

definition removal_of :: "os_path \<Rightarrow> disk_event \<Rightarrow> bool" where
  "removal_of p ev \<longleftrightarrow> ev = EvRemove p \<or> ev = EvRemoveFailed p"

definition outcome_ok :: "platform \<Rightarrow> (os_path \<Rightarrow> bool) \<Rightarrow> nat \<Rightarrow> byte list \<Rightarrow> destination \<Rightarrow> ustr
    \<Rightarrow> output_error + os_path \<Rightarrow> io_state \<Rightarrow> bool" where
  "outcome_ok P managed now png dest stamp r s = (case r of
     Inl _ \<Rightarrow> unstaged managed now s
       \<or> (\<exists>p i ev d past. io_log s = (ev, d) # past \<and> removal_of p ev \<and> staged_log managed now p i past)
   | Inr path \<Rightarrow> path_for dest stamp path
       \<and> (\<exists>p i rs. rs \<noteq> [] \<and> published_at P managed now p i png path rs (io_log s)))"

lemma staged_drop_published:
  assumes "published_at P M now p i png path rs (io_log s)" and "sf_path g = p" and "sf_remove_on_drop g \<or> rs \<noteq> []"
  shows "\<exists>rs. rs \<noteq> [] \<and> published_at P M now p i png path rs (io_log (staged_drop P g s))"
proof (cases "sf_remove_on_drop g")
  case True
  obtain q t where q: "fs_remove_file P p s = (q, t)" by (cases "fs_remove_file P p s") auto
  from fs_remove_file_log [OF q] obtain d where
    "io_log t = ((case q of Inl _ \<Rightarrow> EvRemoveFailed p | Inr _ \<Rightarrow> EvRemove p), d) # io_log s" by blast
  with published_removed [OF assms(1), of "case q of Inl _ \<Rightarrow> EvRemoveFailed p | Inr _ \<Rightarrow> EvRemove p" d] q True assms(2)
  show ?thesis by (cases q) (auto simp: staged_drop_def)
next
  case False
  with assms show ?thesis by (auto simp: staged_drop_def)
qed

lemma staged_drop_failed:
  assumes "staged_log M now p i (io_log s)" and "sf_path f = p" and "sf_remove_on_drop f"
  shows "\<exists>ev d past. io_log (staged_drop P f s) = (ev, d) # past \<and> removal_of p ev \<and> staged_log M now p i past"
proof -
  obtain q t where q: "fs_remove_file P p s = (q, t)" by (cases "fs_remove_file P p s") auto
  from fs_remove_file_log [OF q] q assms show ?thesis
    by (cases q) (auto simp: staged_drop_def removal_of_def)
qed

lemma staged_run_ok:
  assumes f: "sf_path f = p" "sf_file f = i" "sf_remove_on_drop f"
  shows "io_ok (staged_at P M now p i [])
    (\<lambda>s. case io_bind (staged_write P png f) (publish_to P dest stamp) s of
          (Inl e, s1) \<Rightarrow> (Inl e, staged_drop P f s1)
        | (Inr (path, g), s1) \<Rightarrow> (Inr path, staged_drop P g s1))
    (outcome_ok P M now png dest stamp)"
proof (rule io_okI)
  fix s r s1
  assume pre: "staged_at P M now p i [] s"
    and run: "(case io_bind (staged_write P png f) (publish_to P dest stamp) s of
          (Inl e, s1) \<Rightarrow> (Inl e, staged_drop P f s1)
        | (Inr (path, g), s1) \<Rightarrow> (Inr path, staged_drop P g s1)) = (r, s1)"
  have attempt: "io_ok (staged_at P M now p i []) (io_bind (staged_write P png f) (publish_to P dest stamp))
      (attempt_ok P M now p i png dest stamp)"
  proof (rule io_ok_bind [OF staged_write_ok [OF f(1,2)]])
    fix g
    have "io_ok (staged_at P M now p i png) (publish_to P dest stamp (f\<lparr>sf_open := False\<rparr>))
        (attempt_ok P M now p i png dest stamp)"
      by (rule publish_to_ok) (simp_all add: f)
    then show "io_ok (\<lambda>s. case Inr g of Inl _ \<Rightarrow> staged_log M now p i (io_log s)
          | Inr g \<Rightarrow> staged_at P M now p i png s \<and> g = f\<lparr>sf_open := False\<rparr>)
        (publish_to P dest stamp g) (attempt_ok P M now p i png dest stamp)"
      by (cases "g = f\<lparr>sf_open := False\<rparr>") (auto simp: io_ok_def)
  qed (simp add: attempt_ok_def)
  obtain q t where q: "io_bind (staged_write P png f) (publish_to P dest stamp) s = (q, t)"
    by (cases "io_bind (staged_write P png f) (publish_to P dest stamp) s") auto
  have post: "attempt_ok P M now p i png dest stamp q t" by (rule io_okD [OF attempt pre q])
  show "outcome_ok P M now png dest stamp r s1"
  proof (cases q)
    case (Inl e)
    with post have "staged_log M now p i (io_log t)" by (simp add: attempt_ok_def)
    from staged_drop_failed [OF this f(1,3), of P] obtain ev d past where
      "io_log (staged_drop P f t) = (ev, d) # past" "removal_of p ev" "staged_log M now p i past" by blast
    moreover have "r = Inl e" "s1 = staged_drop P f t" using run q Inl by simp_all
    ultimately show ?thesis by (auto simp: outcome_ok_def)
  next
    case (Inr x)
    obtain path g where x: "x = (path, g)" by (cases x)
    with post Inr obtain rs where g: "sf_path g = p" "path_for dest stamp path"
        "published_at P M now p i png path rs (io_log t)" "sf_remove_on_drop g \<or> rs \<noteq> []"
      by (auto simp: attempt_ok_def)
    have "r = Inr path" "s1 = staged_drop P g t" using run q Inr x by simp_all
    with staged_drop_published [OF g(3,1,4)] g(2) show ?thesis unfolding outcome_ok_def by auto
  qed
qed

lemma publish_png_in_ok:
  "io_ok (unstaged (cleanable destination temp) now) (publish_png_in P png destination stamp temp now)
     (\<lambda>r s. (\<exists>dest. destination_ok destination temp dest
           \<and> outcome_ok P (cleanable destination temp) now png dest stamp r s)
        \<or> (isl r \<and> unstaged (cleanable destination temp) now s))"
proof (cases "is_valid_timestamp stamp")
  case False
  then show ?thesis by (auto simp: publish_png_in_def intro: io_ok_fail)
next
  case True
  let ?M = "cleanable destination temp"
  let ?Q = "\<lambda>r s. (\<exists>dest. destination_ok destination temp dest \<and> outcome_ok P ?M now png dest stamp r s)
        \<or> (isl r \<and> unstaged ?M now s)"
  have staged: "io_ok (unstaged ?M now)
      (io_bind (stage_file P (destination_directory dest) stamp 1) (\<lambda>f s.
          case io_bind (staged_write P png f) (publish_to P dest stamp) s of
            (Inl e, s1) \<Rightarrow> (Inl e, staged_drop P f s1)
          | (Inr (path, g), s1) \<Rightarrow> (Inr path, staged_drop P g s1))) ?Q" if ok: "destination_ok destination temp dest" for dest
  proof (rule io_ok_bind [OF stage_file_ok])
    fix f
    show "io_ok (\<lambda>s. case Inr f of Inl _ \<Rightarrow> unstaged ?M now s
        | Inr f \<Rightarrow> staged_at P ?M now (sf_path f) (sf_file f) [] s \<and> sf_remove_on_drop f \<and> sf_open f
            \<and> (\<exists>n. sf_path f = join_name (destination_directory dest) (staged_filename stamp n)))
        (\<lambda>s. case io_bind (staged_write P png f) (publish_to P dest stamp) s of
            (Inl e, s1) \<Rightarrow> (Inl e, staged_drop P f s1)
          | (Inr (path, g), s1) \<Rightarrow> (Inr path, staged_drop P g s1)) ?Q"
    proof (cases "sf_remove_on_drop f")
      case True
      show ?thesis by (rule io_ok_weaken [OF staged_run_ok [OF refl refl True]]) (use ok in auto)
    qed (simp add: io_ok_def)
  qed simp
  have rest: "io_ok (\<lambda>s. unstaged ?M now s \<and> (case Inr dest of Inr dest \<Rightarrow> destination_ok destination temp dest | Inl _ \<Rightarrow> True))
      (if from_utf8 (resolved_path dest) = None
        then io_fail (invalid_output (resolved_path dest) ''path is not valid UTF-8'')
        else io_bind (stage_file P (destination_directory dest) stamp 1) (\<lambda>f s.
          case io_bind (staged_write P png f) (publish_to P dest stamp) s of
            (Inl e, s1) \<Rightarrow> (Inl e, staged_drop P f s1)
          | (Inr (path, g), s1) \<Rightarrow> (Inr path, staged_drop P g s1))) ?Q" for dest
  proof (cases "from_utf8 (resolved_path dest) = None")
    case True
    then show ?thesis by (auto intro!: io_ok_fail)
  next
    case False
    show ?thesis
    proof (cases "destination_ok destination temp dest")
      case True
      from False show ?thesis unfolding if_not_P [OF False]
        by (intro io_ok_weaken [OF staged [OF True]]) auto
    qed (simp add: io_ok_def)
  qed
  show ?thesis
    using io_ok_bind [OF resolve_destination_ok rest, of P] True
    by (simp add: publish_png_in_def)
qed

section \<open>Properties\<close>

text \<open>An empty directory \<open>/d\<close>, and a platform on which nothing fails and nobody else acts.\<close>

definition sample_stamp :: ustr where "sample_stamp = lit ''20260818T123456.789Z''"
definition sample_path :: os_path where "sample_path = [b_slash, 100, b_slash, 112]"

definition sample_state :: io_state where
  "sample_state = \<lparr>io_disk = \<lparr>dk_names = (\<lambda>_. None), dk_files = (\<lambda>_. None)\<rparr>, io_calls = 0, io_log = []\<rparr>"

definition sample_platform :: platform where
  "sample_platform = \<lparr>pf_others = (\<lambda>_ d. d), pf_fault = (\<lambda>_. None), pf_written = (\<lambda>_. 0), pf_clock = (\<lambda>_. 0),
     pf_new_file = (\<lambda>_. 2), pf_is_dir = (\<lambda>_ p. if p = [b_slash, 100] then Inr True else Inl DeNotFound),
     pf_canonicalize = (\<lambda>_ p. Inr p), pf_keeps_times = True, pf_current_dir = (\<lambda>_. Inr [b_slash]),
     pf_read_dir = (\<lambda>_ _. Inr [])\<rparr>"

definition sample_run :: "(output_error + os_path) \<times> io_state" where
  "sample_run = publish_png_in sample_platform [1, 2, 3] (Some sample_path) sample_stamp [b_slash] 0 sample_state"

lemma sample_stamp_valid: "is_valid_timestamp sample_stamp"
proof -
  have "sample_stamp = timestamp 2026 8 18 12 34 56 789" by code_simp
  moreover have "calendar_date 2026 8 18" "clock_time 12 34 56 789" by code_simp+
  ultimately show ?thesis unfolding timestamps_are_dates by blast
qed

lemma sample_staged: "join_name [b_slash, 100] (staged_filename sample_stamp (Suc 0)) \<noteq> sample_path"
  by code_simp

lemma sample_paths:
  "existing_parent sample_path = [b_slash, 100]" "path_file_name b_slash b_dot sample_path = Some [112]"
  "path_join b_slash [b_slash, 100] [112] = sample_path" "from_utf8 sample_path \<noteq> None"
  "destination_directory (DestExact sample_path) = [b_slash, 100]" "sample_path \<noteq> [b_slash, 100]"
  by code_simp+

lemmas sample_steps = io_bind_def io_map_err_def io_handle_def io_return_def io_fail_def io_call_def io_query_def Let_def
  fs_metadata_is_dir_def fs_symlink_metadata1_def fs_canonicalize1_def entry_metadata_def fs_create_new_def fs_write_all_def
  fs_sync_all_def fs_hard_link_def fs_remove_file_def log_event_def set_name_def set_file_def put_bytes_def

lemma sample_run_result:
  "fst sample_run = Inr sample_path \<and> dk_names (io_disk (snd sample_run)) sample_path = Some (EntFile 2)
   \<and> list_all (\<lambda>(ev, _). case ev of EvCreate _ i \<Rightarrow> i = 2 | _ \<Rightarrow> True) (io_log (snd sample_run))"
proof -
  have f: "fs_metadata_is_dir sample_platform sample_path s = (Inl DeNotFound, s\<lparr>io_calls := Suc (io_calls s)\<rparr>)" for s
    by (simp add: sample_steps sample_platform_def sample_path_def)
  show ?thesis
    by (simp add: sample_run_def publish_png_in_def sample_stamp_valid resolve_destination_def f sample_paths
        require_directory_def canonicalize_directory_def stage_file.simps staged_write_def publish_to_def publish_exact_def
        publish_link_def published_def staged_remove_def staged_drop_def resolved_path_def sample_steps sample_state_def
        sample_platform_def sample_staged sample_staged [THEN not_sym])
qed

section \<open>Properties\<close>

text \<open>C16. Publishing a screenshot destroys nothing, whatever else happens on the disk and whichever calls
  fail: it makes directories, files and links only under names that are free at that moment, writes
  only into the file it made, and removes only names it made and, when it chooses the place itself,
  screenshots in its managed directory that it found to be regular files past their time.\<close>

theorem publish_destroys_nothing:
  assumes "publish_png_in P png destination stamp temp now s = (r, s1)" and "io_log s = []"
  shows "harmless_log (cleanable destination temp) now (io_log s1)"
proof -
  have start: "unstaged (cleanable destination temp) now s" using assms(2) by (simp add: unstaged_def)
  have stage: "harmless_log M now l" if "staged_log M now p i l" for M p i l
    using that by (simp add: staged_log_def)
  have removals: "harmless_log M now (rs @ l)"
    if "harmless_log M now l" "made l p" "list_all (\<lambda>(ev, _). removal_of p ev) rs" for M p rs l
    using that(3,1,2) by (induction rs) (auto simp: harmless_def removal_of_def made_def)
  from io_okD [OF publish_png_in_ok start assms(1)]
  consider "unstaged (cleanable destination temp) now s1"
    | p i ev d past where "io_log s1 = (ev, d) # past" "removal_of p ev" "staged_log (cleanable destination temp) now p i past"
    | p i rs path where "published_at P (cleanable destination temp) now p i png path rs (io_log s1)"
    by (cases r) (auto simp: outcome_ok_def)
  then show ?thesis
  proof cases
    case 1
    then show ?thesis by (simp add: unstaged_def)
  next
    case 2
    with stage [OF 2(3)] staged_log_made [OF 2(3)] show ?thesis by (auto simp: harmless_def removal_of_def)
  next
    case 3
    then obtain d past where l: "io_log s1 = rs @ (EvLink p path, d) # past"
        "staged_log (cleanable destination temp) now p i past" "list_all (\<lambda>(ev, _). removal_of p ev) rs" "dk_names d path = None"
      by (auto simp: published_at_def removal_of_def)
    have "harmless_log (cleanable destination temp) now ((EvLink p path, d) # past)"
      using stage [OF l(2)] staged_log_made [OF l(2)] l(4) by (simp add: harmless_def)
    from removals [OF this _ l(3)] staged_log_made [OF l(2)] l(1) show ?thesis by (simp add: made_def)
  qed
qed

theorem publish_destroys_nothing_witness:
  "harmless_log (cleanable (Some sample_path) [b_slash]) 0 (io_log (snd sample_run))
   \<and> fst sample_run = Inr sample_path"
proof
  have "publish_png_in sample_platform [1, 2, 3] (Some sample_path) sample_stamp [b_slash] 0 sample_state
    = (fst sample_run, snd sample_run)" by (simp add: sample_run_def)
  from publish_destroys_nothing [OF this]
  show "harmless_log (cleanable (Some sample_path) [b_slash]) 0 (io_log (snd sample_run))"
    by (simp add: sample_state_def)
qed (use sample_run_result in simp)



end
