(* ===== verification/Rpc_Server.thy ===== *)
theory Rpc_Server
  imports Sched_Properties
begin

text \<open>
  The server of the plugin, \<open>crates/plugin/src/rpc/server.rs\<close>: its thread, which binds an endpoint, serves
  it and starts over after a pause, and the manager that starts and stops the scheduler and the thread
  together.  What the system answers (a thread, a runtime, an endpoint, the end of serving, a panic) are
  parameters.  The host calls \<open>start\<close> and \<open>stop\<close> from its main thread, so they do not overlap; a
  call that waits for the thread to end (\<open>join\<close>) and is never answered is \<open>None\<close>.
\<close>

section \<open>The thread\<close>

datatype thread_wait = ThBinding | ThServing | ThBackoff | ThOver

text \<open>\<open>th_startup\<close>: the sender of the startup message is still held; \<open>th_timers\<close>: \<open>drive_timers\<close> is running.\<close>

record server_thread =
  th_wait :: thread_wait
  th_startup :: bool
  th_timers :: bool

datatype thread_event = TeBound "ustr option" | TeServed | TeStop | TeSlept | TePanic

definition new_thread :: server_thread where
  "new_thread = \<lparr>th_wait = ThBinding, th_startup = True, th_timers = True\<rparr>"

definition thread_over :: "server_thread \<Rightarrow> server_thread" where
  "thread_over th = th\<lparr>th_wait := ThOver, th_startup := False, th_timers := False\<rparr>"

text \<open>The pause before the endpoint is bound again; a stop that was sent before ends it at once.\<close>

definition restart_backoff :: "bool \<Rightarrow> server_thread \<Rightarrow> server_thread" where
  "restart_backoff stop th = (if stop then thread_over th else th\<lparr>th_wait := ThBackoff\<rparr>)"

text \<open>One event of the loop and the startup message it sends; \<open>stop\<close> says whether stop has been sent.  The
  manager waits for the startup message, so its receiver is there.\<close>

definition thread_step :: "bool \<Rightarrow> thread_event \<Rightarrow> server_thread \<Rightarrow> (ustr + unit) option \<times> server_thread" where
  "thread_step stop ev th = (case th_wait th of
     ThBinding \<Rightarrow> (case ev of
         TeBound (Some e) \<Rightarrow>
           if th_startup th then (Some (Inl (lit ''could not create the RPC endpoint: '' @ e)), thread_over th)
           else (None, restart_backoff stop th)
       | TeBound None \<Rightarrow>
           (if th_startup th then Some (Inr ()) else None, th\<lparr>th_wait := ThServing, th_startup := False\<rparr>)
       | TePanic \<Rightarrow> (None, thread_over th)
       | _ \<Rightarrow> (None, th))
   | ThServing \<Rightarrow> (case ev of
         TeServed \<Rightarrow> (None, restart_backoff stop th)
       | TeStop \<Rightarrow> (None, if stop then thread_over th else th)
       | TePanic \<Rightarrow> (None, thread_over th)
       | _ \<Rightarrow> (None, th))
   | ThBackoff \<Rightarrow> (case ev of
         TeSlept \<Rightarrow> (None, th\<lparr>th_wait := ThBinding\<rparr>)
       | TeStop \<Rightarrow> (None, if stop then thread_over th else th)
       | TePanic \<Rightarrow> (None, thread_over th)
       | _ \<Rightarrow> (None, th))
   | ThOver \<Rightarrow> (None, th))"

section \<open>Starting a server\<close>

datatype boot = BootNoThread ustr | BootNoRuntime ustr | BootBound "ustr option" | BootPanic

text \<open>What the thread sends while the manager waits for it, and the thread then; no message, with the thread
  over, is a sender that was dropped.\<close>

definition boot_thread :: "boot \<Rightarrow> (ustr + unit) option \<times> server_thread option" where
  "boot_thread boot = (case boot of
     BootNoThread e \<Rightarrow> (Some (Inl (lit ''could not start the RPC server thread: '' @ e)), None)
   | BootNoRuntime e \<Rightarrow> (Some (Inl (lit ''could not create the async runtime: '' @ e)), Some (thread_over new_thread))
   | BootBound b \<Rightarrow> map_prod id Some (thread_step False (TeBound b) new_thread)
   | BootPanic \<Rightarrow> map_prod id Some (thread_step False TePanic new_thread))"

definition server_start :: "boot \<Rightarrow> (ustr + unit) \<times> server_thread option" where
  "server_start boot = (case boot_thread boot of
     (Some r, th) \<Rightarrow> (r, th)
   | (None, th) \<Rightarrow> (Inl (lit ''server thread stopped during startup''), th))"

section \<open>The manager\<close>

text \<open>The plugin: the scheduler's world, every server thread there has been, and the one the manager holds.\<close>

record plugin =
  pl_world :: world
  pl_threads :: "server_thread list"
  pl_active :: "nat option"

definition new_plugin :: "(sink \<Rightarrow> channel) \<Rightarrow> plugin" where
  "new_plugin channels = \<lparr>pl_world = new_world channels, pl_threads = [], pl_active = None\<rparr>"

definition is_running :: "plugin \<Rightarrow> nat \<Rightarrow> bool" where
  "is_running p i \<longleftrightarrow> th_wait (pl_threads p ! i) \<noteq> ThOver"

text \<open>The thread once stop was sent, and \<open>join\<close>.\<close>

definition stopped_thread :: "thread_event list \<Rightarrow> server_thread \<Rightarrow> server_thread" where
  "stopped_thread evs th = fold (\<lambda>ev th1. snd (thread_step True ev th1)) evs th"

definition shutdown :: "thread_event list \<Rightarrow> nat \<Rightarrow> plugin \<Rightarrow> plugin option" where
  "shutdown evs i p =
     (let th = stopped_thread evs (pl_threads p ! i)
      in if th_wait th = ThOver then Some (p\<lparr>pl_threads := (pl_threads p)[i := th]\<rparr>) else None)"

definition manager_start :: "boot \<Rightarrow> plugin \<Rightarrow> ((ustr + unit) \<times> plugin) option" where
  "manager_start boot p =
     (if (case pl_active p of Some i \<Rightarrow> is_running p i | None \<Rightarrow> False) then Some (Inr (), p)
      else Option.bind (case pl_active p of Some i \<Rightarrow> shutdown [] i (p\<lparr>pl_active := None\<rparr>) | None \<Rightarrow> Some p) (\<lambda>p1.
        let p2 = p1\<lparr>pl_world := world_start (pl_world p1)\<rparr>
        in case server_start boot of (r, th) \<Rightarrow>
          (let p3 = p2\<lparr>pl_threads := pl_threads p2 @ (case th of Some t \<Rightarrow> [t] | None \<Rightarrow> [])\<rparr>
           in case r of
                Inl e \<Rightarrow> Some (Inl e, p3\<lparr>pl_world := world_stop (pl_world p3)\<rparr>)
              | Inr _ \<Rightarrow> Some (Inr (), p3\<lparr>pl_active := Some (length (pl_threads p2))\<rparr>))))"

definition manager_stop :: "thread_event list \<Rightarrow> plugin \<Rightarrow> plugin option" where
  "manager_stop evs p =
     (let p1 = p\<lparr>pl_world := world_stop (pl_world p)\<rparr>
      in case pl_active p1 of
           None \<Rightarrow> Some p1
         | Some i \<Rightarrow> shutdown evs i (p1\<lparr>pl_active := None\<rparr>))"

text \<open>What the host calls; an empty text is a success.\<close>

definition start_rpc_server :: "boot \<Rightarrow> plugin \<Rightarrow> (ustr \<times> plugin) option" where
  "start_rpc_server boot p = map_option (\<lambda>(r, p1). (case r of Inl e \<Rightarrow> e | Inr _ \<Rightarrow> [], p1)) (manager_start boot p)"

section \<open>Everything that happens\<close>

text \<open>Calls of the host, events of the threads, and the steps of the scheduler other than its start and stop.\<close>

inductive plugin_step :: "host \<Rightarrow> plugin \<Rightarrow> plugin \<Rightarrow> bool" for h where
  ps_start: "start_rpc_server boot p = Some (e, p1) \<Longrightarrow> plugin_step h p p1"
| ps_stop: "manager_stop evs p = Some p1 \<Longrightarrow> plugin_step h p p1"
| ps_thread: "i < length (pl_threads p) \<Longrightarrow>
    plugin_step h p (p\<lparr>pl_threads := (pl_threads p)[i := snd (thread_step False ev (pl_threads p ! i))]\<rparr>)"
| ps_world: "world_step h (pl_world p) w \<Longrightarrow> sc_stopping (wd_sched w) = sc_stopping (wd_sched (pl_world p)) \<Longrightarrow>
    plugin_step h p (p\<lparr>pl_world := w\<rparr>)"

inductive plugin_reach :: "host \<Rightarrow> plugin \<Rightarrow> bool" for h where
  pr_new: "plugin_reach h (new_plugin channels)"
| pr_step: "plugin_reach h p \<Longrightarrow> plugin_step h p p1 \<Longrightarrow> plugin_reach h p1"

section \<open>Only start and stop open and close the scheduler\<close>

lemma steps_stopping:
  "sc_stopping (snd (take_execution_step i now s)) = sc_stopping s"
  "sc_stopping (snd (sched_acquire_eval_value_output i target s)) = sc_stopping s"
  "sc_stopping (snd (sched_acquire_form_output i target s)) = sc_stopping s"
  "sc_stopping (snd (complete_execution_step i r s)) = sc_stopping s"
  "sc_stopping (snd (abandon_execution i r s)) = sc_stopping s"
  "sc_stopping (snd (sched_record_capture i c pixels s)) = sc_stopping s"
  by (auto simp: take_execution_step_def sched_acquire_eval_value_output_def sched_acquire_form_output_def
      complete_execution_step_def abandon_execution_def sched_record_capture_def split_beta sched_simps
      split: option.splits)

lemma methods_stopping:
  "sc_stopping (snd (snd (process_due_timers now s))) = sc_stopping s"
  "sc_stopping (snd (native_state_may_be_ready s)) = sc_stopping s"
  "sc_stopping (snd (take_native_action fs now s)) = sc_stopping s"
  "sc_stopping (snd (cancel_execution i s)) = sc_stopping s"
  "sc_stopping (snd (sched_wake_failed now s)) = sc_stopping s"
  "sc_stopping (snd (admit_execution fs d e out pol reservation now s)) = sc_stopping s"
  "sc_stopping (snd (submit_operation fs p reserved now s)) = sc_stopping s"
  "sc_stopping (snd (complete_native_action j r q now s)) = sc_stopping s"
  by (auto simp: process_due_timers_def native_state_may_be_ready_def take_native_action_def cancel_execution_def
      sched_wake_failed_def admit_execution_def submit_operation_def complete_native_action_def Let_def split_beta
      sched_simps split: option.splits list.splits prepared.splits sum.splits bool.splits)

lemma capture_stopping: "sc_stopping (wd_sched (complete_native_capture h i c pixels w)) = sc_stopping (wd_sched w)"
proof -
  have complete: "sc_stopping (wd_sched (world_complete_native_action h i r w1)) = sc_stopping (wd_sched w1)" for r w1
    by (simp add: world_complete_native_action_def complete_native_action_with_quarantine_def Let_def split_beta
        methods_stopping)
  obtain r act where eq: "complete_native_capture h i c pixels w =
      (if cr_kind r = CrSuccess then
           (case with_lock (sched_record_capture i r pixels) w of
              (Some (Inl e), w1) \<Rightarrow>
                world_complete_native_action h i
                  (act\<lparr>ar_kind := ArCaptureInvalid, ar_native_detail := sched_error_display e\<rparr>) w1
            | (_, w1) \<Rightarrow> world_complete_native_action h i act w1)
         else world_complete_native_action h i act w)"
    unfolding complete_native_capture_def Let_def by blast
  obtain x w1 where x: "with_lock (sched_record_capture i r pixels) w = (x, w1)" by fastforce
  then have "sc_stopping (wd_sched w1) = sc_stopping (wd_sched w)"
    using steps_stopping(6) [of i r pixels "wd_sched w"] by (auto simp: with_lock_def split_beta)
  then show ?thesis unfolding eq x by (simp add: complete split: option.split sum.split)
qed

lemma wake_failed_stopping: "sc_stopping (wd_sched (wake_failed h w)) = sc_stopping (wd_sched w)"
proof (induction h w rule: wake_failed.induct)
  case (1 h w)
  obtain b w1 where g: "give_up_wake h w = (b, w1)" by fastforce
  obtain status w2 where n: "wake_native_actions h w1 = (status, w2)" by fastforce
  have "sc_stopping (wd_sched w1) = sc_stopping (wd_sched w)"
    using methods_stopping(5) [of "clock h w" "wd_sched w"] g by (auto simp: give_up_wake_def split_beta)
  moreover have "wd_sched w2 = wd_sched w1" using wake_native_frame(1) [of h w1] n by simp
  ultimately show ?case
    using 1 [OF g [symmetric] _ n [symmetric]] g n by (subst wake_failed.simps) auto
qed

lemma wake_if_stopping: "sc_stopping (wd_sched (wake_if h b w)) = sc_stopping (wd_sched w)"
  by (simp add: wake_if_def schedule_native_actions_def split_beta wake_failed_stopping wake_native_frame)

lemma only_start_and_stop:
  assumes "world_step h w w1"
  shows "w1 = world_start w \<or> w1 = world_stop w \<or> sc_stopping (wd_sched w1) = sc_stopping (wd_sched w)"
  using assms
proof cases
  case (ws_admit mode name bytes e ch out i force reservation)
  then show ?thesis
    by (auto simp: world_admit_execution_def split_beta methods_stopping wake_if_stopping split: sum.splits)
next
  case (ws_submit p reserved)
  then show ?thesis
    by (auto simp: submit_operation_inner_def split_beta methods_stopping wake_if_stopping split: sum.splits submission_decision.splits)
next
  case (ws_cancel i)
  then show ?thesis
    by (auto simp: world_cancel_execution_def split_beta methods_stopping wake_if_stopping split: cancel_decision.splits)
next
  case ws_take
  then show ?thesis
    by (auto simp: world_take_native_action_def split_beta methods_stopping split: take_decision.splits)
next
  case (ws_complete i r)
  then show ?thesis
    by (simp add: world_complete_native_action_def complete_native_action_with_quarantine_def Let_def split_beta
        methods_stopping)
next
  case (ws_finalize i r ob)
  then show ?thesis
    by (simp add: complete_execution_native_action_def complete_native_action_with_quarantine_def Let_def split_beta
        methods_stopping)
next
  case ws_claim
  then show ?thesis by (simp add: try_claim_native_action_wake_def sched_simps)
next
  case (ws_timers now)
  then show ?thesis
    using methods_stopping(1) [of now "wd_sched w"]
    by (simp add: world_process_due_timers_def split_beta wake_if_stopping)
next
  case ws_ready
  then show ?thesis by (simp add: world_native_state_may_be_ready_def split_beta methods_stopping wake_if_stopping)
next
  case (ws_release g k f)
  then show ?thesis
    by (auto simp: release_active_lease_def sched_simps split: option.splits)
next
  case (ws_snapshot gen k nds n1)
  then show ?thesis by (auto simp: publish_snapshot_def replace_drawing_snapshot_def split: option.splits)
qed (simp_all add: capture_stopping wake_failed_stopping steps_stopping world_take_execution_step_def
    world_complete_execution_step_def world_abandon_execution_def begin_eval_output_def begin_form_output_def)

end
