(* ===== verification/Server_Life.thy ===== *)
theory Server_Life
  imports Rpc_Server
begin

text \<open>
  The life of the server: the invariant that ties the manager, the threads and the scheduler together, and
  that starting and stopping do what they say.
\<close>

section \<open>The invariant\<close>

definition thread_ok :: "server_thread \<Rightarrow> bool" where
  "thread_ok th \<longleftrightarrow> \<not> th_startup th \<and> (th_timers th \<longleftrightarrow> th_wait th \<noteq> ThOver)"

definition plugin_ok :: "plugin \<Rightarrow> bool" where
  "plugin_ok p \<longleftrightarrow> list_all thread_ok (pl_threads p)
     \<and> (\<forall>i<length (pl_threads p). is_running p i \<longrightarrow> pl_active p = Some i)
     \<and> (case pl_active p of
          Some i \<Rightarrow> i < length (pl_threads p) \<and> \<not> sc_stopping (wd_sched (pl_world p))
        | None \<Rightarrow> sc_stopping (wd_sched (pl_world p)) \<or> pl_threads p = [])"

lemma stopping_simps [simp]:
  "sc_stopping (wd_sched (world_start w)) = False" "sc_stopping (wd_sched (world_stop w)) = True"
  by (simp_all add: world_start_def sched_start_def world_stop_def sched_stop_def split_beta)

lemma thread_step_ok: "thread_ok th \<Longrightarrow> thread_ok (snd (thread_step stop ev th))"
  by (auto simp: thread_step_def thread_ok_def restart_backoff_def thread_over_def
      split: thread_wait.splits thread_event.splits option.splits)

lemma thread_step_over: "th_wait th = ThOver \<Longrightarrow> snd (thread_step stop ev th) = th"
  by (simp add: thread_step_def)

lemma server_start_simps:
  "server_start (BootNoThread e) = (Inl (lit ''could not start the RPC server thread: '' @ e), None)"
  "server_start (BootNoRuntime e) = (Inl (lit ''could not create the async runtime: '' @ e), Some (thread_over new_thread))"
  "server_start (BootBound (Some e)) = (Inl (lit ''could not create the RPC endpoint: '' @ e), Some (thread_over new_thread))"
  "server_start (BootBound None) = (Inr (), Some \<lparr>th_wait = ThServing, th_startup = False, th_timers = True\<rparr>)"
  "server_start BootPanic = (Inl (lit ''server thread stopped during startup''), Some (thread_over new_thread))"
  by (simp_all add: server_start_def boot_thread_def thread_step_def new_thread_def)

lemma server_start_cases:
  obtains e th where "server_start boot = (Inl e, th)" "e \<noteq> []" "\<And>t. th = Some t \<Longrightarrow> thread_ok t \<and> th_wait t = ThOver"
  | t where "server_start boot = (Inr (), Some t)" "thread_ok t" "th_wait t = ThServing"
proof (cases boot)
  case (BootBound b)
  then show thesis
    using that(1) [of "lit ''could not create the RPC endpoint: '' @ the b" "Some (thread_over new_thread)"]
      that(2) [of "\<lparr>th_wait = ThServing, th_startup = False, th_timers = True\<rparr>"]
    by (cases b) (auto simp: server_start_simps thread_over_def thread_ok_def lit_def)
qed (use that(1) in \<open>fastforce simp: server_start_simps thread_over_def thread_ok_def lit_def\<close>)+

section \<open>Stopping a thread\<close>

text \<open>How far a thread that was told to stop is from its end.\<close>

definition stop_left :: "server_thread \<Rightarrow> nat" where
  "stop_left th = (case th_wait th of ThBackoff \<Rightarrow> 3 | ThBinding \<Rightarrow> 2 | ThServing \<Rightarrow> 1 | ThOver \<Rightarrow> 0)"

lemma stopped_step: "snd (thread_step True ev th) = th \<or> stop_left (snd (thread_step True ev th)) < stop_left th"
  by (auto simp: thread_step_def stop_left_def restart_backoff_def thread_over_def
      split: thread_wait.splits thread_event.splits option.splits)

lemma stopped_thread_ok: "thread_ok th \<Longrightarrow> thread_ok (stopped_thread evs th)"
  unfolding stopped_thread_def by (induction evs arbitrary: th) (simp_all add: thread_step_ok)

text \<open>Events each of which the thread takes note of.\<close>

fun noted :: "thread_event list \<Rightarrow> server_thread \<Rightarrow> bool" where
  "noted [] th = True"
| "noted (ev # evs) th = (snd (thread_step True ev th) \<noteq> th \<and> noted evs (snd (thread_step True ev th)))"

lemma noted_bound: "noted evs th \<Longrightarrow> length evs + stop_left (stopped_thread evs th) \<le> stop_left th"
proof (induction evs arbitrary: th)
  case (Cons ev evs)
  let ?th = "snd (thread_step True ev th)"
  from Cons.prems have "stop_left ?th < stop_left th" using stopped_step [of ev th] by simp
  moreover have "length evs + stop_left (stopped_thread evs ?th) \<le> stop_left ?th" using Cons by simp
  ultimately show ?case by (simp add: stopped_thread_def)
qed (simp add: stopped_thread_def)

lemma stop_left_bound: "stop_left th \<le> 3"
  by (simp add: stop_left_def split: thread_wait.splits)

section \<open>Every step keeps the invariant\<close>

lemma plugin_ok_running: "plugin_ok p \<Longrightarrow> i < length (pl_threads p) \<Longrightarrow> is_running p i \<Longrightarrow> pl_active p = Some i"
  by (simp add: plugin_ok_def)

lemma plugin_ok_active:
  assumes "plugin_ok p" "pl_active p = Some i"
  shows "i < length (pl_threads p)" "\<not> sc_stopping (wd_sched (pl_world p))"
  using assms by (simp_all add: plugin_ok_def)

lemma manager_start_running:
  assumes "pl_active p = Some i" "is_running p i"
  shows "manager_start boot p = Some (Inr (), p)"
  using assms by (simp add: manager_start_def)

text \<open>A start that finds no running thread: the thread that was held is over.\<close>

lemma manager_start_fresh:
  assumes "plugin_ok p" and "\<And>i. pl_active p = Some i \<Longrightarrow> \<not> is_running p i"
  shows "manager_start boot p = (case server_start boot of (r, th) \<Rightarrow>
     (let p1 = p\<lparr>pl_world := world_start (pl_world p), pl_active := None,
                 pl_threads := pl_threads p @ (case th of Some t \<Rightarrow> [t] | None \<Rightarrow> [])\<rparr>
      in case r of
           Inl e \<Rightarrow> Some (Inl e, p1\<lparr>pl_world := world_stop (pl_world p1)\<rparr>)
         | Inr _ \<Rightarrow> Some (Inr (), p1\<lparr>pl_active := Some (length (pl_threads p))\<rparr>)))"
proof (cases "pl_active p")
  case None
  have "p\<lparr>pl_world := w, pl_threads := ts\<rparr> = p\<lparr>pl_world := w, pl_active := None, pl_threads := ts\<rparr>" for w ts
    using None by (cases p) simp
  with None show ?thesis by (simp add: manager_start_def Let_def split: prod.split sum.split)
next
  case (Some i)
  from assms(2) [OF this] have over: "th_wait (pl_threads p ! i) = ThOver" by (simp add: is_running_def)
  have "(pl_threads p)[i := pl_threads p ! i] = pl_threads p" by simp
  then have "shutdown [] i (p\<lparr>pl_active := None\<rparr>) = Some (p\<lparr>pl_active := None\<rparr>)"
    using over by (cases p) (simp add: shutdown_def stopped_thread_def)
  with Some over show ?thesis
    by (simp add: manager_start_def is_running_def Let_def split: prod.split sum.split)
qed

lemma manager_start_result:
  assumes "plugin_ok p"
  obtains (running) i where "pl_active p = Some i" "is_running p i" "manager_start boot p = Some (Inr (), p)"
  | (failed) e p1 where "manager_start boot p = Some (Inl e, p1)" "e \<noteq> []" "plugin_ok p1" "pl_active p1 = None"
      "sc_stopping (wd_sched (pl_world p1))"
  | (started) p1 i where "manager_start boot p = Some (Inr (), p1)" "plugin_ok p1" "pl_active p1 = Some i" "is_running p1 i"
proof (cases "\<exists>i. pl_active p = Some i \<and> is_running p i")
  case True
  with running manager_start_running show thesis by blast
next
  case False
  then have idle: "\<not> is_running p i" if "i < length (pl_threads p)" for i
    using plugin_ok_running [OF assms that] by blast
  from False have fresh: "\<And>i. pl_active p = Some i \<Longrightarrow> \<not> is_running p i" by blast
  note start = manager_start_fresh [OF assms fresh, of boot, simplified Let_def]
  show thesis
  proof (cases rule: server_start_cases [of boot])
    case (1 e th)
    let ?p = "p\<lparr>pl_world := world_stop (world_start (pl_world p)), pl_active := None,
      pl_threads := pl_threads p @ (case th of Some t \<Rightarrow> [t] | None \<Rightarrow> [])\<rparr>"
    have "plugin_ok ?p"
      using assms idle 1(3) by (auto simp: plugin_ok_def is_running_def nth_append split: option.splits)
    moreover have "manager_start boot p = Some (Inl e, ?p)" using start 1(1) by (cases p) simp
    ultimately show thesis using failed [of e ?p] 1(2) by simp
  next
    case (2 t)
    let ?p = "p\<lparr>pl_world := world_start (pl_world p), pl_active := Some (length (pl_threads p)), pl_threads := pl_threads p @ [t]\<rparr>"
    have "plugin_ok ?p"
      using assms idle 2(2) by (auto simp: plugin_ok_def is_running_def nth_append)
    moreover have "manager_start boot p = Some (Inr (), ?p)" using start 2(1) by (cases p) simp
    ultimately show thesis using started [of ?p "length (pl_threads p)"] 2(3) by (simp add: is_running_def)
  qed
qed

lemma manager_stop_result:
  assumes "plugin_ok p" and "manager_stop evs p = Some p1"
  shows "plugin_ok p1" "pl_active p1 = None" "sc_stopping (wd_sched (pl_world p1))"
    "\<forall>i<length (pl_threads p1). \<not> is_running p1 i"
proof -
  have "plugin_ok p1 \<and> pl_active p1 = None \<and> sc_stopping (wd_sched (pl_world p1))
      \<and> (\<forall>i<length (pl_threads p1). \<not> is_running p1 i)"
  proof (cases "pl_active p")
    case None
    with assms show ?thesis by (auto simp: manager_stop_def plugin_ok_def is_running_def)
  next
    case (Some i)
    let ?th = "stopped_thread evs (pl_threads p ! i)"
    have i: "i < length (pl_threads p)" by (rule plugin_ok_active(1) [OF assms(1) Some])
    have over: "th_wait ?th = ThOver"
      and p1: "p1 = p\<lparr>pl_world := world_stop (pl_world p), pl_active := None, pl_threads := (pl_threads p)[i := ?th]\<rparr>"
      using assms(2) Some by (auto simp: manager_stop_def shutdown_def Let_def split: if_splits)
    have "thread_ok ?th" using assms(1) i by (intro stopped_thread_ok) (simp add: plugin_ok_def list_all_length)
    with assms(1) Some i over show ?thesis
      by (auto simp: p1 plugin_ok_def is_running_def list_all_length nth_list_update)
  qed
  then show "plugin_ok p1" "pl_active p1 = None" "sc_stopping (wd_sched (pl_world p1))"
    "\<forall>i<length (pl_threads p1). \<not> is_running p1 i" by blast+
qed

lemma plugin_step_ok: "plugin_step h p p1 \<Longrightarrow> plugin_ok p \<Longrightarrow> plugin_ok p1"
proof (induction rule: plugin_step.induct)
  case (ps_start boot p e p1)
  show ?case by (rule manager_start_result [OF ps_start(2), of boot]) (use ps_start in \<open>auto simp: start_rpc_server_def\<close>)
next
  case (ps_stop evs p p1)
  then show ?case by (simp add: manager_stop_result)
next
  case (ps_thread i p ev)
  let ?th = "pl_threads p ! i"
  have "thread_ok (snd (thread_step False ev ?th))"
    using ps_thread by (intro thread_step_ok) (simp add: plugin_ok_def list_all_length)
  moreover have "is_running p i" if "th_wait (snd (thread_step False ev ?th)) \<noteq> ThOver"
    using that thread_step_over [of ?th False ev] by (auto simp: is_running_def)
  ultimately show ?case
    using ps_thread by (auto simp: plugin_ok_def is_running_def list_all_length nth_list_update split: option.splits)
next
  case (ps_world p w)
  then show ?case by (auto simp: plugin_ok_def is_running_def split: option.splits)
qed

lemma plugin_reach_ok: "plugin_reach h p \<Longrightarrow> plugin_ok p"
proof (induction rule: plugin_reach.induct)
  case (pr_step p p1)
  then show ?case by (blast intro: plugin_step_ok)
qed (simp add: plugin_ok_def new_plugin_def)

section \<open>The property\<close>

text \<open>C14. The server and the scheduler live together.  Whatever the host calls and whatever happens to the
  threads: at most one server thread runs, it is the one the manager holds, and the timers are driven
  exactly as long; while a server is held the scheduler accepts work.  Starting always returns: with
  an empty text a server runs and the scheduler accepts work, with an error nothing runs, nothing is
  held and the scheduler is stopped.  Stopping leaves nothing running and the scheduler stopped, and it
  waits for no more than three events of the thread.\<close>

theorem server_lifecycle:
  assumes "plugin_reach h p"
  shows "(\<forall>i<length (pl_threads p). (is_running p i \<longrightarrow> pl_active p = Some i) \<and> th_timers (pl_threads p ! i) = is_running p i)
    \<and> (pl_active p \<noteq> None \<longrightarrow> \<not> sc_stopping (wd_sched (pl_world p)))
    \<and> (\<exists>e p1. start_rpc_server boot p = Some (e, p1)
         \<and> (if e = [] then \<not> sc_stopping (wd_sched (pl_world p1)) \<and> (\<exists>i. pl_active p1 = Some i \<and> is_running p1 i)
            else sc_stopping (wd_sched (pl_world p1)) \<and> pl_active p1 = None
              \<and> (\<forall>i<length (pl_threads p1). \<not> is_running p1 i)))
    \<and> (case manager_stop evs p of
         Some p1 \<Rightarrow> sc_stopping (wd_sched (pl_world p1)) \<and> pl_active p1 = None
           \<and> (\<forall>i<length (pl_threads p1). \<not> is_running p1 i)
       | None \<Rightarrow> \<exists>i. pl_active p = Some i \<and> (noted evs (pl_threads p ! i) \<longrightarrow> length evs < 3))"
proof (intro conjI)
  have ok: "plugin_ok p" using assms by (rule plugin_reach_ok)
  then show "\<forall>i<length (pl_threads p). (is_running p i \<longrightarrow> pl_active p = Some i)
      \<and> th_timers (pl_threads p ! i) = is_running p i"
    by (auto simp: plugin_ok_def list_all_length thread_ok_def is_running_def)
  from ok show "pl_active p \<noteq> None \<longrightarrow> \<not> sc_stopping (wd_sched (pl_world p))" by (auto simp: plugin_ok_def)
  show "\<exists>e p1. start_rpc_server boot p = Some (e, p1)
         \<and> (if e = [] then \<not> sc_stopping (wd_sched (pl_world p1)) \<and> (\<exists>i. pl_active p1 = Some i \<and> is_running p1 i)
            else sc_stopping (wd_sched (pl_world p1)) \<and> pl_active p1 = None
              \<and> (\<forall>i<length (pl_threads p1). \<not> is_running p1 i))"
  using ok
  proof (cases rule: manager_start_result [where boot = boot])
    case (running i)
    with plugin_ok_active(2) [OF ok] show ?thesis by (simp add: start_rpc_server_def)
  next
    case (failed e p1)
    moreover from failed(3,4) have "\<forall>i<length (pl_threads p1). \<not> is_running p1 i" by (auto simp: plugin_ok_def)
    ultimately show ?thesis by (simp add: start_rpc_server_def)
  next
    case (started p1 i)
    with plugin_ok_active(2) [OF started(2,3)] show ?thesis by (simp add: start_rpc_server_def)
  qed
  show "case manager_stop evs p of
         Some p1 \<Rightarrow> sc_stopping (wd_sched (pl_world p1)) \<and> pl_active p1 = None
           \<and> (\<forall>i<length (pl_threads p1). \<not> is_running p1 i)
       | None \<Rightarrow> \<exists>i. pl_active p = Some i \<and> (noted evs (pl_threads p ! i) \<longrightarrow> length evs < 3)"
  proof (cases "manager_stop evs p")
    case None
    then obtain i where i: "pl_active p = Some i" "th_wait (stopped_thread evs (pl_threads p ! i)) \<noteq> ThOver"
      by (auto simp: manager_stop_def shutdown_def Let_def split: option.splits if_splits)
    then have "0 < stop_left (stopped_thread evs (pl_threads p ! i))"
      by (simp add: stop_left_def split: thread_wait.splits)
    then have "noted evs (pl_threads p ! i) \<longrightarrow> length evs < 3"
      using noted_bound [of evs "pl_threads p ! i"] stop_left_bound [of "pl_threads p ! i"] by linarith
    with None i(1) show ?thesis by simp
  next
    case (Some p1)
    with manager_stop_result [OF ok Some] show ?thesis by simp
  qed
qed

theorem server_lifecycle_witness:
  "(\<exists>p1 i. start_rpc_server (BootBound None) (new_plugin (\<lambda>_. new_channel)) = Some ([], p1) \<and> pl_active p1 = Some i \<and> is_running p1 i)
   \<and> start_rpc_server BootPanic (new_plugin (\<lambda>_. new_channel)) \<noteq> None"
proof
  let ?p = "new_plugin (\<lambda>_. new_channel)"
  have "map_option fst (start_rpc_server (BootBound None) ?p) = Some []"
    by (simp add: start_rpc_server_def manager_start_def server_start_def boot_thread_def thread_step_def new_thread_def
        new_plugin_def Let_def)
  with server_lifecycle [OF pr_new [of sample_host "\<lambda>_. new_channel"], of "BootBound None" "[]"]
  show "\<exists>p1 i. start_rpc_server (BootBound None) ?p = Some ([], p1) \<and> pl_active p1 = Some i \<and> is_running p1 i" by auto
  from server_lifecycle [OF pr_new [of sample_host "\<lambda>_. new_channel"], of BootPanic "[]"]
  show "start_rpc_server BootPanic ?p \<noteq> None" by auto
qed

end
