(* ===== verification/Rpc_Drawing.thy ===== *)
theory Rpc_Drawing
  imports Rpc_Request Value_Real
begin

text \<open>
  The drawing service of the plugin, \<open>crates/plugin/src/rpc/drawing.rs\<close>: each handler as the check of
  its request, which yields the operation for the scheduler or a status, and the response it makes of
  the scheduler's answer.  The messages are those of \<open>acadctl.proto\<close> and \<open>crates/rpc/src/request.rs\<close>.
  The encoding of drawing errors (\<open>encode\<close>), resampling and PNG compression are parameters.
\<close>

section \<open>Messages\<close>

record rpc_drawing =
  dw_id :: "32 word"
  dw_display_name :: ustr
  dw_file_path :: "ustr option"
  dw_modified :: bool
  dw_read_only :: bool
  dw_active :: bool

record screenshot_region =
  sr_min_x :: f64
  sr_min_y :: f64
  sr_max_x :: f64
  sr_max_y :: f64

datatype drawing_request =
    RqOpen ustr
  | RqSwitch "32 word"
  | RqSave "32 word" "ustr option"
  | RqUndo "32 word" bool
  | RqRedo "32 word" bool
  | RqClose "32 word" bool
  | RqScreenshot "32 word" bool "screenshot_region option"

text \<open>The answers; a drawing that is missing from one of them is \<open>None\<close>.\<close>

datatype drawing_response =
    RsDrawing "rpc_drawing option"
  | RsClosed
  | RsScreenshot "byte list" "32 word" "32 word" "ustr list"

definition open_request :: "drawing_path \<Rightarrow> drawing_request" where
  "open_request p = RqOpen (dp_text p)"

definition save_request :: "drawing_id \<Rightarrow> save_path option \<Rightarrow> drawing_request" where
  "save_request i path = RqSave (drawing_id_to_u32 i) (map_option sp_text path)"

definition history_request :: "history_direction \<Rightarrow> drawing_id \<Rightarrow> bool \<Rightarrow> drawing_request" where
  "history_request direction i force = (case direction of
     HistoryUndo \<Rightarrow> RqUndo (drawing_id_to_u32 i) force
   | HistoryRedo \<Rightarrow> RqRedo (drawing_id_to_u32 i) force)"

definition switch_request :: "drawing_id \<Rightarrow> drawing_request" where
  "switch_request i = RqSwitch (drawing_id_to_u32 i)"

definition close_request :: "drawing_id \<Rightarrow> bool \<Rightarrow> drawing_request" where
  "close_request i discard = RqClose (drawing_id_to_u32 i) discard"

definition screenshot_request :: "drawing_id \<Rightarrow> screenshot_region \<Rightarrow> bool \<Rightarrow> drawing_request" where
  "screenshot_request i region wide = RqScreenshot (drawing_id_to_u32 i) wide (Some region)"

section \<open>Checking a request\<close>

definition rpc_drawing_of :: "drawing \<Rightarrow> rpc_drawing" where
  "rpc_drawing_of d = \<lparr>dw_id = drawing_id_to_u32 (dr_id d), dw_display_name = display_name d,
     dw_file_path = file_path d, dw_modified = dr_modified d, dw_read_only = dr_read_only d, dw_active = dr_active d\<rparr>"

definition drawing_path_status :: "drawing_path_error \<Rightarrow> status" where
  "drawing_path_status e = status_new CodeInvalidArgument (case e of
     PathNotDwg \<Rightarrow> lit ''Only DWG drawings can be opened''
   | PathNotAbsolute \<Rightarrow> lit ''The drawing path must be absolute''
   | PathTooLong \<Rightarrow> lit ''The drawing path exceeds the 32 KiB limit''
   | _ \<Rightarrow> lit ''The drawing path is invalid'')"

text \<open>\<open>>=\<close> on finite numbers, by their exact values.\<close>

definition f64_value :: "f64 \<Rightarrow> int \<times> int" where
  "f64_value v = (case f64_ratio v of (a, b) \<Rightarrow> (if f64_negative v then - int a else int a, int b))"

definition f64_ge :: "f64 \<Rightarrow> f64 \<Rightarrow> bool" where
  "f64_ge v u = (case (f64_value v, f64_value u) of ((a, b), (c, d)) \<Rightarrow> a * d \<ge> c * b)"

definition region_refused :: "capture_region \<Rightarrow> bool" where
  "region_refused region \<longleftrightarrow>
     list_ex (\<lambda>coordinate. \<not> is_finite coordinate)
       [rg_min_x region, rg_min_y region, rg_max_x region, rg_max_y region]
     \<or> f64_ge (rg_min_x region) (rg_max_x region) \<or> f64_ge (rg_min_y region) (rg_max_y region)"

definition capture_region_of :: "screenshot_region \<Rightarrow> capture_region" where
  "capture_region_of r = \<lparr>rg_min_x = sr_min_x r, rg_min_y = sr_min_y r, rg_max_x = sr_max_x r, rg_max_y = sr_max_y r\<rparr>"

definition screenshot_operation :: "32 word \<Rightarrow> bool \<Rightarrow> screenshot_region option \<Rightarrow> status + operation" where
  "screenshot_operation i wide region = (case parse_drawing_id i of
     Inl s \<Rightarrow> Inl s
   | Inr drawing_id \<Rightarrow> (case region of
       None \<Rightarrow> Inl (status_new CodeInvalidArgument (lit ''A model-space WCS region is required''))
     | Some r \<Rightarrow>
         if region_refused (capture_region_of r)
         then Inl (status_new CodeInvalidArgument (lit ''Region coordinates must be finite and strictly ordered''))
         else Inr (OpCapture drawing_id (capture_region_of r) (if wide then 1024 else 512) None)))"

definition drawing_operation :: "file_system \<Rightarrow> drawing_request \<Rightarrow> status + operation" where
  "drawing_operation fs request = (case request of
     RqOpen path \<Rightarrow> map_sum drawing_path_status OpOpen (drawing_path_from_str fs path)
   | RqSwitch i \<Rightarrow> map_sum id OpSwitch (parse_drawing_id i)
   | RqSave i path \<Rightarrow> (case parse_drawing_id i of
       Inl s \<Rightarrow> Inl s
     | Inr drawing_id \<Rightarrow> (case path of
         None \<Rightarrow> Inr (OpSave drawing_id None)
       | Some p \<Rightarrow> map_sum drawing_path_status (\<lambda>q. OpSave drawing_id (Some q)) (save_path_from_str fs p)))
   | RqUndo i force \<Rightarrow> map_sum id (\<lambda>d. OpHistory d HistoryUndo (context_policy force)) (parse_drawing_id i)
   | RqRedo i force \<Rightarrow> map_sum id (\<lambda>d. OpHistory d HistoryRedo (context_policy force)) (parse_drawing_id i)
   | RqClose i discard \<Rightarrow> map_sum id (\<lambda>d. OpClose d discard) (parse_drawing_id i)
   | RqScreenshot i wide region \<Rightarrow> screenshot_operation i wide region)"

section \<open>Responding\<close>

definition history_error_status :: "(drawing_error \<Rightarrow> byte list) \<Rightarrow> sched_error \<Rightarrow> status" where
  "history_error_status encode e = (case e of
     DocumentContextRestoreFailed _ \<Rightarrow>
       drawing_error_status encode
         \<lparr>de_kind = drawing_error_code DekHistoryOutcomeUnknown, de_drawing_id = None, de_detail = []\<rparr> CodeInternal
   | _ \<Rightarrow> scheduler_error_status encode e)"

definition drawing_answer :: "(sched_error \<Rightarrow> status) \<Rightarrow> sched_error + drawing \<Rightarrow> status + drawing_response" where
  "drawing_answer status_of r = map_sum status_of (\<lambda>d. RsDrawing (Some (rpc_drawing_of d))) r"

text \<open>Encoding the image: \<open>None\<close> is a panic, which ends the task and not the server.\<close>

type_synonym resampler =
  "(32 word \<Rightarrow> 32 word \<Rightarrow> rgba option) \<Rightarrow> pixel_bounds \<Rightarrow> 32 word \<Rightarrow> 32 word \<Rightarrow> 32 word \<Rightarrow> 32 word \<Rightarrow> rgba"

record encoded_screenshot =
  es_png :: "byte list"
  es_width :: "32 word"
  es_height :: "32 word"

definition encode_png ::
  "resampler \<Rightarrow> (rgb_image \<Rightarrow> byte list option) \<Rightarrow> captured_frame \<Rightarrow> pixel_bounds \<Rightarrow> resolution_policy
     \<Rightarrow> (screenshot_error option + encoded_screenshot) option" where
  "encode_png resize png frame bounds resolution = (case process_frame resize frame bounds resolution of
     None \<Rightarrow> None
   | Some (Inl e) \<Rightarrow> Some (Inl (Some e))
   | Some (Inr rgb) \<Rightarrow> (case png rgb of
       None \<Rightarrow> Some (Inl None)
     | Some bytes \<Rightarrow> Some (Inr \<lparr>es_png = bytes, es_width = ri_width rgb, es_height = ri_height rgb\<rparr>)))"

definition screenshot_answer ::
  "(drawing_error \<Rightarrow> byte list) \<Rightarrow> resampler \<Rightarrow> (rgb_image \<Rightarrow> byte list option) \<Rightarrow> bool
     \<Rightarrow> sched_error + viewport_capture \<Rightarrow> status + drawing_response" where
  "screenshot_answer encode resize png wide r = (case r of
     Inl e \<Rightarrow> Inl (scheduler_error_status encode e)
   | Inr capture \<Rightarrow>
       (case encode_png resize png (capture_frame capture) (vc_bounds capture)
            (if wide then WideResolution else DefaultResolution) of
          None \<Rightarrow> Inl (status_new CodeInternal (lit ''The viewport image processor stopped unexpectedly''))
        | Some (Inl _) \<Rightarrow> Inl (status_new CodeInternal (lit ''The viewport image could not be processed''))
        | Some (Inr encoded) \<Rightarrow> Inr (RsScreenshot (es_png encoded) (es_width encoded) (es_height encoded)
            (if vc_realistic_style capture
             then [lit ''Realistic visual style may capture only the viewport background on some drawings.'']
             else []))))"

definition respond ::
  "(drawing_error \<Rightarrow> byte list) \<Rightarrow> resampler \<Rightarrow> (rgb_image \<Rightarrow> byte list option) \<Rightarrow> drawing_request \<Rightarrow> op_result
     \<Rightarrow> status + drawing_response" where
  "respond encode resize png request r = (case request of
     RqOpen _ \<Rightarrow> drawing_answer (scheduler_error_status encode) (open_reply r)
   | RqSwitch _ \<Rightarrow> drawing_answer (scheduler_error_status encode) (switch_reply r)
   | RqSave _ _ \<Rightarrow> drawing_answer (scheduler_error_status encode) (save_reply r)
   | RqUndo _ _ \<Rightarrow> drawing_answer (history_error_status encode) (history_reply r)
   | RqRedo _ _ \<Rightarrow> drawing_answer (history_error_status encode) (history_reply r)
   | RqClose _ _ \<Rightarrow> map_sum (scheduler_error_status encode) (\<lambda>_. RsClosed) (close_reply r)
   | RqScreenshot _ wide _ \<Rightarrow> screenshot_answer encode resize png wide (capture_reply r))"

definition list_response :: "world \<Rightarrow> rpc_drawing list" where
  "list_response w = map rpc_drawing_of (world_list w)"

end
