(* ===== verification/Client_Region.thy ===== *)
theory Client_Region
  imports Rpc_Drawing
begin

text \<open>
  The region of a screenshot on the command line, \<open>crates/cli/src/commands/screenshot/mod.rs\<close>.  Reading a
  number (\<open>str::parse::<f64>\<close>) is a parameter, \<open>None\<close> for a text that is none.
\<close>

section \<open>Finite numbers\<close>

text \<open>Comparisons of finite numbers, by their exact values; the two zeros are equal.\<close>

definition f64_eq :: "f64 \<Rightarrow> f64 \<Rightarrow> bool" where
  "f64_eq u v \<longleftrightarrow> f64_ge u v \<and> f64_ge v u"

definition f64_min :: "f64 \<Rightarrow> f64 \<Rightarrow> f64" where
  "f64_min u v = (if f64_ge v u then u else v)"

definition f64_max :: "f64 \<Rightarrow> f64 \<Rightarrow> f64" where
  "f64_max u v = (if f64_ge u v then u else v)"

lemma f64_ge_total: "f64_ge u v \<or> f64_ge v u"
  by (auto simp: f64_ge_def split: prod.splits)

lemma f64_min_max:
  assumes "\<not> f64_eq u v"
  shows "\<not> f64_ge (f64_min u v) (f64_max u v)"
  using assms f64_ge_total [of u v] by (auto simp: f64_min_def f64_max_def f64_eq_def)

lemma f64_min_max_finite:
  assumes "is_finite u" "is_finite v"
  shows "is_finite (f64_min u v)" "is_finite (f64_max u v)"
  using assms by (simp_all add: f64_min_def f64_max_def)

section \<open>Regions\<close>

text \<open>\<open>str::split\<close> at a character: never without pieces.\<close>

fun split_at_char :: "uchar \<Rightarrow> ustr \<Rightarrow> ustr list" where
  "split_at_char sep [] = [[]]"
| "split_at_char sep (c # cs) =
     (if c = sep then [] # split_at_char sep cs
      else (case split_at_char sep cs of p # ps \<Rightarrow> (c # p) # ps | [] \<Rightarrow> [[c]]))"

record region =
  re_min_x :: f64
  re_min_y :: f64
  re_max_x :: f64
  re_max_y :: f64

text \<open>Every error is the same one.\<close>

definition parse_corner :: "(ustr \<Rightarrow> f64 option) \<Rightarrow> ustr \<Rightarrow> (f64 \<times> f64) option" where
  "parse_corner parse t = (case split_at_char 44 t of
     first # second # others \<Rightarrow> (case (parse first, parse second) of
       (Some x, Some y) \<Rightarrow> if others \<noteq> [] \<or> \<not> is_finite x \<or> \<not> is_finite y then None else Some (x, y)
     | _ \<Rightarrow> None)
   | _ \<Rightarrow> None)"

definition region_from_str :: "(ustr \<Rightarrow> f64 option) \<Rightarrow> ustr \<Rightarrow> region option" where
  "region_from_str parse t = (case split_at_char 58 t of
     a # b # others \<Rightarrow> (case (parse_corner parse a, parse_corner parse b) of
       (Some (x1, y1), Some (x2, y2)) \<Rightarrow>
         if others \<noteq> [] \<or> f64_eq x1 x2 \<or> f64_eq y1 y2 then None
         else Some \<lparr>re_min_x = f64_min x1 x2, re_min_y = f64_min y1 y2,
           re_max_x = f64_max x1 x2, re_max_y = f64_max y1 y2\<rparr>
     | _ \<Rightarrow> None)
   | _ \<Rightarrow> None)"

definition screenshot_region_of :: "region \<Rightarrow> screenshot_region" where
  "screenshot_region_of r = \<lparr>sr_min_x = re_min_x r, sr_min_y = re_min_y r, sr_max_x = re_max_x r, sr_max_y = re_max_y r\<rparr>"

lemma parse_corner_finite:
  assumes "parse_corner parse t = Some (x, y)"
  shows "is_finite x" "is_finite y"
  using assms by (auto simp: parse_corner_def split: list.splits option.splits if_splits)

text \<open>C22. The plugin accepts every region the client has read: the operation of the request is the capture of
  that region, and the larger edge is 1024 pixels for \<open>--wide\<close> and 512 otherwise.\<close>

theorem region_accepted:
  assumes "region_from_str parse t = Some r" and "did_get i \<noteq> 0"
  shows "drawing_operation fs (screenshot_request i (screenshot_region_of r) wide)
    = Inr (OpCapture i (capture_region_of (screenshot_region_of r)) (if wide then 1024 else 512) None)"
proof -
  from assms(1) obtain a b x1 y1 x2 y2 where
    c: "parse_corner parse a = Some (x1, y1)" "parse_corner parse b = Some (x2, y2)" "\<not> f64_eq x1 x2" "\<not> f64_eq y1 y2"
    and r: "r = \<lparr>re_min_x = f64_min x1 x2, re_min_y = f64_min y1 y2, re_max_x = f64_max x1 x2, re_max_y = f64_max y1 y2\<rparr>"
    by (auto simp: region_from_str_def split: list.splits option.splits if_splits)
  have "\<not> region_refused (capture_region_of (screenshot_region_of r))"
    using f64_min_max [OF c(3)] f64_min_max [OF c(4)]
      f64_min_max_finite [OF parse_corner_finite(1) [OF c(1)] parse_corner_finite(1) [OF c(2)]]
      f64_min_max_finite [OF parse_corner_finite(2) [OF c(1)] parse_corner_finite(2) [OF c(2)]]
    by (simp add: region_refused_def capture_region_of_def screenshot_region_of_def r)
  moreover have "parse_drawing_id (drawing_id_to_u32 i) = Inr i"
    using assms(2) by (simp add: parse_drawing_id_def drawing_id_wire_round_trip)
  ultimately show ?thesis
    by (simp add: drawing_operation_def screenshot_request_def screenshot_operation_def)
qed

text \<open>A reader of the numbers 1 and 2.\<close>

definition sample_parse :: "ustr \<Rightarrow> f64 option" where
  "sample_parse t = (if t = [49] then Some 0x3FF0000000000000 else if t = [50] then Some 0x4000000000000000 else None)"

lemma sample_numbers:
  "is_finite 0x3FF0000000000000" "is_finite 0x4000000000000000"
  "\<not> f64_ge 0x3FF0000000000000 0x4000000000000000" "f64_ge 0x4000000000000000 0x3FF0000000000000"
  by (simp_all add: is_finite_def f64_ge_def f64_value_def f64_ratio_def f64_exponent_def f64_fraction_def
      f64_negative_def Let_def)

theorem region_accepted_witness:
  "region_from_str sample_parse (lit ''2,1:1,2'') = Some \<lparr>re_min_x = 0x3FF0000000000000, re_min_y = 0x3FF0000000000000,
      re_max_x = 0x4000000000000000, re_max_y = 0x4000000000000000\<rparr>
   \<and> isl (drawing_operation sample_fs (screenshot_request (DrawingId 0x32F3)
       (screenshot_region_of (the (region_from_str sample_parse (lit ''2,1:1,2'')))) True)) = False"
proof -
  have r: "region_from_str sample_parse (lit ''2,1:1,2'') = Some \<lparr>re_min_x = 0x3FF0000000000000, re_min_y = 0x3FF0000000000000,
      re_max_x = 0x4000000000000000, re_max_y = 0x4000000000000000\<rparr>"
    by (simp add: region_from_str_def parse_corner_def sample_parse_def lit_def sample_numbers f64_eq_def f64_min_def f64_max_def)
  show ?thesis using region_accepted [OF r, of "DrawingId 0x32F3" _ True] r by simp
qed

end
