(* ===== verification/Client_Drawing.thy ===== *)
theory Client_Drawing
  imports Client_Messages Client_Region
begin

text \<open>
  The commands on drawings, \<open>crates/cli/src/commands/{switch,save,history,close,open,screenshot}.rs\<close>.  A
  command is a function of how its call goes: the connection fails, the server answers with a status, or
  with a response.  It returns what is printed to the two streams and the exit code; \<open>None\<close> is a panic.
\<close>

section \<open>What a command leaves\<close>

record command_result =
  cr_stdout :: "ustr list"
  cr_stderr :: "ustr list"
  cr_exit :: nat

definition fail :: "ustr \<Rightarrow> command_result" where
  "fail message = \<lparr>cr_stdout = [], cr_stderr = [message], cr_exit = 1\<rparr>"

definition succeed :: "ustr list \<Rightarrow> command_result" where
  "succeed printed = \<lparr>cr_stdout = printed, cr_stderr = [], cr_exit = 0\<rparr>"

type_synonym drawing_call = "drawing_request \<Rightarrow> query_error + (status + drawing_response)"

text \<open>The errors of paths in words; \<open>lossy\<close> shows the bytes of a path.\<close>

definition path_error_description :: "io_error_kind \<Rightarrow> ustr" where
  "path_error_description e = (case e of
     IoNotFound \<Rightarrow> lit ''file not found''
   | IoPermissionDenied \<Rightarrow> lit ''permission denied''
   | IoOther \<Rightarrow> lit ''I/O error'')"

definition drawing_path_error_display :: "(os_path \<Rightarrow> ustr) \<Rightarrow> drawing_path_error \<Rightarrow> ustr" where
  "drawing_path_error_display lossy e = (case e of
     PathNotDwg \<Rightarrow> lit ''Only DWG files can be opened''
   | PathNotFile path \<Rightarrow> lit ''DWG file '' @ [ch_quote] @ lossy path @ [ch_quote] @ lit '' does not exist''
   | PathNotAbsolute \<Rightarrow> lit ''The drawing path must be absolute''
   | PathTooLong \<Rightarrow> lit ''The drawing path exceeds the 32 KiB limit''
   | PathResolve path source \<Rightarrow> lit ''Could not resolve '' @ [ch_quote] @ lossy path @ [ch_quote] @ lit '' (''
       @ path_error_description source @ lit '')''
   | PathInvalidUtf8 path \<Rightarrow> lit ''Drawing path '' @ [ch_quote] @ lossy path @ [ch_quote] @ lit '' is not valid UTF-8''
   | PathAlreadyExists path \<Rightarrow> lit ''File '' @ [ch_quote] @ lossy path @ [ch_quote]
       @ lit '' already exists; use another path or omit --as'')"

definition client_drawing_id :: "32 word \<Rightarrow> ustr + drawing_id" where
  "client_drawing_id i = (case drawing_id_try_from_u32 i of
     Some d \<Rightarrow> Inr d
   | None \<Rightarrow> Inl (lit ''AutoCAD returned an invalid drawing identifier''))"

section \<open>The commands\<close>

text \<open>Connecting, calling, and saying what went wrong.\<close>

definition call_drawings ::
  "(byte list \<Rightarrow> drawing_error option) \<Rightarrow> drawing_call \<Rightarrow> request_operation \<Rightarrow> target option \<Rightarrow> drawing_request
     \<Rightarrow> (drawing_response \<Rightarrow> command_result) \<Rightarrow> command_result option" where
  "call_drawings decode call operation target request f = (case call request of
     Inl e \<Rightarrow> Some (fail (query_error_message e))
   | Inr (Inl s) \<Rightarrow> map_option fail (request_error_message decode operation target s)
   | Inr (Inr response) \<Rightarrow> Some (f response))"

definition response_drawing :: "drawing_response \<Rightarrow> rpc_drawing option" where
  "response_drawing r = (case r of RsDrawing d \<Rightarrow> d | _ \<Rightarrow> None)"

definition switch_finish :: "drawing_response \<Rightarrow> command_result" where
  "switch_finish r = (case response_drawing r of
     None \<Rightarrow> fail (lit ''Invalid response: active drawing is missing.'')
   | Some d \<Rightarrow> if \<not> dw_active d then fail (lit ''Invalid response: drawing is not active.'') else succeed [])"

definition switch_run ::
  "(byte list \<Rightarrow> drawing_error option) \<Rightarrow> drawing_call \<Rightarrow> target \<Rightarrow> command_result option" where
  "switch_run decode call t =
     call_drawings decode call ReqSwitch (Some t) (switch_request (tg_drawing t)) switch_finish"

definition save_finish :: "drawing_response \<Rightarrow> command_result" where
  "save_finish r = (if response_drawing r = None then fail (lit ''Invalid response: saved drawing is missing.'')
     else succeed [])"

definition save_run ::
  "(os_path \<Rightarrow> ustr) \<Rightarrow> file_system \<Rightarrow> (byte list \<Rightarrow> drawing_error option) \<Rightarrow> drawing_call \<Rightarrow> target \<Rightarrow> os_path option
     \<Rightarrow> command_result option" where
  "save_run lossy fs decode call t path =
     (case (case path of None \<Rightarrow> Inr None | Some p \<Rightarrow> map_sum id Some (save_path_prepare fs p)) of
        Inl e \<Rightarrow> Some (fail (drawing_path_error_display lossy e))
      | Inr save_path \<Rightarrow>
          call_drawings decode call ReqSave (Some t) (save_request (tg_drawing t) save_path) save_finish)"

definition history_operation :: "history_direction \<Rightarrow> request_operation" where
  "history_operation direction = (case direction of HistoryUndo \<Rightarrow> ReqUndo | HistoryRedo \<Rightarrow> ReqRedo)"

definition history_finish :: "drawing_response \<Rightarrow> command_result" where
  "history_finish r = (if response_drawing r = None then fail (lit ''Invalid response: updated drawing is missing.'')
     else succeed [])"

definition history_run ::
  "(byte list \<Rightarrow> drawing_error option) \<Rightarrow> drawing_call \<Rightarrow> target \<Rightarrow> history_direction \<Rightarrow> bool \<Rightarrow> command_result option" where
  "history_run decode call t direction force =
     call_drawings decode call (history_operation direction) (Some t)
       (history_request direction (tg_drawing t) force) history_finish"

definition close_run ::
  "(byte list \<Rightarrow> drawing_error option) \<Rightarrow> drawing_call \<Rightarrow> target \<Rightarrow> bool \<Rightarrow> command_result option" where
  "close_run decode call t discard =
     call_drawings decode call ReqClose (Some t) (close_request (tg_drawing t) discard) (\<lambda>_. succeed [])"

text \<open>\<open>open\<close>, once the instance is known (\<open>Client_List\<close>).\<close>

definition open_finish :: "instance_id \<Rightarrow> drawing_response \<Rightarrow> command_result" where
  "open_finish inst r = (case response_drawing r of
     None \<Rightarrow> fail (lit ''Invalid response: opened drawing is missing.'')
   | Some d \<Rightarrow> (case client_drawing_id (dw_id d) of
       Inl e \<Rightarrow> fail e
     | Inr i \<Rightarrow> succeed [instance_id_display inst @ drawing_id_display i]))"

definition open_run ::
  "(os_path \<Rightarrow> ustr) \<Rightarrow> file_system \<Rightarrow> (byte list \<Rightarrow> drawing_error option) \<Rightarrow> (instance_id \<Rightarrow> drawing_call) \<Rightarrow> os_path
     \<Rightarrow> ustr + instance_id \<Rightarrow> command_result option" where
  "open_run lossy fs decode call path resolved =
     (case drawing_path_canonicalize fs path of
        Inl e \<Rightarrow> Some (fail (drawing_path_error_display lossy e))
      | Inr p \<Rightarrow> (case resolved of
          Inl e \<Rightarrow> Some (fail e)
        | Inr inst \<Rightarrow> call_drawings decode (call inst) ReqOpen None (open_request p) (open_finish inst)))"

text \<open>\<open>screenshot\<close>: \<open>publish\<close> is \<open>publish_png\<close> at the time of the call, \<open>to_json\<close> is \<open>serde_json::to_string\<close>.\<close>

record screenshot_output =
  so_path :: ustr
  so_width :: "32 word"
  so_height :: "32 word"
  so_format :: ustr
  so_warnings :: "ustr list"

definition screenshot_finish ::
  "(byte list \<Rightarrow> ustr + os_path) \<Rightarrow> (screenshot_output \<Rightarrow> ustr option) \<Rightarrow> drawing_response \<Rightarrow> command_result" where
  "screenshot_finish publish to_json r = (case r of
     RsScreenshot png width height warnings \<Rightarrow>
       if png = [] \<or> width = 0 \<or> height = 0 then fail (lit ''Invalid response: screenshot image is missing.'')
       else (case publish png of
         Inl e \<Rightarrow> fail e
       | Inr path \<Rightarrow> (case from_utf8 path of
           None \<Rightarrow> fail (lit ''Screenshot path is not valid UTF-8.'')
         | Some p \<Rightarrow> (case to_json \<lparr>so_path = p, so_width = width, so_height = height, so_format = lit ''png'',
               so_warnings = warnings\<rparr> of
             Some json \<Rightarrow> succeed [json]
           | None \<Rightarrow> fail (lit ''Screenshot result could not be formatted.''))))
   | _ \<Rightarrow> fail (lit ''Invalid response: screenshot image is missing.''))"

definition screenshot_run ::
  "(byte list \<Rightarrow> ustr + os_path) \<Rightarrow> (screenshot_output \<Rightarrow> ustr option) \<Rightarrow> (byte list \<Rightarrow> drawing_error option) \<Rightarrow> drawing_call
     \<Rightarrow> target \<Rightarrow> region \<Rightarrow> bool \<Rightarrow> command_result option" where
  "screenshot_run publish to_json decode call t region wide =
     call_drawings decode call ReqScreenshot (Some t)
       (screenshot_request (tg_drawing t) (screenshot_region_of region) wide) (screenshot_finish publish to_json)"

end
