(* ===== verification/Drawing_Commands.thy ===== *)
theory Drawing_Commands
  imports Client_Drawing
begin

text \<open>
  The commands on drawings joined to the drawing service and to what the scheduler answers: what an
  exit code of zero means, and what is said when it is not zero.
\<close>

section \<open>Client and service together\<close>

text \<open>A call that reaches the service; \<open>answer\<close> is what the scheduler answers to an operation.\<close>

definition served_call ::
  "file_system \<Rightarrow> (drawing_error \<Rightarrow> byte list) \<Rightarrow> resampler \<Rightarrow> (rgb_image \<Rightarrow> byte list option)
     \<Rightarrow> (operation \<Rightarrow> op_result) \<Rightarrow> drawing_call" where
  "served_call fs encode resize png answer request = (case drawing_operation fs request of
     Inl s \<Rightarrow> Inr (Inl s)
   | Inr operation \<Rightarrow> Inr (respond encode resize png request (answer operation)))"

text \<open>The scheduler answers with an error, at once from the registry, or on completion from the registry the
  host has published.\<close>

definition answered :: "file_system \<Rightarrow> drawing_registry \<Rightarrow> operation \<Rightarrow> op_result \<Rightarrow> bool" where
  "answered fs drawings p r \<longleftrightarrow> isl r \<or> prepare fs drawings p = Immediate r
     \<or> (\<exists>native_target. r = fst (complete drawings native_target p))"

section \<open>Errors in words\<close>

text \<open>No message panics: what the messages of drawing errors leave out has been dealt with before.\<close>

lemma request_error_message_total: "request_error_message decode operation target s \<noteq> None"
proof -
  have "drawing_error_message operation kind t detail \<noteq> None"
    if "kind \<noteq> DekUnspecified" "kind \<noteq> DekReadinessTimedOut" "kind \<noteq> DekHistoryOutcomeUnknown" for kind t detail
    using that by (cases kind) (simp_all add: drawing_error_message_def)
  then show ?thesis by (auto simp: request_error_message_def Let_def split: option.splits)
qed

text \<open>A result that is a success, or one sentence about a failure and nothing else.\<close>

definition plain_result :: "command_result \<Rightarrow> bool" where
  "plain_result r \<longleftrightarrow> (cr_exit r = 0 \<and> cr_stderr r = []) \<or> (cr_exit r = 1 \<and> cr_stdout r = [] \<and> length (cr_stderr r) = 1)"

lemma plain_result_simps [simp]: "plain_result (fail m)" "plain_result (succeed out)"
  by (simp_all add: plain_result_def fail_def succeed_def)

lemma call_drawings_plain:
  assumes "\<And>response. plain_result (f response)"
  shows "\<exists>r. call_drawings decode call operation target request f = Some r \<and> plain_result r"
proof -
  consider e where "call request = Inl e" | s where "call request = Inr (Inl s)"
    | response where "call request = Inr (Inr response)"
    by (cases "call request"; cases "projr (call request)") auto
  then show ?thesis
  proof cases
    case 2
    obtain m where "request_error_message decode operation target s = Some m"
      using request_error_message_total by fast
    with 2 show ?thesis by (simp add: call_drawings_def)
  qed (simp_all add: call_drawings_def assms)
qed

lemma finish_plain:
  "plain_result (switch_finish r)" "plain_result (save_finish r)" "plain_result (history_finish r)"
  "plain_result (open_finish inst r)" "plain_result (screenshot_finish publish to_json r)"
  by (auto simp: switch_finish_def save_finish_def history_finish_def open_finish_def screenshot_finish_def
      split: option.splits sum.splits drawing_response.splits)

lemma exit_0_simps [simp]: "cr_exit (fail m) \<noteq> 0" "cr_exit (succeed out) = 0"
  by (simp_all add: fail_def succeed_def)

text \<open>A command that succeeds was answered with a response.\<close>

lemma call_drawings_0:
  assumes "call_drawings decode call operation target request f = Some r" and "cr_exit r = 0"
  obtains response where "call request = Inr (Inr response)" "r = f response"
  using assms by (auto simp: call_drawings_def split: sum.splits)

lemma served_response:
  assumes "served_call fs encode resize png answer request = Inr (Inr response)"
  obtains operation where "drawing_operation fs request = Inr operation"
    "respond encode resize png request (answer operation) = Inr response"
  using assms by (auto simp: served_call_def split: sum.splits)

lemma drawing_answer_Inr:
  "drawing_answer f r = Inr response \<longleftrightarrow> (\<exists>d. r = Inr d \<and> response = RsDrawing (Some (rpc_drawing_of d)))"
  by (cases r) (auto simp: drawing_answer_def)

lemma expect_drawing_Inr: "expect_drawing e r = Inr d \<longleftrightarrow> r = Inr (OutcomeDrawing d)"
  by (auto simp: expect_drawing_def split: sum.splits operation_outcome.splits)

lemmas reply_Inr = drawing_answer_Inr expect_drawing_Inr open_reply_def save_reply_def switch_reply_def history_reply_def

lemma parse_drawing_id_wire:
  "did_get i \<noteq> 0 \<Longrightarrow> parse_drawing_id (drawing_id_to_u32 i) = Inr i"
  by (simp add: parse_drawing_id_def drawing_id_wire_round_trip)

section \<open>What the registry shows\<close>

lemma find_by_id_id: "find_by_id drawings i = Some target \<Longrightarrow> dr_id (dt_drawing target) = i"
  by (auto simp: find_by_id_def tracked_target_def find_Some_iff)

lemma answered_switch:
  assumes "answered fs drawings (OpSwitch i) (Inr (OutcomeDrawing d))"
  shows "\<exists>target. find_by_id drawings i = Some target \<and> dr_active (dt_drawing target)"
  using assms
  by (auto simp: answered_def prepare_def prepare_found_def complete_def completed_target_def
      split: option.splits sum.splits if_splits)

lemma answered_save:
  assumes "answered fs drawings (OpSave i path) (Inr (OutcomeDrawing d))"
  shows "\<exists>target. find_by_id drawings i = Some target \<and> \<not> dr_modified (dt_drawing target)
    \<and> (\<forall>p. path = Some p \<longrightarrow> file_path (dt_drawing target) = Some (sp_text p))"
  using assms
  by (auto simp: answered_def prepare_def prepare_found_def prepare_save_def Let_def complete_def complete_save_def
      split: option.splits sum.splits if_splits drawing_path_error.splits)

lemma answered_close:
  assumes "answered fs drawings (OpClose i discard) (Inr OutcomeClosed)"
  shows "find_by_id drawings i = None"
  using assms
  by (auto simp: answered_def prepare_def prepare_found_def complete_def split: option.splits if_splits)

lemma answered_open:
  assumes "answered fs drawings (OpOpen p) (Inr (OutcomeDrawing d))"
  shows "\<exists>target. find_by_path drawings p = Some target \<and> dt_drawing target = d"
  using assms by (auto simp: answered_def prepare_def complete_def split: option.splits)

section \<open>The commands one by one\<close>

lemma served_success:
  assumes "call_drawings decode (served_call fs encode resize png answer) operation target request f = Some r" and "cr_exit r = 0"
  obtains p response where "drawing_operation fs request = Inr p"
    "respond encode resize png request (answer p) = Inr response" "r = f response"
  using assms by (auto elim!: call_drawings_0 served_response)

lemma switch_truthful:
  assumes "did_get (tg_drawing t) \<noteq> 0" and "\<And>p. answered fs drawings p (answer p)"
    and "switch_run decode (served_call fs encode resize png answer) t = Some r" and "cr_exit r = 0"
  shows "\<exists>d. find_by_id drawings (tg_drawing t) = Some d \<and> dr_active (dt_drawing d)"
proof -
  from assms(3,4) obtain d where "answer (OpSwitch (tg_drawing t)) = Inr (OutcomeDrawing d)"
    unfolding switch_run_def
    by (auto elim!: served_success simp: switch_request_def drawing_operation_def respond_def
        parse_drawing_id_wire [OF assms(1)] reply_Inr)
  with assms(2) [of "OpSwitch (tg_drawing t)"] show ?thesis by (intro answered_switch) simp
qed

lemma close_truthful:
  assumes "did_get (tg_drawing t) \<noteq> 0" and "\<And>p. answered fs drawings p (answer p)"
    and "close_run decode (served_call fs encode resize png answer) t discard = Some r" and "cr_exit r = 0"
  shows "find_by_id drawings (tg_drawing t) = None"
proof -
  from assms(3,4) have "\<exists>u. close_reply (answer (OpClose (tg_drawing t) discard)) = Inr u"
    unfolding close_run_def
    by (cases "close_reply (answer (OpClose (tg_drawing t) discard))")
      (auto elim!: served_success simp: close_request_def drawing_operation_def respond_def
        parse_drawing_id_wire [OF assms(1)])
  then have "answer (OpClose (tg_drawing t) discard) = Inr OutcomeClosed"
    by (auto simp: close_reply_def split: sum.splits operation_outcome.splits)
  with assms(2) [of "OpClose (tg_drawing t) discard"] show ?thesis by (intro answered_close) simp
qed

lemma history_truthful:
  assumes "did_get (tg_drawing t) \<noteq> 0"
    and "history_run decode (served_call fs encode resize png answer) t direction force = Some r" and "cr_exit r = 0"
  shows "\<exists>d. answer (OpHistory (tg_drawing t) direction (context_policy force)) = Inr (OutcomeDrawing d)"
  using assms(2,3) unfolding history_run_def
  by (cases direction) (auto elim!: served_success simp: history_request_def drawing_operation_def respond_def
      parse_drawing_id_wire [OF assms(1)] reply_Inr)

lemma save_truthful:
  assumes "did_get (tg_drawing t) \<noteq> 0" and "\<And>p. answered fs drawings p (answer p)"
    and "save_run lossy client_fs decode (served_call fs encode resize png answer) t path = Some r" and "cr_exit r = 0"
  shows "\<exists>d. find_by_id drawings (tg_drawing t) = Some d \<and> \<not> dr_modified (dt_drawing d)
    \<and> (\<forall>p. path = Some p \<longrightarrow> (\<exists>sent q. save_path_prepare client_fs p = Inr sent
         \<and> save_path_from_str fs (sp_text sent) = Inr q \<and> file_path (dt_drawing d) = Some (sp_text q)))"
proof (cases path)
  case None
  with assms(3,4) obtain d where "answer (OpSave (tg_drawing t) None) = Inr (OutcomeDrawing d)"
    unfolding save_run_def
    by (auto elim!: served_success simp: save_request_def drawing_operation_def respond_def
        parse_drawing_id_wire [OF assms(1)] reply_Inr)
  with assms(2) [of "OpSave (tg_drawing t) None"] None show ?thesis using answered_save by fastforce
next
  case (Some p)
  with assms(3,4) obtain sent where sent: "save_path_prepare client_fs p = Inr sent"
    by (cases "save_path_prepare client_fs p") (auto simp: save_run_def)
  with Some assms(3,4) obtain q d where q: "save_path_from_str fs (sp_text sent) = Inr q"
      "answer (OpSave (tg_drawing t) (Some q)) = Inr (OutcomeDrawing d)"
    unfolding save_run_def
    by (cases "save_path_from_str fs (sp_text sent)")
      (auto elim!: served_success simp: save_request_def drawing_operation_def respond_def
        parse_drawing_id_wire [OF assms(1)] reply_Inr)
  with assms(2) [of "OpSave (tg_drawing t) (Some q)"] Some sent show ?thesis using answered_save by fastforce
qed

lemma target_parts_parse:
  "iid_get inst \<noteq> 0 \<Longrightarrow> drawing_id_try_from_u32 (drawing_id_to_u32 i) = Some d \<Longrightarrow>
    d = i \<and> target_from_str (instance_id_display inst @ drawing_id_display d) = Some \<lparr>tg_instance = inst, tg_drawing = i\<rparr>"
proof -
  assume inst: "iid_get inst \<noteq> 0" and d: "drawing_id_try_from_u32 (drawing_id_to_u32 i) = Some d"
  have "did_get i \<noteq> 0"
    using d by (auto simp: drawing_id_try_from_u32_def drawing_id_new_def drawing_id_to_u32_def split: if_splits)
  with drawing_id_wire_round_trip [of i] d have "d = i" by simp
  with inst \<open>did_get i \<noteq> 0\<close> target_display_parses [of "\<lparr>tg_instance = inst, tg_drawing = i\<rparr>"]
  show ?thesis by (simp add: target_ok_def target_display_def)
qed

lemma open_truthful:
  assumes "iid_get inst \<noteq> 0" and "\<And>p. answered fs drawings p (answer p)"
    and "open_run lossy client_fs decode (\<lambda>_. served_call fs encode resize png answer) file (Inr inst) = Some r" and "cr_exit r = 0"
  shows "\<exists>sent q d printed. drawing_path_canonicalize client_fs file = Inr sent
    \<and> drawing_path_from_str fs (dp_text sent) = Inr q \<and> find_by_path drawings q = Some d \<and> cr_stdout r = [printed]
    \<and> target_from_str printed = Some \<lparr>tg_instance = inst, tg_drawing = dr_id (dt_drawing d)\<rparr>"
proof -
  from assms(3,4) obtain sent where sent: "drawing_path_canonicalize client_fs file = Inr sent"
    by (cases "drawing_path_canonicalize client_fs file") (auto simp: open_run_def)
  with assms(3,4) obtain q d where q: "drawing_path_from_str fs (dp_text sent) = Inr q"
      "answer (OpOpen q) = Inr (OutcomeDrawing d)" "r = open_finish inst (RsDrawing (Some (rpc_drawing_of d)))"
    by (cases "drawing_path_from_str fs (dp_text sent)")
      (auto simp: open_run_def open_request_def drawing_operation_def respond_def reply_Inr elim!: served_success)
  with assms(4) obtain i where i: "drawing_id_try_from_u32 (drawing_id_to_u32 (dr_id d)) = Some i"
      "cr_stdout r = [instance_id_display inst @ drawing_id_display i]"
    by (auto simp: open_finish_def response_drawing_def client_drawing_id_def rpc_drawing_of_def succeed_def
        split: option.splits)
  with q(1,2) sent target_parts_parse [OF assms(1) i(1)] answered_open [of fs drawings q d] assms(2) [of "OpOpen q"]
  show ?thesis by metis
qed

section \<open>Properties\<close>


text \<open>A host with one drawing, registered as \<open>/t/a.dwg\<close>.\<close>

definition sample_drawings :: drawing_registry where
  "sample_drawings = [\<lparr>td_native_key = \<lparr>dk_document_token = 1, dk_database_token = 2\<rparr>,
     td_drawing = \<lparr>dr_id = DrawingId 0x32F3, dr_name = Named (lit ''/t/a.dwg''), dr_modified = False,
       dr_read_only = False, dr_active = True\<rparr>\<rparr>]"

definition sample_call :: drawing_call where
  "sample_call = served_call sample_fs (\<lambda>e. [of_int (de_kind e)]) (\<lambda>_ _ _ _ _ _. (0, 0, 0, 0)) (\<lambda>_. None)
     (\<lambda>p. fst (complete sample_drawings (Some \<lparr>dk_document_token = 1, dk_database_token = 2\<rparr>) p))"



text \<open>An encoding that can be read back: numbers in unary.\<close>

fun write_nats :: "nat list \<Rightarrow> byte list" where
  "write_nats [] = [2]"
| "write_nats (n # ns) = replicate n 1 @ [0] @ write_nats ns"

fun read_nats :: "nat \<Rightarrow> byte list \<Rightarrow> nat list option" where
  "read_nats k [] = None"
| "read_nats k (b # bs) = (if b = 1 then read_nats (Suc k) bs
     else if b = 0 then map_option (\<lambda>ns. k # ns) (read_nats 0 bs) else Some [])"

lemma read_nats_ones: "read_nats k (replicate n 1 @ bs) = read_nats (k + n) bs"
  by (induction n arbitrary: k) simp_all

lemma read_write_nats: "read_nats 0 (write_nats ns) = Some ns"
  by (induction ns) (simp_all add: read_nats_ones)

definition sample_encode :: "drawing_error \<Rightarrow> byte list" where
  "sample_encode e = write_nats ([if de_kind e < 0 then 1 else 0, nat \<bar>de_kind e\<bar>,
     case de_drawing_id e of None \<Rightarrow> 0 | Some w \<Rightarrow> Suc (unat w)] @ de_detail e)"

definition sample_decode :: "byte list \<Rightarrow> drawing_error option" where
  "sample_decode bs = (case read_nats 0 bs of
     Some (sign # kind # i # detail) \<Rightarrow>
       Some \<lparr>de_kind = (if sign = 1 then - int kind else int kind),
         de_drawing_id = (if i = 0 then None else Some (of_nat (i - 1))), de_detail = detail\<rparr>
   | _ \<Rightarrow> None)"

lemma sample_codec: "sample_decode (sample_encode e) = Some e" "sample_encode e \<noteq> []"
proof -
  have "write_nats ns \<noteq> []" for ns by (cases ns) simp_all
  then show "sample_encode e \<noteq> []" by (simp only: sample_encode_def not_False_eq_True)
  show "sample_decode (sample_encode e) = Some e"
    by (cases e) (auto simp: sample_decode_def sample_encode_def read_write_nats simp del: write_nats.simps split: option.splits)
qed


section \<open>Where the words say too much\<close>

text \<open>\<open>undo\<close> denies having run when the host answered with a code the plugin does not know, although the error
  itself counts as an unknown outcome (\<open>Error::drawing_outcome\<close>).\<close>

lemma unknown_history_result_denied:
  "error_drawing_outcome (UnknownResult 99) = OutcomeUnknown
   \<and> request_error_message (\<lambda>_. None) ReqUndo (Some t) (history_error_status (\<lambda>_. []) (UnknownResult 99))
       = Some (about_target ''Undo was not run for drawing '' t ''.'')"
proof -
  have "\<not> incompatible_message (sched_error_display (UnknownResult 99))" by code_simp
  then show ?thesis
    by (simp add: error_drawing_outcome_def history_error_status_def scheduler_error_status_def drawing_error_kind_of_def
        scheduler_error_code_def is_internal_def status_new_def request_error_message_def drawing_error_from_status_def
        operation_failure_message_def)
qed

text \<open>A form that fails with a text of its own which starts like the message of a readiness timeout is
  reported as code that was not run, although it ran and changes may have been committed.\<close>

lemma readiness_taken_from_text:
  "failure_message (rpc_failure \<lparr>xf_message = lit ''AutoCAD did not become ready, says the script'', xf_form_index = Some 2,
      xf_location = Some \<lparr>sl_name = lit ''a.lsp'', sl_line = 3, sl_column = 1\<rparr>, xf_drawing_outcome = Committed,
      xf_drawing_error = None\<rparr>) (lit ''a.lsp'') t
    = Some (lit ''Timeout: code was not run.'')"
proof -
  have "starts_with (bounded_diagnostic (lit ''AutoCAD did not become ready, says the script''))
      (lit ''AutoCAD did not become ready'')" by code_simp
  then show ?thesis by (simp add: failure_message_def readiness_timed_out_def rpc_failure_def)
qed

end
