(* ===== verification/Path_Wire.thy ===== *)
theory Path_Wire
  imports Drawing_Paths
begin

text \<open>
  Paths from the command line to the plugin.  The client resolves a path with \<open>canonicalize\<close> or \<open>prepare\<close> and
  sends its text; the plugin parses the text, which resolves it again
  (\<open>crates/rpc/src/path.rs\<close>, used by \<open>cli/src/commands/{open,save}.rs\<close> and \<open>plugin/src/rpc/drawing.rs\<close>).
\<close>

text \<open>What is documented of \<open>fs::canonicalize\<close>: the result is absolute, without superfluous components, and
  its own canonical form.\<close>

definition canonicalizing :: "file_system \<Rightarrow> bool" where
  "canonicalizing fs \<longleftrightarrow> (\<forall>p d. fs_canonicalize fs p = Inr d \<longrightarrow>
     path_is_absolute b_slash d \<and> trim_path b_slash b_dot d = d \<and> fs_canonicalize fs d = Inr d)"

lemma from_utf8_again: "from_utf8 bs = Some s \<Longrightarrow> from_utf8 (as_bytes s) = Some s"
  by (simp add: from_utf8_Some)

text \<open>A text is absolute if its bytes are.\<close>

lemma as_bytes_absolute: "list_all is_scalar s \<Longrightarrow> path_is_absolute b_slash (as_bytes s) \<Longrightarrow> path_is_absolute ch_slash s"
proof (cases s)
  case (Cons c t)
  assume "list_all is_scalar s" "path_is_absolute b_slash (as_bytes s)"
  with Cons have c: "is_scalar c" "hd (encode_char c) = 47"
    by (auto simp: path_is_absolute_def encode_char_def split: if_splits)
  have "c < 128"
  proof (rule ccontr)
    assume "\<not> c < 128"
    with c show False
      by (auto simp: encode_char_def is_scalar_def word_unat_eq_iff unat_of_nat simp del: of_nat_add split: if_splits)
  qed
  with c(2) have "c = 47" by (simp add: encode_char_def word_unat_eq_iff unat_of_nat)
  with Cons show ?thesis by (simp add: path_is_absolute_def)
qed (simp add: path_is_absolute_def)

lemma trim_path_shorter: "length (trim_path sep dot xs) \<le> length xs"
proof (induction sep dot xs rule: trim_path.induct)
  case (1 sep dot xs)
  then show ?case by (subst trim_path.simps) (auto intro: le_trans)
qed

lemma before_last_part_split: "x \<notin> set t \<Longrightarrow> before_last_part x (s @ x # t) = s @ [x]"
proof -
  assume "x \<notin> set t"
  then have "dropWhile (\<lambda>c. c \<noteq> x) (rev t @ x # rev s) = x # rev s"
    by (subst dropWhile_append2) auto
  then show ?thesis by (simp add: before_last_part_def)
qed

lemma path_parent_join:
  assumes dir: "path_is_absolute sep dir" "trim_path sep dot dir = dir"
    and name: "sep \<notin> set name" "name \<noteq> []" "last name \<noteq> dot"
  shows "path_parent sep dot (path_join sep dir name) = Some dir"
proof -
  have ne: "dir \<noteq> []" "hd dir = sep" using dir(1) by (auto simp: path_is_absolute_def)
  obtain c name1 where n: "name = c # name1" using name(2) by (cases name) auto
  have "c \<noteq> sep" using name(1) n by auto
  have l: "last name \<noteq> sep" using name(1,2) by (metis last_in_set)
  have root: "dir = [sep]" if "last dir = sep"
  proof (rule ccontr)
    assume "dir \<noteq> [sep]"
    with that ne have b: "butlast dir \<noteq> []" by (metis append_butlast_last_id append_Nil)
    with that ne(1) have "trim_path sep dot dir = trim_path sep dot (butlast dir)" by (subst trim_path.simps) simp
    with dir(2) trim_path_shorter [of sep dot "butlast dir"] have "length dir \<le> length (butlast dir)" by metis
    moreover from ne(1) have "0 < length dir" by simp
    ultimately show False unfolding length_butlast by linarith
  qed
  let ?s = "if last dir = sep then [] else dir"
  have j: "path_join sep dir name = ?s @ sep # name"
    using ne(1) root \<open>c \<noteq> sep\<close> n by (auto simp: path_join_def)
  have "trim_path sep dot (path_join sep dir name) = path_join sep dir name"
    using name(2,3) l unfolding j by (intro trim_path_plain) auto
  moreover have "before_last_part sep (path_join sep dir name) = ?s @ [sep]"
    unfolding j by (rule before_last_part_split [OF name(1)])
  moreover have "trim_path sep dot (?s @ [sep]) = dir"
  proof (cases "last dir = sep")
    case True
    with root show ?thesis by (subst trim_path.simps) simp
  next
    case False
    with ne(1) dir(2) show ?thesis by (subst trim_path.simps) simp
  qed
  moreover have "path_join sep dir name \<noteq> [sep]" using name(2) unfolding j by (cases dir) auto
  ultimately show ?thesis by (simp add: path_parent_def Let_def j)
qed

text \<open>C21. A path means the same on both sides: what the client has resolved for \<open>open\<close> or \<open>save\<close> is read by the
  plugin as the same path, as long as they see the same file system.\<close>

theorem paths_survive_the_wire:
  assumes "canonicalizing fs" and "\<And>p d. fs_is_file fs p \<Longrightarrow> fs_canonicalize fs p = Inr d \<Longrightarrow> fs_is_file fs d"
  shows "(drawing_path_canonicalize fs path = Inr p \<longrightarrow> drawing_path_from_str fs (dp_text p) = Inr p)
    \<and> (save_path_prepare fs path = Inr q \<longrightarrow> save_path_from_str fs (sp_text q) = Inr q)"
proof (intro conjI impI)
  assume p: "drawing_path_canonicalize fs path = Inr p"
  note ok = drawing_path_canonicalize_ok [OF p]
  then have c: "fs_canonicalize fs path = Inr (as_bytes (dp_text p))" by simp
  then have u: "from_utf8 (as_bytes (dp_text p)) = Some (dp_text p)"
    using p by (auto simp: drawing_path_canonicalize_def split: if_splits sum.splits option.splits
        dest!: drawing_path_from_canonical_ok)
  from ok c assms show "drawing_path_from_str fs (dp_text p) = Inr p"
    by (auto simp: drawing_path_from_str_def drawing_path_canonicalize_def drawing_path_ok_def
        drawing_path_from_canonical_def canonicalizing_def u)
next
  assume "save_path_prepare fs path = Inr q"
  then have n: "save_path_normalize fs path = Inr q" by (auto simp: save_path_prepare_def split: sum.splits)
  let ?b = "as_bytes (sp_text q)"
  from save_path_normalize_ok [OF n] obtain dir name where
    ok: "has_dwg_extension ?b" "byte_len (sp_text q) \<le> MAX_DRAWING_PATH_BYTES"
    and d: "fs_canonicalize fs (save_parent path) = Inr dir" "path_file_name b_slash b_dot path = Some name"
      "?b = path_join b_slash dir name" by blast
  from n d have u: "from_utf8 ?b = Some (sp_text q)"
    by (auto simp: save_path_normalize_def Let_def split: if_splits option.splits)
  from assms(1) d(1) have c: "path_is_absolute b_slash dir" "trim_path b_slash b_dot dir = dir" "fs_canonicalize fs dir = Inr dir"
    by (auto simp: canonicalizing_def)
  have dwg: "has_dwg_extension path" using n by (simp add: save_path_normalize_def split: if_splits)
  have name: "b_slash \<notin> set name" "name \<noteq> []" "last name \<noteq> b_dot"
    using path_file_name_no_sep [OF d(2)] has_dwg_extension_name [OF dwg] d(2) by auto
  have parent: "save_parent ?b = dir"
    using path_parent_join [OF c(1,2) name] c(1) by (auto simp: save_parent_def d(3) path_is_absolute_def)
  have filename: "path_file_name b_slash b_dot ?b = Some name"
    unfolding d(3) by (rule path_file_name_join [OF name])
  have "path_is_absolute b_slash ?b"
    using c(1) by (auto simp: d(3) path_join_def path_is_absolute_def)
  then have "path_is_absolute ch_slash (sp_text q)" using as_bytes_absolute from_utf8_Some [OF u] by blast
  with ok parent filename c(3) u show "save_path_from_str fs (sp_text q) = Inr q"
    by (cases q) (simp add: save_path_from_str_def save_path_normalize_def Let_def d(3) [symmetric])
qed

text \<open>A file system of canonical paths under \<open>/t\<close>, where \<open>/t/a.dwg\<close> is a file.\<close>

definition plain_fs :: file_system where
  "plain_fs = \<lparr>fs_is_file = (\<lambda>p. p = as_bytes (lit ''/t/a.dwg'')),
     fs_canonicalize = (\<lambda>p. if p \<in> {as_bytes (lit ''/t''), as_bytes (lit ''/t/a.dwg'')} then Inr p else Inl IoNotFound),
     fs_symlink_metadata = (\<lambda>p. if p = as_bytes (lit ''/t/a.dwg'') then Inr () else Inl IoNotFound)\<rparr>"

theorem paths_survive_the_wire_witness:
  "drawing_path_from_str plain_fs (lit ''/t/a.dwg'') = Inr (DrawingPath (lit ''/t/a.dwg''))
   \<and> save_path_from_str plain_fs (lit ''/t/b.dwg'') = Inr (SavePath (lit ''/t/b.dwg''))"
proof -
  have "path_is_absolute b_slash p \<and> trim_path b_slash b_dot p = p"
    if "p \<in> {as_bytes (lit ''/t''), as_bytes (lit ''/t/a.dwg'')}" for p
    using that by (elim insertE emptyE; hypsubst) (code_simp+)
  then have "canonicalizing plain_fs" by (auto simp: canonicalizing_def plain_fs_def split: if_splits)
  moreover have "drawing_path_canonicalize plain_fs (as_bytes (lit ''/t/a.dwg'')) = Inr (DrawingPath (lit ''/t/a.dwg''))"
    by code_simp
  moreover have "save_path_prepare plain_fs (as_bytes (lit ''/t/b.dwg'')) = Inr (SavePath (lit ''/t/b.dwg''))"
    by code_simp
  ultimately show ?thesis
    using paths_survive_the_wire [of plain_fs "as_bytes (lit ''/t/a.dwg'')" "DrawingPath (lit ''/t/a.dwg'')"
        "SavePath (lit ''/t/b.dwg'')"] paths_survive_the_wire [of plain_fs "as_bytes (lit ''/t/b.dwg'')"
        "DrawingPath (lit ''/t/a.dwg'')" "SavePath (lit ''/t/b.dwg'')"]
    by (auto simp: plain_fs_def split: if_splits)
qed

end
