(* ===== verification/Client_List.thy ===== *)
theory Client_List
  imports Client_Drawing "HOL-Library.Multiset"
begin

text \<open>
  Instances of the host and what the command line shows of them, \<open>crates/cli/src/instance/mod.rs\<close>,
  \<open>commands/list.rs\<close>, and the choice of an instance in \<open>commands/open.rs\<close> and \<open>quit.rs\<close>.  Which processes run and
  what their plugins answer are parameters.
\<close>

section \<open>Instances\<close>

record cad_instance =
  in_id :: instance_id
  in_drawings :: "query_error + rpc_drawing list"

text \<open>How the query of one instance goes: no connection, no answer in time, a status, or the drawings.\<close>

datatype query_answer = QaNoConnection | QaTimeout | QaStatus status | QaListed "rpc_drawing list"

definition instance_query :: "instance_id \<Rightarrow> query_answer \<Rightarrow> cad_instance" where
  "instance_query i a = \<lparr>in_id = i, in_drawings = (case a of
     QaNoConnection \<Rightarrow> Inl CannotConnect
   | QaTimeout \<Rightarrow> Inl QueryTimedOut
   | QaStatus s \<Rightarrow> Inl (if ss_code s = CodeUnimplemented then OutdatedPlugin else RequestFailed (ss_message s))
   | QaListed drawings \<Rightarrow> Inr drawings)\<rparr>"

text \<open>The answers arrive in any order; then they are sorted by instance.\<close>

definition instance_key :: "cad_instance \<Rightarrow> nat" where
  "instance_key i = unat (iid_get (in_id i))"

definition query_instances :: "(instance_id \<times> query_answer) list \<Rightarrow> cad_instance list" where
  "query_instances arrived = sort_key instance_key (map (\<lambda>(i, a). instance_query i a) arrived)"

datatype selection_error = SelNotRunning instance_id | SelNotRunningAny | SelAmbiguous "instance_id list"

fun join_texts :: "ustr \<Rightarrow> ustr list \<Rightarrow> ustr" where
  "join_texts sep [] = []"
| "join_texts sep [t] = t"
| "join_texts sep (t # ts) = t @ sep @ join_texts sep ts"

definition ambiguous_instances :: "instance_id list \<Rightarrow> ustr" where
  "ambiguous_instances ids =
     lit ''More than one AutoCAD instance is running ('' @ join_texts (lit '', '') (map instance_id_display ids) @ lit '')''"

definition selection_error_display :: "selection_error \<Rightarrow> ustr" where
  "selection_error_display e = (case e of
     SelNotRunning i \<Rightarrow> lit ''AutoCAD instance '' @ instance_id_display i @ lit '' is not running''
   | SelNotRunningAny \<Rightarrow> lit ''AutoCAD is not running''
   | SelAmbiguous ids \<Rightarrow> ambiguous_instances ids)"

definition select_running :: "instance_id list \<Rightarrow> instance_id option \<Rightarrow> selection_error + instance_id" where
  "select_running running requested = (case requested of
     Some i \<Rightarrow> (case find (\<lambda>j. j = i) running of Some j \<Rightarrow> Inr j | None \<Rightarrow> Inl (SelNotRunning i))
   | None \<Rightarrow> (case running of
       [i] \<Rightarrow> Inr i
     | [] \<Rightarrow> Inl SelNotRunningAny
     | ids \<Rightarrow> Inl (SelAmbiguous ids)))"

section \<open>Choosing an instance to open a drawing in\<close>

definition is_available :: "cad_instance \<Rightarrow> bool" where
  "is_available i \<longleftrightarrow> \<not> isl (in_drawings i)"

definition select_available_instance :: "cad_instance list \<Rightarrow> ustr + instance_id option" where
  "select_available_instance instances = (case map in_id (filter is_available instances) of
     [i] \<Rightarrow> Inr (Some i)
   | [] \<Rightarrow> Inr None
   | ids \<Rightarrow> Inl (ambiguous_instances ids))"

definition select_launched_instance :: "cad_instance list \<Rightarrow> instance_id option \<Rightarrow> ustr + instance_id option" where
  "select_launched_instance instances launched = (case launched of
     None \<Rightarrow> select_available_instance instances
   | Some l \<Rightarrow> Inr (map_option in_id (find (\<lambda>i. in_id i = l \<and> is_available i) instances)))"

definition first_query_error :: "cad_instance list \<Rightarrow> query_error option" where
  "first_query_error instances =
     Option.bind (find (\<lambda>i. isl (in_drawings i)) instances)
       (\<lambda>i. case in_drawings i of Inl e \<Rightarrow> Some e | Inr _ \<Rightarrow> None)"

definition select_instance :: "cad_instance list \<Rightarrow> instance_id list \<Rightarrow> ustr + instance_id" where
  "select_instance instances running = (case select_available_instance instances of
     Inl e \<Rightarrow> Inl e
   | Inr (Some i) \<Rightarrow> Inr i
   | Inr None \<Rightarrow> (case first_query_error instances of
       Some e \<Rightarrow> Inl (query_error_message e)
     | None \<Rightarrow> (case running of
         [i] \<Rightarrow> Inr i
       | [] \<Rightarrow> Inl (lit ''AutoCAD is not running'')
       | ids \<Rightarrow> Inl (ambiguous_instances ids))))"

text \<open>Waiting for a launched instance: what each poll within the time finds.\<close>

fun wait_for_launched_instance :: "cad_instance list list \<Rightarrow> instance_id option \<Rightarrow> ustr + instance_id" where
  "wait_for_launched_instance [] launched = Inl (lit ''Timeout: AutoCAD did not start.'')"
| "wait_for_launched_instance (instances # polls) launched =
     (case select_launched_instance instances launched of
        Inl e \<Rightarrow> Inl e
      | Inr (Some i) \<Rightarrow> Inr i
      | Inr None \<Rightarrow> wait_for_launched_instance polls launched)"

definition resolve_instance ::
  "instance_id option \<Rightarrow> instance_id list \<Rightarrow> (instance_id \<times> query_answer) list \<Rightarrow> ustr + instance_id option
     \<Rightarrow> cad_instance list list \<Rightarrow> ustr + instance_id" where
  "resolve_instance requested running arrived launch polls = (case requested of
     Some i \<Rightarrow> Inr i
   | None \<Rightarrow>
       if running = [] then
         (case launch of Inl e \<Rightarrow> Inl e | Inr launched \<Rightarrow> wait_for_launched_instance polls launched)
       else select_instance (query_instances arrived) running)"

section \<open>Quitting\<close>

text \<open>Polls of the process: whether it has exited, and the time; \<open>None\<close> is a wait that still goes on.\<close>

fun wait_until_stopped :: "nat \<Rightarrow> (bool \<times> nat) list \<Rightarrow> bool option" where
  "wait_until_stopped deadline [] = None"
| "wait_until_stopped deadline ((exited, now) # polls) =
     (if exited then Some True else if now \<ge> deadline then Some False else wait_until_stopped deadline polls)"

definition quit_run ::
  "instance_id list \<Rightarrow> instance_id option \<Rightarrow> bool \<Rightarrow> bool \<Rightarrow> nat \<Rightarrow> (bool \<times> nat) list \<Rightarrow> command_result option" where
  "quit_run running requested force requested_ok deadline polls = (case select_running running requested of
     Inl e \<Rightarrow> Some (fail (selection_error_display e))
   | Inr i \<Rightarrow>
       if \<not> requested_ok then Some (fail (lit ''Stop failed for AutoCAD instance '' @ instance_id_display i @ lit ''.''))
       else map_option (\<lambda>stopped.
         if stopped then succeed []
         else if force then fail (lit ''Timeout: AutoCAD instance '' @ instance_id_display i @ lit '' did not stop.'')
         else fail (lit ''Timeout: AutoCAD instance '' @ instance_id_display i @ lit '' did not stop. Use --force.''))
         (wait_until_stopped deadline polls))"

section \<open>Listing\<close>

text \<open>\<open>{:0w$X}\<close>.\<close>

definition hex_padded :: "nat \<Rightarrow> nat \<Rightarrow> ustr" where
  "hex_padded w n = replicate (w - length (hex_nat n)) 48 @ hex_nat n"

definition drawing_line :: "instance_id \<Rightarrow> nat \<Rightarrow> rpc_drawing \<Rightarrow> ustr + ustr" where
  "drawing_line i width d = (case client_drawing_id (dw_id d) of
     Inl e \<Rightarrow> Inl e
   | Inr drawing_id \<Rightarrow> Inr (
       (if dw_active d then lit ''>'' else lit '' '') @ lit '' '' @ hex_padded width (unat (iid_get i))
       @ drawing_id_display drawing_id @ lit ''  '' @ (if dw_modified d then lit ''*'' else lit ''.'') @ lit ''  ''
       @ (if dw_read_only d then lit ''ro'' else lit ''rw'') @ lit ''  ''
       @ (case dw_file_path d of Some p \<Rightarrow> p | None \<Rightarrow> dw_display_name d)))"

definition instance_id_width :: "cad_instance list \<Rightarrow> nat" where
  "instance_id_width instances =
     (if instances = [] then MIN_HEX_WIDTH else Max (set (map (\<lambda>i. hex_width (in_id i)) instances)))"

definition instance_lines :: "nat \<Rightarrow> cad_instance \<Rightarrow> ustr list \<times> ustr list" where
  "instance_lines width i = (case in_drawings i of
     Inl e \<Rightarrow> ([], [query_error_message e])
   | Inr drawings \<Rightarrow>
       (concat (map (\<lambda>d. case drawing_line (in_id i) width d of Inr l \<Rightarrow> [l] | Inl _ \<Rightarrow> []) drawings),
        concat (map (\<lambda>d. case drawing_line (in_id i) width d of Inr _ \<Rightarrow> []
            | Inl e \<Rightarrow> [lit ''Drawing inspection failed in AutoCAD instance '' @ instance_id_display (in_id i)
                 @ lit '': '' @ e @ lit ''.'']) drawings)))"

definition render_listing :: "cad_instance list \<Rightarrow> ustr list \<times> ustr list" where
  "render_listing instances =
     (let parts = map (instance_lines (instance_id_width instances)) instances
      in (concat (map fst parts), concat (map snd parts)))"

definition list_run :: "(instance_id \<times> query_answer) list \<Rightarrow> command_result" where
  "list_run arrived = (case render_listing (query_instances arrived) of (shown, diagnostics) \<Rightarrow>
     \<lparr>cr_stdout = shown, cr_stderr = diagnostics, cr_exit = (if diagnostics = [] then 0 else 1)\<rparr>)"

end
