(* ===== verification/Listing.thy ===== *)
theory Listing
  imports Client_List
begin

text \<open>
  What \<open>acadctl list\<close> prints names the drawings: every line holds a target that the other commands read back.
\<close>

lemma hex_width_bounds:
  assumes "iid_get i \<noteq> 0"
  shows "4 \<le> hex_width i" "hex_width i \<le> 8" "length (hex_nat (unat (iid_get i))) \<le> hex_width i"
proof -
  have "length (hex_nat (unat (iid_get i))) \<le> length (instance_id_display i)"
    by (simp add: instance_id_display_def format_04X_def pad4_def)
  moreover have "length (instance_id_display i) = byte_len (instance_id_display i)"
    using hexdigits_byte_len [OF format_04X_hexdigits] by (simp add: instance_id_display_def)
  ultimately show "4 \<le> hex_width i" "hex_width i \<le> 8" "length (hex_nat (unat (iid_get i))) \<le> hex_width i"
    using byte_len_instance_display [of i] by (simp_all add: hex_width_is_display_width [OF assms])
qed

lemma padded_target_parses:
  assumes "target_ok t" and "4 \<le> w" "w \<le> 8" "length (hex_nat (unat (iid_get (tg_instance t)))) \<le> w"
  shows "target_from_str (hex_padded w (unat (iid_get (tg_instance t))) @ drawing_id_display (tg_drawing t)) = Some t"
proof -
  let ?n = "unat (iid_get (tg_instance t))" and ?d = "drawing_id_display (tg_drawing t)"
  have "is_ascii_hexdigit 48" by (simp add: is_ascii_hexdigit_def is_ascii_digit_def)
  then have p: "all_hexdigits (hex_padded w ?n)"
    using hex_nat_hexdigits by (auto simp: hex_padded_def all_hexdigits_iff)
  have len: "byte_len (hex_padded w ?n) = w"
    using hexdigits_byte_len [OF p] assms(4) by (simp add: hex_padded_def)
  have "hex_value (hex_padded w ?n) = ?n" by (simp add: hex_padded_def hex_value_zeros hex_value_hex_nat)
  moreover have "hex_padded w ?n \<noteq> []" using len assms(2) by auto
  ultimately have "u32_from_hex (hex_padded w ?n) = Some (iid_get (tg_instance t))"
    using unat_lt [of "iid_get (tg_instance t)"] by (simp add: u32_from_hex_def)
  then have inst: "instance_id_from_str (hex_padded w ?n) = Some (tg_instance t)"
    using assms len p by (simp add: instance_id_from_str_def MIN_HEX_WIDTH_def MAX_HEX_WIDTH_def instance_id_new_def target_ok_def)
  have "all_hexdigits (hex_padded w ?n @ ?d)"
    using p format_04X_hexdigits by (simp add: all_hexdigits_append drawing_id_display_def)
  then show ?thesis
    using inst drawing_id_round_trip [of "tg_drawing t"] assms len drop_bytes_append [of "hex_padded w ?n" ?d]
      take_bytes_append [of "hex_padded w ?n" ?d]
    by (simp add: target_from_str_def Let_def DRAWING_ID_HEX_WIDTH_def MIN_HEX_WIDTH_def MAX_HEX_WIDTH_def target_ok_def
        byte_len_drawing_display)
qed

text \<open>The drawings of a listing that can be named, in its order, with their targets and whether they are active.\<close>

definition listed_drawings :: "cad_instance list \<Rightarrow> (target \<times> bool) list" where
  "listed_drawings instances = concat (map (\<lambda>i. case in_drawings i of
     Inl _ \<Rightarrow> []
   | Inr drawings \<Rightarrow> concat (map (\<lambda>d. case drawing_id_try_from_u32 (dw_id d) of
       Some drawing_id \<Rightarrow> [(\<lparr>tg_instance = in_id i, tg_drawing = drawing_id\<rparr>, dw_active d)]
     | None \<Rightarrow> []) drawings)) instances)"

text \<open>Reading a line of the listing: the target stands after two characters, the first of which is a greater-than
  sign for an active drawing.\<close>

definition read_line :: "nat \<Rightarrow> ustr \<Rightarrow> target option \<times> bool" where
  "read_line width line = (target_from_str (take (width + 4) (drop 2 line)), hd line = 62)"

lemma drawing_line_read:
  assumes "iid_get i \<noteq> 0" and "4 \<le> w" "w \<le> 8" "length (hex_nat (unat (iid_get i))) \<le> w"
    and "drawing_line i w d = Inr line"
  shows "\<exists>drawing_id. drawing_id_try_from_u32 (dw_id d) = Some drawing_id
    \<and> read_line w line = (Some \<lparr>tg_instance = i, tg_drawing = drawing_id\<rparr>, dw_active d)"
proof -
  from assms(5) obtain j rest where j: "drawing_id_try_from_u32 (dw_id d) = Some j"
    and line: "line = (if dw_active d then lit ''>'' else lit '' '') @ lit '' ''
      @ (hex_padded w (unat (iid_get i)) @ drawing_id_display j) @ rest"
    by (auto simp: drawing_line_def client_drawing_id_def split: option.splits)
  let ?t = "\<lparr>tg_instance = i, tg_drawing = j\<rparr>"
  have "did_get j \<noteq> 0"
    using j by (auto simp: drawing_id_try_from_u32_def drawing_id_new_def split: if_splits)
  with assms(1) have "target_ok ?t" by (simp add: target_ok_def)
  then have parse: "target_from_str (hex_padded w (unat (iid_get i)) @ drawing_id_display j) = Some ?t"
    using padded_target_parses [of ?t w] assms(2-4) by simp
  have len: "length (hex_padded w (unat (iid_get i)) @ drawing_id_display j) = w + 4"
    using assms(4) byte_len_drawing_display [of j] hexdigits_byte_len [OF format_04X_hexdigits]
    by (simp add: hex_padded_def drawing_id_display_def)
  have "drop 2 line = (hex_padded w (unat (iid_get i)) @ drawing_id_display j) @ rest"
    by (simp add: line lit_def)
  with len parse have "target_from_str (take (w + 4) (drop 2 line)) = Some ?t" by simp
  with j line show ?thesis by (simp add: read_line_def lit_def)
qed

lemma drawing_line_fails: "isl (drawing_line i w d) \<longleftrightarrow> drawing_id_try_from_u32 (dw_id d) = None"
  by (auto simp: drawing_line_def client_drawing_id_def split: option.splits)

lemma instance_lines_read:
  assumes "iid_get (in_id i) \<noteq> 0" and "4 \<le> w" "w \<le> 8" "length (hex_nat (unat (iid_get (in_id i)))) \<le> w"
  shows "map (read_line w) (fst (instance_lines w i)) = map (map_prod Some id) (listed_drawings [i])"
proof (cases "in_drawings i")
  case (Inr drawings)
  have "map (read_line w) (case drawing_line (in_id i) w d of Inr l \<Rightarrow> [l] | Inl _ \<Rightarrow> [])
      = (case drawing_id_try_from_u32 (dw_id d) of
           Some j \<Rightarrow> [(Some \<lparr>tg_instance = in_id i, tg_drawing = j\<rparr>, dw_active d)] | None \<Rightarrow> [])" for d
  proof (cases "drawing_line (in_id i) w d")
    case (Inl e)
    with drawing_line_fails [of "in_id i" w d] show ?thesis by simp
  next
    case (Inr line)
    from drawing_line_read [OF assms Inr] Inr show ?thesis by auto
  qed
  then have "map (read_line w) (concat (map (\<lambda>d. case drawing_line (in_id i) w d of Inr l \<Rightarrow> [l] | Inl _ \<Rightarrow> []) ds))
      = map (map_prod Some id) (concat (map (\<lambda>d. case drawing_id_try_from_u32 (dw_id d) of
          Some j \<Rightarrow> [(\<lparr>tg_instance = in_id i, tg_drawing = j\<rparr>, dw_active d)] | None \<Rightarrow> []) ds))" for ds
    by (induction ds) (auto split: option.splits)
  with Inr show ?thesis by (simp add: instance_lines_def listed_drawings_def)
qed (simp add: instance_lines_def listed_drawings_def)

lemma instance_lines_diagnostics:
  "snd (instance_lines w i) = [] \<longleftrightarrow>
     (case in_drawings i of Inl _ \<Rightarrow> False | Inr drawings \<Rightarrow> \<forall>d\<in>set drawings. drawing_id_try_from_u32 (dw_id d) \<noteq> None)"
proof (cases "in_drawings i")
  case (Inr drawings)
  have "(case drawing_line (in_id i) w d of Inr _ \<Rightarrow> [] | Inl e \<Rightarrow> [f e]) = []
      \<longleftrightarrow> drawing_id_try_from_u32 (dw_id d) \<noteq> None" for d and f :: "ustr \<Rightarrow> ustr"
    using drawing_line_fails [of "in_id i" w d] by (cases "drawing_line (in_id i) w d") auto
  with Inr show ?thesis by (simp add: instance_lines_def)
qed (simp add: instance_lines_def)

lemma listed_drawings_concat: "listed_drawings instances = concat (map (\<lambda>i. listed_drawings [i]) instances)"
  by (simp add: listed_drawings_def)

text \<open>C20. A listing names every drawing: read with one width between four and eight, each line gives the target
  of a drawing, in an order sorted by instance, with its marker exactly at the active drawings; every
  drawing with a valid identifier of an instance that answered is there; and the exit code is zero
  exactly if every instance answered with valid drawings.\<close>

theorem listing_names_drawings:
  assumes "\<forall>(i, a)\<in>set arrived. iid_get i \<noteq> 0"
  shows "(\<exists>w. 4 \<le> w \<and> w \<le> 8 \<and> map (read_line w) (cr_stdout (list_run arrived))
       = map (map_prod Some id) (listed_drawings (query_instances arrived)))
    \<and> sorted (map instance_key (query_instances arrived))
    \<and> mset (query_instances arrived) = mset (map (\<lambda>(i, a). instance_query i a) arrived)
    \<and> (cr_exit (list_run arrived) = 0 \<longleftrightarrow> (\<forall>(i, a)\<in>set arrived. case a of
         QaListed drawings \<Rightarrow> \<forall>d\<in>set drawings. drawing_id_try_from_u32 (dw_id d) \<noteq> None | _ \<Rightarrow> False))"
proof (intro conjI)
  let ?is = "query_instances arrived" and ?w = "instance_id_width (query_instances arrived)"
  have ids: "iid_get (in_id i) \<noteq> 0" if "i \<in> set ?is" for i
    using assms that by (auto simp: query_instances_def instance_query_def)
  show "\<exists>w. 4 \<le> w \<and> w \<le> 8 \<and> map (read_line w) (cr_stdout (list_run arrived)) = map (map_prod Some id) (listed_drawings ?is)"
  proof (cases "?is = []")
    case True
    then show ?thesis by (auto simp: list_run_def render_listing_def listed_drawings_def intro!: exI [of _ 4])
  next
    case False
    let ?ws = "set (map (\<lambda>i. hex_width (in_id i)) ?is)"
    have m: "?w = Max ?ws" using False by (simp add: instance_id_width_def)
    have "?w \<in> ?ws" unfolding m using False by (intro Max_in) auto
    then have w: "4 \<le> ?w" "?w \<le> 8" using hex_width_bounds ids by auto
    have "length (hex_nat (unat (iid_get (in_id i)))) \<le> ?w" if "i \<in> set ?is" for i
    proof -
      have "hex_width (in_id i) \<le> ?w" unfolding m using that by (intro Max_ge) auto
      with hex_width_bounds(3) [OF ids [OF that]] show ?thesis by linarith
    qed
    then have "map (read_line ?w) (fst (instance_lines ?w i)) = map (map_prod Some id) (listed_drawings [i])"
      if "i \<in> set ?is" for i
      using that instance_lines_read [OF ids [OF that] w] by blast
    then have "map (read_line ?w) (cr_stdout (list_run arrived)) = map (map_prod Some id) (listed_drawings ?is)"
      unfolding listed_drawings_concat [of ?is]
      by (auto simp: list_run_def render_listing_def Let_def map_concat comp_def intro!: arg_cong [of _ _ concat] map_cong)
    with w show ?thesis by blast
  qed
  show "sorted (map instance_key ?is)" by (simp add: query_instances_def)
  show "mset ?is = mset (map (\<lambda>(i, a). instance_query i a) arrived)" by (simp add: query_instances_def)
  have "cr_exit (list_run arrived) = 0 \<longleftrightarrow> (\<forall>i\<in>set ?is. snd (instance_lines ?w i) = [])"
    by (simp add: list_run_def render_listing_def Let_def)
  also have "\<dots> \<longleftrightarrow> (\<forall>i\<in>set (map (\<lambda>(i, a). instance_query i a) arrived). case in_drawings i of
      Inl _ \<Rightarrow> False | Inr drawings \<Rightarrow> \<forall>d\<in>set drawings. drawing_id_try_from_u32 (dw_id d) \<noteq> None)"
    by (simp add: instance_lines_diagnostics query_instances_def)
  also have "\<dots> \<longleftrightarrow> (\<forall>(i, a)\<in>set arrived. case a of
         QaListed drawings \<Rightarrow> \<forall>d\<in>set drawings. drawing_id_try_from_u32 (dw_id d) \<noteq> None | _ \<Rightarrow> False)"
    by (auto simp: instance_query_def split: query_answer.splits)
  finally show "cr_exit (list_run arrived) = 0 \<longleftrightarrow> (\<forall>(i, a)\<in>set arrived. case a of
         QaListed drawings \<Rightarrow> \<forall>d\<in>set drawings. drawing_id_try_from_u32 (dw_id d) \<noteq> None | _ \<Rightarrow> False)" .
qed

text \<open>One drawing of an instance that answered, and an instance that did not answer.\<close>

definition sample_listing :: "(instance_id \<times> query_answer) list" where
  "sample_listing = [(InstanceId 0xFA5, QaListed [\<lparr>dw_id = 0x32F3, dw_display_name = lit ''a'', dw_file_path = None,
     dw_modified = True, dw_read_only = False, dw_active = True\<rparr>]), (InstanceId 7, QaTimeout)]"

theorem listing_names_drawings_witness:
  "\<exists>w. map (read_line w) (cr_stdout (list_run sample_listing))
     = [(Some \<lparr>tg_instance = InstanceId 0xFA5, tg_drawing = DrawingId 0x32F3\<rparr>, True)]
   \<and> cr_exit (list_run sample_listing) \<noteq> 0"
proof -
  have ids: "\<forall>(i, a)\<in>set sample_listing. iid_get i \<noteq> 0" by (simp add: sample_listing_def)
  have "listed_drawings (query_instances sample_listing) = [(\<lparr>tg_instance = InstanceId 0xFA5, tg_drawing = DrawingId 0x32F3\<rparr>, True)]"
    by (simp add: sample_listing_def query_instances_def instance_query_def instance_key_def listed_drawings_def
        drawing_id_try_from_u32_def drawing_id_new_def)
  then show ?thesis using listing_names_drawings [OF ids] by (auto simp: sample_listing_def)
qed

end
