(* ===== verification/Spec2Isabelle.thy ===== *)
theory Spec2Isabelle
  imports Exec_Properties Sched_Properties Value_Readable Exec_End Client_Agreement Shot_Published
    Server_Life Drawing_Commands Path_Wire Listing
begin

text \<open>
  A model of acadctl, which lets a command line run AutoLISP in a running CAD program, open, save and
  capture drawings there, and read back what is printed.  It is four crates under \<open>src/crates\<close>: \<open>lisp\<close>
  (a scanner of sources), \<open>rpc\<close> (identifiers, paths and messages both sides exchange), \<open>plugin\<close> (the
  services, the scheduler, the execution of sources and the printing of values inside the host) and
  \<open>cli\<close> (the command line).

  How the parts work together.  A client hands the plugin a source or an operation on a drawing.  The
  scheduler (\<open>plugin/src/scheduler\<close>) checks it, queues it and gives the host, one at a time, the native
  action of the oldest job; the host works on its main thread, answers each action, and the scheduler
  answers the client.  An execution (\<open>plugin/src/exec/state.rs\<close>) is a job of many small steps: it cuts
  its source into forms with the scanner, and alternates \<open>take_step\<close> (what the host has to do next) with
  \<open>complete_step\<close> (what it did), so that either every form was evaluated and the undo group committed, or
  the drawing is rolled back.  While a form runs, the host sends the events of the values it prints to
  a port (\<open>exec/value\<close>), under a lease of the bridge (\<open>exec/io.rs\<close>) that gives one writer at a time the
  window of one evaluation.  The port drives the printer and its streaming layout, which write to a
  bounded channel (\<open>exec/output.rs\<close>) that the client's stream reads.

  Between them stand the services (\<open>plugin/src/rpc\<close>).  A request for a drawing is checked, becomes one
  operation of the scheduler, and its answer one message or a status.  An execution is a stream of
  events (accepted, output, at most one acknowledgement of a cancellation, the outcome) beside which a
  reader waits for the client's wish to cancel.  The client (\<open>cli/src/commands\<close>) checks sources, paths and
  regions before it sends them, turns events and statuses into text and an exit code, listens for Ctrl+C
  all the while, and publishes screenshots as files in a directory that it also cleans up.

  The theories, in the order of the imports; the manifest names the lines each definition models.

    \<^item> \<open>Prelude\<close>, \<open>Rust_Text\<close>: lists, options and saturating arithmetic; Rust's \<open>char\<close> and \<open>str\<close>, with
      offsets in UTF-8 bytes.
    \<^item> \<open>Lisp_Scanner\<close>: the cursor and the scanner of \<open>lisp/src/lib.rs\<close>.  \<open>Lisp_Grammar\<close>: a grammar of forms
      that does not mention the scanner, with the lemmas that each scanning function consumes what the
      grammar says (\<open>step_ok\<close>), then whole sources.  \<open>Lisp_Plain\<close>: the converse for texts without
      comments, quotes and carriage returns.  \<open>Form_Source\<close>: what the execution needs of a scanner, as
      the locale \<open>form_source\<close>.
    \<^item> \<open>Diagnostic\<close> (\<open>exec/diagnostic.rs\<close>), \<open>Ids\<close> (\<open>rpc/src/drawing.rs\<close>, \<open>instance.rs\<close>, \<open>source.rs\<close>, the
      targets of \<open>cli\<close>), \<open>Drawing_Paths\<close> (\<open>rpc/src/path.rs\<close>), \<open>Drawing_Registry\<close> (\<open>plugin/src/drawing.rs\<close>),
      \<open>Screenshot\<close> (\<open>plugin/src/screenshot.rs\<close>).
    \<^item> \<open>Output_Channel\<close> (\<open>exec/output.rs\<close>): each operation is a turn under the lock, with the wake-ups it
      makes; runs are interleavings of turns.  \<open>Value_Bridge\<close> (\<open>exec/io.rs\<close>): windows and leases.
    \<^item> \<open>Exec_Outcome\<close> (\<open>exec/outcome.rs\<close>, \<open>exec/lisp.rs\<close>), \<open>Exec_State\<close> (\<open>exec/state.rs\<close>): the execution as a
      record with its phases, \<open>take_step\<close>, \<open>complete_step\<close>, cancellation, expiry and abandonment.
      \<open>Exec_Invariant\<close>: what holds in every reachable state, over a log of the completed steps.
      \<open>Exec_Properties\<close>: outcomes are truthful, cancellations hold, the undo group is closed.
    \<^item> \<open>Sched_Error\<close>, \<open>Sched_Native\<close>, \<open>Sched_Operation\<close>, \<open>Sched_Queue\<close> (\<open>scheduler/error.rs\<close>, \<open>native.rs\<close>,
      \<open>operation.rs\<close>, \<open>queue.rs\<close>): the scheduler as a record, each method under its lock as a function.
      \<open>Sched_World\<close> (\<open>timer.rs\<close>, \<open>bridge.rs\<close>, the functions around the lock): the scheduler together with
      wake-ups, answers and the output channels.  \<open>Sched_Contract\<close>: the locale \<open>execution_contract\<close>, what
      the scheduler needs of a property of executions.  \<open>Sched_Invariant\<close>, \<open>Sched_Order\<close>, \<open>Sched_Runs\<close>,
      \<open>Sched_Reach\<close>: tickets (each job is open or answered once), order and waits, and the invariant of
      every reachable world.  \<open>Sched_Properties\<close>: what clients and host may rely on.
    \<^item> \<open>Value_Real\<close>, \<open>Value_Layout\<close>, \<open>Value_Printer\<close>, \<open>Value_Port\<close> (\<open>exec/value/printer.rs\<close>,
      \<open>printer_layout.rs\<close>, \<open>port.rs\<close>, \<open>event.rs\<close>, \<open>exec/println.rs\<close>): how values are printed.
      \<open>Value_Protocol\<close>: which events are taken.  \<open>Value_Run\<close>: the locale \<open>text_sink\<close>, a sink that takes
      what it is given, and the streaming layout against \<open>lay_out\<close>, which sees all tokens at once.
      \<open>Value_Document\<close>: documents and their rendering.  \<open>Value_Render\<close>, \<open>Value_Written\<close>: the events of a
      value make the printer write the rendering of its document.  \<open>Value_Served\<close>: the channel with a
      consumer that reads, as a \<open>text_sink\<close>.  \<open>Value_Readable\<close>: printed values are source text.
    \<^item> \<open>Rpc_Messages\<close> (\<open>rpc/proto/acadctl.proto\<close>, \<open>rpc/src/request.rs\<close>), \<open>Rpc_Request\<close> (\<open>plugin/src/rpc/exec.rs\<close>,
      \<open>status.rs\<close>): requests, their check, outcomes and errors on the wire.  \<open>Rpc_Response\<close> (\<open>exec.rs\<close>): the
      stream of an execution as the polls of its transport, with the reader of cancellations.
      \<open>Rpc_Protocol\<close>: the protocol as an automaton.  \<open>Rpc_Stream\<close>, \<open>Rpc_Call\<close>: the invariant of a call under
      every move of channel, scheduler, reader and transport.  \<open>Rpc_Properties\<close>: streams follow the
      protocol, are complete and end.  \<open>Rpc_Drawing\<close> (\<open>plugin/src/rpc/drawing.rs\<close>): the drawing service.
      \<open>Rpc_Server\<close> (\<open>plugin/src/rpc/server.rs\<close>): the server's thread and its manager.  \<open>Server_Life\<close>: server,
      timers and scheduler start and end together.
    \<^item> \<open>Client_Messages\<close> (\<open>cli/src/commands/mod.rs\<close>): failures in words.  \<open>Client_Exec\<close>
      (\<open>cli/src/commands/exec\<close>): the session of an execution, with Ctrl+C.  \<open>Exec_Session\<close>, \<open>Exec_Joint\<close>,
      \<open>Exec_End\<close>: client and plugin joined by a connection that may break; the client never finds a
      response invalid, and its exit codes are honest.  \<open>Client_Source\<close> (\<open>cli/src/source.rs\<close>) and
      \<open>Client_Agreement\<close>: a source that the client accepts was read whole and the plugin accepts it too.
    \<^item> \<open>Shot_Names\<close>, \<open>Shot_Files\<close> (\<open>cli/src/commands/screenshot/output.rs\<close>): names of screenshots and the
      calls that publish one and remove the expired, on a disk that others change between any two calls
      and whose calls may fail.  \<open>Shot_Published\<close>: whole files or none, and nothing of others is removed.
    \<^item> \<open>Client_Region\<close> (\<open>screenshot/mod.rs\<close>), \<open>Client_Drawing\<close> (\<open>switch.rs\<close>, \<open>save.rs\<close>, \<open>history.rs\<close>, \<open>close.rs\<close>,
      \<open>open.rs\<close>), \<open>Client_List\<close> (\<open>instance/mod.rs\<close>, \<open>list.rs\<close>, \<open>quit.rs\<close>): the other commands.
      \<open>Drawing_Commands\<close>: commands joined to the service and the registry; what success means and how
      failures are told.  \<open>Path_Wire\<close>: a path means the same on both sides.  \<open>Listing\<close>: a listing can be
      read back.

  Conventions.  A Rust struct is a record, an enum a datatype; \<open>u64\<close> counters that can wrap or saturate
  are words or written out with \<open>u64_max\<close>; byte lengths are natural numbers.  \<open>Result\<close> and \<open>?\<close> are sums
  (\<open>Inl\<close> is the error), and an error leaves the state as the source leaves it.  Mutexes become functions
  on the locked state, and what happens after unlocking follows in the order of the source.  Loops are
  functions with a measure; where a loop has no bound of its own, it has fuel: \<open>served_emit\<close> counts the
  chunks the consumer may have to take (at most the bytes held and to be written, \<open>serve_open\<close>), the
  identifiers drawn by \<open>new_drawing_id\<close> are a stream that must hold a free one
  (\<open>replace_snapshot_ends\<close>), and \<open>driven_execution_ends\<close> shows that as many rounds as there are forms, and
  five, always suffice.

  What stands for code outside the repository is a parameter: the answers of the host (any answer in any
  order), the clock, random identifiers, the file system (\<open>Drawing_Paths\<close>, \<open>Shot_Files\<close>), the width of a
  text (\<open>unicode_width\<close>, the field \<open>oe_width\<close>), the encoding of messages, of images and of JSON, the reading
  of numbers, which instances run and how a connection fares.

  What modelling showed is kept as lemmas: \<open>second_bom_diverges\<close> (client and plugin each strip one byte
  order mark), \<open>readiness_taken_from_text\<close> (the client tells from the text of a failure that code was not
  run) and \<open>unknown_history_result_denied\<close> (an undo with an unknown answer is said not to have run).

  Not modelled, and why.  Memory that cannot be allocated (\<open>try_reserve\<close>) and poisoned locks, which end the
  call they occur in.  \<open>drive_timers\<close>, which sleeps until the next deadline and calls what is modelled, and
  the mutex under which screenshots are taken one at a time.  Resampling and encoding of images, which
  the \<open>image\<close> crate does.  Sockets, pipes and generated messages (\<open>rpc/src/transport\<close>), the declaration of arguments and help (\<open>cli/src/main.rs\<close>), the threads that write
  to the terminal (\<open>exec/writer.rs\<close>), process control (\<open>cli/src/process\<close>) and the C++ bridge, which are
  calls of the operating system, of \<open>tonic\<close>, of \<open>clap\<close> or of the host around the parts modelled here.
  Windows variants of paths are left out; the model is of a host that is not Windows.
\<close>

end
